(* ===== verification/Prelude.thy ===== *)
theory Prelude
  imports Main "HOL-Library.Word" "HOL-Library.Log_Nat"
begin

text \<open>
  Shared vocabulary of the development: the errors of the modelled TypeScript, the state
  passing reading of an \<open>async\<close> function (\<open>io\<close>) with its sequencing, loops and
  \<open>try\<close>/\<open>catch\<close>, the \<open>number\<close> arithmetic of JavaScript that the code uses (32-bit
  conversions, rounding of integers to 53 significant bits, safe integers), insertion ordered
  \<open>Map\<close>s, and the two proof calculi of the components: \<open>wp\<close> (what a run does to
  the world) and \<open>yields\<close> (what a run returns, whatever the world does).
\<close>

named_theorems wp_simps "weakest-precondition rewriting of io programs"
named_theorems yields_intro "introduction rules for facts about returned values"

unbundle bit_operations_syntax

subsection \<open>Errors and effects\<close>

text \<open>
  What a modelled function can throw: an \<open>Error\<close> with its message, a \<open>RangeError\<close> (reads
  past the end of a buffer), a \<open>TypeError\<close> (a property of \<open>undefined\<close>), an indexed read that gave \<open>undefined\<close>,
  the \<open>TimeoutError\<close> of a bounded call with its message, and a rejection that comes from code outside the repository (RPC, wallet, storage).
\<close>

datatype exn = Error string | RangeError | TypeError | UndefinedRead | TimedOut string | External nat

type_synonym byte = "8 word"
type_synonym bytes = "byte list"
type_synonym ('w, 'a) io = "'w \<Rightarrow> (exn + 'a) \<times> 'w"

definition ret :: "'a \<Rightarrow> ('w, 'a) io" where
  "ret a w = (Inr a, w)"

definition throw :: "exn \<Rightarrow> ('w, 'a) io" where
  "throw e w = (Inl e, w)"

definition bindE :: "('w, 'a) io \<Rightarrow> ('a \<Rightarrow> ('w, 'b) io) \<Rightarrow> ('w, 'b) io" where
  "bindE m f w = (case m w of (Inl e, w') \<Rightarrow> (Inl e, w') | (Inr a, w') \<Rightarrow> f a w')"

abbreviation seqE :: "('w, 'a) io \<Rightarrow> ('w, 'b) io \<Rightarrow> ('w, 'b) io" where
  "seqE m n \<equiv> bindE m (\<lambda>_. n)"

definition tryE :: "('w, 'a) io \<Rightarrow> (exn \<Rightarrow> ('w, 'a) io) \<Rightarrow> ('w, 'a) io" where
  "tryE m h w = (case m w of (Inl e, w') \<Rightarrow> h e w' | (Inr a, w') \<Rightarrow> (Inr a, w'))"

text \<open>\<open>try { ... } finally { fin }\<close>, for a clean-up that itself cannot throw.\<close>

definition finallyE :: "('w, 'a) io \<Rightarrow> ('w \<Rightarrow> 'w) \<Rightarrow> ('w, 'a) io" where
  "finallyE m fin w = (case m w of (r, w') \<Rightarrow> (r, fin w'))"

definition modify :: "('w \<Rightarrow> 'w) \<Rightarrow> ('w, unit) io" where
  "modify f w = (Inr (), f w)"

definition gets :: "('w \<Rightarrow> 'a) \<Rightarrow> ('w, 'a) io" where
  "gets f w = (Inr (f w), w)"

definition liftE :: "exn + 'a \<Rightarrow> ('w, 'a) io" where
  "liftE r w = (r, w)"

text \<open>A \<open>for (const x of xs)\<close> loop whose body updates local variables \<open>acc\<close>.\<close>

primrec forE :: "'x list \<Rightarrow> 's \<Rightarrow> ('x \<Rightarrow> 's \<Rightarrow> ('w, 's) io) \<Rightarrow> ('w, 's) io" where
  "forE [] acc body = ret acc"
| "forE (x # xs) acc body = bindE (body x acc) (\<lambda>acc'. forE xs acc' body)"

lemma ret_apply: "ret a w = (Inr a, w)"
  by (rule ret_def)

lemma throw_apply: "throw e w = (Inl e, w)"
  by (rule throw_def)

lemma modify_apply [simp]: "modify f w = (Inr (), f w)"
  by (simp add: modify_def)

lemma gets_apply [simp]: "gets f w = (Inr (f w), w)"
  by (simp add: gets_def)

lemma gets_const: "gets (\<lambda>_. a) = ret a"
  by (rule ext) (simp add: ret_apply)

lemma liftE_apply: "liftE r w = (r, w)"
  by (rule liftE_def)

lemma bindE_ret [simp]: "bindE (ret a) f = f a"
  by (rule ext) (simp add: bindE_def ret_def throw_def)

lemma bindE_throw [simp]: "bindE (throw e) f = throw e"
  by (rule ext) (simp add: bindE_def ret_def throw_def)

lemma bindE_ret_right [simp]: "bindE m ret = m"
  by (rule ext) (auto simp: bindE_def ret_def split: prod.splits sum.splits)

lemma bindE_assoc: "bindE (bindE m f) g = bindE m (\<lambda>a. bindE (f a) g)"
  by (rule ext) (auto simp: bindE_def split: prod.splits sum.splits)

lemma tryE_ret [simp]: "tryE (ret a) h = ret a"
  by (rule ext) (simp add: tryE_def ret_def throw_def)

lemma tryE_throw [simp]: "tryE (throw e) h = h e"
  by (rule ext) (simp add: tryE_def ret_def throw_def)

lemma forE_append: "forE (xs @ ys) acc body = bindE (forE xs acc body) (\<lambda>a. forE ys a body)"
  by (induction xs arbitrary: acc) (simp_all add: bindE_assoc)

subsection \<open>What a run does: weakest preconditions\<close>

definition wp :: "('w, 'a) io \<Rightarrow> ('a \<Rightarrow> 'w \<Rightarrow> bool) \<Rightarrow> (exn \<Rightarrow> 'w \<Rightarrow> bool) \<Rightarrow> 'w \<Rightarrow> bool" where
  "wp m Q E w = (case m w of (Inr a, w') \<Rightarrow> Q a w' | (Inl e, w') \<Rightarrow> E e w')"

lemma wp_ret [wp_simps]: "wp (ret a) Q E w = Q a w"
  by (simp add: wp_def ret_apply)

lemma wp_throw [wp_simps]: "wp (throw e) Q E w = E e w"
  by (simp add: wp_def throw_apply)

lemma wp_ret_fun [wp_simps]: "wp (ret a) Q E = Q a"
  by (rule ext) (rule wp_ret)

lemma wp_throw_fun [wp_simps]: "wp (throw e) Q E = E e"
  by (rule ext) (rule wp_throw)

lemma wp_bindE [wp_simps]: "wp (bindE m f) Q E w = wp m (\<lambda>a. wp (f a) Q E) E w"
  by (auto simp: wp_def bindE_def split: prod.splits sum.splits)

lemma wp_tryE [wp_simps]: "wp (tryE m h) Q E w = wp m Q (\<lambda>e. wp (h e) Q E) w"
  by (auto simp: wp_def tryE_def split: prod.splits sum.splits)

lemma wp_finallyE [wp_simps]:
  "wp (finallyE m fin) Q E w = wp m (\<lambda>a w'. Q a (fin w')) (\<lambda>e w'. E e (fin w')) w"
  by (auto simp: wp_def finallyE_def split: prod.splits sum.splits)

lemma wp_modify [wp_simps]: "wp (modify f) Q E w = Q () (f w)"
  by (simp add: wp_def)

lemma wp_gets [wp_simps]: "wp (gets f) Q E w = Q (f w) w"
  by (simp add: wp_def)

lemma wp_liftE [wp_simps]: "wp (liftE r) Q E w = (case r of Inr a \<Rightarrow> Q a w | Inl e \<Rightarrow> E e w)"
  by (auto simp: wp_def liftE_apply split: sum.splits)

lemma wp_if [wp_simps]: "wp (if b then m else n) Q E w = (if b then wp m Q E w else wp n Q E w)"
  by simp

lemma wp_mono:
  assumes "wp m Q E w" "\<And>a w'. Q a w' \<Longrightarrow> Q' a w'" "\<And>e w'. E e w' \<Longrightarrow> E' e w'"
  shows "wp m Q' E' w"
  using assms by (auto simp: wp_def split: prod.splits sum.splits)

text \<open>The loop rule: an invariant over the elements still to come.\<close>

lemma wp_forE:
  assumes "I xs acc w"
    and "\<And>x ys a v. I (x # ys) a v \<Longrightarrow> wp (body x a) (\<lambda>a' v'. I ys a' v') E v"
    and "\<And>a v. I [] a v \<Longrightarrow> Q a v"
  shows "wp (forE xs acc body) Q E w"
  using assms(1)
proof (induction xs arbitrary: acc w)
  case Nil
  then show ?case by (simp add: wp_ret assms(3))
next
  case (Cons x xs)
  have "wp (body x acc) (\<lambda>a' v'. I xs a' v') E w" by (rule assms(2)) (rule Cons.prems)
  then show ?case
    by (simp add: wp_bindE) (erule wp_mono, rule Cons.IH, simp_all)
qed

text \<open>\<open>try { x = m } catch { return r }\<close> followed by the rest \<open>k x\<close>, and \<open>try { m } catch { }\<close>.\<close>

definition or_return :: "('w, 'a) io \<Rightarrow> 'r \<Rightarrow> ('a \<Rightarrow> ('w, 'r) io) \<Rightarrow> ('w, 'r) io" where
  "or_return m r k =
     bindE (tryE (bindE m (\<lambda>a. ret (Some a))) (\<lambda>_. ret None))
       (\<lambda>x. case x of None \<Rightarrow> ret r | Some a \<Rightarrow> k a)"

definition quietly :: "('w, unit) io \<Rightarrow> ('w, unit) io" where
  "quietly m = tryE m (\<lambda>_. ret ())"

lemma wp_or_return [wp_simps]: "wp (or_return m r k) Q E w = wp m (\<lambda>a. wp (k a) Q E) (\<lambda>_. Q r) w"
  by (simp add: or_return_def wp_simps)

lemma wp_quietly [wp_simps]: "wp (quietly m) Q E w = wp m Q (\<lambda>_. Q ()) w"
  by (simp add: quietly_def wp_simps)

subsection \<open>What a run returns, whatever the world does\<close>

definition yields :: "('w, 'a) io \<Rightarrow> ('a \<Rightarrow> bool) \<Rightarrow> bool" where
  "yields m P \<longleftrightarrow> (\<forall>w a w'. m w = (Inr a, w') \<longrightarrow> P a)"

lemma yieldsD: "yields m P \<Longrightarrow> m w = (Inr a, w') \<Longrightarrow> P a"
  by (auto simp: yields_def)

lemma yields_ret [yields_intro]: "P a \<Longrightarrow> yields (ret a) P"
  by (simp add: yields_def ret_apply)

lemma yields_throw [yields_intro]: "yields (throw e) P"
  by (simp add: yields_def throw_apply)

lemma yields_True [simp]: "yields m (\<lambda>_. True)"
  by (simp add: yields_def)

lemma yields_mono: "yields m P \<Longrightarrow> (\<And>a. P a \<Longrightarrow> Q a) \<Longrightarrow> yields m Q"
  by (auto simp: yields_def)

lemma yields_bindE: "yields m P \<Longrightarrow> (\<And>a. P a \<Longrightarrow> yields (f a) Q) \<Longrightarrow> yields (bindE m f) Q"
  by (fastforce simp: yields_def bindE_def split: prod.splits sum.splits)

lemma yields_bindE_any [yields_intro]: "(\<And>a. yields (f a) Q) \<Longrightarrow> yields (bindE m f) Q"
  by (rule yields_bindE [where P = "\<lambda>_. True"]) simp_all

lemma yields_tryE [yields_intro]:
  "yields m P \<Longrightarrow> (\<And>e. yields (h e) P) \<Longrightarrow> yields (tryE m h) P"
  by (fastforce simp: yields_def tryE_def split: prod.splits sum.splits)

lemma yields_if [yields_intro]:
  "(b \<Longrightarrow> yields m P) \<Longrightarrow> (\<not> b \<Longrightarrow> yields n P) \<Longrightarrow> yields (if b then m else n) P"
  by simp

lemma yields_forE:
  assumes "P acc" "\<And>x a. x \<in> set xs \<Longrightarrow> P a \<Longrightarrow> yields (body x a) P"
  shows "yields (forE xs acc body) P"
  using assms
proof (induction xs arbitrary: acc)
  case Nil
  then show ?case by (simp add: yields_ret)
next
  case (Cons x xs)
  show ?case
    unfolding forE.simps
  proof (rule yields_bindE [where P = P])
    show "yields (body x acc) P" using Cons.prems by simp
    show "yields (forE xs a body) P" if "P a" for a
      using that by (rule Cons.IH) (simp add: Cons.prems)
  qed
qed

text \<open>A loop that appends to its output: what a view of the output grows by.\<close>

lemma yields_forE_collect:
  assumes "\<And>x a. x \<in> set xs \<Longrightarrow> yields (body x a) (\<lambda>a'. v a' = v a @ f x)"
  shows "yields (forE xs acc body) (\<lambda>a'. v a' = v acc @ concat (map f xs))"
  using assms
proof (induction xs arbitrary: acc)
  case (Cons x xs)
  show ?case
    unfolding forE.simps
  proof (rule yields_bindE)
    show "yields (body x acc) (\<lambda>a'. v a' = v acc @ f x)" using Cons.prems by simp
    fix a assume a: "v a = v acc @ f x"
    have "yields (forE xs a body) (\<lambda>a'. v a' = v a @ concat (map f xs))"
      by (rule Cons.IH) (simp add: Cons.prems)
    then show "yields (forE xs a body) (\<lambda>a'. v a' = v acc @ concat (map f (x # xs)))" by (simp add: a)
  qed
qed (simp add: yields_ret)

subsection \<open>Runs that always return\<close>

definition returns :: "('w, 'a) io \<Rightarrow> bool" where
  "returns m \<longleftrightarrow> (\<forall>w. \<exists>a w'. m w = (Inr a, w'))"

named_theorems returns_intro "introduction rules for runs that always return"

lemma returns_ret [returns_intro]: "returns (ret a)"
  by (simp add: returns_def ret_apply)

lemma returns_gets [returns_intro]: "returns (gets f)"
  by (simp add: returns_def)

lemma returns_modify [returns_intro]: "returns (modify f)"
  by (simp add: returns_def)

lemma returns_bindE [returns_intro]: "returns m \<Longrightarrow> (\<And>a. returns (f a)) \<Longrightarrow> returns (bindE m f)"
proof -
  assume m: "returns m" and f: "\<And>a. returns (f a)"
  have "\<exists>b w'. bindE m f w = (Inr b, w')" for w
  proof -
    obtain a v where "m w = (Inr a, v)" using m unfolding returns_def by blast
    moreover obtain b w' where "f a v = (Inr b, w')" using f unfolding returns_def by blast
    ultimately show ?thesis by (simp add: bindE_def)
  qed
  then show ?thesis by (simp add: returns_def)
qed

lemma returns_catch [returns_intro]: "(\<And>e. returns (h e)) \<Longrightarrow> returns (tryE m h)"
  by (fastforce simp: returns_def tryE_def split: prod.splits sum.splits)

lemma returns_if [returns_intro]: "(b \<Longrightarrow> returns m) \<Longrightarrow> (\<not> b \<Longrightarrow> returns n) \<Longrightarrow> returns (if b then m else n)"
  by simp

lemma returns_forE [returns_intro]: "(\<And>x a. returns (body x a)) \<Longrightarrow> returns (forE xs acc body)"
  by (induction xs arbitrary: acc) (simp_all add: returns_ret returns_bindE)

lemma returns_quietly [returns_intro]: "returns (quietly m)"
  unfolding quietly_def by (rule returns_catch) (rule returns_ret)

lemma returns_or_return [returns_intro]: "(\<And>a. returns (k a)) \<Longrightarrow> returns (or_return m r k)"
  unfolding or_return_def by (intro returns_bindE returns_catch) (auto intro: returns_ret split: option.splits)

lemma returns_yields: "returns m \<Longrightarrow> yields m P \<Longrightarrow> \<exists>a w'. m w = (Inr a, w') \<and> P a"
  by (fastforce simp: returns_def yields_def)

subsection \<open>JavaScript numbers\<close>

text \<open>
  The code's numbers that matter here are integers. The bitwise operators convert to 32 bits
  first; sums of large integers are rounded to 53 significant bits, ties to even.
\<close>

definition js_to_uint32 :: "int \<Rightarrow> int" where
  "js_to_uint32 x = x mod 2 ^ 32"

definition js_to_int32 :: "int \<Rightarrow> int" where
  "js_to_int32 x = (let u = x mod 2 ^ 32 in if 2 ^ 31 \<le> u then u - 2 ^ 32 else u)"

definition js_ushr :: "int \<Rightarrow> nat \<Rightarrow> int" where
  "js_ushr x s = js_to_uint32 x div 2 ^ (s mod 32)"

definition js_shl :: "int \<Rightarrow> nat \<Rightarrow> int" where
  "js_shl x s = js_to_int32 (x * 2 ^ (s mod 32))"

definition js_and :: "int \<Rightarrow> int \<Rightarrow> int" where
  "js_and x y = js_to_int32 x AND js_to_int32 y"

definition rnd53 :: "int \<Rightarrow> int" where
  "rnd53 x =
     (let a = \<bar>x\<bar> in
      if a \<le> 2 ^ 53 then x
      else let e = nat (bitlen a) - 53;
               q = a div 2 ^ e; r = a mod 2 ^ e; h = 2 ^ (e - 1);
               q' = (if r > h \<or> (r = h \<and> odd q) then q + 1 else q)
           in sgn x * (q' * 2 ^ e))"

definition js_add :: "int \<Rightarrow> int \<Rightarrow> int" where
  "js_add x y = rnd53 (x + y)"

definition max_safe :: int where
  "max_safe = 9007199254740991"

definition is_safe_integer :: "int \<Rightarrow> bool" where
  "is_safe_integer n \<longleftrightarrow> \<bar>n\<bar> \<le> max_safe"

lemma rnd53_small [simp]: "\<bar>x\<bar> \<le> 2 ^ 53 \<Longrightarrow> rnd53 x = x"
  by (simp add: rnd53_def Let_def)

lemma js_add_exact: "\<bar>x + y\<bar> \<le> 2 ^ 53 \<Longrightarrow> js_add x y = x + y"
  by (simp add: js_add_def)

lemma js_to_uint32_id [simp]: "0 \<le> x \<Longrightarrow> x < 2 ^ 32 \<Longrightarrow> js_to_uint32 x = x"
  by (simp add: js_to_uint32_def)

lemma js_to_int32_mod: "js_to_int32 x mod 2 ^ 32 = x mod 2 ^ 32"
  by (simp add: js_to_int32_def Let_def mod_diff_right_eq)

lemma js_to_int32_odd: "odd (js_to_int32 x) = odd x"
proof -
  have "js_to_int32 x mod 2 ^ 32 mod 2 = x mod 2 ^ 32 mod 2"
    by (simp only: js_to_int32_mod)
  then have "js_to_int32 x mod 2 = x mod 2" by (simp add: mod_mod_cancel)
  then show ?thesis by (simp add: odd_iff_mod_2_eq_one)
qed

lemma js_and_one: "js_and x 1 = (if odd x then 1 else 0)"
proof -
  have "js_to_int32 1 = 1" by (simp add: js_to_int32_def)
  then have "js_and x 1 = js_to_int32 x AND 1" by (simp add: js_and_def)
  also have "\<dots> = js_to_int32 x mod 2" by (simp add: and_one_eq)
  finally show ?thesis using js_to_int32_odd [of x] by (auto simp: odd_iff_mod_2_eq_one)
qed

subsection \<open>Insertion ordered maps\<close>

text \<open>
  A JavaScript \<open>Map\<close> keeps the position of a key's first insertion; \<open>set\<close> on a present key
  overwrites in place.
\<close>

fun jsmap_set :: "'k \<Rightarrow> 'v \<Rightarrow> ('k \<times> 'v) list \<Rightarrow> ('k \<times> 'v) list" where
  "jsmap_set k v [] = [(k, v)]"
| "jsmap_set k v ((k', v') # m) = (if k' = k then (k, v) # m else (k', v') # jsmap_set k v m)"

lemma jsmap_set_lookup: "map_of (jsmap_set k v m) = (map_of m)(k \<mapsto> v)"
  by (induction k v m rule: jsmap_set.induct) (auto simp: fun_eq_iff)

lemma jsmap_set_keys: "set (map fst (jsmap_set k v m)) = insert k (set (map fst m))"
  by (induction k v m rule: jsmap_set.induct) auto

lemma jsmap_set_distinct: "distinct (map fst m) \<Longrightarrow> distinct (map fst (jsmap_set k v m))"
proof (induction k v m rule: jsmap_set.induct)
  case (2 k v k' v' m)
  then show ?case using jsmap_set_keys [of k v m] by auto
qed simp

subsection \<open>Little-endian byte strings\<close>

text \<open>\<open>readUInt16LE\<close>, \<open>readUInt32LE\<close>, \<open>readBigUInt64LE\<close> and \<open>new BN(slice, 'le')\<close> are all this sum.\<close>

fun le_nat :: "bytes \<Rightarrow> nat" where
  "le_nat [] = 0"
| "le_nat (b # bs) = unat b + 256 * le_nat bs"

primrec to_le :: "nat \<Rightarrow> nat \<Rightarrow> bytes" where
  "to_le 0 v = []"
| "to_le (Suc n) v = word_of_nat v # to_le n (v div 256)"

lemma length_to_le [simp]: "length (to_le n v) = n"
  by (induction n arbitrary: v) simp_all

lemma le_nat_bound: "le_nat bs < 256 ^ length bs"
proof (induction bs)
  case (Cons b bs)
  have "unat b < 256" using unsigned_less [of b] by simp
  then show ?case using Cons by simp
qed simp

lemma le_nat_to_le: "v < 256 ^ n \<Longrightarrow> le_nat (to_le n v) = v"
proof (induction n arbitrary: v)
  case (Suc n)
  have "v div 256 < 256 ^ n" using Suc.prems by (simp add: less_mult_imp_div_less mult.commute)
  then show ?case using Suc.IH [of "v div 256"] by (simp add: unat_of_nat)
qed simp

lemma to_le_le_nat: "to_le (length bs) (le_nat bs) = bs"
proof (induction bs)
  case (Cons b bs)
  have b: "unat b < 256" using unsigned_less [of b] by simp
  have "(unat b + 256 * le_nat bs) div 256 = le_nat bs" using b by simp
  moreover have "word_of_nat (unat b + 256 * le_nat bs) = b"
  proof -
    have z: "(256 :: byte) = 0" by (simp add: word_unat_eq_iff)
    show ?thesis by (simp add: z)
  qed
  ultimately show ?case using Cons by simp
qed simp


subsection \<open>Numbers as text\<close>

text \<open>\<open>String(n)\<close> for an integer of moderate size.\<close>

definition digit :: "nat \<Rightarrow> char" where
  "digit d = char_of (48 + d)"

fun nat_str :: "nat \<Rightarrow> string" where
  "nat_str n = (if n < 10 then [digit n] else nat_str (n div 10) @ [digit (n mod 10)])"

declare nat_str.simps [simp del]

definition int_str :: "int \<Rightarrow> string" where
  "int_str i = (if i < 0 then CHR ''-'' # nat_str (nat (- i)) else nat_str (nat i))"

lemma of_char_digit: "d < 10 \<Longrightarrow> of_char (digit d) = (48 + d :: nat)"
  by (simp add: digit_def)

definition digits :: "string \<Rightarrow> bool" where
  "digits s \<longleftrightarrow> list_all (\<lambda>c. 48 \<le> (of_char c :: nat) \<and> (of_char c :: nat) \<le> 57) s"

lemma digits_nat_str: "digits (nat_str n) \<and> nat_str n \<noteq> []"
proof (induction n rule: nat_str.induct)
  case (1 n)
  show ?case
  proof (cases "n < 10")
    case True
    then show ?thesis by (simp add: nat_str.simps [of n] digits_def of_char_digit)
  next
    case False
    with 1 show ?thesis by (simp add: nat_str.simps [of n] digits_def of_char_digit)
  qed
qed

definition str_nat :: "string \<Rightarrow> nat" where
  "str_nat s = foldl (\<lambda>v c. 10 * v + (of_char c - 48)) 0 s"

lemma str_nat_nat_str: "str_nat (nat_str n) = n"
proof (induction n rule: nat_str.induct)
  case (1 n)
  show ?case
  proof (cases "n < 10")
    case True
    then show ?thesis by (simp add: nat_str.simps [of n] str_nat_def of_char_digit)
  next
    case False
    with 1 have "str_nat (nat_str (n div 10)) = n div 10" by blast
    with False show ?thesis by (simp add: nat_str.simps [of n] str_nat_def of_char_digit)
  qed
qed

lemma nat_str_inj: "nat_str a = nat_str b \<longleftrightarrow> a = b"
  using str_nat_nat_str by metis

lemma digit_not: "digits s \<Longrightarrow> c \<in> set s \<Longrightarrow> 48 \<le> (of_char c :: nat) \<and> (of_char c :: nat) \<le> 57"
  by (auto simp: digits_def list_all_iff)

lemma int_str_inj: "int_str a = int_str b \<longleftrightarrow> a = b"
proof
  assume e: "int_str a = int_str b"
  have minus: "CHR ''-'' \<notin> set (nat_str n)" for n
    using digits_nat_str [of n] digit_not [of "nat_str n" "CHR ''-''"] by auto
  have ne: "nat_str n \<noteq> CHR ''-'' # s" for n s using minus [of n] by auto
  show "a = b"
    using e ne ne [symmetric] by (auto simp: int_str_def nat_str_inj split: if_splits)
qed simp

subsection \<open>Lines of text\<close>

text \<open>\<open>parts.join(sep)\<close>.\<close>

fun join :: "string \<Rightarrow> string list \<Rightarrow> string" where
  "join sep [] = []"
| "join sep [s] = s"
| "join sep (s # t # ss) = s @ sep @ join sep (t # ss)"

definition newline :: string where
  "newline = [CHR 0x0A]"

definition one_line :: "string \<Rightarrow> bool" where
  "one_line s \<longleftrightarrow> CHR 0x0A \<notin> set s"

lemma join_Cons: "ss \<noteq> [] \<Longrightarrow> join sep (s # ss) = s @ sep @ join sep ss"
  by (cases ss) simp_all

lemma first_line: "one_line s \<Longrightarrow> takeWhile (\<lambda>c. c \<noteq> CHR 0x0A) (join newline (s # ss)) = s"
proof -
  assume s: "one_line s"
  have t: "takeWhile (\<lambda>c. c \<noteq> CHR 0x0A) s = s" using s by (auto simp: one_line_def takeWhile_eq_all_conv)
  show ?thesis
  proof (cases ss)
    case Nil
    then show ?thesis by (simp add: t)
  next
    case (Cons a as)
    have "takeWhile (\<lambda>c. c \<noteq> CHR 0x0A) (s @ CHR 0x0A # r) = s" for r
      using s by (induction s) (auto simp: one_line_def)
    then show ?thesis by (simp add: Cons newline_def)
  qed
qed

text \<open>Lines without line breaks can be read back from the joined text.\<close>

lemma join_lines_inj:
  "list_all one_line xs \<Longrightarrow> list_all one_line ys \<Longrightarrow> xs \<noteq> [] \<Longrightarrow> ys \<noteq> [] \<Longrightarrow>
   join newline xs = join newline ys \<Longrightarrow> xs = ys"
proof (induction xs arbitrary: ys)
  case (Cons x xs)
  obtain y ys' where ys: "ys = y # ys'" using Cons.prems by (cases ys) auto
  have "x = y" using first_line [of x xs] first_line [of y ys'] Cons.prems by (simp add: ys)
  moreover have nl: "one_line s \<Longrightarrow> join newline (s # ss) = s \<longleftrightarrow> ss = []" for s ss
    by (cases ss) (auto simp: newline_def one_line_def)
  ultimately have e: "xs = [] \<longleftrightarrow> ys' = []" using Cons.prems nl [of x xs] nl [of y ys'] by (auto simp: ys)
  show ?case
  proof (cases "xs = []")
    case True
    then show ?thesis using e \<open>x = y\<close> by (simp add: ys)
  next
    case False
    then have "join newline xs = join newline ys'"
      using Cons.prems e \<open>x = y\<close> by (simp add: ys join_Cons)
    then show ?thesis using Cons.IH [of ys'] Cons.prems False e \<open>x = y\<close> by (simp add: ys)
  qed
qed simp

lemma one_line_append [simp]: "one_line (s @ t) \<longleftrightarrow> one_line s \<and> one_line t"
  by (auto simp: one_line_def)

lemma one_line_nat_str [simp]: "one_line (nat_str n)"
  using digits_nat_str [of n] digit_not [of "nat_str n" "CHR 0x0A"] by (auto simp: one_line_def)

lemma one_line_int_str [simp]: "one_line (int_str i)"
  using one_line_nat_str by (auto simp: int_str_def one_line_def)

text \<open>\<open>Buffer.from(s, 'utf8')\<close> for text whose characters are below U+0100, and \<open>toLowerCase\<close> on ASCII.\<close>

definition utf8_char :: "char \<Rightarrow> bytes" where
  "utf8_char c =
     (let n = of_char c :: nat in
      if n < 128 then [word_of_nat n] else [word_of_nat (192 + n div 64), word_of_nat (128 + n mod 64)])"

definition utf8 :: "string \<Rightarrow> bytes" where
  "utf8 s = concat (map utf8_char s)"

definition ascii_lower :: "char \<Rightarrow> nat" where
  "ascii_lower c = (let n = of_char c in if 65 \<le> n \<and> n \<le> 90 then n + 32 else n)"

definition to_lower :: "string \<Rightarrow> string" where
  "to_lower s = map (\<lambda>c. char_of (ascii_lower c)) s"

end
