(* ===== verification/Net.thy ===== *)
theory Net
  imports Prelude Complex_Main
begin

text \<open>
  The network helpers of \<open>utils/fetchWithRetry.ts\<close>: a request repeated with exponential back-off
  while the server answers 429, and the JSON-RPC call on top of it. \<open>fetch\<close>, timers, random
  numbers and \<open>JSON.stringify\<close> are parameters (fields of \<open>net\<close>); a rate limit is reported to the
  status store (\<open>store/useRpcStatusStore.ts\<close>) as the code does.
\<close>

subsection \<open>JSON values and responses\<close>

text \<open>A number is an integer or, as \<open>JFrac\<close>, not one.\<close>

datatype json = JUndef | JNull | JBool bool | JNum int | JFrac rat | JStr string | JArr "json list"
  | JObj "(string \<times> json) list"

fun js_truthy :: "json \<Rightarrow> bool" where
  "js_truthy (JBool b) = b"
| "js_truthy (JNum n) = (n \<noteq> 0)"
| "js_truthy (JStr s) = (s \<noteq> [])"
| "js_truthy JUndef = False"
| "js_truthy JNull = False"
| "js_truthy v = True"

text \<open>\<open>v.name\<close>: a \<open>TypeError\<close> on \<open>undefined\<close> and \<open>null\<close>, \<open>undefined\<close> when there is no such field.\<close>

fun js_get :: "string \<Rightarrow> json \<Rightarrow> exn + json" where
  "js_get k (JObj fs) = Inr (case map_of fs k of Some v \<Rightarrow> v | None \<Rightarrow> JUndef)"
| "js_get k JUndef = Inl TypeError"
| "js_get k JNull = Inl TypeError"
| "js_get k v = Inr JUndef"

text \<open>The same read on a value that is known not to be \<open>undefined\<close> or \<open>null\<close>.\<close>

fun js_field :: "string \<Rightarrow> json \<Rightarrow> json" where
  "js_field k (JObj fs) = (case map_of fs k of Some v \<Rightarrow> v | None \<Rightarrow> JUndef)"
| "js_field k v = JUndef"

record request =
  rq_url :: string
  rq_method :: string
  rq_body :: json

text \<open>\<open>await response.json()\<close> rejects when there is no JSON body.\<close>

record response =
  status :: nat
  body :: "json option"

definition response_ok :: "response \<Rightarrow> bool" where
  "response_ok r \<longleftrightarrow> 200 \<le> status r \<and> status r \<le> 299"

record 'w net =
  fetch :: "request \<Rightarrow> ('w, response) io"
  sleep_ms :: "rat \<Rightarrow> ('w, unit) io"
  random01 :: "('w, rat) io"
  stringify :: "json \<Rightarrow> string"
  set_rate_limited :: "'w \<Rightarrow> 'w"

subsection \<open>fetchWithRetry\<close>

definition DEFAULT_MAX_RETRIES :: nat where
  "DEFAULT_MAX_RETRIES = 3"

definition reportRateLimited :: "'w net \<Rightarrow> ('w, unit) io" where
  "reportRateLimited N = modify (set_rate_limited N)"

definition backoff :: "nat \<Rightarrow> rat \<Rightarrow> rat" where
  "backoff attempt r = 200 * 2 ^ attempt + r * 100"

text \<open>The loop over \<open>attempt\<close>, with the number of attempts still allowed as second argument.\<close>

fun fetch_loop :: "'w net \<Rightarrow> request \<Rightarrow> nat \<Rightarrow> nat \<Rightarrow> ('w, response) io" where
  "fetch_loop N req attempt 0 = fetch N req"
| "fetch_loop N req attempt (Suc left) =
     bindE (fetch N req) (\<lambda>response.
     if status response \<noteq> 429 then ret response
     else
     seqE (reportRateLimited N) (
     bindE (random01 N) (\<lambda>r.
     seqE (sleep_ms N (backoff attempt r)) (
     fetch_loop N req (Suc attempt) left))))"

definition fetchWithRetry :: "'w net \<Rightarrow> request \<Rightarrow> nat \<Rightarrow> ('w, response) io" where
  "fetchWithRetry N req maxRetries = fetch_loop N req 0 maxRetries"

subsection \<open>rpcWithRetry\<close>

text \<open>The test \<open>/rate.?limit|too many request/i\<close>; the dot does not match a line terminator.\<close>

definition lower_char :: "char \<Rightarrow> char" where
  "lower_char c = (let n = of_char c :: nat in if 65 \<le> n \<and> n \<le> 90 then char_of (n + 32) else c)"

definition starts_with :: "string \<Rightarrow> string \<Rightarrow> bool" where
  "starts_with p s \<longleftrightarrow> take (length p) s = p"

definition rate_limit_here :: "string \<Rightarrow> bool" where
  "rate_limit_here s \<longleftrightarrow>
     starts_with ''ratelimit'' s
     \<or> (starts_with ''rate'' s
        \<and> (case drop 4 s of [] \<Rightarrow> False
             | c # rest \<Rightarrow> c \<noteq> CHR 0x0A \<and> c \<noteq> CHR 0x0D \<and> starts_with ''limit'' rest))
     \<or> starts_with ''too many request'' s"

fun rate_limit_msg :: "string \<Rightarrow> bool" where
  "rate_limit_msg [] = False"
| "rate_limit_msg (c # s) = (rate_limit_here (map lower_char (c # s)) \<or> rate_limit_msg s)"

definition rpc_request :: "string \<Rightarrow> string \<Rightarrow> json list \<Rightarrow> request" where
  "rpc_request rpcUrl meth params =
     \<lparr>rq_url = rpcUrl, rq_method = ''POST'',
      rq_body = JObj [(''jsonrpc'', JStr ''2.0''), (''id'', JStr meth), (''method'', JStr meth),
                      (''params'', JArr params)]\<rparr>"

definition rpcWithRetry :: "'w net \<Rightarrow> string \<Rightarrow> string \<Rightarrow> json list \<Rightarrow> nat \<Rightarrow> ('w, json) io" where
  "rpcWithRetry N rpcUrl meth params maxRetries =
     bindE (fetchWithRetry N (rpc_request rpcUrl meth params) maxRetries) (\<lambda>response.
     if \<not> response_ok response
     then throw (Error (''RPC '' @ meth @ '' failed: HTTP '' @ nat_str (status response)))
     else
     bindE (case body response of Some d \<Rightarrow> ret d | None \<Rightarrow> throw (Error ''invalid JSON'')) (\<lambda>data.
     bindE (liftE (js_get ''error'' data)) (\<lambda>err.
     if js_truthy err then
       bindE (liftE (js_get ''message'' err)) (\<lambda>message.
       let msg = (case message of JStr m \<Rightarrow> if m \<noteq> [] then m else stringify N err | _ \<Rightarrow> stringify N err) in
       bindE (liftE (js_get ''code'' err)) (\<lambda>code.
       seqE (if code = JNum 429 \<or> rate_limit_msg msg then reportRateLimited N else ret ())
            (throw (Error (''RPC '' @ meth @ '' error: '' @ msg)))))
     else liftE (js_get ''result'' data))))"

subsection \<open>Scripted networks\<close>

text \<open>
  A network that answers from a list and counts the requests, the pauses and the reported limits:
  enough to state which answer the retry returns.
\<close>

record script =
  answers :: "response list"
  asked :: nat
  pauses :: "rat list"
  limited :: nat

definition scripted :: "script net" where
  "scripted =
     \<lparr>fetch = (\<lambda>req s. case answers s of [] \<Rightarrow> (Inl (External 0), s\<lparr>asked := Suc (asked s)\<rparr>)
                | r # rs \<Rightarrow> (Inr r, s\<lparr>answers := rs, asked := Suc (asked s)\<rparr>)),
      sleep_ms = (\<lambda>d. modify (\<lambda>s. s\<lparr>pauses := pauses s @ [d]\<rparr>)),
      random01 = ret 0, stringify = (\<lambda>_. ''json''),
      set_rate_limited = (\<lambda>s. s\<lparr>limited := Suc (limited s)\<rparr>)\<rparr>"

lemma scripted_fetch:
  "fetch scripted req \<lparr>answers = r # rs, asked = a, pauses = p, limited = l\<rparr>
     = (Inr r, \<lparr>answers = rs, asked = Suc a, pauses = p, limited = l\<rparr>)"
  by (simp add: scripted_def)

lemma scripted_ops:
  "random01 scripted = ret 0" "sleep_ms scripted d = modify (\<lambda>s. s\<lparr>pauses := pauses s @ [d]\<rparr>)"
  "reportRateLimited scripted = modify (\<lambda>s. s\<lparr>limited := Suc (limited s)\<rparr>)"
  by (simp_all add: scripted_def reportRateLimited_def)

lemma scripted_step:
  "fetch_loop scripted req attempt (Suc left) \<lparr>answers = r # rs, asked = a, pauses = p, limited = l\<rparr>
     = (if status r \<noteq> 429 then (Inr r, \<lparr>answers = rs, asked = Suc a, pauses = p, limited = l\<rparr>)
        else fetch_loop scripted req (Suc attempt) left
          \<lparr>answers = rs, asked = Suc a, pauses = p @ [backoff attempt 0], limited = Suc l\<rparr>)"
  by (simp add: bindE_def scripted_fetch ret_apply scripted_ops)

lemma scripted_loop:
  "left < length rs \<Longrightarrow>
   fetch_loop scripted req attempt left \<lparr>answers = rs, asked = a, pauses = p, limited = l\<rparr>
   = (let k = length (takeWhile (\<lambda>r. status r = 429) (take left rs))
      in (Inr (rs ! k), \<lparr>answers = drop (Suc k) rs, asked = a + Suc k,
            pauses = p @ map (\<lambda>i. backoff (attempt + i) 0) [0..<k], limited = l + k\<rparr>))"
proof (induction left arbitrary: rs attempt a p l)
  case 0
  then obtain r rs' where "rs = r # rs'" by (cases rs) auto
  then show ?case by (simp add: scripted_fetch)
next
  case (Suc left)
  then obtain r rs' where rs: "rs = r # rs'" by (cases rs) auto
  have up: "map (\<lambda>i. backoff (attempt + i) 0) [0..<Suc k]
      = backoff attempt 0 # map (\<lambda>i. backoff (Suc attempt + i) 0) [0..<k]" for k
    by (simp add: upt_conv_Cons map_Suc_upt [symmetric] del: upt_Suc)
  show ?case
    using Suc.IH [of rs' "Suc attempt" "Suc a" "p @ [backoff attempt 0]" "Suc l"] Suc.prems
    by (simp add: rs scripted_step Let_def up del: fetch_loop.simps upt_Suc)
qed

subsection \<open>Properties\<close>

text \<open>
  \<open>fetchWithRetry\<close> returns the first answer that is not 429 among the first \<open>maxRetries\<close>
  ones, and otherwise the next answer whatever it is; it asks once more than the limited answers
  before that, never more than \<open>maxRetries + 1\<close> times, pausing 200, 400, 800, ... ms.
\<close>

theorem fetch_returns_first_unlimited:
  assumes "maxRetries < length rs"
  shows "\<exists>k\<le>maxRetries. fetchWithRetry scripted req maxRetries \<lparr>answers = rs, asked = 0, pauses = [], limited = 0\<rparr>
      = (Inr (rs ! k), \<lparr>answers = drop (Suc k) rs, asked = Suc k,
           pauses = map (\<lambda>i. 200 * 2 ^ i) [0..<k], limited = k\<rparr>)
    \<and> list_all (\<lambda>r. status r = 429) (take k rs) \<and> (k < maxRetries \<longrightarrow> status (rs ! k) \<noteq> 429)"
proof -
  let ?k = "length (takeWhile (\<lambda>r. status r = 429) (take maxRetries rs))"
  have k: "?k \<le> maxRetries" by (rule order_trans [OF length_takeWhile_le]) simp
  have pre: "take ?k rs = takeWhile (\<lambda>r. status r = 429) (take maxRetries rs)"
    using k by (metis takeWhile_eq_take take_take min.absorb1)
  have stop: "?k < maxRetries \<Longrightarrow> status (rs ! ?k) \<noteq> 429"
    using nth_length_takeWhile [of "\<lambda>r. status r = 429" "take maxRetries rs"] assms by simp
  show ?thesis
    using scripted_loop [OF assms, of req 0 0 "[]" 0] k pre stop
    by (intro exI [of _ ?k]) (auto simp: fetchWithRetry_def Let_def backoff_def list_all_iff dest: set_takeWhileD)
qed

definition ex_limited :: response where
  "ex_limited = \<lparr>status = 429, body = None\<rparr>"

definition ex_fine :: response where
  "ex_fine = \<lparr>status = 200, body = Some (JObj [(''result'', JNum 7)])\<rparr>"

theorem fetch_returns_first_unlimited_witness:
  "\<exists>k\<le>3. fetchWithRetry scripted (rpc_request ''u'' ''m'' []) 3
      \<lparr>answers = [ex_limited, ex_limited, ex_fine, ex_fine], asked = 0, pauses = [], limited = 0\<rparr>
      = (Inr ([ex_limited, ex_limited, ex_fine, ex_fine] ! k),
         \<lparr>answers = drop (Suc k) [ex_limited, ex_limited, ex_fine, ex_fine], asked = Suc k,
           pauses = map (\<lambda>i. 200 * 2 ^ i) [0..<k], limited = k\<rparr>)"
  using fetch_returns_first_unlimited [of 3 "[ex_limited, ex_limited, ex_fine, ex_fine]" "rpc_request ''u'' ''m'' []"]
  by auto

end
