(* ===== verification/Local_Db.thy ===== *)
theory Local_Db
  imports Net
begin

text \<open>
  The on-device database: \<open>db/database.ts\<close> and the repositories \<open>settingsRepo.ts\<close>,
  \<open>executionRepo.ts\<close> and \<open>heartbeatRepo.ts\<close>. The tables are lists of rows in insertion order
  and a map for the key/value table; each statement of the source is the operation on the tables that
  its SQL text describes. SQLite may reject any statement: the world carries the list of failures.
  The contract of the key/value part is the locale \<open>kv_store\<close>, which the services rely on.
\<close>

subsection \<open>Tables and statements\<close>

record step_row =
  sr_id :: string
  sr_order :: int
  sr_type :: string
  sr_status :: string
  sr_description :: string
  sr_tx :: "string option"
  sr_error :: "string option"
  sr_metadata :: "string option"
  sr_started :: "int option"
  sr_completed :: "int option"

record hb_row =
  hb_id :: nat
  hb_timestamp :: int
  hb_how :: string
  hb_tx :: "string option"
  hb_created :: int

record tables =
  t_settings :: "string \<rightharpoonup> string"
  t_steps :: "step_row list"
  t_heartbeats :: "hb_row list"
  t_next_id :: nat

definition empty_tables :: tables where
  "empty_tables = \<lparr>t_settings = Map.empty, t_steps = [], t_heartbeats = [], t_next_id = 1\<rparr>"

text \<open>
  The part of the world the repositories see. \<open>sql_faults n\<close> says whether SQLite rejects the
  \<open>n\<close>-th statement; \<open>now_ms\<close> is \<open>Date.now()\<close>.
\<close>

record device =
  db_open :: bool
  db :: tables
  sql_faults :: "nat \<Rightarrow> bool"
  sql_count :: nat
  now_ms :: int

definition not_initialized :: exn where
  "not_initialized = Error ''Database not initialized. Call initDatabase() first.''"

text \<open>\<open>getDb()\<close>.\<close>

definition getDb :: "('e device_scheme, unit) io" where
  "getDb = bindE (gets db_open) (\<lambda>ok. if ok then ret () else throw not_initialized)"

definition sql :: "(tables \<Rightarrow> 'a \<times> tables) \<Rightarrow> ('e device_scheme, 'a) io" where
  "sql f w =
     (let w' = w\<lparr>sql_count := Suc (sql_count w)\<rparr> in
      if sql_faults w (sql_count w) then (Inl (External 1), w')
      else let (a, t) = f (db w) in (Inr a, w'\<lparr>db := t\<rparr>))"

text \<open>\<open>CREATE TABLE IF NOT EXISTS\<close> keeps the rows that are there.\<close>

definition initDatabase :: "('e device_scheme, unit) io" where
  "initDatabase = seqE (modify (\<lambda>w. w\<lparr>db_open := True\<rparr>)) (sql (\<lambda>t. ((), t)))"

definition now_sec :: "('e device_scheme, int) io" where
  "now_sec = gets (\<lambda>w. now_ms w div 1000)"

subsection \<open>settingsRepo\<close>

definition getSetting :: "string \<Rightarrow> ('e device_scheme, string option) io" where
  "getSetting key = seqE getDb (sql (\<lambda>t. (t_settings t key, t)))"

definition setSetting :: "string \<Rightarrow> string \<Rightarrow> ('e device_scheme, unit) io" where
  "setSetting key v = seqE getDb (sql (\<lambda>t. ((), t\<lparr>t_settings := (t_settings t)(key \<mapsto> v)\<rparr>)))"

definition deleteSetting :: "string \<Rightarrow> ('e device_scheme, unit) io" where
  "deleteSetting key = seqE getDb (sql (\<lambda>t. ((), t\<lparr>t_settings := (t_settings t)(key := None)\<rparr>)))"

subsection \<open>executionRepo\<close>

text \<open>SQLite's \<open>LIKE\<close>: \<open>%\<close> is any text, \<open>_\<close> any character, letters without case.\<close>

fun sql_like :: "string \<Rightarrow> string \<Rightarrow> bool" where
  "sql_like [] s = (s = [])"
| "sql_like (p # ps) s =
     (if p = CHR ''%'' then sql_like ps s \<or> (case s of [] \<Rightarrow> False | _ # s' \<Rightarrow> sql_like (p # ps) s')
      else case s of [] \<Rightarrow> False
           | c # s' \<Rightarrow> (p = CHR ''_'' \<or> ascii_lower p = ascii_lower c) \<and> sql_like ps s')"

record execution_step =
  es_id :: string
  es_type :: string
  es_status :: string
  es_description :: string
  es_tx :: "string option"
  es_error :: "string option"
  es_order :: int
  es_metadata :: "json option"
  es_started :: "int option"
  es_completed :: "int option"

definition scoped_id :: "string \<Rightarrow> string \<Rightarrow> string" where
  "scoped_id owner stepId = owner @ ''_'' @ stepId"

definition owner_pattern :: "string \<Rightarrow> string" where
  "owner_pattern owner = owner @ ''_%''"

definition step_row_of :: "(json \<Rightarrow> string) \<Rightarrow> string \<Rightarrow> execution_step \<Rightarrow> step_row" where
  "step_row_of J ident s =
     \<lparr>sr_id = ident, sr_order = es_order s, sr_type = es_type s, sr_status = es_status s,
      sr_description = es_description s, sr_tx = es_tx s, sr_error = es_error s,
      sr_metadata = (case es_metadata s of None \<Rightarrow> None | Some j \<Rightarrow> if js_truthy j then Some (J j) else None),
      sr_started = es_started s, sr_completed = es_completed s\<rparr>"

text \<open>\<open>INSERT OR REPLACE\<close> on the primary key.\<close>

definition replace_step :: "step_row \<Rightarrow> step_row list \<Rightarrow> step_row list" where
  "replace_step r rs = filter (\<lambda>x. sr_id x \<noteq> sr_id r) rs @ [r]"

definition saveExecutionStep :: "(json \<Rightarrow> string) \<Rightarrow> execution_step \<Rightarrow> string \<Rightarrow> ('e device_scheme, unit) io" where
  "saveExecutionStep J step owner = seqE getDb (
     let scopedId = scoped_id owner (es_id step) in
     sql (\<lambda>t. ((), t\<lparr>t_steps := replace_step (step_row_of J scopedId step) (t_steps t)\<rparr>)))"

definition step_of_row :: "(string \<Rightarrow> json option) \<Rightarrow> step_row \<Rightarrow> exn + execution_step" where
  "step_of_row P r =
     (let mk = (\<lambda>m. \<lparr>es_id = sr_id r, es_type = sr_type r, es_status = sr_status r,
                es_description = sr_description r, es_tx = sr_tx r, es_error = sr_error r,
                es_order = sr_order r, es_metadata = m, es_started = sr_started r,
                es_completed = sr_completed r\<rparr>) in
      case sr_metadata r of None \<Rightarrow> Inr (mk None)
      | Some s \<Rightarrow> if s = [] then Inr (mk None)
                 else (case P s of None \<Rightarrow> Inl (External 2) | Some j \<Rightarrow> Inr (mk (Some j))))"

fun map_sum :: "('a \<Rightarrow> exn + 'b) \<Rightarrow> 'a list \<Rightarrow> exn + 'b list" where
  "map_sum f [] = Inr []"
| "map_sum f (x # xs) =
     (case f x of Inl e \<Rightarrow> Inl e
      | Inr y \<Rightarrow> (case map_sum f xs of Inl e \<Rightarrow> Inl e | Inr ys \<Rightarrow> Inr (y # ys)))"

definition getExecutionSteps :: "(string \<Rightarrow> json option) \<Rightarrow> string option \<Rightarrow> ('e device_scheme, execution_step list) io" where
  "getExecutionSteps P ownerWallet = seqE getDb (
     let pick = (case ownerWallet of None \<Rightarrow> (\<lambda>r. True)
                 | Some o' \<Rightarrow> if o' = [] then (\<lambda>r. True) else (\<lambda>r. sql_like (owner_pattern o') (sr_id r))) in
     bindE (sql (\<lambda>t. (sort_key sr_order (filter pick (t_steps t)), t))) (\<lambda>rows.
     liftE (map_sum (step_of_row P) rows)))"

definition getLastCompletedStep :: "string \<Rightarrow> ('e device_scheme, int) io" where
  "getLastCompletedStep owner = seqE getDb (
     bindE (sql (\<lambda>t. (map sr_order (filter (\<lambda>r. sr_status r = ''completed''
                          \<and> sql_like (owner_pattern owner) (sr_id r)) (t_steps t)), t))) (\<lambda>orders.
     ret (case orders of [] \<Rightarrow> - 1 | _ \<Rightarrow> Max (set orders))))"

definition snapshot_key :: "string \<Rightarrow> string" where
  "snapshot_key owner = ''distributable_snapshot_'' @ owner"

definition token_snapshot_key :: "string \<Rightarrow> string" where
  "token_snapshot_key owner = ''token_snapshot_'' @ owner"

text \<open>\<open>Number\<close> on the stored text is a parameter; the code only stores \<open>String(n)\<close>.\<close>

definition getDistributableSnapshot :: "(string \<Rightarrow> 'n) \<Rightarrow> string \<Rightarrow> ('e device_scheme, 'n option) io" where
  "getDistributableSnapshot num owner =
     bindE (getSetting (snapshot_key owner)) (\<lambda>row. ret (map_option num row))"

definition saveDistributableSnapshot :: "int \<Rightarrow> string \<Rightarrow> ('e device_scheme, unit) io" where
  "saveDistributableSnapshot amount owner = setSetting (snapshot_key owner) (int_str amount)"

record snapshot_entry =
  te_mint :: string
  te_amount :: int
  te_decimals :: int
  te_symbol :: string

definition snapshot_json :: "snapshot_entry \<Rightarrow> json" where
  "snapshot_json e = JObj [(''mint'', JStr (te_mint e)), (''amount'', JNum (te_amount e)),
     (''decimals'', JNum (te_decimals e)), (''symbol'', JStr (te_symbol e))]"

definition saveTokenSnapshot :: "(json \<Rightarrow> string) \<Rightarrow> snapshot_entry list \<Rightarrow> string \<Rightarrow> ('e device_scheme, unit) io" where
  "saveTokenSnapshot J tokens owner =
     setSetting (token_snapshot_key owner) (J (JArr (map snapshot_json tokens)))"

definition getTokenSnapshot :: "(string \<Rightarrow> json option) \<Rightarrow> string \<Rightarrow> ('e device_scheme, json option) io" where
  "getTokenSnapshot P owner =
     bindE (getSetting (token_snapshot_key owner)) (\<lambda>row.
     case row of None \<Rightarrow> ret None
     | Some v \<Rightarrow> (case P v of None \<Rightarrow> throw (External 2) | Some j \<Rightarrow> ret (Some j)))"

definition clearDistributableSnapshot :: "string \<Rightarrow> ('e device_scheme, unit) io" where
  "clearDistributableSnapshot owner = deleteSetting (snapshot_key owner)"

definition clearTokenSnapshot :: "string \<Rightarrow> ('e device_scheme, unit) io" where
  "clearTokenSnapshot owner = deleteSetting (token_snapshot_key owner)"

definition clearExecutionSteps :: "string \<Rightarrow> ('e device_scheme, unit) io" where
  "clearExecutionSteps owner = seqE getDb (
     sql (\<lambda>t. ((), t\<lparr>t_steps := filter (\<lambda>r. \<not> sql_like (owner_pattern owner) (sr_id r)) (t_steps t)\<rparr>)))"

definition coalesce :: "'a option \<Rightarrow> 'a option \<Rightarrow> 'a option" where
  "coalesce a b = (case a of None \<Rightarrow> b | Some x \<Rightarrow> Some x)"

definition updated_row :: "int \<Rightarrow> string \<Rightarrow> string option \<Rightarrow> string option \<Rightarrow> step_row \<Rightarrow> step_row" where
  "updated_row now st tx err r = r\<lparr>
     sr_status := st, sr_tx := coalesce tx (sr_tx r), sr_error := coalesce err (sr_error r),
     sr_started := (if st = ''in_progress'' then Some now else sr_started r),
     sr_completed := coalesce (if st = ''completed'' then Some now else None) (sr_completed r)\<rparr>"

definition updateStepStatus :: "string \<Rightarrow> string \<Rightarrow> string option \<Rightarrow> string option \<Rightarrow> ('e device_scheme, unit) io" where
  "updateStepStatus ident st tx err = seqE getDb (
     bindE now_sec (\<lambda>now.
     sql (\<lambda>t. ((), t\<lparr>t_steps := map (\<lambda>r. if sr_id r = ident then updated_row now st tx err r else r) (t_steps t)\<rparr>))))"

subsection \<open>heartbeatRepo\<close>

definition recordHeartbeat :: "string \<Rightarrow> string option \<Rightarrow> ('e device_scheme, unit) io" where
  "recordHeartbeat how tx = seqE getDb (
     bindE now_sec (\<lambda>timestamp.
     sql (\<lambda>t. ((), t\<lparr>t_heartbeats := t_heartbeats t @
            [\<lparr>hb_id = t_next_id t, hb_timestamp = timestamp, hb_how = how, hb_tx = tx, hb_created = timestamp\<rparr>],
          t_next_id := Suc (t_next_id t)\<rparr>))))"

text \<open>\<open>ORDER BY timestamp DESC\<close>, the equal ones in either order: here the earlier row first.\<close>

definition newest_first :: "hb_row list \<Rightarrow> hb_row list" where
  "newest_first rs = sort_key (\<lambda>r. - hb_timestamp r) rs"

definition getLastHeartbeat :: "('e device_scheme, (int \<times> string) option) io" where
  "getLastHeartbeat = seqE getDb (sql (\<lambda>t.
     (case newest_first (t_heartbeats t) of [] \<Rightarrow> None | r # _ \<Rightarrow> Some (hb_timestamp r, hb_how r), t)))"

definition getHeartbeatCount :: "('e device_scheme, nat) io" where
  "getHeartbeatCount = seqE getDb (sql (\<lambda>t. (length (t_heartbeats t), t)))"

definition clearHeartbeatHistory :: "('e device_scheme, unit) io" where
  "clearHeartbeatHistory = seqE getDb (sql (\<lambda>t. ((), t\<lparr>t_heartbeats := []\<rparr>)))"

definition getHeartbeatHistory :: "nat \<Rightarrow> ('e device_scheme, hb_row list) io" where
  "getHeartbeatHistory limit = seqE getDb (sql (\<lambda>t. (take limit (newest_first (t_heartbeats t)), t)))"

subsection \<open>The contract of the key/value store\<close>

locale kv_store =
  fixes getS :: "string \<Rightarrow> ('w, string option) io"
    and setS :: "string \<Rightarrow> string \<Rightarrow> ('w, unit) io"
    and view :: "'w \<Rightarrow> string \<rightharpoonup> string"
  assumes get_reads: "getS k w = (Inr a, w') \<Longrightarrow> a = view w k"
    and get_keeps: "getS k w = (r, w') \<Longrightarrow> view w' = view w"
    and set_writes: "setS k v w = (Inr (), w') \<Longrightarrow> view w' = (view w)(k \<mapsto> v)"
    and set_fails: "setS k v w = (Inl e, w') \<Longrightarrow> view w' = view w"
begin

lemma wp_getS:
  "(\<And>w'. view w' = view w \<Longrightarrow> Q (view w k) w') \<Longrightarrow> (\<And>e w'. view w' = view w \<Longrightarrow> E e w') \<Longrightarrow>
   wp (getS k) Q E w"
  using get_reads [of k w] get_keeps [of k w] by (auto simp: wp_def split: prod.splits sum.splits)

lemma wp_setS:
  "(\<And>w'. view w' = (view w)(k \<mapsto> v) \<Longrightarrow> Q () w') \<Longrightarrow> (\<And>e w'. view w' = view w \<Longrightarrow> E e w') \<Longrightarrow>
   wp (setS k v) Q E w"
  using set_writes [of k v w] set_fails [of k v w] by (auto simp: wp_def split: prod.splits sum.splits)

text \<open>What was written is read, by whatever reads next.\<close>

lemma read_after_write:
  "wp (seqE (setS k v) (getS k)) (\<lambda>a w'. a = Some v \<and> view w' = (view w)(k \<mapsto> v)) (\<lambda>_ _. True) w"
  by (simp add: wp_bindE) (rule wp_setS, rule wp_getS, simp_all)

end

abbreviation settings :: "'e device_scheme \<Rightarrow> string \<rightharpoonup> string" where
  "settings w \<equiv> t_settings (db w)"

interpretation settings: kv_store getSetting setSetting settings
proof unfold_locales
  fix k v :: string and e and r and x
  fix w w' :: "'a device_scheme"
  show "getSetting k w = (Inr x, w') \<Longrightarrow> x = settings w k"
    by (auto simp: getSetting_def getDb_def bindE_def sql_def Let_def ret_def throw_def split: if_splits)
  show "getSetting k w = (r, w') \<Longrightarrow> settings w' = settings w"
    by (auto simp: getSetting_def getDb_def bindE_def sql_def Let_def ret_def throw_def split: if_splits)
  show "setSetting k v w = (Inr (), w') \<Longrightarrow> settings w' = (settings w)(k \<mapsto> v)"
    by (auto simp: setSetting_def getDb_def bindE_def sql_def Let_def ret_def throw_def split: if_splits)
  show "setSetting k v w = (Inl e, w') \<Longrightarrow> settings w' = settings w"
    by (auto simp: setSetting_def getDb_def bindE_def sql_def Let_def ret_def throw_def split: if_splits)
qed

end
