(* ===== verification/Escalation.thy ===== *)
theory Escalation
  imports Local_Db
begin

text \<open>
  Dead-man escalation on the device: \<open>services/HeartbeatService.ts\<close>,
  \<open>services/EscalationService.ts\<close>, \<open>store/useEscalationStore.ts\<close>,
  \<open>store/useHeartbeatStore.ts\<close> and the wiring of \<open>hooks/useHeartbeat.ts\<close>. The services
  read the heartbeat table, move the stage of the store and fire the execution callback at stage 4;
  notifications and callback calls are a log. Times are seconds, \<open>Date.now()\<close> is in the world.
\<close>

subsection \<open>Stages\<close>

datatype escalation_stage = S0 | S1 | S2 | S3 | S4

fun stage_nat :: "escalation_stage \<Rightarrow> nat" where
  "stage_nat S0 = 0" | "stage_nat S1 = 1" | "stage_nat S2 = 2" | "stage_nat S3 = 3" | "stage_nat S4 = 4"

lemma stage_nat_inj: "stage_nat a = stage_nat b \<longleftrightarrow> a = b"
  by (cases a; cases b) simp_all

instantiation escalation_stage :: linorder
begin

definition less_eq_escalation_stage :: "escalation_stage \<Rightarrow> escalation_stage \<Rightarrow> bool" where
  "less_eq_escalation_stage a b \<longleftrightarrow> stage_nat a \<le> stage_nat b"

definition less_escalation_stage :: "escalation_stage \<Rightarrow> escalation_stage \<Rightarrow> bool" where
  "less_escalation_stage a b \<longleftrightarrow> stage_nat a < stage_nat b"

instance
  by intro_classes (auto simp: less_eq_escalation_stage_def less_escalation_stage_def stage_nat_inj)

end

lemmas stage_order = less_eq_escalation_stage_def less_escalation_stage_def

record escalation_state =
  es_stage :: escalation_stage
  es_stageEnteredAt :: "int option"
  es_executionDeadline :: "int option"
  es_lastNotificationAt :: "int option"
  es_executionStarted :: bool

record escalation_config =
  ec_stage1 :: int
  ec_stage2 :: int
  ec_stage3 :: int

definition initial_escalation :: escalation_state where
  "initial_escalation = \<lparr>es_stage = S0, es_stageEnteredAt = None, es_executionDeadline = None,
     es_lastNotificationAt = None, es_executionStarted = False\<rparr>"

definition calculateStage :: "escalation_config \<Rightarrow> int \<Rightarrow> escalation_stage" where
  "calculateStage c secondsOverdue =
     (if secondsOverdue \<le> 0 then S0
      else let s1End = ec_stage1 c; s2End = s1End + ec_stage2 c; s3End = s2End + ec_stage3 c in
           if secondsOverdue < s1End then S1
           else if secondsOverdue < s2End then S2
           else if secondsOverdue < s3End then S3
           else S4)"

definition getSecondsRemaining :: "escalation_config \<Rightarrow> int \<Rightarrow> int" where
  "getSecondsRemaining c secondsOverdue = max 0 (ec_stage1 c + ec_stage2 c + ec_stage3 c - secondsOverdue)"

subsection \<open>The world\<close>

record heartbeat_status =
  hs_lastHeartbeat :: int
  hs_lastMethod :: string
  hs_totalHeartbeats :: nat
  hs_nextDue :: int
  hs_isOverdue :: bool
  hs_secondsOverdue :: int

record heartbeat_config =
  hc_methods :: "string list"
  hc_intervalSeconds :: int

text \<open>The mounted service: its evaluation timer, stage, callback and the FCM flag.\<close>

record esc_service =
  sv_loop :: bool
  sv_stage :: escalation_stage
  sv_callback :: bool
  sv_beneficiaries :: nat
  sv_fcmActive :: bool

datatype notice = Cancel_timeline | Cancel_all | Execution_push | Callback | Store_reset

record esc_world = device +
  esc_state :: escalation_state
  svc :: esc_service
  hb_status :: "heartbeat_status option"
  hb_config :: "heartbeat_config option"
  hb_loading :: bool
  notices :: "notice list"

definition notify :: "notice \<Rightarrow> ('e esc_world_scheme, unit) io" where
  "notify n = modify (\<lambda>w. w\<lparr>notices := notices w @ [n]\<rparr>)"

definition set_svc :: "(esc_service \<Rightarrow> esc_service) \<Rightarrow> ('e esc_world_scheme, unit) io" where
  "set_svc f = modify (\<lambda>w. w\<lparr>svc := f (svc w)\<rparr>)"

subsection \<open>Stores\<close>

definition setStage :: "escalation_stage \<Rightarrow> ('e esc_world_scheme, unit) io" where
  "setStage st = modify (\<lambda>w. w\<lparr>esc_state := (esc_state w)\<lparr>es_stage := st, es_stageEnteredAt := Some (now_ms w div 1000),
     es_executionDeadline := None, es_lastNotificationAt := None\<rparr>\<rparr>)"

definition setExecutionDeadline :: "int \<Rightarrow> ('e esc_world_scheme, unit) io" where
  "setExecutionDeadline d = modify (\<lambda>w. w\<lparr>esc_state := (esc_state w)\<lparr>es_executionDeadline := Some d\<rparr>\<rparr>)"

definition setExecutionStarted :: "bool \<Rightarrow> ('e esc_world_scheme, unit) io" where
  "setExecutionStarted b = modify (\<lambda>w. w\<lparr>esc_state := (esc_state w)\<lparr>es_executionStarted := b\<rparr>\<rparr>)"

definition recordNotification :: "('e esc_world_scheme, unit) io" where
  "recordNotification = modify (\<lambda>w. w\<lparr>esc_state := (esc_state w)\<lparr>es_lastNotificationAt := Some (now_ms w div 1000)\<rparr>\<rparr>)"

definition reset_escalation_store :: "('e esc_world_scheme, unit) io" where
  "reset_escalation_store = seqE (modify (\<lambda>w. w\<lparr>esc_state := initial_escalation\<rparr>)) (notify Store_reset)"

definition setStatus :: "heartbeat_status option \<Rightarrow> ('e esc_world_scheme, unit) io" where
  "setStatus s = modify (\<lambda>w. w\<lparr>hb_status := s\<rparr>)"

definition setConfig :: "heartbeat_config option \<Rightarrow> ('e esc_world_scheme, unit) io" where
  "setConfig c = modify (\<lambda>w. w\<lparr>hb_config := c\<rparr>)"

definition setLoading :: "bool \<Rightarrow> ('e esc_world_scheme, unit) io" where
  "setLoading b = modify (\<lambda>w. w\<lparr>hb_loading := b\<rparr>)"

definition reset_heartbeat_store :: "('e esc_world_scheme, unit) io" where
  "reset_heartbeat_store = modify (\<lambda>w. w\<lparr>hb_status := None, hb_config := None, hb_loading := False\<rparr>)"

subsection \<open>HeartbeatService\<close>

definition status_at :: "int \<Rightarrow> int \<Rightarrow> (int \<times> string) option \<Rightarrow> nat \<Rightarrow> heartbeat_status" where
  "status_at interval now newest totalCount =
     (case newest of
        None \<Rightarrow> \<lparr>hs_lastHeartbeat = 0, hs_lastMethod = ''active_tap'', hs_totalHeartbeats = 0, hs_nextDue = 0,
                 hs_isOverdue = False, hs_secondsOverdue = 0\<rparr>
      | Some (ts, how) \<Rightarrow>
          let nextDue = ts + interval; secondsOverdue = max 0 (now - nextDue) in
          \<lparr>hs_lastHeartbeat = ts, hs_lastMethod = (if how = [] then ''active_tap'' else how), hs_totalHeartbeats = totalCount,
           hs_nextDue = nextDue, hs_isOverdue = (0 < secondsOverdue), hs_secondsOverdue = secondsOverdue\<rparr>)"

definition getStatus :: "heartbeat_config \<Rightarrow> ('e device_scheme, heartbeat_status) io" where
  "getStatus c =
     bindE getLastHeartbeat (\<lambda>newest.
     bindE getHeartbeatCount (\<lambda>totalCount.
     bindE now_sec (\<lambda>now.
     ret (status_at (hc_intervalSeconds c) now newest totalCount))))"

definition confirmHeartbeat :: "heartbeat_config \<Rightarrow> string \<Rightarrow> ('e esc_world_scheme, unit) io" where
  "confirmHeartbeat c how =
     seqE (recordHeartbeat how None) (
     bindE (getStatus c) (\<lambda>st.
     setStatus (Some st)))"

text \<open>
  One round of the on-chain monitor: the newest of the last signatures whose transaction the owner
  signed. The RPC answers are parameters; a transaction that cannot be fetched is skipped.
\<close>

record chain_signature =
  cs_sig :: string
  cs_blockTime :: "int option"
  cs_err :: bool

record chain_message =
  cm_keys :: "string list"
  cm_signers :: nat

definition owner_signed :: "string \<Rightarrow> chain_message \<Rightarrow> bool" where
  "owner_signed ow m \<longleftrightarrow> ow \<in> set (take (cm_signers m) (cm_keys m))"

fun owner_signed_tx ::
  "(string \<Rightarrow> ('w, chain_message option) io) \<Rightarrow> string \<Rightarrow> chain_signature list \<Rightarrow> ('w, int option) io" where
  "owner_signed_tx getTx ow [] = ret None"
| "owner_signed_tx getTx ow (s # sigs) =
     (case cs_blockTime s of
        None \<Rightarrow> owner_signed_tx getTx ow sigs
      | Some t \<Rightarrow>
          if t = 0 \<or> cs_err s then owner_signed_tx getTx ow sigs
          else bindE (tryE (getTx (cs_sig s)) (\<lambda>_. ret None)) (\<lambda>tx.
               case tx of None \<Rightarrow> owner_signed_tx getTx ow sigs
               | Some m \<Rightarrow> if owner_signed ow m then ret (Some t) else owner_signed_tx getTx ow sigs))"

definition on_chain_round ::
  "heartbeat_config \<Rightarrow> ('e esc_world_scheme, chain_signature list) io
   \<Rightarrow> (string \<Rightarrow> ('e esc_world_scheme, chain_message option) io) \<Rightarrow> string \<Rightarrow> ('e esc_world_scheme, unit) io" where
  "on_chain_round c getSignatures getTx ow =
     quietly (bindE getSignatures (\<lambda>signatures.
       if signatures = [] then ret ()
       else
       bindE (owner_signed_tx getTx ow signatures) (\<lambda>signedAt.
       case signedAt of None \<Rightarrow> ret ()
       | Some blockTime \<Rightarrow>
       bindE getLastHeartbeat (\<lambda>newest.
       if (case newest of None \<Rightarrow> True | Some (ts, how) \<Rightarrow> blockTime > ts)
       then confirmHeartbeat c ''on_chain_activity'' else ret ()))))"

text \<open>Monitoring runs only when the configuration asks for it.\<close>

definition monitors :: "heartbeat_config \<Rightarrow> bool" where
  "monitors c \<longleftrightarrow> ''on_chain_activity'' \<in> set (hc_methods c)"

subsection \<open>EscalationService\<close>

text \<open>The constructor restores the stage from the store.\<close>

definition new_service :: "('e esc_world_scheme, unit) io" where
  "new_service = modify (\<lambda>w. w\<lparr>svc := \<lparr>sv_loop = False, sv_stage = es_stage (esc_state w), sv_callback = False,
     sv_beneficiaries = 0, sv_fcmActive = False\<rparr>\<rparr>)"

definition setExecutionCallback :: "('e esc_world_scheme, unit) io" where
  "setExecutionCallback = set_svc (\<lambda>s. s\<lparr>sv_callback := True\<rparr>)"

definition setBeneficiaryCount :: "nat \<Rightarrow> ('e esc_world_scheme, unit) io" where
  "setBeneficiaryCount n = set_svc (\<lambda>s. s\<lparr>sv_beneficiaries := n\<rparr>)"

definition scheduleBackgroundTimeline :: "('e esc_world_scheme, unit) io" where
  "scheduleBackgroundTimeline = notify Cancel_timeline"

definition setFcmActive :: "bool \<Rightarrow> ('e esc_world_scheme, unit) io" where
  "setFcmActive active =
     seqE (set_svc (\<lambda>s. s\<lparr>sv_fcmActive := active\<rparr>))
       (if active then notify Cancel_timeline else scheduleBackgroundTimeline)"

definition stop_service :: "('e esc_world_scheme, unit) io" where
  "stop_service = set_svc (\<lambda>s. s\<lparr>sv_loop := False\<rparr>)"

definition resetEscalation :: "('e esc_world_scheme, unit) io" where
  "resetEscalation =
     seqE (set_svc (\<lambda>s. s\<lparr>sv_stage := S0\<rparr>)) (
     seqE reset_escalation_store (
     seqE (notify Cancel_all) scheduleBackgroundTimeline))"

definition transitionTo :: "escalation_stage \<Rightarrow> ('e esc_world_scheme, unit) io" where
  "transitionTo newStage =
     bindE (gets esc_state) (\<lambda>store.
     seqE (set_svc (\<lambda>s. s\<lparr>sv_stage := newStage\<rparr>)) (
     seqE (setStage newStage) (
     if newStage \<noteq> S4 then ret ()
     else
     seqE stop_service (
     if es_executionStarted store then ret ()
     else
     seqE (setExecutionStarted True) (
     bindE (gets svc) (\<lambda>s.
     seqE (if sv_fcmActive s then ret () else notify Execution_push) (
     seqE recordNotification (
     if sv_callback s then notify Callback else ret ()))))))))"

definition evaluate :: "heartbeat_config \<Rightarrow> escalation_config \<Rightarrow> ('e esc_world_scheme, unit) io" where
  "evaluate hc ec =
     quietly (bindE (getStatus hc) (\<lambda>st.
       if hs_lastHeartbeat st = 0 then ret ()
       else
       bindE (gets (\<lambda>w. sv_stage (svc w))) (\<lambda>currentStage.
       if \<not> hs_isOverdue st then (if currentStage > S0 then resetEscalation else ret ())
       else
       let newStage = calculateStage ec (hs_secondsOverdue st) in
       if newStage \<noteq> currentStage then transitionTo newStage else ret ())))"

text \<open>
  \<open>evaluate\<close> suspends at its first read, so the timer of \<open>start\<close> is set before its effects: the
  stop of stage 4 finds it.
\<close>

definition start_service :: "heartbeat_config \<Rightarrow> escalation_config \<Rightarrow> ('e esc_world_scheme, unit) io" where
  "start_service hc ec =
     bindE (gets (\<lambda>w. sv_loop (svc w))) (\<lambda>running.
     if running then ret ()
     else
     seqE scheduleBackgroundTimeline (
     seqE (set_svc (\<lambda>s. s\<lparr>sv_loop := True\<rparr>))
     (evaluate hc ec)))"

subsection \<open>useHeartbeat\<close>

text \<open>The effect that creates the services, and the read of the registration record.\<close>

definition mount :: "heartbeat_config \<Rightarrow> escalation_config \<Rightarrow> bool \<Rightarrow> nat \<Rightarrow> ('e esc_world_scheme, unit) io" where
  "mount hc ec hasOwner beneficiaries =
     seqE new_service (
     seqE (setBeneficiaryCount beneficiaries) (
     seqE (if hasOwner then setExecutionCallback else ret ()) (
     start_service hc ec)))"

definition fcm_from_record :: "string option \<Rightarrow> bool" where
  "fcm_from_record rc = (case rc of None \<Rightarrow> False | Some s \<Rightarrow> s \<noteq> [])"

definition read_registration :: "string \<Rightarrow> ('e esc_world_scheme, unit) io" where
  "read_registration key =
     tryE (bindE (getSetting key) (\<lambda>rc. setFcmActive (fcm_from_record rc))) (\<lambda>_. setFcmActive False)"

definition confirm_tap :: "heartbeat_config \<Rightarrow> string \<Rightarrow> ('e esc_world_scheme, unit) io" where
  "confirm_tap hc how = seqE (confirmHeartbeat hc how) resetEscalation"

definition seconds_remaining :: "escalation_config \<Rightarrow> heartbeat_status \<Rightarrow> int" where
  "seconds_remaining ec st = (if hs_isOverdue st then getSecondsRemaining ec (hs_secondsOverdue st) else 0)"

end
