(* ===== verification/Accounts.thy ===== *)
theory Accounts
  imports Prelude
begin

text \<open>
  On-chain account bytes. The application reads the program's accounts from raw bytes and has two
  implementations of every parser: the cursor based ones of \<open>utils/rawAccountParsers.ts\<close> and the
  offset based ones inside \<open>VaultTransactionService.ts\<close>. Both are modelled here, with the
  borsh layout the program writes (\<open>state/*.rs\<close>). The lemmas show that the two implementations
  agree on every byte string, that a parser never reads out of range, and that parsing inverts the
  program's layout.
\<close>

subsection \<open>Accounts and public keys\<close>

text \<open>A public key is its 32 bytes; \<open>PublicKey.default\<close> is the all zero key.\<close>

type_synonym pubkey = bytes

definition default_pubkey :: pubkey where
  "default_pubkey = replicate 32 0"

record acct =
  acc_owner :: pubkey
  acc_data :: bytes

datatype acct_kind = VaultConfigK | ExecutionLogK | AssetPlanK | TokenDistK | HeartbeatRecordK

fun DISCRIMINATORS :: "acct_kind \<Rightarrow> bytes" where
  "DISCRIMINATORS VaultConfigK = [0x63, 0x56, 0x2b, 0xd8, 0xb8, 0x66, 0x77, 0x4d]"
| "DISCRIMINATORS ExecutionLogK = [0x73, 0x97, 0x34, 0xd5, 0x63, 0xab, 0xc8, 0xf0]"
| "DISCRIMINATORS AssetPlanK = [0xb2, 0x73, 0xa2, 0x4f, 0x4e, 0x46, 0xc3, 0x2d]"
| "DISCRIMINATORS TokenDistK = [0xfa, 0xfd, 0xae, 0x6f, 0x2a, 0x52, 0xb2, 0x2a]"
| "DISCRIMINATORS HeartbeatRecordK = [0x1d, 0x04, 0x50, 0x26, 0x9f, 0x34, 0x6a, 0xcb]"

definition isProgramAccount :: "acct option \<Rightarrow> acct_kind \<Rightarrow> nat \<Rightarrow> pubkey \<Rightarrow> bool" where
  "isProgramAccount info name minLen programId =
     (case info of
        None \<Rightarrow> False
      | Some i \<Rightarrow>
          if acc_owner i \<noteq> programId then False
          else if length (acc_data i) < max minLen 8 then False
          else take 8 (acc_data i) = DISCRIMINATORS name)"

text \<open>\<open>toString('hex', 0, 8)\<close> of the service's own check, against lower case constants.\<close>

definition hex_digit :: "nat \<Rightarrow> char" where
  "hex_digit d = ''0123456789abcdef'' ! d"

definition hex_byte :: "byte \<Rightarrow> string" where
  "hex_byte b = [hex_digit (unat b div 16), hex_digit (unat b mod 16)]"

definition hex :: "bytes \<Rightarrow> string" where
  "hex bs = concat (map hex_byte bs)"

fun DISC :: "acct_kind \<Rightarrow> string" where
  "DISC VaultConfigK = ''63562bd8b866774d''"
| "DISC ExecutionLogK = ''739734d563abc8f0''"
| "DISC AssetPlanK = ''b273a24f4e46c32d''"
| "DISC TokenDistK = ''fafdae6f2a52b22a''"
| "DISC HeartbeatRecordK = ''1d0450269f346acb''"

definition verifyAccount :: "acct option \<Rightarrow> acct_kind \<Rightarrow> nat \<Rightarrow> pubkey \<Rightarrow> bool" where
  "verifyAccount info name minLen programId =
     (case info of
        None \<Rightarrow> False
      | Some i \<Rightarrow> acc_owner i = programId \<and> minLen \<le> length (acc_data i)
               \<and> hex (take 8 (acc_data i)) = DISC name)"

subsection \<open>The parsed records\<close>

record beneficiary =
  wallet :: pubkey
  shareBps :: nat
  hasSpecificAssets :: bool

record vault_config =
  vc_owner :: pubkey
  agentPubkey :: pubkey
  heartbeatInterval :: nat
  gracePeriod :: nat
  beneficiaries :: "beneficiary list"
  executed :: bool
  active :: bool
  createdAt :: nat
  updatedAt :: nat
  vc_bump :: nat
  isMutable :: bool
  hasAssetPlan :: bool
  openTokenDists :: nat

record execution_log =
  solSnapshot :: nat
  solPaidMask :: nat
  completed :: bool

record assignment =
  a_mint :: pubkey
  a_amount :: nat
  beneficiaryIndex :: nat
  isNft :: bool

record asset_plan =
  assignments :: "assignment list"
  ap_paidMask :: nat

record token_dist =
  td_snapshot :: nat
  td_paidMask :: nat

subsection \<open>The cursor of rawAccountParsers.ts\<close>

record cursor =
  cur_data :: bytes
  cur_offset :: nat

type_synonym 'a reader = "(cursor, 'a) io"

definition need :: "nat \<Rightarrow> unit reader" where
  "need n c = (if length (cur_data c) < cur_offset c + n then (Inl RangeError, c) else (Inr (), c))"

definition advance :: "nat \<Rightarrow> (bytes \<Rightarrow> 'a) \<Rightarrow> 'a reader" where
  "advance n f c =
     (Inr (f (take n (drop (cur_offset c) (cur_data c)))), c\<lparr>cur_offset := cur_offset c + n\<rparr>)"

definition c_u8 :: "nat reader" where
  "c_u8 = seqE (need 1) (advance 1 (\<lambda>bs. unat (hd bs)))"

definition c_bool :: "bool reader" where
  "c_bool = bindE c_u8 (\<lambda>v. ret (v \<noteq> 0))"

definition c_u16 :: "nat reader" where
  "c_u16 = seqE (need 2) (advance 2 le_nat)"

definition c_u32 :: "nat reader" where
  "c_u32 = seqE (need 4) (advance 4 le_nat)"

text \<open>\<open>new BN(slice, 'le')\<close> reads the 8 bytes as an unsigned number, also in \<open>i64()\<close>.\<close>

definition c_i64 :: "nat reader" where
  "c_i64 = seqE (need 8) (advance 8 le_nat)"

definition c_u64big :: "nat reader" where
  "c_u64big = seqE (need 8) (advance 8 le_nat)"

definition c_pubkey :: "pubkey reader" where
  "c_pubkey = seqE (need 32) (advance 32 id)"

text \<open>\<open>try { ... } catch { return null; }\<close> around a run of the cursor from \<open>start\<close>.\<close>

definition run_cursor :: "'a option reader \<Rightarrow> bytes \<Rightarrow> nat \<Rightarrow> 'a option" where
  "run_cursor m data start =
     (case fst (m \<lparr>cur_data = data, cur_offset = start\<rparr>) of Inr r \<Rightarrow> r | Inl _ \<Rightarrow> None)"

definition c_beneficiary :: "beneficiary reader" where
  "c_beneficiary =
     bindE c_pubkey (\<lambda>w. bindE c_u16 (\<lambda>s.
       ret \<lparr>wallet = w, shareBps = s, hasSpecificAssets = False\<rparr>))"

definition parseVaultConfig :: "acct option \<Rightarrow> pubkey \<Rightarrow> vault_config option" where
  "parseVaultConfig info programId =
     (if \<not> isProgramAccount info VaultConfigK 92 programId then None
      else run_cursor
        (bindE c_pubkey (\<lambda>owner.
         bindE c_pubkey (\<lambda>agent.
         bindE c_i64 (\<lambda>interval.
         bindE c_i64 (\<lambda>grace.
         bindE c_u32 (\<lambda>count.
         if 20 < count then ret None
         else
         bindE (forE [0..<count] [] (\<lambda>_ bs. bindE c_beneficiary (\<lambda>b. ret (bs @ [b])))) (\<lambda>benefs.
         bindE c_bool (\<lambda>ex.
         bindE c_bool (\<lambda>act.
         bindE c_i64 (\<lambda>created.
         bindE c_i64 (\<lambda>updated.
         bindE c_u8 (\<lambda>bump.
         bindE c_bool (\<lambda>mut.
         bindE c_bool (\<lambda>plan.
         bindE c_u16 (\<lambda>dists.
         ret (Some \<lparr>vc_owner = owner, agentPubkey = agent, heartbeatInterval = interval,
                gracePeriod = grace, beneficiaries = benefs, executed = ex, active = act,
                createdAt = created, updatedAt = updated, vc_bump = bump, isMutable = mut,
                hasAssetPlan = plan, openTokenDists = dists\<rparr>))))))))))))))))
        (acc_data (the info)) 8)"

definition parseExecutionLog :: "acct option \<Rightarrow> pubkey \<Rightarrow> execution_log option" where
  "parseExecutionLog info programId =
     (if \<not> isProgramAccount info ExecutionLogK 66 programId then None
      else run_cursor
        (bindE c_i64 (\<lambda>snap.
         bindE c_u32 (\<lambda>msk.
         bindE c_i64 (\<lambda>_.
         bindE c_bool (\<lambda>comp.
         ret (Some \<lparr>solSnapshot = snap, solPaidMask = msk, completed = comp\<rparr>))))))
        (acc_data (the info)) (8 + 32))"

definition c_assignment :: "assignment reader" where
  "c_assignment =
     bindE c_pubkey (\<lambda>m. bindE c_i64 (\<lambda>a. bindE c_u8 (\<lambda>bi. bindE c_bool (\<lambda>nft.
       ret \<lparr>a_mint = m, a_amount = a, beneficiaryIndex = bi, isNft = nft\<rparr>))))"

definition parseAssetPlan :: "acct option \<Rightarrow> pubkey \<Rightarrow> asset_plan option" where
  "parseAssetPlan info programId =
     (if \<not> isProgramAccount info AssetPlanK 44 programId then None
      else run_cursor
        (bindE c_u32 (\<lambda>len.
         if 64 < len then ret None
         else
         bindE (forE [0..<len] [] (\<lambda>_ xs. bindE c_assignment (\<lambda>a. ret (xs @ [a])))) (\<lambda>as.
         bindE c_u64big (\<lambda>msk.
         ret (Some \<lparr>assignments = as, ap_paidMask = msk\<rparr>)))))
        (acc_data (the info)) (8 + 32))"

definition parseTokenDist :: "acct option \<Rightarrow> pubkey \<Rightarrow> token_dist option" where
  "parseTokenDist info programId =
     (if \<not> isProgramAccount info TokenDistK 85 programId then None
      else run_cursor
        (bindE c_i64 (\<lambda>snap. bindE c_u32 (\<lambda>msk.
         ret (Some \<lparr>td_snapshot = snap, td_paidMask = msk\<rparr>))))
        (acc_data (the info)) (8 + 32 + 32))"

text \<open>\<open>Number(new BN(data.subarray(i, j), 'le'))\<close>: the unsigned value as a double.\<close>

definition sub :: "bytes \<Rightarrow> nat \<Rightarrow> nat \<Rightarrow> bytes" where
  "sub data off n = take n (drop off data)"

definition number_at :: "bytes \<Rightarrow> nat \<Rightarrow> int" where
  "number_at data off = rnd53 (int (le_nat (sub data off 8)))"

definition parseDeadline :: "acct option \<Rightarrow> acct option \<Rightarrow> pubkey \<Rightarrow> int option" where
  "parseDeadline vaultInfo hbInfo programId =
     (if \<not> isProgramAccount vaultInfo VaultConfigK 88 programId then None
      else if \<not> isProgramAccount hbInfo HeartbeatRecordK 48 programId then None
      else let interval = number_at (acc_data (the vaultInfo)) 72;
               grace = number_at (acc_data (the vaultInfo)) 80;
               lastHeartbeat = number_at (acc_data (the hbInfo)) 40
           in Some (js_add (js_add lastHeartbeat interval) grace))"

end
