(* ===== verification/Account_Raw.thy ===== *)
theory Account_Raw
  imports Accounts
begin

text \<open>
  The offset based parsers of \<open>VaultTransactionService.ts\<close> and their agreement with the cursor
  based ones. A reader of the cursor is characterised by one fact (\<open>rd_spec\<close>): it needs \<open>k\<close>
  bytes, and then returns a function of exactly these bytes; facts of this form compose.
\<close>

subsection \<open>Reads at an offset\<close>

definition readLE :: "nat \<Rightarrow> bytes \<Rightarrow> nat \<Rightarrow> ('w, nat) io" where
  "readLE n data off =
     (if length data < off + n then throw RangeError else ret (le_nat (sub data off n)))"

abbreviation readUInt16LE :: "bytes \<Rightarrow> nat \<Rightarrow> ('w, nat) io" where
  "readUInt16LE \<equiv> readLE 2"

abbreviation readUInt32LE :: "bytes \<Rightarrow> nat \<Rightarrow> ('w, nat) io" where
  "readUInt32LE \<equiv> readLE 4"

abbreviation readBigUInt64LE :: "bytes \<Rightarrow> nat \<Rightarrow> ('w, nat) io" where
  "readBigUInt64LE \<equiv> readLE 8"

text \<open>
  \<open>data[offset]\<close>. Past the end it is \<open>undefined\<close>, which would end up in the parsed record; the
  model stops there with its own error, and the agreement theorem shows that it never happens.
\<close>

definition byte_at :: "bytes \<Rightarrow> nat \<Rightarrow> ('w, nat) io" where
  "byte_at data off = (if off < length data then ret (unat (data ! off)) else throw UndefinedRead)"

definition parseVaultConfigRaw :: "pubkey \<Rightarrow> acct option \<Rightarrow> ('w, vault_config option) io" where
  "parseVaultConfigRaw programId info =
     (if \<not> verifyAccount info VaultConfigK 92 programId then ret None
      else let data = acc_data (the info) in
       bindE (readUInt32LE data 88) (\<lambda>count.
       let offset = 92 in
       if 20 < count \<or> length data < offset + count * 34 + 23 then ret None
       else
       bindE (forE [0..<count] ([], offset) (\<lambda>_ (bs, off).
         bindE (readUInt16LE data (off + 32)) (\<lambda>s.
         ret (bs @ [\<lparr>wallet = sub data off 32, shareBps = s, hasSpecificAssets = False\<rparr>], off + 34))))
         (\<lambda>(benefs, off).
       bindE (byte_at data off) (\<lambda>ex.
       bindE (byte_at data (off + 1)) (\<lambda>act.
       bindE (byte_at data (off + 18)) (\<lambda>bump.
       bindE (byte_at data (off + 19)) (\<lambda>mut.
       bindE (byte_at data (off + 20)) (\<lambda>plan.
       bindE (readUInt16LE data (off + 21)) (\<lambda>dists.
       ret (Some \<lparr>vc_owner = sub data 8 32, agentPubkey = sub data 40 32,
              heartbeatInterval = le_nat (sub data 72 8), gracePeriod = le_nat (sub data 80 8),
              beneficiaries = benefs, executed = ex \<noteq> 0, active = act \<noteq> 0,
              createdAt = le_nat (sub data (off + 2) 8), updatedAt = le_nat (sub data (off + 10) 8),
              vc_bump = bump, isMutable = mut \<noteq> 0, hasAssetPlan = plan \<noteq> 0,
              openTokenDists = dists\<rparr>))))))))))"

definition parseExecutionLogRaw :: "pubkey \<Rightarrow> acct option \<Rightarrow> ('w, execution_log option) io" where
  "parseExecutionLogRaw programId info =
     (if \<not> verifyAccount info ExecutionLogK 66 programId then ret None
      else let data = acc_data (the info) in
       bindE (readUInt32LE data 48) (\<lambda>msk.
       bindE (byte_at data 60) (\<lambda>comp.
       ret (Some \<lparr>solSnapshot = le_nat (sub data 40 8), solPaidMask = msk, completed = comp \<noteq> 0\<rparr>))))"

definition parseAssetPlanRaw :: "pubkey \<Rightarrow> acct option \<Rightarrow> ('w, asset_plan option) io" where
  "parseAssetPlanRaw programId info =
     (if \<not> verifyAccount info AssetPlanK 44 programId then ret None
      else let data = acc_data (the info) in
       bindE (readUInt32LE data 40) (\<lambda>len.
       let offset = 44 in
       if 64 < len \<or> length data < offset + len * 42 + 8 then ret None
       else
       bindE (forE [0..<len] ([], offset) (\<lambda>_ (xs, off).
         bindE (byte_at data (off + 40)) (\<lambda>bi.
         bindE (byte_at data (off + 41)) (\<lambda>nft.
         ret (xs @ [\<lparr>a_mint = sub data off 32, a_amount = le_nat (sub data (off + 32) 8),
                     beneficiaryIndex = bi, isNft = nft \<noteq> 0\<rparr>], off + 42)))))
         (\<lambda>(xs, off).
       bindE (readBigUInt64LE data off) (\<lambda>msk.
       ret (Some \<lparr>assignments = xs, ap_paidMask = msk\<rparr>)))))"

definition parseTokenDistRaw :: "pubkey \<Rightarrow> acct option \<Rightarrow> ('w, token_dist option) io" where
  "parseTokenDistRaw programId info =
     (if \<not> verifyAccount info TokenDistK 85 programId then ret None
      else let data = acc_data (the info) in
       bindE (readUInt32LE data 80) (\<lambda>msk.
       ret (Some \<lparr>td_snapshot = le_nat (sub data 72 8), td_paidMask = msk\<rparr>)))"

definition deadlineRaw :: "pubkey \<Rightarrow> acct option \<Rightarrow> acct option \<Rightarrow> int option" where
  "deadlineRaw programId vaultInfo hbInfo =
     (if \<not> verifyAccount vaultInfo VaultConfigK 88 programId
        \<or> \<not> verifyAccount hbInfo HeartbeatRecordK 48 programId then None
      else let interval = number_at (acc_data (the vaultInfo)) 72;
               grace = number_at (acc_data (the vaultInfo)) 80;
               lastHeartbeat = number_at (acc_data (the hbInfo)) 40
           in Some (js_add (js_add lastHeartbeat interval) grace))"

subsection \<open>The two account checks\<close>

lemma hex_digit_inj: "i < 16 \<Longrightarrow> j < 16 \<Longrightarrow> hex_digit i = hex_digit j \<Longrightarrow> i = j"
proof -
  have d: "distinct ''0123456789abcdef''" by simp
  assume "i < 16" "j < 16" "hex_digit i = hex_digit j"
  then show ?thesis using nth_eq_iff_index_eq [OF d, of i j] by (simp add: hex_digit_def)
qed

lemma hex_byte_inj: "hex_byte a = hex_byte b \<Longrightarrow> a = b"
proof -
  have ua: "unat a < 256" and ub: "unat b < 256" using unsigned_less [of a] unsigned_less [of b] by auto
  assume "hex_byte a = hex_byte b"
  then have "unat a div 16 = unat b div 16" and "unat a mod 16 = unat b mod 16"
    using ua ub by (auto simp: hex_byte_def intro!: hex_digit_inj)
  then have "unat a = unat b" by (metis div_mult_mod_eq)
  then show "a = b" by (simp add: word_unat_eq_iff)
qed

lemma hex_inj: "length as = length bs \<Longrightarrow> (hex as = hex bs) = (as = bs)"
proof (induction as bs rule: list_induct2)
  case (Cons a as b bs)
  have "hex (a # as) = hex_byte a @ hex as" and "hex (b # bs) = hex_byte b @ hex bs"
    by (simp_all add: hex_def)
  moreover have "length (hex_byte a) = length (hex_byte b)" by (simp add: hex_byte_def)
  ultimately show ?case using Cons.IH hex_byte_inj [of a b] by auto
qed simp

lemma DISC_hex: "DISC k = hex (DISCRIMINATORS k)"
  by (cases k) (simp_all add: hex_def hex_byte_def hex_digit_def)

lemma length_DISCRIMINATORS [simp]: "length (DISCRIMINATORS k) = 8"
  by (cases k) simp_all

lemma verifyAccount_iff: "8 \<le> n \<Longrightarrow> verifyAccount info k n pid = isProgramAccount info k n pid"
  by (auto simp: verifyAccount_def isProgramAccount_def DISC_hex hex_inj split: option.splits)

lemma isProgramAccount_length:
  "isProgramAccount info k n pid \<Longrightarrow> \<exists>i. info = Some i \<and> n \<le> length (acc_data i)"
  by (auto simp: isProgramAccount_def split: option.splits if_splits)

subsection \<open>Readers by the bytes they need\<close>

definition rd_spec :: "'a reader \<Rightarrow> nat \<Rightarrow> (bytes \<Rightarrow> 'a) \<Rightarrow> bool" where
  "rd_spec m k f \<longleftrightarrow>
     (\<forall>c. cur_offset c \<le> length (cur_data c) \<longrightarrow>
         (if cur_offset c + k \<le> length (cur_data c)
          then m c = (Inr (f (sub (cur_data c) (cur_offset c) k)), c\<lparr>cur_offset := cur_offset c + k\<rparr>)
          else \<exists>e c'. m c = (Inl e, c')))"

lemma rd_spec_prim: "rd_spec (seqE (need k) (advance k f)) k f"
  by (auto simp: rd_spec_def bindE_def need_def advance_def sub_def)

lemma rd_spec_ret: "rd_spec (ret a) 0 (\<lambda>_. a)"
  by (simp add: rd_spec_def ret_apply)

lemma rd_spec_bindE:
  assumes "rd_spec m k f" "\<And>bs. rd_spec (g (f bs)) k2 (f2 (f bs))"
  shows "rd_spec (bindE m g) (k + k2) (\<lambda>bs. f2 (f (take k bs)) (drop k bs))"
  unfolding rd_spec_def
proof
  fix c :: cursor
  let ?d = "cur_data c" and ?o = "cur_offset c"
  let ?c' = "c\<lparr>cur_offset := ?o + k\<rparr>"
  have t: "take k (sub ?d ?o (k + k2)) = sub ?d ?o k"
    and d: "drop k (sub ?d ?o (k + k2)) = sub ?d (?o + k) k2"
    by (simp_all add: sub_def drop_take add.commute)
  note m = assms(1) [unfolded rd_spec_def, rule_format, of c]
  note g = assms(2) [of "sub ?d ?o k", unfolded rd_spec_def, rule_format, of ?c']
  show "?o \<le> length ?d \<longrightarrow> (if ?o + (k + k2) \<le> length ?d
        then bindE m g c = (Inr (f2 (f (take k (sub ?d ?o (k + k2)))) (drop k (sub ?d ?o (k + k2)))),
          c\<lparr>cur_offset := ?o + (k + k2)\<rparr>)
        else \<exists>e c'. bindE m g c = (Inl e, c'))"
    using m g unfolding t d
    by (cases "?o + k \<le> length ?d") (auto simp: bindE_def add.assoc split: if_splits)
qed

lemma rd_spec_cong:
  "rd_spec m k f \<Longrightarrow> k = k' \<Longrightarrow> (\<And>bs. length bs = k \<Longrightarrow> f bs = f' bs) \<Longrightarrow> rd_spec m k' f'"
  by (simp add: rd_spec_def sub_def)

lemma rd_u8: "rd_spec c_u8 1 (\<lambda>bs. unat (hd bs))"
  unfolding c_u8_def by (rule rd_spec_prim)

lemma rd_u16: "rd_spec c_u16 2 le_nat"
  unfolding c_u16_def by (rule rd_spec_prim)

lemma rd_u32: "rd_spec c_u32 4 le_nat"
  unfolding c_u32_def by (rule rd_spec_prim)

lemma rd_i64: "rd_spec c_i64 8 le_nat"
  unfolding c_i64_def by (rule rd_spec_prim)

lemma rd_u64big: "rd_spec c_u64big 8 le_nat"
  unfolding c_u64big_def by (rule rd_spec_prim)

lemma rd_pubkey: "rd_spec c_pubkey 32 id"
  unfolding c_pubkey_def by (rule rd_spec_prim)

lemma rd_bool: "rd_spec c_bool 1 (\<lambda>bs. unat (hd bs) \<noteq> 0)"
  unfolding c_bool_def
  by (rule rd_spec_cong [OF rd_spec_bindE [OF rd_u8 rd_spec_ret]]) simp_all

text \<open>Running a parser, one reader after the other.\<close>

lemma run_ret [simp]: "run_cursor (ret r) d p = r"
  by (simp add: run_cursor_def ret_apply)

lemma run_bindE:
  assumes "rd_spec m k f" "p \<le> length d"
  shows "run_cursor (bindE m g) d p =
    (if p + k \<le> length d then run_cursor (g (f (sub d p k))) d (p + k) else None)"
  using assms(1) [unfolded rd_spec_def, rule_format, of "\<lparr>cur_data = d, cur_offset = p\<rparr>"] assms(2)
  by (auto simp: run_cursor_def bindE_def split: if_splits)

lemmas run_steps = run_bindE [OF rd_u8] run_bindE [OF rd_u16] run_bindE [OF rd_u32]
  run_bindE [OF rd_i64] run_bindE [OF rd_u64big] run_bindE [OF rd_pubkey] run_bindE [OF rd_bool]

text \<open>The counted loop of the vector parsers.\<close>

lemma rd_loop:
  assumes "rd_spec m k f"
  shows "rd_spec (forE xs acc (\<lambda>_ ys. bindE m (\<lambda>y. ret (ys @ [y])))) (length xs * k)
           (\<lambda>bs. acc @ map (\<lambda>i. f (sub bs (i * k) k)) [0..<length xs])"
proof (induction xs arbitrary: acc)
  case Nil
  then show ?case by (simp add: rd_spec_ret)
next
  case (Cons x xs)
  have step: "rd_spec (bindE m (\<lambda>y. ret (acc @ [y]))) k (\<lambda>bs. acc @ [f bs])"
    by (rule rd_spec_cong [OF rd_spec_bindE [OF assms rd_spec_ret]]) simp_all
  have map: "map (\<lambda>i. f (sub bs (i * k) k)) [0..<Suc (length xs)]
      = f (take k bs) # map (\<lambda>i. f (sub (drop k bs) (i * k) k)) [0..<length xs]" for bs
    by (simp add: upt_conv_Cons map_Suc_upt [symmetric] sub_def add.commute del: upt_Suc)
  show ?case
    unfolding forE.simps
    by (rule rd_spec_cong [OF rd_spec_bindE [OF step Cons.IH]]) (simp_all add: map del: upt_Suc)
qed


lemma rd_beneficiary:
  "rd_spec c_beneficiary 34
     (\<lambda>bs. \<lparr>wallet = sub bs 0 32, shareBps = le_nat (sub bs 32 2), hasSpecificAssets = False\<rparr>)"
  unfolding c_beneficiary_def
  by (rule rd_spec_cong [OF rd_spec_bindE [OF rd_pubkey rd_spec_bindE [OF rd_u16 rd_spec_ret]]])
    (simp_all add: sub_def)

lemma rd_assignment:
  "rd_spec c_assignment 42
     (\<lambda>bs. \<lparr>a_mint = sub bs 0 32, a_amount = le_nat (sub bs 32 8),
           beneficiaryIndex = unat (bs ! 40), isNft = unat (bs ! 41) \<noteq> 0\<rparr>)"
  unfolding c_assignment_def
  by (rule rd_spec_cong [OF rd_spec_bindE [OF rd_pubkey rd_spec_bindE [OF rd_i64
        rd_spec_bindE [OF rd_u8 rd_spec_bindE [OF rd_bool rd_spec_ret]]]]])
    (simp_all add: sub_def hd_drop_conv_nth hd_conv_nth)

subsection \<open>What the parsers compute\<close>

text \<open>The records as functions of the account bytes.\<close>

definition beneficiary_at :: "bytes \<Rightarrow> nat \<Rightarrow> beneficiary" where
  "beneficiary_at d p =
     \<lparr>wallet = sub d p 32, shareBps = le_nat (sub d (p + 32) 2), hasSpecificAssets = False\<rparr>"

definition vault_config_at :: "bytes \<Rightarrow> vault_config" where
  "vault_config_at d =
     (let n = le_nat (sub d 88 4); t = 92 + n * 34
      in \<lparr>vc_owner = sub d 8 32, agentPubkey = sub d 40 32, heartbeatInterval = le_nat (sub d 72 8),
          gracePeriod = le_nat (sub d 80 8), beneficiaries = map (\<lambda>i. beneficiary_at d (92 + i * 34)) [0..<n],
          executed = unat (d ! t) \<noteq> 0, active = unat (d ! (t + 1)) \<noteq> 0, createdAt = le_nat (sub d (t + 2) 8),
          updatedAt = le_nat (sub d (t + 10) 8), vc_bump = unat (d ! (t + 18)),
          isMutable = unat (d ! (t + 19)) \<noteq> 0, hasAssetPlan = unat (d ! (t + 20)) \<noteq> 0,
          openTokenDists = le_nat (sub d (t + 21) 2)\<rparr>)"

definition vault_config_fits :: "bytes \<Rightarrow> bool" where
  "vault_config_fits d \<longleftrightarrow>
     le_nat (sub d 88 4) \<le> 20 \<and> 92 + le_nat (sub d 88 4) * 34 + 23 \<le> length d"

lemma sub_sub: "p + k \<le> n \<Longrightarrow> sub (sub d o' n) p k = sub d (o' + p) k"
  by (simp add: sub_def drop_take min_def add.commute)

lemma nth_sub: "i < n \<Longrightarrow> o' + i < length d \<Longrightarrow> sub d o' n ! i = d ! (o' + i)"
  by (simp add: sub_def)

lemma hd_sub: "0 < n \<Longrightarrow> o' < length d \<Longrightarrow> hd (sub d o' n) = d ! o'"
  by (simp add: sub_def hd_drop_conv_nth)

lemma beneficiary_sub:
  "i < n \<Longrightarrow> \<lparr>wallet = sub (sub (sub d 92 (n * 34)) (i * 34) 34) 0 32,
     shareBps = le_nat (sub (sub (sub d 92 (n * 34)) (i * 34) 34) 32 2), hasSpecificAssets = False\<rparr>
   = beneficiary_at d (92 + i * 34)"
proof -
  assume "i < n"
  then have "i * 34 + 34 \<le> n * 34" by simp
  then show ?thesis by (simp add: sub_sub beneficiary_at_def add.assoc)
qed

lemma parseVaultConfig_eq:
  "parseVaultConfig info pid =
     (if isProgramAccount info VaultConfigK 92 pid \<and> vault_config_fits (acc_data (the info))
      then Some (vault_config_at (acc_data (the info))) else None)"
proof (cases "isProgramAccount info VaultConfigK 92 pid")
  case True
  define d where "d = acc_data (the info)"
  define n where "n = le_nat (sub d 88 4)"
  from True have len: "92 \<le> length d" unfolding d_def by (auto dest: isProgramAccount_length)
  note loop = run_bindE [OF rd_loop [OF rd_beneficiary], of 92 d "[0..<n]" "[]", simplified length_upt diff_zero]
  show ?thesis
    using True len
    by (simp add: parseVaultConfig_def run_steps vault_config_fits_def vault_config_at_def Let_def
        loop beneficiary_sub hd_sub flip: d_def n_def cong: map_cong)
qed (simp add: parseVaultConfig_def)


lemma raw_benef_loop:
  "92 + (length xs + length ys) * 34 \<le> length d \<Longrightarrow> length ys = j \<Longrightarrow>
   forE xs (ys, 92 + j * 34) (\<lambda>_ (bs, off).
         bindE (readUInt16LE d (off + 32)) (\<lambda>s.
         ret (bs @ [\<lparr>wallet = sub d off 32, shareBps = s, hasSpecificAssets = False\<rparr>], off + 34)))
   = ret (ys @ map (\<lambda>i. beneficiary_at d (92 + i * 34)) [j..<j + length xs], 92 + (j + length xs) * 34)"
proof (induction xs arbitrary: ys j)
  case (Cons x xs)
  have b: "\<lparr>wallet = sub d (92 + j * 34) 32, shareBps = le_nat (sub d (92 + j * 34 + 32) 2), hasSpecificAssets = False\<rparr>
      = beneficiary_at d (92 + j * 34)"
    by (simp add: beneficiary_at_def)
  have "92 + j * 34 + 32 + 2 \<le> length d" using Cons.prems by simp
  then have r: "readUInt16LE d (92 + j * 34 + 32) = ret (le_nat (sub d (92 + j * 34 + 32) 2))"
    by (simp add: readLE_def)
  note IH = Cons.IH [of "ys @ [beneficiary_at d (92 + j * 34)]" "Suc j"]
  show ?case
    unfolding forE.simps prod.case r bindE_ret b
    using IH Cons.prems by (simp add: upt_conv_Cons algebra_simps del: upt_Suc)
qed simp

lemma parseVaultConfigRaw_eq:
  "parseVaultConfigRaw pid info = ret (parseVaultConfig info pid)"
proof (cases "isProgramAccount info VaultConfigK 92 pid")
  case True
  define d where "d = acc_data (the info)"
  define n where "n = le_nat (sub d 88 4)"
  from True have len: "92 \<le> length d" unfolding d_def by (auto dest: isProgramAccount_length)
  show ?thesis
  proof (cases "20 < n \<or> length d < 115 + n * 34")
    case False
    then have "92 + (length [0..<n] + length []) * 34 \<le> length d" by simp
    note loop = raw_benef_loop [OF this refl, simplified list.size length_upt diff_zero]
    show ?thesis
      using True len False
      by (simp add: parseVaultConfigRaw_def parseVaultConfig_eq verifyAccount_iff vault_config_fits_def
          vault_config_at_def Let_def loop [simplified] readLE_def [of 4] byte_at_def add.commute flip: d_def n_def)
        (simp add: readLE_def)
  next
    case True
    then show ?thesis
      using \<open>isProgramAccount info VaultConfigK 92 pid\<close> len
      by (auto simp: parseVaultConfigRaw_def parseVaultConfig_eq verifyAccount_iff vault_config_fits_def
          Let_def readLE_def simp flip: d_def n_def)
  qed
qed (simp add: parseVaultConfigRaw_def parseVaultConfig_def verifyAccount_iff)


lemma parseExecutionLogRaw_eq: "parseExecutionLogRaw pid info = ret (parseExecutionLog info pid)"
proof (cases "isProgramAccount info ExecutionLogK 66 pid")
  case True
  then have "66 \<le> length (acc_data (the info))" by (auto dest: isProgramAccount_length)
  then show ?thesis using True
    by (simp add: parseExecutionLogRaw_def parseExecutionLog_def verifyAccount_iff run_steps
        readLE_def byte_at_def Let_def hd_sub)
qed (simp add: parseExecutionLogRaw_def parseExecutionLog_def verifyAccount_iff)

lemma parseTokenDistRaw_eq: "parseTokenDistRaw pid info = ret (parseTokenDist info pid)"
proof (cases "isProgramAccount info TokenDistK 85 pid")
  case True
  then have "85 \<le> length (acc_data (the info))" by (auto dest: isProgramAccount_length)
  then show ?thesis using True
    by (simp add: parseTokenDistRaw_def parseTokenDist_def verifyAccount_iff run_steps readLE_def Let_def)
qed (simp add: parseTokenDistRaw_def parseTokenDist_def verifyAccount_iff)

definition assignment_at :: "bytes \<Rightarrow> nat \<Rightarrow> assignment" where
  "assignment_at d p =
     \<lparr>a_mint = sub d p 32, a_amount = le_nat (sub d (p + 32) 8),
      beneficiaryIndex = unat (d ! (p + 40)), isNft = unat (d ! (p + 41)) \<noteq> 0\<rparr>"

definition asset_plan_at :: "bytes \<Rightarrow> asset_plan" where
  "asset_plan_at d =
     (let n = le_nat (sub d 40 4)
      in \<lparr>assignments = map (\<lambda>i. assignment_at d (44 + i * 42)) [0..<n],
          ap_paidMask = le_nat (sub d (44 + n * 42) 8)\<rparr>)"

definition asset_plan_fits :: "bytes \<Rightarrow> bool" where
  "asset_plan_fits d \<longleftrightarrow>
     le_nat (sub d 40 4) \<le> 64 \<and> 44 + le_nat (sub d 40 4) * 42 + 8 \<le> length d"

lemma assignment_sub:
  "i < n \<Longrightarrow> 44 + n * 42 \<le> length d \<Longrightarrow>
   \<lparr>a_mint = sub (sub (sub d 44 (n * 42)) (i * 42) 42) 0 32,
    a_amount = le_nat (sub (sub (sub d 44 (n * 42)) (i * 42) 42) 32 8),
    beneficiaryIndex = unat (sub (sub d 44 (n * 42)) (i * 42) 42 ! 40),
    isNft = 0 < unat (sub (sub d 44 (n * 42)) (i * 42) 42 ! 41)\<rparr> = assignment_at d (44 + i * 42)"
proof -
  assume "i < n" and len: "44 + n * 42 \<le> length d"
  then have "i * 42 + 42 \<le> n * 42" by simp
  then show ?thesis using len by (simp add: sub_sub nth_sub assignment_at_def add.assoc add.commute)
qed

lemma parseAssetPlan_eq:
  "parseAssetPlan info pid =
     (if isProgramAccount info AssetPlanK 44 pid \<and> asset_plan_fits (acc_data (the info))
      then Some (asset_plan_at (acc_data (the info))) else None)"
proof (cases "isProgramAccount info AssetPlanK 44 pid")
  case True
  define d where "d = acc_data (the info)"
  define n where "n = le_nat (sub d 40 4)"
  from True have len: "44 \<le> length d" unfolding d_def by (auto dest: isProgramAccount_length)
  note loop = run_bindE [OF rd_loop [OF rd_assignment], of 44 d "[0..<n]" "[]", simplified length_upt diff_zero]
  show ?thesis
    using True len
    by (simp add: parseAssetPlan_def run_steps asset_plan_fits_def asset_plan_at_def Let_def
        loop assignment_sub flip: d_def n_def cong: map_cong)
qed (simp add: parseAssetPlan_def)

lemma raw_assignment_loop:
  "44 + (length xs + length ys) * 42 \<le> length d \<Longrightarrow> length ys = j \<Longrightarrow>
   forE xs (ys, 44 + j * 42) (\<lambda>_ (xs, off).
         bindE (byte_at d (off + 40)) (\<lambda>bi.
         bindE (byte_at d (off + 41)) (\<lambda>nft.
         ret (xs @ [\<lparr>a_mint = sub d off 32, a_amount = le_nat (sub d (off + 32) 8),
                     beneficiaryIndex = bi, isNft = nft \<noteq> 0\<rparr>], off + 42))))
   = ret (ys @ map (\<lambda>i. assignment_at d (44 + i * 42)) [j..<j + length xs], 44 + (j + length xs) * 42)"
proof (induction xs arbitrary: ys j)
  case (Cons x xs)
  let ?p = "44 + j * 42"
  have b: "\<lparr>a_mint = sub d ?p 32, a_amount = le_nat (sub d (?p + 32) 8),
      beneficiaryIndex = unat (d ! (?p + 40)), isNft = unat (d ! (?p + 41)) \<noteq> 0\<rparr> = assignment_at d ?p"
    by (simp add: assignment_at_def)
  have "?p + 42 \<le> length d" using Cons.prems by simp
  then have r: "byte_at d (?p + 40) = ret (unat (d ! (?p + 40)))"
      "byte_at d (?p + 41) = ret (unat (d ! (?p + 41)))"
    by (simp_all add: byte_at_def)
  note IH = Cons.IH [of "ys @ [assignment_at d ?p]" "Suc j"]
  show ?case
    unfolding forE.simps prod.case r bindE_ret b
    using IH Cons.prems by (simp add: upt_conv_Cons algebra_simps del: upt_Suc)
qed simp

lemma parseAssetPlanRaw_eq: "parseAssetPlanRaw pid info = ret (parseAssetPlan info pid)"
proof (cases "isProgramAccount info AssetPlanK 44 pid")
  case True
  define d where "d = acc_data (the info)"
  define n where "n = le_nat (sub d 40 4)"
  from True have len: "44 \<le> length d" unfolding d_def by (auto dest: isProgramAccount_length)
  show ?thesis
  proof (cases "64 < n \<or> length d < 52 + n * 42")
    case False
    then have "44 + (length [0..<n] + length []) * 42 \<le> length d" by simp
    note loop = raw_assignment_loop [OF this refl, simplified list.size length_upt diff_zero]
    show ?thesis
      using True len False
      by (simp add: parseAssetPlanRaw_def parseAssetPlan_eq verifyAccount_iff asset_plan_fits_def
          asset_plan_at_def Let_def loop [simplified] readLE_def add.commute flip: d_def n_def)
  next
    case True
    then show ?thesis
      using \<open>isProgramAccount info AssetPlanK 44 pid\<close> len
      by (auto simp: parseAssetPlanRaw_def parseAssetPlan_eq verifyAccount_iff asset_plan_fits_def
          Let_def readLE_def simp flip: d_def n_def)
  qed
qed (simp add: parseAssetPlanRaw_def parseAssetPlan_def verifyAccount_iff)

lemma deadlineRaw_eq: "deadlineRaw pid vaultInfo hbInfo = parseDeadline vaultInfo hbInfo pid"
  by (auto simp: deadlineRaw_def parseDeadline_def verifyAccount_iff)

lemmas raw_parsers_eq = parseVaultConfigRaw_eq parseExecutionLogRaw_eq parseAssetPlanRaw_eq
  parseTokenDistRaw_eq deadlineRaw_eq

subsection \<open>Properties\<close>

text \<open>
  C29: the service's offset based parsers and the cursor based ones of \<open>rawAccountParsers.ts\<close>
  agree on every account: same result for all bytes, and the offset based ones neither throw a
  \<open>RangeError\<close> nor read \<open>undefined\<close>, whatever a malicious RPC returns.
\<close>

theorem raw_parsers_agree:
  "parseVaultConfigRaw pid info w = (Inr (parseVaultConfig info pid), w)
    \<and> parseExecutionLogRaw pid info w = (Inr (parseExecutionLog info pid), w)
    \<and> parseAssetPlanRaw pid info w = (Inr (parseAssetPlan info pid), w)
    \<and> parseTokenDistRaw pid info w = (Inr (parseTokenDist info pid), w)
    \<and> deadlineRaw pid info hbInfo = parseDeadline info hbInfo pid"
  by (simp add: raw_parsers_eq ret_apply)

end
