(* ===== verification/Crank_Math.thy ===== *)
theory Crank_Math
  imports Prelude
begin

text \<open>
  The index and batch arithmetic of the permissionless crank
  (\<open>app/src/utils/crankMath.ts\<close>): splitting the payouts into batches, reading which payouts
  are still owed from an on-chain mask, and the full masks that gate finalisation. The interface
  \<open>paid_mask\<close> states what a client of such a mask relies on; it is interpreted on the TypeScript
  tests together with the Rust bit updates, for the u32 beneficiary masks and for the u64
  assignment mask.
\<close>

unbundle bit_operations_syntax

subsection \<open>The helpers of crankMath.ts\<close>

definition range :: "nat \<Rightarrow> nat list" where
  "range n = [0..<n]"

text \<open>The loop \<open>for (i = 0; i < arr.length; i += size)\<close> does not end when \<open>size\<close> is 0.\<close>

partial_function (option) chunk_loop :: "'a list \<Rightarrow> nat \<Rightarrow> nat \<Rightarrow> 'a list list \<Rightarrow> 'a list list option" where
  "chunk_loop arr sz i out =
     (if i < length arr then chunk_loop arr sz (i + sz) (out @ [take sz (drop i arr)])
      else Some out)"

definition chunk :: "'a list \<Rightarrow> nat \<Rightarrow> 'a list list option" where
  "chunk arr sz = chunk_loop arr sz 0 []"

function unpaid_loop :: "int \<Rightarrow> nat \<Rightarrow> nat \<Rightarrow> nat list \<Rightarrow> nat list" where
  "unpaid_loop msk n i out =
     (if i < n
      then unpaid_loop msk n (Suc i) (if js_and (js_ushr msk i) 1 = 0 then out @ [i] else out)
      else out)"
  by pat_completeness auto
termination
  by (relation "measure (\<lambda>(msk, n, i, out). n - i)") auto

definition unpaidIndices :: "int \<Rightarrow> nat \<Rightarrow> nat list" where
  "unpaidIndices msk n = unpaid_loop msk n 0 []"

definition fullU32Mask :: "nat \<Rightarrow> int" where
  "fullU32Mask n = (if 32 \<le> n then 0xffffffff else js_to_uint32 (js_shl 1 n - 1))"

definition fullU64Mask :: "nat \<Rightarrow> int" where
  "fullU64Mask n = (if 64 \<le> n then 2 ^ 64 - 1 else push_bit n 1 - 1)"

text \<open>The program's own masks (\<open>constants.rs\<close>): \<open>((1u64 << n) - 1) as u32\<close> and the u64 one.\<close>

definition full_mask_u32 :: "nat \<Rightarrow> 32 word" where
  "full_mask_u32 n = ucast (push_bit n 1 - 1 :: 64 word)"

definition full_mask_u64 :: "nat \<Rightarrow> 64 word" where
  "full_mask_u64 n = ucast (push_bit n 1 - 1 :: 128 word)"

declare unpaid_loop.simps [simp del]

subsection \<open>Batches\<close>

text \<open>The reference: consecutive groups of at most \<open>size\<close> elements.\<close>

function groups :: "nat \<Rightarrow> 'a list \<Rightarrow> 'a list list" where
  "groups sz xs = (if xs = [] \<or> sz = 0 then [] else take sz xs # groups sz (drop sz xs))"
  by pat_completeness auto
termination
  by (relation "measure (\<lambda>(sz, xs). length xs)") auto

declare groups.simps [simp del]

lemma groups_Nil [simp]: "groups sz [] = []"
  by (subst groups.simps) simp

lemma chunk_loop_groups:
  "0 < sz \<Longrightarrow> chunk_loop arr sz i out = Some (out @ groups sz (drop i arr))"
proof (induction "length arr - i" arbitrary: i out rule: less_induct)
  case less
  show ?case
  proof (cases "i < length arr")
    case True
    with less have "chunk_loop arr sz (i + sz) (out @ [take sz (drop i arr)])
        = Some ((out @ [take sz (drop i arr)]) @ groups sz (drop (i + sz) arr))"
      by (intro less.hyps) auto
    moreover have "groups sz (drop i arr) = take sz (drop i arr) # groups sz (drop (i + sz) arr)"
      using True less.prems by (subst groups.simps) (simp add: add.commute)
    ultimately show ?thesis using True by (subst chunk_loop.simps) simp
  next
    case False
    then show ?thesis by (subst chunk_loop.simps) simp
  qed
qed

lemma concat_groups: "0 < sz \<Longrightarrow> concat (groups sz xs) = xs"
proof (induction sz xs rule: groups.induct)
  case (1 sz xs)
  then show ?case by (subst groups.simps) (auto simp: append_take_drop_id)
qed

lemma groups_sizes: "g \<in> set (groups sz xs) \<Longrightarrow> g \<noteq> [] \<and> length g \<le> sz"
proof (induction sz xs rule: groups.induct)
  case (1 sz xs)
  then show ?case by (subst (asm) (2) groups.simps) (auto split: if_splits)
qed

lemma groups_butlast: "g \<in> set (butlast (groups sz xs)) \<Longrightarrow> length g = sz"
proof (induction sz xs rule: groups.induct)
  case (1 sz xs)
  show ?case
  proof (cases "xs = [] \<or> sz = 0")
    case True
    with "1.prems" show ?thesis by (simp add: groups.simps [of sz xs])
  next
    case False
    with "1.prems" have "groups sz (drop sz xs) \<noteq> []"
      and "g = take sz xs \<or> g \<in> set (butlast (groups sz (drop sz xs)))"
      by (auto simp: groups.simps [of sz xs] split: if_splits)
    moreover from this(1) have "drop sz xs \<noteq> []" by auto
    ultimately show ?thesis using False "1.IH" by auto
  qed
qed

text \<open>The batches of the crank: \<open>chunk(xs, 8)\<close>.\<close>

definition MAX_BATCH :: nat where
  "MAX_BATCH = 8"

definition batches :: "'a list \<Rightarrow> 'a list list" where
  "batches xs = (case chunk xs MAX_BATCH of Some bs \<Rightarrow> bs | None \<Rightarrow> [])"

lemma batches_groups [simp]: "batches xs = groups 8 xs"
  by (simp add: batches_def chunk_def MAX_BATCH_def chunk_loop_groups)

lemma batch_members: "b \<in> set (groups sz xs) \<Longrightarrow> set b \<subseteq> set xs"
proof (cases "sz = 0")
  case False
  assume "b \<in> set (groups sz xs)"
  then have "set b \<subseteq> set (concat (groups sz xs))" by auto
  with False show ?thesis by (simp add: concat_groups)
qed (simp add: groups.simps)

subsection \<open>Masks\<close>

lemma mask_test: "i < 32 \<Longrightarrow> (js_and (js_ushr msk i) 1 = 0) = (\<not> bit (msk mod 2 ^ 32) i)"
  by (simp add: js_and_one js_ushr_def js_to_uint32_def bit_iff_odd)

lemma mask_test_word: "i < 32 \<Longrightarrow> (js_and (js_ushr (uint (m :: 32 word)) i) 1 = 0) = (\<not> bit m i)"
proof -
  assume i: "i < 32"
  have "0 \<le> uint m" and "uint m < 2 ^ 32" using unsigned_less [of m, where 'a = int] by simp_all
  then have "uint m mod 2 ^ 32 = uint m" by (rule mod_pos_pos_trivial)
  then show ?thesis using i by (simp add: mask_test bit_uint_iff)
qed

lemma unpaid_loop_filter:
  "unpaid_loop msk n i out = out @ filter (\<lambda>k. js_and (js_ushr msk k) 1 = 0) [i..<n]"
proof (induction msk n i out rule: unpaid_loop.induct)
  case (1 msk n i out)
  then show ?case
    by (subst unpaid_loop.simps) (simp add: upt_conv_Cons)
qed

lemma unpaidIndices_filter:
  "unpaidIndices msk n = filter (\<lambda>k. js_and (js_ushr msk k) 1 = 0) [0..<n]"
  by (simp add: unpaidIndices_def unpaid_loop_filter)

lemma unpaidIndices_word:
  "n \<le> 32 \<Longrightarrow> unpaidIndices (uint (m :: 32 word)) n = filter (\<lambda>k. \<not> bit m k) [0..<n]"
  unfolding unpaidIndices_filter by (rule filter_cong) (simp_all add: mask_test_word)

lemma fullU32Mask_eq: "n \<le> 32 \<Longrightarrow> fullU32Mask n = 2 ^ n - 1"
proof (cases "n = 32")
  case False
  assume "n \<le> 32"
  with False have n: "n < 32" by simp
  have lt: "(2 :: int) ^ n < 2 ^ 32" using n by (intro power_strict_increasing) auto
  have pos: "(1 :: int) \<le> 2 ^ n" by simp
  have "js_to_uint32 (js_shl 1 n - 1) = (js_to_int32 (2 ^ n) - 1) mod 2 ^ 32"
    using n by (simp add: js_to_uint32_def js_shl_def)
  also have "\<dots> = (js_to_int32 (2 ^ n) mod 2 ^ 32 - 1) mod 2 ^ 32" by (simp add: mod_diff_left_eq)
  also have "\<dots> = (2 ^ n mod 2 ^ 32 - 1) mod 2 ^ 32" by (simp only: js_to_int32_mod)
  also have "\<dots> = 2 ^ n - 1" using lt pos by simp
  finally show ?thesis using n by (simp add: fullU32Mask_def)
qed (simp add: fullU32Mask_def)

lemma fullU64Mask_eq: "n \<le> 64 \<Longrightarrow> fullU64Mask n = 2 ^ n - 1"
  by (auto simp: fullU64Mask_def push_bit_eq_mult)


lemma full_mask_u32_bit: "n \<le> 32 \<Longrightarrow> bit (full_mask_u32 n) i = (i < n)"
proof -
  assume n: "n \<le> 32"
  have "full_mask_u32 n = ucast (Bit_Operations.mask n :: 64 word)"
    by (simp add: full_mask_u32_def mask_eq_exp_minus_1 push_bit_eq_mult)
  then show ?thesis using n by (auto simp: bit_simps)
qed

lemma full_mask_u64_bit: "n \<le> 64 \<Longrightarrow> bit (full_mask_u64 n) i = (i < n)"
proof -
  assume n: "n \<le> 64"
  have "full_mask_u64 n = ucast (Bit_Operations.mask n :: 128 word)"
    by (simp add: full_mask_u64_def mask_eq_exp_minus_1 push_bit_eq_mult)
  then show ?thesis using n by (auto simp: bit_simps)
qed

lemma fullU32Mask_bit: "n \<le> 32 \<Longrightarrow> bit (word_of_int (fullU32Mask n) :: 32 word) i = (i < n)"
  by (auto simp: fullU32Mask_eq bit_simps simp flip: mask_eq_exp_minus_1)

lemma fullU64Mask_bit: "n \<le> 64 \<Longrightarrow> bit (word_of_int (fullU64Mask n) :: 64 word) i = (i < n)"
  by (auto simp: fullU64Mask_eq bit_simps simp flip: mask_eq_exp_minus_1)

lemma fullU32Mask_uint: "n \<le> 32 \<Longrightarrow> uint (word_of_int (fullU32Mask n) :: 32 word) = fullU32Mask n"
proof -
  assume n: "n \<le> 32"
  then have "(2 :: int) ^ n \<le> 2 ^ 32" by (intro power_increasing) auto
  moreover have "(1 :: int) \<le> 2 ^ n" by simp
  ultimately have "uint (word_of_int (2 ^ n - 1) :: 32 word) = 2 ^ n - 1"
    by (subst uint_word_of_int) (simp add: take_bit_int_eq_self)
  then show ?thesis using n by (simp only: fullU32Mask_eq)
qed

lemma fullU64Mask_uint: "n \<le> 64 \<Longrightarrow> uint (word_of_int (fullU64Mask n) :: 64 word) = fullU64Mask n"
proof -
  assume n: "n \<le> 64"
  then have "(2 :: int) ^ n \<le> 2 ^ 64" by (intro power_increasing) auto
  moreover have "(1 :: int) \<le> 2 ^ n" by simp
  ultimately have "uint (word_of_int (2 ^ n - 1) :: 64 word) = 2 ^ n - 1"
    by (subst uint_word_of_int) (simp add: take_bit_int_eq_self)
  then show ?thesis using n by (simp only: fullU64Mask_eq)
qed

subsection \<open>The mask interface\<close>

text \<open>
  What the crank relies on: the client reads \<open>paid\<close> and compares with \<open>full\<close>; the program
  sets bits with \<open>mark\<close> and sets no bit beyond the \<open>n\<close> payouts of the vault (\<open>ok n\<close>).
\<close>

locale paid_mask =
  fixes paid :: "'m \<Rightarrow> nat \<Rightarrow> bool"
    and mark :: "nat \<Rightarrow> 'm \<Rightarrow> 'm"
    and full :: "nat \<Rightarrow> 'm"
    and ok :: "nat \<Rightarrow> 'm \<Rightarrow> bool"
    and cap :: nat
  assumes paid_mark: "i < cap \<Longrightarrow> j < cap \<Longrightarrow> paid (mark i m) j = (j = i \<or> paid m j)"
    and ok_mark: "ok n m \<Longrightarrow> i < n \<Longrightarrow> n \<le> cap \<Longrightarrow> ok n (mark i m)"
    and ok_full: "n \<le> cap \<Longrightarrow> ok n (full n)"
    and full_iff: "n \<le> cap \<Longrightarrow> ok n m \<Longrightarrow> (m = full n) = (\<forall>i<n. paid m i)"
begin

definition owed :: "'m \<Rightarrow> nat \<Rightarrow> nat list" where
  "owed m n = filter (\<lambda>i. \<not> paid m i) [0..<n]"

lemma owed_empty_iff_full: "n \<le> cap \<Longrightarrow> ok n m \<Longrightarrow> (owed m n = []) = (m = full n)"
  by (auto simp: owed_def full_iff filter_empty_conv)

lemma marks_ok: "ok n m \<Longrightarrow> set is \<subseteq> {..<n} \<Longrightarrow> n \<le> cap \<Longrightarrow> ok n (fold mark is m)"
  by (induction "is" arbitrary: m) (auto simp: ok_mark)

lemma paid_marks:
  "set is \<subseteq> {..<cap} \<Longrightarrow> j < cap \<Longrightarrow> paid (fold mark is m) j = (j \<in> set is \<or> paid m j)"
  by (induction "is" arbitrary: m) (auto simp: paid_mark)

lemma owed_marks:
  "n \<le> cap \<Longrightarrow> set is \<subseteq> {..<n} \<Longrightarrow> owed (fold mark is m) n = filter (\<lambda>i. i \<notin> set is) (owed m n)"
proof -
  assume n: "n \<le> cap" and sub: "set is \<subseteq> {..<n}"
  then have "set is \<subseteq> {..<cap}" by auto
  then have "paid (fold mark is m) i = (i \<in> set is \<or> paid m i)" if "i < n" for i
    using that n by (intro paid_marks) auto
  then show ?thesis unfolding owed_def filter_filter by (intro filter_cong) auto
qed

text \<open>Landing every batch of what is owed fills the mask, and nothing is owed twice.\<close>

lemma all_batches_fill:
  assumes "n \<le> cap" "ok n m" "concat bs = owed m n"
  shows "fold (fold mark) bs m = full n"
proof -
  have sub: "set (owed m n) \<subseteq> {..<n}" by (auto simp: owed_def)
  have "fold (fold mark) bs m = fold mark (concat bs) m"
    by (induction bs arbitrary: m) simp_all
  also have "\<dots> = fold mark (owed m n) m" by (simp add: assms(3))
  finally have eq: "fold (fold mark) bs m = fold mark (owed m n) m" .
  have "owed (fold mark (owed m n) m) n = []"
    using assms(1) sub by (simp add: owed_marks filter_empty_conv)
  moreover have "ok n (fold mark (owed m n) m)" by (rule marks_ok [OF assms(2) sub assms(1)])
  ultimately show ?thesis using assms(1) eq owed_empty_iff_full by simp
qed

end

text \<open>The u32 masks: the client's test and full mask, the program's \<open>|= 1u32 << i\<close>.\<close>

definition mark_u32 :: "nat \<Rightarrow> 32 word \<Rightarrow> 32 word" where
  "mark_u32 i m = m OR push_bit i 1"

definition paid_u32 :: "32 word \<Rightarrow> nat \<Rightarrow> bool" where
  "paid_u32 m i \<longleftrightarrow> js_and (js_ushr (uint m) i) 1 \<noteq> 0"

definition ok_mask :: "nat \<Rightarrow> 'a :: len word \<Rightarrow> bool" where
  "ok_mask n m \<longleftrightarrow> uint m < 2 ^ n"

lemma ok_mask_bits: "n \<le> LENGTH('a) \<Longrightarrow> ok_mask n (m :: 'a :: len word) = (\<forall>i. bit m i \<longrightarrow> i < n)"
proof -
  assume n: "n \<le> LENGTH('a)"
  have "ok_mask n m = (take_bit n (uint m) = uint m)"
    by (simp add: ok_mask_def take_bit_int_eq_self_iff)
  also have "\<dots> = (\<forall>i. bit (uint m) i \<longrightarrow> i < n)"
    by (auto simp: bit_eq_iff bit_take_bit_iff)
  also have "\<dots> = (\<forall>i. bit m i \<longrightarrow> i < n)"
    by (auto simp: bit_uint_iff dest: bit_imp_le_length)
  finally show ?thesis .
qed

lemma bit_mark:
  "i < LENGTH('a) \<Longrightarrow> bit (m OR 2 ^ i) j = (j = i \<or> bit (m :: 'a :: len word) j)"
  by (auto simp: bit_simps)

lemma full_from_bits:
  fixes m f :: "'a :: len word"
  assumes "n \<le> LENGTH('a)" "ok_mask n m" "\<And>i. bit f i = (i < n)"
  shows "(m = f) = (\<forall>i<n. bit m i)"
proof -
  have lt: "i < n \<Longrightarrow> i < LENGTH('a)" for i using assms(1) by simp
  have "(m = f) = (\<forall>i<LENGTH('a). bit m i = (i < n))" by (simp add: bit_eq_iff assms(3))
  then show ?thesis using assms(2) lt by (auto simp: ok_mask_bits [OF assms(1)])
qed

interpretation sol_mask: paid_mask paid_u32 mark_u32 "\<lambda>n. word_of_int (fullU32Mask n)" ok_mask 32
proof unfold_locales
  fix i j n :: nat and m :: "32 word"
  show "i < 32 \<Longrightarrow> j < 32 \<Longrightarrow> paid_u32 (mark_u32 i m) j = (j = i \<or> paid_u32 m j)"
    by (auto simp: paid_u32_def mark_u32_def mask_test_word bit_mark)
  show "ok_mask n m \<Longrightarrow> i < n \<Longrightarrow> n \<le> 32 \<Longrightarrow> ok_mask n (mark_u32 i m)"
    by (auto simp: ok_mask_bits mark_u32_def bit_mark)
  show "n \<le> 32 \<Longrightarrow> ok_mask n (word_of_int (fullU32Mask n) :: 32 word)"
    by (simp add: ok_mask_bits fullU32Mask_bit)
  show "n \<le> 32 \<Longrightarrow> ok_mask n m \<Longrightarrow> (m = word_of_int (fullU32Mask n)) = (\<forall>i<n. paid_u32 m i)"
    by (auto simp: full_from_bits [OF _ _ fullU32Mask_bit] paid_u32_def mask_test_word)
qed

text \<open>The u64 assignment mask: the client's \<open>(mask & (1n << j)) !== 0n\<close>.\<close>

definition mark_u64 :: "nat \<Rightarrow> 64 word \<Rightarrow> 64 word" where
  "mark_u64 i m = m OR push_bit i 1"

definition bigint_bit_set :: "int \<Rightarrow> nat \<Rightarrow> bool" where
  "bigint_bit_set m j \<longleftrightarrow> m AND push_bit j 1 \<noteq> 0"

definition paid_u64 :: "64 word \<Rightarrow> nat \<Rightarrow> bool" where
  "paid_u64 m j = bigint_bit_set (uint m) j"

lemma bigint_bit_set_iff: "bigint_bit_set m j = bit m j"
  by (simp add: bigint_bit_set_def push_bit_eq_mult bit_iff_and_push_bit_not_eq_0)

interpretation plan_mask: paid_mask paid_u64 mark_u64 "\<lambda>n. word_of_int (fullU64Mask n)" ok_mask 64
proof unfold_locales
  fix i j n :: nat and m :: "64 word"
  show "i < 64 \<Longrightarrow> j < 64 \<Longrightarrow> paid_u64 (mark_u64 i m) j = (j = i \<or> paid_u64 m j)"
    by (auto simp: paid_u64_def bigint_bit_set_iff bit_uint_iff mark_u64_def bit_mark)
  show "ok_mask n m \<Longrightarrow> i < n \<Longrightarrow> n \<le> 64 \<Longrightarrow> ok_mask n (mark_u64 i m)"
    by (auto simp: ok_mask_bits mark_u64_def bit_mark)
  show "n \<le> 64 \<Longrightarrow> ok_mask n (word_of_int (fullU64Mask n) :: 64 word)"
    by (simp add: ok_mask_bits fullU64Mask_bit)
  show "n \<le> 64 \<Longrightarrow> ok_mask n m \<Longrightarrow> (m = word_of_int (fullU64Mask n)) = (\<forall>i<n. paid_u64 m i)"
    by (auto simp: full_from_bits [OF _ _ fullU64Mask_bit] paid_u64_def bigint_bit_set_iff bit_uint_iff)
qed

lemma unpaidIndices_owed: "n \<le> 32 \<Longrightarrow> unpaidIndices (uint m) n = sol_mask.owed m n"
  unfolding unpaidIndices_filter sol_mask.owed_def by (simp add: paid_u32_def)


lemma chunk_loop_diverges: "chunk_loop arr sz i out = Some r \<Longrightarrow> 0 < sz \<or> length arr \<le> i"
proof (rule chunk_loop.raw_induct [where P = "\<lambda>arr sz i out r. 0 < sz \<or> length arr \<le> i"])
  fix f :: "'a list \<Rightarrow> nat \<Rightarrow> nat \<Rightarrow> 'a list list \<Rightarrow> 'a list list option" and arr sz i out r
  assume IH: "\<And>arr sz i out r. f arr sz i out = Some r \<Longrightarrow> 0 < sz \<or> length arr \<le> i"
    and eq: "(if i < length arr then f arr sz (i + sz) (out @ [take sz (drop i arr)]) else Some out) = Some r"
  show "0 < sz \<or> length arr \<le> i"
  proof (cases "i < length arr")
    case True
    with eq have "f arr sz (i + sz) (out @ [take sz (drop i arr)]) = Some r" by simp
    then have "0 < sz \<or> length arr \<le> i + sz" by (rule IH)
    with True show ?thesis by auto
  qed simp
qed

subsection \<open>Properties\<close>

text \<open>
  the batching loop \<open>chunk(arr, size)\<close> returns exactly when the size is positive (or there is
  nothing to split): with size 0 it never ends.
\<close>

theorem chunk_terminates_iff: "(\<exists>bs. chunk arr sz = Some bs) = (0 < sz \<or> arr = [])"
proof
  assume "\<exists>bs. chunk arr sz = Some bs"
  then show "0 < sz \<or> arr = []" by (auto simp: chunk_def dest: chunk_loop_diverges)
next
  assume "0 < sz \<or> arr = []"
  then show "\<exists>bs. chunk arr sz = Some bs"
    by (auto simp: chunk_def chunk_loop_groups chunk_loop.simps [of "[]"])
qed

text \<open>
  the batches of \<open>chunk\<close> partition the payouts: concatenated they are the input, none is empty
  or larger than the size, and all but the last are full.
\<close>

theorem chunk_partitions:
  assumes "0 < sz"
  shows "\<exists>bs. chunk arr sz = Some bs \<and> concat bs = arr
    \<and> list_all (\<lambda>b. b \<noteq> [] \<and> length b \<le> sz) bs \<and> list_all (\<lambda>b. length b = sz) (butlast bs)"
  using assms by (simp add: chunk_def chunk_loop_groups concat_groups list_all_iff groups_sizes groups_butlast)

theorem chunk_partitions_witness:
  "\<exists>bs. chunk [0 :: nat, 1, 2, 3, 4] 2 = Some bs \<and> concat bs = [0, 1, 2, 3, 4]
    \<and> list_all (\<lambda>b. b \<noteq> [] \<and> length b \<le> 2) bs \<and> list_all (\<lambda>b. length b = 2) (butlast bs)"
  by (rule chunk_partitions) simp

text \<open>
  for the at most 32 beneficiaries of a u32 mask with no bit beyond them, the client's list of
  owed payouts is empty exactly when the mask equals the client's full mask, the test
  \<open>(mask >>> 0) === fullU32Mask(n)\<close> that gates finalisation.
\<close>

theorem owed_empty_iff_mask_full:
  fixes m :: "32 word"
  assumes "n \<le> 32" "uint m < 2 ^ n"
  shows "(unpaidIndices (uint m) n = []) = (js_to_uint32 (uint m) = fullU32Mask n)"
proof -
  have "js_to_uint32 (uint m) = uint m" using unsigned_less [of m, where 'a = int] by simp
  moreover have "(uint m = fullU32Mask n) = (m = word_of_int (fullU32Mask n))"
    using fullU32Mask_uint [OF assms(1)] by (metis word_of_int_uint)
  moreover have "(sol_mask.owed m n = []) = (m = word_of_int (fullU32Mask n))"
    using assms by (intro sol_mask.owed_empty_iff_full) (simp_all add: ok_mask_def)
  ultimately show ?thesis using assms(1) by (simp add: unpaidIndices_owed)
qed

theorem owed_empty_iff_mask_full_witness:
  "(unpaidIndices (uint (5 :: 32 word)) 3 = []) = (js_to_uint32 (uint (5 :: 32 word)) = fullU32Mask 3)"
  by (rule owed_empty_iff_mask_full) simp_all

text \<open>
  one pass of the crank completes a mask: when the program marks the indices of every batch of
  \<open>chunk(unpaidIndices(mask, n), 8)\<close>, the mask it ends with is exactly \<open>fullU32Mask(n)\<close>.
\<close>

theorem crank_batches_fill_mask:
  fixes m :: "32 word"
  assumes "n \<le> 32" "uint m < 2 ^ n"
  shows "uint (fold (fold mark_u32) (batches (unpaidIndices (uint m) n)) m) = fullU32Mask n"
proof -
  have "concat (batches (unpaidIndices (uint m) n)) = sol_mask.owed m n"
    using assms(1) by (simp add: concat_groups unpaidIndices_owed)
  then have "fold (fold mark_u32) (batches (unpaidIndices (uint m) n)) m = word_of_int (fullU32Mask n)"
    using assms by (intro sol_mask.all_batches_fill) (simp_all add: ok_mask_def)
  then show ?thesis using fullU32Mask_uint [OF assms(1)] by simp
qed

theorem crank_batches_fill_mask_witness:
  "uint (fold (fold mark_u32) (batches (unpaidIndices (uint (2 :: 32 word)) 10)) 2) = fullU32Mask 10"
  by (rule crank_batches_fill_mask) simp_all

text \<open>
  the client's full masks are the program's: \<open>fullU32Mask\<close> agrees with \<open>full_mask_u32\<close> for up
  to 32 beneficiaries and \<open>fullU64Mask\<close> with \<open>full_mask_u64\<close> for up to 64 assignments.
\<close>

theorem full_masks_agree_with_program:
  "(n \<le> 32 \<longrightarrow> fullU32Mask n = uint (full_mask_u32 n))
    \<and> (k \<le> 64 \<longrightarrow> fullU64Mask k = uint (full_mask_u64 k))"
proof (intro conjI impI)
  assume n: "n \<le> 32"
  have "word_of_int (fullU32Mask n) = full_mask_u32 n"
    using n by (intro bit_word_eqI) (simp add: fullU32Mask_bit full_mask_u32_bit)
  then show "fullU32Mask n = uint (full_mask_u32 n)" using fullU32Mask_uint [OF n] by simp
next
  assume k: "k \<le> 64"
  have "word_of_int (fullU64Mask k) = full_mask_u64 k"
    using k by (intro bit_word_eqI) (simp add: fullU64Mask_bit full_mask_u64_bit)
  then show "fullU64Mask k = uint (full_mask_u64 k)" using fullU64Mask_uint [OF k] by simp
qed

theorem full_masks_agree_with_program_witness:
  "fullU32Mask 20 = uint (full_mask_u32 20) \<and> fullU64Mask 64 = uint (full_mask_u64 64)"
  using full_masks_agree_with_program [of 20 64] by simp

end
