(* ===== verification/Tx_Model.thy ===== *)
theory Tx_Model
  imports Account_Raw Net Crank_Math
begin

text \<open>
  The vocabulary of \<open>services/VaultTransactionService.ts\<close>: the instructions it builds (one
  constructor per method of the program, with the accounts it names and the remaining accounts),
  transactions, and the services outside the repository as parameters: key derivation and address
  text (\<open>env\<close>) and the RPC connection (\<open>rpc\<close>). The account reads, the priority fee and the
  signed send are here; the builders are in \<open>Vault_Tx\<close>, \<open>Crank_Tx\<close> and \<open>Claim_Tx\<close>.
\<close>

subsection \<open>Instructions and transactions\<close>

type_synonym amount = int

record chain_benef =
  cb_wallet :: pubkey
  cb_shareBps :: int

record init_params =
  ip_agent :: pubkey
  ip_interval :: amount
  ip_grace :: amount
  ip_beneficiaries :: "chain_benef list"
  ip_mutable :: bool
  ip_bounty :: amount

datatype hb_method = ActiveTap | BiometricConfirm | OnChainActivity | PinChallenge | HardwareSwitch

record chain_assignment =
  ca_mint :: pubkey
  ca_amount :: amount
  ca_benef :: nat
  ca_nft :: bool

datatype prog_method =
    InitializeVault init_params
  | RecordHeartbeat hb_method
  | UpdateVault "amount option" "amount option" "chain_benef list option"
  | RevokeVault
  | ClearAssetPlan
  | CloseRevokedVault
  | CloseExecutedVaultByOwner
  | WithdrawFromVault amount
  | WithdrawSolFromVault amount
  | RotateAgent pubkey
  | SetAssetPlan "chain_assignment list"
  | UpdateAssetPlan "chain_assignment list"
  | BeginExecution
  | ExecuteSpecificSol nat
  | BeginTokenDist
  | ExecuteSpecificAsset nat
  | ExecuteSolShares bytes
  | ExecuteTokenShares bytes
  | FinalizeExecution
  | CloseTokenDist
  | CloseExecutedVault

text \<open>The field names of \<open>accountsPartial\<close>; an account passed as \<open>null\<close> is \<open>None\<close>.\<close>

datatype role = Payer | Owner | Agent | VaultConfig | HeartbeatRecord | FeeRecipient | SystemProgram
  | ExecutionLog | AssetPlan | LargestBenef | Mint | SourceTokenAccount | DestinationTokenAccount
  | TokenProgram | Beneficiary | VaultAta | TokenDist | BeneficiaryAta | LargestBenefAta

type_synonym accounts = "(role \<times> pubkey option) list"

record meta =
  mt_key :: pubkey
  mt_writable :: bool
  mt_signer :: bool

datatype instruction =
    ProgIx prog_method accounts "meta list"
  | SystemTransfer pubkey pubkey amount
  | CreateAtaIdempotent pubkey pubkey pubkey pubkey pubkey
  | TransferChecked pubkey pubkey pubkey pubkey amount nat pubkey
  | HarvestWithheldTokensToMint pubkey "pubkey list" pubkey
  | SetComputeUnitLimit int
  | SetComputeUnitPrice int

type_synonym tx = "instruction list"

record signed_tx =
  st_ixs :: tx
  st_feePayer :: pubkey
  st_blockhash :: string
  st_signers :: "pubkey list"

subsection \<open>Outside services\<close>

text \<open>
  \<open>pda\<close> is \<open>findProgramAddressSync(seeds, programId)[0]\<close>, \<open>ata\<close> is
  \<open>getAssociatedTokenAddressSync\<close> (which may throw for an off-curve owner), \<open>b58\<close> is the text of a
  key, \<open>new_bn\<close> is \<open>new BN(number)\<close> and may throw.
\<close>

record env =
  program_id :: pubkey
  pda :: "bytes list \<Rightarrow> pubkey"
  ata :: "pubkey \<Rightarrow> pubkey \<Rightarrow> bool \<Rightarrow> pubkey \<Rightarrow> exn + pubkey"
  b58 :: "pubkey \<Rightarrow> string"
  new_bn :: "int \<Rightarrow> exn + int"
  system_program :: pubkey
  token_program :: pubkey
  token_2022_program :: pubkey
  ata_program :: pubkey
  compute_budget_program :: pubkey
  fee_wallet :: pubkey

record account_info = acct +
  acc_lamports :: int

record parsed_token =
  pt_mint :: pubkey
  pt_amount :: int
  pt_decimals :: nat
  pt_ui :: string

text \<open>What \<open>@solana/spl-token\<close> reads from a mint with its Token-2022 extensions.\<close>

datatype account_state = Uninitialized | Initialized | Frozen

record mint_info =
  mi_decimals :: nat
  mi_freezeAuthority :: "pubkey option"
  mi_nonTransferable :: bool
  mi_defaultState :: "account_state option"
  mi_hook :: "pubkey option"
  mi_paused :: "bool option"
  mi_permanentDelegate :: "pubkey option"
  mi_feeBps :: "nat option"

record token_account =
  ta_withheld :: "nat option"

record block =
  blockhash :: string
  lastValidBlockHeight :: nat

record 'w rpc =
  getAccountInfo :: "pubkey \<Rightarrow> ('w, account_info option) io"
  anchorVaultConfig :: "pubkey \<Rightarrow> ('w, vault_config) io"
  getParsedTokenAccountsByOwner :: "pubkey \<Rightarrow> pubkey \<Rightarrow> ('w, parsed_token option list) io"
  getMint :: "pubkey \<Rightarrow> pubkey \<Rightarrow> ('w, mint_info) io"
  getAccount :: "pubkey \<Rightarrow> pubkey \<Rightarrow> ('w, token_account) io"
  getTokenAccountBalance :: "pubkey \<Rightarrow> ('w, int) io"
  getMinimumBalanceForRentExemption :: "nat \<Rightarrow> ('w, int) io"
  getBalance :: "pubkey \<Rightarrow> ('w, int) io"
  getLatestBlockhash :: "('w, block) io"
  sendRawTransaction :: "signed_tx \<Rightarrow> ('w, string) io"
  confirmTransaction :: "string \<Rightarrow> block \<Rightarrow> ('w, unit) io"
  getHeliusApiKey :: "'w \<Rightarrow> string"
  getRpcUrl :: "'w \<Rightarrow> string"
  rpc_net :: "'w net"

subsection \<open>Addresses\<close>

definition seed :: "string \<Rightarrow> bytes" where
  "seed s = map of_char s"

definition getVaultPDA :: "env \<Rightarrow> pubkey \<Rightarrow> pubkey" where
  "getVaultPDA E owner = pda E [seed ''vault'', owner]"

definition getHeartbeatPDA :: "env \<Rightarrow> pubkey \<Rightarrow> pubkey" where
  "getHeartbeatPDA E vaultConfig = pda E [seed ''heartbeat'', vaultConfig]"

definition getExecutionPDA :: "env \<Rightarrow> pubkey \<Rightarrow> pubkey" where
  "getExecutionPDA E vaultConfig = pda E [seed ''execution'', vaultConfig]"

definition getAssetPlanPDA :: "env \<Rightarrow> pubkey \<Rightarrow> pubkey" where
  "getAssetPlanPDA E vaultConfig = pda E [seed ''asset_plan'', vaultConfig]"

definition getTokenDistPDA :: "env \<Rightarrow> pubkey \<Rightarrow> pubkey \<Rightarrow> pubkey" where
  "getTokenDistPDA E vaultConfig mint = pda E [seed ''token_dist'', vaultConfig, mint]"

definition ataFor :: "env \<Rightarrow> pubkey \<Rightarrow> pubkey \<Rightarrow> bool \<Rightarrow> pubkey \<Rightarrow> ('w, pubkey) io" where
  "ataFor E mint owner allowOffCurve tokenProgram = liftE (ata E mint owner allowOffCurve tokenProgram)"

subsection \<open>Account reads\<close>

definition rawInfo :: "'w rpc \<Rightarrow> pubkey \<Rightarrow> ('w, acct option) io" where
  "rawInfo R key = bindE (getAccountInfo R key) (\<lambda>i. ret (map_option acct.truncate i))"

definition accountExists :: "'w rpc \<Rightarrow> pubkey \<Rightarrow> ('w, bool) io" where
  "accountExists R key = bindE (getAccountInfo R key) (\<lambda>i. ret (i \<noteq> None))"

definition getTokenProgramForMint :: "env \<Rightarrow> 'w rpc \<Rightarrow> pubkey \<Rightarrow> ('w, pubkey) io" where
  "getTokenProgramForMint E R mint =
     bindE (getAccountInfo R mint) (\<lambda>info.
     ret (case info of
            Some i \<Rightarrow> if acc_owner i = token_2022_program E then token_2022_program E else token_program E
          | None \<Rightarrow> token_program E))"

definition fetchVaultConfig :: "env \<Rightarrow> 'w rpc \<Rightarrow> pubkey \<Rightarrow> ('w, vault_config option) io" where
  "fetchVaultConfig E R owner =
     (let p = getVaultPDA E owner in
      tryE (bindE (anchorVaultConfig R p) (\<lambda>c. ret (Some c)))
        (\<lambda>_. tryE (bindE (rawInfo R p) (parseVaultConfigRaw (program_id E))) (\<lambda>_. ret None)))"

definition assetPlanIfPresent :: "env \<Rightarrow> 'w rpc \<Rightarrow> pubkey \<Rightarrow> ('w, pubkey option) io" where
  "assetPlanIfPresent E R owner =
     bindE (fetchVaultConfig E R owner) (\<lambda>config.
     ret (case config of
            Some c \<Rightarrow> if hasAssetPlan c then Some (getAssetPlanPDA E (getVaultPDA E owner)) else None
          | None \<Rightarrow> None))"

definition fetchExecutionLog :: "env \<Rightarrow> 'w rpc \<Rightarrow> pubkey \<Rightarrow> ('w, execution_log option) io" where
  "fetchExecutionLog E R owner =
     bindE (rawInfo R (getExecutionPDA E (getVaultPDA E owner))) (parseExecutionLogRaw (program_id E))"

definition fetchAssetPlan :: "env \<Rightarrow> 'w rpc \<Rightarrow> pubkey \<Rightarrow> ('w, asset_plan option) io" where
  "fetchAssetPlan E R owner =
     bindE (rawInfo R (getAssetPlanPDA E (getVaultPDA E owner))) (parseAssetPlanRaw (program_id E))"

definition fetchTokenDist :: "env \<Rightarrow> 'w rpc \<Rightarrow> pubkey \<Rightarrow> pubkey \<Rightarrow> ('w, token_dist option) io" where
  "fetchTokenDist E R owner mint =
     bindE (rawInfo R (getTokenDistPDA E (getVaultPDA E owner) mint)) (parseTokenDistRaw (program_id E))"

definition getOnChainDeadline :: "env \<Rightarrow> 'w rpc \<Rightarrow> pubkey \<Rightarrow> ('w, int option) io" where
  "getOnChainDeadline E R owner =
     (let vaultPda = getVaultPDA E owner; heartbeatPda = getHeartbeatPDA E vaultPda in
      tryE (bindE (rawInfo R vaultPda) (\<lambda>vaultInfo.
            bindE (rawInfo R heartbeatPda) (\<lambda>hbInfo.
            ret (deadlineRaw (program_id E) vaultInfo hbInfo))))
        (\<lambda>_. ret None))"

text \<open>The loop over the two token programs; entries without parsed data or balance are skipped.\<close>

definition keep_balances :: "parsed_token option list \<Rightarrow> parsed_token list" where
  "keep_balances ts = filter (\<lambda>t. 0 < pt_amount t) (List.map_filter id ts)"

definition getVaultTokenBalances :: "env \<Rightarrow> 'w rpc \<Rightarrow> pubkey \<Rightarrow> ('w, parsed_token list) io" where
  "getVaultTokenBalances E R vaultPda =
     forE [token_program E, token_2022_program E] [] (\<lambda>prog results.
       bindE (getParsedTokenAccountsByOwner R vaultPda prog) (\<lambda>ts.
       ret (results @ keep_balances ts)))"

subsection \<open>Priority fee and the signed send\<close>

definition estimatePriorityFee :: "env \<Rightarrow> 'w rpc \<Rightarrow> pubkey list \<Rightarrow> ('w, int) io" where
  "estimatePriorityFee E R accountKeys =
     bindE (gets (getHeliusApiKey R)) (\<lambda>apiKey.
     if apiKey = [] then ret 1000
     else tryE
       (bindE (gets (getRpcUrl R)) (\<lambda>url.
        bindE (rpcWithRetry (rpc_net R) url ''getPriorityFeeEstimate''
           [JObj [(''accountKeys'', JArr (map (\<lambda>k. JStr (b58 E k)) accountKeys)),
                  (''options'', JObj [(''recommended'', JBool True)])]] DEFAULT_MAX_RETRIES) (\<lambda>result.
        ret (case js_get ''priorityFeeEstimate'' result of Inr (JNum f) \<Rightarrow> f | _ \<Rightarrow> 1000))))
       (\<lambda>_. ret 1000))"

definition addPriorityFee :: "env \<Rightarrow> 'w rpc \<Rightarrow> tx \<Rightarrow> pubkey list \<Rightarrow> int \<Rightarrow> ('w, tx) io" where
  "addPriorityFee E R t accountKeys cuLimit =
     bindE (estimatePriorityFee E R accountKeys) (\<lambda>fee.
     ret (SetComputeUnitLimit cuLimit # SetComputeUnitPrice fee # t))"

text \<open>A \<open>Keypair\<close> is known here by its public key; \<open>sign\<close> records the signers.\<close>

definition sendWithPayer ::
  "env \<Rightarrow> 'w rpc \<Rightarrow> instruction list \<Rightarrow> pubkey \<Rightarrow> pubkey list \<Rightarrow> int \<Rightarrow> pubkey list \<Rightarrow> ('w, string) io" where
  "sendWithPayer E R instructions payer accountKeys cuLimit extraSigners =
     bindE (addPriorityFee E R instructions accountKeys cuLimit) (\<lambda>priorityTx.
     bindE (getLatestBlockhash R) (\<lambda>bh.
     bindE (sendRawTransaction R \<lparr>st_ixs = priorityTx, st_feePayer = payer,
              st_blockhash = blockhash bh, st_signers = payer # extraSigners\<rparr>) (\<lambda>sig.
     seqE (confirmTransaction R sig bh) (ret sig))))"

end
