(* ===== verification/Vault_Tx.thy ===== *)
theory Vault_Tx
  imports Tx_Model
begin

text \<open>
  The owner's transactions of \<open>VaultTransactionService.ts\<close>: initialise, update, revoke, close,
  fund, deposit, withdraw, rotate the agent, set the bequest plan, and the checks the owner sees
  before signing (\<open>checkDepositable\<close>, \<open>checkBequestRisk\<close>, \<open>assertPlanFits\<close>).
\<close>

subsection \<open>Parameters\<close>

record benef_input =
  bi_wallet :: pubkey
  bi_shareBps :: int

definition toOnChainBenef :: "benef_input \<Rightarrow> chain_benef" where
  "toOnChainBenef b = \<lparr>cb_wallet = bi_wallet b, cb_shareBps = bi_shareBps b\<rparr>"

definition KEEPER_BOUNTY_LAMPORTS :: int where
  "KEEPER_BOUNTY_LAMPORTS = 5000000"

definition MAX_KEEPER_BOUNTY_LAMPORTS :: int where
  "MAX_KEEPER_BOUNTY_LAMPORTS = 100000000"

definition keeperBountyBN :: "env \<Rightarrow> int \<Rightarrow> ('w, int) io" where
  "keeperBountyBN E lamports =
     (if lamports < 0 \<or> lamports > MAX_KEEPER_BOUNTY_LAMPORTS
      then throw (Error (''Keeper bounty '' @ int_str lamports @ '' lamports exceeds the maximum of ''
             @ int_str MAX_KEEPER_BOUNTY_LAMPORTS @ '' (0.1 SOL).''))
      else liftE (new_bn E lamports))"

definition init_ix ::
  "env \<Rightarrow> pubkey \<Rightarrow> pubkey \<Rightarrow> int \<Rightarrow> int \<Rightarrow> benef_input list \<Rightarrow> bool \<Rightarrow> ('w, instruction) io" where
  "init_ix E owner agent hbInterval hbGrace benefs mutable =
     (let vaultPda = getVaultPDA E owner; heartbeatPda = getHeartbeatPDA E vaultPda in
      bindE (liftE (new_bn E hbInterval)) (\<lambda>interval.
      bindE (liftE (new_bn E hbGrace)) (\<lambda>grace.
      bindE (keeperBountyBN E KEEPER_BOUNTY_LAMPORTS) (\<lambda>bounty.
      ret (ProgIx (InitializeVault \<lparr>ip_agent = agent, ip_interval = interval, ip_grace = grace,
              ip_beneficiaries = map toOnChainBenef benefs, ip_mutable = mutable, ip_bounty = bounty\<rparr>)
           [(Owner, Some owner), (VaultConfig, Some vaultPda), (HeartbeatRecord, Some heartbeatPda),
            (FeeRecipient, Some (fee_wallet E)), (SystemProgram, Some (system_program E))] [])))))"

definition buildInitializeVaultTx ::
  "env \<Rightarrow> 'w rpc \<Rightarrow> pubkey \<Rightarrow> pubkey \<Rightarrow> int \<Rightarrow> int \<Rightarrow> benef_input list \<Rightarrow> bool \<Rightarrow> ('w, tx) io" where
  "buildInitializeVaultTx E R owner agent hbInterval hbGrace benefs mutable =
     (let vaultPda = getVaultPDA E owner; heartbeatPda = getHeartbeatPDA E vaultPda in
      bindE (init_ix E owner agent hbInterval hbGrace benefs mutable) (\<lambda>ix.
      addPriorityFee E R [ix] [owner, vaultPda, heartbeatPda] 250000))"

definition recordHeartbeatOnChain :: "env \<Rightarrow> 'w rpc \<Rightarrow> pubkey \<Rightarrow> pubkey \<Rightarrow> hb_method \<Rightarrow> ('w, string) io" where
  "recordHeartbeatOnChain E R agent ownerPubkey meth =
     (let vaultPda = getVaultPDA E ownerPubkey; heartbeatPda = getHeartbeatPDA E vaultPda;
          ix = ProgIx (RecordHeartbeat meth)
            [(Agent, Some agent), (VaultConfig, Some vaultPda), (HeartbeatRecord, Some heartbeatPda)] []
      in sendWithPayer E R [ix] agent [vaultPda, heartbeatPda, agent] 80000 [])"

text \<open>\<open>params.x ? new BN(params.x) : null\<close>: a missing or zero value is \<open>null\<close>.\<close>

definition bn_or_null :: "env \<Rightarrow> int option \<Rightarrow> ('w, int option) io" where
  "bn_or_null E v = (case v of
       None \<Rightarrow> ret None
     | Some n \<Rightarrow> if n = 0 then ret None else bindE (liftE (new_bn E n)) (\<lambda>b. ret (Some b)))"

definition buildUpdateVaultTx ::
  "env \<Rightarrow> 'w rpc \<Rightarrow> pubkey \<Rightarrow> int option \<Rightarrow> int option \<Rightarrow> benef_input list option \<Rightarrow> ('w, tx) io" where
  "buildUpdateVaultTx E R owner hbInterval hbGrace benefs =
     (let vaultPda = getVaultPDA E owner; heartbeatPda = getHeartbeatPDA E vaultPda in
      bindE (bn_or_null E hbInterval) (\<lambda>interval.
      bindE (bn_or_null E hbGrace) (\<lambda>grace.
      addPriorityFee E R
        [ProgIx (UpdateVault interval grace (map_option (map toOnChainBenef) benefs))
           [(Owner, Some owner), (VaultConfig, Some vaultPda), (HeartbeatRecord, Some heartbeatPda)] []]
        [owner, vaultPda, heartbeatPda] 130000)))"

subsection \<open>Revoke, clear, close\<close>

definition revoke_ix :: "env \<Rightarrow> pubkey \<Rightarrow> pubkey option \<Rightarrow> instruction" where
  "revoke_ix E owner assetPlan =
     (let vaultPda = getVaultPDA E owner in
      ProgIx RevokeVault [(Owner, Some owner), (VaultConfig, Some vaultPda),
        (HeartbeatRecord, Some (getHeartbeatPDA E vaultPda)), (AssetPlan, assetPlan)] [])"

definition buildRevokeVaultTx :: "env \<Rightarrow> 'w rpc \<Rightarrow> pubkey \<Rightarrow> ('w, tx) io" where
  "buildRevokeVaultTx E R owner =
     (let vaultPda = getVaultPDA E owner; heartbeatPda = getHeartbeatPDA E vaultPda in
      bindE (assetPlanIfPresent E R owner) (\<lambda>assetPlan.
      addPriorityFee E R [revoke_ix E owner assetPlan] [owner, vaultPda, heartbeatPda] 130000))"

definition buildClearAssetPlanTx :: "env \<Rightarrow> 'w rpc \<Rightarrow> pubkey \<Rightarrow> ('w, tx) io" where
  "buildClearAssetPlanTx E R owner =
     (let vaultPda = getVaultPDA E owner; heartbeatPda = getHeartbeatPDA E vaultPda;
          assetPlanPda = getAssetPlanPDA E vaultPda in
      addPriorityFee E R
        [ProgIx ClearAssetPlan [(Owner, Some owner), (VaultConfig, Some vaultPda),
           (HeartbeatRecord, Some heartbeatPda), (AssetPlan, Some assetPlanPda)] []]
        [owner, vaultPda, heartbeatPda] 130000)"

definition close_revoked_ix :: "env \<Rightarrow> pubkey \<Rightarrow> instruction" where
  "close_revoked_ix E owner =
     (let vaultPda = getVaultPDA E owner in
      ProgIx CloseRevokedVault [(Owner, Some owner), (VaultConfig, Some vaultPda),
        (HeartbeatRecord, Some (getHeartbeatPDA E vaultPda))] [])"

definition buildCloseRevokedVaultTx :: "env \<Rightarrow> 'w rpc \<Rightarrow> pubkey \<Rightarrow> ('w, tx) io" where
  "buildCloseRevokedVaultTx E R owner =
     (let vaultPda = getVaultPDA E owner; heartbeatPda = getHeartbeatPDA E vaultPda in
      addPriorityFee E R [close_revoked_ix E owner] [owner, vaultPda, heartbeatPda] 100000)"

definition buildCloseAndReinitVaultTx ::
  "env \<Rightarrow> 'w rpc \<Rightarrow> pubkey \<Rightarrow> pubkey \<Rightarrow> int \<Rightarrow> int \<Rightarrow> benef_input list \<Rightarrow> bool \<Rightarrow> ('w, tx) io" where
  "buildCloseAndReinitVaultTx E R owner agent hbInterval hbGrace benefs mutable =
     (let vaultPda = getVaultPDA E owner; heartbeatPda = getHeartbeatPDA E vaultPda in
      bindE (init_ix E owner agent hbInterval hbGrace benefs mutable) (\<lambda>initIx.
      addPriorityFee E R [close_revoked_ix E owner, initIx] [owner, vaultPda, heartbeatPda] 350000))"

text \<open>The first of the beneficiaries with the largest share; \<open>beneficiaries[0].wallet\<close> of an empty list throws.\<close>

definition largest_step :: "(pubkey \<times> nat) \<Rightarrow> (pubkey \<times> nat) \<Rightarrow> (pubkey \<times> nat)" where
  "largest_step b best = (if snd b > snd best then b else best)"

definition largestShareWallet :: "(pubkey \<times> nat) list \<Rightarrow> ('w, pubkey) io" where
  "largestShareWallet benefs =
     (case benefs of
        [] \<Rightarrow> throw TypeError
      | b # _ \<Rightarrow> ret (fst (fold largest_step benefs b)))"

definition shares :: "vault_config \<Rightarrow> (pubkey \<times> nat) list" where
  "shares c = map (\<lambda>b. (wallet b, shareBps b)) (beneficiaries c)"

text \<open>The close instruction of an executed vault, with what is pinned from the old config.\<close>

definition close_executed_ix :: "env \<Rightarrow> 'w rpc \<Rightarrow> pubkey \<Rightarrow> ('w, instruction) io" where
  "close_executed_ix E R owner =
     (let vaultPda = getVaultPDA E owner; heartbeatPda = getHeartbeatPDA E vaultPda;
          executionPda = getExecutionPDA E vaultPda; assetPlanPda = getAssetPlanPDA E vaultPda in
      bindE (fetchVaultConfig E R owner) (\<lambda>oldConfig.
      let hasPlan = (case oldConfig of Some c \<Rightarrow> hasAssetPlan c | None \<Rightarrow> False) in
      bindE (case oldConfig of
               Some c \<Rightarrow> if beneficiaries c \<noteq> [] then bindE (largestShareWallet (shares c)) (\<lambda>k. ret (Some k)) else ret None
             | None \<Rightarrow> ret None) (\<lambda>largestBenef.
      ret (ProgIx CloseExecutedVaultByOwner
        [(Owner, Some owner), (VaultConfig, Some vaultPda), (HeartbeatRecord, Some heartbeatPda),
         (ExecutionLog, Some executionPda), (AssetPlan, if hasPlan then Some assetPlanPda else None),
         (LargestBenef, largestBenef)] []))))"

definition buildCloseExecutedAndReinitVaultTx ::
  "env \<Rightarrow> 'w rpc \<Rightarrow> pubkey \<Rightarrow> pubkey \<Rightarrow> int \<Rightarrow> int \<Rightarrow> benef_input list \<Rightarrow> bool \<Rightarrow> ('w, tx) io" where
  "buildCloseExecutedAndReinitVaultTx E R owner agent hbInterval hbGrace benefs mutable =
     (let vaultPda = getVaultPDA E owner; heartbeatPda = getHeartbeatPDA E vaultPda;
          executionPda = getExecutionPDA E vaultPda in
      bindE (close_executed_ix E R owner) (\<lambda>closeIx.
      bindE (init_ix E owner agent hbInterval hbGrace benefs mutable) (\<lambda>initIx.
      addPriorityFee E R [closeIx, initIx] [owner, vaultPda, heartbeatPda, executionPda] 420000)))"

definition buildCloseExecutedVaultTx :: "env \<Rightarrow> 'w rpc \<Rightarrow> pubkey \<Rightarrow> ('w, tx) io" where
  "buildCloseExecutedVaultTx E R owner =
     (let vaultPda = getVaultPDA E owner; heartbeatPda = getHeartbeatPDA E vaultPda;
          executionPda = getExecutionPDA E vaultPda in
      bindE (close_executed_ix E R owner) (\<lambda>closeIx.
      addPriorityFee E R [closeIx] [owner, vaultPda, heartbeatPda, executionPda] 250000))"

subsection \<open>Funding\<close>

definition buildFundVaultTx :: "env \<Rightarrow> 'w rpc \<Rightarrow> pubkey \<Rightarrow> int \<Rightarrow> ('w, tx) io" where
  "buildFundVaultTx E R owner amountLamports =
     (let vaultPda = getVaultPDA E owner in
      addPriorityFee E R [SystemTransfer owner vaultPda amountLamports] [owner, vaultPda] 80000)"

record deposit_check =
  dc_ok :: bool
  dc_reason :: "string option"
  dc_warning :: "string option"

definition dc_fine :: deposit_check where
  "dc_fine = \<lparr>dc_ok = True, dc_reason = None, dc_warning = None\<rparr>"

definition dc_blocked :: "string \<Rightarrow> deposit_check" where
  "dc_blocked s = \<lparr>dc_ok = False, dc_reason = Some s, dc_warning = None\<rparr>"

definition dc_warn :: "string \<Rightarrow> deposit_check" where
  "dc_warn s = \<lparr>dc_ok = True, dc_reason = None, dc_warning = Some s\<rparr>"

text \<open>\<open>k && !k.equals(PublicKey.default)\<close>.\<close>

definition live_key :: "pubkey option \<Rightarrow> bool" where
  "live_key k = (case k of Some p \<Rightarrow> p \<noteq> default_pubkey | None \<Rightarrow> False)"

text \<open>Basis points as a percentage: an integer, or two decimals.\<close>

definition fee_pct :: "nat \<Rightarrow> string" where
  "fee_pct bps =
     (if bps mod 100 = 0 then nat_str (bps div 100)
      else nat_str (bps div 100) @ ''.'' @ [digit (bps mod 100 div 10), digit (bps mod 10)])"

definition delegate_warning :: string where
  "delegate_warning = ''This token has a permanent delegate '' @ [CHR 0xE2, CHR 0x80, CHR 0x94]
     @ '' the issuer can move it out of the vault at any time, which would defeat the bequest. Only deposit if you trust the issuer.''"

definition fee_warning :: "string \<Rightarrow> string" where
  "fee_warning pct = ''This token charges a '' @ pct @ ''% fee on every transfer. You'' @ [CHR 0x27] @ ''ll lose ~'' @ pct
     @ ''% moving it into the vault now, and the beneficiary loses another ~'' @ pct @ ''% when it'' @ [CHR 0x27] @ ''s distributed to them.''"

definition depositable :: "mint_info \<Rightarrow> deposit_check" where
  "depositable mi =
     (if mi_nonTransferable mi then dc_blocked ''This token is non-transferable''
      else if mi_defaultState mi = Some Frozen
        then dc_blocked ''This token is frozen by default (a permissioned / KYC-gated asset)''
      else if live_key (mi_hook mi)
        then dc_blocked ''This token uses a transfer hook, which the vault does not yet support''
      else if mi_paused mi = Some True then dc_blocked ''This token is currently paused by the issuer''
      else if live_key (mi_permanentDelegate mi) then dc_warn delegate_warning
      else let bps = (case mi_feeBps mi of Some b \<Rightarrow> b | None \<Rightarrow> 0) in
           if bps > 0 then dc_warn (fee_warning (fee_pct bps)) else dc_fine)"

definition checkDepositable :: "env \<Rightarrow> 'w rpc \<Rightarrow> pubkey \<Rightarrow> ('w, deposit_check) io" where
  "checkDepositable E R mint =
     tryE
       (bindE (getTokenProgramForMint E R mint) (\<lambda>tokenProgram.
        if tokenProgram = token_program E then ret dc_fine
        else bindE (getMint R mint tokenProgram) (\<lambda>mi. ret (depositable mi))))
       (\<lambda>_. ret dc_fine)"

definition bequest_risks :: "mint_info \<Rightarrow> string list" where
  "bequest_risks mi =
     (if mi_nonTransferable mi then [''made non-transferable''] else [])
     @ (if mi_paused mi \<noteq> None then [''paused''] else [])
     @ (if mi_freezeAuthority mi \<noteq> None then [''frozen''] else [])
     @ (if live_key (mi_hook mi) then [''blocked by its transfer hook''] else [])
     @ (if live_key (mi_permanentDelegate mi) then [''moved out by the issuer''] else [])"

definition checkBequestRisk :: "env \<Rightarrow> 'w rpc \<Rightarrow> pubkey \<Rightarrow> ('w, string option) io" where
  "checkBequestRisk E R mint =
     (if mint = default_pubkey then ret None
      else tryE
        (bindE (getTokenProgramForMint E R mint) (\<lambda>tokenProgram.
         if tokenProgram = token_program E then ret None
         else bindE (getMint R mint tokenProgram) (\<lambda>mi.
           if bequest_risks mi = [] then ret None
           else ret (Some (''the issuer could have it '' @ join '' / '' (bequest_risks mi)
             @ ''. If that happens after your death this specific bequest may not reach the beneficiary (your other assets still distribute normally).'')))))
        (\<lambda>_. ret None))"

definition buildDepositTokenTx :: "env \<Rightarrow> 'w rpc \<Rightarrow> pubkey \<Rightarrow> pubkey \<Rightarrow> int \<Rightarrow> ('w, tx) io" where
  "buildDepositTokenTx E R owner mint rawAmount =
     (let vaultPda = getVaultPDA E owner in
      bindE (getTokenProgramForMint E R mint) (\<lambda>tokenProgram.
      bindE (ataFor E mint owner False tokenProgram) (\<lambda>ownerAta.
      bindE (ataFor E mint vaultPda True tokenProgram) (\<lambda>vaultAta.
      bindE (tryE (bindE (getAccount R vaultAta tokenProgram) (\<lambda>_. ret []))
               (\<lambda>_. ret [CreateAtaIdempotent owner vaultAta vaultPda mint tokenProgram])) (\<lambda>create.
      bindE (getMint R mint tokenProgram) (\<lambda>mi.
      addPriorityFee E R
        (create @ [TransferChecked ownerAta mint vaultAta owner rawAmount (mi_decimals mi) tokenProgram])
        [owner, vaultPda, mint] 120000))))))"

definition withdraw_token_ix :: "env \<Rightarrow> pubkey \<Rightarrow> pubkey \<Rightarrow> int \<Rightarrow> pubkey \<Rightarrow> pubkey \<Rightarrow> pubkey \<Rightarrow> instruction" where
  "withdraw_token_ix E owner mint amt vaultAta ownerAta tokenProgram =
     (let vaultPda = getVaultPDA E owner in
      ProgIx (WithdrawFromVault amt)
        [(Owner, Some owner), (VaultConfig, Some vaultPda), (HeartbeatRecord, Some (getHeartbeatPDA E vaultPda)),
         (Mint, Some mint), (SourceTokenAccount, Some vaultAta), (DestinationTokenAccount, Some ownerAta),
         (TokenProgram, Some tokenProgram)] [])"

definition buildWithdrawTokenTx :: "env \<Rightarrow> 'w rpc \<Rightarrow> pubkey \<Rightarrow> pubkey \<Rightarrow> int \<Rightarrow> ('w, tx) io" where
  "buildWithdrawTokenTx E R owner mint amt =
     (let vaultPda = getVaultPDA E owner in
      bindE (getTokenProgramForMint E R mint) (\<lambda>tokenProgram.
      bindE (ataFor E mint owner False tokenProgram) (\<lambda>ownerAta.
      bindE (ataFor E mint vaultPda True tokenProgram) (\<lambda>vaultAta.
      bindE (liftE (new_bn E amt)) (\<lambda>bn.
      addPriorityFee E R [withdraw_token_ix E owner mint bn vaultAta ownerAta tokenProgram]
        [owner, vaultPda, mint] 130000)))))"

definition withdraw_sol_ix :: "env \<Rightarrow> pubkey \<Rightarrow> int \<Rightarrow> instruction" where
  "withdraw_sol_ix E owner amt =
     (let vaultPda = getVaultPDA E owner in
      ProgIx (WithdrawSolFromVault amt) [(Owner, Some owner), (VaultConfig, Some vaultPda),
        (HeartbeatRecord, Some (getHeartbeatPDA E vaultPda))] [])"

definition buildWithdrawSolTx :: "env \<Rightarrow> 'w rpc \<Rightarrow> pubkey \<Rightarrow> int \<Rightarrow> ('w, tx) io" where
  "buildWithdrawSolTx E R owner amountLamports =
     (let vaultPda = getVaultPDA E owner; heartbeatPda = getHeartbeatPDA E vaultPda in
      bindE (liftE (new_bn E amountLamports)) (\<lambda>bn.
      addPriorityFee E R [withdraw_sol_ix E owner bn] [owner, vaultPda, heartbeatPda] 130000))"

definition buildRotateAgentTx :: "env \<Rightarrow> 'w rpc \<Rightarrow> pubkey \<Rightarrow> pubkey \<Rightarrow> ('w, tx) io" where
  "buildRotateAgentTx E R owner newAgentPubkey =
     (let vaultPda = getVaultPDA E owner; heartbeatPda = getHeartbeatPDA E vaultPda in
      addPriorityFee E R
        [ProgIx (RotateAgent newAgentPubkey) [(Owner, Some owner), (VaultConfig, Some vaultPda),
           (HeartbeatRecord, Some heartbeatPda)] []]
        [owner, vaultPda, heartbeatPda] 100000)"

definition refundAgentSol :: "env \<Rightarrow> 'w rpc \<Rightarrow> pubkey \<Rightarrow> pubkey \<Rightarrow> ('w, string option) io" where
  "refundAgentSol E R agent ownerPubkey =
     bindE (getBalance R agent) (\<lambda>balance.
     let refundAmount = balance - 5000 in
     if refundAmount \<le> 0 then ret None
     else
     bindE (getLatestBlockhash R) (\<lambda>bh.
     bindE (sendRawTransaction R \<lparr>st_ixs = [SystemTransfer agent ownerPubkey refundAmount], st_feePayer = agent,
              st_blockhash = blockhash bh, st_signers = [agent]\<rparr>) (\<lambda>sig.
     seqE (confirmTransaction R sig bh) (ret (Some sig)))))"

end
