(* ===== verification/Srv_Store.thy ===== *)
theory Srv_Store
  imports Net
begin

text \<open>
  The registration store of the notification server (\<open>notify-server/src/registrationStore.js\<close>,
  \<open>notify-server/src/db.js\<close>): the two tables, every statement, and the transactions of the signed and
  the legacy path. SQLite may reject any statement, also a \<open>prepare\<close> or the commit; a transaction that
  fails is rolled back. Times are seconds.
\<close>

subsection \<open>Tables\<close>

record reg_row =
  rr_owner :: string
  rr_deviceToken :: string
  rr_stage1 :: rat
  rr_stage2 :: rat
  rr_stage3 :: rat
  rr_lastStage :: int
  rr_lastNotifiedAt :: int
  rr_createdAt :: int
  rr_updatedAt :: int
  rr_authVersion :: int
  rr_revision :: int
  rr_tokenHash :: "string option"
  rr_signedAt :: "int option"
  rr_migration :: string
  rr_lastAuthOp :: "string option"

text \<open>Rows by primary key, in the order they were inserted.\<close>

record srv_db =
  registrations :: "(string \<times> reg_row) list"
  used_nonces :: "((string \<times> string) \<times> int) list"

record srv_world =
  sw_db :: srv_db
  sw_faults :: "nat \<Rightarrow> bool"
  sw_count :: nat
  sw_now :: int

abbreviation row_of :: "srv_db \<Rightarrow> string \<rightharpoonup> reg_row" where
  "row_of d \<equiv> map_of (registrations d)"

subsection \<open>Results\<close>

datatype result_code = R_ok | R_created | R_updated | R_removed | R_not_found | R_nonce_reused | R_stale_revision
  | R_owner_conflict | R_invalid_request | R_invalid_signature | R_stale_timestamp | R_context_mismatch
  | R_ownership_failed | R_dependency_unavailable | R_database_error | R_signed_authorization_required
  | R_signed_not_enabled | R_signed_required | R_rate_limited | R_legacy_window_expired

fun code_text :: "result_code \<Rightarrow> string" where
  "code_text R_ok = ''ok''"
| "code_text R_created = ''created''"
| "code_text R_updated = ''updated''"
| "code_text R_removed = ''removed''"
| "code_text R_not_found = ''not_found''"
| "code_text R_nonce_reused = ''nonce_reused''"
| "code_text R_stale_revision = ''stale_revision''"
| "code_text R_owner_conflict = ''owner_conflict''"
| "code_text R_invalid_request = ''invalid_request''"
| "code_text R_invalid_signature = ''invalid_signature''"
| "code_text R_stale_timestamp = ''stale_timestamp''"
| "code_text R_context_mismatch = ''context_mismatch''"
| "code_text R_ownership_failed = ''ownership_failed''"
| "code_text R_dependency_unavailable = ''dependency_unavailable''"
| "code_text R_database_error = ''database_error''"
| "code_text R_signed_authorization_required = ''signed_authorization_required''"
| "code_text R_signed_not_enabled = ''signed_not_enabled''"
| "code_text R_signed_required = ''signed_required''"
| "code_text R_rate_limited = ''rate_limited''"
| "code_text R_legacy_window_expired = ''legacy_window_expired''"

record apply_result =
  ar_ok :: bool
  ar_code :: result_code
  ar_removed :: "nat option"

definition refused :: "result_code \<Rightarrow> apply_result" where
  "refused c = \<lparr>ar_ok = False, ar_code = c, ar_removed = None\<rparr>"

definition done_with :: "result_code \<Rightarrow> apply_result" where
  "done_with c = \<lparr>ar_ok = True, ar_code = c, ar_removed = None\<rparr>"

definition removed_rows :: "nat \<Rightarrow> apply_result" where
  "removed_rows n = \<lparr>ar_ok = True, ar_code = R_removed, ar_removed = Some n\<rparr>"

subsection \<open>Statements and transactions\<close>

text \<open>A statement is a function of the tables; \<open>Inl\<close> is a constraint that SQLite finds violated.\<close>

definition stmt :: "(srv_db \<Rightarrow> exn + 'a \<times> srv_db) \<Rightarrow> ('e srv_world_scheme, 'a) io" where
  "stmt f w =
     (let w' = w\<lparr>sw_count := Suc (sw_count w)\<rparr> in
      if sw_faults w (sw_count w) then (Inl (External 2), w')
      else case f (sw_db w) of Inl e \<Rightarrow> (Inl e, w') | Inr (a, d) \<Rightarrow> (Inr a, w'\<lparr>sw_db := d\<rparr>))"

definition nop_stmt :: "('e srv_world_scheme, unit) io" where
  "nop_stmt = stmt (\<lambda>d. Inr ((), d))"

fun prepare :: "nat \<Rightarrow> ('e srv_world_scheme, unit) io" where
  "prepare 0 = ret ()"
| "prepare (Suc n) = seqE nop_stmt (prepare n)"

text \<open>\<open>db.transaction\<close>: begin, the body, commit; any failure restores the tables and is thrown again.\<close>

definition transaction :: "('e srv_world_scheme, 'a) io \<Rightarrow> ('e srv_world_scheme, 'a) io" where
  "transaction m =
     bindE (gets sw_db) (\<lambda>before.
     tryE (seqE nop_stmt (bindE m (\<lambda>a. seqE nop_stmt (ret a))))
       (\<lambda>e. seqE (modify (\<lambda>w. w\<lparr>sw_db := before\<rparr>)) (throw e)))"

definition select_row :: "string \<Rightarrow> ('e srv_world_scheme, reg_row option) io" where
  "select_row vault = stmt (\<lambda>d. Inr (row_of d vault, d))"

definition insert_row :: "string \<Rightarrow> reg_row \<Rightarrow> ('e srv_world_scheme, unit) io" where
  "insert_row vault r = stmt (\<lambda>d.
     if row_of d vault \<noteq> None then Inl (External 3)
     else Inr ((), d\<lparr>registrations := registrations d @ [(vault, r)]\<rparr>))"

definition update_row :: "string \<Rightarrow> (reg_row \<Rightarrow> reg_row) \<Rightarrow> ('e srv_world_scheme, nat) io" where
  "update_row vault f = stmt (\<lambda>d. Inr (length (filter (\<lambda>(v, r). v = vault) (registrations d)),
     d\<lparr>registrations := map (\<lambda>(v, r). (v, if v = vault then f r else r)) (registrations d)\<rparr>))"

definition delete_rows :: "(string \<Rightarrow> reg_row \<Rightarrow> bool) \<Rightarrow> ('e srv_world_scheme, nat) io" where
  "delete_rows P = stmt (\<lambda>d. Inr (length (filter (\<lambda>(v, r). P v r) (registrations d)),
     d\<lparr>registrations := filter (\<lambda>(v, r). \<not> P v r) (registrations d)\<rparr>))"

text \<open>\<open>INSERT OR IGNORE\<close>, with the number of rows inserted.\<close>

definition claim_nonce :: "string \<Rightarrow> string \<Rightarrow> int \<Rightarrow> ('e srv_world_scheme, nat) io" where
  "claim_nonce owner nonce usedAt = stmt (\<lambda>d. Inr
     (if map_of (used_nonces d) (owner, nonce) \<noteq> None then (0, d)
      else (1, d\<lparr>used_nonces := used_nonces d @ [((owner, nonce), usedAt)]\<rparr>)))"

subsection \<open>Signed registration and deregistration\<close>

record reg_command =
  rc_owner :: string
  rc_vault :: string
  rc_deviceToken :: string
  rc_tokenHash :: string
  rc_stage1 :: int
  rc_stage2 :: int
  rc_stage3 :: int
  rc_revision :: int
  rc_signedAt :: int
  rc_nonce :: string
  rc_nonceUsedAt :: int

definition signed_row :: "reg_command \<Rightarrow> reg_row" where
  "signed_row c =
     \<lparr>rr_owner = rc_owner c, rr_deviceToken = rc_deviceToken c, rr_stage1 = of_int (rc_stage1 c),
      rr_stage2 = of_int (rc_stage2 c), rr_stage3 = of_int (rc_stage3 c), rr_lastStage = 0, rr_lastNotifiedAt = 0,
      rr_createdAt = rc_nonceUsedAt c, rr_updatedAt = rc_nonceUsedAt c, rr_authVersion = 2, rr_revision = rc_revision c,
      rr_tokenHash = Some (rc_tokenHash c), rr_signedAt = Some (rc_signedAt c), rr_migration = ''signed'',
      rr_lastAuthOp = Some ''register''\<rparr>"

definition signed_update :: "reg_command \<Rightarrow> reg_row \<Rightarrow> reg_row" where
  "signed_update c r = r
     \<lparr>rr_deviceToken := rc_deviceToken c, rr_stage1 := of_int (rc_stage1 c), rr_stage2 := of_int (rc_stage2 c),
      rr_stage3 := of_int (rc_stage3 c), rr_updatedAt := rc_nonceUsedAt c, rr_authVersion := 2,
      rr_revision := rc_revision c, rr_tokenHash := Some (rc_tokenHash c), rr_signedAt := Some (rc_signedAt c),
      rr_migration := ''signed'', rr_lastAuthOp := Some ''register''\<rparr>"

definition signed_registration_txn :: "reg_command \<Rightarrow> ('e srv_world_scheme, apply_result) io" where
  "signed_registration_txn c =
     bindE (claim_nonce (rc_owner c) (rc_nonce c) (rc_nonceUsedAt c)) (\<lambda>changes.
     if changes \<noteq> 1 then ret (refused R_nonce_reused)
     else
     bindE (select_row (rc_vault c)) (\<lambda>row.
     case row of
       None \<Rightarrow> seqE (insert_row (rc_vault c) (signed_row c)) (ret (done_with R_created))
     | Some r \<Rightarrow>
         if rr_owner r \<noteq> rc_owner c then ret (refused R_owner_conflict)
         else if rc_revision c \<le> rr_revision r then ret (refused R_stale_revision)
         else seqE (update_row (rc_vault c) (signed_update c)) (ret (done_with R_updated))))"

definition applySignedRegistration :: "reg_command \<Rightarrow> ('e srv_world_scheme, apply_result) io" where
  "applySignedRegistration c =
     seqE (prepare 4) (tryE (transaction (signed_registration_txn c)) (\<lambda>_. ret (refused R_database_error)))"

record dereg_command =
  dc_owner :: string
  dc_vault :: string
  dc_nonce :: string
  dc_nonceUsedAt :: int
  dc_signedAt :: int

definition signed_deregistration_txn :: "dereg_command \<Rightarrow> ('e srv_world_scheme, apply_result) io" where
  "signed_deregistration_txn c =
     bindE (claim_nonce (dc_owner c) (dc_nonce c) (dc_nonceUsedAt c)) (\<lambda>changes.
     if changes \<noteq> 1 then ret (refused R_nonce_reused)
     else
     bindE (select_row (dc_vault c)) (\<lambda>row.
     if (case row of None \<Rightarrow> False | Some r \<Rightarrow> rr_owner r \<noteq> dc_owner c) then ret (refused R_owner_conflict)
     else
     bindE (delete_rows (\<lambda>v r. v = dc_vault c \<and> rr_owner r = dc_owner c)) (\<lambda>n. ret (removed_rows n))))"

definition applySignedDeregistration :: "dereg_command \<Rightarrow> ('e srv_world_scheme, apply_result) io" where
  "applySignedDeregistration c =
     seqE (prepare 3) (tryE (transaction (signed_deregistration_txn c)) (\<lambda>_. ret (refused R_database_error)))"

subsection \<open>The legacy path\<close>

definition isSignedRow :: "reg_row option \<Rightarrow> bool" where
  "isSignedRow row = (case row of None \<Rightarrow> False | Some r \<Rightarrow> 2 \<le> rr_authVersion r \<or> rr_migration r = ''signed'')"

record legacy_command =
  lc_owner :: string
  lc_vault :: string
  lc_deviceToken :: string
  lc_stage1 :: rat
  lc_stage2 :: rat
  lc_stage3 :: rat
  lc_now :: int

definition legacy_row :: "legacy_command \<Rightarrow> reg_row" where
  "legacy_row c =
     \<lparr>rr_owner = lc_owner c, rr_deviceToken = lc_deviceToken c, rr_stage1 = lc_stage1 c, rr_stage2 = lc_stage2 c,
      rr_stage3 = lc_stage3 c, rr_lastStage = 0, rr_lastNotifiedAt = 0, rr_createdAt = lc_now c, rr_updatedAt = lc_now c,
      rr_authVersion = 1, rr_revision = 0, rr_tokenHash = None, rr_signedAt = None, rr_migration = ''legacy'',
      rr_lastAuthOp = Some ''register''\<rparr>"

definition legacy_update :: "legacy_command \<Rightarrow> reg_row \<Rightarrow> reg_row" where
  "legacy_update c r = r
     \<lparr>rr_owner := lc_owner c, rr_deviceToken := lc_deviceToken c, rr_stage1 := lc_stage1 c, rr_stage2 := lc_stage2 c,
      rr_stage3 := lc_stage3 c, rr_updatedAt := lc_now c\<rparr>"

definition legacy_registration_txn :: "legacy_command \<Rightarrow> ('e srv_world_scheme, apply_result) io" where
  "legacy_registration_txn c =
     bindE (select_row (lc_vault c)) (\<lambda>row.
     if isSignedRow row then ret (refused R_signed_authorization_required)
     else case row of
       None \<Rightarrow> seqE (insert_row (lc_vault c) (legacy_row c)) (ret (done_with R_created))
     | Some r \<Rightarrow> seqE (update_row (lc_vault c) (legacy_update c)) (ret (done_with R_updated)))"

definition applyLegacyRegistration :: "legacy_command \<Rightarrow> ('e srv_world_scheme, apply_result) io" where
  "applyLegacyRegistration c =
     seqE (prepare 3) (tryE (transaction (legacy_registration_txn c)) (\<lambda>_. ret (refused R_database_error)))"

definition legacy_delete_txn :: "string \<Rightarrow> string option \<Rightarrow> ('e srv_world_scheme, apply_result) io" where
  "legacy_delete_txn vault owner =
     bindE (select_row vault) (\<lambda>row.
     if row = None then ret (removed_rows 0)
     else if isSignedRow row then ret (refused R_signed_authorization_required)
     else
     bindE (case owner of
              None \<Rightarrow> delete_rows (\<lambda>v r. v = vault)
            | Some ow \<Rightarrow> if ow = [] then delete_rows (\<lambda>v r. v = vault) else delete_rows (\<lambda>v r. v = vault \<and> rr_owner r = ow))
       (\<lambda>n. ret (removed_rows n)))"

definition deleteLegacyRegistration :: "string \<Rightarrow> string option \<Rightarrow> ('e srv_world_scheme, apply_result) io" where
  "deleteLegacyRegistration vault owner =
     seqE (prepare 3) (tryE (transaction (legacy_delete_txn vault owner)) (\<lambda>_. ret (refused R_database_error)))"

definition deleteLegacyRegistrationsByOwner :: "string \<Rightarrow> ('e srv_world_scheme, apply_result) io" where
  "deleteLegacyRegistrationsByOwner owner =
     tryE (seqE (prepare 1)
       (bindE (delete_rows (\<lambda>v r. rr_owner r = owner \<and> rr_authVersion r < 2 \<and> rr_migration r \<noteq> ''signed''))
         (\<lambda>n. ret (removed_rows n))))
       (\<lambda>_. ret (refused R_database_error))"

subsection \<open>Reads, pruning and the poller's writes\<close>

definition getRegistration :: "string \<Rightarrow> ('e srv_world_scheme, reg_row option) io" where
  "getRegistration vault = seqE (prepare 1) (select_row vault)"

definition pruneNonces :: "int \<Rightarrow> ('e srv_world_scheme, nat) io" where
  "pruneNonces olderThan = seqE (prepare 1) (stmt (\<lambda>d. Inr
     (length (filter (\<lambda>(k, t). t < olderThan) (used_nonces d)),
      d\<lparr>used_nonces := filter (\<lambda>(k, t). \<not> t < olderThan) (used_nonces d)\<rparr>)))"

record migration_counts =
  mc_total :: nat
  mc_legacy :: nat
  mc_signed :: nat
  mc_anomalous :: int

definition counts_of :: "(string \<times> reg_row) list \<Rightarrow> migration_counts" where
  "counts_of rows =
     (let t = length rows;
          s = length (filter (\<lambda>(v, r). 2 \<le> rr_authVersion r \<and> rr_migration r = ''signed'') rows);
          l = length (filter (\<lambda>(v, r). rr_authVersion r < 2 \<and> rr_migration r = ''legacy'') rows)
      in \<lparr>mc_total = t, mc_legacy = l, mc_signed = s, mc_anomalous = int t - int s - int l\<rparr>)"

definition migrationCounts :: "('e srv_world_scheme, migration_counts) io" where
  "migrationCounts = seqE (prepare 1) (stmt (\<lambda>d. Inr (counts_of (registrations d), d)))"

definition deleteRegistration :: "string \<Rightarrow> ('e srv_world_scheme, nat) io" where
  "deleteRegistration vault = delete_rows (\<lambda>v r. v = vault)"

definition updateNotifyState :: "string \<Rightarrow> int \<Rightarrow> int \<Rightarrow> ('e srv_world_scheme, unit) io" where
  "updateNotifyState vault lastStage lastNotifiedAt =
     bindE (update_row vault (\<lambda>r. r\<lparr>rr_lastStage := lastStage, rr_lastNotifiedAt := lastNotifiedAt\<rparr>)) (\<lambda>_. ret ())"

definition allRegistrations :: "('e srv_world_scheme, (string \<times> reg_row) list) io" where
  "allRegistrations = stmt (\<lambda>d. Inr (registrations d, d))"

definition countRegistrations :: "('e srv_world_scheme, nat) io" where
  "countRegistrations = seqE (prepare 1) (stmt (\<lambda>d. Inr (length (registrations d), d)))"

definition upsertRegistration :: "legacy_command \<Rightarrow> ('e srv_world_scheme, unit) io" where
  "upsertRegistration c = stmt (\<lambda>d. Inr ((),
     if row_of d (lc_vault c) = None
     then d\<lparr>registrations := registrations d @ [(lc_vault c, (legacy_row c)\<lparr>rr_lastAuthOp := None\<rparr>)]\<rparr>
     else d\<lparr>registrations := map (\<lambda>(v, r). (v, if v = lc_vault c then legacy_update c r else r)) (registrations d)\<rparr>))"

definition deleteRegistrationsByOwner :: "string \<Rightarrow> ('e srv_world_scheme, nat) io" where
  "deleteRegistrationsByOwner owner = delete_rows (\<lambda>v r. rr_owner r = owner)"

definition claimNonce :: "string \<Rightarrow> string \<Rightarrow> int \<Rightarrow> ('e srv_world_scheme, bool) io" where
  "claimNonce owner nonce usedAt = bindE (claim_nonce owner nonce usedAt) (\<lambda>n. ret (n = 1))"

end
