(* ===== verification/Notify_Auth.thy ===== *)
theory Notify_Auth
  imports Prelude
begin

text \<open>
  The canonical messages an owner signs for the notification server (\<open>utils/notifyAuth.ts\<close>): the
  legacy V1 texts and the V2 texts with their field checks. The properties say what a signature on
  such a text binds: a V2 text determines every field, and no text serves two actions or versions.
  Base58 parsing and printing of keys are parameters.
\<close>

subsection \<open>Version 1\<close>

definition REGISTER_DOMAIN :: string where
  "REGISTER_DOMAIN = ''DMV_NOTIFY_REGISTER_V1''"

definition DEREGISTER_DOMAIN :: string where
  "DEREGISTER_DOMAIN = ''DMV_NOTIFY_DEREGISTER_V1''"

record register_fields =
  rf_owner :: string
  rf_vault :: string
  rf_tokenHash :: string
  rf_stage1 :: int
  rf_stage2 :: int
  rf_stage3 :: int
  rf_timestamp :: int
  rf_nonce :: string

definition registerMessage :: "register_fields \<Rightarrow> string" where
  "registerMessage f = join newline
     [REGISTER_DOMAIN,
      ''owner='' @ rf_owner f,
      ''vault='' @ rf_vault f,
      ''deviceTokenHash='' @ rf_tokenHash f,
      ''stage1='' @ int_str (rf_stage1 f),
      ''stage2='' @ int_str (rf_stage2 f),
      ''stage3='' @ int_str (rf_stage3 f),
      ''timestamp='' @ int_str (rf_timestamp f),
      ''nonce='' @ rf_nonce f]"

record deregister_fields =
  df_owner :: string
  df_vault :: string
  df_timestamp :: int
  df_nonce :: string

definition deregisterMessage :: "deregister_fields \<Rightarrow> string" where
  "deregisterMessage f = join newline
     [DEREGISTER_DOMAIN, ''owner='' @ df_owner f, ''vault='' @ df_vault f,
      ''timestamp='' @ int_str (df_timestamp f), ''nonce='' @ df_nonce f]"

subsection \<open>Version 2\<close>

definition REGISTER_DOMAIN_V2 :: string where
  "REGISTER_DOMAIN_V2 = ''DMV_NOTIFY_REGISTER_V2''"

definition DEREGISTER_DOMAIN_V2 :: string where
  "DEREGISTER_DOMAIN_V2 = ''DMV_NOTIFY_DEREGISTER_V2''"

definition NOTIFY_AUTH_VERSION_V2 :: int where
  "NOTIFY_AUTH_VERSION_V2 = 2"

definition NOTIFY_AUDIENCE :: string where
  "NOTIFY_AUDIENCE = ''https://notify.palatinearc.com''"

definition char_in :: "nat \<Rightarrow> nat \<Rightarrow> char \<Rightarrow> bool" where
  "char_in a b c \<longleftrightarrow> a \<le> of_char c \<and> of_char c \<le> b"

text \<open>The class \<open>[1-9A-HJ-NP-Za-km-z]\<close>.\<close>

definition base58_char :: "char \<Rightarrow> bool" where
  "base58_char c \<longleftrightarrow> char_in 49 57 c \<or> char_in 65 72 c \<or> char_in 74 78 c \<or> char_in 80 90 c
     \<or> char_in 97 107 c \<or> char_in 109 122 c"

definition base58 :: "string \<Rightarrow> bool" where
  "base58 s \<longleftrightarrow> s \<noteq> [] \<and> list_all base58_char s"

definition v2Cluster :: "string \<Rightarrow> exn + string" where
  "v2Cluster c =
     (if c \<noteq> ''devnet'' \<and> c \<noteq> ''mainnet-beta'' then Inl (Error ''invalid cluster'') else Inr c)"

text \<open>\<open>P k\<close> is \<open>new PublicKey(k).toBase58()\<close>, or \<open>None\<close> when the constructor throws.\<close>

definition v2Pubkey :: "(string \<Rightarrow> string option) \<Rightarrow> string \<Rightarrow> string \<Rightarrow> exn + string" where
  "v2Pubkey P k field =
     (if k = [] then Inl (Error (''invalid '' @ field))
      else case P k of
             None \<Rightarrow> Inl (Error (''invalid '' @ field))
           | Some s \<Rightarrow> if s \<noteq> k then Inl (Error (''noncanonical '' @ field)) else Inr k)"

definition hex_lower :: "char \<Rightarrow> bool" where
  "hex_lower c \<longleftrightarrow> char_in 48 57 c \<or> char_in 97 102 c"

definition v2TokenHash :: "string \<Rightarrow> exn + string" where
  "v2TokenHash h =
     (if length h = 64 \<and> list_all hex_lower h then Inr h else Inl (Error ''invalid deviceTokenHash''))"

definition v2PosInt :: "int \<Rightarrow> string \<Rightarrow> exn + string" where
  "v2PosInt n field =
     (if \<not> is_safe_integer n \<or> n \<le> 0 then Inl (Error (''invalid '' @ field)) else Inr (int_str n))"

definition v2Nonce :: "string \<Rightarrow> exn + string" where
  "v2Nonce x =
     (if length x < 22 \<or> length x > 64 \<or> \<not> base58 x then Inl (Error ''invalid nonce'') else Inr x)"

text \<open>The lines are evaluated in order; the first that throws is the error of the message.\<close>

fun lines_of :: "(string \<times> (exn + string)) list \<Rightarrow> exn + string list" where
  "lines_of [] = Inr []"
| "lines_of ((p, r) # ls) =
     (case r of Inl e \<Rightarrow> Inl e
      | Inr v \<Rightarrow> (case lines_of ls of Inl e \<Rightarrow> Inl e | Inr vs \<Rightarrow> Inr ((p @ v) # vs)))"

definition joined :: "exn + string list \<Rightarrow> exn + string" where
  "joined r = (case r of Inl e \<Rightarrow> Inl e | Inr ls \<Rightarrow> Inr (join newline ls))"

record register_fields_v2 =
  r2_cluster :: string
  r2_programId :: string
  r2_owner :: string
  r2_vault :: string
  r2_tokenHash :: string
  r2_stage1 :: int
  r2_stage2 :: int
  r2_stage3 :: int
  r2_revision :: int
  r2_timestamp :: int
  r2_nonce :: string

definition register_lines_v2 :: "(string \<Rightarrow> string option) \<Rightarrow> register_fields_v2 \<Rightarrow> (string \<times> (exn + string)) list" where
  "register_lines_v2 P f =
     [(REGISTER_DOMAIN_V2, Inr []),
      (''version='', Inr (int_str NOTIFY_AUTH_VERSION_V2)),
      (''cluster='', v2Cluster (r2_cluster f)),
      (''programId='', v2Pubkey P (r2_programId f) ''programId''),
      (''audience='', Inr NOTIFY_AUDIENCE),
      (''action=register'', Inr []),
      (''owner='', v2Pubkey P (r2_owner f) ''owner''),
      (''vault='', v2Pubkey P (r2_vault f) ''vault''),
      (''deviceTokenHash='', v2TokenHash (r2_tokenHash f)),
      (''stage1='', v2PosInt (r2_stage1 f) ''stage1''),
      (''stage2='', v2PosInt (r2_stage2 f) ''stage2''),
      (''stage3='', v2PosInt (r2_stage3 f) ''stage3''),
      (''revision='', v2PosInt (r2_revision f) ''revision''),
      (''timestamp='', v2PosInt (r2_timestamp f) ''timestamp''),
      (''nonce='', v2Nonce (r2_nonce f))]"

definition registerMessageV2 :: "(string \<Rightarrow> string option) \<Rightarrow> register_fields_v2 \<Rightarrow> exn + string" where
  "registerMessageV2 P f = joined (lines_of (register_lines_v2 P f))"

record deregister_fields_v2 =
  d2_cluster :: string
  d2_programId :: string
  d2_owner :: string
  d2_vault :: string
  d2_timestamp :: int
  d2_nonce :: string

definition deregister_lines_v2 :: "(string \<Rightarrow> string option) \<Rightarrow> deregister_fields_v2 \<Rightarrow> (string \<times> (exn + string)) list" where
  "deregister_lines_v2 P f =
     [(DEREGISTER_DOMAIN_V2, Inr []),
      (''version='', Inr (int_str NOTIFY_AUTH_VERSION_V2)),
      (''cluster='', v2Cluster (d2_cluster f)),
      (''programId='', v2Pubkey P (d2_programId f) ''programId''),
      (''audience='', Inr NOTIFY_AUDIENCE),
      (''action=deregister'', Inr []),
      (''owner='', v2Pubkey P (d2_owner f) ''owner''),
      (''vault='', v2Pubkey P (d2_vault f) ''vault''),
      (''timestamp='', v2PosInt (d2_timestamp f) ''timestamp''),
      (''nonce='', v2Nonce (d2_nonce f))]"

definition deregisterMessageV2 :: "(string \<Rightarrow> string option) \<Rightarrow> deregister_fields_v2 \<Rightarrow> exn + string" where
  "deregisterMessageV2 P f = joined (lines_of (deregister_lines_v2 P f))"

text \<open>\<open>do { n = encode(random) } while (n.length < 22)\<close>, over the stream of draws.\<close>

partial_function (option) nonce_loop :: "(bytes \<Rightarrow> string) \<Rightarrow> (nat \<Rightarrow> bytes) \<Rightarrow> nat \<Rightarrow> string option" where
  "nonce_loop enc draw i =
     (let n = enc (draw i) in if length n < 22 then nonce_loop enc draw (Suc i) else Some n)"

definition generateNonceV2 :: "(bytes \<Rightarrow> string) \<Rightarrow> (nat \<Rightarrow> bytes) \<Rightarrow> string option" where
  "generateNonceV2 enc draw = nonce_loop enc draw 0"

subsection \<open>Reading a message back\<close>

text \<open>Every line carries its value, and a checked value has no line break.\<close>

lemma lines_of_Cons:
  "lines_of ((p, r) # ls) = Inr vs \<longleftrightarrow> (\<exists>v ws. r = Inr v \<and> lines_of ls = Inr ws \<and> vs = (p @ v) # ws)"
  by (auto split: sum.splits)

lemma lines_of_same:
  "map fst ls = map fst ls' \<Longrightarrow> lines_of ls = Inr vs \<Longrightarrow> lines_of ls' = Inr vs \<Longrightarrow> map snd ls = map snd ls'"
proof (induction ls arbitrary: ls' vs)
  case (Cons l ls)
  obtain p r where l: "l = (p, r)" by (cases l)
  obtain q r' ls'' where l': "ls' = (q, r') # ls''" using Cons.prems(1) by (cases ls') auto
  obtain v ws where v: "r = Inr v" "lines_of ls = Inr ws" "vs = (p @ v) # ws"
    using Cons.prems(2) unfolding l lines_of_Cons by blast
  obtain v' ws' where v': "r' = Inr v'" "lines_of ls'' = Inr ws'" "vs = (q @ v') # ws'"
    using Cons.prems(3) unfolding l' lines_of_Cons by blast
  have "map fst ls = map fst ls''" "p = q" using Cons.prems(1) by (simp_all add: l l')
  moreover have "ws = ws'" "p @ v = q @ v'" using v(3) v'(3) by simp_all
  ultimately show ?case using Cons.IH [of ls'' ws] v v' by (simp add: l l')
qed simp

lemma base58_one_line: "base58 s \<Longrightarrow> one_line s"
  by (auto simp: base58_def one_line_def list_all_iff base58_char_def char_in_def)

lemma hex_one_line: "list_all hex_lower s \<Longrightarrow> one_line s"
  by (auto simp: one_line_def list_all_iff hex_lower_def char_in_def)

definition keys_base58 :: "(string \<Rightarrow> string option) \<Rightarrow> bool" where
  "keys_base58 P \<longleftrightarrow> (\<forall>k. P k = Some k \<longrightarrow> base58 k)"

lemma checked_one_line:
  "v2Cluster c = Inr v \<Longrightarrow> one_line v"
  "v2TokenHash h = Inr v \<Longrightarrow> one_line v"
  "v2PosInt n f = Inr v \<Longrightarrow> one_line v"
  "v2Nonce x = Inr v \<Longrightarrow> one_line v"
proof -
  show "v2Cluster c = Inr v \<Longrightarrow> one_line v" by (auto simp: v2Cluster_def one_line_def split: if_splits)
  show "v2TokenHash h = Inr v \<Longrightarrow> one_line v" by (simp add: v2TokenHash_def hex_one_line split: if_splits)
  show "v2PosInt n f = Inr v \<Longrightarrow> one_line v" by (auto simp: v2PosInt_def split: if_splits)
  show "v2Nonce x = Inr v \<Longrightarrow> one_line v" by (simp add: v2Nonce_def base58_one_line split: if_splits)
qed

lemma checked_key_line: "keys_base58 P \<Longrightarrow> v2Pubkey P k f = Inr v \<Longrightarrow> one_line v"
  by (simp add: v2Pubkey_def keys_base58_def base58_one_line split: if_splits option.splits)

lemma checked_inj:
  "v2Cluster c = Inr v \<Longrightarrow> v2Cluster d = Inr v \<Longrightarrow> c = d"
  "v2Pubkey P k f = Inr v \<Longrightarrow> v2Pubkey P l f = Inr v \<Longrightarrow> k = l"
  "v2TokenHash h = Inr v \<Longrightarrow> v2TokenHash i = Inr v \<Longrightarrow> h = i"
  "v2PosInt n f = Inr v \<Longrightarrow> v2PosInt m f = Inr v \<Longrightarrow> n = m"
  "v2Nonce x = Inr v \<Longrightarrow> v2Nonce y = Inr v \<Longrightarrow> x = y"
  by (auto simp: v2Cluster_def v2Pubkey_def v2TokenHash_def v2PosInt_def v2Nonce_def int_str_inj
      split: if_splits option.splits)

lemma checked_same:
  "v2Cluster c = v2Cluster d \<Longrightarrow> \<exists>v. v2Cluster c = Inr v \<Longrightarrow> c = d"
  "v2Pubkey P k f = v2Pubkey P l f \<Longrightarrow> \<exists>v. v2Pubkey P k f = Inr v \<Longrightarrow> k = l"
  "v2TokenHash h = v2TokenHash i \<Longrightarrow> \<exists>v. v2TokenHash h = Inr v \<Longrightarrow> h = i"
  "v2PosInt n f = v2PosInt m f \<Longrightarrow> \<exists>v. v2PosInt n f = Inr v \<Longrightarrow> n = m"
  "v2Nonce x = v2Nonce y \<Longrightarrow> \<exists>v. v2Nonce x = Inr v \<Longrightarrow> x = y"
  using checked_inj by metis+

lemma lines_one_line:
  "lines_of ls = Inr vs \<Longrightarrow> (\<And>p v. (p, Inr v) \<in> set ls \<Longrightarrow> one_line (p @ v)) \<Longrightarrow> list_all one_line vs"
proof (induction ls arbitrary: vs rule: lines_of.induct)
  case (2 p r ls)
  then obtain v ws where r: "r = Inr v" "lines_of ls = Inr ws" "vs = (p @ v) # ws" by (auto split: sum.splits)
  have "one_line (p @ v)" by (rule "2.prems"(2)) (simp add: r)
  moreover have "list_all one_line ws" by (rule "2.IH" [OF r(1,2)]) (rule "2.prems"(2), simp)
  ultimately show ?case by (simp add: r)
qed simp

lemma const_lines [simp]:
  "one_line REGISTER_DOMAIN_V2" "one_line DEREGISTER_DOMAIN_V2" "one_line NOTIFY_AUDIENCE"
  "one_line REGISTER_DOMAIN" "one_line DEREGISTER_DOMAIN"
  by (simp_all add: one_line_def REGISTER_DOMAIN_V2_def DEREGISTER_DOMAIN_V2_def NOTIFY_AUDIENCE_def
      REGISTER_DOMAIN_def DEREGISTER_DOMAIN_def)

lemma literal_lines [simp]:
  "one_line ''version=''" "one_line ''cluster=''" "one_line ''programId=''" "one_line ''audience=''"
  "one_line ''action=register''" "one_line ''action=deregister''" "one_line ''owner=''" "one_line ''vault=''"
  "one_line ''deviceTokenHash=''" "one_line ''stage1=''" "one_line ''stage2=''" "one_line ''stage3=''"
  "one_line ''revision=''" "one_line ''timestamp=''" "one_line ''nonce=''" "one_line []"
  by (simp_all add: one_line_def)

lemma register_lines_one_line:
  assumes "keys_base58 P" "(p, Inr v) \<in> set (register_lines_v2 P f)"
  shows "one_line (p @ v)"
  using assms(2) unfolding register_lines_v2_def
  by (auto dest!: sym [of "Inr v"]
      intro: checked_one_line checked_key_line [OF assms(1)])

lemma deregister_lines_one_line:
  assumes "keys_base58 P" "(p, Inr v) \<in> set (deregister_lines_v2 P f)"
  shows "one_line (p @ v)"
  using assms(2) unfolding deregister_lines_v2_def
  by (auto dest!: sym [of "Inr v"]
      intro: checked_one_line checked_key_line [OF assms(1)])

lemma joined_Inr: "joined r = Inr m \<longleftrightarrow> (\<exists>ls. r = Inr ls \<and> m = join newline ls)"
  by (auto simp: joined_def split: sum.splits)

lemma register_lines:
  assumes "keys_base58 P" "registerMessageV2 P f = Inr m"
  obtains ls where "lines_of (register_lines_v2 P f) = Inr (REGISTER_DOMAIN_V2 # ls)"
    "m = join newline (REGISTER_DOMAIN_V2 # ls)" "list_all one_line (REGISTER_DOMAIN_V2 # ls)"
proof -
  obtain vs where vs: "lines_of (register_lines_v2 P f) = Inr vs" "m = join newline vs"
    using assms(2) by (auto simp: registerMessageV2_def joined_Inr)
  obtain ls where ls: "vs = REGISTER_DOMAIN_V2 # ls"
    using vs(1) unfolding register_lines_v2_def lines_of_Cons by auto
  have "list_all one_line vs" by (rule lines_one_line [OF vs(1)]) (rule register_lines_one_line [OF assms(1)])
  then show ?thesis using that vs ls by blast
qed

lemma deregister_lines:
  assumes "keys_base58 P" "deregisterMessageV2 P f = Inr m"
  obtains ls where "lines_of (deregister_lines_v2 P f) = Inr (DEREGISTER_DOMAIN_V2 # ls)"
    "m = join newline (DEREGISTER_DOMAIN_V2 # ls)" "list_all one_line (DEREGISTER_DOMAIN_V2 # ls)"
proof -
  obtain vs where vs: "lines_of (deregister_lines_v2 P f) = Inr vs" "m = join newline vs"
    using assms(2) by (auto simp: deregisterMessageV2_def joined_Inr)
  obtain ls where ls: "vs = DEREGISTER_DOMAIN_V2 # ls"
    using vs(1) unfolding deregister_lines_v2_def lines_of_Cons by auto
  have "list_all one_line vs" by (rule lines_one_line [OF vs(1)]) (rule deregister_lines_one_line [OF assms(1)])
  then show ?thesis using that vs ls by blast
qed

lemma register_labels: "map fst (register_lines_v2 P f) = map fst (register_lines_v2 P g)"
  by (simp add: register_lines_v2_def)

lemma deregister_labels: "map fst (deregister_lines_v2 P f) = map fst (deregister_lines_v2 P g)"
  by (simp add: deregister_lines_v2_def)

lemma lines_defined: "lines_of ls = Inr vs \<Longrightarrow> (p, r) \<in> set ls \<Longrightarrow> \<exists>v. r = Inr v"
  by (induction ls arbitrary: vs rule: lines_of.induct) (auto split: sum.splits)

subsection \<open>Properties\<close>

text \<open>
  a signed V2 text binds every field: two registrations with the same text are the same
  registration (cluster, program, owner, vault, token hash, stages, revision, time, nonce), and two
  deregistrations with the same text are the same deregistration.
\<close>

theorem v2_messages_bind_all_fields:
  assumes "keys_base58 P"
  shows "(registerMessageV2 P f = Inr m \<and> registerMessageV2 P g = Inr m \<longrightarrow> f = g)
    \<and> (deregisterMessageV2 P d = Inr m \<and> deregisterMessageV2 P e = Inr m \<longrightarrow> d = e)"
proof (intro conjI impI)
  assume "registerMessageV2 P f = Inr m \<and> registerMessageV2 P g = Inr m"
  then obtain ls ls' where l: "lines_of (register_lines_v2 P f) = Inr (REGISTER_DOMAIN_V2 # ls)"
      "m = join newline (REGISTER_DOMAIN_V2 # ls)" "list_all one_line (REGISTER_DOMAIN_V2 # ls)"
    and l': "lines_of (register_lines_v2 P g) = Inr (REGISTER_DOMAIN_V2 # ls')"
      "m = join newline (REGISTER_DOMAIN_V2 # ls')" "list_all one_line (REGISTER_DOMAIN_V2 # ls')"
    using register_lines [OF assms] by metis
  have "REGISTER_DOMAIN_V2 # ls = REGISTER_DOMAIN_V2 # ls'"
    by (rule join_lines_inj [OF l(3) l'(3)]) (use l(2) l'(2) in simp_all)
  then have same: "map snd (register_lines_v2 P f) = map snd (register_lines_v2 P g)"
    using lines_of_same [OF register_labels l(1)] l'(1) by metis
  have def: "\<exists>v. r = Inr v" if "r \<in> set (map snd (register_lines_v2 P f))" for r
    using that lines_defined [OF l(1)] by auto
  show "f = g"
  proof (rule register_fields_v2.equality)
    show "r2_cluster f = r2_cluster g" by (rule checked_same(1)) (use same in \<open>simp add: register_lines_v2_def\<close>, rule def, simp add: register_lines_v2_def)
    show "r2_programId f = r2_programId g" by (rule checked_same(2) [where P = P and f = "''programId''"]) (use same in \<open>simp add: register_lines_v2_def\<close>, rule def, simp add: register_lines_v2_def)
    show "r2_owner f = r2_owner g" by (rule checked_same(2) [where P = P and f = "''owner''"]) (use same in \<open>simp add: register_lines_v2_def\<close>, rule def, simp add: register_lines_v2_def)
    show "r2_vault f = r2_vault g" by (rule checked_same(2) [where P = P and f = "''vault''"]) (use same in \<open>simp add: register_lines_v2_def\<close>, rule def, simp add: register_lines_v2_def)
    show "r2_tokenHash f = r2_tokenHash g" by (rule checked_same(3)) (use same in \<open>simp add: register_lines_v2_def\<close>, rule def, simp add: register_lines_v2_def)
    show "r2_stage1 f = r2_stage1 g" by (rule checked_same(4) [where f = "''stage1''"]) (use same in \<open>simp add: register_lines_v2_def\<close>, rule def, simp add: register_lines_v2_def)
    show "r2_stage2 f = r2_stage2 g" by (rule checked_same(4) [where f = "''stage2''"]) (use same in \<open>simp add: register_lines_v2_def\<close>, rule def, simp add: register_lines_v2_def)
    show "r2_stage3 f = r2_stage3 g" by (rule checked_same(4) [where f = "''stage3''"]) (use same in \<open>simp add: register_lines_v2_def\<close>, rule def, simp add: register_lines_v2_def)
    show "r2_revision f = r2_revision g" by (rule checked_same(4) [where f = "''revision''"]) (use same in \<open>simp add: register_lines_v2_def\<close>, rule def, simp add: register_lines_v2_def)
    show "r2_timestamp f = r2_timestamp g" by (rule checked_same(4) [where f = "''timestamp''"]) (use same in \<open>simp add: register_lines_v2_def\<close>, rule def, simp add: register_lines_v2_def)
    show "r2_nonce f = r2_nonce g" by (rule checked_same(5)) (use same in \<open>simp add: register_lines_v2_def\<close>, rule def, simp add: register_lines_v2_def)
  qed simp
next
  assume "deregisterMessageV2 P d = Inr m \<and> deregisterMessageV2 P e = Inr m"
  then obtain ls ls' where l: "lines_of (deregister_lines_v2 P d) = Inr (DEREGISTER_DOMAIN_V2 # ls)"
      "m = join newline (DEREGISTER_DOMAIN_V2 # ls)" "list_all one_line (DEREGISTER_DOMAIN_V2 # ls)"
    and l': "lines_of (deregister_lines_v2 P e) = Inr (DEREGISTER_DOMAIN_V2 # ls')"
      "m = join newline (DEREGISTER_DOMAIN_V2 # ls')" "list_all one_line (DEREGISTER_DOMAIN_V2 # ls')"
    using deregister_lines [OF assms] by metis
  have "DEREGISTER_DOMAIN_V2 # ls = DEREGISTER_DOMAIN_V2 # ls'"
    by (rule join_lines_inj [OF l(3) l'(3)]) (use l(2) l'(2) in simp_all)
  then have same: "map snd (deregister_lines_v2 P d) = map snd (deregister_lines_v2 P e)"
    using lines_of_same [OF deregister_labels l(1)] l'(1) by metis
  have def: "\<exists>v. r = Inr v" if "r \<in> set (map snd (deregister_lines_v2 P d))" for r
    using that lines_defined [OF l(1)] by auto
  show "d = e"
  proof (rule deregister_fields_v2.equality)
    show "d2_cluster d = d2_cluster e" by (rule checked_same(1)) (use same in \<open>simp add: deregister_lines_v2_def\<close>, rule def, simp add: deregister_lines_v2_def)
    show "d2_programId d = d2_programId e" by (rule checked_same(2) [where P = P and f = "''programId''"]) (use same in \<open>simp add: deregister_lines_v2_def\<close>, rule def, simp add: deregister_lines_v2_def)
    show "d2_owner d = d2_owner e" by (rule checked_same(2) [where P = P and f = "''owner''"]) (use same in \<open>simp add: deregister_lines_v2_def\<close>, rule def, simp add: deregister_lines_v2_def)
    show "d2_vault d = d2_vault e" by (rule checked_same(2) [where P = P and f = "''vault''"]) (use same in \<open>simp add: deregister_lines_v2_def\<close>, rule def, simp add: deregister_lines_v2_def)
    show "d2_timestamp d = d2_timestamp e" by (rule checked_same(4) [where f = "''timestamp''"]) (use same in \<open>simp add: deregister_lines_v2_def\<close>, rule def, simp add: deregister_lines_v2_def)
    show "d2_nonce d = d2_nonce e" by (rule checked_same(5)) (use same in \<open>simp add: deregister_lines_v2_def\<close>, rule def, simp add: deregister_lines_v2_def)
  qed simp
qed

definition sample_register :: register_fields_v2 where
  "sample_register =
     \<lparr>r2_cluster = ''devnet'', r2_programId = ''Prog'', r2_owner = ''Bob'', r2_vault = ''Vau1t'',
      r2_tokenHash = replicate 64 (CHR ''a''), r2_stage1 = 3, r2_stage2 = 5, r2_stage3 = 7,
      r2_revision = 1, r2_timestamp = 1700000000, r2_nonce = replicate 22 (CHR ''x'')\<rparr>"

definition sample_keys :: "string \<Rightarrow> string option" where
  "sample_keys k = (if base58 k then Some k else None)"

lemma sample_keys_base58: "keys_base58 sample_keys"
  by (simp add: keys_base58_def sample_keys_def)

theorem v2_messages_bind_all_fields_witness:
  "keys_base58 sample_keys
   \<and> (\<exists>m. registerMessageV2 sample_keys sample_register = Inr m
        \<and> registerMessageV2 sample_keys (sample_register\<lparr>r2_stage2 := 6\<rparr>) \<noteq> Inr m)"
proof -
  have "\<not> isl (registerMessageV2 sample_keys sample_register)"
    by (simp add: registerMessageV2_def joined_def register_lines_v2_def sample_register_def v2Cluster_def
        v2Pubkey_def sample_keys_def base58_def base58_char_def char_in_def v2TokenHash_def hex_lower_def
        list_all_iff v2PosInt_def is_safe_integer_def max_safe_def v2Nonce_def)
  then have "\<exists>m. registerMessageV2 sample_keys sample_register = Inr m"
    by (cases "registerMessageV2 sample_keys sample_register") simp_all
  moreover
  have "sample_register \<noteq> sample_register\<lparr>r2_stage2 := 6\<rparr>" by (simp add: sample_register_def)
  ultimately show ?thesis
    using v2_messages_bind_all_fields [OF sample_keys_base58, of sample_register _ "sample_register\<lparr>r2_stage2 := 6\<rparr>"]
      sample_keys_base58 by blast
qed

lemma v1_first_lines:
  "takeWhile (\<lambda>c. c \<noteq> CHR 0x0A) (registerMessage f) = REGISTER_DOMAIN"
  "takeWhile (\<lambda>c. c \<noteq> CHR 0x0A) (deregisterMessage d) = DEREGISTER_DOMAIN"
  unfolding registerMessage_def deregisterMessage_def by (rule first_line, simp)+

lemma register_v2_first_line:
  assumes "registerMessageV2 P f = Inr m"
  shows "takeWhile (\<lambda>c. c \<noteq> CHR 0x0A) m = REGISTER_DOMAIN_V2"
proof -
  obtain ls where "m = join newline (REGISTER_DOMAIN_V2 # ls)"
    using assms by (auto simp: registerMessageV2_def joined_Inr register_lines_v2_def lines_of_Cons simp del: lines_of.simps)
  then show ?thesis by (simp add: first_line)
qed

lemma deregister_v2_first_line:
  assumes "deregisterMessageV2 P f = Inr m"
  shows "takeWhile (\<lambda>c. c \<noteq> CHR 0x0A) m = DEREGISTER_DOMAIN_V2"
proof -
  obtain ls where "m = join newline (DEREGISTER_DOMAIN_V2 # ls)"
    using assms by (auto simp: deregisterMessageV2_def joined_Inr deregister_lines_v2_def lines_of_Cons simp del: lines_of.simps)
  then show ?thesis by (simp add: first_line)
qed

text \<open>
  the four kinds of text are disjoint whatever the fields hold, also a field with line breaks in
  it: a signature made for one action or version is never a signature for another.
\<close>

theorem message_domains_disjoint:
  "registerMessage f \<noteq> deregisterMessage d
   \<and> registerMessageV2 P r \<noteq> Inr (registerMessage f) \<and> registerMessageV2 P r \<noteq> Inr (deregisterMessage d)
   \<and> deregisterMessageV2 P e \<noteq> Inr (registerMessage f) \<and> deregisterMessageV2 P e \<noteq> Inr (deregisterMessage d)
   \<and> \<not> (\<exists>m. registerMessageV2 P r = Inr m \<and> deregisterMessageV2 P e = Inr m)"
proof -
  have d: "distinct [REGISTER_DOMAIN, DEREGISTER_DOMAIN, REGISTER_DOMAIN_V2, DEREGISTER_DOMAIN_V2]"
    by (simp add: REGISTER_DOMAIN_def DEREGISTER_DOMAIN_def REGISTER_DOMAIN_V2_def DEREGISTER_DOMAIN_V2_def)
  note lines = v1_first_lines(1) [of f] v1_first_lines(2) [of d] register_v2_first_line [of P r]
    deregister_v2_first_line [of P e]
  have "registerMessage f \<noteq> deregisterMessage d" using d lines(1,2) by (metis distinct_length_2_or_more)
  moreover have "registerMessageV2 P r \<noteq> Inr (registerMessage f)" using d lines(1,3) by auto
  moreover have "registerMessageV2 P r \<noteq> Inr (deregisterMessage d)" using d lines(2,3) by auto
  moreover have "deregisterMessageV2 P e \<noteq> Inr (registerMessage f)" using d lines(1,4) by auto
  moreover have "deregisterMessageV2 P e \<noteq> Inr (deregisterMessage d)" using d lines(2,4) by auto
  moreover have "\<not> (\<exists>m. registerMessageV2 P r = Inr m \<and> deregisterMessageV2 P e = Inr m)"
    using d lines(3,4) by auto
  ultimately show ?thesis by blast
qed

definition spoof_plain :: register_fields where
  "spoof_plain = \<lparr>rf_owner = ''A'', rf_vault = ''V'' @ newline @ ''deviceTokenHash=h'', rf_tokenHash = ''k'',
     rf_stage1 = 1, rf_stage2 = 2, rf_stage3 = 3, rf_timestamp = 4, rf_nonce = ''n''\<rparr>"

definition spoof_shifted :: register_fields where
  "spoof_shifted = \<lparr>rf_owner = ''A'', rf_vault = ''V'', rf_tokenHash = ''h'' @ newline @ ''deviceTokenHash=k'',
     rf_stage1 = 1, rf_stage2 = 2, rf_stage3 = 3, rf_timestamp = 4, rf_nonce = ''n''\<rparr>"

text \<open>
  the legacy text checks nothing, so it does not bind its fields: two registrations with
  different vaults and token hashes have the same text.
\<close>

theorem v1_message_not_injective:
  "registerMessage spoof_plain = registerMessage spoof_shifted
   \<and> rf_vault spoof_plain \<noteq> rf_vault spoof_shifted \<and> rf_tokenHash spoof_plain \<noteq> rf_tokenHash spoof_shifted"
  by (simp add: registerMessage_def spoof_plain_def spoof_shifted_def newline_def)

subsection \<open>The nonce\<close>

lemma nonce_loop_found:
  assumes "\<And>k. i \<le> k \<Longrightarrow> k < j \<Longrightarrow> length (enc (draw k)) < 22" "22 \<le> length (enc (draw j))" "i \<le> j"
  shows "nonce_loop enc draw i = Some (enc (draw j))"
  using assms
proof (induction "j - i" arbitrary: i)
  case 0
  then have "i = j" by simp
  with 0 show ?case by (simp add: nonce_loop.simps [of enc draw j])
next
  case (Suc x)
  have "length (enc (draw i)) < 22" using Suc.hyps(2) Suc.prems(1) [of i] by simp
  moreover have "nonce_loop enc draw (Suc i) = Some (enc (draw j))"
    by (rule Suc.hyps(1)) (use Suc.hyps(2) Suc.prems in auto)
  ultimately show ?case by (simp add: nonce_loop.simps [of enc draw i])
qed

lemma nonce_loop_long:
  assumes "nonce_loop enc draw i = Some n"
  shows "\<exists>j. 22 \<le> length (enc (draw j))"
proof (rule nonce_loop.raw_induct [where P = "\<lambda>enc draw i n. \<exists>j. 22 \<le> length (enc (draw j))", OF _ assms])
  fix f :: "(bytes \<Rightarrow> string) \<Rightarrow> (nat \<Rightarrow> bytes) \<Rightarrow> nat \<Rightarrow> string option"
    and enc :: "bytes \<Rightarrow> string" and draw i n
  assume IH: "\<And>e d k y. f e d k = Some y \<Longrightarrow> \<exists>j. 22 \<le> length (e (d j))"
    and b: "(let n = enc (draw i) in if length n < 22 then f enc draw (Suc i) else Some n) = Some n"
  show "\<exists>j. 22 \<le> length (enc (draw j))"
  proof (cases "length (enc (draw i)) < 22")
    case True
    then show ?thesis using b IH by (auto simp: Let_def)
  next
    case False
    then show ?thesis by (intro exI [of _ i]) simp
  qed
qed

text \<open>
  the nonce loop returns exactly when some draw encodes to at least 22 characters, and then it
  returns the first such encoding: it never hands out a short nonce, and it spins for ever on a
  generator that only gives short ones.
\<close>

theorem generateNonceV2_first_long_draw:
  "generateNonceV2 enc draw =
     (if \<exists>j. 22 \<le> length (enc (draw j)) then Some (enc (draw (LEAST j. 22 \<le> length (enc (draw j))))) else None)"
proof (cases "\<exists>j. 22 \<le> length (enc (draw j))")
  case True
  let ?j = "LEAST j. 22 \<le> length (enc (draw j))"
  have "22 \<le> length (enc (draw ?j))" by (rule LeastI_ex) (rule True)
  moreover have "length (enc (draw k)) < 22" if "k < ?j" for k
    using not_less_Least [OF that] by simp
  ultimately have "nonce_loop enc draw 0 = Some (enc (draw ?j))" by (intro nonce_loop_found) simp_all
  with True show ?thesis by (simp add: generateNonceV2_def)
next
  case False
  then have "nonce_loop enc draw 0 = None" using nonce_loop_long [of enc draw 0] by (cases "nonce_loop enc draw 0") auto
  with False show ?thesis by (simp add: generateNonceV2_def)
qed

end
