(* ===== verification/Srv_Auth.thy ===== *)
theory Srv_Auth
  imports Srv_Store Notify_Auth
begin

text \<open>
  Owner-signed authorization on the notification server (\<open>notify-server/src/authMessage.js\<close>,
  \<open>notify-server/src/registerAuthV2.js\<close>). The request body is JSON of any shape. Base58, SHA-256,
  Ed25519, the PDA derivation and the account read are parameters.
\<close>

subsection \<open>Parameters\<close>

record srv_libs =
  sl_canon :: "string \<Rightarrow> string option"
  sl_decode :: "string \<Rightarrow> exn + bytes"
  sl_encode :: "bytes \<Rightarrow> string"
  sl_sha256 :: "bytes \<Rightarrow> bytes"
  sl_ed25519 :: "bytes \<Rightarrow> bytes \<Rightarrow> bytes \<Rightarrow> exn + bool"
  sl_pda :: "string \<Rightarrow> string \<Rightarrow> exn + string"

definition hex_digit :: "nat \<Rightarrow> char" where
  "hex_digit n = char_of (if n < 10 then 48 + n else 87 + n)"

definition to_hex :: "bytes \<Rightarrow> string" where
  "to_hex bs = concat (map (\<lambda>b. [hex_digit (unat b div 16), hex_digit (unat b mod 16)]) bs)"

definition sha256Hex :: "srv_libs \<Rightarrow> string \<Rightarrow> string" where
  "sha256Hex L text = to_hex (sl_sha256 L (utf8 text))"

definition verifyEd25519 :: "srv_libs \<Rightarrow> string \<Rightarrow> bytes \<Rightarrow> bytes \<Rightarrow> bool" where
  "verifyEd25519 L message sg key =
     (if length key \<noteq> 32 \<or> length sg \<noteq> 64 then False
      else case sl_ed25519 L (utf8 message) sg key of Inl e \<Rightarrow> False | Inr b \<Rightarrow> b)"

subsection \<open>The canonical messages, on values of any type\<close>

definition sv2Cluster :: "json \<Rightarrow> exn + string" where
  "sv2Cluster c =
     (if c \<noteq> JStr ''devnet'' \<and> c \<noteq> JStr ''mainnet-beta'' then Inl (Error ''invalid cluster'')
      else case c of JStr s \<Rightarrow> Inr s | _ \<Rightarrow> Inl TypeError)"

definition sv2Pubkey :: "srv_libs \<Rightarrow> json \<Rightarrow> string \<Rightarrow> exn + string" where
  "sv2Pubkey L k field =
     (case k of
        JStr s \<Rightarrow>
          if s = [] then Inl (Error (''invalid '' @ field))
          else (case sl_canon L s of
                  None \<Rightarrow> Inl (Error (''invalid '' @ field))
                | Some b \<Rightarrow> if b \<noteq> s then Inl (Error (''noncanonical '' @ field)) else Inr s)
      | _ \<Rightarrow> Inl (Error (''invalid '' @ field)))"

definition sv2TokenHash :: "string \<Rightarrow> exn + string" where
  "sv2TokenHash h =
     (if \<not> (length h = 64 \<and> list_all hex_lower h) then Inl (Error ''invalid deviceTokenHash'') else Inr h)"

definition sv2PosInt :: "json \<Rightarrow> string \<Rightarrow> exn + string" where
  "sv2PosInt n field =
     (case n of
        JNum i \<Rightarrow> if \<not> is_safe_integer i \<or> i \<le> 0 then Inl (Error (''invalid '' @ field)) else Inr (int_str i)
      | _ \<Rightarrow> Inl (Error (''invalid '' @ field)))"

definition sv2Nonce :: "json \<Rightarrow> exn + string" where
  "sv2Nonce x =
     (case x of
        JStr s \<Rightarrow> if length s < 22 \<or> 64 < length s \<or> \<not> base58 s then Inl (Error ''invalid nonce'') else Inr s
      | _ \<Rightarrow> Inl (Error ''invalid nonce''))"

definition srv_register_lines :: "srv_libs \<Rightarrow> json \<Rightarrow> string \<Rightarrow> (string \<times> (exn + string)) list" where
  "srv_register_lines L b deviceTokenHash =
     [(''DMV_NOTIFY_REGISTER_V2'', Inr []),
      (''version='', Inr (int_str 2)),
      (''cluster='', sv2Cluster (js_field ''cluster'' b)),
      (''programId='', sv2Pubkey L (js_field ''programId'' b) ''programId''),
      (''audience='', Inr ''https://notify.palatinearc.com''),
      (''action=register'', Inr []),
      (''owner='', sv2Pubkey L (js_field ''owner'' b) ''owner''),
      (''vault='', sv2Pubkey L (js_field ''vault'' b) ''vault''),
      (''deviceTokenHash='', sv2TokenHash deviceTokenHash),
      (''stage1='', sv2PosInt (js_field ''stage1'' b) ''stage1''),
      (''stage2='', sv2PosInt (js_field ''stage2'' b) ''stage2''),
      (''stage3='', sv2PosInt (js_field ''stage3'' b) ''stage3''),
      (''revision='', sv2PosInt (js_field ''revision'' b) ''revision''),
      (''timestamp='', sv2PosInt (js_field ''timestamp'' b) ''timestamp''),
      (''nonce='', sv2Nonce (js_field ''nonce'' b))]"

definition srv_registerMessageV2 :: "srv_libs \<Rightarrow> json \<Rightarrow> string \<Rightarrow> exn + string" where
  "srv_registerMessageV2 L b deviceTokenHash = joined (lines_of (srv_register_lines L b deviceTokenHash))"

definition srv_deregister_lines :: "srv_libs \<Rightarrow> json \<Rightarrow> (string \<times> (exn + string)) list" where
  "srv_deregister_lines L b =
     [(''DMV_NOTIFY_DEREGISTER_V2'', Inr []),
      (''version='', Inr (int_str 2)),
      (''cluster='', sv2Cluster (js_field ''cluster'' b)),
      (''programId='', sv2Pubkey L (js_field ''programId'' b) ''programId''),
      (''audience='', Inr ''https://notify.palatinearc.com''),
      (''action=deregister'', Inr []),
      (''owner='', sv2Pubkey L (js_field ''owner'' b) ''owner''),
      (''vault='', sv2Pubkey L (js_field ''vault'' b) ''vault''),
      (''timestamp='', sv2PosInt (js_field ''timestamp'' b) ''timestamp''),
      (''nonce='', sv2Nonce (js_field ''nonce'' b))]"

definition srv_deregisterMessageV2 :: "srv_libs \<Rightarrow> json \<Rightarrow> exn + string" where
  "srv_deregisterMessageV2 L b = joined (lines_of (srv_deregister_lines L b))"

subsection \<open>Checks of the authorizer\<close>

definition SIG_WINDOW_SEC :: int where
  "SIG_WINDOW_SEC = 600"

fun js_text :: "json \<Rightarrow> string" where
  "js_text (JStr s) = s"
| "js_text _ = []"

fun js_int :: "json \<Rightarrow> int" where
  "js_int (JNum n) = n"
| "js_int _ = 0"

definition decodeSignature :: "srv_libs \<Rightarrow> json \<Rightarrow> bytes option" where
  "decodeSignature L sg =
     (case sg of
        JStr s \<Rightarrow> (case sl_decode L s of
                     Inl e \<Rightarrow> None
                   | Inr bs \<Rightarrow> if length bs \<noteq> 64 then None else if sl_encode L bs \<noteq> s then None else Some bs)
      | _ \<Rightarrow> None)"

definition decodeOwnerBytes :: "srv_libs \<Rightarrow> string \<Rightarrow> bytes option" where
  "decodeOwnerBytes L owner =
     (case sl_decode L owner of Inl e \<Rightarrow> None | Inr b \<Rightarrow> if length b = 32 then Some b else None)"

text \<open>The characters a token may not have: white space, controls and \<open>0xA0\<close>; the others are above \<open>0xFF\<close>.\<close>

definition token_disallowed :: "char \<Rightarrow> bool" where
  "token_disallowed c \<longleftrightarrow> char_in 0 32 c \<or> char_in 127 160 c"

definition validDeviceToken :: "json \<Rightarrow> bool" where
  "validDeviceToken t =
     (case t of JStr s \<Rightarrow> 32 \<le> length s \<and> length s \<le> 4096 \<and> \<not> list_ex token_disallowed s | _ \<Rightarrow> False)"

record auth_context =
  cx_cluster :: json
  cx_programId :: json
  cx_audience :: json

definition contextMismatch :: "json \<Rightarrow> auth_context option \<Rightarrow> bool" where
  "contextMismatch b expected =
     (case expected of
        None \<Rightarrow> True
      | Some x \<Rightarrow>
          cx_audience x \<noteq> JStr NOTIFY_AUDIENCE \<or> js_field ''cluster'' b \<noteq> cx_cluster x
          \<or> js_field ''programId'' b \<noteq> cx_programId x \<or> js_field ''audience'' b \<noteq> cx_audience x)"

definition freshnessError :: "json \<Rightarrow> int \<Rightarrow> result_code option" where
  "freshnessError timestamp now =
     (case timestamp of
        JNum t \<Rightarrow> if t \<le> 0 then Some R_invalid_request
                  else if \<bar>now - t\<bar> > SIG_WINDOW_SEC then Some R_stale_timestamp else None
      | _ \<Rightarrow> Some R_invalid_request)"

subsection \<open>Ownership\<close>

record srv_account =
  sa_owner :: "string option"
  sa_data :: "bytes option"

datatype verdict = Owned | Not_owned bool string

definition VAULT_CONFIG_DISCRIMINATOR :: "srv_libs \<Rightarrow> bytes" where
  "VAULT_CONFIG_DISCRIMINATOR L = take 8 (sl_sha256 L (utf8 ''account:VaultConfig''))"

definition verifyOwnership ::
  "srv_libs \<Rightarrow> string \<Rightarrow> (string \<Rightarrow> ('w, srv_account option) io) \<Rightarrow> string \<Rightarrow> string \<Rightarrow> ('w, verdict) io" where
  "verifyOwnership L programId getAccountInfo owner vault =
     (case sl_pda L owner programId of
        Inl e \<Rightarrow> ret (Not_owned False ''invalid owner'')
      | Inr pda \<Rightarrow>
          if pda \<noteq> vault then ret (Not_owned False ''not canonical pda'')
          else
          or_return (getAccountInfo vault) (Not_owned True ''rpc unavailable'') (\<lambda>acc. ret
            (case acc of
               None \<Rightarrow> Not_owned False ''vault not found''
             | Some a \<Rightarrow>
                 if sa_owner a = None \<or> sa_owner a \<noteq> sl_canon L programId then Not_owned False ''not a program account''
                 else (case sa_data a of
                         None \<Rightarrow> Not_owned False ''not a VaultConfig''
                       | Some d \<Rightarrow>
                           if length d < 40 \<or> take 8 d \<noteq> VAULT_CONFIG_DISCRIMINATOR L
                           then Not_owned False ''not a VaultConfig''
                           else if sl_encode L (take 32 (drop 8 d)) \<noteq> owner
                           then Not_owned False ''on-chain owner mismatch''
                           else Owned))))"

fun classifyOwnership :: "verdict \<Rightarrow> result_code option" where
  "classifyOwnership Owned = None"
| "classifyOwnership (Not_owned transient reason) =
     Some (if transient then R_dependency_unavailable else R_ownership_failed)"

subsection \<open>Authorization\<close>

definition or_object :: "json \<Rightarrow> json" where
  "or_object b = (if js_truthy b then b else JObj [])"

definition register_command :: "json \<Rightarrow> string \<Rightarrow> int \<Rightarrow> reg_command" where
  "register_command b deviceTokenHash serverNow =
     \<lparr>rc_owner = js_text (js_field ''owner'' b), rc_vault = js_text (js_field ''vault'' b),
      rc_deviceToken = js_text (js_field ''deviceToken'' b), rc_tokenHash = deviceTokenHash,
      rc_stage1 = js_int (js_field ''stage1'' b), rc_stage2 = js_int (js_field ''stage2'' b),
      rc_stage3 = js_int (js_field ''stage3'' b), rc_revision = js_int (js_field ''revision'' b),
      rc_signedAt = js_int (js_field ''timestamp'' b), rc_nonce = js_text (js_field ''nonce'' b),
      rc_nonceUsedAt = serverNow\<rparr>"

text \<open>The checks before the ownership read: \<open>Inl\<close> the refusal, else the command.\<close>

definition register_checks :: "srv_libs \<Rightarrow> auth_context option \<Rightarrow> json \<Rightarrow> int \<Rightarrow> result_code + reg_command" where
  "register_checks L expected b serverNow =
     (if js_field ''version'' b \<noteq> JNum NOTIFY_AUTH_VERSION_V2 then Inl R_invalid_request
      else if js_field ''action'' b \<noteq> JStr ''register'' then Inl R_invalid_request
      else if contextMismatch b expected then Inl R_context_mismatch
      else if \<not> validDeviceToken (js_field ''deviceToken'' b) then Inl R_invalid_request
      else case freshnessError (js_field ''timestamp'' b) serverNow of
        Some c \<Rightarrow> Inl c
      | None \<Rightarrow>
          let deviceTokenHash = sha256Hex L (js_text (js_field ''deviceToken'' b)) in
          case srv_registerMessageV2 L b deviceTokenHash of
            Inl e \<Rightarrow> Inl R_invalid_request
          | Inr message \<Rightarrow>
              (case decodeSignature L (js_field ''signature'' b) of
                 None \<Rightarrow> Inl R_invalid_signature
               | Some sigBytes \<Rightarrow>
                   (case decodeOwnerBytes L (js_text (js_field ''owner'' b)) of
                      None \<Rightarrow> Inl R_invalid_request
                    | Some ownerBytes \<Rightarrow>
                        if \<not> verifyEd25519 L message sigBytes ownerBytes then Inl R_invalid_signature
                        else Inr (register_command b deviceTokenHash serverNow))))"

definition authorizeRegisterV2 ::
  "srv_libs \<Rightarrow> auth_context option \<Rightarrow> (string \<Rightarrow> string \<Rightarrow> ('e srv_world_scheme, verdict) io) \<Rightarrow> json
   \<Rightarrow> ('e srv_world_scheme, result_code + reg_command) io" where
  "authorizeRegisterV2 L expected verify bd =
     bindE (gets sw_now) (\<lambda>serverNow.
     case register_checks L expected (or_object bd) serverNow of
       Inl c \<Rightarrow> ret (Inl c)
     | Inr cmd \<Rightarrow>
         or_return (verify (rc_owner cmd) (rc_vault cmd)) (Inl R_dependency_unavailable) (\<lambda>v. ret
           (case classifyOwnership v of Some c \<Rightarrow> Inl c | None \<Rightarrow> Inr cmd)))"

definition deregisterCommand :: "json \<Rightarrow> int \<Rightarrow> dereg_command" where
  "deregisterCommand b serverNow =
     \<lparr>dc_owner = js_text (js_field ''owner'' b), dc_vault = js_text (js_field ''vault'' b),
      dc_nonce = js_text (js_field ''nonce'' b), dc_nonceUsedAt = serverNow,
      dc_signedAt = js_int (js_field ''timestamp'' b)\<rparr>"

definition deregister_checks :: "srv_libs \<Rightarrow> auth_context option \<Rightarrow> json \<Rightarrow> int \<Rightarrow> result_code + dereg_command" where
  "deregister_checks L expected b serverNow =
     (if js_field ''version'' b \<noteq> JNum NOTIFY_AUTH_VERSION_V2 then Inl R_invalid_request
      else if js_field ''action'' b \<noteq> JStr ''deregister'' then Inl R_invalid_request
      else if contextMismatch b expected then Inl R_context_mismatch
      else case freshnessError (js_field ''timestamp'' b) serverNow of
        Some c \<Rightarrow> Inl c
      | None \<Rightarrow>
          case srv_deregisterMessageV2 L b of
            Inl e \<Rightarrow> Inl R_invalid_request
          | Inr message \<Rightarrow>
              (case sl_pda L (js_text (js_field ''owner'' b)) (js_text (js_field ''programId'' b)) of
                 Inl e \<Rightarrow> Inl R_invalid_request
               | Inr pda \<Rightarrow>
                   if pda \<noteq> js_text (js_field ''vault'' b) then Inl R_context_mismatch
                   else
                   (case decodeSignature L (js_field ''signature'' b) of
                      None \<Rightarrow> Inl R_invalid_signature
                    | Some sigBytes \<Rightarrow>
                        (case decodeOwnerBytes L (js_text (js_field ''owner'' b)) of
                           None \<Rightarrow> Inl R_invalid_request
                         | Some ownerBytes \<Rightarrow>
                             if \<not> verifyEd25519 L message sigBytes ownerBytes then Inl R_invalid_signature
                             else Inr (deregisterCommand b serverNow)))))"

definition authorizeDeregisterV2 ::
  "srv_libs \<Rightarrow> auth_context option \<Rightarrow> (string \<Rightarrow> string \<Rightarrow> ('e srv_world_scheme, verdict) io) \<Rightarrow> json
   \<Rightarrow> ('e srv_world_scheme, result_code + dereg_command) io" where
  "authorizeDeregisterV2 L expected verify bd =
     bindE (gets sw_now) (\<lambda>serverNow.
     case deregister_checks L expected (or_object bd) serverNow of
       Inl c \<Rightarrow> ret (Inl c)
     | Inr cmd \<Rightarrow>
         bindE (getRegistration (dc_vault cmd)) (\<lambda>row.
         case row of
           Some r \<Rightarrow> if rr_owner r = dc_owner cmd then ret (Inr cmd) else ret (Inl R_owner_conflict)
         | None \<Rightarrow>
             or_return (verify (dc_owner cmd) (dc_vault cmd)) (Inl R_dependency_unavailable) (\<lambda>v. ret
               (case classifyOwnership v of Some c \<Rightarrow> Inl c | None \<Rightarrow> Inr cmd))))"

end
