(* ===== verification/Srv_Chain.thy ===== *)
theory Srv_Chain
  imports Srv_Auth Account_Raw
begin

text \<open>
  What the server reads from the chain (\<open>notify-server/src/solana.js\<close>): its own parsers of the vault
  and heartbeat accounts, and the two readers built on them. A key is its 32 bytes in an account and
  Base58 text elsewhere; \<open>sl_encode\<close> is \<open>toBase58\<close>. RPC calls are parameters.
\<close>

subsection \<open>Parsers\<close>

record srv_beneficiary =
  sb_wallet :: string
  sb_shareBps :: nat

record srv_vault =
  sv_owner :: string
  sv_interval :: int
  sv_grace :: int
  sv_executed :: bool
  sv_active :: bool
  sv_beneficiaries :: "srv_beneficiary list"

text \<open>\<open>Number(data.readBigInt64LE(o))\<close>.\<close>

definition signed64 :: "nat \<Rightarrow> int" where
  "signed64 n = (if n < 2 ^ 63 then int n else int n - 2 ^ 64)"

definition readI64 :: "bytes \<Rightarrow> nat \<Rightarrow> int" where
  "readI64 data p = rnd53 (signed64 (le_nat (sub data p 8)))"

definition srv_parseVaultConfig :: "srv_libs \<Rightarrow> bytes \<Rightarrow> exn + srv_vault" where
  "srv_parseVaultConfig L data =
     (if length data < 8 + 32 + 32 + 8 + 8 + 4 then Inl (Error ''vault buffer too short'')
      else
      let benCount = le_nat (sub data 88 4); p = 92 in
      if 20 < benCount then Inl (Error ''vault beneficiary count out of range'')
      else if length data < p + benCount * 34 + 2 then Inl (Error ''vault buffer too short for beneficiaries'')
      else
      let q = p + benCount * 34 in
      Inr \<lparr>sv_owner = sl_encode L (sub data 8 32), sv_interval = readI64 data 72, sv_grace = readI64 data 80,
           sv_executed = (data ! q \<noteq> 0), sv_active = (data ! (q + 1) \<noteq> 0),
           sv_beneficiaries = map (\<lambda>i. \<lparr>sb_wallet = sl_encode L (sub data (p + i * 34) 32),
              sb_shareBps = le_nat (sub data (p + i * 34 + 32) 2)\<rparr>) [0..<benCount]\<rparr>)"

record srv_heartbeat =
  sh_vault :: string
  sh_lastHeartbeat :: int

definition parseHeartbeat :: "srv_libs \<Rightarrow> bytes \<Rightarrow> exn + srv_heartbeat" where
  "parseHeartbeat L data =
     (if length data < 8 + 32 + 8 then Inl (Error ''heartbeat buffer too short'')
      else Inr \<lparr>sh_vault = sl_encode L (sub data 8 32), sh_lastHeartbeat = readI64 data 40\<rparr>)"

definition HEARTBEAT_DISCRIMINATOR :: "srv_libs \<Rightarrow> bytes" where
  "HEARTBEAT_DISCRIMINATOR L = take 8 (sl_sha256 L (utf8 ''account:HeartbeatRecord''))"

definition hasVaultDiscriminator :: "srv_libs \<Rightarrow> bytes \<Rightarrow> bool" where
  "hasVaultDiscriminator L data \<longleftrightarrow> 8 \<le> length data \<and> take 8 data = VAULT_CONFIG_DISCRIMINATOR L"

definition hasHeartbeatDiscriminator :: "srv_libs \<Rightarrow> bytes \<Rightarrow> bool" where
  "hasHeartbeatDiscriminator L data \<longleftrightarrow> 8 \<le> length data \<and> take 8 data = HEARTBEAT_DISCRIMINATOR L"

definition readHeartbeatFromAccount :: "srv_libs \<Rightarrow> pubkey \<Rightarrow> acct option \<Rightarrow> string \<Rightarrow> int option" where
  "readHeartbeatFromAccount L programId account expectedVault =
     (case account of
        None \<Rightarrow> None
      | Some a \<Rightarrow>
          if acc_owner a \<noteq> programId then None
          else if \<not> hasHeartbeatDiscriminator L (acc_data a) then None
          else (case parseHeartbeat L (acc_data a) of
                  Inl e \<Rightarrow> None
                | Inr hb \<Rightarrow> if sh_vault hb = expectedVault then Some (sh_lastHeartbeat hb) else None))"

subsection \<open>Readers\<close>

record vault_state =
  vs_exists :: bool
  vs_config :: "srv_vault option"
  vs_lastHeartbeat :: "int option"

definition srv_config_of :: "srv_libs \<Rightarrow> pubkey \<Rightarrow> acct option \<Rightarrow> srv_vault option" where
  "srv_config_of L programId account =
     (case account of
        None \<Rightarrow> None
      | Some a \<Rightarrow>
          if acc_owner a = programId \<and> hasVaultDiscriminator L (acc_data a)
          then (case srv_parseVaultConfig L (acc_data a) of Inl e \<Rightarrow> None | Inr c \<Rightarrow> Some c) else None)"

text \<open>\<open>hbPda\<close> is \<open>heartbeatPda\<close>; the two accounts come from one RPC call.\<close>

definition readVaultState ::
  "srv_libs \<Rightarrow> pubkey \<Rightarrow> (string \<Rightarrow> exn + string) \<Rightarrow> (string \<Rightarrow> string \<Rightarrow> ('w, acct option \<times> acct option) io) \<Rightarrow> string
   \<Rightarrow> ('w, vault_state) io" where
  "readVaultState L programId hbPda getMultipleAccountsInfo vault =
     (case sl_canon L vault of
        None \<Rightarrow> throw (Error ''Invalid public key input'')
      | Some vaultPk \<Rightarrow>
          bindE (liftE (hbPda vault)) (\<lambda>hbPk.
          bindE (getMultipleAccountsInfo vaultPk hbPk) (\<lambda>(vaultAcc, hbAcc).
          let cfg = srv_config_of L programId vaultAcc in
          ret \<lparr>vs_exists = (cfg \<noteq> None), vs_config = cfg,
               vs_lastHeartbeat = readHeartbeatFromAccount L programId hbAcc vaultPk\<rparr>)))"

text \<open>The legacy ownership check: a failed read is a refusal like the others.\<close>

definition verifyVaultForOwner ::
  "srv_libs \<Rightarrow> pubkey \<Rightarrow> (string \<Rightarrow> exn + string) \<Rightarrow> (string \<Rightarrow> ('w, acct option) io) \<Rightarrow> string \<Rightarrow> string
   \<Rightarrow> ('w, bool \<times> string) io" where
  "verifyVaultForOwner L programId vaultConfigPda getAccountInfo owner vault =
     (case vaultConfigPda owner of
        Inl e \<Rightarrow> ret (False, ''invalid owner'')
      | Inr expected \<Rightarrow>
          if expected \<noteq> vault then ret (False, ''vault is not the canonical PDA for owner'')
          else
          or_return (getAccountInfo vault) (False, ''rpc error'') (\<lambda>acc. ret
            (case acc of
               None \<Rightarrow> (False, ''vault not found on-chain'')
             | Some a \<Rightarrow>
                 if acc_owner a \<noteq> programId then (False, ''not a DMV program account'')
                 else if \<not> hasVaultDiscriminator L (acc_data a) then (False, ''not a VaultConfig account'')
                 else (case srv_parseVaultConfig L (acc_data a) of
                         Inl e \<Rightarrow> (False, ''unparseable vault'')
                       | Inr cfg \<Rightarrow> if sv_owner cfg \<noteq> owner then (False, ''on-chain owner mismatch'') else (True, [])))))"

subsection \<open>The server and the app read the same account\<close>

text \<open>What the server keeps of the app's parse.\<close>

definition srv_view :: "srv_libs \<Rightarrow> vault_config \<Rightarrow> srv_vault" where
  "srv_view L c =
     \<lparr>sv_owner = sl_encode L (vc_owner c), sv_interval = rnd53 (signed64 (heartbeatInterval c)),
      sv_grace = rnd53 (signed64 (gracePeriod c)), sv_executed = executed c, sv_active = active c,
      sv_beneficiaries = map (\<lambda>b. \<lparr>sb_wallet = sl_encode L (wallet b), sb_shareBps = shareBps b\<rparr>) (beneficiaries c)\<rparr>"

lemma srv_parse_at:
  assumes "92 \<le> length data" "vault_config_fits data"
  shows "srv_parseVaultConfig L data = Inr (srv_view L (vault_config_at data))"
  using assms by (simp add: srv_parseVaultConfig_def vault_config_fits_def vault_config_at_def srv_view_def beneficiary_at_def
      readI64_def Let_def comp_def unat_eq_0 eq_commute [of 0])

text \<open>The server hashes the account names where the app has the constants.\<close>

definition anchor_hash :: "srv_libs \<Rightarrow> bool" where
  "anchor_hash L \<longleftrightarrow> VAULT_CONFIG_DISCRIMINATOR L = DISCRIMINATORS VaultConfigK
     \<and> HEARTBEAT_DISCRIMINATOR L = DISCRIMINATORS HeartbeatRecordK"

lemma srv_config_parsed:
  assumes "anchor_hash L" "parseVaultConfig info pid = Some c"
  shows "srv_config_of L pid info = Some (srv_view L c)"
proof -
  obtain i where i: "info = Some i" "isProgramAccount (Some i) VaultConfigK 92 pid" "vault_config_fits (acc_data i)"
    and c: "c = vault_config_at (acc_data i)"
    using assms(2) by (cases info) (auto simp: parseVaultConfig_eq isProgramAccount_def split: if_splits)
  then have "acc_owner i = pid" "92 \<le> length (acc_data i)" "hasVaultDiscriminator L (acc_data i)"
    using assms(1) by (auto simp: isProgramAccount_def hasVaultDiscriminator_def anchor_hash_def split: if_splits)
  then show ?thesis using srv_parse_at [of "acc_data i" L] i c by (simp add: srv_config_of_def)
qed

end
