(* ===== verification/Srv_Ready.thy ===== *)
theory Srv_Ready
  imports Srv_Store
begin

text \<open>
  Operational readiness of the notification server (\<open>notify-server/src/readiness.js\<close>): the
  classification of RPC answers, the poll-cycle health rule, the readiness state with its updates, and
  the monitor tick of \<open>server.js\<close> that drives them. RPC calls are parameters; a call that times out
  throws. \<open>\<mu>\<close>, an argument of \<open>reasonCode\<close>, is the lower-case message of an error.
\<close>

subsection \<open>Reason codes\<close>

text \<open>\<open>String.prototype.includes\<close>.\<close>

definition text_includes :: "string \<Rightarrow> string \<Rightarrow> bool" where
  "text_includes m p \<longleftrightarrow> list_ex (\<lambda>i. take (length p) (drop i m) = p) [0..<Suc (length m)]"

definition reasonCode :: "(exn \<Rightarrow> string) \<Rightarrow> exn \<Rightarrow> string" where
  "reasonCode \<mu> e =
     (let m = \<mu> e in
      if text_includes m ''timeout'' \<or> text_includes m ''abort'' then ''rpc_timeout''
      else if text_includes m ''429'' \<or> text_includes m ''too many requests'' \<or> text_includes m ''rate limit'' then ''rpc_rate_limited''
      else if text_includes m ''econnrefused'' \<or> text_includes m ''connection refused'' then ''rpc_connection_refused''
      else if text_includes m ''enotfound'' \<or> text_includes m ''eai_again'' \<or> text_includes m ''getaddrinfo'' \<or> text_includes m ''dns'' then ''rpc_dns_failure''
      else if text_includes m ''fetch failed'' \<or> text_includes m ''network'' \<or> text_includes m ''socket'' then ''rpc_network_error''
      else ''rpc_unreachable'')"

subsection \<open>The network\<close>

datatype net_state = NET_VERIFIED | NET_MISMATCH | NET_UNKNOWN

record net_readiness =
  nt_state :: net_state
  nt_reason :: "string option"
  nt_expected :: "string option"
  nt_received :: "string option"

definition net_unknown :: "string \<Rightarrow> net_readiness" where
  "net_unknown r = \<lparr>nt_state = NET_UNKNOWN, nt_reason = Some r, nt_expected = None, nt_received = None\<rparr>"

text \<open>\<open>canon s\<close> is \<open>new PublicKey(s).toBase58()\<close>; an answer that is no string is \<open>None\<close>.\<close>

definition isCanonicalGenesisHash :: "(string \<Rightarrow> string option) \<Rightarrow> string option \<Rightarrow> bool" where
  "isCanonicalGenesisHash canon s = (case s of None \<Rightarrow> False | Some t \<Rightarrow> canon t = Some t)"

definition classifyGenesis ::
  "(string \<Rightarrow> string option) \<Rightarrow> (exn \<Rightarrow> string) \<Rightarrow> ('w, string option) io \<Rightarrow> string \<Rightarrow> ('w, net_readiness) io" where
  "classifyGenesis canon \<mu> getGenesisHash expected =
     tryE (bindE getGenesisHash (\<lambda>received. ret
       (if \<not> isCanonicalGenesisHash canon received then net_unknown ''malformed_genesis_response''
        else \<lparr>nt_state = (if received = Some expected then NET_VERIFIED else NET_MISMATCH), nt_reason = None,
              nt_expected = Some expected, nt_received = received\<rparr>)))
       (\<lambda>e. ret (net_unknown (reasonCode \<mu> e)))"

datatype boot_action = Boot_exit | Boot_proceed | Boot_degraded

fun bootDecision :: "net_state \<Rightarrow> boot_action" where
  "bootDecision NET_MISMATCH = Boot_exit"
| "bootDecision NET_VERIFIED = Boot_proceed"
| "bootDecision NET_UNKNOWN = Boot_degraded"

subsection \<open>The program and the executor\<close>

text \<open>An account answer: \<open>null\<close>, something without a boolean \<open>executable\<close>, or an account.\<close>

datatype program_answer = Acc_null | Acc_malformed | Acc_program bool

datatype program_check = Prog_ok bool | Prog_bad string | Prog_unknown string

definition checkProgramAccount :: "(exn \<Rightarrow> string) \<Rightarrow> ('w, program_answer) io \<Rightarrow> bool \<Rightarrow> ('w, program_check) io" where
  "checkProgramAccount \<mu> getAccountInfo requireExecutable =
     tryE (bindE getAccountInfo (\<lambda>acc. ret
       (case acc of
          Acc_null \<Rightarrow> Prog_bad ''program_not_found''
        | Acc_malformed \<Rightarrow> Prog_unknown ''malformed_program_response''
        | Acc_program executable \<Rightarrow>
            if requireExecutable \<and> \<not> executable then Prog_bad ''program_not_executable'' else Prog_ok executable)))
       (\<lambda>e. ret (Prog_unknown (reasonCode \<mu> e)))"

datatype static_check = Static_ok "string option" | Static_fatal string

definition validateExecutorStaticConfig ::
  "bool \<Rightarrow> string \<Rightarrow> string option \<Rightarrow> (string \<Rightarrow> exn + string option) \<Rightarrow> static_check" where
  "validateExecutorStaticConfig enabled keypairPath expectedPubkey loadKeypair =
     (if \<not> enabled then Static_ok None
      else if keypairPath = [] then Static_fatal ''executor_keypair_path_missing''
      else case loadKeypair keypairPath of
        Inl e \<Rightarrow> Static_fatal ''executor_keypair_unreadable''
      | Inr None \<Rightarrow> Static_fatal ''executor_keypair_invalid''
      | Inr (Some k) \<Rightarrow>
          (case expectedPubkey of
             None \<Rightarrow> Static_ok (Some k)
           | Some x \<Rightarrow> if x \<noteq> [] \<and> k \<noteq> x then Static_fatal ''executor_pubkey_mismatch'' else Static_ok (Some k)))"

record exec_check =
  ex_ready :: bool
  ex_disabled :: bool
  ex_transient :: bool
  ex_low :: bool
  ex_reason :: string
  ex_balance :: "rat option"

definition exec_down :: "string \<Rightarrow> exec_check" where
  "exec_down r = \<lparr>ex_ready = False, ex_disabled = False, ex_transient = False, ex_low = False, ex_reason = r, ex_balance = None\<rparr>"

definition exec_transient :: "string \<Rightarrow> exec_check" where
  "exec_transient r = (exec_down r)\<lparr>ex_transient := True\<rparr>"

text \<open>A balance answer that is no finite non-negative number is \<open>None\<close>; a malformed check is \<open>None\<close>.\<close>

definition balance_verdict :: "rat \<Rightarrow> rat \<Rightarrow> rat option \<Rightarrow> exec_check" where
  "balance_verdict minLamports warnLamports answer =
     (case answer of
        None \<Rightarrow> exec_down ''executor_balance_malformed''
      | Some l \<Rightarrow>
          if l < 0 then exec_down ''executor_balance_malformed''
          else if l < minLamports
          then (exec_down ''executor_balance_below_minimum'')\<lparr>ex_balance := Some (l / 1000000000)\<rparr>
          else \<lparr>ex_ready = True, ex_disabled = False, ex_transient = False, ex_low = (l < warnLamports),
                ex_reason = (if l < warnLamports then ''balance_warning'' else ''ok''), ex_balance = Some (l / 1000000000)\<rparr>)"

definition checkExecutorRuntimeReadiness ::
  "(exn \<Rightarrow> string) \<Rightarrow> string option \<Rightarrow> ('w, program_check option) io \<Rightarrow> (string \<Rightarrow> ('w, rat option) io) \<Rightarrow> rat \<Rightarrow> rat
   \<Rightarrow> ('w, exec_check) io" where
  "checkExecutorRuntimeReadiness \<mu> cranker checkProgram getBalance minLamports warnLamports =
     (case cranker of
        None \<Rightarrow> ret (exec_down ''executor_no_cranker'')
      | Some k \<Rightarrow>
          tryE (bindE checkProgram (\<lambda>prog.
            case prog of
              None \<Rightarrow> ret (exec_transient ''program_malformed_response'')
            | Some (Prog_unknown r) \<Rightarrow> ret (exec_transient (''program_'' @ r))
            | Some (Prog_bad r) \<Rightarrow> ret (exec_down r)
            | Some (Prog_ok x) \<Rightarrow>
                tryE (bindE (getBalance k) (\<lambda>l. ret (balance_verdict minLamports warnLamports l)))
                  (\<lambda>e. ret (exec_transient (''balance_'' @ reasonCode \<mu> e)))))
            (\<lambda>e. ret (exec_transient (''program_'' @ reasonCode \<mu> e))))"

text \<open>\<open>rng\<close> is \<open>Math.random()\<close>, in \<open>[0, 1)\<close>.\<close>

definition nextBackoff :: "int \<Rightarrow> rat \<Rightarrow> rat \<Rightarrow> rat \<Rightarrow> rat" where
  "nextBackoff attempt baseMs maxMs rng =
     (let expo = min maxMs (baseMs * 2 ^ nat (max 0 attempt)); withJitter = expo / 2 + rng * (expo / 2)
      in min maxMs (max baseMs (of_int \<lfloor>withJitter\<rfloor>)))"

subsection \<open>Poll cycles\<close>

record poll_result =
  po_checked :: nat
  po_sent :: nat
  po_readErrors :: nat
  po_probeOk :: bool

definition isPollCycleHealthy :: "rat \<Rightarrow> nat \<Rightarrow> poll_result \<Rightarrow> bool" where
  "isPollCycleHealthy maxRatio maxAbs r =
     (if 0 < po_checked r then
        of_nat (po_readErrors r) / of_nat (po_checked r) \<le> maxRatio \<and> po_readErrors r \<le> maxAbs
        \<and> 1 \<le> int (po_checked r) - int (po_readErrors r)
      else po_probeOk r)"

subsection \<open>The readiness state\<close>

record readiness =
  rd_api :: bool
  rd_fcm :: bool
  rd_netVerified :: bool
  rd_program :: bool
  rd_poller :: bool
  rd_executor :: bool
  rd_fcmWaived :: bool
  rd_executorWaived :: bool
  rd_net :: net_readiness
  rd_programExecutable :: "bool option"
  rd_programReason :: string
  rd_fcmReason :: string
  rd_executorReason :: string
  rd_balance :: "rat option"
  rd_failures :: nat
  rd_lastOkAt :: "int option"
  rd_lastChecked :: "nat option"
  rd_lastReadErrors :: nat
  rd_lastVerifiedAt :: "int option"
  rd_lastAttemptAt :: "int option"
  rd_backoffAttempt :: int

definition new_readiness :: "bool \<Rightarrow> bool \<Rightarrow> readiness" where
  "new_readiness fcmWaived executorWaived =
     \<lparr>rd_api = False, rd_fcm = False, rd_netVerified = False, rd_program = False, rd_poller = False, rd_executor = False,
      rd_fcmWaived = fcmWaived, rd_executorWaived = executorWaived, rd_net = net_unknown ''startup'',
      rd_programExecutable = None, rd_programReason = ''startup'', rd_fcmReason = ''startup'', rd_executorReason = ''startup'',
      rd_balance = None, rd_failures = 0, rd_lastOkAt = None, rd_lastChecked = None, rd_lastReadErrors = 0,
      rd_lastVerifiedAt = None, rd_lastAttemptAt = None, rd_backoffAttempt = 0\<rparr>"

datatype health = READY | DEGRADED | NOT_READY

definition deriveHealth :: "readiness \<Rightarrow> health" where
  "deriveHealth d =
     (if \<not> rd_api d then NOT_READY
      else if nt_state (rd_net d) = NET_MISMATCH then NOT_READY
      else if rd_netVerified d \<and> rd_program d \<and> (rd_fcm d \<or> rd_fcmWaived d) \<and> rd_poller d \<and> (rd_executor d \<or> rd_executorWaived d)
      then READY else DEGRADED)"

definition escalationReady :: "readiness \<Rightarrow> bool" where
  "escalationReady d \<longleftrightarrow> rd_fcm d \<and> rd_netVerified d \<and> rd_poller d"

definition applyNet :: "net_readiness \<Rightarrow> int \<Rightarrow> readiness \<Rightarrow> readiness" where
  "applyNet net nowMs d =
     (let d1 = d\<lparr>rd_net := net, rd_lastAttemptAt := Some nowMs\<rparr> in
      if nt_state net = NET_VERIFIED
      then d1\<lparr>rd_netVerified := True, rd_lastVerifiedAt := Some nowMs, rd_backoffAttempt := 0\<rparr>
      else d1\<lparr>rd_netVerified := False, rd_program := False, rd_poller := False, rd_executor := False,
              rd_programExecutable := None, rd_programReason := ''network_unverified'',
              rd_executorReason := ''network_unverified'', rd_balance := None\<rparr>)"

definition rd_setFcm :: "bool \<Rightarrow> string \<Rightarrow> readiness \<Rightarrow> readiness" where
  "rd_setFcm ready reason d =
     (let d1 = d\<lparr>rd_fcm := ready\<rparr> in if reason \<noteq> [] then d1\<lparr>rd_fcmReason := reason\<rparr> else d1)"

definition setProgram :: "program_check \<Rightarrow> readiness \<Rightarrow> readiness" where
  "setProgram res d =
     (case res of
        Prog_ok x \<Rightarrow> d\<lparr>rd_program := True, rd_programExecutable := Some x, rd_programReason := ''ok''\<rparr>
      | Prog_bad r \<Rightarrow> d\<lparr>rd_program := False, rd_programExecutable := Some False, rd_programReason := r,
                       rd_executor := False, rd_balance := None\<rparr>
      | Prog_unknown r \<Rightarrow> d\<lparr>rd_program := False, rd_programExecutable := None, rd_programReason := r,
                           rd_executor := False, rd_balance := None\<rparr>)"

definition setExecutor :: "exec_check \<Rightarrow> readiness \<Rightarrow> readiness" where
  "setExecutor res d =
     d\<lparr>rd_executor := ex_ready res \<and> rd_netVerified d \<and> rd_program d, rd_executorReason := ex_reason res,
       rd_balance := ex_balance res\<rparr>"

definition recordPollResult :: "bool \<Rightarrow> int \<Rightarrow> (nat \<times> nat) option \<Rightarrow> readiness \<Rightarrow> readiness" where
  "recordPollResult ok nowMs cycle d =
     (let d1 = (case cycle of None \<Rightarrow> d | Some (checked, readErrors) \<Rightarrow> d\<lparr>rd_lastChecked := Some checked, rd_lastReadErrors := readErrors\<rparr>) in
      if ok then
        (let d2 = d1\<lparr>rd_failures := 0, rd_lastOkAt := Some nowMs\<rparr> in
         if rd_netVerified d2 then d2\<lparr>rd_poller := True\<rparr> else d2)
      else
        (let d2 = d1\<lparr>rd_failures := Suc (rd_failures d1)\<rparr> in
         if 3 \<le> rd_failures d2 then d2\<lparr>rd_poller := False\<rparr> else d2))"

subsection \<open>The monitor tick\<close>

record ready_world = srv_world +
  rw_ready :: readiness
  rw_ms :: int

abbreviation set_ready :: "(readiness \<Rightarrow> readiness) \<Rightarrow> ('e ready_world_scheme, unit) io" where
  "set_ready f \<equiv> modify (\<lambda>w. w\<lparr>rw_ready := f (rw_ready w)\<rparr>)"

abbreviation the_ready :: "(readiness \<Rightarrow> 'a) \<Rightarrow> ('e ready_world_scheme, 'a) io" where
  "the_ready f \<equiv> gets (\<lambda>w. f (rw_ready w))"

record 'w monitor_deps =
  mo_classifyNetwork :: "('w, net_readiness) io"
  mo_probeFcm :: "('w, unit) io"
  mo_checkProgram :: "('w, program_check) io"
  mo_checkExecutorRuntime :: "('w, exec_check) io"
  mo_random :: "('w, rat) io"

definition refreshDependentReadiness :: "('e ready_world_scheme) monitor_deps \<Rightarrow> ('e ready_world_scheme, unit) io" where
  "refreshDependentReadiness M =
     seqE (mo_probeFcm M) (
     bindE (mo_checkProgram M) (\<lambda>prog.
     seqE (set_ready (setProgram prog)) (
     bindE (mo_checkExecutorRuntime M) (\<lambda>ex. set_ready (setExecutor ex)))))"

text \<open>The result is the delay of the next tick, in milliseconds.\<close>

definition monitorTick :: "rat \<Rightarrow> ('e ready_world_scheme) monitor_deps \<Rightarrow> ('e ready_world_scheme, rat) io" where
  "monitorTick monitorMs M =
     bindE (mo_classifyNetwork M) (\<lambda>net.
     bindE (gets rw_ms) (\<lambda>nowMs.
     seqE (set_ready (applyNet net nowMs))
     (if nt_state net = NET_UNKNOWN then
        seqE (set_ready (\<lambda>d. d\<lparr>rd_backoffAttempt := rd_backoffAttempt d + 1\<rparr>)) (
        bindE (the_ready rd_backoffAttempt) (\<lambda>attempt.
        bindE (mo_random M) (\<lambda>rng. ret (nextBackoff attempt 1000 60000 rng))))
      else if nt_state net = NET_MISMATCH then ret monitorMs
      else seqE (refreshDependentReadiness M) (ret monitorMs))))"

end
