(* ===== verification/Srv_Push.thy ===== *)
theory Srv_Push
  imports Srv_Ready
begin

text \<open>
  The server's escalation stages and texts (\<open>notify-server/src/escalation.js\<close>) and the push transport
  (\<open>notify-server/src/fcm.js\<close>) with its readiness, which is mirrored into the readiness state. The
  service account, the token request and the FCM request are parameters; when the send's deadline
  passes, the step under way throws. Times are seconds; fractions of legacy stages are added exactly.
\<close>

subsection \<open>Stages\<close>

record stage_info =
  si_stage :: nat
  si_secondsOverdue :: int
  si_secondsToExecution :: rat

definition computeStage :: "int \<Rightarrow> int \<Rightarrow> rat \<times> rat \<times> rat \<Rightarrow> int \<Rightarrow> stage_info" where
  "computeStage lastHeartbeat interval stages now =
     (case stages of (stage1, stage2, stage3) \<Rightarrow>
      let nextDue = js_add lastHeartbeat interval;
          secondsOverdue = max 0 (js_add now (- nextDue));
          grace = stage1 + stage2 + stage3
      in \<lparr>si_stage =
            (if secondsOverdue \<le> 0 then 0
             else if of_int secondsOverdue < stage1 then 1
             else if of_int secondsOverdue < stage1 + stage2 then 2
             else if of_int secondsOverdue < grace then 3
             else 4),
          si_secondsOverdue = secondsOverdue, si_secondsToExecution = max 0 (grace - of_int secondsOverdue)\<rparr>)"

fun STAGE_RECUR_INTERVAL :: "nat \<Rightarrow> int" where
  "STAGE_RECUR_INTERVAL n = (if n = 1 then 8 * 3600 else if n = 2 then 4 * 3600 else if n = 3 then 1 * 3600 else 0)"

text \<open>\<open>formatDuration\<close>; \<open>x % n\<close> of a non-negative number.\<close>

definition js_mod :: "rat \<Rightarrow> rat \<Rightarrow> rat" where
  "js_mod x n = x - n * of_int \<lfloor>x / n\<rfloor>"

definition formatDuration :: "rat \<Rightarrow> string" where
  "formatDuration seconds =
     (let d = \<lfloor>seconds / 86400\<rfloor>; h = \<lfloor>js_mod seconds 86400 / 3600\<rfloor>; m = \<lfloor>js_mod seconds 3600 / 60\<rfloor> in
      if 0 < d then int_str d @ ''d '' @ int_str h @ ''h''
      else if 0 < h then int_str h @ ''h '' @ int_str m @ ''m''
      else if 0 < m then int_str m @ ''m''
      else int_str (max 1 \<lfloor>seconds + 1 / 2\<rfloor>) @ ''s'')"

record stage_msg =
  sm_title :: string
  sm_body :: string
  sm_channel :: string

datatype msg_key = Stage_msg nat | Complete_msg

text \<open>U+2014 in UTF-8.\<close>

definition em_dash :: string where
  "em_dash = [CHR 0xE2, CHR 0x80, CHR 0x94]"

definition stageMessage :: "msg_key \<Rightarrow> string \<Rightarrow> stage_msg option" where
  "stageMessage key timeText =
     (case key of
        Complete_msg \<Rightarrow> Some \<lparr>sm_title = ''Estate plan complete'',
          sm_body = ''All assets have been distributed to your beneficiaries on-chain. The vault is settled '' @ em_dash
            @ '' nothing more to do.'',
          sm_channel = ''execution''\<rparr>
      | Stage_msg n \<Rightarrow>
          if n = 1 then Some \<lparr>sm_title = ''Heartbeat due'',
            sm_body = ''Your Dead Man's Vault check-in is overdue. Open the app to confirm you're OK and reset the timer.'',
            sm_channel = ''heartbeat''\<rparr>
          else if n = 2 then Some \<lparr>sm_title = ''Heartbeat overdue'',
            sm_body = ''Still no check-in. Confirm soon, or your estate plan begins distributing to your beneficiaries.''
              @ (if timeText = [] then [] else '' (~'' @ timeText @ '' left)''),
            sm_channel = ''escalation''\<rparr>
          else if n = 3 then Some \<lparr>sm_title = ''Final warning'',
            sm_body = ''Your estate plan executes in '' @ (if timeText = [] then ''soon'' else timeText)
              @ ''. Confirm your heartbeat now to cancel it.'',
            sm_channel = ''execution''\<rparr>
          else if n = 4 then Some \<lparr>sm_title = ''Estate plan executing'',
            sm_body = ''The grace period elapsed. Your assets are being distributed to your beneficiaries on-chain ''
              @ em_dash @ '' automatically, nothing to do.'',
            sm_channel = ''execution''\<rparr>
          else None)"

subsection \<open>Push transport\<close>

record fcm_state =
  fs_ready :: bool
  fs_reason :: string
  fs_rejected :: bool

record fcm_world = ready_world +
  fw_state :: fcm_state
  fw_client :: bool
  fw_projectId :: string

text \<open>A response; its body as \<open>res.json()\<close> gives it, or how reading it failed.\<close>

datatype body_read = Body json | Body_malformed exn | Body_aborted exn

record fcm_response =
  fr_status :: nat
  fr_body :: body_read

record 'w fcm_deps =
  fd_configProjectId :: string
  fd_loadServiceAccount :: "('w, string option) io"
  fd_getAccessToken :: "('w, string option) io"
  fd_fetch :: "string \<Rightarrow> string \<Rightarrow> string \<Rightarrow> stage_msg \<Rightarrow> ('w, fcm_response) io"
  fd_message :: "exn \<Rightarrow> string"

text \<open>\<open>setFcm\<close>: the state, and through the observer the readiness state.\<close>

definition setFcm :: "bool \<Rightarrow> string \<Rightarrow> bool option \<Rightarrow> ('e fcm_world_scheme, unit) io" where
  "setFcm ready reason providerRejected =
     modify (\<lambda>w. w\<lparr>rw_ready := rd_setFcm ready reason (rw_ready w),
       fw_state := \<lparr>fs_ready = ready, fs_reason = reason,
         fs_rejected = (case providerRejected of None \<Rightarrow> fs_rejected (fw_state w) | Some b \<Rightarrow> b)\<rparr>\<rparr>)"

definition getClient :: "('e fcm_world_scheme) fcm_deps \<Rightarrow> ('e fcm_world_scheme, bool) io" where
  "getClient F =
     bindE (gets fw_client) (\<lambda>cached.
     if cached then ret True
     else
     bindE (fd_loadServiceAccount F) (\<lambda>sa.
     case sa of
       None \<Rightarrow> ret False
     | Some project \<Rightarrow>
         seqE (modify (\<lambda>w. w\<lparr>fw_client := True, fw_projectId := (if fw_projectId w = [] then project else fw_projectId w)\<rparr>)) (ret True)))"

definition resetFcm :: "('e fcm_world_scheme) fcm_deps \<Rightarrow> ('e fcm_world_scheme, unit) io" where
  "resetFcm F = modify (\<lambda>w. w\<lparr>fw_client := False, fw_projectId := fd_configProjectId F\<rparr>)"

definition probeFcm :: "('e fcm_world_scheme) fcm_deps \<Rightarrow> ('e fcm_world_scheme, unit) io" where
  "probeFcm F =
     tryE
       (bindE (getClient F) (\<lambda>client.
        bindE (gets fw_projectId) (\<lambda>project.
        if \<not> client \<or> project = [] then throw (Error ''fcm_not_configured'')
        else
        bindE (fd_getAccessToken F) (\<lambda>token.
        if token = None \<or> token = Some [] then seqE (resetFcm F) (setFcm False ''fcm_no_access_token'' None)
        else
        bindE (gets (\<lambda>w. fs_rejected (fw_state w))) (\<lambda>rejected.
        if rejected then setFcm False ''fcm_awaiting_send_recovery'' None
        else setFcm True ''ok'' None)))))
       (\<lambda>e. seqE (resetFcm F) (setFcm False (''fcm_'' @ reasonCode (fd_message F) e) None))"

definition isTransportFailure :: "nat \<Rightarrow> bool" where
  "isTransportFailure s \<longleftrightarrow> s = 401 \<or> s = 403 \<or> s = 429 \<or> 500 \<le> s"

record push_result =
  pr_ok :: bool
  pr_suppressed :: bool
  pr_unregistered :: bool
  pr_error :: json

definition push_failed :: "string \<Rightarrow> push_result" where
  "push_failed e = \<lparr>pr_ok = False, pr_suppressed = False, pr_unregistered = False, pr_error = JStr e\<rparr>"

definition push_suppressed :: push_result where
  "push_suppressed = \<lparr>pr_ok = False, pr_suppressed = True, pr_unregistered = False, pr_error = JStr ''send_suppressed''\<rparr>"

definition push_sent :: push_result where
  "push_sent = \<lparr>pr_ok = True, pr_suppressed = False, pr_unregistered = False, pr_error = JUndef\<rparr>"

text \<open>\<open>v?.[0]\<close> and \<open>a || b\<close>.\<close>

fun first_of :: "json \<Rightarrow> json" where
  "first_of (JArr (x # xs)) = x"
| "first_of (JObj fs) = js_field ''0'' (JObj fs)"
| "first_of v = JUndef"

definition js_or :: "json \<Rightarrow> json \<Rightarrow> json" where
  "js_or a b = (if js_truthy a then a else b)"

definition fcm_error_code :: "json \<Rightarrow> json" where
  "fcm_error_code errBody =
     (let err = js_field ''error'' errBody in
      js_or (js_or (js_field ''errorCode'' (first_of (js_field ''details'' err))) (js_field ''status'' err)) (JStr []))"

text \<open>What an answer other than 2xx means.\<close>

definition push_rejected :: "('e fcm_world_scheme) fcm_deps \<Rightarrow> nat \<Rightarrow> json \<Rightarrow> ('e fcm_world_scheme, push_result) io" where
  "push_rejected F s errBody =
     (let code = fcm_error_code errBody in
      seqE (if isTransportFailure s
            then seqE (setFcm False (''fcm_http_'' @ nat_str s) (Some True)) (if s = 401 \<or> s = 403 then resetFcm F else ret ())
            else ret ())
        (ret \<lparr>pr_ok = False, pr_suppressed = False, pr_unregistered = (code = JStr ''UNREGISTERED'' \<or> s = 404),
              pr_error = js_or code (JStr (''http_'' @ nat_str s))\<rparr>))"

definition push_answer :: "('e fcm_world_scheme) fcm_deps \<Rightarrow> fcm_response \<Rightarrow> ('e fcm_world_scheme, push_result) io" where
  "push_answer F res =
     (case fr_body res of
        Body_aborted e \<Rightarrow>
          seqE (setFcm False (''fcm_'' @ reasonCode (fd_message F) e) (Some True)) (ret (push_failed ''fcm_send_failed''))
      | Body_malformed e \<Rightarrow>
          if 200 \<le> fr_status res \<and> fr_status res \<le> 299 then seqE (setFcm True ''ok'' (Some False)) (ret push_sent)
          else push_rejected F (fr_status res) (JObj [])
      | Body j \<Rightarrow>
          if 200 \<le> fr_status res \<and> fr_status res \<le> 299
          then seqE (setFcm True ''ok'' (Some False)) (bindE (liftE (js_get ''name'' j)) (\<lambda>_. ret push_sent))
          else push_rejected F (fr_status res) j)"

text \<open>The request, then the token and the request, under the send's deadline.\<close>

definition push_fetch ::
  "('e fcm_world_scheme) fcm_deps \<Rightarrow> string \<Rightarrow> string \<Rightarrow> string \<Rightarrow> stage_msg \<Rightarrow> ('e fcm_world_scheme, push_result) io" where
  "push_fetch F project token deviceToken msg =
     bindE (tryE (bindE (fd_fetch F project token deviceToken msg) (\<lambda>r. ret (Inr r))) (\<lambda>e. ret (Inl e))) (\<lambda>res.
     case res of
       Inl e \<Rightarrow> seqE (setFcm False (''fcm_'' @ reasonCode (fd_message F) e) (Some True)) (ret (push_failed ''fcm_send_failed''))
     | Inr r \<Rightarrow> push_answer F r)"

definition push_request ::
  "('e fcm_world_scheme) fcm_deps \<Rightarrow> string \<Rightarrow> string \<Rightarrow> stage_msg \<Rightarrow> ('e fcm_world_scheme \<Rightarrow> bool) \<Rightarrow> ('e fcm_world_scheme, push_result) io" where
  "push_request F project deviceToken msg canSend =
     bindE (tryE (bindE (fd_getAccessToken F) (\<lambda>t. ret (Inr t))) (\<lambda>e. ret (Inl e))) (\<lambda>got.
     case got of
       Inl e \<Rightarrow>
         seqE (resetFcm F) (seqE (setFcm False (''fcm_'' @ reasonCode (fd_message F) e) (Some True)) (ret (push_failed ''fcm_auth_failed'')))
     | Inr t \<Rightarrow>
         if t = None \<or> t = Some [] then
           seqE (resetFcm F) (seqE (setFcm False ''fcm_no_access_token'' (Some True)) (ret (push_failed ''fcm_no_access_token'')))
         else
         bindE (gets canSend) (\<lambda>can.
         if \<not> can then ret push_suppressed else push_fetch F project (the t) deviceToken msg))"

definition sendPush ::
  "('e fcm_world_scheme) fcm_deps \<Rightarrow> string \<Rightarrow> stage_msg \<Rightarrow> ('e fcm_world_scheme \<Rightarrow> bool) \<Rightarrow> ('e fcm_world_scheme, push_result) io" where
  "sendPush F deviceToken msg canSend =
     bindE (gets fw_projectId) (\<lambda>effectiveProjectId.
     bindE (tryE (bindE (getClient F) (\<lambda>c. ret (Inr c))) (\<lambda>e. ret (Inl e))) (\<lambda>client.
     case client of
       Inl e \<Rightarrow>
         seqE (resetFcm F) (seqE (setFcm False (''fcm_'' @ reasonCode (fd_message F) e) (Some True)) (ret (push_failed ''fcm_auth_failed'')))
     | Inr c \<Rightarrow>
         if \<not> c \<or> effectiveProjectId = []
         then seqE (setFcm False ''fcm_not_configured'' (Some True)) (ret (push_failed ''fcm_not_configured''))
         else push_request F effectiveProjectId deviceToken msg canSend))"

end
