(* ===== verification/Srv_Poll.thy ===== *)
theory Srv_Poll
  imports Srv_Chain Srv_Push
begin

text \<open>
  The poller (\<open>notify-server/src/poller.js\<close>): what one registration's turn does, a cycle over all
  registrations, and the timer's tick. The chain reads, the program probe, the push and the executor
  are awaited parameters: while one is pending other workers, requests and the monitor run, so such a
  call may change any part of the world, the registrations and the readiness included. \<open>pw_expired\<close> is
  set by the timer of \<open>withTimeout\<close>; the abandoned turn goes on and reads it through \<open>isLive\<close>.
\<close>

subsection \<open>One registration\<close>

record poll_world = fcm_world +
  pw_expired :: bool
  pw_running :: bool
  pw_runningSince :: int

datatype poll_action = A_net_unverified | A_read_error | A_timeout | A_program_unready | A_deregistered_missing
  | A_deregistered_inactive | A_deregistered_unregistered | A_no_heartbeat | A_normal | A_no_change nat | A_no_msg nat
  | A_sent nat | A_send_failed msg_key json

record 'w poll_deps =
  pd_readVaultState :: "string \<Rightarrow> ('w, vault_state) io"
  pd_checkProgram :: "('w, program_check) io"
  pd_sendPush :: "string \<Rightarrow> stage_msg \<Rightarrow> ('w \<Rightarrow> bool) \<Rightarrow> ('w, push_result) io"
  pd_runExecutor :: "string \<Rightarrow> ('w \<Rightarrow> bool) \<Rightarrow> ('w, string) io"

definition isLive :: "'e poll_world_scheme \<Rightarrow> bool" where
  "isLive w \<longleftrightarrow> \<not> pw_expired w"

definition networkVerified :: "'e poll_world_scheme \<Rightarrow> bool" where
  "networkVerified w = rd_netVerified (rw_ready w)"

definition can_send :: "'e poll_world_scheme \<Rightarrow> bool" where
  "can_send w \<longleftrightarrow> isLive w \<and> networkVerified w"

definition can_submit :: "'e poll_world_scheme \<Rightarrow> bool" where
  "can_submit w \<longleftrightarrow> isLive w \<and> rd_executor (rw_ready w)"

text \<open>\<open>if (!isLive()) return timeout; if (!readiness.networkVerified) return net_unverified\<close>.\<close>

definition still_allowed :: "('e poll_world_scheme, poll_action) io \<Rightarrow> ('e poll_world_scheme, poll_action) io" where
  "still_allowed k =
     bindE (gets isLive) (\<lambda>live. if \<not> live then ret A_timeout
     else bindE (gets networkVerified) (\<lambda>ok. if \<not> ok then ret A_net_unverified else k))"

definition drop_registration :: "string \<Rightarrow> poll_action \<Rightarrow> ('e poll_world_scheme, poll_action) io" where
  "drop_registration vault a = seqE (deleteRegistration vault) (ret a)"

definition missing_vault :: "('e poll_world_scheme) poll_deps \<Rightarrow> string \<Rightarrow> ('e poll_world_scheme, poll_action) io" where
  "missing_vault D vault =
     bindE (pd_checkProgram D) (\<lambda>prog.
     still_allowed
       (case prog of
          Prog_ok x \<Rightarrow> drop_registration vault A_deregistered_missing
        | Prog_bad r \<Rightarrow> ret A_program_unready
        | Prog_unknown r \<Rightarrow> ret A_program_unready))"

definition drop_inactive :: "string \<Rightarrow> ('e poll_world_scheme, poll_action) io" where
  "drop_inactive vault =
     bindE (gets networkVerified) (\<lambda>ok.
     if \<not> ok then ret A_net_unverified else drop_registration vault A_deregistered_inactive)"

definition finished_vault ::
  "('e poll_world_scheme) poll_deps \<Rightarrow> string \<Rightarrow> reg_row \<Rightarrow> srv_vault \<Rightarrow> ('e poll_world_scheme, poll_action) io" where
  "finished_vault D vault reg cfg =
     bindE (the_ready rd_fcmWaived) (\<lambda>waived.
     if sv_executed cfg \<and> rr_lastStage reg = 4 \<and> \<not> waived then
       (case stageMessage Complete_msg [] of
          None \<Rightarrow> drop_inactive vault
        | Some doneMsg \<Rightarrow>
            bindE (pd_sendPush D (rr_deviceToken reg) doneMsg can_send) (\<lambda>r.
            if pr_suppressed r then ret A_net_unverified
            else if pr_ok r \<or> pr_unregistered r then drop_registration vault A_deregistered_inactive
            else ret (A_send_failed Complete_msg (pr_error r))))
     else drop_inactive vault)"

definition push_due :: "nat \<Rightarrow> reg_row \<Rightarrow> int \<Rightarrow> bool" where
  "push_due stage reg now \<longleftrightarrow>
     rr_lastStage reg < int stage
     \<or> (int stage = rr_lastStage reg \<and> 1 \<le> stage \<and> stage \<le> 3
        \<and> (if STAGE_RECUR_INTERVAL stage = 0 then 3600 else STAGE_RECUR_INTERVAL stage) \<le> now - rr_lastNotifiedAt reg)
     \<or> (stage = 4 \<and> rr_lastStage reg \<noteq> 4)"

definition send_stage ::
  "('e poll_world_scheme) poll_deps \<Rightarrow> string \<Rightarrow> reg_row \<Rightarrow> int \<Rightarrow> stage_info \<Rightarrow> ('e poll_world_scheme, poll_action) io" where
  "send_stage D vault reg now si =
     (let stage = si_stage si in
      if \<not> push_due stage reg now then ret (A_no_change stage)
      else case stageMessage (Stage_msg stage) (formatDuration (si_secondsToExecution si)) of
        None \<Rightarrow> ret (A_no_msg stage)
      | Some msg \<Rightarrow>
          still_allowed
            (bindE (pd_sendPush D (rr_deviceToken reg) msg can_send) (\<lambda>r.
             if pr_suppressed r then ret A_net_unverified
             else if pr_unregistered r then drop_registration vault A_deregistered_unregistered
             else if pr_ok r then seqE (updateNotifyState vault (int stage) now) (ret (A_sent stage))
             else ret (A_send_failed (Stage_msg stage) (pr_error r)))))"

definition escalate ::
  "('e poll_world_scheme) poll_deps \<Rightarrow> string \<Rightarrow> reg_row \<Rightarrow> int \<Rightarrow> stage_info \<Rightarrow> ('e poll_world_scheme, poll_action) io" where
  "escalate D vault reg now si =
     (if si_stage si = 0 then
        seqE (if rr_lastStage reg \<noteq> 0 then updateNotifyState vault 0 0 else ret ()) (ret A_normal)
      else
        bindE (the_ready rd_executor) (\<lambda>ex.
        seqE (if si_stage si = 4 \<and> ex
              then quietly (bindE (pd_runExecutor D vault can_submit) (\<lambda>_. ret ())) else ret ())
        (send_stage D vault reg now si)))"

definition processRegistration ::
  "('e poll_world_scheme) poll_deps \<Rightarrow> string \<times> reg_row \<Rightarrow> int \<Rightarrow> ('e poll_world_scheme, poll_action) io" where
  "processRegistration D vr now =
     (case vr of (vault, reg) \<Rightarrow>
      bindE (gets networkVerified) (\<lambda>ok.
      if \<not> ok then ret A_net_unverified
      else
      or_return (pd_readVaultState D vault) A_read_error (\<lambda>state.
      still_allowed
        (if \<not> vs_exists state \<or> vs_config state = None then missing_vault D vault
         else
         let cfg = the (vs_config state) in
         if \<not> sv_active cfg \<or> sv_executed cfg then finished_vault D vault reg cfg
         else case vs_lastHeartbeat state of
           None \<Rightarrow> ret A_no_heartbeat
         | Some hb \<Rightarrow>
             escalate D vault reg now
               (computeStage hb (sv_interval cfg) (rr_stage1 reg, rr_stage2 reg, rr_stage3 reg) now)))))"

subsection \<open>A cycle\<close>

definition read_failure :: "poll_action \<Rightarrow> bool" where
  "read_failure a \<longleftrightarrow> a \<in> {A_read_error, A_timeout, A_net_unverified, A_program_unready, A_no_heartbeat}"

text \<open>
  \<open>withTimeout\<close> around one turn: when the timer fired first the turn counts as timed out, whatever it
  did later. An unexpected throw counts as a failed read.
\<close>

definition poll_turn :: "('e poll_world_scheme) poll_deps \<Rightarrow> string \<times> reg_row \<Rightarrow> int \<Rightarrow> ('e poll_world_scheme, poll_action option) io" where
  "poll_turn D vr now =
     seqE (modify (\<lambda>w. w\<lparr>pw_expired := False\<rparr>))
     (bindE (tryE (bindE (processRegistration D vr now) (\<lambda>a. ret (Some a))) (\<lambda>_. ret None)) (\<lambda>r.
      bindE (gets pw_expired) (\<lambda>x. ret (if x then Some A_timeout else r))))"

definition count_turn :: "poll_action option \<Rightarrow> nat \<times> nat \<Rightarrow> nat \<times> nat" where
  "count_turn r acc =
     (case acc of (sent, readErrors) \<Rightarrow>
      (case r of
         None \<Rightarrow> (sent, Suc readErrors)
       | Some a \<Rightarrow> ((case a of A_sent n \<Rightarrow> Suc sent | _ \<Rightarrow> sent), if read_failure a then Suc readErrors else readErrors)))"

text \<open>
  The pool of four workers takes the registrations in order; here each turn runs to its end before
  the next starts, and what other workers do meanwhile is part of what the awaited calls may do.
\<close>

definition pollOnce :: "('e poll_world_scheme) poll_deps \<Rightarrow> ('e poll_world_scheme, poll_result) io" where
  "pollOnce D =
     bindE allRegistrations (\<lambda>regs.
     if regs = [] then
       bindE (pd_checkProgram D) (\<lambda>prog.
       ret \<lparr>po_checked = 0, po_sent = 0, po_readErrors = 0, po_probeOk = (case prog of Prog_ok x \<Rightarrow> True | _ \<Rightarrow> False)\<rparr>)
     else
     bindE (gets sw_now) (\<lambda>now.
     bindE (forE regs (0, 0) (\<lambda>vr acc. bindE (poll_turn D vr now) (\<lambda>r. ret (count_turn r acc)))) (\<lambda>(sent, readErrors).
     ret \<lparr>po_checked = length regs, po_sent = sent, po_readErrors = readErrors, po_probeOk = False\<rparr>)))"

subsection \<open>The timer\<close>

definition MAX_TICK_MS :: int where
  "MAX_TICK_MS = 5 * 60000"

definition poll_tick :: "rat \<Rightarrow> nat \<Rightarrow> ('e poll_world_scheme) poll_deps \<Rightarrow> ('e poll_world_scheme, unit) io" where
  "poll_tick maxRatio maxAbs D =
     bindE (gets (\<lambda>w. pw_running w \<and> rw_ms w - pw_runningSince w < MAX_TICK_MS)) (\<lambda>busy.
     if busy then ret ()
     else
     seqE (modify (\<lambda>w. w\<lparr>pw_running := True, pw_runningSince := rw_ms w\<rparr>))
     (finallyE
       (tryE
         (bindE (gets networkVerified) (\<lambda>probe.
          if \<not> probe then ret ()
          else
          bindE (pollOnce D) (\<lambda>res.
          bindE (gets rw_ms) (\<lambda>t.
          set_ready (recordPollResult (isPollCycleHealthy maxRatio maxAbs res) t (Some (po_checked res, po_readErrors res)))))))
         (\<lambda>_. bindE (gets rw_ms) (\<lambda>t. set_ready (recordPollResult False t None))))
       (\<lambda>w. w\<lparr>pw_running := False\<rparr>)))"

end
