(* ===== verification/Crank_Tx.thy ===== *)
theory Crank_Tx
  imports Vault_Tx
begin

text \<open>
  The permissionless crank of \<open>VaultTransactionService.ts\<close>: one operation per step of the
  execution, built and sent with a payer key, and the transactions of a beneficiary's claim
  (\<open>buildClaimTransactions\<close>, \<open>buildCloseTokenDistTransactions\<close>), the same steps with the heir as
  fee payer.
\<close>

subsection \<open>The program instructions of the steps\<close>

text \<open>Instruction data of index lists: \<open>Buffer.from(indices)\<close>.\<close>

definition buffer_from :: "nat list \<Rightarrow> bytes" where
  "buffer_from is = map word_of_nat is"

definition writable :: "pubkey \<Rightarrow> meta" where
  "writable k = \<lparr>mt_key = k, mt_writable = True, mt_signer = False\<rparr>"

definition begin_ix :: "env \<Rightarrow> pubkey \<Rightarrow> pubkey \<Rightarrow> bool \<Rightarrow> instruction" where
  "begin_ix E payer owner hasPlan =
     (let vaultPda = getVaultPDA E owner in
      ProgIx BeginExecution
        [(Payer, Some payer), (VaultConfig, Some vaultPda), (HeartbeatRecord, Some (getHeartbeatPDA E vaultPda)),
         (ExecutionLog, Some (getExecutionPDA E vaultPda)),
         (AssetPlan, if hasPlan then Some (getAssetPlanPDA E vaultPda) else None),
         (SystemProgram, Some (system_program E))] [])"

definition specific_sol_ix :: "env \<Rightarrow> pubkey \<Rightarrow> pubkey \<Rightarrow> nat \<Rightarrow> pubkey \<Rightarrow> instruction" where
  "specific_sol_ix E payer owner j benef =
     (let vaultPda = getVaultPDA E owner in
      ProgIx (ExecuteSpecificSol j)
        [(Payer, Some payer), (VaultConfig, Some vaultPda), (ExecutionLog, Some (getExecutionPDA E vaultPda)),
         (AssetPlan, Some (getAssetPlanPDA E vaultPda)), (Beneficiary, Some benef)] [])"

definition begin_dist_ix :: "env \<Rightarrow> pubkey \<Rightarrow> pubkey \<Rightarrow> pubkey \<Rightarrow> pubkey \<Rightarrow> bool \<Rightarrow> instruction" where
  "begin_dist_ix E payer owner mint vaultAta hasPlan =
     (let vaultPda = getVaultPDA E owner in
      ProgIx BeginTokenDist
        [(Payer, Some payer), (VaultConfig, Some vaultPda), (ExecutionLog, Some (getExecutionPDA E vaultPda)),
         (Mint, Some mint), (VaultAta, Some vaultAta),
         (AssetPlan, if hasPlan then Some (getAssetPlanPDA E vaultPda) else None),
         (TokenDist, Some (getTokenDistPDA E vaultPda mint)), (SystemProgram, Some (system_program E))] [])"

definition specific_asset_ix ::
  "env \<Rightarrow> pubkey \<Rightarrow> pubkey \<Rightarrow> nat \<Rightarrow> pubkey \<Rightarrow> pubkey \<Rightarrow> pubkey \<Rightarrow> pubkey \<Rightarrow> instruction" where
  "specific_asset_ix E payer owner j mint vaultAta benefAta tokenProgram =
     (let vaultPda = getVaultPDA E owner in
      ProgIx (ExecuteSpecificAsset j)
        [(Payer, Some payer), (VaultConfig, Some vaultPda), (ExecutionLog, Some (getExecutionPDA E vaultPda)),
         (AssetPlan, Some (getAssetPlanPDA E vaultPda)), (Mint, Some mint),
         (TokenDist, Some (getTokenDistPDA E vaultPda mint)), (VaultAta, Some vaultAta),
         (BeneficiaryAta, Some benefAta), (TokenProgram, Some tokenProgram)] [])"

definition sol_shares_ix :: "env \<Rightarrow> pubkey \<Rightarrow> pubkey \<Rightarrow> nat list \<Rightarrow> pubkey list \<Rightarrow> instruction" where
  "sol_shares_ix E payer owner is wallets =
     (let vaultPda = getVaultPDA E owner in
      ProgIx (ExecuteSolShares (buffer_from is))
        [(Payer, Some payer), (VaultConfig, Some vaultPda), (ExecutionLog, Some (getExecutionPDA E vaultPda))]
        (map writable wallets))"

definition token_shares_ix ::
  "env \<Rightarrow> pubkey \<Rightarrow> pubkey \<Rightarrow> pubkey \<Rightarrow> nat list \<Rightarrow> pubkey \<Rightarrow> pubkey \<Rightarrow> pubkey list \<Rightarrow> instruction" where
  "token_shares_ix E payer owner mint is vaultAta tokenProgram atas =
     (let vaultPda = getVaultPDA E owner in
      ProgIx (ExecuteTokenShares (buffer_from is))
        [(Payer, Some payer), (VaultConfig, Some vaultPda), (TokenDist, Some (getTokenDistPDA E vaultPda mint)),
         (Mint, Some mint), (VaultAta, Some vaultAta), (TokenProgram, Some tokenProgram)]
        (map writable atas))"

definition finalize_ix :: "env \<Rightarrow> pubkey \<Rightarrow> pubkey \<Rightarrow> bool \<Rightarrow> instruction" where
  "finalize_ix E payer owner hasPlan =
     (let vaultPda = getVaultPDA E owner in
      ProgIx FinalizeExecution
        [(Payer, Some payer), (VaultConfig, Some vaultPda), (ExecutionLog, Some (getExecutionPDA E vaultPda)),
         (AssetPlan, if hasPlan then Some (getAssetPlanPDA E vaultPda) else None)] [])"

definition close_dist_ix ::
  "env \<Rightarrow> pubkey \<Rightarrow> pubkey \<Rightarrow> pubkey \<Rightarrow> pubkey \<Rightarrow> pubkey option \<Rightarrow> pubkey \<Rightarrow> instruction" where
  "close_dist_ix E payer owner mint vaultAta largestBenefAta tokenProgram =
     (let vaultPda = getVaultPDA E owner in
      ProgIx CloseTokenDist
        [(Payer, Some payer), (Owner, Some owner), (VaultConfig, Some vaultPda), (Mint, Some mint),
         (VaultAta, Some vaultAta), (TokenDist, Some (getTokenDistPDA E vaultPda mint)),
         (LargestBenefAta, largestBenefAta), (TokenProgram, Some tokenProgram)] [])"

subsection \<open>The crank operations\<close>

definition crankBeginExecution :: "env \<Rightarrow> 'w rpc \<Rightarrow> pubkey \<Rightarrow> pubkey \<Rightarrow> bool \<Rightarrow> ('w, string) io" where
  "crankBeginExecution E R payer owner hasPlan =
     (let vaultPda = getVaultPDA E owner in
      sendWithPayer E R [begin_ix E payer owner hasPlan] payer
        [vaultPda, getHeartbeatPDA E vaultPda, getExecutionPDA E vaultPda, payer] 120000 [])"

definition crankExecuteSpecificSol ::
  "env \<Rightarrow> 'w rpc \<Rightarrow> pubkey \<Rightarrow> pubkey \<Rightarrow> nat \<Rightarrow> pubkey \<Rightarrow> ('w, string) io" where
  "crankExecuteSpecificSol E R payer owner assignmentIndex beneficiaryWallet =
     sendWithPayer E R [specific_sol_ix E payer owner assignmentIndex beneficiaryWallet] payer
       [getVaultPDA E owner, beneficiaryWallet, payer] 120000 []"

definition crankBeginTokenDist ::
  "env \<Rightarrow> 'w rpc \<Rightarrow> pubkey \<Rightarrow> pubkey \<Rightarrow> pubkey \<Rightarrow> bool \<Rightarrow> ('w, string) io" where
  "crankBeginTokenDist E R payer owner mint hasPlan =
     (let vaultPda = getVaultPDA E owner in
      bindE (getTokenProgramForMint E R mint) (\<lambda>tokenProgram.
      bindE (ataFor E mint vaultPda True tokenProgram) (\<lambda>vaultAta.
      sendWithPayer E R
        [CreateAtaIdempotent payer vaultAta vaultPda mint tokenProgram,
         begin_dist_ix E payer owner mint vaultAta hasPlan] payer
        [vaultPda, getExecutionPDA E vaultPda, getTokenDistPDA E vaultPda mint, mint, payer] 150000 [])))"

definition create_if_missing ::
  "'w rpc \<Rightarrow> pubkey \<Rightarrow> pubkey \<Rightarrow> pubkey \<Rightarrow> pubkey \<Rightarrow> pubkey \<Rightarrow> ('w, instruction list) io" where
  "create_if_missing R payer ataKey ow mint tokenProgram =
     bindE (accountExists R ataKey) (\<lambda>there.
     ret (if there then [] else [CreateAtaIdempotent payer ataKey ow mint tokenProgram]))"

definition crankExecuteSpecificAsset ::
  "env \<Rightarrow> 'w rpc \<Rightarrow> pubkey \<Rightarrow> pubkey \<Rightarrow> pubkey \<Rightarrow> nat \<Rightarrow> pubkey \<Rightarrow> ('w, string) io" where
  "crankExecuteSpecificAsset E R payer owner mint assignmentIndex beneficiaryWallet =
     (let vaultPda = getVaultPDA E owner in
      bindE (getTokenProgramForMint E R mint) (\<lambda>tokenProgram.
      bindE (ataFor E mint vaultPda True tokenProgram) (\<lambda>vaultAta.
      bindE (ataFor E mint beneficiaryWallet False tokenProgram) (\<lambda>beneficiaryAta.
      bindE (create_if_missing R payer beneficiaryAta beneficiaryWallet mint tokenProgram) (\<lambda>create.
      sendWithPayer E R
        (create @ [specific_asset_ix E payer owner assignmentIndex mint vaultAta beneficiaryAta tokenProgram]) payer
        [vaultPda, getTokenDistPDA E vaultPda mint, mint, beneficiaryAta, payer] 200000 [])))))"

definition crankExecuteSolShares ::
  "env \<Rightarrow> 'w rpc \<Rightarrow> pubkey \<Rightarrow> pubkey \<Rightarrow> nat list \<Rightarrow> pubkey list \<Rightarrow> ('w, string) io" where
  "crankExecuteSolShares E R payer owner indices beneficiaryWallets =
     (let vaultPda = getVaultPDA E owner in
      sendWithPayer E R [sol_shares_ix E payer owner indices beneficiaryWallets] payer
        [vaultPda, getExecutionPDA E vaultPda, payer] 200000 [])"

text \<open>The beneficiary token accounts, and creations for the missing ones.\<close>

definition atas_with_setup ::
  "env \<Rightarrow> 'w rpc \<Rightarrow> pubkey \<Rightarrow> pubkey \<Rightarrow> pubkey \<Rightarrow> pubkey list \<Rightarrow> ('w, instruction list \<times> pubkey list) io" where
  "atas_with_setup E R payer mint tokenProgram wallets =
     forE wallets ([], []) (\<lambda>w (setupIxs, atas).
       bindE (ataFor E mint w False tokenProgram) (\<lambda>a.
       bindE (create_if_missing R payer a w mint tokenProgram) (\<lambda>create.
       ret (setupIxs @ create, atas @ [a]))))"

definition crankExecuteTokenShares ::
  "env \<Rightarrow> 'w rpc \<Rightarrow> pubkey \<Rightarrow> pubkey \<Rightarrow> pubkey \<Rightarrow> nat list \<Rightarrow> pubkey list \<Rightarrow> ('w, string) io" where
  "crankExecuteTokenShares E R payer owner mint indices beneficiaryWallets =
     (let vaultPda = getVaultPDA E owner in
      bindE (getTokenProgramForMint E R mint) (\<lambda>tokenProgram.
      bindE (ataFor E mint vaultPda True tokenProgram) (\<lambda>vaultAta.
      bindE (atas_with_setup E R payer mint tokenProgram beneficiaryWallets) (\<lambda>(setupIxs, beneficiaryAtas).
      seqE (if setupIxs \<noteq> []
            then bindE (sendWithPayer E R setupIxs payer [payer, mint] (50000 + int (length setupIxs) * 30000) [])
                   (\<lambda>_. ret ())
            else ret ())
      (sendWithPayer E R [token_shares_ix E payer owner mint indices vaultAta tokenProgram beneficiaryAtas] payer
        [vaultPda, getTokenDistPDA E vaultPda mint, mint, payer] 200000 [])))))"

definition crankFinalize :: "env \<Rightarrow> 'w rpc \<Rightarrow> pubkey \<Rightarrow> pubkey \<Rightarrow> bool \<Rightarrow> ('w, string) io" where
  "crankFinalize E R payer owner hasPlan =
     (let vaultPda = getVaultPDA E owner in
      sendWithPayer E R [finalize_ix E payer owner hasPlan] payer
        [vaultPda, getExecutionPDA E vaultPda, payer] 100000 [])"

text \<open>The balance left in the vault's token account; an unreadable account counts as empty.\<close>

definition read_dust :: "'w rpc \<Rightarrow> pubkey \<Rightarrow> ('w, int) io" where
  "read_dust R vaultAta = tryE (getTokenAccountBalance R vaultAta) (\<lambda>_. ret 0)"

definition crankCloseTokenDist ::
  "env \<Rightarrow> 'w rpc \<Rightarrow> pubkey \<Rightarrow> pubkey \<Rightarrow> pubkey \<Rightarrow> pubkey \<Rightarrow> ('w, string) io" where
  "crankCloseTokenDist E R payer owner mint largestBenefWallet =
     (let vaultPda = getVaultPDA E owner in
      bindE (getTokenProgramForMint E R mint) (\<lambda>tokenProgram.
      bindE (ataFor E mint vaultPda True tokenProgram) (\<lambda>vaultAta.
      bindE (read_dust R vaultAta) (\<lambda>dust.
      bindE (if dust > 0 then
               bindE (ataFor E mint largestBenefWallet False tokenProgram) (\<lambda>la.
               bindE (accountExists R la) (\<lambda>there.
               if there then ret (Some la)
               else bindE (sendWithPayer E R [CreateAtaIdempotent payer la largestBenefWallet mint tokenProgram]
                             payer [payer, mint] 80000 []) (\<lambda>_. ret (Some la))))
             else ret None) (\<lambda>largestBenefAta.
      sendWithPayer E R [close_dist_ix E payer owner mint vaultAta largestBenefAta tokenProgram] payer
        [vaultPda, getTokenDistPDA E vaultPda mint, mint, payer] 150000 [])))))"

subsection \<open>The claim\<close>

type_synonym labelled = "string \<times> tx"

definition ellipsis :: string where
  "ellipsis = [CHR 0xE2, CHR 0x80, CHR 0xA6]"

text \<open>
  The mints to distribute: a \<open>Map\<close> keyed by the text of the mint, first the balances, then the
  non-SOL mints of the plan.
\<close>

definition claim_mints :: "env \<Rightarrow> parsed_token list \<Rightarrow> asset_plan option \<Rightarrow> pubkey list" where
  "claim_mints E balances plan =
     (let m1 = fold (\<lambda>t m. jsmap_set (b58 E (pt_mint t)) (pt_mint t) m) balances [];
          as = (case plan of Some p \<Rightarrow> assignments p | None \<Rightarrow> [])
      in map snd (fold (\<lambda>a m. if a_mint a \<noteq> default_pubkey then jsmap_set (b58 E (a_mint a)) (a_mint a) m else m) as m1))"

definition benef_at :: "pubkey list \<Rightarrow> nat \<Rightarrow> ('w, pubkey) io" where
  "benef_at ws i = (if i < length ws then ret (ws ! i) else throw TypeError)"

definition claim_snapshots ::
  "env \<Rightarrow> 'w rpc \<Rightarrow> pubkey \<Rightarrow> pubkey \<Rightarrow> bool \<Rightarrow> pubkey list \<Rightarrow> labelled list \<Rightarrow> ('w, labelled list) io" where
  "claim_snapshots E R heir owner hasPlan mints out =
     (let vaultPda = getVaultPDA E owner in
      forE mints out (\<lambda>mint out.
        bindE (fetchTokenDist E R owner mint) (\<lambda>td.
        if td \<noteq> None then ret out
        else
        bindE (getTokenProgramForMint E R mint) (\<lambda>tokenProgram.
        bindE (ataFor E mint vaultPda True tokenProgram) (\<lambda>vaultAta.
        bindE (addPriorityFee E R
           [CreateAtaIdempotent heir vaultAta vaultPda mint tokenProgram,
            begin_dist_ix E heir owner mint vaultAta hasPlan]
           [vaultPda, getExecutionPDA E vaultPda, getTokenDistPDA E vaultPda mint, mint, heir] 150000) (\<lambda>t.
        ret (out @ [(''Snapshot '' @ take 4 (b58 E mint) @ ellipsis @ '' balance'', t)])))))))"

definition claim_bequest ::
  "env \<Rightarrow> 'w rpc \<Rightarrow> pubkey \<Rightarrow> pubkey \<Rightarrow> pubkey list \<Rightarrow> nat \<Rightarrow> assignment \<Rightarrow> labelled list \<Rightarrow> ('w, labelled list) io" where
  "claim_bequest E R heir owner wallets j a out =
     (let vaultPda = getVaultPDA E owner in
      bindE (benef_at wallets (beneficiaryIndex a)) (\<lambda>benef.
      if a_mint a = default_pubkey then
        bindE (addPriorityFee E R [specific_sol_ix E heir owner j benef] [vaultPda, benef, heir] 120000) (\<lambda>t.
        ret (out @ [(''Pay bequest #'' @ nat_str (j + 1) @ '' (SOL)'', t)]))
      else
        bindE (getTokenProgramForMint E R (a_mint a)) (\<lambda>tokenProgram.
        bindE (ataFor E (a_mint a) vaultPda True tokenProgram) (\<lambda>vaultAta.
        bindE (ataFor E (a_mint a) benef False tokenProgram) (\<lambda>benefAta.
        bindE (create_if_missing R heir benefAta benef (a_mint a) tokenProgram) (\<lambda>create.
        bindE (addPriorityFee E R
           (create @ [specific_asset_ix E heir owner j (a_mint a) vaultAta benefAta tokenProgram])
           [vaultPda, getTokenDistPDA E vaultPda (a_mint a), a_mint a, benefAta, heir] 200000) (\<lambda>t.
        ret (out @ [(''Pay bequest #'' @ nat_str (j + 1), t)]))))))))"

definition claim_bequests ::
  "env \<Rightarrow> 'w rpc \<Rightarrow> pubkey \<Rightarrow> pubkey \<Rightarrow> pubkey list \<Rightarrow> asset_plan \<Rightarrow> labelled list \<Rightarrow> ('w, labelled list) io" where
  "claim_bequests E R heir owner wallets plan out =
     forE [0..<length (assignments plan)] out (\<lambda>j out.
       if bigint_bit_set (int (ap_paidMask plan)) j then ret out
       else claim_bequest E R heir owner wallets j (assignments plan ! j) out)"

definition claim_sol_shares ::
  "env \<Rightarrow> 'w rpc \<Rightarrow> pubkey \<Rightarrow> pubkey \<Rightarrow> pubkey list \<Rightarrow> nat \<Rightarrow> labelled list \<Rightarrow> ('w, labelled list) io" where
  "claim_sol_shares E R heir owner wallets msk out =
     (let vaultPda = getVaultPDA E owner in
      forE (batches (unpaidIndices (int msk) (length wallets))) out (\<lambda>batch out.
        bindE (addPriorityFee E R [sol_shares_ix E heir owner batch (map (\<lambda>i. wallets ! i) batch)]
           [vaultPda, getExecutionPDA E vaultPda, heir] 250000) (\<lambda>t.
        ret (out @ [(''Distribute SOL shares'', t)]))))"

definition claim_token_shares ::
  "env \<Rightarrow> 'w rpc \<Rightarrow> pubkey \<Rightarrow> pubkey \<Rightarrow> pubkey list \<Rightarrow> pubkey list \<Rightarrow> labelled list \<Rightarrow> ('w, labelled list) io" where
  "claim_token_shares E R heir owner wallets mints out =
     (let vaultPda = getVaultPDA E owner in
      forE mints out (\<lambda>mint out.
        bindE (fetchTokenDist E R owner mint) (\<lambda>td.
        case td of
          None \<Rightarrow> ret out
        | Some d \<Rightarrow>
            bindE (getTokenProgramForMint E R mint) (\<lambda>tokenProgram.
            bindE (ataFor E mint vaultPda True tokenProgram) (\<lambda>vaultAta.
            forE (batches (unpaidIndices (int (td_paidMask d)) (length wallets))) out (\<lambda>batch out.
              bindE (atas_with_setup E R heir mint tokenProgram (map (\<lambda>i. wallets ! i) batch)) (\<lambda>(ixs, atas).
              bindE (addPriorityFee E R
                 (ixs @ [token_shares_ix E heir owner mint batch vaultAta tokenProgram atas])
                 [vaultPda, getTokenDistPDA E vaultPda mint, mint, heir] 250000) (\<lambda>t.
              ret (out @ [(''Distribute '' @ take 4 (b58 E mint) @ ellipsis, t)])))))))))"

definition claim_fast_path :: "env \<Rightarrow> 'w rpc \<Rightarrow> pubkey \<Rightarrow> pubkey \<Rightarrow> pubkey list \<Rightarrow> ('w, labelled list) io" where
  "claim_fast_path E R heir owner wallets =
     (let vaultPda = getVaultPDA E owner; all = range (length wallets) in
      bindE (addPriorityFee E R
        [begin_ix E heir owner False, sol_shares_ix E heir owner all (map (\<lambda>i. wallets ! i) all),
         finalize_ix E heir owner False]
        [vaultPda, getExecutionPDA E vaultPda, heir] 400000) (\<lambda>t.
      ret [(''Distribute estate'', t)]))"

definition buildClaimTransactions :: "env \<Rightarrow> 'w rpc \<Rightarrow> pubkey \<Rightarrow> pubkey \<Rightarrow> ('w, labelled list) io" where
  "buildClaimTransactions E R heir owner =
     bindE (fetchVaultConfig E R owner) (\<lambda>config.
     case config of
       None \<Rightarrow> throw (Error ''No vault found for this owner.'')
     | Some c \<Rightarrow>
       let wallets = map wallet (beneficiaries c); hasPlan = hasAssetPlan c; vaultPda = getVaultPDA E owner in
       bindE (fetchExecutionLog E R owner) (\<lambda>execLog.
       bindE (getVaultTokenBalances E R vaultPda) (\<lambda>balances.
       bindE (if hasPlan then fetchAssetPlan E R owner else ret None) (\<lambda>plan.
       let mints = claim_mints E balances plan in
       if execLog = None \<and> mints = [] \<and> \<not> hasPlan \<and> length wallets \<le> 8
       then claim_fast_path E R heir owner wallets
       else
       bindE (if execLog = None
              then bindE (addPriorityFee E R [begin_ix E heir owner hasPlan]
                     [vaultPda, getHeartbeatPDA E vaultPda, getExecutionPDA E vaultPda, heir] 120000) (\<lambda>t.
                   ret [(''Begin distribution'', t)])
              else ret []) (\<lambda>out.
       bindE (claim_snapshots E R heir owner hasPlan mints out) (\<lambda>out.
       bindE (case plan of Some p \<Rightarrow> claim_bequests E R heir owner wallets p out | None \<Rightarrow> ret out) (\<lambda>out.
       bindE (claim_sol_shares E R heir owner wallets (case execLog of Some l \<Rightarrow> solPaidMask l | None \<Rightarrow> 0) out) (\<lambda>out.
       bindE (if (case execLog of Some l \<Rightarrow> completed l | None \<Rightarrow> False) then ret out
              else bindE (addPriorityFee E R [finalize_ix E heir owner hasPlan]
                     [vaultPda, getExecutionPDA E vaultPda, heir] 100000) (\<lambda>t.
                   ret (out @ [(''Finalize distribution'', t)]))) (\<lambda>out.
       claim_token_shares E R heir owner wallets mints out)))))))))"

subsection \<open>Closing the token distributions\<close>

definition harvest_ixs :: "env \<Rightarrow> 'w rpc \<Rightarrow> pubkey \<Rightarrow> pubkey \<Rightarrow> pubkey \<Rightarrow> ('w, instruction list) io" where
  "harvest_ixs E R mint vaultAta tokenProgram =
     (if tokenProgram = token_2022_program E then
        tryE (bindE (getAccount R vaultAta tokenProgram) (\<lambda>acc.
              ret (if (case ta_withheld acc of Some n \<Rightarrow> n | None \<Rightarrow> 0) > 0
                   then [HarvestWithheldTokensToMint mint [vaultAta] tokenProgram] else [])))
          (\<lambda>_. ret [])
      else ret [])"

definition buildCloseTokenDistTransactions :: "env \<Rightarrow> 'w rpc \<Rightarrow> pubkey \<Rightarrow> pubkey \<Rightarrow> ('w, labelled list) io" where
  "buildCloseTokenDistTransactions E R heir owner =
     bindE (fetchVaultConfig E R owner) (\<lambda>config.
     case config of
       None \<Rightarrow> ret []
     | Some c \<Rightarrow>
       let n = length (beneficiaries c); vaultPda = getVaultPDA E owner; fullMask = fullU32Mask n in
       bindE (largestShareWallet (shares c)) (\<lambda>largestBenef.
       bindE (getVaultTokenBalances E R vaultPda) (\<lambda>balances.
       bindE (if hasAssetPlan c then fetchAssetPlan E R owner else ret None) (\<lambda>plan.
       forE (claim_mints E balances plan) [] (\<lambda>mint out.
         bindE (fetchTokenDist E R owner mint) (\<lambda>td.
         if (case td of None \<Rightarrow> True | Some d \<Rightarrow> js_to_uint32 (int (td_paidMask d)) \<noteq> fullMask) then ret out
         else
         bindE (getTokenProgramForMint E R mint) (\<lambda>tokenProgram.
         bindE (ataFor E mint vaultPda True tokenProgram) (\<lambda>vaultAta.
         bindE (read_dust R vaultAta) (\<lambda>dust.
         bindE (if dust > 0 then
                  bindE (ataFor E mint largestBenef False tokenProgram) (\<lambda>la.
                  bindE (create_if_missing R heir la largestBenef mint tokenProgram) (\<lambda>create.
                  ret (Some la, create)))
                else ret (None, [])) (\<lambda>(largestBenefAta, create).
         bindE (harvest_ixs E R mint vaultAta tokenProgram) (\<lambda>harvest.
         bindE (addPriorityFee E R
            (create @ harvest @ [close_dist_ix E heir owner mint vaultAta largestBenefAta tokenProgram])
            [vaultPda, getTokenDistPDA E vaultPda mint, mint, heir] 150000) (\<lambda>t.
         ret (out @ [(''Close '' @ take 4 (b58 E mint) @ ellipsis @ '' account'', t)])))))))))))))"

end
