(* ===== verification/Srv_Exec.thy ===== *)
theory Srv_Exec
  imports Srv_Poll Crank_Tx
begin

text \<open>
  The server's executor (\<open>notify-server/src/executor.js\<close>, \<open>computeBudget.js\<close>): the signing context,
  the fault classification, the readiness guard, and the crank of one vault step by step. Anchor's
  account reads, RPC and the submission of a transaction are parameters; a transaction is its
  instructions, paid and signed by the cranker. A run's guard is asked right before a submission.
\<close>

subsection \<open>Faults\<close>

text \<open>What the classifier looks at; \<open>je_native\<close>: a TypeError, ReferenceError, RangeError or SyntaxError.\<close>

record js_error =
  je_name :: string
  je_message :: string
  je_code :: string
  je_logs :: bool
  je_native :: bool

definition js_trim :: "string \<Rightarrow> string" where
  "js_trim s = (let f = dropWhile (\<lambda>c. of_char c \<in> {9 :: nat, 10, 11, 12, 13, 32}) in rev (f (rev (f s))))"

definition transport_codes :: "string list" where
  "transport_codes = [''econnrefused'', ''econnreset'', ''enotfound'', ''eai_again'', ''etimedout'', ''epipe'', ''und_err'']"

definition operational_texts :: "string list" where
  "operational_texts = [''blockhash not found'', ''transaction simulation failed'', ''simulation failed'', ''preflight'',
     ''custom program error'', ''timed out'', ''request timed out'', ''timeout of'', ''429'', ''too many requests'', ''rate limit'',
     ''econnrefused'', ''econnreset'', ''enotfound'', ''eai_again'', ''getaddrinfo'', ''etimedout'', ''epipe'', ''und_err'',
     ''network error'', ''socket hang up'', ''node is behind'', ''insufficient funds'', ''insufficient lamports'',
     ''closedelaynotelapsed'', ''already been processed'', ''not been confirmed'', ''not confirmed in'', ''block height exceeded'',
     ''signature verification'', ''account does not exist'', ''account not exist'', ''accountnotinitialized'']"

definition isOperationalExecutorError :: "js_error \<Rightarrow> bool" where
  "isOperationalExecutorError e =
     (let m = to_lower (je_message e); code = to_lower (je_code e) in
      if je_name e = ''TimeoutError'' then True
      else if js_trim m = ''fetch failed'' then True
      else if list_ex (\<lambda>p. take (length p) code = p) transport_codes then True
      else if je_native e then False
      else if je_name e \<in> {''SendTransactionError'', ''AnchorError'', ''ProgramError''} then True
      else if je_logs e then True
      else list_ex (text_includes m) operational_texts)"

text \<open>The JavaScript error behind a thrown value; \<open>ext\<close> says how the errors of other code look.\<close>

definition error_view :: "(nat \<Rightarrow> js_error) \<Rightarrow> exn \<Rightarrow> js_error" where
  "error_view ext e =
     (case e of
        Error m \<Rightarrow> \<lparr>je_name = ''Error'', je_message = m, je_code = [], je_logs = False, je_native = False\<rparr>
      | RangeError \<Rightarrow> \<lparr>je_name = ''RangeError'', je_message = [], je_code = [], je_logs = False, je_native = True\<rparr>
      | TypeError \<Rightarrow> \<lparr>je_name = ''TypeError'', je_message = [], je_code = [], je_logs = False, je_native = True\<rparr>
      | UndefinedRead \<Rightarrow> \<lparr>je_name = ''TypeError'', je_message = [], je_code = [], je_logs = False, je_native = True\<rparr>
      | TimedOut m \<Rightarrow> \<lparr>je_name = ''TimeoutError'', je_message = m, je_code = [], je_logs = False, je_native = False\<rparr>
      | External n \<Rightarrow> ext n)"

definition READINESS_REVOKED :: string where
  "READINESS_REVOKED = ''__READINESS_REVOKED__''"

text \<open>\<open>makeSubmitGuard\<close>: the readiness question, a function of the world here; \<open>None\<close>: it throws or is no function.\<close>

definition makeSubmitGuard :: "('w \<Rightarrow> bool option) \<Rightarrow> ('w, unit) io" where
  "makeSubmitGuard canSubmit =
     bindE (gets canSubmit) (\<lambda>v. if v = Some True then ret () else throw (Error READINESS_REVOKED))"

subsection \<open>Compute budget\<close>

definition DEFAULT_FEE :: int where
  "DEFAULT_FEE = 1000"

definition median_fee :: "int list \<Rightarrow> int option" where
  "median_fee fees =
     (let vals = filter (\<lambda>v. 0 < v) fees in
      if vals = [] then None else Some (max (sort vals ! (length vals div 2)) 1))"

text \<open>\<open>est\<close> is the answer of \<open>getPriorityFeeEstimate\<close>, \<open>None\<close> when it is no number.\<close>

definition getPriorityFee :: "bool \<Rightarrow> ('w, rat option) io \<Rightarrow> ('w, int list) io \<Rightarrow> ('w, int) io" where
  "getPriorityFee hasUrl est recent =
     bindE (if hasUrl then tryE est (\<lambda>_. ret None) else ret None) (\<lambda>e.
     case e of
       Some x \<Rightarrow>
         if 0 < x then ret \<lceil>x\<rceil>
         else tryE (bindE recent (\<lambda>fees. ret (case median_fee fees of Some f \<Rightarrow> f | None \<Rightarrow> DEFAULT_FEE))) (\<lambda>_. ret DEFAULT_FEE)
     | None \<Rightarrow> tryE (bindE recent (\<lambda>fees. ret (case median_fee fees of Some f \<Rightarrow> f | None \<Rightarrow> DEFAULT_FEE))) (\<lambda>_. ret DEFAULT_FEE))"

definition cuIxs :: "int \<Rightarrow> int \<Rightarrow> tx" where
  "cuIxs units fee = [SetComputeUnitLimit units, SetComputeUnitPrice (if 0 < fee then fee else DEFAULT_FEE)]"

datatype crank_step = Do_begin | Do_begin_dist | Do_specific_sol | Do_specific_asset | Do_sol_shares | Do_token_shares
  | Do_finalize | Do_close_dist | Do_close_vault | Do_ata

fun CU :: "crank_step \<Rightarrow> int" where
  "CU Do_begin = 150000"
| "CU Do_begin_dist = 150000"
| "CU Do_specific_sol = 120000"
| "CU Do_specific_asset = 200000"
| "CU Do_sol_shares = 250000"
| "CU Do_token_shares = 300000"
| "CU Do_finalize = 120000"
| "CU Do_close_dist = 150000"
| "CU Do_close_vault = 100000"
| "CU Do_ata = 80000"

subsection \<open>Masks and batches\<close>

definition bitSet :: "nat \<Rightarrow> nat \<Rightarrow> bool" where
  "bitSet msk i \<longleftrightarrow> drop_bit i msk AND 1 = 1"

definition fullMask :: "nat \<Rightarrow> nat" where
  "fullMask n = push_bit n 1 - 1"

definition shouldFinalize :: "bool \<Rightarrow> nat \<Rightarrow> nat \<Rightarrow> nat \<Rightarrow> bool \<Rightarrow> nat \<Rightarrow> nat \<Rightarrow> bool" where
  "shouldFinalize isCompleted solPaid planPaid benCount hasPlan assignmentCount stuckCount =
     (if isCompleted then False
      else if 0 < stuckCount then False
      else solPaid = fullMask benCount \<and> (\<not> hasPlan \<or> planPaid = fullMask assignmentCount))"

definition BATCH :: nat where
  "BATCH = 8"

definition MAX_AUTO_MINTS :: nat where
  "MAX_AUTO_MINTS = 16"

text \<open>\<open>arr.slice(i, i + n)\<close> for \<open>i = 0, n, ...\<close>; only ever called with \<open>n = BATCH\<close>.\<close>

function chunk_from :: "'a list \<Rightarrow> nat \<Rightarrow> nat \<Rightarrow> 'a list list" where
  "chunk_from arr n i = (if i < length arr \<and> 0 < n then take n (drop i arr) # chunk_from arr n (i + n) else [])"
  by pat_completeness auto
termination
  by (relation "measure (\<lambda>(arr, n, i). length arr - i)") auto

declare chunk_from.simps [simp del]

definition exec_chunk :: "'a list \<Rightarrow> 'a list list" where
  "exec_chunk arr = chunk_from arr BATCH 0"

definition largestShareIndex :: "beneficiary list \<Rightarrow> nat" where
  "largestShareIndex bs =
     fst (fold (\<lambda>(i, b) (best, bestBps). if bestBps < int (shareBps b) then (i, int (shareBps b)) else (best, bestBps))
       (enumerate 0 bs) (0, - 1))"

definition unpaid_of :: "nat \<Rightarrow> nat \<Rightarrow> nat list" where
  "unpaid_of n msk = filter (\<lambda>i. \<not> bitSet msk i) [0..<n]"

subsection \<open>The services of a run\<close>

record x_vault =
  xv_owner :: pubkey
  xv_interval :: int
  xv_grace :: int
  xv_beneficiaries :: "beneficiary list"
  xv_executed :: bool
  xv_hasPlan :: bool
  xv_openDists :: nat

text \<open>
  Account reads are \<open>fetchNullable\<close>; \<open>xd_holdings\<close> are the token accounts of an owner under a token
  program, each its mint as text and its amount; \<open>xd_accountOwner\<close> is the owner of an account.
\<close>

record 'w exec_deps =
  xd_env :: env
  xd_ext :: "nat \<Rightarrow> js_error"
  xd_decodeKey :: "string \<Rightarrow> exn + pubkey"
  xd_hasUrl :: bool
  xd_estimate :: "('w, rat option) io"
  xd_recentFees :: "('w, int list) io"
  xd_vault :: "pubkey \<Rightarrow> ('w, x_vault option) io"
  xd_heartbeat :: "pubkey \<Rightarrow> ('w, int option) io"
  xd_execLog :: "pubkey \<Rightarrow> ('w, execution_log option) io"
  xd_plan :: "pubkey \<Rightarrow> ('w, asset_plan option) io"
  xd_tokenDist :: "pubkey \<Rightarrow> ('w, token_dist option) io"
  xd_holdings :: "pubkey \<Rightarrow> pubkey \<Rightarrow> ('w, (string \<times> int) list) io"
  xd_accountOwner :: "pubkey \<Rightarrow> ('w, pubkey option) io"
  xd_getAccount :: "pubkey \<Rightarrow> pubkey \<Rightarrow> ('w, int \<times> int option) io"
  xd_sleep :: "int \<Rightarrow> ('w, unit) io"
  xd_now :: "('w, int) io"
  xd_send :: "tx \<Rightarrow> ('w, unit) io"

text \<open>What a run works with: its services, its own guard and the message of its refusal, the payer, where the
  fee is kept, and the vault.\<close>

record 'w crank_run =
  cr_deps :: "'w exec_deps"
  cr_guard :: "('w, unit) io"
  cr_payer :: pubkey
  cr_fee :: "'w \<Rightarrow> int"
  cr_vault :: pubkey
  cr_benefs :: "beneficiary list"
  cr_hasPlan :: bool
  cr_owner :: pubkey
  cr_halt :: string

abbreviation cr_env :: "'w crank_run \<Rightarrow> env" where
  "cr_env R \<equiv> xd_env (cr_deps R)"

abbreviation mint_text :: "'w crank_run \<Rightarrow> pubkey \<Rightarrow> string" where
  "mint_text R mint \<equiv> b58 (cr_env R) mint"

text \<open>Anchor's \<open>fetch\<close>: as \<open>fetchNullable\<close>, but a missing account throws.\<close>

definition fetched :: "('w, 'a option) io \<Rightarrow> ('w, 'a) io" where
  "fetched m = bindE m (\<lambda>a. case a of None \<Rightarrow> throw (Error ''Account does not exist or has no data'') | Some x \<Rightarrow> ret x)"

text \<open>\<open>BN.toNumber\<close>.\<close>

definition bn_toNumber :: "int \<Rightarrow> ('w, int) io" where
  "bn_toNumber x = (if \<bar>x\<bar> \<le> max_safe then ret x else throw (Error ''Number can only safely store up to 53 bits''))"

definition operational :: "'w exec_deps \<Rightarrow> exn \<Rightarrow> bool" where
  "operational K e = isOperationalExecutorError (error_view (xd_ext K) e)"

definition is_revoked :: "'w exec_deps \<Rightarrow> string \<Rightarrow> exn \<Rightarrow> bool" where
  "is_revoked K halt e \<longleftrightarrow> je_message (error_view (xd_ext K) e) = halt"

text \<open>A step's transaction for a fee; the guard, then the submission with the fee of that moment.\<close>

definition crank_tx :: "crank_step \<Rightarrow> instruction list \<Rightarrow> instruction \<Rightarrow> int \<Rightarrow> tx" where
  "crank_tx k pre ix fee = cuIxs (CU k) fee @ pre @ [ix]"

definition guarded_send :: "'w crank_run \<Rightarrow> (int \<Rightarrow> tx) \<Rightarrow> ('w, unit) io" where
  "guarded_send R t = seqE (cr_guard R) (bindE (gets (cr_fee R)) (\<lambda>fee. xd_send (cr_deps R) (t fee)))"

definition ensureAta :: "'w crank_run \<Rightarrow> pubkey \<Rightarrow> pubkey \<Rightarrow> pubkey \<Rightarrow> pubkey \<Rightarrow> ('w, unit) io" where
  "ensureAta R ataKey mint ow programId =
     bindE (xd_accountOwner (cr_deps R) ataKey) (\<lambda>info.
     if info \<noteq> None then ret ()
     else guarded_send R (crank_tx Do_ata [] (CreateAtaIdempotent (cr_payer R) ataKey ow mint programId)))"

text \<open>The catch of a step: a revocation and a fault that is not operational are thrown on.\<close>

definition on_stuck :: "'w crank_run \<Rightarrow> ('w, 'a) io \<Rightarrow> 'a \<Rightarrow> ('w, 'a) io" where
  "on_stuck R m a =
     tryE m (\<lambda>e. if is_revoked (cr_deps R) (cr_halt R) e then throw e
       else if \<not> operational (cr_deps R) e then throw e else ret a)"

record crank_acc =
  ck_stuck :: "string list"
  ck_skipped :: "(string \<times> string) list"

definition markStuck :: "'w crank_run \<Rightarrow> pubkey \<Rightarrow> string \<Rightarrow> crank_acc \<Rightarrow> crank_acc" where
  "markStuck R mint step acc =
     \<lparr>ck_stuck = List.insert (mint_text R mint) (ck_stuck acc), ck_skipped = ck_skipped acc @ [(mint_text R mint, step)]\<rparr>"

definition isStuck :: "'w crank_run \<Rightarrow> pubkey \<Rightarrow> crank_acc \<Rightarrow> bool" where
  "isStuck R mint acc \<longleftrightarrow> mint_text R mint \<in> set (ck_stuck acc)"

subsection \<open>The mints of a vault\<close>

record mint_entry =
  me_program :: pubkey
  me_amount :: int
  me_inPlan :: bool

type_synonym mint_map = "(string \<times> mint_entry) list"

definition add_held :: "pubkey \<Rightarrow> string \<times> int \<Rightarrow> mint_map \<Rightarrow> mint_map" where
  "add_held pid h m =
     (case h of (mint, amt) \<Rightarrow>
      if amt \<le> 0 then m
      else case map_of m mint of
        None \<Rightarrow> jsmap_set mint \<lparr>me_program = pid, me_amount = amt, me_inPlan = False\<rparr> m
      | Some prev \<Rightarrow> jsmap_set mint \<lparr>me_program = pid, me_amount = me_amount prev + amt, me_inPlan = me_inPlan prev\<rparr> m)"

text \<open>\<open>left\<close> attempts remain; \<open>i\<close> were made.\<close>

fun info_retry :: "'w exec_deps \<Rightarrow> pubkey \<Rightarrow> nat \<Rightarrow> nat \<Rightarrow> ('w, pubkey option) io" where
  "info_retry K k 0 i = ret None"
| "info_retry K k (Suc left) i =
     bindE (tryE (xd_accountOwner K k) (\<lambda>e. if operational K e then ret None else throw e)) (\<lambda>acc.
     if acc \<noteq> None then ret acc
     else seqE (if left \<noteq> 0 then xd_sleep K (200 * (int i + 1)) else ret ()) (info_retry K k left (Suc i)))"

definition getAccountInfoRetry :: "'w exec_deps \<Rightarrow> pubkey \<Rightarrow> ('w, pubkey option) io" where
  "getAccountInfoRetry K k = info_retry K k 4 0"

definition add_planned :: "'w exec_deps \<Rightarrow> assignment \<Rightarrow> mint_map \<Rightarrow> ('w, mint_map) io" where
  "add_planned K a m =
     (if a_mint a = default_pubkey then ret m
      else let key = b58 (xd_env K) (a_mint a) in
      case map_of m key of
        Some prev \<Rightarrow> ret (jsmap_set key (prev\<lparr>me_inPlan := True\<rparr>) m)
      | None \<Rightarrow>
          bindE (getAccountInfoRetry K (a_mint a)) (\<lambda>acc.
          ret (case acc of None \<Rightarrow> m | Some pid \<Rightarrow> jsmap_set key \<lparr>me_program = pid, me_amount = 0, me_inPlan = True\<rparr> m)))"

text \<open>The planned mints, then held ones by falling amount up to the cap.\<close>

definition choose_mints :: "mint_map \<Rightarrow> mint_map" where
  "choose_mints info =
     fold (\<lambda>e chosen. if MAX_AUTO_MINTS \<le> length chosen then chosen else chosen @ [e])
       (sort_key (\<lambda>(k, v). - me_amount v) (filter (\<lambda>(k, v). \<not> me_inPlan v) info))
       (filter (\<lambda>(k, v). me_inPlan v) info)"

definition collectMints :: "'w exec_deps \<Rightarrow> pubkey \<Rightarrow> asset_plan option \<Rightarrow> ('w, (pubkey \<times> pubkey) list) io" where
  "collectMints K vault plan =
     bindE (forE [token_program (xd_env K), token_2022_program (xd_env K)] [] (\<lambda>pid m.
       bindE (xd_holdings K vault pid) (\<lambda>held. ret (fold (add_held pid) held m)))) (\<lambda>held.
     bindE (case plan of None \<Rightarrow> ret held | Some p \<Rightarrow> forE (assignments p) held (add_planned K)) (\<lambda>info.
     forE (choose_mints info) [] (\<lambda>(key, v) out.
       bindE (liftE (xd_decodeKey K key)) (\<lambda>mint. ret (out @ [(mint, me_program v)])))))"

subsection \<open>The instructions\<close>

definition executionPda :: "'w crank_run \<Rightarrow> pubkey" where
  "executionPda R = pda (cr_env R) [seed ''execution'', cr_vault R]"

definition heartbeatPda :: "'w crank_run \<Rightarrow> pubkey" where
  "heartbeatPda R = pda (cr_env R) [seed ''heartbeat'', cr_vault R]"

definition assetPlanPda :: "'w crank_run \<Rightarrow> pubkey" where
  "assetPlanPda R = pda (cr_env R) [seed ''asset_plan'', cr_vault R]"

definition tokenDistPda :: "'w crank_run \<Rightarrow> pubkey \<Rightarrow> pubkey" where
  "tokenDistPda R mint = pda (cr_env R) [seed ''token_dist'', cr_vault R, mint]"

definition plan_key :: "'w crank_run \<Rightarrow> pubkey option" where
  "plan_key R = (if cr_hasPlan R then Some (assetPlanPda R) else None)"

definition x_begin_ix :: "'w crank_run \<Rightarrow> instruction" where
  "x_begin_ix R = ProgIx BeginExecution
     [(Payer, Some (cr_payer R)), (VaultConfig, Some (cr_vault R)), (HeartbeatRecord, Some (heartbeatPda R)),
      (ExecutionLog, Some (executionPda R)), (AssetPlan, plan_key R), (SystemProgram, Some (system_program (cr_env R)))] []"

definition x_begin_dist_ix :: "'w crank_run \<Rightarrow> pubkey \<Rightarrow> pubkey \<Rightarrow> instruction" where
  "x_begin_dist_ix R mint vaultAta = ProgIx BeginTokenDist
     [(Payer, Some (cr_payer R)), (VaultConfig, Some (cr_vault R)), (ExecutionLog, Some (executionPda R)),
      (Mint, Some mint), (VaultAta, Some vaultAta), (AssetPlan, plan_key R),
      (TokenDist, Some (tokenDistPda R mint)), (SystemProgram, Some (system_program (cr_env R)))] []"

definition x_specific_sol_ix :: "'w crank_run \<Rightarrow> nat \<Rightarrow> pubkey \<Rightarrow> instruction" where
  "x_specific_sol_ix R j benef = ProgIx (ExecuteSpecificSol j)
     [(Payer, Some (cr_payer R)), (VaultConfig, Some (cr_vault R)), (ExecutionLog, Some (executionPda R)),
      (AssetPlan, Some (assetPlanPda R)), (Beneficiary, Some benef)] []"

definition x_specific_asset_ix :: "'w crank_run \<Rightarrow> nat \<Rightarrow> pubkey \<Rightarrow> pubkey \<Rightarrow> pubkey \<Rightarrow> pubkey \<Rightarrow> instruction" where
  "x_specific_asset_ix R j mint vaultAta benAta programId = ProgIx (ExecuteSpecificAsset j)
     [(Payer, Some (cr_payer R)), (VaultConfig, Some (cr_vault R)), (ExecutionLog, Some (executionPda R)),
      (AssetPlan, Some (assetPlanPda R)), (Mint, Some mint), (TokenDist, Some (tokenDistPda R mint)),
      (VaultAta, Some vaultAta), (BeneficiaryAta, Some benAta), (TokenProgram, Some programId)] []"

definition x_sol_shares_ix :: "'w crank_run \<Rightarrow> nat list \<Rightarrow> pubkey list \<Rightarrow> instruction" where
  "x_sol_shares_ix R part wallets = ProgIx (ExecuteSolShares (buffer_from part))
     [(Payer, Some (cr_payer R)), (VaultConfig, Some (cr_vault R)), (ExecutionLog, Some (executionPda R))]
     (map writable wallets)"

definition x_finalize_ix :: "'w crank_run \<Rightarrow> instruction" where
  "x_finalize_ix R = ProgIx FinalizeExecution
     [(Payer, Some (cr_payer R)), (VaultConfig, Some (cr_vault R)), (ExecutionLog, Some (executionPda R)), (AssetPlan, plan_key R)] []"

definition x_token_shares_ix :: "'w crank_run \<Rightarrow> pubkey \<Rightarrow> nat list \<Rightarrow> pubkey \<Rightarrow> pubkey \<Rightarrow> pubkey list \<Rightarrow> instruction" where
  "x_token_shares_ix R mint part vaultAta programId atas = ProgIx (ExecuteTokenShares (buffer_from part))
     [(Payer, Some (cr_payer R)), (VaultConfig, Some (cr_vault R)), (TokenDist, Some (tokenDistPda R mint)),
      (Mint, Some mint), (VaultAta, Some vaultAta), (TokenProgram, Some programId)]
     (map writable atas)"

definition x_close_dist_ix :: "'w crank_run \<Rightarrow> pubkey \<Rightarrow> pubkey \<Rightarrow> pubkey option \<Rightarrow> pubkey \<Rightarrow> instruction" where
  "x_close_dist_ix R mint vaultAta dustAta programId = ProgIx CloseTokenDist
     [(Payer, Some (cr_payer R)), (Owner, Some (cr_owner R)), (VaultConfig, Some (cr_vault R)), (Mint, Some mint),
      (VaultAta, Some vaultAta), (TokenDist, Some (tokenDistPda R mint)), (LargestBenefAta, dustAta),
      (TokenProgram, Some programId)] []"

subsection \<open>The steps of the crank\<close>

definition x_ata :: "'w crank_run \<Rightarrow> pubkey \<Rightarrow> pubkey \<Rightarrow> bool \<Rightarrow> pubkey \<Rightarrow> ('w, pubkey) io" where
  "x_ata R mint ow allowOffCurve programId = liftE (ata (cr_env R) mint ow allowOffCurve programId)"

definition wallet_at :: "'w crank_run \<Rightarrow> nat \<Rightarrow> ('w, pubkey) io" where
  "wallet_at R i = (if i < length (cr_benefs R) then ret (wallet (cr_benefs R ! i)) else throw TypeError)"

definition begin_step :: "'w crank_run \<Rightarrow> ('w, unit) io" where
  "begin_step R =
     bindE (xd_execLog (cr_deps R) (executionPda R)) (\<lambda>execLog.
     if execLog \<noteq> None then ret ()
     else seqE (guarded_send R (crank_tx Do_begin [] (x_begin_ix R)))
       (bindE (fetched (xd_execLog (cr_deps R) (executionPda R))) (\<lambda>_. ret ())))"

definition begin_dist_step :: "'w crank_run \<Rightarrow> (pubkey \<times> pubkey) list \<Rightarrow> crank_acc \<Rightarrow> ('w, crank_acc) io" where
  "begin_dist_step R mints acc =
     forE mints acc (\<lambda>(mint, programId) acc.
       bindE (xd_tokenDist (cr_deps R) (tokenDistPda R mint)) (\<lambda>td.
       if td \<noteq> None then ret acc
       else on_stuck R
         (bindE (x_ata R mint (cr_vault R) True programId) (\<lambda>vaultAta.
          seqE (ensureAta R vaultAta mint (cr_vault R) programId) (
          seqE (guarded_send R (crank_tx Do_begin_dist [] (x_begin_dist_ix R mint vaultAta)))
          (ret acc))))
         (markStuck R mint ''begin_token_dist'' acc)))"

definition pay_bequest ::
  "'w crank_run \<Rightarrow> (pubkey \<times> pubkey) list \<Rightarrow> nat \<Rightarrow> assignment \<Rightarrow> pubkey \<Rightarrow> crank_acc \<Rightarrow> ('w, crank_acc) io" where
  "pay_bequest R mints j a benWallet acc =
     (if a_mint a = default_pubkey then
        on_stuck R (seqE (guarded_send R (crank_tx Do_specific_sol [] (x_specific_sol_ix R j benWallet))) (ret acc))
          (acc\<lparr>ck_skipped := ck_skipped acc @ [(''SOL'', ''execute_specific_sol'')]\<rparr>)
      else
        on_stuck R
          (let programId = (case map_of mints (a_mint a) of None \<Rightarrow> token_program (cr_env R) | Some pid \<Rightarrow> pid) in
           bindE (x_ata R (a_mint a) (cr_vault R) True programId) (\<lambda>vaultAta.
           bindE (x_ata R (a_mint a) benWallet False programId) (\<lambda>benAta.
           seqE (ensureAta R benAta (a_mint a) benWallet programId) (
           seqE (guarded_send R (crank_tx Do_specific_asset [] (x_specific_asset_ix R j (a_mint a) vaultAta benAta programId)))
           (ret acc)))))
          (markStuck R (a_mint a) ''execute_specific_asset'' acc))"

definition bequest_step :: "'w crank_run \<Rightarrow> (pubkey \<times> pubkey) list \<Rightarrow> asset_plan option \<Rightarrow> crank_acc \<Rightarrow> ('w, crank_acc) io" where
  "bequest_step R mints plan acc =
     (case plan of
        None \<Rightarrow> ret acc
      | Some p \<Rightarrow>
          forE (enumerate 0 (assignments p)) acc (\<lambda>(j, a) acc.
            if bitSet (ap_paidMask p) j then ret acc
            else if a_mint a \<noteq> default_pubkey \<and> isStuck R (a_mint a) acc then ret acc
            else bindE (wallet_at R (beneficiaryIndex a)) (\<lambda>benWallet. pay_bequest R mints j a benWallet acc)))"

definition sol_step :: "'w crank_run \<Rightarrow> ('w, unit) io" where
  "sol_step R =
     bindE (fetched (xd_execLog (cr_deps R) (executionPda R))) (\<lambda>execLog.
     forE (exec_chunk (unpaid_of (length (cr_benefs R)) (solPaidMask execLog))) () (\<lambda>part _.
       guarded_send R (crank_tx Do_sol_shares [] (x_sol_shares_ix R part (map (\<lambda>i. wallet (cr_benefs R ! i)) part)))))"

definition finalize_step :: "'w crank_run \<Rightarrow> crank_acc \<Rightarrow> ('w, unit) io" where
  "finalize_step R acc =
     bindE (fetched (xd_execLog (cr_deps R) (executionPda R))) (\<lambda>execLog.
     bindE (if cr_hasPlan R then bindE (fetched (xd_plan (cr_deps R) (assetPlanPda R))) (\<lambda>p. ret (Some p)) else ret None) (\<lambda>plan.
     if shouldFinalize (completed execLog) (solPaidMask execLog) (case plan of None \<Rightarrow> 0 | Some p \<Rightarrow> ap_paidMask p)
          (length (cr_benefs R)) (cr_hasPlan R) (case plan of None \<Rightarrow> 0 | Some p \<Rightarrow> length (assignments p)) (length (ck_stuck acc))
     then guarded_send R (crank_tx Do_finalize [] (x_finalize_ix R))
     else ret ()))"

definition share_atas :: "'w crank_run \<Rightarrow> pubkey \<Rightarrow> pubkey \<Rightarrow> nat list \<Rightarrow> ('w, pubkey list) io" where
  "share_atas R mint programId part =
     forE part [] (\<lambda>i remaining.
       bindE (x_ata R mint (wallet (cr_benefs R ! i)) False programId) (\<lambda>benAta.
       seqE (ensureAta R benAta mint (wallet (cr_benefs R ! i)) programId) (ret (remaining @ [benAta]))))"

definition token_shares_of :: "'w crank_run \<Rightarrow> pubkey \<Rightarrow> pubkey \<Rightarrow> token_dist \<Rightarrow> ('w, unit) io" where
  "token_shares_of R mint programId td =
     bindE (x_ata R mint (cr_vault R) True programId) (\<lambda>vaultAta.
     forE (exec_chunk (unpaid_of (length (cr_benefs R)) (td_paidMask td))) () (\<lambda>part _.
       bindE (share_atas R mint programId part) (\<lambda>remaining.
       guarded_send R (crank_tx Do_token_shares [] (x_token_shares_ix R mint part vaultAta programId remaining)))))"

definition token_step :: "'w crank_run \<Rightarrow> (pubkey \<times> pubkey) list \<Rightarrow> crank_acc \<Rightarrow> ('w, crank_acc) io" where
  "token_step R mints acc =
     forE mints acc (\<lambda>(mint, programId) acc.
       if isStuck R mint acc then ret acc
       else
       bindE (xd_tokenDist (cr_deps R) (tokenDistPda R mint)) (\<lambda>td.
       case td of
         None \<Rightarrow> ret acc
       | Some d \<Rightarrow>
           on_stuck R (seqE (token_shares_of R mint programId d) (ret acc)) (markStuck R mint ''execute_token_shares'' acc)))"

text \<open>The vault account's balance and withheld fees; a missing account or an operational failure is no dust.\<close>

definition vault_dust :: "'w crank_run \<Rightarrow> pubkey \<Rightarrow> pubkey \<Rightarrow> ('w, int \<times> int) io" where
  "vault_dust R vaultAta programId =
     tryE
       (bindE (xd_getAccount (cr_deps R) vaultAta programId) (\<lambda>(amt, withheld).
        ret (amt, case withheld of None \<Rightarrow> 0 | Some f \<Rightarrow> f)))
       (\<lambda>e. if je_name (error_view (xd_ext (cr_deps R)) e) \<in> {''TokenAccountNotFoundError'', ''TokenInvalidAccountOwnerError''}
              \<or> operational (cr_deps R) e
            then ret (0, 0) else throw e)"

definition close_dist :: "'w crank_run \<Rightarrow> pubkey \<Rightarrow> pubkey \<Rightarrow> ('w, unit) io" where
  "close_dist R mint programId =
     bindE (x_ata R mint (cr_vault R) True programId) (\<lambda>vaultAta.
     bindE (wallet_at R (largestShareIndex (cr_benefs R))) (\<lambda>maxWallet.
     bindE (vault_dust R vaultAta programId) (\<lambda>(dust, withheld).
     bindE (if 0 < dust then
              bindE (x_ata R mint maxWallet False programId) (\<lambda>a.
              seqE (ensureAta R a mint maxWallet programId) (ret (Some a)))
            else ret None) (\<lambda>dustAta.
     guarded_send R (crank_tx Do_close_dist
       (if 0 < withheld then [HarvestWithheldTokensToMint mint [vaultAta] programId] else [])
       (x_close_dist_ix R mint vaultAta dustAta programId))))))"

definition close_step :: "'w crank_run \<Rightarrow> bool \<Rightarrow> (pubkey \<times> pubkey) list \<Rightarrow> crank_acc \<Rightarrow> ('w, crank_acc) io" where
  "close_step R isExecuted mints acc =
     (if \<not> isExecuted then ret acc
      else forE mints acc (\<lambda>(mint, programId) acc.
        if isStuck R mint acc then ret acc
        else
        bindE (xd_tokenDist (cr_deps R) (tokenDistPda R mint)) (\<lambda>td.
        case td of
          None \<Rightarrow> ret acc
        | Some d \<Rightarrow>
            if td_paidMask d \<noteq> fullMask (length (cr_benefs R)) then ret acc
            else on_stuck R (seqE (close_dist R mint programId) (ret acc)) (markStuck R mint ''close_token_dist'' acc))))"

subsection \<open>A run\<close>

text \<open>
  The module's memory: the signing key in use and the fee of the latest run, the keypair and its text
  that were validated at boot, and the vaults being cranked.
\<close>

record exec_world = poll_world +
  xw_cached :: "pubkey option"
  xw_priorityFee :: int
  xw_staticKeypair :: "pubkey option"
  xw_staticCranker :: "string option"
  xw_inFlight :: "string list"

record exec_result =
  er_action :: string
  er_skipped :: "(string \<times> string) list"

definition only :: "string \<Rightarrow> exec_result" where
  "only a = \<lparr>er_action = a, er_skipped = []\<rparr>"

text \<open>Steps 1 to 7 of a vault that is due.\<close>

definition crank_steps :: "'w crank_run \<Rightarrow> ('w, exec_result) io" where
  "crank_steps R =
     seqE (begin_step R) (
     bindE (if cr_hasPlan R then bindE (fetched (xd_plan (cr_deps R) (assetPlanPda R))) (\<lambda>p. ret (Some p)) else ret None) (\<lambda>plan.
     bindE (collectMints (cr_deps R) (cr_vault R) plan) (\<lambda>mints.
     bindE (begin_dist_step R mints \<lparr>ck_stuck = [], ck_skipped = []\<rparr>) (\<lambda>acc.
     bindE (bequest_step R mints plan acc) (\<lambda>acc.
     seqE (sol_step R) (
     seqE (finalize_step R acc) (
     bindE (token_step R mints acc) (\<lambda>acc.
     bindE (fetched (xd_vault (cr_deps R) (cr_vault R))) (\<lambda>finalized.
     bindE (close_step R (xv_executed finalized) mints acc) (\<lambda>acc.
     bindE (fetched (xd_vault (cr_deps R) (cr_vault R))) (\<lambda>final.
     ret \<lparr>er_action = (if xv_executed final then ''executed'' else ''cranked''), er_skipped = ck_skipped acc\<rparr>)))))))))))"

definition runExecutorInner ::
  "('e exec_world_scheme) exec_deps \<Rightarrow> pubkey \<Rightarrow> string \<Rightarrow> ('e exec_world_scheme \<Rightarrow> bool option) \<Rightarrow> ('e exec_world_scheme, exec_result) io" where
  "runExecutorInner K payer vaultStr canSubmit =
     bindE (getPriorityFee (xd_hasUrl K) (xd_estimate K) (xd_recentFees K)) (\<lambda>fee.
     seqE (modify (\<lambda>w. w\<lparr>xw_priorityFee := fee\<rparr>)) (
     bindE (liftE (xd_decodeKey K vaultStr)) (\<lambda>vault.
     bindE (xd_vault K vault) (\<lambda>cfg.
     case cfg of
       None \<Rightarrow> ret (only ''no_vault'')
     | Some c \<Rightarrow>
         if xv_executed c then ret (only ''already_executed'')
         else
         bindE (fetched (xd_heartbeat K (pda (xd_env K) [seed ''heartbeat'', vault]))) (\<lambda>hb.
         bindE (bn_toNumber hb) (\<lambda>a. bindE (bn_toNumber (xv_interval c)) (\<lambda>b. bindE (bn_toNumber (xv_grace c)) (\<lambda>g.
         let deadline = js_add (js_add a b) g in
         bindE (xd_now K) (\<lambda>now.
         if now < deadline then ret (only ''not_due'')
         else crank_steps
           \<lparr>cr_deps = K, cr_guard = makeSubmitGuard canSubmit, cr_payer = payer, cr_fee = xw_priorityFee, cr_vault = vault,
            cr_benefs = xv_beneficiaries c, cr_hasPlan = xv_hasPlan c, cr_owner = xv_owner c,
            cr_halt = READINESS_REVOKED\<rparr>)))))))))"

subsection \<open>The context and the lock\<close>

text \<open>\<open>sc_read\<close>: the key of the file, or \<open>None\<close> when it cannot be read or parsed.\<close>

record 'w signer_config =
  sc_enabled :: bool
  sc_path :: string
  sc_expected :: string
  sc_text :: "pubkey \<Rightarrow> string"
  sc_read :: "('w, pubkey option) io"

definition getCtx :: "('e exec_world_scheme) signer_config \<Rightarrow> ('e exec_world_scheme, pubkey option) io" where
  "getCtx S =
     bindE (gets xw_cached) (\<lambda>cached.
     if cached \<noteq> None then ret cached
     else if \<not> sc_enabled S \<or> sc_path S = [] then ret None
     else
     bindE (gets xw_staticKeypair) (\<lambda>pinned.
     bindE (if pinned \<noteq> None then ret pinned
       else bindE (sc_read S) (\<lambda>k.
            bindE (gets xw_staticCranker) (\<lambda>expected.
            ret (case k of None \<Rightarrow> None
                 | Some key \<Rightarrow> (case expected of None \<Rightarrow> Some key | Some x \<Rightarrow> if x \<noteq> [] \<and> sc_text S key \<noteq> x then None else Some key))))) (\<lambda>cranker.
     if cranker = None then ret None
     else seqE (modify (\<lambda>w. w\<lparr>xw_cached := cranker\<rparr>)) (ret cranker))))"

text \<open>\<open>loadCrankerKeypair\<close> pins the key before it is compared with the expected one.\<close>

definition executorStaticConfig :: "('e exec_world_scheme) signer_config \<Rightarrow> ('e exec_world_scheme, static_check) io" where
  "executorStaticConfig S =
     (if \<not> sc_enabled S \<or> sc_path S = []
      then ret (validateExecutorStaticConfig (sc_enabled S) (sc_path S) (if sc_expected S = [] then None else Some (sc_expected S)) (\<lambda>_. Inr None))
      else
      bindE (sc_read S) (\<lambda>k.
      seqE (case k of None \<Rightarrow> ret () | Some key \<Rightarrow> modify (\<lambda>w. w\<lparr>xw_staticKeypair := Some key\<rparr>)) (
      let res = validateExecutorStaticConfig True (sc_path S) (if sc_expected S = [] then None else Some (sc_expected S))
            (\<lambda>_. case k of None \<Rightarrow> Inl (Error ''unreadable'') | Some key \<Rightarrow> Inr (Some (sc_text S key))) in
      seqE (case k of
              None \<Rightarrow> ret ()
            | Some key \<Rightarrow> modify (\<lambda>w. w\<lparr>xw_staticCranker := Some (sc_text S key)\<rparr>))
        (ret res))))"

definition runExecutor ::
  "('e exec_world_scheme) signer_config \<Rightarrow> ('e exec_world_scheme) exec_deps \<Rightarrow> string \<Rightarrow> ('e exec_world_scheme \<Rightarrow> bool option)
   \<Rightarrow> ('e exec_world_scheme, exec_result) io" where
  "runExecutor S K vaultStr canSubmit =
     bindE (getCtx S) (\<lambda>ctx.
     case ctx of
       None \<Rightarrow> ret (only ''executor_disabled'')
     | Some payer \<Rightarrow>
         bindE (gets (\<lambda>w. vaultStr \<in> set (xw_inFlight w))) (\<lambda>busy.
         if busy then ret (only ''busy'')
         else
         seqE (modify (\<lambda>w. w\<lparr>xw_inFlight := vaultStr # xw_inFlight w\<rparr>))
         (finallyE
           (tryE (runExecutorInner K payer vaultStr canSubmit)
             (\<lambda>e. if is_revoked K READINESS_REVOKED e then ret (only ''aborted_readiness_revoked'') else throw e))
           (\<lambda>w. w\<lparr>xw_inFlight := filter (\<lambda>v. v \<noteq> vaultStr) (xw_inFlight w)\<rparr>))))"

text \<open>The remote checks; without the executor enabled there is nothing to check.\<close>

definition checkExecutorRuntime ::
  "('e exec_world_scheme) signer_config \<Rightarrow> (exn \<Rightarrow> string) \<Rightarrow> ('e exec_world_scheme, program_answer) io \<Rightarrow> bool
   \<Rightarrow> (string \<Rightarrow> ('e exec_world_scheme, rat option) io) \<Rightarrow> rat \<Rightarrow> rat \<Rightarrow> ('e exec_world_scheme, exec_check) io" where
  "checkExecutorRuntime S \<mu> getProgram requireExecutable balanceOf minLamports warnLamports =
     (if \<not> sc_enabled S then ret ((exec_down ''executor_disabled'')\<lparr>ex_disabled := True\<rparr>)
      else bindE (gets xw_staticCranker) (\<lambda>cranker.
        checkExecutorRuntimeReadiness \<mu> cranker (bindE (checkProgramAccount \<mu> getProgram requireExecutable) (\<lambda>p. ret (Some p)))
          balanceOf minLamports warnLamports))"

end
