(* ===== verification/Srv_Gate.thy ===== *)
theory Srv_Gate
  imports Srv_Auth
begin

text \<open>
  The gates before the registration handlers: the fixed-window rate limiter
  (\<open>writeRateLimiter.js\<close>), the one-way legacy window (\<open>transitionState.js\<close>), the secrets
  (\<open>secretGate.js\<close>) and the boot checks of the mode (\<open>config.js\<close>).
\<close>

subsection \<open>Rate limiter\<close>

record bucket =
  bk_count :: nat
  bk_resetAt :: int

type_synonym buckets = "(string \<times> bucket) list"

record gate_world = srv_world +
  gw_ms :: int
  gw_ip :: buckets
  gw_owner :: buckets
  gw_vault :: buckets
  gw_token :: buckets
  gw_admin :: buckets
  gw_expired :: bool
  gw_firstExpiryAt :: "int option"

definition IP_WINDOW_MS :: int where "IP_WINDOW_MS = 60000"
definition IP_MAX :: nat where "IP_MAX = 30"
definition FACET_WINDOW_MS :: int where "FACET_WINDOW_MS = 600000"
definition OWNER_MAX :: nat where "OWNER_MAX = 10"
definition VAULT_MAX :: nat where "VAULT_MAX = 10"
definition TOKEN_MAX :: nat where "TOKEN_MAX = 6"
definition ADMIN_WINDOW_MS :: int where "ADMIN_WINDOW_MS = 60000"
definition ADMIN_MAX :: nat where "ADMIN_MAX = 20"
definition MAP_CAP :: nat where "MAP_CAP = 50000"

definition pruneMap :: "int \<Rightarrow> buckets \<Rightarrow> buckets" where
  "pruneMap t m = filter (\<lambda>(k, b). \<not> bk_resetAt b \<le> t) m"

datatype limit_result = Allowed | Limited int

definition live_bucket :: "int \<Rightarrow> int \<Rightarrow> buckets \<Rightarrow> string \<Rightarrow> bucket" where
  "live_bucket t windowMs m key =
     (case map_of m key of
        Some b \<Rightarrow> if bk_resetAt b \<le> t then \<lparr>bk_count = 0, bk_resetAt = t + windowMs\<rparr> else b
      | None \<Rightarrow> \<lparr>bk_count = 0, bk_resetAt = t + windowMs\<rparr>)"

definition hit :: "int \<Rightarrow> buckets \<Rightarrow> string \<Rightarrow> nat \<Rightarrow> int \<Rightarrow> limit_result \<times> buckets" where
  "hit t m0 key limit windowMs =
     (let m = (if MAP_CAP < length m0 then pruneMap t m0 else m0);
          b0 = live_bucket t windowMs m key;
          b = b0\<lparr>bk_count := bk_count b0 + 1\<rparr>;
          m' = jsmap_set key b m
      in if limit < bk_count b then (Limited (max 1 \<lceil>of_int (bk_resetAt b - t) / (1000 :: rat)\<rceil>), m') else (Allowed, m'))"

definition checkIp :: "string \<Rightarrow> ('e gate_world_scheme, limit_result) io" where
  "checkIp k w = (let (r, m) = hit (gw_ms w) (gw_ip w) k IP_MAX IP_WINDOW_MS in (Inr r, w\<lparr>gw_ip := m\<rparr>))"

definition checkOwner :: "string \<Rightarrow> ('e gate_world_scheme, limit_result) io" where
  "checkOwner k w = (let (r, m) = hit (gw_ms w) (gw_owner w) k OWNER_MAX FACET_WINDOW_MS in (Inr r, w\<lparr>gw_owner := m\<rparr>))"

definition checkVault :: "string \<Rightarrow> ('e gate_world_scheme, limit_result) io" where
  "checkVault k w = (let (r, m) = hit (gw_ms w) (gw_vault w) k VAULT_MAX FACET_WINDOW_MS in (Inr r, w\<lparr>gw_vault := m\<rparr>))"

definition checkTokenHash :: "string \<Rightarrow> ('e gate_world_scheme, limit_result) io" where
  "checkTokenHash k w = (let (r, m) = hit (gw_ms w) (gw_token w) k TOKEN_MAX FACET_WINDOW_MS in (Inr r, w\<lparr>gw_token := m\<rparr>))"

definition checkAdminIp :: "string \<Rightarrow> ('e gate_world_scheme, limit_result) io" where
  "checkAdminIp k w = (let (r, m) = hit (gw_ms w) (gw_admin w) k ADMIN_MAX ADMIN_WINDOW_MS in (Inr r, w\<lparr>gw_admin := m\<rparr>))"

text \<open>A facet that is absent is skipped; the first failure is the answer.\<close>

definition facet :: "(string \<Rightarrow> ('w, limit_result) io) \<Rightarrow> string option \<Rightarrow> ('w, limit_result) io \<Rightarrow> ('w, limit_result) io" where
  "facet check k rest =
     (case k of None \<Rightarrow> rest
      | Some s \<Rightarrow> bindE (check s) (\<lambda>r. case r of Limited n \<Rightarrow> ret r | Allowed \<Rightarrow> rest))"

definition checkFacets :: "string option \<Rightarrow> string option \<Rightarrow> string option \<Rightarrow> ('e gate_world_scheme, limit_result) io" where
  "checkFacets ow vault tokenHash =
     facet checkOwner ow (facet checkVault vault (facet checkTokenHash tokenHash (ret Allowed)))"

definition sweep :: "('e gate_world_scheme, unit) io" where
  "sweep = modify (\<lambda>w. w\<lparr>gw_ip := pruneMap (gw_ms w) (gw_ip w), gw_owner := pruneMap (gw_ms w) (gw_owner w),
     gw_vault := pruneMap (gw_ms w) (gw_vault w), gw_token := pruneMap (gw_ms w) (gw_token w),
     gw_admin := pruneMap (gw_ms w) (gw_admin w)\<rparr>)"

subsection \<open>Transition window\<close>

datatype auth_mode = Legacy_only | Dual_accept | Signed_required

record transition_view =
  tv_configured :: auth_mode
  tv_effective :: auth_mode
  tv_legacyAccepting :: bool
  tv_until :: "int option"
  tv_expired :: bool
  tv_secondsLeft :: int

definition transition_get :: "auth_mode \<Rightarrow> int option \<Rightarrow> ('e gate_world_scheme, transition_view) io" where
  "transition_get md until =
     bindE (gets sw_now) (\<lambda>t.
     seqE (modify (\<lambda>w. if md = Dual_accept \<and> (case until of None \<Rightarrow> False | Some u \<Rightarrow> u \<le> t) \<and> \<not> gw_expired w
                         then w\<lparr>gw_expired := True, gw_firstExpiryAt := Some t\<rparr> else w))
     (bindE (gets gw_expired) (\<lambda>expired.
     let accepting = (md = Legacy_only \<or> md = Dual_accept \<and> (case until of None \<Rightarrow> False | Some u \<Rightarrow> t < u) \<and> \<not> expired) in
     ret \<lparr>tv_configured = md,
          tv_effective = (if md = Signed_required then Signed_required else if md = Legacy_only then Legacy_only
                          else if accepting then Dual_accept else Signed_required),
          tv_legacyAccepting = accepting, tv_until = until, tv_expired = (md = Dual_accept \<and> expired),
          tv_secondsLeft = (case until of Some u \<Rightarrow> if md = Dual_accept \<and> \<not> expired then max 0 (u - t) else 0 | None \<Rightarrow> 0)\<rparr>)))"

subsection \<open>Secrets\<close>

definition constantTimeEqual :: "string option \<Rightarrow> string option \<Rightarrow> bool" where
  "constantTimeEqual provided expected =
     (case (provided, expected) of
        (Some p, Some e) \<Rightarrow> length p = length e \<and> length (utf8 p) = length (utf8 e) \<and> utf8 p = utf8 e
      | _ \<Rightarrow> False)"

definition legacySecretOk :: "string \<Rightarrow> string option \<Rightarrow> bool" where
  "legacySecretOk secret header = (if secret = [] then False else constantTimeEqual header (Some secret))"

datatype gate_answer = Gate_next | Gate_unauthorized | Gate_limited int

definition adminGate :: "string \<Rightarrow> bool \<Rightarrow> string \<Rightarrow> string option \<Rightarrow> ('e gate_world_scheme, gate_answer) io" where
  "adminGate adminSecret isDev ip header =
     bindE (checkAdminIp ip) (\<lambda>rl.
     case rl of Limited n \<Rightarrow> ret (Gate_limited n)
     | Allowed \<Rightarrow>
         ret (if adminSecret = [] then (if isDev then Gate_next else Gate_unauthorized)
              else if constantTimeEqual header (Some adminSecret) then Gate_next else Gate_unauthorized))"

subsection \<open>Boot checks of the registration mode\<close>

definition resolveAuthMode :: "bool \<Rightarrow> string \<Rightarrow> exn + auth_mode" where
  "resolveAuthMode isDev raw =
     (if raw = [] then if isDev then Inr Legacy_only else Inl (Error ''REGISTRATION_AUTH_MODE is required'')
      else if raw = ''legacy'' then Inr Legacy_only
      else if raw = ''dual'' then Inr Dual_accept
      else if raw = ''signed'' then Inr Signed_required
      else Inl (Error ''Invalid REGISTRATION_AUTH_MODE''))"

definition canonical_digits :: "string \<Rightarrow> bool" where
  "canonical_digits s \<longleftrightarrow> digits s \<and> s \<noteq> [] \<and> hd s \<noteq> CHR ''0''"

definition parseLegacyAcceptUntil :: "string \<Rightarrow> exn + int option" where
  "parseLegacyAcceptUntil raw =
     (if raw = [] then Inr None
      else if \<not> canonical_digits raw \<or> \<not> is_safe_integer (int (str_nat raw))
      then Inl (Error ''Invalid REGISTRATION_LEGACY_ACCEPT_UNTIL'')
      else Inr (Some (int (str_nat raw))))"

record srv_config =
  cf_isDev :: bool
  cf_authMode :: string
  cf_cluster :: string
  cf_programId :: string
  cf_registerSecret :: string
  cf_adminSecret :: string
  cf_audience :: string
  cf_legacyUntil :: string

definition MAX_LEGACY_WINDOW_SEC :: int where
  "MAX_LEGACY_WINDOW_SEC = 30 * 24 * 60 * 60"

text \<open>\<open>Inr\<close> the resolved mode and cutoff, \<open>Inl\<close> what aborts the boot.\<close>

definition assertRegistrationAuthConfig :: "(string \<Rightarrow> string option) \<Rightarrow> srv_config \<Rightarrow> int \<Rightarrow> exn + auth_mode \<times> int option" where
  "assertRegistrationAuthConfig canon c now =
     (case resolveAuthMode (cf_isDev c) (cf_authMode c) of
        Inl e \<Rightarrow> Inl e
      | Inr md \<Rightarrow>
          if md = Legacy_only \<and> \<not> cf_isDev c then Inl (Error ''legacy outside development'')
          else if cf_cluster c = ''mainnet-beta'' \<and> md \<noteq> Signed_required then Inl (Error ''mainnet must be signed'')
          else if (md = Legacy_only \<or> md = Dual_accept) \<and> cf_registerSecret c = [] \<and> \<not> cf_isDev c
          then Inl (Error ''REGISTER_SECRET is required'')
          else if cf_adminSecret c = [] \<and> \<not> cf_isDev c then Inl (Error ''ADMIN_SECRET is required'')
          else if cf_adminSecret c \<noteq> [] \<and> cf_registerSecret c \<noteq> [] \<and> cf_adminSecret c = cf_registerSecret c
          then Inl (Error ''ADMIN_SECRET must not equal REGISTER_SECRET'')
          else if cf_cluster c \<noteq> ''devnet'' \<and> cf_cluster c \<noteq> ''mainnet-beta'' then Inl (Error ''EXPECTED_CLUSTER'')
          else if canon (cf_programId c) = None then Inl (Error ''PROGRAM_ID'')
          else if cf_audience c \<noteq> NOTIFY_AUDIENCE then Inl (Error ''audience'')
          else if md = Dual_accept then
            (case parseLegacyAcceptUntil (cf_legacyUntil c) of
               Inl e \<Rightarrow> Inl e
             | Inr None \<Rightarrow> Inl (Error ''REGISTRATION_LEGACY_ACCEPT_UNTIL is required'')
             | Inr (Some until) \<Rightarrow>
                 if now < until \<and> MAX_LEGACY_WINDOW_SEC < until - now then Inl (Error ''at most 30 days'')
                 else Inr (md, Some until))
          else if cf_legacyUntil c \<noteq> [] then Inl (Error ''REGISTRATION_LEGACY_ACCEPT_UNTIL must be absent'')
          else Inr (md, None))"

end
