(* ===== verification/Srv_Routes.thy ===== *)
theory Srv_Routes
  imports Srv_Gate
begin

text \<open>
  The handlers of \<open>/register\<close> and \<open>/deregister\<close> (\<open>registrationRoutes.js\<close>) with the legacy
  ownership check (\<open>solana.js\<close>). Metrics and logs are left out: neither can change an answer.
\<close>

subsection \<open>Requests and answers\<close>

record http_request =
  hq_ip :: string
  hq_secret :: "string option"
  hq_body :: json

record http_reply =
  hp_status :: nat
  hp_retryAfter :: "int option"
  hp_body :: json

definition V2_ENVELOPE_FIELDS :: "string list" where
  "V2_ENVELOPE_FIELDS = [''version'', ''cluster'', ''programId'', ''audience'', ''action'', ''revision'', ''timestamp'', ''nonce'', ''signature'']"

definition isSignedAttempt :: "json \<Rightarrow> bool" where
  "isSignedAttempt b =
     (case b of JObj fs \<Rightarrow> list_ex (\<lambda>f. f \<in> fst ` set fs) V2_ENVELOPE_FIELDS | _ \<Rightarrow> False)"

fun http_status :: "result_code \<Rightarrow> nat" where
  "http_status R_created = 201"
| "http_status R_updated = 200"
| "http_status R_removed = 200"
| "http_status R_ok = 200"
| "http_status R_invalid_request = 400"
| "http_status R_invalid_signature = 401"
| "http_status R_stale_timestamp = 401"
| "http_status R_context_mismatch = 401"
| "http_status R_nonce_reused = 401"
| "http_status R_ownership_failed = 403"
| "http_status R_signed_not_enabled = 409"
| "http_status R_signed_required = 409"
| "http_status R_signed_authorization_required = 409"
| "http_status R_stale_revision = 409"
| "http_status R_owner_conflict = 409"
| "http_status R_legacy_window_expired = 410"
| "http_status R_rate_limited = 429"
| "http_status R_dependency_unavailable = 502"
| "http_status R_database_error = 503"
| "http_status R_not_found = 500"

definition reply_json :: "nat \<Rightarrow> json \<Rightarrow> http_reply" where
  "reply_json s j = \<lparr>hp_status = s, hp_retryAfter = None, hp_body = j\<rparr>"

definition fail_reply :: "result_code \<Rightarrow> http_reply" where
  "fail_reply c = reply_json (http_status c) (JObj [(''ok'', JBool False), (''code'', JStr (code_text c))])"

definition rate_reply :: "int \<Rightarrow> http_reply" where
  "rate_reply n = \<lparr>hp_status = 429, hp_retryAfter = Some n,
     hp_body = JObj [(''ok'', JBool False), (''code'', JStr (code_text R_rate_limited))]\<rparr>"

definition error_reply :: "nat \<Rightarrow> string \<Rightarrow> http_reply" where
  "error_reply s e = reply_json s (JObj [(''error'', JStr e)])"

definition removed_json :: "nat option \<Rightarrow> json" where
  "removed_json n = JObj ((''ok'', JBool True) # (case n of None \<Rightarrow> [] | Some k \<Rightarrow> [(''removed'', JNum (int k))]))"

subsection \<open>Dependencies\<close>

text \<open>
  \<open>hd_isPubkey\<close> is whether \<open>new PublicKey(v)\<close> succeeds, \<open>hd_string\<close> is \<open>String(v)\<close>,
  \<open>hd_number\<close> is \<open>Number(v)\<close> with \<open>None\<close> for \<open>NaN\<close> and the infinities, \<open>hd_bind\<close> is the text
  that SQLite sees for a bound value, \<open>None\<close> when the driver refuses it.
\<close>

record 'e handler_deps =
  hd_mode :: auth_mode
  hd_until :: "int option"
  hd_expected :: "auth_context option"
  hd_libs :: srv_libs
  hd_verify :: "string \<Rightarrow> string \<Rightarrow> ('e gate_world_scheme, verdict) io"
  hd_legacyVerify :: "json \<Rightarrow> json \<Rightarrow> ('e gate_world_scheme, bool \<times> string) io"
  hd_secret :: string
  hd_isPubkey :: "json \<Rightarrow> bool"
  hd_string :: "json \<Rightarrow> string"
  hd_number :: "json \<Rightarrow> rat option"
  hd_bind :: "json \<Rightarrow> string option"

definition facets :: "('e, 'x) handler_deps_scheme \<Rightarrow> json \<Rightarrow> bool \<Rightarrow> string option \<times> string option \<times> string option" where
  "facets H b withToken =
     (let key = (\<lambda>f. if hd_isPubkey H (js_field f b) then Some (hd_string H (js_field f b)) else None) in
      (key ''owner'', key ''vault'',
       case js_field ''deviceToken'' b of
         JStr t \<Rightarrow> if withToken \<and> t \<noteq> [] then Some (sha256Hex (hd_libs H) t) else None
       | _ \<Rightarrow> None))"

definition facets_checked :: "('e, 'x) handler_deps_scheme \<Rightarrow> json \<Rightarrow> bool \<Rightarrow> ('e gate_world_scheme, limit_result) io" where
  "facets_checked H b withToken = (case facets H b withToken of (ow, v, h) \<Rightarrow> checkFacets ow v h)"

definition window_expired_reply :: http_reply where
  "window_expired_reply = reply_json 410 (JObj [(''error'', JStr ''legacy registration window expired''),
     (''code'', JStr (code_text R_legacy_window_expired))])"

text \<open>The order of the gates; then \<open>onSigned\<close> or \<open>onLegacy\<close> handles the body.\<close>

definition gated ::
  "('e, 'x) handler_deps_scheme \<Rightarrow> http_request \<Rightarrow> bool \<Rightarrow> (json \<Rightarrow> ('e gate_world_scheme, http_reply) io)
   \<Rightarrow> (json \<Rightarrow> ('e gate_world_scheme, http_reply) io) \<Rightarrow> ('e gate_world_scheme, http_reply) io" where
  "gated H req withToken onSigned onLegacy =
     bindE (checkIp (hq_ip req)) (\<lambda>ipr.
     case ipr of Limited n \<Rightarrow> ret (rate_reply n)
     | Allowed \<Rightarrow>
         let b = or_object (hq_body req) in
         bindE (facets_checked H b withToken) (\<lambda>fr.
         case fr of Limited n \<Rightarrow> ret (rate_reply n)
         | Allowed \<Rightarrow>
             if isSignedAttempt b then
               (if hd_mode H = Legacy_only then ret (fail_reply R_signed_not_enabled) else onSigned b)
             else if hd_mode H = Signed_required then ret (fail_reply R_signed_required)
             else
             bindE (transition_get (hd_mode H) (hd_until H)) (\<lambda>ts.
             if \<not> tv_legacyAccepting ts then ret window_expired_reply
             else if \<not> legacySecretOk (hd_secret H) (hq_secret req) then ret (error_reply 401 ''unauthorized'')
             else onLegacy b)))"

subsection \<open>Register\<close>

definition register_answer :: "reg_command \<Rightarrow> apply_result \<Rightarrow> http_reply" where
  "register_answer cmd t =
     (if ar_code t = R_created \<or> ar_code t = R_updated
      then reply_json (http_status (ar_code t))
             (JObj [(''ok'', JBool True), (''result'', JStr (code_text (ar_code t))), (''revision'', JNum (rc_revision cmd))])
      else fail_reply (ar_code t))"

definition signed_register :: "('e, 'x) handler_deps_scheme \<Rightarrow> json \<Rightarrow> ('e gate_world_scheme, http_reply) io" where
  "signed_register H b =
     bindE (authorizeRegisterV2 (hd_libs H) (hd_expected H) (hd_verify H) b) (\<lambda>r.
     case r of
       Inl c \<Rightarrow> ret (fail_reply c)
     | Inr cmd \<Rightarrow> bindE (applySignedRegistration cmd) (\<lambda>t. ret (register_answer cmd t)))"

definition legacy_stages :: "('e, 'x) handler_deps_scheme \<Rightarrow> json \<Rightarrow> (rat \<times> rat \<times> rat) option" where
  "legacy_stages H b =
     (case (hd_number H (js_field ''stage1'' b), hd_number H (js_field ''stage2'' b), hd_number H (js_field ''stage3'' b)) of
        (Some s1, Some s2, Some s3) \<Rightarrow> if 0 < s1 \<and> 0 < s2 \<and> 0 < s3 then Some (s1, s2, s3) else None
      | _ \<Rightarrow> None)"

text \<open>A value the driver cannot bind makes the transaction throw.\<close>

definition bound_or_error :: "nat \<Rightarrow> string option \<Rightarrow> (string \<Rightarrow> ('e srv_world_scheme, apply_result) io) \<Rightarrow> ('e srv_world_scheme, apply_result) io" where
  "bound_or_error n v k = (case v of None \<Rightarrow> seqE (prepare n) (ret (refused R_database_error)) | Some s \<Rightarrow> k s)"

definition legacy_apply ::
  "('e, 'x) handler_deps_scheme \<Rightarrow> json \<Rightarrow> json \<Rightarrow> string \<Rightarrow> rat \<times> rat \<times> rat \<Rightarrow> ('e gate_world_scheme, http_reply) io" where
  "legacy_apply H ow vault token ss =
     bindE (gets sw_now) (\<lambda>now.
     bindE (bound_or_error 3 (hd_bind H vault) (\<lambda>v. bound_or_error 3 (hd_bind H ow) (\<lambda>o'.
        applyLegacyRegistration \<lparr>lc_owner = o', lc_vault = v, lc_deviceToken = token, lc_stage1 = fst ss,
          lc_stage2 = fst (snd ss), lc_stage3 = snd (snd ss), lc_now = now\<rparr>))) (\<lambda>t. ret
       (if ar_code t = R_signed_authorization_required \<or> ar_code t = R_database_error then fail_reply (ar_code t)
        else reply_json 200 (JObj [(''ok'', JBool True)]))))"

definition legacy_register :: "('e, 'x) handler_deps_scheme \<Rightarrow> json \<Rightarrow> ('e gate_world_scheme, http_reply) io" where
  "legacy_register H b =
     (let ow = js_field ''owner'' b; vault = js_field ''vault'' b in
      if \<not> hd_isPubkey H ow \<or> \<not> hd_isPubkey H vault then ret (error_reply 400 ''invalid owner/vault pubkey'')
      else case js_field ''deviceToken'' b of
        JStr token \<Rightarrow>
          if length token < 10 then ret (error_reply 400 ''invalid deviceToken'')
          else (case legacy_stages H b of
            None \<Rightarrow> ret (error_reply 400 ''invalid stage durations'')
          | Some ss \<Rightarrow>
              or_return (hd_legacyVerify H ow vault) (error_reply 502 ''vault verification unavailable'') (\<lambda>v.
              if \<not> fst v then ret (error_reply 403 ''vault verification failed'')
              else legacy_apply H ow vault token ss))
      | _ \<Rightarrow> ret (error_reply 400 ''invalid deviceToken''))"

definition handle_register :: "('e, 'x) handler_deps_scheme \<Rightarrow> http_request \<Rightarrow> ('e gate_world_scheme, http_reply) io" where
  "handle_register H req = gated H req True (signed_register H) (legacy_register H)"

subsection \<open>Deregister\<close>

definition signed_deregister :: "('e, 'x) handler_deps_scheme \<Rightarrow> json \<Rightarrow> ('e gate_world_scheme, http_reply) io" where
  "signed_deregister H b =
     bindE (authorizeDeregisterV2 (hd_libs H) (hd_expected H) (hd_verify H) b) (\<lambda>r.
     case r of
       Inl c \<Rightarrow> ret (fail_reply c)
     | Inr cmd \<Rightarrow>
         bindE (applySignedDeregistration cmd) (\<lambda>t. ret
           (if ar_code t = R_removed then reply_json 200 (removed_json (ar_removed t)) else fail_reply (ar_code t))))"

definition legacy_deregister :: "('e, 'x) handler_deps_scheme \<Rightarrow> json \<Rightarrow> ('e gate_world_scheme, http_reply) io" where
  "legacy_deregister H b =
     (let ow = js_field ''owner'' b; vault = js_field ''vault'' b;
          by_vault = bound_or_error 3 (hd_bind H vault) (\<lambda>v. deleteLegacyRegistration v None) in
      if hd_mode H = Legacy_only then
        (if js_truthy vault \<and> hd_isPubkey H vault then
           bindE by_vault (\<lambda>t. ret
             (if ar_code t = R_signed_authorization_required then fail_reply (ar_code t)
              else reply_json 200 (removed_json (ar_removed t))))
         else if js_truthy ow \<and> hd_isPubkey H ow then
           bindE (case hd_bind H ow of None \<Rightarrow> ret (refused R_database_error) | Some s \<Rightarrow> deleteLegacyRegistrationsByOwner s) (\<lambda>t. ret
             (if ar_code t = R_database_error then fail_reply (ar_code t) else reply_json 200 (removed_json (ar_removed t))))
         else ret (error_reply 400 ''vault or owner required''))
      else if \<not> js_truthy vault \<or> \<not> hd_isPubkey H vault then ret (error_reply 400 ''vault required'')
      else
        bindE by_vault (\<lambda>t. ret
          (if ar_code t = R_signed_authorization_required \<or> ar_code t = R_database_error then fail_reply (ar_code t)
           else reply_json 200 (removed_json (ar_removed t)))))"

definition handle_deregister :: "('e, 'x) handler_deps_scheme \<Rightarrow> http_request \<Rightarrow> ('e gate_world_scheme, http_reply) io" where
  "handle_deregister H req = gated H req False (signed_deregister H) (legacy_deregister H)"

end
