(* ===== verification/Notify_Reg.thy ===== *)
theory Notify_Reg
  imports Local_Db Notify_Auth
begin

text \<open>
  The signed registration and deregistration attempts of
  \<open>services/NotificationRegistrationService.ts\<close>. Wallet, server, clock, token source, hash and
  message builder are injected in the code and are record fields here; the stored keys, revisions,
  result stages and the order of effects are the code's. Each asynchronous step takes the world and
  returns it, so a throwing dependency is a value the code handles or lets through as it does.
\<close>

subsection \<open>Keys and revisions\<close>

record key_parts =
  kp_cluster :: string
  kp_programId :: string
  kp_owner :: string
  kp_vault :: string

definition key_path :: "key_parts \<Rightarrow> string" where
  "key_path k = kp_cluster k @ ''/'' @ kp_programId k @ ''/'' @ kp_owner k @ ''/'' @ kp_vault k"

definition revisionKey :: "key_parts \<Rightarrow> string" where
  "revisionKey k = ''notif_rev/'' @ key_path k"

definition successKey :: "key_parts \<Rightarrow> string" where
  "successKey k = ''notif_signed_reg/'' @ key_path k"

definition deregPendingKey :: "key_parts \<Rightarrow> string" where
  "deregPendingKey k = ''notif_dereg_pending/'' @ key_path k"

definition closedVaultKey :: "key_parts \<Rightarrow> string" where
  "closedVaultKey k = ''notif_vault_closed/'' @ key_path k"

text \<open>The pattern \<open>/^[1-9][0-9]*$/\<close>, and \<open>Number\<close> on a text that matches it.\<close>

definition revision_text :: "string \<Rightarrow> bool" where
  "revision_text s \<longleftrightarrow> s \<noteq> [] \<and> char_in 49 57 (hd s) \<and> list_all (char_in 48 57) s"

definition corrupt_revision :: exn where
  "corrupt_revision = Error ''corrupt revision high-watermark''"

definition computeNextRevision :: "string option \<Rightarrow> int \<Rightarrow> exn + int" where
  "computeNextRevision stored nowMs =
     (let watermark =
        (case stored of
           None \<Rightarrow> Inr 0
         | Some s \<Rightarrow>
             if s = [] then Inr 0
             else if \<not> revision_text s then Inl corrupt_revision
             else let parsed = rnd53 (int (str_nat s)) in
                  if \<not> is_safe_integer parsed \<or> parsed \<le> 0 then Inl corrupt_revision else Inr parsed)
      in case watermark of
           Inl e \<Rightarrow> Inl e
         | Inr wm \<Rightarrow>
             if \<not> is_safe_integer nowMs \<or> nowMs \<le> 0 then Inl (Error ''invalid clock'')
             else let nxt = max nowMs (js_add wm 1) in
                  if \<not> is_safe_integer nxt \<or> nxt \<le> 0 then Inl (Error ''revision overflow'') else Inr nxt)"

subsection \<open>Dependencies\<close>

text \<open>
  Packages: \<open>nl_canon s\<close> is \<open>new PublicKey(s).toBase58()\<close>, \<open>None\<close> when the constructor
  throws; \<open>nl_parse\<close> is \<open>JSON.parse\<close>, \<open>None\<close> when it throws.
\<close>

record notify_libs =
  nl_canon :: "string \<Rightarrow> string option"
  nl_bs58 :: "bytes \<Rightarrow> string"
  nl_json :: "json \<Rightarrow> string"
  nl_parse :: "string \<Rightarrow> json option"
  nl_num :: "string \<Rightarrow> int option"

text \<open>What \<open>JSON\<close> promises on flat objects of strings, numbers and booleans.\<close>

definition flat_value :: "json \<Rightarrow> bool" where
  "flat_value v \<longleftrightarrow> (\<exists>s. v = JStr s) \<or> (\<exists>n. v = JNum n) \<or> (\<exists>b. v = JBool b)"

definition json_ok :: "notify_libs \<Rightarrow> bool" where
  "json_ok L \<longleftrightarrow> (\<forall>fs. distinct (map fst fs) \<and> (\<forall>p\<in>set fs. flat_value (snd p)) \<longrightarrow>
      nl_json L (JObj fs) \<noteq> [] \<and> nl_parse L (nl_json L (JObj fs)) = Some (JObj fs))"

record reply =
  rp_status :: int
  rp_code :: "string option"
  rp_removed :: "int option"

record 'w local_deps =
  d_cluster :: string
  d_programId :: string
  d_deriveVault :: "string \<Rightarrow> exn + string"
  d_getSetting :: "string \<Rightarrow> ('w, string option) io"
  d_setSetting :: "string \<Rightarrow> string \<Rightarrow> ('w, unit) io"

record 'w signing_deps = "'w local_deps" +
  d_signMessage :: "bytes \<Rightarrow> ('w, bytes) io"
  d_generateNonce :: "('w, string) io"
  d_nowSec :: "('w, int) io"

record 'w registration_deps = "'w signing_deps" +
  d_getDeviceToken :: "('w, string option) io"
  d_buildRegister :: "register_fields_v2 \<Rightarrow> exn + string"
  d_sha256Hex :: "string \<Rightarrow> ('w, string) io"
  d_postRegister :: "json \<Rightarrow> ('w, reply) io"
  d_nowMs :: "('w, int) io"

record 'w deregister_deps = "'w signing_deps" +
  d_buildDeregister :: "deregister_fields_v2 \<Rightarrow> exn + string"
  d_postDeregister :: "json \<Rightarrow> ('w, reply) io"

text \<open>Module variables of the service, and the calls to wallet, server and store, for the statements.\<close>

datatype event = Wrote string string | Signed bytes | Posted json | Replied reply

record notify_world = device +
  inFlight :: bool
  deregInFlight :: bool
  events :: "event list"
  ticks :: nat

definition EXPECTED_PROGRAM_ID :: string where
  "EXPECTED_PROGRAM_ID = ''GXCu5964mvgAJDWmcMriZpzU3vDVqPzjYCM1sxCnsoEb''"

definition EXPECTED_CLUSTER :: string where
  "EXPECTED_CLUSTER = ''devnet''"

definition isCanonicalPubkey :: "notify_libs \<Rightarrow> string \<Rightarrow> bool" where
  "isCanonicalPubkey L s \<longleftrightarrow> s \<noteq> [] \<and> nl_canon L s = Some s"

definition isSafePosInt :: "int \<Rightarrow> bool" where
  "isSafePosInt n \<longleftrightarrow> is_safe_integer n \<and> 0 < n"

text \<open>\<open>/^[1-9A-HJ-NP-Za-km-z]{22,64}$/\<close>.\<close>

definition nonce_ok :: "string \<Rightarrow> bool" where
  "nonce_ok s \<longleftrightarrow> 22 \<le> length s \<and> length s \<le> 64 \<and> list_all base58_char s"

subsection \<open>Registration\<close>

record stages =
  st_stage1 :: int
  st_stage2 :: int
  st_stage3 :: int

record registration_input =
  ri_owner :: string
  ri_stages :: stages

record success_record =
  sc_owner :: string
  sc_vault :: string
  sc_revision :: int
  sc_fingerprint :: string
  sc_stage1 :: int
  sc_stage2 :: int
  sc_stage3 :: int
  sc_confirmedAt :: int
  sc_cluster :: string
  sc_programId :: string

datatype registration_result =
    Registered bool int success_record
  | RegFail string "string option" bool

definition mapStatusToCode :: "int \<Rightarrow> string" where
  "mapStatusToCode s =
     (if s = 400 then ''invalid_request'' else if s = 401 then ''invalid_request''
      else if s = 403 then ''ownership_failed'' else if s = 410 then ''legacy_window_expired''
      else if s = 429 then ''rate_limited'' else if s = 502 then ''dependency_unavailable''
      else if s = 503 then ''database_error'' else ''unknown'')"

definition RETRYABLE_CODES :: "string list" where
  "RETRYABLE_CODES = [''rate_limited'', ''dependency_unavailable'', ''database_error'', ''stale_revision'']"

definition mapRegistrationError :: "string \<Rightarrow> string \<times> bool" where
  "mapRegistrationError code =
     (if code = ''invalid_request'' then (''The registration request was invalid.'', False)
      else if code = ''invalid_signature'' then (''The wallet signature could not be verified.'', False)
      else if code = ''stale_timestamp'' then (''The request expired (a slow wallet approval or an incorrect device clock). Check the time, then tap to register again.'', True)
      else if code = ''context_mismatch'' then (''Your app network settings differ from the server. Check your network/cluster.'', False)
      else if code = ''nonce_reused'' then (''That request was already used. Start a new registration.'', False)
      else if code = ''ownership_failed'' then (''This vault could not be verified as yours on-chain.'', False)
      else if code = ''stale_revision'' then (''A newer registration already exists. Tap to register again.'', True)
      else if code = ''owner_conflict'' then (''This vault is registered to a different owner.'', False)
      else if code = ''rate_limited'' then (''Too many attempts. Wait a moment, then tap to register again.'', True)
      else if code = ''dependency_unavailable'' then (''The service is temporarily unavailable. Tap to try again.'', True)
      else if code = ''database_error'' then (''The server had a temporary error. Tap to try again.'', True)
      else if code = ''legacy_window_expired'' then (''Server configuration inconsistency - please try again later.'', False)
      else (''Registration failed. Please try again.'', False))"

text \<open>\<open>res.code || map(res.status)\<close>.\<close>

definition code_or :: "(int \<Rightarrow> string) \<Rightarrow> reply \<Rightarrow> string" where
  "code_or f res = (case rp_code res of None \<Rightarrow> f (rp_status res) | Some c \<Rightarrow> if c = [] then f (rp_status res) else c)"

definition key_of :: "register_fields_v2 \<Rightarrow> key_parts" where
  "key_of f = \<lparr>kp_cluster = r2_cluster f, kp_programId = r2_programId f, kp_owner = r2_owner f, kp_vault = r2_vault f\<rparr>"

definition success_of :: "register_fields_v2 \<Rightarrow> int \<Rightarrow> success_record" where
  "success_of f now =
     \<lparr>sc_owner = r2_owner f, sc_vault = r2_vault f, sc_revision = r2_revision f,
      sc_fingerprint = take 32 (r2_tokenHash f), sc_stage1 = r2_stage1 f, sc_stage2 = r2_stage2 f,
      sc_stage3 = r2_stage3 f, sc_confirmedAt = now, sc_cluster = r2_cluster f, sc_programId = r2_programId f\<rparr>"

definition success_json :: "success_record \<Rightarrow> json" where
  "success_json r = JObj
     [(''owner'', JStr (sc_owner r)), (''vault'', JStr (sc_vault r)), (''revision'', JNum (sc_revision r)),
      (''tokenFingerprint'', JStr (sc_fingerprint r)), (''stage1'', JNum (sc_stage1 r)),
      (''stage2'', JNum (sc_stage2 r)), (''stage3'', JNum (sc_stage3 r)),
      (''confirmedAt'', JNum (sc_confirmedAt r)), (''authVersion'', JNum 2),
      (''cluster'', JStr (sc_cluster r)), (''programId'', JStr (sc_programId r))]"

definition register_body :: "string \<Rightarrow> register_fields_v2 \<Rightarrow> string \<Rightarrow> json" where
  "register_body token f sg = JObj
     [(''owner'', JStr (r2_owner f)), (''vault'', JStr (r2_vault f)), (''deviceToken'', JStr token),
      (''stage1'', JNum (r2_stage1 f)), (''stage2'', JNum (r2_stage2 f)), (''stage3'', JNum (r2_stage3 f)),
      (''revision'', JNum (r2_revision f)), (''version'', JNum 2), (''cluster'', JStr (r2_cluster f)),
      (''programId'', JStr (r2_programId f)), (''audience'', JStr NOTIFY_AUDIENCE),
      (''action'', JStr ''register''), (''timestamp'', JNum (r2_timestamp f)),
      (''nonce'', JStr (r2_nonce f)), (''signature'', JStr sg)]"

text \<open>Step 12: the server has accepted; the two local writes are best effort.\<close>

definition reg_accepted ::
  "notify_libs \<Rightarrow> ('w, 'x) registration_deps_scheme \<Rightarrow> register_fields_v2 \<Rightarrow> bool \<Rightarrow> ('w, registration_result) io" where
  "reg_accepted L D f created =
     bindE (d_nowSec D) (\<lambda>now.
     let rc = success_of f now in
     seqE (quietly (d_setSetting D (successKey (key_of f)) (nl_json L (success_json rc)))) (
     seqE (quietly (d_setSetting D (closedVaultKey (key_of f)) [])) (
     ret (Registered created (r2_revision f) rc))))"

definition reg_request ::
  "notify_libs \<Rightarrow> ('w, 'x) registration_deps_scheme \<Rightarrow> string \<Rightarrow> register_fields_v2 \<Rightarrow> string \<Rightarrow> ('w, registration_result) io" where
  "reg_request L D token f sg =
     or_return (d_postRegister D (register_body token f sg))
       (RegFail ''network'' (Some ''dependency_unavailable'') True) (\<lambda>res.
     if rp_status res = 201 \<or> rp_status res = 200 then reg_accepted L D f (rp_status res = 201)
     else let code = code_or mapStatusToCode res in
          ret (RegFail ''server'' (Some code) (code \<in> set RETRYABLE_CODES)))"

definition reg_sign ::
  "notify_libs \<Rightarrow> ('w, 'x) registration_deps_scheme \<Rightarrow> string \<Rightarrow> register_fields_v2 \<Rightarrow> ('w, registration_result) io" where
  "reg_sign L D token f =
     or_return (liftE (d_buildRegister D f)) (RegFail ''validate'' None False) (\<lambda>message.
     or_return (d_signMessage D (utf8 message)) (RegFail ''wallet'' None True) (\<lambda>sigBytes.
     if length sigBytes \<noteq> 64 then ret (RegFail ''signature'' None False)
     else reg_request L D token f (nl_bs58 L sigBytes)))"

definition reg_revision :: "('w, 'x) registration_deps_scheme \<Rightarrow> key_parts \<Rightarrow> ('w, int) io" where
  "reg_revision D k =
     bindE (d_getSetting D (revisionKey k)) (\<lambda>stored.
     bindE (d_nowMs D) (\<lambda>ms.
     bindE (liftE (computeNextRevision stored ms)) (\<lambda>revision.
     seqE (d_setSetting D (revisionKey k) (int_str revision)) (ret revision))))"

definition reg_prepare ::
  "notify_libs \<Rightarrow> ('w, 'x) registration_deps_scheme \<Rightarrow> key_parts \<Rightarrow> stages \<Rightarrow> ('w, registration_result) io" where
  "reg_prepare L D k st =
     bindE (d_getDeviceToken D) (\<lambda>tok.
     case tok of None \<Rightarrow> ret (RegFail ''device_token'' None True)
     | Some token \<Rightarrow>
     if length token < 10 then ret (RegFail ''device_token'' None True)
     else
     or_return (d_generateNonce D) (RegFail ''rng'' None False) (\<lambda>nonce.
     if \<not> nonce_ok nonce then ret (RegFail ''rng'' None False)
     else
     or_return (reg_revision D k) (RegFail ''revision'' None False) (\<lambda>revision.
     bindE (d_nowSec D) (\<lambda>timestamp.
     if \<not> isSafePosInt timestamp then ret (RegFail ''validate'' None False)
     else
     or_return (d_sha256Hex D token) (RegFail ''hash'' None True) (\<lambda>hash.
     reg_sign L D token
       \<lparr>r2_cluster = kp_cluster k, r2_programId = kp_programId k, r2_owner = kp_owner k, r2_vault = kp_vault k,
        r2_tokenHash = to_lower hash, r2_stage1 = st_stage1 st, r2_stage2 = st_stage2 st, r2_stage3 = st_stage3 st,
        r2_revision = revision, r2_timestamp = timestamp, r2_nonce = nonce\<rparr>)))))"

definition reg_attempt ::
  "notify_libs \<Rightarrow> ('w, 'x) registration_deps_scheme \<Rightarrow> registration_input \<Rightarrow> ('w, registration_result) io" where
  "reg_attempt L D inp =
     (let ow = ri_owner inp in
      if \<not> isCanonicalPubkey L ow then ret (RegFail ''validate'' None False)
      else
      bindE (liftE (d_deriveVault D ow)) (\<lambda>vault.
      if \<not> isCanonicalPubkey L vault then ret (RegFail ''validate'' None False)
      else if d_cluster D \<noteq> EXPECTED_CLUSTER \<or> d_programId D \<noteq> EXPECTED_PROGRAM_ID
      then ret (RegFail ''context'' None False)
      else let st = ri_stages inp in
      if \<not> isSafePosInt (st_stage1 st) \<or> \<not> isSafePosInt (st_stage2 st) \<or> \<not> isSafePosInt (st_stage3 st)
      then ret (RegFail ''validate'' None False)
      else
      reg_prepare L D \<lparr>kp_cluster = d_cluster D, kp_programId = d_programId D, kp_owner = ow, kp_vault = vault\<rparr> st))"

definition attemptSignedRegistration ::
  "notify_libs \<Rightarrow> ('e notify_world_scheme, 'x) registration_deps_scheme \<Rightarrow> registration_input
   \<Rightarrow> ('e notify_world_scheme, registration_result) io" where
  "attemptSignedRegistration L D inp =
     bindE (gets inFlight) (\<lambda>busy.
     if busy then ret (RegFail ''in_flight'' None False)
     else finallyE (seqE (modify (\<lambda>w. w\<lparr>inFlight := True\<rparr>)) (reg_attempt L D inp))
            (\<lambda>w. w\<lparr>inFlight := False\<rparr>))"

subsection \<open>The environment of a signing attempt\<close>

text \<open>
  What the attempts rely on: the store is a key/value store; a call of the wallet is one signature
  event, a successful write one write event; nothing else touches the store or the log; the clock
  answers. \<open>did w evs w'\<close> says that the events \<open>evs\<close> happened between two worlds, and that
  the store changed by exactly their writes.
\<close>

definition written :: "event list \<Rightarrow> (string \<rightharpoonup> string) \<Rightarrow> string \<rightharpoonup> string" where
  "written evs m = foldl (\<lambda>m e. case e of Wrote k v \<Rightarrow> m(k \<mapsto> v) | _ \<Rightarrow> m) m evs"

lemma written_simps [simp]:
  "written [] m = m"
  "written (evs @ [Wrote k v]) m = (written evs m)(k \<mapsto> v)"
  "written (evs @ [Signed b]) m = written evs m"
  "written (evs @ [Posted j]) m = written evs m"
  "written (evs @ [Replied p]) m = written evs m"
  by (simp_all add: written_def)

locale signing_env = kv_store "d_getSetting D" "d_setSetting D" view
  for D :: "('w, 'x) signing_deps_scheme" and view :: "'w \<Rightarrow> string \<rightharpoonup> string" +
  fixes log :: "'w \<Rightarrow> event list"
  assumes get_log: "d_getSetting D k w = (r, w') \<Longrightarrow> log w' = log w"
    and set_log: "d_setSetting D k v w = (Inr (), w') \<Longrightarrow> log w' = log w @ [Wrote k v]"
    and set_fail_log: "d_setSetting D k v w = (Inl e, w') \<Longrightarrow> log w' = log w"
    and sign_log: "d_signMessage D b w = (sg, w') \<Longrightarrow> log w' = log w @ [Signed b] \<and> view w' = view w"
    and nonce_calm: "d_generateNonce D w = (nc, w') \<Longrightarrow> log w' = log w \<and> view w' = view w"
    and sec_calm: "d_nowSec D w = (n, w') \<Longrightarrow> log w' = log w \<and> view w' = view w"
    and sec_returns: "returns (d_nowSec D)"
begin

definition did :: "'w \<Rightarrow> event list \<Rightarrow> 'w \<Rightarrow> bool" where
  "did w evs w' \<longleftrightarrow> log w' = log w @ evs \<and> view w' = written evs (view w)"

definition calm :: "('w, 'a) io \<Rightarrow> bool" where
  "calm m \<longleftrightarrow> (\<forall>w r w'. m w = (r, w') \<longrightarrow> log w' = log w \<and> view w' = view w)"

lemma did_refl: "did w [] w"
  by (simp add: did_def)

lemma wp_calm:
  assumes "calm m" "did w evs w1" "\<And>a w2. did w evs w2 \<Longrightarrow> Q a w2" "\<And>e w2. did w evs w2 \<Longrightarrow> E e w2"
  shows "wp m Q E w1"
  using assms unfolding calm_def did_def wp_def by (auto split: prod.splits sum.splits)

lemma wp_calm_returns:
  assumes "calm m" "returns m" "did w evs w1" "\<And>a w2. did w evs w2 \<Longrightarrow> Q a w2"
  shows "wp m Q E w1"
proof -
  obtain a w2 where r: "m w1 = (Inr a, w2)" using assms(2) unfolding returns_def by blast
  then have "did w evs w2" using assms(1,3) unfolding calm_def did_def by simp
  then show ?thesis using assms(4) by (simp add: wp_def r)
qed

lemma calm_nonce: "calm (d_generateNonce D)"
  unfolding calm_def using nonce_calm by blast

lemma calm_sec: "calm (d_nowSec D)"
  unfolding calm_def using sec_calm by blast

lemmas wp_sec = wp_calm_returns [OF calm_sec sec_returns]

lemma wp_get:
  assumes "did w evs w1" "\<And>w2. did w evs w2 \<Longrightarrow> Q (written evs (view w) k) w2" "\<And>e w2. did w evs w2 \<Longrightarrow> E e w2"
  shows "wp (d_getSetting D k) Q E w1"
proof -
  obtain r w2 where r: "d_getSetting D k w1 = (r, w2)" by (cases "d_getSetting D k w1")
  have d: "did w evs w2" using assms(1) get_log [OF r] get_keeps [OF r] by (simp add: did_def)
  show ?thesis
  proof (cases r)
    case (Inl e)
    then show ?thesis using assms(3) [OF d] r by (simp add: wp_def)
  next
    case (Inr a)
    then have "a = view w1 k" using get_reads r by simp
    then show ?thesis using assms(2) [OF d] r Inr assms(1) by (simp add: wp_def did_def)
  qed
qed

lemma wp_set:
  assumes "did w evs w1" "\<And>w2. did w (evs @ [Wrote k v]) w2 \<Longrightarrow> Q () w2" "\<And>e w2. did w evs w2 \<Longrightarrow> E e w2"
  shows "wp (d_setSetting D k v) Q E w1"
proof -
  obtain r w2 where r: "d_setSetting D k v w1 = (r, w2)" by (cases "d_setSetting D k v w1")
  show ?thesis
  proof (cases r)
    case (Inl e)
    then have "did w evs w2" using assms(1) r set_fails set_fail_log by (simp add: did_def)
    then show ?thesis using assms(3) r Inl by (simp add: wp_def)
  next
    case (Inr a)
    then have "did w (evs @ [Wrote k v]) w2"
      using assms(1) r set_writes [of k v w1 w2] set_log [of k v w1 w2] by (simp add: did_def)
    then show ?thesis using assms(2) r Inr by (simp add: wp_def)
  qed
qed

lemma wp_sign:
  assumes "did w evs w1" "\<And>a w2. did w (evs @ [Signed b]) w2 \<Longrightarrow> Q a w2"
    "\<And>e w2. did w (evs @ [Signed b]) w2 \<Longrightarrow> E e w2"
  shows "wp (d_signMessage D b) Q E w1"
proof -
  obtain r w2 where r: "d_signMessage D b w1 = (r, w2)" by (cases "d_signMessage D b w1")
  then have "did w (evs @ [Signed b]) w2" using assms(1) sign_log [OF r] by (simp add: did_def)
  then show ?thesis using assms(2,3) r by (cases r) (simp_all add: wp_def)
qed

end

locale registration_env = signing_env D view log
  for D :: "('w, 'x) registration_deps_scheme" and view :: "'w \<Rightarrow> string \<rightharpoonup> string" and log :: "'w \<Rightarrow> event list" +
  assumes token_calm: "d_getDeviceToken D w = (t, w') \<Longrightarrow> log w' = log w \<and> view w' = view w"
    and hash_calm: "d_sha256Hex D tk w = (h, w') \<Longrightarrow> log w' = log w \<and> view w' = view w"
    and ms_calm: "d_nowMs D w = (n, w') \<Longrightarrow> log w' = log w \<and> view w' = view w"
    and post_log: "d_postRegister D j w = (Inr p, w') \<Longrightarrow> log w' = log w @ [Posted j, Replied p] \<and> view w' = view w"
    and post_fail_log: "d_postRegister D j w = (Inl e, w') \<Longrightarrow> log w' = log w @ [Posted j] \<and> view w' = view w"
begin

lemma calm_token: "calm (d_getDeviceToken D)"
  unfolding calm_def using token_calm by blast

lemma calm_hash: "calm (d_sha256Hex D t)"
  unfolding calm_def using hash_calm by blast

lemma calm_ms: "calm (d_nowMs D)"
  unfolding calm_def using ms_calm by blast

lemma wp_post:
  assumes "did w evs w1" "\<And>p w2. did w (evs @ [Posted b, Replied p]) w2 \<Longrightarrow> Q p w2"
    "\<And>e w2. did w (evs @ [Posted b]) w2 \<Longrightarrow> E e w2"
  shows "wp (d_postRegister D b) Q E w1"
proof -
  obtain r w2 where r: "d_postRegister D b w1 = (r, w2)" by (cases "d_postRegister D b w1")
  show ?thesis
  proof (cases r)
    case (Inl e)
    then have "did w (evs @ [Posted b]) w2" using assms(1) post_fail_log [of b w1 e w2] r by (simp add: did_def)
    then show ?thesis using assms(3) r Inl by (simp add: wp_def)
  next
    case (Inr p)
    then have "did w (evs @ [Posted b, Replied p]) w2" using assms(1) post_log [of b w1 p w2] r
      by (simp add: did_def written_def)
    then show ?thesis using assms(2) r Inr by (simp add: wp_def)
  qed
qed

end

subsection \<open>What a registration attempt may do\<close>

text \<open>
  The protocol of one attempt, from a store \<open>M\<close>: a result together with the events it may have
  caused, in order. A text is signed at most once and only after the new revision has been stored; a
  request is posted at most once, with the fields that were signed; success is only reported after
  the request, and the success record has the fields of the request.
\<close>

inductive reg_run ::
  "notify_libs \<Rightarrow> (register_fields_v2 \<Rightarrow> exn + string) \<Rightarrow> key_parts \<Rightarrow> (string \<rightharpoonup> string)
   \<Rightarrow> registration_result \<Rightarrow> event list \<Rightarrow> bool"
  for L B k M where
  reg_local: "s \<in> {''validate'', ''context'', ''device_token'', ''rng'', ''revision''} \<Longrightarrow> reg_run L B k M (RegFail s None t) []"
| reg_revised: "computeNextRevision (M (revisionKey k)) ms = Inr n \<Longrightarrow> s \<in> {''validate'', ''hash''} \<Longrightarrow>
    reg_run L B k M (RegFail s None t) [Wrote (revisionKey k) (int_str n)]"
| reg_refused: "computeNextRevision (M (revisionKey k)) ms = Inr (r2_revision f) \<Longrightarrow> key_of f = k \<Longrightarrow> B f = Inr m \<Longrightarrow>
    s \<in> {''wallet'', ''signature''} \<Longrightarrow>
    reg_run L B k M (RegFail s None t) [Wrote (revisionKey k) (int_str (r2_revision f)), Signed (utf8 m)]"
| reg_unanswered: "computeNextRevision (M (revisionKey k)) ms = Inr (r2_revision f) \<Longrightarrow> key_of f = k \<Longrightarrow> B f = Inr m \<Longrightarrow>
    length sg = 64 \<Longrightarrow>
    reg_run L B k M (RegFail ''network'' (Some ''dependency_unavailable'') True)
      [Wrote (revisionKey k) (int_str (r2_revision f)), Signed (utf8 m), Posted (register_body tok f (nl_bs58 L sg))]"
| reg_rejected: "computeNextRevision (M (revisionKey k)) ms = Inr (r2_revision f) \<Longrightarrow> key_of f = k \<Longrightarrow> B f = Inr m \<Longrightarrow>
    length sg = 64 \<Longrightarrow> rp_status p \<notin> {200, 201} \<Longrightarrow>
    reg_run L B k M (RegFail ''server'' (Some (code_or mapStatusToCode p)) (code_or mapStatusToCode p \<in> set RETRYABLE_CODES))
      [Wrote (revisionKey k) (int_str (r2_revision f)), Signed (utf8 m), Posted (register_body tok f (nl_bs58 L sg)), Replied p]"
| reg_done: "computeNextRevision (M (revisionKey k)) ms = Inr (r2_revision f) \<Longrightarrow> key_of f = k \<Longrightarrow> B f = Inr m \<Longrightarrow>
    length sg = 64 \<Longrightarrow> rp_status p = (if cr then 201 else 200) \<Longrightarrow>
    ws \<in> {[], [Wrote (successKey k) (nl_json L (success_json (success_of f now)))],
           [Wrote (closedVaultKey k) []],
           [Wrote (successKey k) (nl_json L (success_json (success_of f now))), Wrote (closedVaultKey k) []]} \<Longrightarrow>
    reg_run L B k M (Registered cr (r2_revision f) (success_of f now))
      ([Wrote (revisionKey k) (int_str (r2_revision f)), Signed (utf8 m), Posted (register_body tok f (nl_bs58 L sg)), Replied p] @ ws)"

inductive_cases reg_runE: "reg_run L B k M r evs"
inductive_cases reg_run_doneE: "reg_run L B k M (Registered cr n rc) evs"

context registration_env
begin

abbreviation outcome :: "notify_libs \<Rightarrow> key_parts \<Rightarrow> 'w \<Rightarrow> registration_result \<Rightarrow> 'w \<Rightarrow> bool" where
  "outcome L k w r w' \<equiv> \<exists>evs. did w evs w' \<and> reg_run L (d_buildRegister D) k (view w) r evs"

lemma reg_accepted_run:
  assumes "did w evs w1" "evs = [Wrote (revisionKey k) (int_str (r2_revision f)), Signed (utf8 m), Posted (register_body tok f (nl_bs58 L sg)), Replied p]"
    and "computeNextRevision (view w (revisionKey k)) ms = Inr (r2_revision f)" "key_of f = k"
    "d_buildRegister D f = Inr m" "length sg = 64" "rp_status p = (if cr then 201 else 200)"
  shows "wp (reg_accepted L D f cr) (outcome L k w) (\<lambda>_ _. False) w1"
proof -
  have run: "reg_run L (d_buildRegister D) k (view w) (Registered cr (r2_revision f) (success_of f now)) (evs @ ws)"
    if "ws \<in> {[], [Wrote (successKey k) (nl_json L (success_json (success_of f now)))],
           [Wrote (closedVaultKey k) []],
           [Wrote (successKey k) (nl_json L (success_json (success_of f now))), Wrote (closedVaultKey k) []]}" for ws now
    unfolding assms(2) by (rule reg_done [where ms = ms]) (use assms(3-7) that in auto)
  show ?thesis
    unfolding reg_accepted_def Let_def wp_simps
    apply (rule wp_sec [OF assms(1)])
    apply (rule wp_set, assumption)
    subgoal for now w2 w3
      apply (rule wp_set, assumption)
      subgoal for w4 using run [of "[Wrote (successKey k) (nl_json L (success_json (success_of f now))), Wrote (closedVaultKey k) []]" now] assms(4) by auto
      subgoal for e w4 using run [of "[Wrote (successKey k) (nl_json L (success_json (success_of f now)))]" now] assms(4) by auto
      done
    subgoal for now w2 e w3
      apply (rule wp_set, assumption)
      subgoal for w4 using run [of "[Wrote (closedVaultKey k) []]" now] assms(4) by auto
      subgoal for e w4 using run [of "[]" now] assms(4) by auto
      done
    done
qed

lemma reg_request_run:
  assumes "did w [Wrote (revisionKey k) (int_str (r2_revision f)), Signed (utf8 m)] w1"
    and f: "computeNextRevision (view w (revisionKey k)) ms = Inr (r2_revision f)" "key_of f = k"
      "d_buildRegister D f = Inr m" "length sg = 64"
  shows "wp (reg_request L D tok f (nl_bs58 L sg)) (outcome L k w) (\<lambda>_ _. False) w1"
proof -
  let ?evs = "[Wrote (revisionKey k) (int_str (r2_revision f)), Signed (utf8 m), Posted (register_body tok f (nl_bs58 L sg))]"
  have net: "outcome L k w (RegFail ''network'' (Some ''dependency_unavailable'') True) w2" if "did w ?evs w2" for w2
    by (intro exI conjI, rule that(1), rule reg_unanswered [where ms = ms]) (use f in auto)
  have rej: "outcome L k w (RegFail ''server'' (Some (code_or mapStatusToCode p)) (code_or mapStatusToCode p \<in> set RETRYABLE_CODES)) w2"
    if "did w (?evs @ [Replied p]) w2" "rp_status p \<notin> {200, 201}" for w2 p
    by (intro exI conjI, rule that(1), simp, rule reg_rejected [where ms = ms]) (use f that(2) in auto)
  show ?thesis
    unfolding reg_request_def wp_simps
    by (rule wp_post [OF assms(1)])
      (auto simp: Let_def wp_simps intro!: reg_accepted_run [OF _ _ f] net rej [simplified])
qed

lemma reg_sign_run:
  assumes "did w [Wrote (revisionKey k) (int_str (r2_revision f))] w1"
    and f: "computeNextRevision (view w (revisionKey k)) ms = Inr (r2_revision f)" "key_of f = k"
  shows "wp (reg_sign L D tok f) (outcome L k w) (\<lambda>_ _. False) w1"
proof (cases "d_buildRegister D f")
  case (Inl e)
  have "outcome L k w (RegFail ''validate'' None False) w1"
    by (intro exI conjI, rule assms(1), rule reg_revised [where ms = ms]) (use f in auto)
  then show ?thesis unfolding reg_sign_def wp_simps by (simp add: Inl)
next
  case (Inr m)
  have refused: "outcome L k w (RegFail s None t) w2"
    if "did w [Wrote (revisionKey k) (int_str (r2_revision f)), Signed (utf8 m)] w2" "s \<in> {''wallet'', ''signature''}" for w2 s t
    by (intro exI conjI, rule that(1), rule reg_refused [where ms = ms]) (use f Inr that(2) in auto)
  show ?thesis
    unfolding reg_sign_def wp_simps
    by (simp add: Inr, rule wp_sign [OF assms(1)])
      (auto simp: wp_simps intro!: reg_request_run [OF _ f Inr] refused)
qed

lemma reg_revision_run:
  assumes "did w [] w1"
  shows "wp (reg_revision D k)
    (\<lambda>n w2. did w [Wrote (revisionKey k) (int_str n)] w2 \<and> (\<exists>ms. computeNextRevision (view w (revisionKey k)) ms = Inr n))
    (\<lambda>_ w2. did w [] w2) w1"
  unfolding reg_revision_def wp_simps
  apply (rule wp_get [OF assms])
   apply (rule wp_calm [OF calm_ms], assumption)
    apply (auto split: sum.split simp: wp_simps)
  apply (rule wp_set, assumption)
   apply auto
  done

lemma reg_prepare_run:
  assumes "did w [] w1"
  shows "wp (reg_prepare L D k st) (outcome L k w) (\<lambda>_ w2. did w [] w2) w1"
proof -
  have local: "outcome L k w (RegFail s None t) w2"
    if "did w [] w2" "s \<in> {''validate'', ''context'', ''device_token'', ''rng'', ''revision''}" for s t w2
    by (intro exI conjI, rule that(1), rule reg_local) (rule that(2))
  have revised: "outcome L k w (RegFail s None t) w2"
    if "did w [Wrote (revisionKey k) (int_str n)] w2" "computeNextRevision (view w (revisionKey k)) ms = Inr n"
      "s \<in> {''validate'', ''hash''}" for s t n ms w2
    by (intro exI conjI, rule that(1), rule reg_revised [where ms = ms]) (use that in auto)
  have tail: "wp (bindE (d_nowSec D) (\<lambda>timestamp.
     if \<not> isSafePosInt timestamp then ret (RegFail ''validate'' None False)
     else or_return (d_sha256Hex D token) (RegFail ''hash'' None True) (\<lambda>hash.
     reg_sign L D token (F n timestamp hash)))) (outcome L k w) (\<lambda>_ w2. did w [] w2) w2"
    if "did w [Wrote (revisionKey k) (int_str n)] w2" "computeNextRevision (view w (revisionKey k)) ms = Inr n"
      "\<And>ts h. r2_revision (F n ts h) = n \<and> key_of (F n ts h) = k" for F n ms token w2
    unfolding wp_simps
    apply (rule wp_sec [OF that(1)])
    apply (auto intro!: revised [OF _ that(2)])
    apply (rule wp_calm [OF calm_hash], assumption)
     apply (rule wp_mono, rule reg_sign_run [where ms = ms])
        apply (use that in \<open>auto intro!: revised\<close>)
    done
  show ?thesis
    unfolding reg_prepare_def wp_simps
    apply (rule wp_calm [OF calm_token assms])
     apply (auto simp: wp_simps intro!: local split: option.split)
    apply (rule wp_calm [OF calm_nonce], assumption)
     apply (auto simp: wp_simps intro!: local)
    apply (rule wp_mono, rule reg_revision_run, assumption)
     apply (auto simp: key_of_def intro!: tail local)
    done
qed

lemma reg_attempt_run:
  assumes "did w [] w1"
  shows "wp (reg_attempt L D inp)
    (outcome L \<lparr>kp_cluster = d_cluster D, kp_programId = d_programId D, kp_owner = ri_owner inp,
       kp_vault = (case d_deriveVault D (ri_owner inp) of Inr v \<Rightarrow> v | Inl _ \<Rightarrow> [])\<rparr> w)
    (\<lambda>_ w2. did w [] w2) w1"
proof -
  have local: "outcome L k w (RegFail s None t) w1"
    if "s \<in> {''validate'', ''context'', ''device_token'', ''rng'', ''revision''}" for s t k
    by (intro exI conjI, rule assms, rule reg_local) (rule that)
  show ?thesis
    unfolding reg_attempt_def Let_def
    by (auto simp: wp_simps assms intro!: local reg_prepare_run split: sum.split)
qed

end

subsection \<open>The dependencies on the device\<close>

text \<open>
  The dependencies the app passes, with the world outside as a script: the answers of wallet, server,
  token source, hash, random numbers and clock at each step are arbitrary, refusals included; the
  settings are those of the local database, whose statements may fail at any point.
\<close>

record script =
  s_token :: "nat \<Rightarrow> exn + string option"
  s_nonce :: "nat \<Rightarrow> exn + string"
  s_hash :: "nat \<Rightarrow> exn + string"
  s_sign :: "nat \<Rightarrow> exn + bytes"
  s_reply :: "nat \<Rightarrow> exn + reply"
  s_ms :: "nat \<Rightarrow> int"
  s_derive :: "string \<Rightarrow> exn + string"

definition ask :: "(nat \<Rightarrow> exn + 'a) \<Rightarrow> ('e notify_world_scheme, 'a) io" where
  "ask f w = (f (ticks w), w\<lparr>ticks := Suc (ticks w)\<rparr>)"

definition log_event :: "event \<Rightarrow> ('e notify_world_scheme, unit) io" where
  "log_event ev = modify (\<lambda>w. w\<lparr>events := events w @ [ev]\<rparr>)"

definition local_deps_of :: "script \<Rightarrow> string \<Rightarrow> string \<Rightarrow> 'e notify_world_scheme local_deps" where
  "local_deps_of S cluster programId =
     \<lparr>d_cluster = cluster, d_programId = programId, d_deriveVault = s_derive S,
      d_getSetting = getSetting, d_setSetting = (\<lambda>k v. seqE (setSetting k v) (log_event (Wrote k v)))\<rparr>"

definition signing_deps_of :: "script \<Rightarrow> string \<Rightarrow> string \<Rightarrow> 'e notify_world_scheme signing_deps" where
  "signing_deps_of S cluster programId = local_deps.extend (local_deps_of S cluster programId)
     (signing_deps.fields (\<lambda>b. seqE (log_event (Signed b)) (ask (s_sign S))) (ask (s_nonce S))
        (ask (\<lambda>n. Inr (s_ms S n div 1000))))"

lemmas deps_defs = local_deps_of_def signing_deps_of_def
  local_deps.defs signing_deps.defs registration_deps.defs

lemma setSetting_keeps:
  "setSetting k v w = (r, w') \<Longrightarrow> events w' = events (w :: 'e notify_world_scheme) \<and> inFlight w' = inFlight w \<and> deregInFlight w' = deregInFlight w"
  by (auto simp: setSetting_def getDb_def bindE_def sql_def Let_def ret_def throw_def split: if_splits)

lemma getSetting_keeps:
  "getSetting k w = (r, w') \<Longrightarrow> events w' = events (w :: 'e notify_world_scheme) \<and> inFlight w' = inFlight w \<and> deregInFlight w' = deregInFlight w"
  by (auto simp: getSetting_def getDb_def bindE_def sql_def Let_def ret_def throw_def split: if_splits)

lemma noted_set_ok:
  assumes "seqE (setSetting k v) (log_event (Wrote k v)) w = (Inr (), w')"
  shows "settings w' = (settings w)(k \<mapsto> v) \<and> events w' = events w @ [Wrote k v]"
proof -
  obtain r w1 where r: "setSetting k v w = (r, w1)" by (cases "setSetting k v w")
  then show ?thesis using assms setSetting_keeps [OF r] settings.set_writes [of k v w w1]
    by (cases r) (auto simp: bindE_def log_event_def)
qed

lemma noted_set_fail:
  assumes "seqE (setSetting k v) (log_event (Wrote k v)) w = (Inl e, w')"
  shows "settings w' = settings w \<and> events w' = events w"
proof -
  obtain r w1 where r: "setSetting k v w = (r, w1)" by (cases "setSetting k v w")
  then show ?thesis using assms setSetting_keeps [OF r] settings.set_fails [of k v w _ w1]
    by (cases r) (auto simp: bindE_def log_event_def)
qed

lemma ask_keeps: "ask f w = (r, w') \<Longrightarrow> events w' = events w \<and> settings w' = settings w"
  by (auto simp: ask_def)

lemma signing_env_of:
  "signing_env (signing_deps.extend (signing_deps_of S cluster programId) z) settings events"
proof unfold_locales
  let ?D = "signing_deps.extend (signing_deps_of S cluster programId) z :: ('a notify_world_scheme, 'b) signing_deps_scheme"
  fix k v :: string and w w' :: "'a notify_world_scheme" and e and b
  show "d_getSetting ?D k w = (Inr a, w') \<Longrightarrow> a = settings w k" for a
    by (simp add: deps_defs settings.get_reads)
  show "d_getSetting ?D k w = (r, w') \<Longrightarrow> settings w' = settings w" for r
    using settings.get_keeps [of k w r w'] by (simp add: deps_defs)
  show "d_setSetting ?D k v w = (Inr (), w') \<Longrightarrow> settings w' = (settings w)(k \<mapsto> v)"
    using noted_set_ok [of k v w w'] by (simp add: deps_defs)
  show "d_setSetting ?D k v w = (Inl e, w') \<Longrightarrow> settings w' = settings w"
    using noted_set_fail [of k v w e w'] by (simp add: deps_defs)
  show "d_getSetting ?D k w = (r, w') \<Longrightarrow> events w' = events w" for r
    using getSetting_keeps [of k w r w'] by (simp add: deps_defs)
  show "d_setSetting ?D k v w = (Inr (), w') \<Longrightarrow> events w' = events w @ [Wrote k v]"
    using noted_set_ok [of k v w w'] by (simp add: deps_defs)
  show "d_setSetting ?D k v w = (Inl e, w') \<Longrightarrow> events w' = events w"
    using noted_set_fail [of k v w e w'] by (simp add: deps_defs)
  show "d_signMessage ?D b w = (r, w') \<Longrightarrow> events w' = events w @ [Signed b] \<and> settings w' = settings w" for r
    by (auto simp: deps_defs bindE_def log_event_def dest!: ask_keeps)
  show "d_generateNonce ?D w = (r, w') \<Longrightarrow> events w' = events w \<and> settings w' = settings w" for r
    by (auto simp: deps_defs dest!: ask_keeps)
  show "d_nowSec ?D w = (r, w') \<Longrightarrow> events w' = events w \<and> settings w' = settings w" for r
    by (auto simp: deps_defs dest!: ask_keeps)
  show "returns (d_nowSec ?D)"
    by (auto simp: deps_defs returns_def ask_def)
qed

definition posting :: "script \<Rightarrow> json \<Rightarrow> ('e notify_world_scheme, reply) io" where
  "posting S j = seqE (log_event (Posted j)) (bindE (ask (s_reply S)) (\<lambda>p. seqE (log_event (Replied p)) (ret p)))"

lemma posting_ok: "posting S j w = (Inr p, w') \<Longrightarrow> events w' = events w @ [Posted j, Replied p] \<and> settings w' = settings w"
  by (auto simp: posting_def bindE_def log_event_def ask_def ret_apply split: sum.splits)

lemma posting_fail: "posting S j w = (Inl e, w') \<Longrightarrow> events w' = events w @ [Posted j] \<and> settings w' = settings w"
  by (auto simp: posting_def bindE_def log_event_def ask_def ret_apply split: sum.splits)

definition registration_deps_of ::
  "notify_libs \<Rightarrow> script \<Rightarrow> string \<Rightarrow> string \<Rightarrow> 'e notify_world_scheme registration_deps" where
  "registration_deps_of L S cluster programId = signing_deps.extend (signing_deps_of S cluster programId)
     (registration_deps.fields (ask (s_token S)) (registerMessageV2 (nl_canon L)) (\<lambda>t. ask (s_hash S))
        (posting S) (ask (\<lambda>n. Inr (s_ms S n))))"

interpretation reg: registration_env "registration_deps_of L S cluster programId" settings events
  for L S cluster programId
proof (rule registration_env.intro)
  let ?D = "registration_deps_of L S cluster programId :: 'a notify_world_scheme registration_deps"
  show "signing_env ?D settings events" unfolding registration_deps_of_def by (rule signing_env_of)
  show "registration_env_axioms ?D settings events"
  proof
    fix w w' :: "'a notify_world_scheme" and e and j and tk
    show "d_getDeviceToken ?D w = (r, w') \<Longrightarrow> events w' = events w \<and> settings w' = settings w" for r
      by (auto simp: registration_deps_of_def deps_defs dest!: ask_keeps)
    show "d_sha256Hex ?D tk w = (r, w') \<Longrightarrow> events w' = events w \<and> settings w' = settings w" for r
      by (auto simp: registration_deps_of_def deps_defs dest!: ask_keeps)
    show "d_nowMs ?D w = (r, w') \<Longrightarrow> events w' = events w \<and> settings w' = settings w" for r
      by (auto simp: registration_deps_of_def deps_defs dest!: ask_keeps)
    show "d_postRegister ?D j w = (Inr p, w') \<Longrightarrow> events w' = events w @ [Posted j, Replied p] \<and> settings w' = settings w" for p
      by (simp add: registration_deps_of_def deps_defs posting_ok)
    show "d_postRegister ?D j w = (Inl e, w') \<Longrightarrow> events w' = events w @ [Posted j] \<and> settings w' = settings w"
      by (simp add: registration_deps_of_def deps_defs posting_fail)
  qed
qed

end
