(* ===== verification/Notify_Reg_Props.thy ===== *)
theory Notify_Reg_Props
  imports Notify_Reg
begin

text \<open>
  The properties of registration: every attempt is a run of the protocol \<open>reg_run\<close>, and the
  revisions of a whole session of attempts increase.
\<close>

subsection \<open>One attempt\<close>

definition identity_of :: "script \<Rightarrow> string \<Rightarrow> string \<Rightarrow> string \<Rightarrow> key_parts" where
  "identity_of S cluster programId ow =
     \<lparr>kp_cluster = cluster, kp_programId = programId, kp_owner = ow,
      kp_vault = (case s_derive S ow of Inr v \<Rightarrow> v | Inl _ \<Rightarrow> [])\<rparr>"

lemma attempt_follows_protocol:
  assumes "\<not> inFlight w"
  shows "wp (attemptSignedRegistration L (registration_deps_of L S cluster programId) inp)
    (\<lambda>r w'. \<not> inFlight w' \<and> (\<exists>evs. events w' = events w @ evs \<and> settings w' = written evs (settings w)
        \<and> reg_run L (registerMessageV2 (nl_canon L)) (identity_of S cluster programId (ri_owner inp)) (settings w) r evs))
    (\<lambda>e w'. \<not> inFlight w' \<and> events w' = events w \<and> settings w' = settings w) w"
proof -
  let ?D = "registration_deps_of L S cluster programId"
  let ?w = "w\<lparr>inFlight := True\<rparr>"
  have d: "d_buildRegister ?D = registerMessageV2 (nl_canon L)" "d_cluster ?D = cluster"
    "d_programId ?D = programId" "d_deriveVault ?D = s_derive S"
    by (simp_all add: registration_deps_of_def deps_defs)
  have "wp (reg_attempt L ?D inp)
     (\<lambda>r w'. \<exists>evs. reg.did ?w evs w' \<and> reg_run L (registerMessageV2 (nl_canon L))
        (identity_of S cluster programId (ri_owner inp)) (settings ?w) r evs)
     (\<lambda>_ w'. reg.did ?w [] w') ?w"
    by (rule wp_mono [OF reg.reg_attempt_run [OF reg.did_refl]]) (simp_all add: d identity_of_def)
  then have "wp (reg_attempt L ?D inp)
     (\<lambda>r w'. \<exists>evs. events w' = events w @ evs \<and> settings w' = written evs (settings w)
        \<and> reg_run L (registerMessageV2 (nl_canon L)) (identity_of S cluster programId (ri_owner inp)) (settings w) r evs)
     (\<lambda>_ w'. events w' = events w \<and> settings w' = settings w) ?w"
    by (rule wp_mono) (simp_all add: reg.did_def)
  then show ?thesis
    unfolding attemptSignedRegistration_def wp_simps using assms by (auto intro: wp_mono)
qed

text \<open>
  C7: an attempt made while another is running does nothing and says so. Any other attempt,
  whatever wallet, server, storage and clock do, is a run of the protocol: the revision is stored
  before the wallet is asked, at most one text is signed and at most one request posted with the
  signed fields, success is reported only after the request, the store changes by exactly the logged
  writes (revision, fingerprint record, cleared tombstone: no token, signature or nonce), and the
  guard is released. Only the vault derivation or the token source can make it throw, and then
  nothing has happened.
\<close>

theorem registration_follows_protocol:
  "if inFlight w
   then attemptSignedRegistration L (registration_deps_of L S cluster programId) inp w
          = (Inr (RegFail ''in_flight'' None False), w)
   else wp (attemptSignedRegistration L (registration_deps_of L S cluster programId) inp)
     (\<lambda>r w'. \<not> inFlight w' \<and> (\<exists>evs. events w' = events w @ evs \<and> settings w' = written evs (settings w)
        \<and> reg_run L (registerMessageV2 (nl_canon L)) (identity_of S cluster programId (ri_owner inp)) (settings w) r evs))
     (\<lambda>e w'. \<not> inFlight w' \<and> events w' = events w \<and> settings w' = settings w) w"
  using attempt_follows_protocol [of w L S cluster programId inp]
  by (simp add: attemptSignedRegistration_def bindE_def ret_apply)

subsection \<open>Revisions\<close>

definition watermark :: "(string \<rightharpoonup> string) \<Rightarrow> key_parts \<Rightarrow> int" where
  "watermark M k = (case M (revisionKey k) of Some s \<Rightarrow> int (str_nat s) | None \<Rightarrow> 0)"

lemma rnd53_large: "2 ^ 53 < n \<Longrightarrow> 2 ^ 53 \<le> rnd53 n"
proof -
  assume n: "2 ^ 53 < n"
  define e where "e = nat (bitlen n) - 53"
  define q where "q = n div 2 ^ e"
  have "\<not> bitlen n \<le> 53" using bitlen_le_iff_power [of n 53] n by simp
  then have bl: "54 \<le> bitlen n" by simp
  have "2 ^ nat (bitlen n - 1) \<le> n" using bitlen_bounds [of n] n by simp
  moreover have "nat (bitlen n - 1) = 52 + e" using bl by (simp add: e_def)
  ultimately have "2 ^ 52 * 2 ^ e \<le> n" by (simp only: power_add)
  then have "2 ^ 52 * 2 ^ e div 2 ^ e \<le> q" unfolding q_def by (rule zdiv_mono1) simp
  then have q: "2 ^ 52 \<le> q" by simp
  have e: "1 \<le> e" using bl by (simp add: e_def)
  obtain q' where q': "q \<le> q'" "rnd53 n = q' * 2 ^ e"
  proof (rule that)
    let ?q = "if n mod 2 ^ e > 2 ^ (e - 1) \<or> (n mod 2 ^ e = 2 ^ (e - 1) \<and> odd q) then q + 1 else q"
    show "q \<le> ?q" by simp
    show "rnd53 n = ?q * 2 ^ e" using n by (simp add: rnd53_def Let_def e_def q_def)
  qed
  have "(2 :: int) ^ 53 = 2 ^ 52 * 2 ^ 1" by simp
  also have "\<dots> \<le> q' * 2 ^ e" using q q'(1) e by (intro mult_mono power_increasing) auto
  finally show ?thesis by (simp add: q'(2))
qed

lemma safe_exact:
  assumes "is_safe_integer (rnd53 n)" "0 \<le> n"
  shows "rnd53 n = n"
proof (cases "n \<le> 2 ^ 53")
  case False
  then have "2 ^ 53 \<le> rnd53 n" by (intro rnd53_large) simp
  with assms(1) show ?thesis by (simp add: is_safe_integer_def max_safe_def)
qed (use assms(2) in simp)

lemma next_revision:
  assumes "computeNextRevision stored ms = Inr n"
  shows "(case stored of Some s \<Rightarrow> int (str_nat s) | None \<Rightarrow> 0) < n \<and> ms \<le> n \<and> is_safe_integer n"
proof -
  have j: "js_add x 1 = x + 1" if "is_safe_integer x" for x
    by (rule js_add_exact) (use that in \<open>auto simp: is_safe_integer_def max_safe_def\<close>)
  show ?thesis
  proof (cases stored)
    case None
    then show ?thesis using assms j [of 0]
      by (auto simp: computeNextRevision_def Let_def is_safe_integer_def max_safe_def split: if_splits)
  next
    case (Some s)
    show ?thesis
    proof (cases "s = []")
      case True
      then show ?thesis using assms Some j [of 0]
        by (auto simp: computeNextRevision_def Let_def is_safe_integer_def max_safe_def str_nat_def split: if_splits)
    next
      case False
      let ?x = "rnd53 (int (str_nat s))"
      have sx: "is_safe_integer ?x" and n: "n = max ms (js_add ?x 1)" and sn: "is_safe_integer n"
        using assms False by (auto simp: computeNextRevision_def Some Let_def split: if_splits sum.splits)
      then show ?thesis using safe_exact [OF sx] j [OF sx] by (auto simp: Some)
    qed
  qed
qed

lemma watermark_next: "computeNextRevision (M (revisionKey k)) ms = Inr n \<Longrightarrow> watermark M k < n"
  using next_revision by (auto simp: watermark_def)

lemma keys_apart [simp]:
  "revisionKey k \<noteq> successKey k'" "revisionKey k \<noteq> closedVaultKey k'" "revisionKey k \<noteq> deregPendingKey k'"
  "successKey k' \<noteq> revisionKey k" "closedVaultKey k' \<noteq> revisionKey k" "deregPendingKey k' \<noteq> revisionKey k"
  "successKey k \<noteq> closedVaultKey k'" "closedVaultKey k' \<noteq> successKey k"
  "successKey k \<noteq> deregPendingKey k'" "deregPendingKey k' \<noteq> successKey k"
  "closedVaultKey k \<noteq> deregPendingKey k'" "deregPendingKey k' \<noteq> closedVaultKey k"
  by (simp_all add: revisionKey_def successKey_def closedVaultKey_def deregPendingKey_def)

text \<open>The revisions posted for one identity, in order.\<close>

definition posted_revision :: "key_parts \<Rightarrow> event \<Rightarrow> int option" where
  "posted_revision k ev =
     (case ev of
        Posted j \<Rightarrow>
          (if js_field ''cluster'' j = JStr (kp_cluster k) \<and> js_field ''programId'' j = JStr (kp_programId k)
              \<and> js_field ''owner'' j = JStr (kp_owner k) \<and> js_field ''vault'' j = JStr (kp_vault k)
           then (case js_field ''revision'' j of JNum n \<Rightarrow> Some n | _ \<Rightarrow> None) else None)
      | _ \<Rightarrow> None)"

definition posted_revisions :: "key_parts \<Rightarrow> event list \<Rightarrow> int list" where
  "posted_revisions k evs = List.map_filter (posted_revision k) evs"

lemma posted_revisions_append: "posted_revisions k (xs @ ys) = posted_revisions k xs @ posted_revisions k ys"
  by (simp add: posted_revisions_def List.map_filter_def)

lemma posted_revision_body:
  "posted_revision k (Posted (register_body tok f sg)) = (if key_of f = k then Some (r2_revision f) else None)"
  by (cases k) (auto simp: posted_revision_def register_body_def key_of_def)

lemma posted_revision_other [simp]: "posted_revision k (Wrote a b) = None" "posted_revision k (Signed m) = None" "posted_revision k (Replied p) = None"
  by (simp_all add: posted_revision_def)

lemma written_Cons [simp]:
  "written (Wrote k v # evs) m = written evs (m(k \<mapsto> v))"
  "written (Signed b # evs) m = written evs m"
  "written (Posted j # evs) m = written evs m"
  "written (Replied p # evs) m = written evs m"
  by (simp_all add: written_def)

lemma watermark_nonneg: "0 \<le> watermark M k"
  by (simp add: watermark_def split: option.splits)

lemma watermark_write:
  "0 < n \<Longrightarrow> watermark (M(revisionKey k' \<mapsto> int_str n)) k = (if revisionKey k = revisionKey k' then n else watermark M k)"
  by (auto simp: watermark_def int_str_def str_nat_nat_str)

lemma watermark_other [simp]:
  "watermark (M(successKey k' \<mapsto> v)) k = watermark M k" "watermark (M(closedVaultKey k' \<mapsto> v)) k = watermark M k"
  "watermark (M(deregPendingKey k' \<mapsto> v)) k = watermark M k"
  by (simp_all add: watermark_def)

lemma watermark_same: "revisionKey k = revisionKey k' \<Longrightarrow> watermark M k = watermark M k'"
  by (simp add: watermark_def)

lemma watermark_step:
  assumes "computeNextRevision (M (revisionKey k')) ms = Inr n"
  shows "watermark M k \<le> watermark (M(revisionKey k' \<mapsto> int_str n)) k \<and> 0 < n
    \<and> (k' = k \<longrightarrow> watermark M k < n \<and> watermark (M(revisionKey k' \<mapsto> int_str n)) k = n)"
proof -
  have n: "watermark M k' < n" "0 < n" using watermark_next [where M = M and k = k' and ms = ms, OF assms] watermark_nonneg [of M k'] by auto
  show ?thesis
  proof (cases "revisionKey k = revisionKey k'")
    case True
    have "watermark M k = watermark M k'" by (rule watermark_same) (rule True)
    moreover have "watermark (M(revisionKey k' \<mapsto> int_str n)) k = n" unfolding watermark_write [OF n(2)] by (rule if_P) (rule True)
    ultimately show ?thesis using n by (intro conjI impI) linarith+
  next
    case False
    then have "watermark (M(revisionKey k' \<mapsto> int_str n)) k = watermark M k" unfolding watermark_write [OF n(2)] by (rule if_not_P)
    then show ?thesis using n False by auto
  qed
qed

lemma reg_run_watermark:
  assumes "reg_run L B k' M r evs"
  shows "watermark M k \<le> watermark (written evs M) k
    \<and> (posted_revisions k evs = [] \<or> (\<exists>n. posted_revisions k evs = [n] \<and> watermark M k < n \<and> n \<le> watermark (written evs M) k))"
  using assms
proof (cases rule: reg_run.cases)
  case (reg_unanswered ms f m sg tok)
  have st: "watermark M k \<le> watermark (M(revisionKey k' \<mapsto> int_str (r2_revision f))) k"
    "k' = k \<longrightarrow> watermark M k < r2_revision f \<and> watermark (M(revisionKey k' \<mapsto> int_str (r2_revision f))) k = r2_revision f"
    using watermark_step [where M = M and k' = k' and ms = ms and k = k, OF reg_unanswered(3)] by simp_all
  have wr: "written evs M = M(revisionKey k' \<mapsto> int_str (r2_revision f))" by (simp add: reg_unanswered(2))
  have pr: "posted_revisions k evs = (if k' = k then [r2_revision f] else [])"
    by (simp add: reg_unanswered(2,4) posted_revisions_def List.map_filter_simps posted_revision_body)
  show ?thesis unfolding wr pr using st by (cases "k' = k") simp_all
next
  case (reg_rejected ms f m sg p tok)
  have st: "watermark M k \<le> watermark (M(revisionKey k' \<mapsto> int_str (r2_revision f))) k"
    "k' = k \<longrightarrow> watermark M k < r2_revision f \<and> watermark (M(revisionKey k' \<mapsto> int_str (r2_revision f))) k = r2_revision f"
    using watermark_step [where M = M and k' = k' and ms = ms and k = k, OF reg_rejected(3)] by simp_all
  have wr: "written evs M = M(revisionKey k' \<mapsto> int_str (r2_revision f))" by (simp add: reg_rejected(2))
  have pr: "posted_revisions k evs = (if k' = k then [r2_revision f] else [])"
    by (simp add: reg_rejected(2,4) posted_revisions_def List.map_filter_simps posted_revision_body)
  show ?thesis unfolding wr pr using st by (cases "k' = k") simp_all
next
  case (reg_done ms f m sg p cr ws now tok)
  have st: "watermark M k \<le> watermark (M(revisionKey k' \<mapsto> int_str (r2_revision f))) k"
    "k' = k \<longrightarrow> watermark M k < r2_revision f \<and> watermark (M(revisionKey k' \<mapsto> int_str (r2_revision f))) k = r2_revision f"
    using watermark_step [where M = M and k' = k' and ms = ms and k = k, OF reg_done(3)] by simp_all
  have ws: "watermark (written ws M') k = watermark M' k" "posted_revisions k ws = []" for M'
    using reg_done(8) by (auto simp: posted_revisions_def List.map_filter_simps)
  have wr: "watermark (written evs M) k = watermark (M(revisionKey k' \<mapsto> int_str (r2_revision f))) k"
    by (simp add: reg_done(2) ws)
  have pr: "posted_revisions k evs = (if k' = k then [r2_revision f] else [])"
    unfolding reg_done(2) posted_revisions_append ws
    by (simp add: reg_done(4) posted_revisions_def List.map_filter_simps posted_revision_body)
  show ?thesis unfolding wr pr using st by (cases "k' = k") simp_all
next
  case (reg_revised ms n s t)
  then show ?thesis using watermark_step [where M = M and k' = k' and ms = ms and k = k, OF reg_revised(3)]
    by (simp add: posted_revisions_def List.map_filter_simps)
next
  case (reg_refused ms f m s t)
  then show ?thesis using watermark_step [where M = M and k' = k' and ms = ms and k = k, OF reg_refused(3)]
    by (simp add: posted_revisions_def List.map_filter_simps)
next
  case (reg_local s t)
  then show ?thesis by (simp add: posted_revisions_def List.map_filter_simps)
qed

text \<open>A session: attempts one after the other, each going on whatever the last one did.\<close>

fun session :: "notify_libs \<Rightarrow> script \<Rightarrow> string \<Rightarrow> string \<Rightarrow> registration_input list \<Rightarrow> 'e notify_world_scheme \<Rightarrow> 'e notify_world_scheme" where
  "session L S cluster programId [] w = w"
| "session L S cluster programId (inp # inps) w =
     session L S cluster programId inps
       (snd (attemptSignedRegistration L (registration_deps_of L S cluster programId) inp w))"

lemma attempt_events:
  obtains evs where "events (snd (attemptSignedRegistration L (registration_deps_of L S cluster programId) inp w)) = events w @ evs"
    and "watermark (settings w) k \<le> watermark (settings (snd (attemptSignedRegistration L (registration_deps_of L S cluster programId) inp w))) k"
    and "posted_revisions k evs = [] \<or> (\<exists>n. posted_revisions k evs = [n] \<and> watermark (settings w) k < n
      \<and> n \<le> watermark (settings (snd (attemptSignedRegistration L (registration_deps_of L S cluster programId) inp w))) k)"
proof (cases "inFlight w")
  case True
  then show ?thesis using that [of "[]"] by (simp add: attemptSignedRegistration_def bindE_def ret_apply posted_revisions_def List.map_filter_simps)
next
  case False
  obtain r w' where r: "attemptSignedRegistration L (registration_deps_of L S cluster programId) inp w = (r, w')"
    by (cases "attemptSignedRegistration L (registration_deps_of L S cluster programId) inp w")
  show ?thesis
  proof (cases r)
    case (Inl e)
    then show ?thesis using that [of "[]"] attempt_follows_protocol [OF False, of L S cluster programId inp]
      by (simp add: r wp_def posted_revisions_def List.map_filter_simps)
  next
    case (Inr a)
    then obtain evs where "events w' = events w @ evs" "settings w' = written evs (settings w)"
      "reg_run L (registerMessageV2 (nl_canon L)) (identity_of S cluster programId (ri_owner inp)) (settings w) a evs"
      using attempt_follows_protocol [OF False, of L S cluster programId inp] by (auto simp: r wp_def)
    then show ?thesis using that [of evs] reg_run_watermark [of L _ _ "settings w" a evs k] by (simp add: r)
  qed
qed

lemma session_increasing:
  "\<exists>evs. events (session L S cluster programId inps w) = events w @ evs
     \<and> sorted_wrt (<) (posted_revisions k evs) \<and> (\<forall>n\<in>set (posted_revisions k evs). watermark (settings w) k < n)"
proof (induction inps arbitrary: w)
  case Nil
  show ?case by (rule exI [of _ "[]"]) (simp add: posted_revisions_def List.map_filter_simps)
next
  case (Cons inp inps)
  let ?w = "snd (attemptSignedRegistration L (registration_deps_of L S cluster programId) inp w)"
  obtain e1 where e1: "events ?w = events w @ e1" "watermark (settings w) k \<le> watermark (settings ?w) k"
    "posted_revisions k e1 = [] \<or> (\<exists>n. posted_revisions k e1 = [n] \<and> watermark (settings w) k < n \<and> n \<le> watermark (settings ?w) k)"
    by (rule attempt_events [of L S cluster programId inp w k])
  obtain e2 where e2: "events (session L S cluster programId inps ?w) = events ?w @ e2"
    "sorted_wrt (<) (posted_revisions k e2)" "\<forall>n\<in>set (posted_revisions k e2). watermark (settings ?w) k < n"
    using Cons.IH [of ?w] by blast
  have "\<forall>n\<in>set (posted_revisions k e1). watermark (settings w) k < n \<and> n \<le> watermark (settings ?w) k"
    and one: "sorted_wrt (<) (posted_revisions k e1)" using e1(3) by auto
  then have "sorted_wrt (<) (posted_revisions k (e1 @ e2))"
    "\<forall>n\<in>set (posted_revisions k (e1 @ e2)). watermark (settings w) k < n"
    using e2(2,3) e1(2) by (fastforce simp: posted_revisions_append sorted_wrt_append)+
  moreover have "events (session L S cluster programId (inp # inps) w) = events w @ e1 @ e2"
    using e1(1) e2(1) by simp
  ultimately show ?case by blast
qed

text \<open>
  C8: over any sequence of attempts, for any owners, answers and storage failures, the revisions
  posted for an identity strictly increase and exceed the stored high-watermark: a later request is
  never ordered before an earlier one, also when the clock goes backwards.
\<close>

theorem session_revisions_increase:
  "\<exists>evs. events (session L S cluster programId inps w) = events w @ evs
     \<and> sorted_wrt (<) (posted_revisions k evs) \<and> filter (\<lambda>n. n \<le> watermark (settings w) k) (posted_revisions k evs) = []"
proof -
  obtain evs where "events (session L S cluster programId inps w) = events w @ evs"
    "sorted_wrt (<) (posted_revisions k evs)" "\<forall>n\<in>set (posted_revisions k evs). watermark (settings w) k < n"
    using session_increasing by blast
  then show ?thesis by (intro exI [of _ evs]) (auto simp: filter_empty_conv)
qed

end
