(* ===== verification/Notify_Dereg.thy ===== *)
theory Notify_Dereg
  imports Notify_Reg_Props
begin

text \<open>
  The signed deregistration attempt and the record of a closed vault
  (\<open>services/NotificationRegistrationService.ts\<close>): a tombstone over the success record, a durable
  marker when it cannot be written, and the closed-vault proof that lets a clean-up treat
  \<open>ownership_failed\<close> as already done.
\<close>

subsection \<open>Reading stored records\<close>

text \<open>\<open>raw ? JSON.parse(raw) : null\<close>; a text that does not parse throws.\<close>

definition read_json :: "notify_libs \<Rightarrow> ('w, 'x) local_deps_scheme \<Rightarrow> string \<Rightarrow> ('w, json) io" where
  "read_json L D key =
     bindE (d_getSetting D key) (\<lambda>raw.
     case raw of None \<Rightarrow> ret JNull
     | Some s \<Rightarrow> if s = [] then ret JNull
                else (case nl_parse L s of None \<Rightarrow> throw (External 3) | Some j \<Rightarrow> ret j))"

subsection \<open>Closing a vault\<close>

record closure_input =
  ci_owner :: string
  ci_revokeSig :: string
  ci_revokedAt :: int

text \<open>An undefined \<open>priorRevision\<close> is left out by \<open>JSON.stringify\<close>.\<close>

definition closure_json :: "key_parts \<Rightarrow> closure_input \<Rightarrow> int option \<Rightarrow> json" where
  "closure_json k inp prior = JObj
     ([(''schemaVersion'', JNum 1), (''owner'', JStr (kp_owner k)), (''vault'', JStr (kp_vault k)),
       (''cluster'', JStr (kp_cluster k)), (''programId'', JStr (kp_programId k)),
       (''revokedAt'', JNum (ci_revokedAt inp)), (''revokeSig'', JStr (ci_revokeSig inp))]
      @ (case prior of None \<Rightarrow> [] | Some n \<Rightarrow> [(''priorRevision'', JNum n)])
      @ [(''needsServerReconcile'', JBool True)])"

text \<open>The record check: \<open>None\<close> when there is nothing to reconcile, else the prior revision.\<close>

definition active_record :: "key_parts \<Rightarrow> json \<Rightarrow> int option option" where
  "active_record k rc =
     (if \<not> js_truthy rc \<or> js_field ''owner'' rc \<noteq> JStr (kp_owner k) \<or> js_field ''vault'' rc \<noteq> JStr (kp_vault k)
         \<or> js_truthy (js_field ''deregisteredAt'' rc) then None
      else Some (case js_field ''revision'' rc of JNum n \<Rightarrow> Some n | _ \<Rightarrow> None))"

definition recordVaultClosure ::
  "notify_libs \<Rightarrow> ('w, 'x) local_deps_scheme \<Rightarrow> closure_input \<Rightarrow> ('w, bool) io" where
  "recordVaultClosure L D inp =
     (let ow = ci_owner inp in
      if \<not> isCanonicalPubkey L ow then ret False
      else if length (ci_revokeSig inp) < 32 then ret False
      else if \<not> isSafePosInt (ci_revokedAt inp) then ret False
      else or_return (liftE (d_deriveVault D ow)) False (\<lambda>vault.
      if \<not> isCanonicalPubkey L vault then ret False
      else if d_cluster D \<noteq> EXPECTED_CLUSTER \<or> d_programId D \<noteq> EXPECTED_PROGRAM_ID then ret False
      else let k = \<lparr>kp_cluster = d_cluster D, kp_programId = d_programId D, kp_owner = ow, kp_vault = vault\<rparr> in
      or_return (read_json L D (successKey k)) False (\<lambda>rc.
      case active_record k rc of
        None \<Rightarrow> ret False
      | Some prior \<Rightarrow>
          or_return (d_setSetting D (closedVaultKey k) (nl_json L (closure_json k inp prior))) False (\<lambda>_. ret True))))"

subsection \<open>Deregistration\<close>

record deregister_input =
  di_owner :: string
  di_cleanup :: bool

datatype deregister_result =
    Deregistered int bool bool
  | DeregFail string "string option" bool

definition mapDeregisterStatusToCode :: "int \<Rightarrow> string" where
  "mapDeregisterStatusToCode s =
     (if s = 400 then ''invalid_request'' else if s = 401 then ''invalid_signature''
      else if s = 403 then ''ownership_failed'' else if s = 409 then ''owner_conflict''
      else if s = 410 then ''legacy_window_expired'' else if s = 429 then ''rate_limited''
      else if s = 502 then ''dependency_unavailable'' else if s = 503 then ''database_error'' else ''unknown'')"

definition DEREG_RETRYABLE_CODES :: "string list" where
  "DEREG_RETRYABLE_CODES = [''rate_limited'', ''dependency_unavailable'', ''database_error'']"

definition mapDeregisterError :: "string \<Rightarrow> string \<times> bool" where
  "mapDeregisterError code =
     (if code = ''invalid_request'' then (''The deregistration request was invalid.'', False)
      else if code = ''invalid_signature'' then (''The wallet signature could not be verified.'', False)
      else if code = ''stale_timestamp'' then (''The request expired (a slow wallet approval or an incorrect device clock). Check the time, then try again.'', True)
      else if code = ''context_mismatch'' then (''Your app network settings differ from the server. Check your network/cluster.'', False)
      else if code = ''nonce_reused'' then (''That request was already used. Try the action again.'', False)
      else if code = ''ownership_failed'' then (''This vault could not be verified as yours.'', False)
      else if code = ''owner_conflict'' then (''This vault is registered to a different owner.'', False)
      else if code = ''rate_limited'' then (''Too many attempts. Wait a moment, then try again.'', True)
      else if code = ''dependency_unavailable'' then (''The service is temporarily unavailable. Try again.'', True)
      else if code = ''database_error'' then (''The server had a temporary error. Try again.'', True)
      else if code = ''stale_revision'' \<or> code = ''legacy_window_expired'' then (''Server configuration inconsistency - please try again later.'', False)
      else (''Deregistration failed. Please try again.'', False))"

definition dereg_body :: "deregister_fields_v2 \<Rightarrow> string \<Rightarrow> json" where
  "dereg_body f sg = JObj
     [(''owner'', JStr (d2_owner f)), (''vault'', JStr (d2_vault f)), (''version'', JNum 2),
      (''cluster'', JStr (d2_cluster f)), (''programId'', JStr (d2_programId f)),
      (''audience'', JStr NOTIFY_AUDIENCE), (''action'', JStr ''deregister''),
      (''timestamp'', JNum (d2_timestamp f)), (''nonce'', JStr (d2_nonce f)), (''signature'', JStr sg)]"

definition tombstone_json :: "key_parts \<Rightarrow> int \<Rightarrow> json" where
  "tombstone_json k now = JObj
     [(''owner'', JStr (kp_owner k)), (''vault'', JStr (kp_vault k)), (''cluster'', JStr (kp_cluster k)),
      (''programId'', JStr (kp_programId k)), (''deregisteredAt'', JNum now), (''localCleanupPending'', JBool False)]"

text \<open>The tombstone, else the durable marker; the closed-vault proof goes only when the tombstone is there.\<close>

definition dereg_cleanup ::
  "notify_libs \<Rightarrow> ('w, 'x) signing_deps_scheme \<Rightarrow> key_parts \<Rightarrow> ('w, bool) io" where
  "dereg_cleanup L D k =
     bindE (tryE
       (bindE (d_nowSec D) (\<lambda>now.
        seqE (d_setSetting D (successKey k) (nl_json L (tombstone_json k now))) (ret False)))
       (\<lambda>_. seqE (quietly (bindE (d_nowSec D) (\<lambda>now. d_setSetting D (deregPendingKey k) (int_str now)))) (ret True)))
     (\<lambda>localCleanupPending.
     seqE (if localCleanupPending then ret () else quietly (d_setSetting D (closedVaultKey k) []))
     (ret localCleanupPending))"

definition dereg_response ::
  "notify_libs \<Rightarrow> ('w, 'x) signing_deps_scheme \<Rightarrow> key_parts \<Rightarrow> bool \<Rightarrow> bool \<Rightarrow> reply \<Rightarrow> ('w, deregister_result) io" where
  "dereg_response L D k hasRecord closureProven res =
     (if rp_status res = 200 \<and> (rp_removed res = Some 0 \<or> rp_removed res = Some 1) then
        let removed = the (rp_removed res) in
        if hasRecord \<or> removed = 1 then
          bindE (dereg_cleanup L D k) (\<lambda>p. ret (Deregistered removed p False))
        else
          seqE (quietly (d_setSetting D (closedVaultKey k) [])) (ret (Deregistered removed False False))
      else
        let code = code_or mapDeregisterStatusToCode res in
        if code = ''ownership_failed'' \<and> closureProven then
          bindE (dereg_cleanup L D k) (\<lambda>p. ret (Deregistered 0 p True))
        else ret (DeregFail ''server'' (Some code) (code \<in> set DEREG_RETRYABLE_CODES)))"

definition dereg_sign ::
  "notify_libs \<Rightarrow> ('w, 'x) deregister_deps_scheme \<Rightarrow> deregister_fields_v2 \<Rightarrow> (reply \<Rightarrow> ('w, deregister_result) io)
   \<Rightarrow> ('w, deregister_result) io" where
  "dereg_sign L D f respond =
     or_return (liftE (d_buildDeregister D f)) (DeregFail ''validate'' None False) (\<lambda>message.
     or_return (d_signMessage D (utf8 message)) (DeregFail ''wallet'' None True) (\<lambda>sigBytes.
     if length sigBytes \<noteq> 64 then ret (DeregFail ''signature'' None False)
     else
     or_return (d_postDeregister D (dereg_body f (nl_bs58 L sigBytes)))
       (DeregFail ''network'' (Some ''dependency_unavailable'') True) respond))"

definition closure_proof :: "key_parts \<Rightarrow> bool \<Rightarrow> json \<Rightarrow> bool" where
  "closure_proof k cleanup tomb \<longleftrightarrow>
     cleanup \<and> js_truthy tomb \<and> js_field ''owner'' tomb = JStr (kp_owner k)
     \<and> js_field ''vault'' tomb = JStr (kp_vault k)
     \<and> (case js_field ''revokedAt'' tomb of JNum n \<Rightarrow> isSafePosInt n | _ \<Rightarrow> False)
     \<and> (case js_field ''revokeSig'' tomb of JStr s \<Rightarrow> 32 \<le> length s | _ \<Rightarrow> False)"

definition dereg_checked ::
  "notify_libs \<Rightarrow> ('w, 'x) deregister_deps_scheme \<Rightarrow> key_parts \<Rightarrow> bool \<Rightarrow> ('w, deregister_result) io" where
  "dereg_checked L D k cleanup =
     bindE (tryE (read_json L D (successKey k)) (\<lambda>_. ret JNull)) (\<lambda>rc.
     if js_truthy rc \<and> (js_field ''owner'' rc \<noteq> JStr (kp_owner k) \<or> js_field ''vault'' rc \<noteq> JStr (kp_vault k))
     then ret (DeregFail ''owner_mismatch'' None False)
     else
     bindE (tryE (bindE (read_json L D (closedVaultKey k)) (\<lambda>tomb. ret (closure_proof k cleanup tomb))) (\<lambda>_. ret False))
     (\<lambda>closureProven.
     bindE (d_nowSec D) (\<lambda>timestamp.
     if \<not> isSafePosInt timestamp then ret (DeregFail ''validate'' None False)
     else
     or_return (d_generateNonce D) (DeregFail ''rng'' None False) (\<lambda>nonce.
     if \<not> nonce_ok nonce then ret (DeregFail ''rng'' None False)
     else
     dereg_sign L D
       \<lparr>d2_cluster = kp_cluster k, d2_programId = kp_programId k, d2_owner = kp_owner k, d2_vault = kp_vault k,
        d2_timestamp = timestamp, d2_nonce = nonce\<rparr>
       (dereg_response L D k (js_truthy rc) closureProven)))))"

definition dereg_attempt ::
  "notify_libs \<Rightarrow> ('w, 'x) deregister_deps_scheme \<Rightarrow> deregister_input \<Rightarrow> ('w, deregister_result) io" where
  "dereg_attempt L D inp =
     (let ow = di_owner inp in
      if \<not> isCanonicalPubkey L ow then ret (DeregFail ''validate'' None False)
      else or_return (liftE (d_deriveVault D ow)) (DeregFail ''validate'' None False) (\<lambda>vault.
      if \<not> isCanonicalPubkey L vault then ret (DeregFail ''validate'' None False)
      else if d_cluster D \<noteq> EXPECTED_CLUSTER \<or> d_programId D \<noteq> EXPECTED_PROGRAM_ID
      then ret (DeregFail ''context'' None False)
      else dereg_checked L D
        \<lparr>kp_cluster = d_cluster D, kp_programId = d_programId D, kp_owner = ow, kp_vault = vault\<rparr> (di_cleanup inp)))"

definition attemptSignedDeregistration ::
  "notify_libs \<Rightarrow> ('e notify_world_scheme, 'x) deregister_deps_scheme \<Rightarrow> deregister_input
   \<Rightarrow> ('e notify_world_scheme, deregister_result) io" where
  "attemptSignedDeregistration L D inp =
     bindE (gets deregInFlight) (\<lambda>busy.
     if busy then ret (DeregFail ''in_flight'' None False)
     else finallyE (seqE (modify (\<lambda>w. w\<lparr>deregInFlight := True\<rparr>)) (dereg_attempt L D inp))
            (\<lambda>w. w\<lparr>deregInFlight := False\<rparr>))"

subsection \<open>What a deregistration attempt may do\<close>

definition stored_json :: "notify_libs \<Rightarrow> (string \<rightharpoonup> string) \<Rightarrow> string \<Rightarrow> json option" where
  "stored_json L M key =
     (case M key of None \<Rightarrow> Some JNull | Some s \<Rightarrow> if s = [] then Some JNull else nl_parse L s)"

definition dereg_key_of :: "deregister_fields_v2 \<Rightarrow> key_parts" where
  "dereg_key_of f = \<lparr>kp_cluster = d2_cluster f, kp_programId = d2_programId f, kp_owner = d2_owner f, kp_vault = d2_vault f\<rparr>"

text \<open>The local writes after a removal: pending or not, and the events.\<close>

definition cleanup_writes :: "notify_libs \<Rightarrow> key_parts \<Rightarrow> bool \<Rightarrow> event list \<Rightarrow> bool" where
  "cleanup_writes L k pending ws \<longleftrightarrow>
     (if pending then ws = [] \<or> (\<exists>n. ws = [Wrote (deregPendingKey k) (int_str n)])
      else \<exists>now. ws = [Wrote (successKey k) (nl_json L (tombstone_json k now))]
              \<or> ws = [Wrote (successKey k) (nl_json L (tombstone_json k now)), Wrote (closedVaultKey k) []])"

definition removal_accepted :: "reply \<Rightarrow> bool" where
  "removal_accepted p \<longleftrightarrow> rp_status p = 200 \<and> (rp_removed p = Some 0 \<or> rp_removed p = Some 1)"

inductive dereg_run ::
  "notify_libs \<Rightarrow> (deregister_fields_v2 \<Rightarrow> exn + string) \<Rightarrow> key_parts \<Rightarrow> bool \<Rightarrow> (string \<rightharpoonup> string)
   \<Rightarrow> deregister_result \<Rightarrow> event list \<Rightarrow> bool"
  for L B k cl M where
  dereg_local: "s \<in> {''validate'', ''context'', ''owner_mismatch'', ''rng''} \<Longrightarrow> dereg_run L B k cl M (DeregFail s None False) []"
| dereg_refused: "dereg_key_of f = k \<Longrightarrow> B f = Inr m \<Longrightarrow> s \<in> {''wallet'', ''signature''} \<Longrightarrow>
    dereg_run L B k cl M (DeregFail s None t) [Signed (utf8 m)]"
| dereg_unanswered: "dereg_key_of f = k \<Longrightarrow> B f = Inr m \<Longrightarrow>
    dereg_run L B k cl M (DeregFail ''network'' (Some ''dependency_unavailable'') True)
      [Signed (utf8 m), Posted (dereg_body f sg)]"
| dereg_rejected: "dereg_key_of f = k \<Longrightarrow> B f = Inr m \<Longrightarrow> \<not> removal_accepted p \<Longrightarrow>
    dereg_run L B k cl M (DeregFail ''server'' (Some (code_or mapDeregisterStatusToCode p)) t)
      [Signed (utf8 m), Posted (dereg_body f sg), Replied p]"
| dereg_removed: "dereg_key_of f = k \<Longrightarrow> B f = Inr m \<Longrightarrow> removal_accepted p \<Longrightarrow> cleanup_writes L k pending ws \<Longrightarrow>
    dereg_run L B k cl M (Deregistered (the (rp_removed p)) pending False)
      ([Signed (utf8 m), Posted (dereg_body f sg), Replied p] @ ws)"
| dereg_absent: "dereg_key_of f = k \<Longrightarrow> B f = Inr m \<Longrightarrow> rp_status p = 200 \<Longrightarrow> rp_removed p = Some 0 \<Longrightarrow>
    ws \<in> {[], [Wrote (closedVaultKey k) []]} \<Longrightarrow>
    dereg_run L B k cl M (Deregistered 0 False False) ([Signed (utf8 m), Posted (dereg_body f sg), Replied p] @ ws)"
| dereg_closed: "dereg_key_of f = k \<Longrightarrow> B f = Inr m \<Longrightarrow> \<not> removal_accepted p \<Longrightarrow>
    code_or mapDeregisterStatusToCode p = ''ownership_failed'' \<Longrightarrow>
    stored_json L M (closedVaultKey k) = Some tomb \<Longrightarrow> closure_proof k cl tomb \<Longrightarrow> cleanup_writes L k pending ws \<Longrightarrow>
    dereg_run L B k cl M (Deregistered 0 pending True)
      ([Signed (utf8 m), Posted (dereg_body f sg), Replied p] @ ws)"

inductive_cases dereg_runE: "dereg_run L B k cl M r evs"
inductive_cases dereg_run_absentE: "dereg_run L B k cl M (Deregistered n pending True) evs"

locale deregistration_env = signing_env D view log
  for D :: "('w, 'x) deregister_deps_scheme" and view :: "'w \<Rightarrow> string \<rightharpoonup> string" and log :: "'w \<Rightarrow> event list" +
  assumes dpost_log: "d_postDeregister D j w = (Inr p, w') \<Longrightarrow> log w' = log w @ [Posted j, Replied p] \<and> view w' = view w"
    and dpost_fail_log: "d_postDeregister D j w = (Inl e, w') \<Longrightarrow> log w' = log w @ [Posted j] \<and> view w' = view w"
begin

abbreviation outcome :: "notify_libs \<Rightarrow> key_parts \<Rightarrow> bool \<Rightarrow> 'w \<Rightarrow> deregister_result \<Rightarrow> 'w \<Rightarrow> bool" where
  "outcome L k cl w r w' \<equiv> \<exists>evs. did w evs w' \<and> dereg_run L (d_buildDeregister D) k cl (view w) r evs"

lemma wp_post:
  assumes "did w evs w1" "\<And>p w2. did w (evs @ [Posted b, Replied p]) w2 \<Longrightarrow> Q p w2"
    "\<And>e w2. did w (evs @ [Posted b]) w2 \<Longrightarrow> E e w2"
  shows "wp (d_postDeregister D b) Q E w1"
proof -
  obtain r w2 where r: "d_postDeregister D b w1 = (r, w2)" by (cases "d_postDeregister D b w1")
  show ?thesis
  proof (cases r)
    case (Inl e)
    then have "did w (evs @ [Posted b]) w2" using assms(1) dpost_fail_log [of b w1 e w2] r by (simp add: did_def)
    then show ?thesis using assms(3) r Inl by (simp add: wp_def)
  next
    case (Inr p)
    then have "did w (evs @ [Posted b, Replied p]) w2" using assms(1) dpost_log [of b w1 p w2] r
      by (simp add: did_def written_def)
    then show ?thesis using assms(2) r Inr by (simp add: wp_def)
  qed
qed

lemma wp_read_json:
  assumes "did w evs w1"
    "\<And>j w2. did w evs w2 \<Longrightarrow> stored_json L (written evs (view w)) key = Some j \<Longrightarrow> Q j w2"
    "\<And>e w2. did w evs w2 \<Longrightarrow> E e w2"
  shows "wp (read_json L D key) Q E w1"
  unfolding read_json_def wp_simps
  by (rule wp_get [OF assms(1)])
    (auto simp: wp_simps stored_json_def intro!: assms(2,3) split: option.split)

lemma dereg_cleanup_run:
  assumes "did w evs w1"
  shows "wp (dereg_cleanup L D k) (\<lambda>p w2. \<exists>ws. did w (evs @ ws) w2 \<and> cleanup_writes L k p ws) (\<lambda>_ _. False) w1"
  unfolding dereg_cleanup_def wp_simps
  apply (rule wp_sec [OF assms])
  apply (rule wp_set, assumption)
  subgoal for now w2 w3
    apply (simp add: wp_simps)
    apply (rule wp_set, assumption)
    subgoal for w4
      by (rule exI [of _ "[Wrote (successKey k) (nl_json L (tombstone_json k now)), Wrote (closedVaultKey k) []]"])
        (auto simp: cleanup_writes_def)
    subgoal for e w4
      by (rule exI [of _ "[Wrote (successKey k) (nl_json L (tombstone_json k now))]"]) (auto simp: cleanup_writes_def)
    done
  subgoal for now w2 e w3
    apply (rule wp_sec, assumption)
    apply (rule wp_set, assumption)
    subgoal for n w4 w5
      by (simp add: wp_simps) (rule exI [of _ "[Wrote (deregPendingKey k) (int_str n)]"], auto simp: cleanup_writes_def)
    subgoal for n w4 e' w5
      by (simp add: wp_simps) (rule exI [of _ "[]"], auto simp: cleanup_writes_def)
    done
  done

lemma dereg_response_run:
  assumes "did w [Signed (utf8 m), Posted (dereg_body f sg), Replied p] w1"
    and f: "dereg_key_of f = k" "d_buildDeregister D f = Inr m"
    and cp: "closureProven \<Longrightarrow> \<exists>tomb. stored_json L (view w) (closedVaultKey k) = Some tomb \<and> closure_proof k cl tomb"
  shows "wp (dereg_response L D k hasRecord closureProven p) (outcome L k cl w) (\<lambda>_ _. False) w1"
proof -
  let ?evs = "[Signed (utf8 m), Posted (dereg_body f sg), Replied p]"
  have cleaned: "wp (bindE (dereg_cleanup L D k) (\<lambda>q. ret (R q))) (outcome L k cl w) (\<lambda>_ _. False) w1"
    if "\<And>q ws. cleanup_writes L k q ws \<Longrightarrow> dereg_run L (d_buildDeregister D) k cl (view w) (R q) (?evs @ ws)" for R
    unfolding wp_simps by (rule wp_mono [OF dereg_cleanup_run [OF assms(1)]]) (use that in blast)+
  show ?thesis
  proof (cases "removal_accepted p")
    case True
    show ?thesis
    proof (cases "hasRecord \<or> the (rp_removed p) = 1")
      case t: True
      have "wp (bindE (dereg_cleanup L D k) (\<lambda>q. ret (Deregistered (the (rp_removed p)) q False))) (outcome L k cl w) (\<lambda>_ _. False) w1"
        by (rule cleaned) (rule dereg_removed, rule f(1), rule f(2), rule True, assumption)
      then show ?thesis using True t by (simp add: dereg_response_def removal_accepted_def Let_def)
    next
      case n: False
      then have r: "rp_status p = 200" "rp_removed p = Some 0" using True by (auto simp: removal_accepted_def)
      have a: "outcome L k cl w (Deregistered 0 False False) w2"
        if "did w (?evs @ ws) w2" "ws \<in> {[], [Wrote (closedVaultKey k) []]}" for ws w2
        by (intro exI conjI, rule that(1), rule dereg_absent, rule f(1), rule f(2), rule r(1), rule r(2), rule that(2))
      have "wp (quietly (d_setSetting D (closedVaultKey k) [])) (\<lambda>_. outcome L k cl w (Deregistered 0 False False)) (\<lambda>_ _. False) w1"
        unfolding wp_simps
        by (rule wp_set [OF assms(1)]) (use a [of "[Wrote (closedVaultKey k) []]"] a [of "[]"] in auto)
      then show ?thesis using r n by (simp add: dereg_response_def wp_simps)
    qed
  next
    case False
    let ?code = "code_or mapDeregisterStatusToCode p"
    show ?thesis
    proof (cases "?code = ''ownership_failed'' \<and> closureProven")
      case True
      then obtain tomb where t: "stored_json L (view w) (closedVaultKey k) = Some tomb" "closure_proof k cl tomb" using cp by blast
      have "wp (bindE (dereg_cleanup L D k) (\<lambda>q. ret (Deregistered 0 q True))) (outcome L k cl w) (\<lambda>_ _. False) w1"
        by (rule cleaned) (rule dereg_closed, rule f(1), rule f(2), rule False, rule conjunct1 [OF True], rule t(1), rule t(2), assumption)
      then show ?thesis using True False by (auto simp: dereg_response_def removal_accepted_def Let_def)
    next
      case n: False
      have "outcome L k cl w (DeregFail ''server'' (Some ?code) t) w1" for t
        by (intro exI conjI, rule assms(1), rule dereg_rejected, rule f(1), rule f(2), rule False)
      then show ?thesis using n False by (auto simp: dereg_response_def removal_accepted_def Let_def wp_simps)
    qed
  qed
qed

lemma dereg_sign_run:
  assumes "did w [] w1" "dereg_key_of f = k"
    and "closureProven \<Longrightarrow> \<exists>tomb. stored_json L (view w) (closedVaultKey k) = Some tomb \<and> closure_proof k cl tomb"
  shows "wp (dereg_sign L D f (dereg_response L D k hasRecord closureProven)) (outcome L k cl w) (\<lambda>_ _. False) w1"
proof (cases "d_buildDeregister D f")
  case (Inl e)
  have "outcome L k cl w (DeregFail ''validate'' None False) w1"
    by (intro exI conjI, rule assms(1), rule dereg_local) simp
  then show ?thesis unfolding dereg_sign_def wp_simps by (simp add: Inl)
next
  case (Inr m)
  have refused: "outcome L k cl w (DeregFail s None t) w2"
    if "did w [Signed (utf8 m)] w2" "s \<in> {''wallet'', ''signature''}" for w2 s t
    by (intro exI conjI, rule that(1), rule dereg_refused, rule assms(2), rule Inr, rule that(2))
  have net: "outcome L k cl w (DeregFail ''network'' (Some ''dependency_unavailable'') True) w2"
    if "did w [Signed (utf8 m), Posted (dereg_body f sg)] w2" for w2 sg
    by (intro exI conjI, rule that(1), rule dereg_unanswered, rule assms(2), rule Inr)
  have posted: "wp (or_return (d_postDeregister D (dereg_body f sg))
       (DeregFail ''network'' (Some ''dependency_unavailable'') True) (dereg_response L D k hasRecord closureProven))
     (outcome L k cl w) (\<lambda>_ _. False) w2" if "did w [Signed (utf8 m)] w2" for w2 sg
    unfolding wp_simps
    by (rule wp_post [OF that]) (auto intro!: dereg_response_run [OF _ assms(2) Inr] net assms(3))
  show ?thesis
    unfolding dereg_sign_def wp_simps
    by (simp add: Inr, rule wp_sign [OF assms(1)]) (auto simp: wp_ret wp_or_return intro!: refused posted [unfolded wp_or_return])
qed

lemma dereg_checked_run:
  assumes "did w [] w1"
  shows "wp (dereg_checked L D k cl) (outcome L k cl w) (\<lambda>_ _. False) w1"
proof -
  have local: "outcome L k cl w (DeregFail s None False) w2"
    if "did w [] w2" "s \<in> {''validate'', ''context'', ''owner_mismatch'', ''rng''}" for s w2
    by (intro exI conjI, rule that(1), rule dereg_local) (rule that(2))
  have tail: "wp (bindE (d_nowSec D) (\<lambda>timestamp.
     if \<not> isSafePosInt timestamp then ret (DeregFail ''validate'' None False)
     else or_return (d_generateNonce D) (DeregFail ''rng'' None False) (\<lambda>nonce.
     if \<not> nonce_ok nonce then ret (DeregFail ''rng'' None False)
     else dereg_sign L D (F timestamp nonce) (dereg_response L D k h c)))) (outcome L k cl w) (\<lambda>_ _. False) w2"
    if "did w [] w2" "\<And>t n. dereg_key_of (F t n) = k"
      "c \<Longrightarrow> \<exists>tomb. stored_json L (view w) (closedVaultKey k) = Some tomb \<and> closure_proof k cl tomb" for F h c w2
    unfolding wp_simps
    apply (rule wp_sec [OF that(1)])
    apply (auto intro!: local)
    apply (rule wp_calm [OF calm_nonce], assumption)
     apply (auto simp: wp_simps intro!: local dereg_sign_run that(2,3))
    done
  have closure: "wp (bindE (tryE (bindE (read_json L D (closedVaultKey k)) (\<lambda>tomb. ret (closure_proof k cl tomb))) (\<lambda>_. ret False)) K)
      (outcome L k cl w) (\<lambda>_ _. False) w2"
    if "did w [] w2" "\<And>c w3. did w [] w3 \<Longrightarrow> (c \<Longrightarrow> \<exists>tomb. stored_json L (view w) (closedVaultKey k) = Some tomb \<and> closure_proof k cl tomb)
        \<Longrightarrow> wp (K c) (outcome L k cl w) (\<lambda>_ _. False) w3" for K w2
    unfolding wp_simps by (rule wp_read_json [OF that(1)]) (auto intro!: that(2))
  have rest: "wp (if js_truthy rc \<and> (js_field ''owner'' rc \<noteq> JStr (kp_owner k) \<or> js_field ''vault'' rc \<noteq> JStr (kp_vault k))
     then ret (DeregFail ''owner_mismatch'' None False)
     else bindE (tryE (bindE (read_json L D (closedVaultKey k)) (\<lambda>tomb. ret (closure_proof k cl tomb))) (\<lambda>_. ret False)) K)
      (outcome L k cl w) (\<lambda>_ _. False) w2"
    if "did w [] w2" "\<And>c w3. did w [] w3 \<Longrightarrow> (c \<Longrightarrow> \<exists>tomb. stored_json L (view w) (closedVaultKey k) = Some tomb \<and> closure_proof k cl tomb)
        \<Longrightarrow> wp (K c) (outcome L k cl w) (\<lambda>_ _. False) w3" for K rc w2
    unfolding wp_if using closure [OF that] by (auto simp: wp_ret intro!: local that(1))
  show ?thesis
    unfolding dereg_checked_def wp_bindE [of "tryE _ _"] wp_tryE wp_ret_fun
    by (rule wp_read_json [OF assms]; rule rest; assumption?; rule tail; simp add: dereg_key_of_def)
qed

lemma dereg_attempt_run:
  assumes "did w [] w1"
  shows "wp (dereg_attempt L D inp)
    (outcome L \<lparr>kp_cluster = d_cluster D, kp_programId = d_programId D, kp_owner = di_owner inp,
       kp_vault = (case d_deriveVault D (di_owner inp) of Inr v \<Rightarrow> v | Inl _ \<Rightarrow> [])\<rparr> (di_cleanup inp) w)
    (\<lambda>_ _. False) w1"
proof -
  have local: "outcome L k cl w (DeregFail s None False) w1"
    if "s \<in> {''validate'', ''context'', ''owner_mismatch'', ''rng''}" for s k cl
    by (intro exI conjI, rule assms, rule dereg_local) (rule that)
  show ?thesis
    unfolding dereg_attempt_def Let_def
    by (auto simp: wp_simps assms intro!: local dereg_checked_run split: sum.split)
qed

end

definition deregister_deps_of ::
  "notify_libs \<Rightarrow> script \<Rightarrow> string \<Rightarrow> string \<Rightarrow> 'e notify_world_scheme deregister_deps" where
  "deregister_deps_of L S cluster programId = signing_deps.extend (signing_deps_of S cluster programId)
     (deregister_deps.fields (deregisterMessageV2 (nl_canon L)) (posting S))"

interpretation dereg: deregistration_env "deregister_deps_of L S cluster programId" settings events
  for L S cluster programId
proof (rule deregistration_env.intro)
  let ?D = "deregister_deps_of L S cluster programId :: 'a notify_world_scheme deregister_deps"
  show "signing_env ?D settings events" unfolding deregister_deps_of_def by (rule signing_env_of)
  show "deregistration_env_axioms ?D settings events"
  proof
    fix w w' :: "'a notify_world_scheme" and e and j
    show "d_postDeregister ?D j w = (Inr p, w') \<Longrightarrow> events w' = events w @ [Posted j, Replied p] \<and> settings w' = settings w" for p
      by (simp add: deregister_deps_of_def deps_defs deregister_deps.defs posting_ok)
    show "d_postDeregister ?D j w = (Inl e, w') \<Longrightarrow> events w' = events w @ [Posted j] \<and> settings w' = settings w"
      by (simp add: deregister_deps_of_def deps_defs deregister_deps.defs posting_fail)
  qed
qed

lemma cleanup_watermark: "cleanup_writes L k pending ws \<Longrightarrow> watermark (written ws M) k' = watermark M k'"
  by (auto simp: cleanup_writes_def split: if_splits)

lemma dereg_run_watermark:
  assumes "dereg_run L B k cl M r evs"
  shows "watermark (written evs M) k' = watermark M k'"
  using assms by cases (auto simp: cleanup_watermark)

lemma dereg_attempt_protocol:
  assumes "\<not> deregInFlight w"
  shows "wp (attemptSignedDeregistration L (deregister_deps_of L S cluster programId) inp)
    (\<lambda>r w'. \<not> deregInFlight w' \<and> (\<exists>evs. events w' = events w @ evs \<and> settings w' = written evs (settings w)
        \<and> dereg_run L (deregisterMessageV2 (nl_canon L)) (identity_of S cluster programId (di_owner inp)) (di_cleanup inp) (settings w) r evs))
    (\<lambda>_ _. False) w"
proof -
  let ?D = "deregister_deps_of L S cluster programId"
  let ?w = "w\<lparr>deregInFlight := True\<rparr>"
  have d: "d_buildDeregister ?D = deregisterMessageV2 (nl_canon L)" "d_cluster ?D = cluster"
    "d_programId ?D = programId" "d_deriveVault ?D = s_derive S"
    by (simp_all add: deregister_deps_of_def deregister_deps.defs deps_defs)
  have "wp (dereg_attempt L ?D inp)
     (\<lambda>r w'. \<exists>evs. events w' = events w @ evs \<and> settings w' = written evs (settings w)
        \<and> dereg_run L (deregisterMessageV2 (nl_canon L)) (identity_of S cluster programId (di_owner inp)) (di_cleanup inp) (settings w) r evs)
     (\<lambda>_ _. False) ?w"
    by (rule wp_mono [OF dereg.dereg_attempt_run [OF dereg.did_refl]]) (auto simp: d identity_of_def dereg.did_def)
  then show ?thesis
    unfolding attemptSignedDeregistration_def wp_simps using assms by (auto intro: wp_mono)
qed

text \<open>
  a deregistration never throws. While another one runs it does nothing; else it is a run of the
  protocol: at most one signature and one request for the same fields, success only on a 200 with
  \<open>removed\<close> 0 or 1 (or, in the clean-up context, on \<open>ownership_failed\<close> with a stored proof that
  this vault was closed), local writes only after success, the guard released, and the revision
  high-watermark of every identity untouched.
\<close>

theorem deregistration_follows_protocol:
  "if deregInFlight w
   then attemptSignedDeregistration L (deregister_deps_of L S cluster programId) inp w
          = (Inr (DeregFail ''in_flight'' None False), w)
   else wp (attemptSignedDeregistration L (deregister_deps_of L S cluster programId) inp)
     (\<lambda>r w'. \<not> deregInFlight w' \<and> (\<forall>k. watermark (settings w') k = watermark (settings w) k)
        \<and> (\<exists>evs. events w' = events w @ evs \<and> settings w' = written evs (settings w)
          \<and> dereg_run L (deregisterMessageV2 (nl_canon L)) (identity_of S cluster programId (di_owner inp)) (di_cleanup inp) (settings w) r evs))
     (\<lambda>_ _. False) w"
proof -
  have "wp (attemptSignedDeregistration L (deregister_deps_of L S cluster programId) inp)
     (\<lambda>r w'. \<not> deregInFlight w' \<and> (\<forall>k. watermark (settings w') k = watermark (settings w) k)
        \<and> (\<exists>evs. events w' = events w @ evs \<and> settings w' = written evs (settings w)
          \<and> dereg_run L (deregisterMessageV2 (nl_canon L)) (identity_of S cluster programId (di_owner inp)) (di_cleanup inp) (settings w) r evs))
     (\<lambda>_ _. False) w" if "\<not> deregInFlight w"
    by (rule wp_mono [OF dereg_attempt_protocol [OF that]]) (auto simp: dereg_run_watermark)
  then show ?thesis
    by (simp add: attemptSignedDeregistration_def bindE_def ret_apply)
qed

end
