(* ===== verification/Srv_Auth_Props.thy ===== *)
theory Srv_Auth_Props
  imports Srv_Auth Notify_Dereg
begin

text \<open>
  Client and server agree: the server rebuilds from a posted body exactly the text the client built
  and signed, accepts what an honest client posts in time, and authorizes nothing that the owner has
  not signed for this deployment.
\<close>

subsection \<open>The same text\<close>

lemma sv2_on_values:
  "sv2Cluster (JStr c) = v2Cluster c"
  "sv2Pubkey L (JStr k) fld = v2Pubkey (sl_canon L) k fld"
  "sv2TokenHash h = v2TokenHash h"
  "sv2PosInt (JNum n) fld = v2PosInt n fld"
  "sv2Nonce (JStr x) = v2Nonce x"
  by (auto simp: sv2Cluster_def v2Cluster_def sv2Pubkey_def v2Pubkey_def sv2TokenHash_def v2TokenHash_def sv2PosInt_def
      v2PosInt_def sv2Nonce_def v2Nonce_def split: option.split)

lemma v2_constants: "REGISTER_DOMAIN_V2 = ''DMV_NOTIFY_REGISTER_V2''" "DEREGISTER_DOMAIN_V2 = ''DMV_NOTIFY_DEREGISTER_V2''"
  "NOTIFY_AUDIENCE = ''https://notify.palatinearc.com''" "NOTIFY_AUTH_VERSION_V2 = 2"
  by (simp_all add: REGISTER_DOMAIN_V2_def DEREGISTER_DOMAIN_V2_def NOTIFY_AUDIENCE_def NOTIFY_AUTH_VERSION_V2_def)

text \<open>
  from any body the client posts, the server rebuilds the client's text for the same fields and
  the hash of the posted token, with the same error when a field is malformed.
\<close>

theorem server_rebuilds_signed_text:
  "srv_registerMessageV2 L (register_body token f sg) h = registerMessageV2 (sl_canon L) (f\<lparr>r2_tokenHash := h\<rparr>)
   \<and> srv_deregisterMessageV2 L (dereg_body g sg) = deregisterMessageV2 (sl_canon L) g"
  by (simp add: srv_registerMessageV2_def srv_register_lines_def registerMessageV2_def register_lines_v2_def
      srv_deregisterMessageV2_def srv_deregister_lines_def deregisterMessageV2_def deregister_lines_v2_def
      register_body_def dereg_body_def sv2_on_values v2_constants)

subsection \<open>What a command proves\<close>

definition command_fields :: "auth_context \<Rightarrow> reg_command \<Rightarrow> register_fields_v2" where
  "command_fields x c =
     \<lparr>r2_cluster = js_text (cx_cluster x), r2_programId = js_text (cx_programId x), r2_owner = rc_owner c, r2_vault = rc_vault c,
      r2_tokenHash = rc_tokenHash c, r2_stage1 = rc_stage1 c, r2_stage2 = rc_stage2 c, r2_stage3 = rc_stage3 c,
      r2_revision = rc_revision c, r2_timestamp = rc_signedAt c, r2_nonce = rc_nonce c\<rparr>"

definition dereg_command_fields :: "auth_context \<Rightarrow> dereg_command \<Rightarrow> deregister_fields_v2" where
  "dereg_command_fields x c =
     \<lparr>d2_cluster = js_text (cx_cluster x), d2_programId = js_text (cx_programId x), d2_owner = dc_owner c, d2_vault = dc_vault c,
      d2_timestamp = dc_signedAt c, d2_nonce = dc_nonce c\<rparr>"

text \<open>The owner's key verifies a signature on the text.\<close>

definition owner_signature :: "srv_libs \<Rightarrow> string \<Rightarrow> string \<Rightarrow> bool" where
  "owner_signature L owner m \<longleftrightarrow> (\<exists>sg key. sl_decode L owner = Inr key \<and> length key = 32 \<and> length sg = 64
     \<and> sl_ed25519 L (utf8 m) sg key = Inr True)"

lemma sv2_values:
  "\<exists>v. sv2Cluster c = Inr v \<Longrightarrow> sv2Cluster c = v2Cluster (js_text c)"
  "\<exists>v. sv2Pubkey L k fld = Inr v \<Longrightarrow> sv2Pubkey L k fld = v2Pubkey (sl_canon L) (js_text k) fld"
  "\<exists>v. sv2PosInt n fld = Inr v \<Longrightarrow> sv2PosInt n fld = v2PosInt (js_int n) fld"
  "\<exists>v. sv2Nonce x = Inr v \<Longrightarrow> sv2Nonce x = v2Nonce (js_text x)"
proof -
  show "\<exists>v. sv2Cluster c = Inr v \<Longrightarrow> sv2Cluster c = v2Cluster (js_text c)"
    by (cases c) (simp_all add: sv2Cluster_def v2Cluster_def split: if_splits)
  show "\<exists>v. sv2Pubkey L k fld = Inr v \<Longrightarrow> sv2Pubkey L k fld = v2Pubkey (sl_canon L) (js_text k) fld"
    by (cases k) (simp_all add: sv2_on_values(2), simp_all add: sv2Pubkey_def)
  show "\<exists>v. sv2PosInt n fld = Inr v \<Longrightarrow> sv2PosInt n fld = v2PosInt (js_int n) fld"
    by (cases n) (simp_all add: sv2_on_values, simp_all add: sv2PosInt_def)
  show "\<exists>v. sv2Nonce x = Inr v \<Longrightarrow> sv2Nonce x = v2Nonce (js_text x)"
    by (cases x) (simp_all add: sv2_on_values, simp_all add: sv2Nonce_def)
qed

lemma lines_all_defined: "lines_of ls = Inr vs \<Longrightarrow> list_all (\<lambda>l. \<exists>v. snd l = Inr v) ls"
  using lines_defined unfolding list_all_iff by fastforce

lemma joined_defined: "joined (lines_of ls) = Inr m \<Longrightarrow> list_all (\<lambda>l. \<exists>v. snd l = Inr v) ls"
  by (auto simp: joined_Inr intro: lines_all_defined)

lemma rebuilt_text:
  assumes "srv_registerMessageV2 L b h = Inr m" "js_field ''cluster'' b = cx_cluster x" "js_field ''programId'' b = cx_programId x"
  shows "registerMessageV2 (sl_canon L) (command_fields x (register_command b h now)) = Inr m"
proof -
  have "list_all (\<lambda>l. \<exists>v. snd l = Inr v) (srv_register_lines L b h)"
    using assms(1) unfolding srv_registerMessageV2_def by (rule joined_defined)
  then have "srv_register_lines L b h = register_lines_v2 (sl_canon L) (command_fields x (register_command b h now))"
    using assms(2,3)
    by (auto simp: srv_register_lines_def register_lines_v2_def command_fields_def register_command_def v2_constants
        sv2_on_values intro: sv2_values exI)
  then show ?thesis using assms(1) by (simp add: srv_registerMessageV2_def registerMessageV2_def)
qed

lemma rebuilt_dereg_text:
  assumes "srv_deregisterMessageV2 L b = Inr m" "js_field ''cluster'' b = cx_cluster x" "js_field ''programId'' b = cx_programId x"
  shows "deregisterMessageV2 (sl_canon L) (dereg_command_fields x (deregisterCommand b now)) = Inr m"
proof -
  have "list_all (\<lambda>l. \<exists>v. snd l = Inr v) (srv_deregister_lines L b)"
    using assms(1) unfolding srv_deregisterMessageV2_def by (rule joined_defined)
  then have "srv_deregister_lines L b = deregister_lines_v2 (sl_canon L) (dereg_command_fields x (deregisterCommand b now))"
    using assms(2,3)
    by (auto simp: srv_deregister_lines_def deregister_lines_v2_def dereg_command_fields_def deregisterCommand_def v2_constants
        intro: sv2_values exI)
  then show ?thesis using assms(1) by (simp add: srv_deregisterMessageV2_def deregisterMessageV2_def)
qed

lemma fresh_timestamp:
  "freshnessError t now = None \<Longrightarrow> t = JNum (js_int t) \<and> 0 < js_int t \<and> \<bar>now - js_int t\<bar> \<le> 600"
  by (cases t) (auto simp: freshnessError_def SIG_WINDOW_SEC_def split: if_splits)

lemma signature_checked:
  "verifyEd25519 L m sg key \<Longrightarrow> length key = 32 \<and> length sg = 64 \<and> sl_ed25519 L (utf8 m) sg key = Inr True"
  by (auto simp: verifyEd25519_def split: if_splits sum.splits)

lemma owner_key: "decodeOwnerBytes L ow = Some key \<Longrightarrow> sl_decode L ow = Inr key"
  by (auto simp: decodeOwnerBytes_def split: sum.splits if_splits)

lemma register_checks_sound:
  assumes "register_checks L (Some x) b now = Inr c"
  shows "\<exists>m. registerMessageV2 (sl_canon L) (command_fields x c) = Inr m \<and> owner_signature L (rc_owner c) m
    \<and> rc_tokenHash c = sha256Hex L (rc_deviceToken c) \<and> \<bar>now - rc_signedAt c\<bar> \<le> 600 \<and> rc_nonceUsedAt c = now"
proof -
  let ?h = "sha256Hex L (js_text (js_field ''deviceToken'' b))"
  from assms obtain m sg key where c: "\<not> contextMismatch b (Some x)" "freshnessError (js_field ''timestamp'' b) now = None"
      "srv_registerMessageV2 L b ?h = Inr m" "decodeOwnerBytes L (js_text (js_field ''owner'' b)) = Some key"
      "verifyEd25519 L m sg key" "c = register_command b ?h now"
    by (auto simp: register_checks_def Let_def split: if_splits option.splits sum.splits)
  have "registerMessageV2 (sl_canon L) (command_fields x c) = Inr m"
    unfolding c(6) by (rule rebuilt_text [OF c(3)]) (use c(1) in \<open>simp_all add: contextMismatch_def\<close>)
  moreover have "owner_signature L (rc_owner c) m"
    using signature_checked [OF c(5)] owner_key [OF c(4)] unfolding owner_signature_def c(6) by (auto simp: register_command_def)
  ultimately show ?thesis using fresh_timestamp [OF c(2)] by (auto simp: c(6) register_command_def)
qed

lemma deregister_checks_sound:
  assumes "deregister_checks L (Some x) b now = Inr c"
  shows "\<exists>m. deregisterMessageV2 (sl_canon L) (dereg_command_fields x c) = Inr m \<and> owner_signature L (dc_owner c) m
    \<and> sl_pda L (dc_owner c) (js_text (cx_programId x)) = Inr (dc_vault c) \<and> \<bar>now - dc_signedAt c\<bar> \<le> 600 \<and> dc_nonceUsedAt c = now"
proof -
  from assms obtain m sg key where c: "\<not> contextMismatch b (Some x)" "freshnessError (js_field ''timestamp'' b) now = None"
      "srv_deregisterMessageV2 L b = Inr m" "decodeOwnerBytes L (js_text (js_field ''owner'' b)) = Some key"
      "verifyEd25519 L m sg key" "c = deregisterCommand b now"
      "sl_pda L (js_text (js_field ''owner'' b)) (js_text (js_field ''programId'' b)) = Inr (js_text (js_field ''vault'' b))"
    by (auto simp: deregister_checks_def split: if_splits option.splits sum.splits)
  have x: "js_field ''cluster'' b = cx_cluster x" "js_field ''programId'' b = cx_programId x"
    using c(1) by (simp_all add: contextMismatch_def)
  have "deregisterMessageV2 (sl_canon L) (dereg_command_fields x c) = Inr m"
    unfolding c(6) by (rule rebuilt_dereg_text [OF c(3) x])
  moreover have "owner_signature L (dc_owner c) m"
    using signature_checked [OF c(5)] owner_key [OF c(4)] unfolding owner_signature_def c(6) by (auto simp: deregisterCommand_def)
  ultimately show ?thesis using fresh_timestamp [OF c(2)] c(7) by (auto simp: c(6) deregisterCommand_def x)
qed

lemma register_authorized:
  "wp (authorizeRegisterV2 L (Some x) verify bd)
     (\<lambda>r w'. case r of Inl c \<Rightarrow> True
       | Inr c \<Rightarrow> \<exists>m. registerMessageV2 (sl_canon L) (command_fields x c) = Inr m \<and> owner_signature L (rc_owner c) m
           \<and> rc_tokenHash c = sha256Hex L (rc_deviceToken c) \<and> \<bar>sw_now w - rc_signedAt c\<bar> \<le> 600
           \<and> rc_nonceUsedAt c = sw_now w \<and> (\<exists>v. verify (rc_owner c) (rc_vault c) v = (Inr Owned, w')))
     (\<lambda>_ _. False) w"
proof -
  have owned: "classifyOwnership v = None \<longleftrightarrow> v = Owned" for v by (cases v) simp_all
  show ?thesis
  proof (cases "register_checks L (Some x) (or_object bd) (sw_now w)")
    case (Inl c)
    then show ?thesis by (simp add: authorizeRegisterV2_def wp_simps)
  next
    case (Inr c)
    obtain r v where v: "verify (rc_owner c) (rc_vault c) w = (r, v)" by (cases "verify (rc_owner c) (rc_vault c) w")
    show ?thesis
    proof (cases r)
      case (Inl e)
      then show ?thesis using Inr v by (simp add: authorizeRegisterV2_def or_return_def wp_def bindE_def tryE_def ret_apply)
    next
      case ok: (Inr ow)
      then show ?thesis using Inr v owned register_checks_sound [OF Inr]
        by (cases ow) (auto simp: authorizeRegisterV2_def or_return_def wp_def bindE_def tryE_def ret_apply)
    qed
  qed
qed

lemma getRegistration_reads:
  assumes "\<And>w'. sw_db w' = sw_db w \<Longrightarrow> Q (row_of (sw_db w) v) w'" "\<And>w'. sw_db w' = sw_db w \<Longrightarrow> E (External 2) w'"
  shows "wp (getRegistration v) Q E w"
  using assms by (simp add: getRegistration_def select_row_def nop_stmt_def stmt_def wp_def bindE_def ret_apply Let_def)

text \<open>What the removal path reads when the signature holds.\<close>

definition removal_grounds ::
  "(string \<Rightarrow> string \<Rightarrow> ('e srv_world_scheme, verdict) io) \<Rightarrow> dereg_command \<Rightarrow> 'e srv_world_scheme \<Rightarrow> 'e srv_world_scheme \<Rightarrow> bool" where
  "removal_grounds verify c w w' \<longleftrightarrow>
     (case row_of (sw_db w) (dc_vault c) of
        Some r \<Rightarrow> rr_owner r = dc_owner c \<and> sw_db w' = sw_db w
      | None \<Rightarrow> \<exists>v. sw_db v = sw_db w \<and> verify (dc_owner c) (dc_vault c) v = (Inr Owned, w'))"

lemma deregister_authorized:
  "wp (authorizeDeregisterV2 L (Some x) verify bd)
     (\<lambda>r w'. case r of Inl c \<Rightarrow> True
       | Inr c \<Rightarrow> (\<exists>m. deregisterMessageV2 (sl_canon L) (dereg_command_fields x c) = Inr m \<and> owner_signature L (dc_owner c) m)
           \<and> sl_pda L (dc_owner c) (js_text (cx_programId x)) = Inr (dc_vault c) \<and> \<bar>sw_now w - dc_signedAt c\<bar> \<le> 600
           \<and> dc_nonceUsedAt c = sw_now w \<and> removal_grounds verify c w w')
     (\<lambda>_ w'. sw_db w' = sw_db w) w"
proof (cases "deregister_checks L (Some x) (or_object bd) (sw_now w)")
  case (Inl c)
  then show ?thesis by (simp add: authorizeDeregisterV2_def wp_simps)
next
  case (Inr c)
  note sound = deregister_checks_sound [OF Inr]
  have verified: "wp (verify (dc_owner c) (dc_vault c))
     (\<lambda>a b. classifyOwnership a = None \<longrightarrow> verify (dc_owner c) (dc_vault c) v = (Inr Owned, b)) (\<lambda>_ _. True) v" for v
    by (auto simp: wp_def elim: classifyOwnership.elims split: prod.split sum.split)
  show ?thesis
  proof (cases "row_of (sw_db w) (dc_vault c)")
    case None
    then show ?thesis using Inr sound unfolding authorizeDeregisterV2_def
      by (auto simp: wp_simps removal_grounds_def intro!: getRegistration_reads wp_mono [OF verified] split: option.splits) blast
  next
    case (Some r)
    then show ?thesis using Inr sound unfolding authorizeDeregisterV2_def
      by (auto simp: wp_simps removal_grounds_def intro!: getRegistration_reads)
  qed
qed

text \<open>
  C6: whatever the body, an authorized command was signed by its owner. A registration: the owner's
  key verifies a signature on the V2 text of exactly the command's fields for this server's cluster,
  program and audience, within ten minutes of the clock, and the ownership read has confirmed the
  vault. A removal: the same over its own text, the vault is the address the program derives from
  the owner, and the stored row of the vault belongs to that owner, or there is no row and the ownership
  read has confirmed the vault.
\<close>

theorem authorized_only_if_owner_signed:
  "wp (authorizeRegisterV2 L (Some x) verify bd)
     (\<lambda>r w'. case r of Inl c \<Rightarrow> True
       | Inr c \<Rightarrow> \<exists>m. registerMessageV2 (sl_canon L) (command_fields x c) = Inr m \<and> owner_signature L (rc_owner c) m
           \<and> rc_tokenHash c = sha256Hex L (rc_deviceToken c) \<and> \<bar>sw_now w - rc_signedAt c\<bar> \<le> 600
           \<and> rc_nonceUsedAt c = sw_now w \<and> (\<exists>v. verify (rc_owner c) (rc_vault c) v = (Inr Owned, w')))
     (\<lambda>_ _. False) w
   \<and> wp (authorizeDeregisterV2 L (Some x) verify bd)
     (\<lambda>r w'. case r of Inl c \<Rightarrow> True
       | Inr c \<Rightarrow> (\<exists>m. deregisterMessageV2 (sl_canon L) (dereg_command_fields x c) = Inr m \<and> owner_signature L (dc_owner c) m)
           \<and> sl_pda L (dc_owner c) (js_text (cx_programId x)) = Inr (dc_vault c) \<and> \<bar>sw_now w - dc_signedAt c\<bar> \<le> 600
           \<and> dc_nonceUsedAt c = sw_now w
           \<and> (case row_of (sw_db w) (dc_vault c) of
                Some r \<Rightarrow> rr_owner r = dc_owner c \<and> sw_db w' = sw_db w
              | None \<Rightarrow> \<exists>v. sw_db v = sw_db w \<and> verify (dc_owner c) (dc_vault c) v = (Inr Owned, w')))
     (\<lambda>_ w'. sw_db w' = sw_db w) w"
  using register_authorized deregister_authorized unfolding removal_grounds_def by blast

subsection \<open>An honest request\<close>

definition fields_command :: "register_fields_v2 \<Rightarrow> string \<Rightarrow> int \<Rightarrow> reg_command" where
  "fields_command f token now =
     \<lparr>rc_owner = r2_owner f, rc_vault = r2_vault f, rc_deviceToken = token, rc_tokenHash = r2_tokenHash f, rc_stage1 = r2_stage1 f,
      rc_stage2 = r2_stage2 f, rc_stage3 = r2_stage3 f, rc_revision = r2_revision f, rc_signedAt = r2_timestamp f,
      rc_nonce = r2_nonce f, rc_nonceUsedAt = now\<rparr>"

definition fields_context :: "register_fields_v2 \<Rightarrow> auth_context" where
  "fields_context f = \<lparr>cx_cluster = JStr (r2_cluster f), cx_programId = JStr (r2_programId f), cx_audience = JStr NOTIFY_AUDIENCE\<rparr>"

lemma positive_timestamp: "registerMessageV2 P f = Inr m \<Longrightarrow> 0 < r2_timestamp f"
proof -
  assume "registerMessageV2 P f = Inr m"
  then have "list_all (\<lambda>l. \<exists>v. snd l = Inr v) (register_lines_v2 P f)"
    unfolding registerMessageV2_def by (rule joined_defined)
  then show ?thesis by (auto simp: register_lines_v2_def v2PosInt_def split: if_splits)
qed

lemma honest_checks:
  assumes m: "registerMessageV2 (sl_canon L) f = Inr m" "r2_tokenHash f = sha256Hex L token"
    and t: "validDeviceToken (JStr token)" "\<bar>now - r2_timestamp f\<bar> \<le> 600"
    and sg: "sl_decode L (sl_encode L sg) = Inr sg" "length sg = 64"
    and key: "sl_decode L (r2_owner f) = Inr key" "length key = 32" "sl_ed25519 L (utf8 m) sg key = Inr True"
  shows "register_checks L (Some (fields_context f)) (register_body token f (sl_encode L sg)) now = Inr (fields_command f token now)"
proof -
  let ?b = "register_body token f (sl_encode L sg)"
  have fields: "js_field ''version'' ?b = JNum 2" "js_field ''action'' ?b = JStr ''register''" "js_field ''deviceToken'' ?b = JStr token"
    "js_field ''timestamp'' ?b = JNum (r2_timestamp f)" "js_field ''signature'' ?b = JStr (sl_encode L sg)"
    "js_field ''owner'' ?b = JStr (r2_owner f)" "js_field ''cluster'' ?b = JStr (r2_cluster f)"
    "js_field ''programId'' ?b = JStr (r2_programId f)" "js_field ''audience'' ?b = JStr NOTIFY_AUDIENCE"
    "js_field ''vault'' ?b = JStr (r2_vault f)" "js_field ''stage1'' ?b = JNum (r2_stage1 f)" "js_field ''stage2'' ?b = JNum (r2_stage2 f)"
    "js_field ''stage3'' ?b = JNum (r2_stage3 f)" "js_field ''revision'' ?b = JNum (r2_revision f)" "js_field ''nonce'' ?b = JStr (r2_nonce f)"
    by (simp_all add: register_body_def)
  have rebuilt: "srv_registerMessageV2 L ?b (sha256Hex L token) = Inr m"
    using m by (simp add: srv_registerMessageV2_def srv_register_lines_def registerMessageV2_def register_lines_v2_def
      fields sv2_on_values v2_constants)
  have fresh: "freshnessError (JNum (r2_timestamp f)) now = None"
    using t(2) positive_timestamp [OF m(1)] by (simp add: freshnessError_def SIG_WINDOW_SEC_def)
  show ?thesis using rebuilt fresh t(1) sg key m(2)
    by (simp add: register_checks_def fields v2_constants contextMismatch_def fields_context_def decodeSignature_def
        decodeOwnerBytes_def verifyEd25519_def register_command_def fields_command_def)
qed

text \<open>
  the server accepts every honest client: a body built from fields whose text the owner signed,
  with a token the server's rule admits and a clock within ten minutes, passes all checks and becomes
  the command of exactly these fields.
\<close>

theorem honest_registration_authorized:
  assumes "registerMessageV2 (sl_canon L) f = Inr m" "r2_tokenHash f = sha256Hex L token"
    and "validDeviceToken (JStr token)" "\<bar>now - r2_timestamp f\<bar> \<le> 600"
    and "sl_decode L (sl_encode L sg) = Inr sg" "length sg = 64"
    and "sl_decode L (r2_owner f) = Inr key" "length key = 32" "sl_ed25519 L (utf8 m) sg key = Inr True"
  shows "register_checks L (Some (fields_context f)) (register_body token f (sl_encode L sg)) now = Inr (fields_command f token now)"
  by (rule honest_checks) (rule assms)+

definition sample_srv :: srv_libs where
  "sample_srv =
     \<lparr>sl_canon = Some, sl_decode = (\<lambda>s. Inr (replicate (if s = ''signature'' then 64 else 32) 0)), sl_encode = (\<lambda>_. ''signature''),
      sl_sha256 = (\<lambda>_. replicate 32 0), sl_ed25519 = (\<lambda>_ _ _. Inr True), sl_pda = (\<lambda>_ _. Inr ''Vau1t'')\<rparr>"

definition sample_token :: string where
  "sample_token = replicate 40 (CHR ''t'')"

definition honest_fields :: register_fields_v2 where
  "honest_fields =
     \<lparr>r2_cluster = ''devnet'', r2_programId = ''Prog'', r2_owner = ''Bob'', r2_vault = ''Vau1t'', r2_tokenHash = replicate 64 (CHR ''0''),
      r2_stage1 = 1, r2_stage2 = 2, r2_stage3 = 3, r2_revision = 7, r2_timestamp = 1000, r2_nonce = replicate 22 (CHR ''x'')\<rparr>"

lemma sample_hex: "to_hex (replicate n 0) = replicate (2 * n) (CHR ''0'')"
proof -
  have "hex_digit 0 = CHR ''0''" by (simp add: hex_digit_def char_of_def bit_0 bit_iff_odd)
  then show ?thesis by (induction n) (simp_all add: to_hex_def)
qed

lemma honest_sample:
  "\<not> isl (registerMessageV2 Some honest_fields)" "sha256Hex sample_srv s = r2_tokenHash honest_fields"
  "validDeviceToken (JStr sample_token)" "sl_canon sample_srv = Some" "sl_encode sample_srv bs = ''signature''"
  "sl_decode sample_srv ''signature'' = Inr (replicate 64 0)" "sl_decode sample_srv ''Bob'' = Inr (replicate 32 0)"
  "sl_ed25519 sample_srv x y z = Inr True"
proof -
  show "\<not> isl (registerMessageV2 Some honest_fields)"
    by (simp add: registerMessageV2_def joined_def register_lines_v2_def v2Cluster_def v2Pubkey_def v2TokenHash_def hex_lower_def
      honest_fields_def char_in_def list_all_iff v2PosInt_def is_safe_integer_def max_safe_def v2Nonce_def base58_def base58_char_def)
  show "sha256Hex sample_srv s = r2_tokenHash honest_fields"
    by (simp add: sha256Hex_def sample_srv_def sample_hex honest_fields_def)
  show "validDeviceToken (JStr sample_token)"
    by (simp add: validDeviceToken_def sample_token_def token_disallowed_def char_in_def list_ex_iff)
qed (simp_all add: sample_srv_def)

lemma honest_registration_authorized_witness:
  "register_checks sample_srv (Some (fields_context honest_fields)) (register_body sample_token honest_fields ''signature'') 1300
     = Inr (fields_command honest_fields sample_token 1300)"
proof -
  obtain m where m: "registerMessageV2 Some honest_fields = Inr m" using honest_sample(1) by (cases "registerMessageV2 Some honest_fields") auto
  have "r2_timestamp honest_fields = 1000" "r2_owner honest_fields = ''Bob''" by (simp_all add: honest_fields_def)
  then show ?thesis
    using honest_registration_authorized [of sample_srv honest_fields m sample_token 1300 "replicate 64 0" "replicate 32 0"] m
    by (simp add: honest_sample)
qed

end
