(* ===== verification/Srv_Store_Props.thy ===== *)
theory Srv_Store_Props
  imports Srv_Store
begin

text \<open>
  The store's contract: under any failure every operation either has its whole effect, described by
  a function of the tables, or none. From these functions: signed rows are immutable for the legacy
  path, revisions only increase, keys stay unique.
\<close>

subsection \<open>Effects on the tables\<close>

definition stored_as :: "'e srv_world_scheme \<Rightarrow> srv_db \<Rightarrow> 'e srv_world_scheme \<Rightarrow> bool" where
  "stored_as w d w' \<longleftrightarrow> (\<exists>n. w' = w\<lparr>sw_db := d, sw_count := n\<rparr>)"

lemma stored_as_refl: "stored_as w (sw_db w) w"
  unfolding stored_as_def by (rule exI [of _ "sw_count w"]) simp

lemma stored_as_trans: "stored_as w d w' \<Longrightarrow> stored_as w' e w'' \<Longrightarrow> stored_as w e w''"
  by (auto simp: stored_as_def)

lemma stored_as_stmt [simp]:
  "stored_as w d (w\<lparr>sw_count := n, sw_db := d\<rparr>)" "stored_as w (sw_db w) (w\<lparr>sw_count := n\<rparr>)"
  "stored_as w (sw_db w) (w\<lparr>sw_count := n, sw_db := sw_db w\<rparr>)"
  by (auto simp: stored_as_def intro: exI [of _ n])

lemma stored_as_db [simp]: "stored_as w d w' \<Longrightarrow> sw_db w' = d"
  by (auto simp: stored_as_def)

text \<open>\<open>m\<close> computes \<open>f\<close>: when it does not throw, its result and the tables are those of \<open>f\<close>.\<close>

definition computes :: "('e srv_world_scheme, 'a) io \<Rightarrow> (srv_db \<Rightarrow> 'a \<times> srv_db) \<Rightarrow> bool" where
  "computes m f \<longleftrightarrow> (\<forall>w. wp m (\<lambda>a w'. a = fst (f (sw_db w)) \<and> stored_as w (snd (f (sw_db w))) w')
      (\<lambda>_ w'. \<exists>d. stored_as w d w') w)"

named_theorems computes_intro "code and the function of the tables it computes"

lemma computes_ret [computes_intro]: "computes (ret a) (\<lambda>d. (a, d))"
  by (simp add: computes_def wp_simps stored_as_refl)

lemma computes_stmt [computes_intro]:
  assumes "\<And>d p. g d = Inr p \<Longrightarrow> f d = p"
  shows "computes (stmt g :: ('e srv_world_scheme, 'a) io) f"
proof -
  have "wp (stmt g) (\<lambda>a w'. a = fst (f (sw_db w)) \<and> stored_as w (snd (f (sw_db w))) w') (\<lambda>_ w'. \<exists>d. stored_as w d w') w"
    for w :: "'e srv_world_scheme"
  proof (cases "g (sw_db w)")
    case (Inl e)
    then show ?thesis by (auto simp: wp_def stmt_def Let_def intro: stored_as_stmt)
  next
    case (Inr p)
    obtain a d where p: "p = (a, d)" by (cases p)
    have "f (sw_db w) = (a, d)" using assms [OF Inr] p by simp
    then show ?thesis using Inr p by (auto simp: wp_def stmt_def Let_def intro: stored_as_stmt)
  qed
  then show ?thesis by (simp add: computes_def)
qed

lemma computes_bindE:
  assumes "computes m f" "\<And>a. computes (k a) (g a)"
  shows "computes (bindE m k) (\<lambda>d. g (fst (f d)) (snd (f d)))"
  unfolding computes_def wp_bindE
proof
  fix w
  show "wp m (\<lambda>a. wp (k a)
            (\<lambda>a w'. a = fst (g (fst (f (sw_db w))) (snd (f (sw_db w)))) \<and> stored_as w (snd (g (fst (f (sw_db w))) (snd (f (sw_db w))))) w')
            (\<lambda>_ w'. \<exists>d. stored_as w d w')) (\<lambda>_ w'. \<exists>d. stored_as w d w') w"
  proof (rule wp_mono [OF assms(1) [unfolded computes_def, rule_format]])
    fix a w'
    assume a: "a = fst (f (sw_db w)) \<and> stored_as w (snd (f (sw_db w))) w'"
    show "wp (k a) (\<lambda>a w'. a = fst (g (fst (f (sw_db w))) (snd (f (sw_db w)))) \<and> stored_as w (snd (g (fst (f (sw_db w))) (snd (f (sw_db w))))) w')
            (\<lambda>_ w'. \<exists>d. stored_as w d w') w'"
      by (rule wp_mono [OF assms(2) [unfolded computes_def, rule_format]]) (use a in \<open>auto intro: stored_as_trans\<close>)
  qed auto
qed

lemma computes_if [computes_intro]: "computes m f \<Longrightarrow> computes n g \<Longrightarrow> computes (if b then m else n) (if b then f else g)"
  by simp

lemma computes_option [computes_intro]:
  "computes m f \<Longrightarrow> (\<And>a. computes (k a) (g a)) \<Longrightarrow>
   computes (case x of None \<Rightarrow> m | Some a \<Rightarrow> k a) (case x of None \<Rightarrow> f | Some a \<Rightarrow> g a)"
  by (cases x) simp_all

lemma computes_cong: "computes m f \<Longrightarrow> (\<And>d. f d = g d) \<Longrightarrow> computes m g"
  by (simp add: computes_def)

lemma computes_nop [computes_intro]: "computes nop_stmt (\<lambda>d. ((), d))"
  unfolding nop_stmt_def by (rule computes_stmt) simp

lemma computes_prepare: "computes (prepare n) (\<lambda>d. ((), d))"
  by (induction n) (auto intro: computes_intro computes_cong [OF computes_bindE])

text \<open>A statement that computes nothing, or its failure, leaves the tables alone.\<close>

lemma nop_keeps: "wp nop_stmt (\<lambda>_ w'. stored_as w (sw_db w) w') (\<lambda>_ w'. stored_as w (sw_db w) w') w"
  by (simp add: wp_def nop_stmt_def stmt_def Let_def)

lemma prepare_keeps: "wp (prepare n) (\<lambda>_ w'. stored_as w (sw_db w) w') (\<lambda>_ w'. stored_as w (sw_db w) w') w"
proof (induction n arbitrary: w)
  case (Suc n)
  have "wp (prepare n) (\<lambda>_ w'. stored_as w (sw_db w) w') (\<lambda>_ w'. stored_as w (sw_db w) w') v"
    if "stored_as w (sw_db w) v" for v
    by (rule wp_mono [OF Suc.IH]) (use that in \<open>auto intro: stored_as_trans\<close>)
  then show ?case by (simp add: wp_bindE) (rule wp_mono [OF nop_keeps], auto)
qed (simp add: wp_simps stored_as_refl)

text \<open>All or nothing.\<close>

definition atomic :: "('e srv_world_scheme, 'a) io \<Rightarrow> 'a \<Rightarrow> (srv_db \<Rightarrow> 'a \<times> srv_db) \<Rightarrow> bool" where
  "atomic m failed f \<longleftrightarrow> (\<forall>w. wp m
     (\<lambda>a w'. a = fst (f (sw_db w)) \<and> stored_as w (snd (f (sw_db w))) w' \<or> a = failed \<and> stored_as w (sw_db w) w')
     (\<lambda>_ w'. stored_as w (sw_db w) w') w)"

lemma transaction_atomic:
  assumes "computes m f"
  shows "wp (transaction m) (\<lambda>a w'. a = fst (f (sw_db w)) \<and> stored_as w (snd (f (sw_db w))) w')
    (\<lambda>_ w'. stored_as w (sw_db w) w') w"
proof -
  have restore: "stored_as w (sw_db w) (v\<lparr>sw_db := sw_db w\<rparr>)" if "stored_as w d v" for d v
  proof -
    obtain n where "v = w\<lparr>sw_db := d, sw_count := n\<rparr>" using \<open>stored_as w d v\<close> unfolding stored_as_def by blast
    then have "v\<lparr>sw_db := sw_db w\<rparr> = w\<lparr>sw_db := sw_db w, sw_count := n\<rparr>" by simp
    then show ?thesis unfolding stored_as_def by blast
  qed
  have commit: "wp nop_stmt (\<lambda>_ w'. stored_as w d w') (\<lambda>_ w'. stored_as w (sw_db w) (w'\<lparr>sw_db := sw_db w\<rparr>)) v"
    if "stored_as w d v" for d v
    by (rule wp_mono [OF nop_keeps]) (use that restore in \<open>auto intro: stored_as_trans\<close>)
  have body: "wp m (\<lambda>a. wp nop_stmt (\<lambda>_ w'. a = fst (f (sw_db w)) \<and> stored_as w (snd (f (sw_db w))) w')
        (\<lambda>_ w'. stored_as w (sw_db w) (w'\<lparr>sw_db := sw_db w\<rparr>)))
      (\<lambda>_ w'. stored_as w (sw_db w) (w'\<lparr>sw_db := sw_db w\<rparr>)) v" if v: "stored_as w (sw_db w) v" for v
  proof (rule wp_mono [OF assms [unfolded computes_def, rule_format]])
    fix a u assume "a = fst (f (sw_db v)) \<and> stored_as v (snd (f (sw_db v))) u"
    then have "a = fst (f (sw_db w))" "stored_as w (snd (f (sw_db w))) u" using v by (auto intro: stored_as_trans)
    then show "wp nop_stmt (\<lambda>_ w'. a = fst (f (sw_db w)) \<and> stored_as w (snd (f (sw_db w))) w')
        (\<lambda>_ w'. stored_as w (sw_db w) (w'\<lparr>sw_db := sw_db w\<rparr>)) u"
      by (intro wp_mono [OF commit]) auto
  qed (use v restore in \<open>auto intro: stored_as_trans\<close>)
  show ?thesis unfolding transaction_def wp_simps
    by (rule wp_mono [OF nop_keeps]) (use body restore in auto)
qed

lemma transaction_op_atomic:
  assumes "computes m f"
  shows "atomic (seqE (prepare n) (tryE (transaction m) (\<lambda>_. ret R))) R f"
proof -
  have "wp (transaction m) (\<lambda>a w'. a = fst (f (sw_db w)) \<and> stored_as w (snd (f (sw_db w))) w' \<or> a = R \<and> stored_as w (sw_db w) w')
          (\<lambda>_ w'. fst (f (sw_db w)) = R \<and> stored_as w (snd (f (sw_db w))) w' \<or> stored_as w (sw_db w) w') v"
    if "stored_as w (sw_db w) v" for w v
    by (rule wp_mono [OF transaction_atomic [OF assms]]) (use that in \<open>auto intro: stored_as_trans\<close>)
  then show ?thesis unfolding atomic_def wp_simps
    by (intro allI wp_mono [OF prepare_keeps]) (auto intro: wp_mono)
qed

subsection \<open>What each statement and operation computes\<close>

lemma computes_statements [computes_intro]:
  "computes (select_row v) (\<lambda>d. (row_of d v, d))"
  "computes (insert_row v r) (\<lambda>d. ((), d\<lparr>registrations := registrations d @ [(v, r)]\<rparr>))"
  "computes (update_row v f) (\<lambda>d. (length (filter (\<lambda>(u, r). u = v) (registrations d)),
     d\<lparr>registrations := map (\<lambda>(u, r). (u, if u = v then f r else r)) (registrations d)\<rparr>))"
  "computes (delete_rows P) (\<lambda>d. (length (filter (\<lambda>(u, r). P u r) (registrations d)),
     d\<lparr>registrations := filter (\<lambda>(u, r). \<not> P u r) (registrations d)\<rparr>))"
  "computes (claim_nonce ow nc t) (\<lambda>d. if map_of (used_nonces d) (ow, nc) \<noteq> None then (0, d)
      else (1, d\<lparr>used_nonces := used_nonces d @ [((ow, nc), t)]\<rparr>))"
  unfolding select_row_def insert_row_def update_row_def delete_rows_def claim_nonce_def
  by (rule computes_stmt; auto split: if_splits)+

definition set_rows :: "(string \<Rightarrow> reg_row \<Rightarrow> reg_row) \<Rightarrow> srv_db \<Rightarrow> srv_db" where
  "set_rows f d = d\<lparr>registrations := map (\<lambda>(v, r). (v, f v r)) (registrations d)\<rparr>"

definition drop_rows :: "(string \<Rightarrow> reg_row \<Rightarrow> bool) \<Rightarrow> srv_db \<Rightarrow> srv_db" where
  "drop_rows P d = d\<lparr>registrations := filter (\<lambda>(v, r). \<not> P v r) (registrations d)\<rparr>"

definition add_row :: "string \<Rightarrow> reg_row \<Rightarrow> srv_db \<Rightarrow> srv_db" where
  "add_row v r d = d\<lparr>registrations := registrations d @ [(v, r)]\<rparr>"

definition add_nonce :: "string \<Rightarrow> string \<Rightarrow> int \<Rightarrow> srv_db \<Rightarrow> srv_db" where
  "add_nonce ow nc t d = d\<lparr>used_nonces := used_nonces d @ [((ow, nc), t)]\<rparr>"

definition nonce_used :: "srv_db \<Rightarrow> string \<Rightarrow> string \<Rightarrow> bool" where
  "nonce_used d ow nc \<longleftrightarrow> map_of (used_nonces d) (ow, nc) \<noteq> None"

lemmas db_updates = set_rows_def drop_rows_def add_row_def add_nonce_def nonce_used_def

definition matching :: "(string \<Rightarrow> reg_row \<Rightarrow> bool) \<Rightarrow> srv_db \<Rightarrow> nat" where
  "matching P d = length (filter (\<lambda>(v, r). P v r) (registrations d))"

definition register_effect :: "reg_command \<Rightarrow> srv_db \<Rightarrow> apply_result \<times> srv_db" where
  "register_effect c d =
     (let d' = add_nonce (rc_owner c) (rc_nonce c) (rc_nonceUsedAt c) d in
      if nonce_used d (rc_owner c) (rc_nonce c) then (refused R_nonce_reused, d)
      else case row_of d (rc_vault c) of
             None \<Rightarrow> (done_with R_created, add_row (rc_vault c) (signed_row c) d')
           | Some r \<Rightarrow>
               if rr_owner r \<noteq> rc_owner c then (refused R_owner_conflict, d')
               else if rc_revision c \<le> rr_revision r then (refused R_stale_revision, d')
               else (done_with R_updated, set_rows (\<lambda>v r. if v = rc_vault c then signed_update c r else r) d'))"

definition deregister_effect :: "dereg_command \<Rightarrow> srv_db \<Rightarrow> apply_result \<times> srv_db" where
  "deregister_effect c d =
     (let d' = add_nonce (dc_owner c) (dc_nonce c) (dc_nonceUsedAt c) d; mine = (\<lambda>v r. v = dc_vault c \<and> rr_owner r = dc_owner c) in
      if nonce_used d (dc_owner c) (dc_nonce c) then (refused R_nonce_reused, d)
      else if \<exists>r. row_of d (dc_vault c) = Some r \<and> rr_owner r \<noteq> dc_owner c then (refused R_owner_conflict, d')
      else (removed_rows (matching mine d), drop_rows mine d'))"

definition legacy_effect :: "legacy_command \<Rightarrow> srv_db \<Rightarrow> apply_result \<times> srv_db" where
  "legacy_effect c d =
     (if isSignedRow (row_of d (lc_vault c)) then (refused R_signed_authorization_required, d)
      else if row_of d (lc_vault c) = None then (done_with R_created, add_row (lc_vault c) (legacy_row c) d)
      else (done_with R_updated, set_rows (\<lambda>v r. if v = lc_vault c then legacy_update c r else r) d))"

definition legacy_delete_effect :: "string \<Rightarrow> string option \<Rightarrow> srv_db \<Rightarrow> apply_result \<times> srv_db" where
  "legacy_delete_effect vault owner d =
     (let P = (\<lambda>v r. v = vault \<and> (case owner of None \<Rightarrow> True | Some ow \<Rightarrow> ow = [] \<or> rr_owner r = ow)) in
      if row_of d vault = None then (removed_rows 0, d)
      else if isSignedRow (row_of d vault) then (refused R_signed_authorization_required, d)
      else (removed_rows (matching P d), drop_rows P d))"

definition owner_delete_effect :: "string \<Rightarrow> srv_db \<Rightarrow> apply_result \<times> srv_db" where
  "owner_delete_effect owner d =
     (let P = (\<lambda>v r. rr_owner r = owner \<and> \<not> isSignedRow (Some r)) in (removed_rows (matching P d), drop_rows P d))"

lemma computes_register: "computes (signed_registration_txn c) (register_effect c)"
  unfolding signed_registration_txn_def
  by (rule computes_cong, (rule computes_bindE computes_intro)+)
    (auto simp: register_effect_def db_updates Let_def split: option.split)

lemma computes_deregister: "computes (signed_deregistration_txn c) (deregister_effect c)"
  unfolding signed_deregistration_txn_def
  by (rule computes_cong, (rule computes_bindE computes_intro)+)
    (auto simp: deregister_effect_def db_updates matching_def Let_def split: option.split)

lemma computes_legacy: "computes (legacy_registration_txn c) (legacy_effect c)"
  unfolding legacy_registration_txn_def
  by (rule computes_cong, (rule computes_bindE computes_intro)+)
    (auto simp: legacy_effect_def db_updates Let_def split: option.split)

lemma computes_legacy_delete: "computes (legacy_delete_txn v ow) (legacy_delete_effect v ow)"
  unfolding legacy_delete_txn_def
  by (rule computes_cong, (rule computes_bindE computes_intro)+)
    (auto simp: legacy_delete_effect_def db_updates matching_def Let_def split: option.split)

lemma store_ops_atomic:
  "atomic (applySignedRegistration c) (refused R_database_error) (register_effect c)"
  "atomic (applySignedDeregistration dc) (refused R_database_error) (deregister_effect dc)"
  "atomic (applyLegacyRegistration lc) (refused R_database_error) (legacy_effect lc)"
  "atomic (deleteLegacyRegistration v ow) (refused R_database_error) (legacy_delete_effect v ow)"
  unfolding applySignedRegistration_def applySignedDeregistration_def applyLegacyRegistration_def deleteLegacyRegistration_def
  by (rule transaction_op_atomic computes_register computes_deregister computes_legacy computes_legacy_delete)+

lemma wp_stmt:
  assumes "\<And>d. g d = Inr (f d)" "\<And>w'. stored_as w (snd (f (sw_db w))) w' \<Longrightarrow> Q (fst (f (sw_db w))) w'"
    "\<And>e w'. stored_as w (sw_db w) w' \<Longrightarrow> E e w'"
  shows "wp (stmt g) Q E w"
  using assms(2,3) by (auto simp: wp_def stmt_def Let_def assms(1) split: prod.splits)

lemma stmt_atomic: "(\<And>d. g d = Inr (f d)) \<Longrightarrow> atomic (stmt g) failed f"
  unfolding atomic_def by (blast intro: wp_stmt)

lemma prepare_atomic:
  assumes "atomic m R f"
  shows "atomic (seqE (prepare n) m) R f"
  unfolding atomic_def wp_simps
proof
  fix w
  have "wp m (\<lambda>a w'. a = fst (f (sw_db w)) \<and> stored_as w (snd (f (sw_db w))) w' \<or> a = R \<and> stored_as w (sw_db w) w')
     (\<lambda>_ w'. stored_as w (sw_db w) w') v" if "stored_as w (sw_db w) v" for v
    by (rule wp_mono [OF assms [unfolded atomic_def, rule_format]]) (use that in \<open>auto intro: stored_as_trans\<close>)
  then show "wp (prepare n) (\<lambda>_. wp m (\<lambda>a w'. a = fst (f (sw_db w)) \<and> stored_as w (snd (f (sw_db w))) w' \<or> a = R \<and> stored_as w (sw_db w) w')
     (\<lambda>_ w'. stored_as w (sw_db w) w')) (\<lambda>_ w'. stored_as w (sw_db w) w') w"
    by (rule wp_mono [OF prepare_keeps])
qed

lemma owner_delete_atomic: "atomic (deleteLegacyRegistrationsByOwner ow) (refused R_database_error) (owner_delete_effect ow)"
proof -
  have del: "wp (delete_rows (\<lambda>v r. rr_owner r = ow \<and> rr_authVersion r < 2 \<and> rr_migration r \<noteq> ''signed''))
     (\<lambda>n v'. fst (owner_delete_effect ow (sw_db w)) = removed_rows n \<and> stored_as w (snd (owner_delete_effect ow (sw_db w))) v')
     (\<lambda>_ v'. stored_as w (sw_db w) v') v" if v: "stored_as w (sw_db w) v" for w v
    unfolding delete_rows_def
  proof (rule wp_stmt [OF refl])
    fix v'
    assume "stored_as v (snd (length (filter (\<lambda>(va, r). rr_owner r = ow \<and> rr_authVersion r < 2 \<and> rr_migration r \<noteq> ''signed'')
        (registrations (sw_db v))), sw_db v\<lparr>registrations := filter (\<lambda>(va, r). \<not> (rr_owner r = ow \<and> rr_authVersion r < 2 \<and> rr_migration r \<noteq> ''signed''))
        (registrations (sw_db v))\<rparr>)) v'"
    then show "fst (owner_delete_effect ow (sw_db w)) = removed_rows (fst (length (filter (\<lambda>(va, r). rr_owner r = ow \<and> rr_authVersion r < 2 \<and> rr_migration r \<noteq> ''signed'')
        (registrations (sw_db v))), sw_db v\<lparr>registrations := filter (\<lambda>(va, r). \<not> (rr_owner r = ow \<and> rr_authVersion r < 2 \<and> rr_migration r \<noteq> ''signed''))
        (registrations (sw_db v))\<rparr>)) \<and> stored_as w (snd (owner_delete_effect ow (sw_db w))) v'"
      using v by (auto simp: owner_delete_effect_def Let_def isSignedRow_def matching_def drop_rows_def not_le intro: stored_as_trans)
  qed (use v in \<open>auto intro: stored_as_trans\<close>)
  show ?thesis unfolding deleteLegacyRegistrationsByOwner_def atomic_def wp_simps
    by (intro allI wp_mono [OF prepare_keeps] wp_mono [OF del]) auto
qed

subsection \<open>Operations of the server\<close>

datatype store_op = Op_register reg_command | Op_deregister dereg_command | Op_legacy legacy_command
  | Op_legacy_delete string "string option" | Op_owner_delete string | Op_prune int
  | Op_notify_state string int int | Op_drop string

definition ignored :: "('w, 'a) io \<Rightarrow> 'w \<Rightarrow> 'w" where
  "ignored m w = snd (m w)"

fun run_op :: "store_op \<Rightarrow> srv_world \<Rightarrow> srv_world" where
  "run_op (Op_register c) = ignored (applySignedRegistration c)"
| "run_op (Op_deregister c) = ignored (applySignedDeregistration c)"
| "run_op (Op_legacy c) = ignored (applyLegacyRegistration c)"
| "run_op (Op_legacy_delete v ow) = ignored (deleteLegacyRegistration v ow)"
| "run_op (Op_owner_delete ow) = ignored (deleteLegacyRegistrationsByOwner ow)"
| "run_op (Op_prune t) = ignored (pruneNonces t)"
| "run_op (Op_notify_state v s t) = ignored (updateNotifyState v s t)"
| "run_op (Op_drop v) = ignored (deleteRegistration v)"

fun op_effect :: "store_op \<Rightarrow> srv_db \<Rightarrow> srv_db" where
  "op_effect (Op_register c) d = snd (register_effect c d)"
| "op_effect (Op_deregister c) d = snd (deregister_effect c d)"
| "op_effect (Op_legacy c) d = snd (legacy_effect c d)"
| "op_effect (Op_legacy_delete v ow) d = snd (legacy_delete_effect v ow d)"
| "op_effect (Op_owner_delete ow) d = snd (owner_delete_effect ow d)"
| "op_effect (Op_prune t) d = d\<lparr>used_nonces := filter (\<lambda>(k, u). \<not> u < t) (used_nonces d)\<rparr>"
| "op_effect (Op_notify_state v s t) d = set_rows (\<lambda>u r. if u = v then r\<lparr>rr_lastStage := s, rr_lastNotifiedAt := t\<rparr> else r) d"
| "op_effect (Op_drop v) d = drop_rows (\<lambda>u r. u = v) d"

lemma atomic_ignored:
  assumes "atomic m R f"
  shows "stored_as w (snd (f (sw_db w))) (ignored m w) \<or> stored_as w (sw_db w) (ignored m w)"
  using assms [unfolded atomic_def, rule_format, of w] by (auto simp: wp_def ignored_def split: prod.splits sum.splits)

lemma update_row_atomic:
  "atomic (bindE (update_row v f) (\<lambda>_. ret ())) undefined (\<lambda>d. ((), set_rows (\<lambda>u r. if u = v then f r else r) d))"
  unfolding atomic_def wp_simps update_row_def by (auto intro!: wp_stmt [OF refl] simp: set_rows_def)

lemma run_op_stored: "stored_as w (op_effect p (sw_db w)) (run_op p w) \<or> stored_as w (sw_db w) (run_op p w)"
proof (cases p)
  case (Op_notify_state v s t)
  then show ?thesis using atomic_ignored [OF update_row_atomic, of w v] by (simp add: updateNotifyState_def)
next
  case (Op_prune t)
  have "atomic (pruneNonces t) 0 (\<lambda>d. (length (filter (\<lambda>(k, u). u < t) (used_nonces d)),
      d\<lparr>used_nonces := filter (\<lambda>(k, u). \<not> u < t) (used_nonces d)\<rparr>))"
    unfolding pruneNonces_def by (rule prepare_atomic, rule stmt_atomic) simp
  from atomic_ignored [OF this, of w] show ?thesis by (simp add: Op_prune)
next
  case (Op_drop v)
  have "atomic (deleteRegistration v) 0 (\<lambda>d. (length (filter (\<lambda>(u, r). u = v) (registrations d)), drop_rows (\<lambda>u r. u = v) d))"
    unfolding deleteRegistration_def delete_rows_def by (rule stmt_atomic) (simp add: drop_rows_def)
  from atomic_ignored [OF this, of w] show ?thesis by (simp add: Op_drop)
qed (simp_all add: atomic_ignored [OF store_ops_atomic(1)] atomic_ignored [OF store_ops_atomic(2)]
    atomic_ignored [OF store_ops_atomic(3)] atomic_ignored [OF store_ops_atomic(4)] atomic_ignored [OF owner_delete_atomic])

lemma run_op_effect: "sw_db (run_op p w) = op_effect p (sw_db w) \<or> sw_db (run_op p w) = sw_db w"
  using run_op_stored [of w p] by auto

lemma stored_as_now: "stored_as w d w' \<Longrightarrow> sw_now w' = sw_now w"
  unfolding stored_as_def by (elim exE) (erule ssubst, simp)

lemma run_op_now: "sw_now (run_op p w) = sw_now w"
  using run_op_stored [of w p] stored_as_now by blast

subsection \<open>Signed rows\<close>

definition legacy_op :: "store_op \<Rightarrow> bool" where
  "legacy_op p \<longleftrightarrow> (case p of Op_legacy c \<Rightarrow> True | Op_legacy_delete v ow \<Rightarrow> True | Op_owner_delete ow \<Rightarrow> True | Op_prune t \<Rightarrow> True | _ \<Rightarrow> False)"

lemma row_set_rows: "row_of (set_rows f d) v = map_option (f v) (row_of d v)"
proof -
  have "map_of (map (\<lambda>(v, r). (v, f v r)) xs) v = map_option (f v) (map_of xs v)" for xs by (induction xs) auto
  then show ?thesis by (simp add: set_rows_def)
qed

lemma row_drop_rows: "row_of d v = Some r \<Longrightarrow> \<not> P v r \<Longrightarrow> row_of (drop_rows P d) v = Some r"
proof -
  have "map_of xs v = Some r \<Longrightarrow> \<not> P v r \<Longrightarrow> map_of (filter (\<lambda>(v, r). \<not> P v r) xs) v = Some r" for xs by (induction xs) (auto split: if_splits)
  then show "row_of d v = Some r \<Longrightarrow> \<not> P v r \<Longrightarrow> row_of (drop_rows P d) v = Some r" by (simp add: drop_rows_def)
qed

lemma row_add_row: "row_of d v = Some r \<Longrightarrow> row_of (add_row u s d) v = Some r"
  by (simp add: add_row_def)

lemma row_add_nonce [simp]: "row_of (add_nonce ow nc t d) v = row_of d v" "registrations (add_nonce ow nc t d) = registrations d"
  by (simp_all add: add_nonce_def)

lemma legacy_op_keeps:
  assumes "legacy_op p" "row_of d v = Some r" "isSignedRow (Some r)"
  shows "row_of (op_effect p d) v = Some r"
  using assms
  by (cases p) (auto simp: legacy_op_def legacy_effect_def legacy_delete_effect_def owner_delete_effect_def Let_def row_set_rows
      intro!: row_drop_rows row_add_row)

text \<open>
  The operations that remove a row: a signed removal by the row's owner and the poller's own deletion.
\<close>

definition removal :: "string \<Rightarrow> string \<Rightarrow> store_op \<Rightarrow> bool" where
  "removal v own p \<longleftrightarrow> (case p of Op_deregister c \<Rightarrow> dc_vault c = v \<and> dc_owner c = own | Op_drop u \<Rightarrow> u = v | _ \<Rightarrow> False)"

text \<open>What a signed request decides in a row; the rest is the poller's bookkeeping and the time stamps.\<close>

definition content_of :: "reg_row \<Rightarrow> string \<times> string \<times> rat \<times> rat \<times> rat \<times> int \<times> int \<times> string option \<times> int option \<times> string" where
  "content_of r = (rr_owner r, rr_deviceToken r, rr_stage1 r, rr_stage2 r, rr_stage3 r, rr_authVersion r, rr_revision r,
     rr_tokenHash r, rr_signedAt r, rr_migration r)"

text \<open>The content is the same, or that of a newer registration of the vault by the row's owner among the operations.\<close>

definition succeeds_by :: "string \<Rightarrow> store_op set \<Rightarrow> reg_row \<Rightarrow> reg_row \<Rightarrow> bool" where
  "succeeds_by v P r r' \<longleftrightarrow> content_of r' = content_of r
     \<or> (\<exists>c. Op_register c \<in> P \<and> rc_vault c = v \<and> rc_owner c = rr_owner r \<and> rr_revision r < rc_revision c
          \<and> content_of r' = content_of (signed_row c))"

lemma content_same:
  assumes "content_of r' = content_of r"
  shows "isSignedRow (Some r') = isSignedRow (Some r)" "rr_owner r' = rr_owner r" "rr_revision r' = rr_revision r"
  using assms by (simp_all add: content_of_def isSignedRow_def)

lemma signed_row_content: "isSignedRow (Some (signed_row c))" "rr_owner (signed_row c) = rc_owner c" "rr_revision (signed_row c) = rc_revision c"
  by (simp_all add: isSignedRow_def signed_row_def)

lemma succeeds_signed:
  assumes "succeeds_by v P r r'" "isSignedRow (Some r)"
  shows "isSignedRow (Some r') \<and> rr_owner r' = rr_owner r"
  using assms(1) unfolding succeeds_by_def
proof (elim disjE exE conjE)
  assume "content_of r' = content_of r"
  then show ?thesis using content_same [of r' r] assms(2) by blast
next
  fix c
  assume c: "rc_owner c = rr_owner r" "content_of r' = content_of (signed_row c)"
  show ?thesis using content_same [OF c(2)] c(1) signed_row_content [of c] by simp
qed

lemma succeeds_trans:
  assumes qr: "succeeds_by v P q r" and rs: "succeeds_by v Q r s"
  shows "succeeds_by v (P \<union> Q) q s"
proof -
  have r: "rr_owner r = rr_owner q \<and> rr_revision q \<le> rr_revision r"
    using qr unfolding succeeds_by_def
  proof (elim disjE exE conjE)
    assume "content_of r = content_of q"
    then show ?thesis using content_same [of r q] by simp
  next
    fix c
    assume "rc_owner c = rr_owner q" "rr_revision q < rc_revision c" "content_of r = content_of (signed_row c)"
    then show ?thesis using content_same [of r "signed_row c"] signed_row_content [of c] by simp
  qed
  show ?thesis using rs unfolding succeeds_by_def [of v Q]
  proof (elim disjE exE conjE)
    assume "content_of s = content_of r"
    then show ?thesis using qr unfolding succeeds_by_def by auto
  next
    fix c
    assume "Op_register c \<in> Q" "rc_vault c = v" "rc_owner c = rr_owner r" "rr_revision r < rc_revision c" "content_of s = content_of (signed_row c)"
    then show ?thesis using r unfolding succeeds_by_def by (intro disjI2 exI [of _ c]) simp
  qed
qed

lemma signed_row_step:
  assumes "row_of d v = Some r" "isSignedRow (Some r)" "\<not> removal v (rr_owner r) p"
  shows "\<exists>r'. row_of (op_effect p d) v = Some r' \<and> succeeds_by v {p} r r' \<and> (legacy_op p \<longrightarrow> r' = r)"
proof (cases "legacy_op p")
  case True
  then show ?thesis using legacy_op_keeps [OF True assms(1,2)] by (simp add: succeeds_by_def)
next
  case False
  then show ?thesis using assms
  proof (cases p)
    case (Op_register c)
    then show ?thesis using assms False
      by (auto simp: register_effect_def Let_def row_set_rows row_add_row succeeds_by_def signed_update_def signed_row_def
          content_of_def split: option.split)
  next
    case (Op_deregister c)
    then have "dc_vault c \<noteq> v \<or> dc_owner c \<noteq> rr_owner r" using assms(3) by (auto simp: removal_def)
    then show ?thesis using assms Op_deregister False
      by (auto simp: deregister_effect_def Let_def succeeds_by_def intro!: row_drop_rows)
  next
    case (Op_notify_state u s t)
    then show ?thesis using assms False by (auto simp: row_set_rows succeeds_by_def content_of_def)
  next
    case (Op_drop u)
    then show ?thesis using assms False by (auto simp: removal_def succeeds_by_def intro!: row_drop_rows)
  qed (auto simp: legacy_op_def)
qed

lemma signed_row_run:
  assumes "isSignedRow (Some r)"
  shows "row_of (sw_db w) v = Some r \<Longrightarrow> list_all (\<lambda>p. \<not> removal v (rr_owner r) p) ps \<Longrightarrow>
    \<exists>r'. row_of (sw_db (fold run_op ps w)) v = Some r' \<and> succeeds_by v (set ps) r r' \<and> (list_all legacy_op ps \<longrightarrow> r' = r)"
  using assms
proof (induction ps arbitrary: w r)
  case (Cons p ps)
  have "\<exists>q. row_of (sw_db (run_op p w)) v = Some q \<and> succeeds_by v {p} r q \<and> (legacy_op p \<longrightarrow> q = r)"
    using run_op_effect [of p w] signed_row_step [OF Cons.prems(1,3), of p] Cons.prems(1,2)
    by (auto simp: succeeds_by_def)
  then obtain q where q: "row_of (sw_db (run_op p w)) v = Some q" "succeeds_by v {p} r q" "legacy_op p \<longrightarrow> q = r" by blast
  then have s: "isSignedRow (Some q)" "rr_owner q = rr_owner r" using succeeds_signed Cons.prems(3) by blast+
  from Cons.IH [OF q(1) _ s(1)] s(2) Cons.prems(2) obtain r' where
    "row_of (sw_db (fold run_op ps (run_op p w))) v = Some r'" "succeeds_by v (set ps) q r'" "list_all legacy_op ps \<longrightarrow> r' = q" by auto
  then show ?case using q succeeds_trans [OF q(2), of "set ps" r'] by auto
qed (simp add: succeeds_by_def)

text \<open>
  C10: every store operation is all or nothing: whichever statements SQLite rejects, the answer and the
  tables are those of the operation's effect, or the answer is a database error and the tables are
  unchanged; an exception also leaves them unchanged.
\<close>

theorem store_operations_atomic:
  "atomic (applySignedRegistration c) (refused R_database_error) (register_effect c)
   \<and> atomic (applySignedDeregistration dc) (refused R_database_error) (deregister_effect dc)
   \<and> atomic (applyLegacyRegistration lc) (refused R_database_error) (legacy_effect lc)
   \<and> atomic (deleteLegacyRegistration v ow) (refused R_database_error) (legacy_delete_effect v ow)
   \<and> atomic (deleteLegacyRegistrationsByOwner own) (refused R_database_error) (owner_delete_effect own)"
  using store_ops_atomic owner_delete_atomic by blast

definition sample_command :: reg_command where
  "sample_command =
     \<lparr>rc_owner = ''Bob'', rc_vault = ''Vau1t'', rc_deviceToken = ''token'', rc_tokenHash = ''hash'', rc_stage1 = 1, rc_stage2 = 2,
      rc_stage3 = 3, rc_revision = 5, rc_signedAt = 1000, rc_nonce = ''nonce'', rc_nonceUsedAt = 1000\<rparr>"

definition srv_start :: "(string \<times> reg_row) list \<Rightarrow> srv_world" where
  "srv_start rows = \<lparr>sw_db = \<lparr>registrations = rows, used_nonces = []\<rparr>, sw_faults = (\<lambda>_. False), sw_count = 0, sw_now = 1000\<rparr>"

text \<open>
  C9: a row under signed authentication survives every run of the server's operations, under any
  failures, without a removal signed by its owner or a deletion by the poller: it stays signed and with
  its owner, and what a request decides in it (token, stages, revision, signing time) is what it was
  or exactly that of a registration of this vault by the same owner with a larger revision. So a stranger's
  signed requests, registrations and removals, change none of it; and operations of the
  legacy path do not change the row at all.
\<close>

theorem signed_rows_sticky:
  assumes "row_of (sw_db w) v = Some r" "isSignedRow (Some r)" "list_all (\<lambda>p. \<not> removal v (rr_owner r) p) ps"
  shows "\<exists>r'. row_of (sw_db (fold run_op ps w)) v = Some r' \<and> isSignedRow (Some r') \<and> rr_owner r' = rr_owner r
     \<and> (content_of r' = content_of r
        \<or> (\<exists>c. Op_register c \<in> set ps \<and> rc_vault c = v \<and> rc_owner c = rr_owner r \<and> rr_revision r < rc_revision c
             \<and> content_of r' = content_of (signed_row c)))
     \<and> (list_all legacy_op ps \<longrightarrow> r' = r)"
  using signed_row_run [OF assms(2,1,3)] succeeds_signed assms(2) unfolding succeeds_by_def by blast

definition foreign_ops :: "store_op list" where
  "foreign_ops =
     [Op_legacy_delete ''Vau1t'' None, Op_owner_delete ''Bob'',
      Op_register (sample_command\<lparr>rc_owner := ''Eve'', rc_deviceToken := ''hers'', rc_revision := 9, rc_nonce := ''other''\<rparr>),
      Op_deregister \<lparr>dc_owner = ''Eve'', dc_vault = ''Vau1t'', dc_nonce = ''third'', dc_nonceUsedAt = 1000, dc_signedAt = 1000\<rparr>]"

lemma signed_rows_sticky_witness:
  "\<exists>r'. row_of (sw_db (fold run_op foreign_ops (srv_start [(''Vau1t'', signed_row sample_command)]))) ''Vau1t'' = Some r'
     \<and> content_of r' = content_of (signed_row sample_command)"
  using signed_rows_sticky [of "srv_start [(''Vau1t'', signed_row sample_command)]" "''Vau1t''" "signed_row sample_command" foreign_ops]
  by (auto simp: srv_start_def signed_row_def isSignedRow_def removal_def foreign_ops_def sample_command_def)

subsection \<open>Well-formed tables\<close>

definition row_ok :: "reg_row \<Rightarrow> bool" where
  "row_ok r \<longleftrightarrow>
     (if rr_authVersion r = 2
      then rr_migration r = ''signed'' \<and> rr_tokenHash r \<noteq> None \<and> rr_signedAt r \<noteq> None \<and> 0 < rr_revision r
      else rr_authVersion r = 1 \<and> rr_migration r = ''legacy'' \<and> rr_tokenHash r = None \<and> rr_signedAt r = None \<and> rr_revision r = 0)"

definition db_ok :: "srv_db \<Rightarrow> bool" where
  "db_ok d \<longleftrightarrow> distinct (map fst (registrations d)) \<and> distinct (map fst (used_nonces d)) \<and> list_all (\<lambda>(v, r). row_ok r) (registrations d)"

text \<open>The authorizer passes positive revisions only.\<close>

definition op_ok :: "store_op \<Rightarrow> bool" where
  "op_ok p \<longleftrightarrow> (case p of Op_register c \<Rightarrow> 0 < rc_revision c | _ \<Rightarrow> True)"

lemma distinct_fst_filter: "distinct (map fst xs) \<Longrightarrow> distinct (map fst (filter P xs))"
  by (induction xs) auto

lemma db_ok_updates:
  "db_ok d \<Longrightarrow> (\<And>v r. row_of d v = Some r \<Longrightarrow> row_ok r \<Longrightarrow> row_ok (f v r)) \<Longrightarrow> db_ok (set_rows f d)"
  "db_ok d \<Longrightarrow> db_ok (drop_rows P d)"
  "db_ok d \<Longrightarrow> row_of d v = None \<Longrightarrow> row_ok r \<Longrightarrow> db_ok (add_row v r d)"
  "db_ok d \<Longrightarrow> \<not> nonce_used d ow nc \<Longrightarrow> db_ok (add_nonce ow nc t d)"
  "db_ok d \<Longrightarrow> db_ok (d\<lparr>used_nonces := filter Q (used_nonces d)\<rparr>)"
proof -
  have fst_map: "map fst (map (\<lambda>(v, r). (v, f v r)) xs) = map fst xs" for xs :: "(string \<times> reg_row) list" by (induction xs) auto
  show "db_ok d \<Longrightarrow> (\<And>v r. row_of d v = Some r \<Longrightarrow> row_ok r \<Longrightarrow> row_ok (f v r)) \<Longrightarrow> db_ok (set_rows f d)"
    by (auto simp: db_ok_def set_rows_def fst_map list_all_iff simp del: map_map)
  show "db_ok d \<Longrightarrow> db_ok (drop_rows P d)"
    by (auto simp: db_ok_def drop_rows_def list_all_iff distinct_fst_filter)
  show "db_ok d \<Longrightarrow> row_of d v = None \<Longrightarrow> row_ok r \<Longrightarrow> db_ok (add_row v r d)"
    by (auto simp: db_ok_def add_row_def map_of_eq_None_iff)
  show "db_ok d \<Longrightarrow> \<not> nonce_used d ow nc \<Longrightarrow> db_ok (add_nonce ow nc t d)"
    by (auto simp: db_ok_def add_nonce_def nonce_used_def map_of_eq_None_iff)
  show "db_ok d \<Longrightarrow> db_ok (d\<lparr>used_nonces := filter Q (used_nonces d)\<rparr>)"
    by (simp add: db_ok_def distinct_fst_filter)
qed

lemma row_ok_signed: "0 < rc_revision c \<Longrightarrow> row_ok (signed_row c)" "0 < rc_revision c \<Longrightarrow> row_ok (signed_update c r)"
  "row_ok (legacy_row lc)" "row_ok r \<Longrightarrow> row_ok (legacy_update lc r)" "row_ok (r\<lparr>rr_lastStage := s, rr_lastNotifiedAt := t\<rparr>) = row_ok r"
  by (simp_all add: row_ok_def signed_row_def signed_update_def legacy_row_def legacy_update_def)

lemma op_effect_ok: "db_ok d \<Longrightarrow> op_ok p \<Longrightarrow> db_ok (op_effect p d)"
  by (cases p) (auto simp: op_ok_def register_effect_def deregister_effect_def legacy_effect_def legacy_delete_effect_def
      owner_delete_effect_def Let_def row_ok_signed split: option.split intro!: db_ok_updates)

lemma db_ok_run: "db_ok (sw_db w) \<Longrightarrow> list_all op_ok ps \<Longrightarrow> db_ok (sw_db (fold run_op ps w))"
proof (induction ps arbitrary: w)
  case (Cons p ps)
  have "db_ok (sw_db (run_op p w))" using run_op_effect [of p w] op_effect_ok Cons.prems by auto
  then show ?case using Cons by simp
qed simp

lemma no_anomalous_rows: "list_all (\<lambda>(v, r). row_ok r) rows \<Longrightarrow> mc_anomalous (counts_of rows) = 0"
  by (induction rows) (auto simp: counts_of_def Let_def row_ok_def split: if_splits)

text \<open>
  C31: over every run of the server's operations, whatever fails, the tables stay well-formed: one row
  per vault, one entry per nonce, every row wholly legacy or wholly signed with a positive revision,
  so that the migration counts never report an anomalous row.
\<close>

theorem store_stays_well_formed:
  assumes "db_ok (sw_db w)" "list_all op_ok ps"
  shows "db_ok (sw_db (fold run_op ps w)) \<and> mc_anomalous (counts_of (registrations (sw_db (fold run_op ps w)))) = 0"
  using db_ok_run [OF assms] by (simp add: db_ok_def no_anomalous_rows)

lemma store_stays_well_formed_witness:
  "db_ok (sw_db (fold run_op [Op_register sample_command, Op_prune 5] (srv_start [])))"
  using store_stays_well_formed [of "srv_start []" "[Op_register sample_command, Op_prune 5]"]
  by (simp add: srv_start_def db_ok_def op_ok_def sample_command_def)

end
