(* ===== verification/Srv_Replay.thy ===== *)
theory Srv_Replay
  imports Srv_Auth_Props Srv_Store_Props
begin

text \<open>
  Single use of signed requests. A request is authorized, waits for its ownership read, and is applied;
  other operations, the clock and the periodic pruning of nonces (\<open>server.js\<close>) run in between.
\<close>

subsection \<open>Requests in flight\<close>

text \<open>Owner, nonce and time of a signed request, and when its nonce counts as used.\<close>

fun claim_of :: "store_op \<Rightarrow> string \<times> string \<times> int" where
  "claim_of (Op_register c) = (rc_owner c, rc_nonce c, rc_signedAt c)"
| "claim_of (Op_deregister c) = (dc_owner c, dc_nonce c, dc_signedAt c)"
| "claim_of _ = ([], [], 0)"

fun used_at :: "store_op \<Rightarrow> int" where
  "used_at (Op_register c) = rc_nonceUsedAt c"
| "used_at (Op_deregister c) = dc_nonceUsedAt c"
| "used_at _ = 0"

definition is_signed_op :: "store_op \<Rightarrow> bool" where
  "is_signed_op p \<longleftrightarrow> (\<exists>c. p = Op_register c) \<or> (\<exists>c. p = Op_deregister c)"

definition authorizes :: "srv_libs \<Rightarrow> auth_context \<Rightarrow> json \<Rightarrow> int \<Rightarrow> store_op \<Rightarrow> bool" where
  "authorizes L x b now p \<longleftrightarrow>
     (\<exists>c. p = Op_register c \<and> register_checks L (Some x) b now = Inr c)
     \<or> (\<exists>c. p = Op_deregister c \<and> deregister_checks L (Some x) b now = Inr c)"

text \<open>The request went through: the store has neither refused its nonce nor failed.\<close>

definition went_through :: "(exn + apply_result) \<Rightarrow> bool" where
  "went_through r \<longleftrightarrow> (case r of Inl e \<Rightarrow> False | Inr a \<Rightarrow> ar_code a \<noteq> R_nonce_reused \<and> ar_code a \<noteq> R_database_error)"

fun executes :: "store_op \<Rightarrow> srv_world \<Rightarrow> bool" where
  "executes (Op_register c) w = went_through (fst (applySignedRegistration c w))"
| "executes (Op_deregister c) w = went_through (fst (applySignedDeregistration c w))"
| "executes _ w = False"

text \<open>What the server did with signed requests and nonces, the newest event first.\<close>

datatype replay_event = Executed store_op | Pruned int

record replay_state =
  rs_world :: srv_world
  rs_pending :: "store_op list"
  rs_log :: "replay_event list"

inductive replay_step :: "srv_libs \<Rightarrow> auth_context \<Rightarrow> replay_state \<Rightarrow> replay_state \<Rightarrow> bool" for L x where
  rp_arrive: "authorizes L x b (sw_now (rs_world s)) p \<Longrightarrow> replay_step L x s (s\<lparr>rs_pending := rs_pending s @ [p]\<rparr>)"
| rp_apply: "p \<in> set (rs_pending s) \<Longrightarrow> replay_step L x s
    (s\<lparr>rs_pending := remove1 p (rs_pending s), rs_world := run_op p (rs_world s),
       rs_log := (if executes p (rs_world s) then [Executed p] else []) @ rs_log s\<rparr>)"
| rp_refuse: "replay_step L x s (s\<lparr>rs_pending := remove1 p (rs_pending s)\<rparr>)"
| rp_other: "\<not> is_signed_op p \<Longrightarrow> (\<forall>t. p \<noteq> Op_prune t) \<Longrightarrow> replay_step L x s (s\<lparr>rs_world := run_op p (rs_world s)\<rparr>)"
| rp_prune: "replay_step L x s
    (s\<lparr>rs_world := run_op (Op_prune (sw_now (rs_world s) - 2 * SIG_WINDOW_SEC)) (rs_world s),
       rs_log := Pruned (sw_now (rs_world s)) # rs_log s\<rparr>)"
| rp_time: "0 \<le> d \<Longrightarrow> replay_step L x s (s\<lparr>rs_world := (rs_world s)\<lparr>sw_now := sw_now (rs_world s) + d\<rparr>\<rparr>)"

inductive replay_reachable :: "srv_libs \<Rightarrow> auth_context \<Rightarrow> replay_state \<Rightarrow> bool" for L x where
  rr_init: "rs_pending s = [] \<Longrightarrow> rs_log s = [] \<Longrightarrow> replay_reachable L x s"
| rr_next: "replay_reachable L x s \<Longrightarrow> replay_step L x s s' \<Longrightarrow> replay_reachable L x s'"

subsection \<open>The invariant\<close>

text \<open>The nonce of a request is in the table, since it was authorized or later.\<close>

definition nonce_kept :: "srv_db \<Rightarrow> store_op \<Rightarrow> bool" where
  "nonce_kept d p \<longleftrightarrow> ((fst (claim_of p), fst (snd (claim_of p))), used_at p) \<in> set (used_nonces d)"

abbreviation signed_at :: "store_op \<Rightarrow> int" where
  "signed_at p \<equiv> snd (snd (claim_of p))"

definition fresh_request :: "store_op \<Rightarrow> bool" where
  "fresh_request p \<longleftrightarrow> is_signed_op p \<and> \<bar>used_at p - signed_at p\<bar> \<le> SIG_WINDOW_SEC"

text \<open>A pruning among the events, at a time when the request is stale.\<close>

definition pruned_stale :: "replay_event list \<Rightarrow> store_op \<Rightarrow> bool" where
  "pruned_stale l p \<longleftrightarrow> (\<exists>t. Pruned t \<in> set l \<and> signed_at p + SIG_WINDOW_SEC < t)"

definition log_kept :: "srv_db \<Rightarrow> replay_event list \<Rightarrow> bool" where
  "log_kept d l \<longleftrightarrow> (\<forall>xs p ys. l = xs @ Executed p # ys \<longrightarrow> fresh_request p \<and> (nonce_kept d p \<or> pruned_stale xs p))"

text \<open>An earlier execution of the same request is followed by such a pruning.\<close>

definition repeat_excused :: "store_op \<Rightarrow> replay_event list \<Rightarrow> bool" where
  "repeat_excused p l \<longleftrightarrow> (\<forall>ys q zs. l = ys @ Executed q # zs \<longrightarrow> claim_of p = claim_of q
     \<longrightarrow> (\<exists>t. Pruned t \<in> set ys \<and> used_at p < t \<and> signed_at p + SIG_WINDOW_SEC < t))"

fun log_repeats :: "replay_event list \<Rightarrow> bool" where
  "log_repeats [] \<longleftrightarrow> True"
| "log_repeats (Pruned t # l) \<longleftrightarrow> log_repeats l"
| "log_repeats (Executed p # l) \<longleftrightarrow> repeat_excused p l \<and> log_repeats l"

lemma log_repeats_split: "log_repeats (xs @ Executed p # l) \<Longrightarrow> repeat_excused p l"
proof (induction xs)
  case (Cons e xs)
  then show ?case by (cases e) simp_all
qed simp

definition replay_ok :: "replay_state \<Rightarrow> bool" where
  "replay_ok s \<longleftrightarrow> (\<forall>p \<in> set (rs_pending s). fresh_request p) \<and> log_kept (sw_db (rs_world s)) (rs_log s) \<and> log_repeats (rs_log s)"

lemma log_kept_Pruned:
  assumes "\<And>xs p ys. l = xs @ Executed p # ys \<Longrightarrow> fresh_request p \<and> (nonce_kept d p \<or> pruned_stale (Pruned t # xs) p)"
  shows "log_kept d (Pruned t # l)"
  unfolding log_kept_def by (intro allI impI) (use assms in \<open>fastforce simp: Cons_eq_append_conv\<close>)

lemma log_kept_Executed:
  assumes "fresh_request q" "nonce_kept d q" "log_kept d l"
  shows "log_kept d (Executed q # l)"
  unfolding log_kept_def
proof (intro allI impI)
  fix xs p ys
  assume "Executed q # l = xs @ Executed p # ys"
  then consider "p = q" | xs' where "xs = Executed q # xs'" "l = xs' @ Executed p # ys" by (auto simp: Cons_eq_append_conv)
  then show "fresh_request p \<and> (nonce_kept d p \<or> pruned_stale xs p)"
  proof cases
    case 2
    then have "fresh_request p \<and> (nonce_kept d p \<or> pruned_stale xs' p)" using assms(3) unfolding log_kept_def by blast
    then show ?thesis by (auto simp: 2(1) pruned_stale_def)
  qed (use assms in simp)
qed

lemma log_kept_mono: "set (used_nonces d) \<subseteq> set (used_nonces d') \<Longrightarrow> log_kept d l \<Longrightarrow> log_kept d' l"
  by (auto simp: log_kept_def nonce_kept_def)

lemma authorizes_fresh: "authorizes L x b now p \<Longrightarrow> fresh_request p \<and> used_at p = now"
proof -
  assume "authorizes L x b now p"
  then consider c where "p = Op_register c" "register_checks L (Some x) b now = Inr c"
    | c where "p = Op_deregister c" "deregister_checks L (Some x) b now = Inr c"
    unfolding authorizes_def by blast
  then show ?thesis
  proof cases
    case 1
    show ?thesis using register_checks_sound [OF 1(2)] by (auto simp: 1(1) fresh_request_def is_signed_op_def SIG_WINDOW_SEC_def)
  next
    case 2
    show ?thesis using deregister_checks_sound [OF 2(2)] by (auto simp: 2(1) fresh_request_def is_signed_op_def SIG_WINDOW_SEC_def)
  qed
qed

lemma nonces_of_updates [simp]:
  "used_nonces (set_rows f d) = used_nonces d" "used_nonces (drop_rows P d) = used_nonces d"
  "used_nonces (add_row v r d) = used_nonces d" "used_nonces (add_nonce ow nc t d) = used_nonces d @ [((ow, nc), t)]"
  by (simp_all add: db_updates)

text \<open>Nonces are only added, except by pruning.\<close>

lemma op_keeps_nonces: "(\<forall>t. p \<noteq> Op_prune t) \<Longrightarrow> set (used_nonces (sw_db w)) \<subseteq> set (used_nonces (sw_db (run_op p w)))"
proof -
  assume n: "\<forall>t. p \<noteq> Op_prune t"
  have sub: "set (used_nonces d) \<subseteq> set (used_nonces (op_effect p d))" for d
    using n by (cases p) (auto simp: register_effect_def deregister_effect_def legacy_effect_def legacy_delete_effect_def
        owner_delete_effect_def Let_def split: option.split)
  show ?thesis using run_op_effect [of p w] sub [of "sw_db w"] by (elim disjE) simp_all
qed

lemma atomic_result:
  assumes "atomic m (refused R_database_error) f" "went_through (fst (m w))"
  shows "sw_db (ignored m w) = snd (f (sw_db w)) \<and> fst (m w) = Inr (fst (f (sw_db w)))"
  using assms(1) [unfolded atomic_def, rule_format, of w] assms(2)
  by (auto simp: wp_def ignored_def went_through_def refused_def split: prod.splits sum.splits)

text \<open>A request that goes through finds its nonce unused and records it.\<close>

lemma executes_claims:
  assumes "executes p w"
  shows "(\<nexists>u. ((fst (claim_of p), fst (snd (claim_of p))), u) \<in> set (used_nonces (sw_db w)))
    \<and> ((fst (claim_of p), fst (snd (claim_of p))), used_at p) \<in> set (used_nonces (sw_db (run_op p w)))"
proof (cases p)
  case (Op_register c)
  then have r: "sw_db (run_op p w) = snd (register_effect c (sw_db w))"
    "went_through (Inr (fst (register_effect c (sw_db w))))"
    using assms atomic_result [OF store_ops_atomic(1), of c w] by auto
  have u: "\<not> nonce_used (sw_db w) (rc_owner c) (rc_nonce c)"
    using r(2) by (auto simp: went_through_def register_effect_def refused_def)
  then have "((rc_owner c, rc_nonce c), rc_nonceUsedAt c) \<in> set (used_nonces (snd (register_effect c (sw_db w))))"
    by (auto simp: register_effect_def Let_def split: option.split)
  then show ?thesis using u r(1) unfolding Op_register nonce_used_def
    by (auto simp: map_of_eq_None_iff image_iff)
next
  case (Op_deregister c)
  then have r: "sw_db (run_op p w) = snd (deregister_effect c (sw_db w))"
    "went_through (Inr (fst (deregister_effect c (sw_db w))))"
    using assms atomic_result [OF store_ops_atomic(2), of c w] by auto
  have u: "\<not> nonce_used (sw_db w) (dc_owner c) (dc_nonce c)"
    using r(2) by (auto simp: went_through_def deregister_effect_def refused_def)
  then have "((dc_owner c, dc_nonce c), dc_nonceUsedAt c) \<in> set (used_nonces (snd (deregister_effect c (sw_db w))))"
    by (auto simp: deregister_effect_def Let_def)
  then show ?thesis using u r(1) unfolding Op_deregister nonce_used_def
    by (auto simp: map_of_eq_None_iff image_iff)
qed (use assms in auto)

lemma pruned_nonces:
  "sw_db (run_op (Op_prune t) w) = sw_db w
   \<or> used_nonces (sw_db (run_op (Op_prune t) w)) = filter (\<lambda>(k, u). \<not> u < t) (used_nonces (sw_db w))"
  using run_op_effect [of "Op_prune t" w] by auto

text \<open>Applying a request: an earlier execution of it was pruned when the request was stale.\<close>

lemma apply_keeps_ok:
  assumes ok: "replay_ok s" and p: "p \<in> set (rs_pending s)"
  shows "replay_ok (s\<lparr>rs_pending := remove1 p (rs_pending s), rs_world := run_op p (rs_world s),
       rs_log := (if executes p (rs_world s) then [Executed p] else []) @ rs_log s\<rparr>)"
proof -
  let ?w = "rs_world s"
  have fp: "fresh_request p" using ok p by (simp add: replay_ok_def)
  then have np: "\<forall>t. p \<noteq> Op_prune t" by (auto simp: fresh_request_def is_signed_op_def)
  have kept: "log_kept (sw_db (run_op p ?w)) (rs_log s)"
    using ok log_kept_mono [OF op_keeps_nonces [OF np]] by (simp add: replay_ok_def)
  have new: "\<exists>t. Pruned t \<in> set ys \<and> used_at p < t \<and> signed_at p + SIG_WINDOW_SEC < t"
    if e: "executes p ?w" and l: "rs_log s = ys @ Executed q # zs" and c: "claim_of p = claim_of q" for ys q zs
  proof -
    have "\<not> nonce_kept (sw_db ?w) q" using executes_claims [OF e] c by (auto simp: nonce_kept_def)
    then have "pruned_stale ys q" using ok l by (auto simp: replay_ok_def log_kept_def)
    then show ?thesis using fp c by (force simp: pruned_stale_def fresh_request_def)
  qed
  have "nonce_kept (sw_db (run_op p ?w)) p" if "executes p ?w" using executes_claims [OF that] by (simp add: nonce_kept_def)
  moreover have "repeat_excused p (rs_log s)" if "executes p ?w" using new [OF that] unfolding repeat_excused_def by blast
  ultimately show ?thesis using ok kept fp set_remove1_subset [of p "rs_pending s"]
    by (auto simp: replay_ok_def intro: log_kept_Executed)
qed

lemma prune_keeps_ok:
  assumes ok: "replay_ok s"
  shows "replay_ok (s\<lparr>rs_world := run_op (Op_prune (sw_now (rs_world s) - 2 * SIG_WINDOW_SEC)) (rs_world s),
       rs_log := Pruned (sw_now (rs_world s)) # rs_log s\<rparr>)"
proof -
  let ?w = "rs_world s" and ?t = "sw_now (rs_world s) - 2 * SIG_WINDOW_SEC"
  have "fresh_request p \<and> (nonce_kept (sw_db (run_op (Op_prune ?t) ?w)) p \<or> pruned_stale (Pruned (sw_now ?w) # xs) p)"
    if l: "rs_log s = xs @ Executed p # ys" for xs p ys
  proof -
    have f: "fresh_request p" "nonce_kept (sw_db ?w) p \<or> pruned_stale xs p" using ok l by (auto simp: replay_ok_def log_kept_def)
    show ?thesis
    proof (cases "used_at p < ?t")
      case True
      then show ?thesis using f(1) by (auto simp: pruned_stale_def fresh_request_def)
    next
      case False
      then show ?thesis using f pruned_nonces [of ?t ?w] by (auto simp: nonce_kept_def pruned_stale_def)
    qed
  qed
  then show ?thesis using ok by (auto simp: replay_ok_def intro: log_kept_Pruned)
qed

lemma replay_step_ok: "replay_step L x s s' \<Longrightarrow> replay_ok s \<Longrightarrow> replay_ok s'"
proof (induction rule: replay_step.induct)
  case (rp_arrive b s p)
  then show ?case using authorizes_fresh by (auto simp: replay_ok_def)
next
  case (rp_apply p s)
  then show ?case using apply_keeps_ok by blast
next
  case (rp_refuse s p)
  then show ?case using set_remove1_subset [of p "rs_pending s"] by (auto simp: replay_ok_def)
next
  case (rp_other p s)
  then show ?case using log_kept_mono [OF op_keeps_nonces] by (simp add: replay_ok_def)
next
  case (rp_prune s)
  then show ?case using prune_keeps_ok by blast
next
  case (rp_time d s)
  then show ?case by (simp add: replay_ok_def)
qed

lemma replay_reachable_ok: "replay_reachable L x s \<Longrightarrow> replay_ok s"
  by (induction rule: replay_reachable.induct) (simp add: replay_ok_def log_kept_def, rule replay_step_ok)

text \<open>
  C5: no signed request is executed twice, but for one case. Requests, other operations, failures,
  time and prunings at the server's margin of two signature windows are interleaved in any order,
  also with requests in flight. When a request with the owner, the nonce and the signing time of an
  executed one is executed again, then a pruning ran in between, in a later second than the one in
  which the second request was authorized and after its signature had expired: the request had to
  be in flight over that pruning. Without a pruning between two executions nothing repeats.
\<close>

theorem no_signed_request_twice:
  assumes "replay_reachable L x s"
    and "rs_log s = later @ Executed p # between @ Executed q # earlier" and "claim_of p = claim_of q"
  shows "\<exists>t. Pruned t \<in> set between \<and> used_at p < t \<and> signed_at p + SIG_WINDOW_SEC < t"
proof -
  have "log_repeats (later @ Executed p # between @ Executed q # earlier)"
    using replay_reachable_ok [OF assms(1)] assms(2) by (simp add: replay_ok_def)
  then have "repeat_excused p (between @ Executed q # earlier)" by (rule log_repeats_split)
  then show ?thesis using assms(3) unfolding repeat_excused_def by blast
qed

definition honest_body :: json where
  "honest_body = register_body sample_token honest_fields ''signature''"

abbreviation honest_op :: "int \<Rightarrow> store_op" where
  "honest_op t \<equiv> Op_register (fields_command honest_fields sample_token t)"

lemma honest_authorized:
  assumes "\<bar>t - 1000\<bar> \<le> 600"
  shows "authorizes sample_srv (fields_context honest_fields) honest_body t (honest_op t)"
proof -
  obtain m where "registerMessageV2 (sl_canon sample_srv) honest_fields = Inr m"
    using honest_sample(1,4) by (cases "registerMessageV2 Some honest_fields") auto
  from honest_checks [OF this, of sample_token t "replicate 64 0" "replicate 32 0"] assms
  show ?thesis by (simp add: authorizes_def honest_body_def honest_sample) (simp add: honest_fields_def honest_sample)
qed

lemma honest_executes:
  assumes "sw_faults w = (\<lambda>_. False)" "used_nonces (sw_db w) = []"
  shows "executes (honest_op t) w"
  using assms
  by (cases "row_of (sw_db w) ''Vau1t''")
    (auto simp: applySignedRegistration_def transaction_def signed_registration_txn_def claim_nonce_def select_row_def
      insert_row_def update_row_def nop_stmt_def stmt_def bindE_def tryE_def ret_apply Let_def went_through_def done_with_def
      fields_command_def honest_fields_def refused_def eval_nat_numeral)

text \<open>The excepted case is reachable: the same request, authorized in its first and in its last fresh second.\<close>

definition replay_start :: replay_state where
  "replay_start = \<lparr>rs_world = (srv_start [])\<lparr>sw_now := 400\<rparr>, rs_pending = [], rs_log = []\<rparr>"

definition replay_resent :: replay_state where
  "replay_resent = \<lparr>rs_world = (run_op (honest_op 400) ((srv_start [])\<lparr>sw_now := 400\<rparr>))\<lparr>sw_now := 1601\<rparr>,
     rs_pending = [honest_op 1600], rs_log = [Executed (honest_op 400)]\<rparr>"

lemma srv_start_clear: "sw_faults (srv_start []) = (\<lambda>_. False)" "used_nonces (sw_db (srv_start [])) = []"
  by (simp_all add: srv_start_def)

lemma pruned_world:
  assumes "sw_faults w = (\<lambda>_. False)"
  shows "sw_db (run_op (Op_prune t) w) = op_effect (Op_prune t) (sw_db w)" "sw_faults (run_op (Op_prune t) w) = (\<lambda>_. False)"
  using assms by (simp_all add: ignored_def pruneNonces_def nop_stmt_def stmt_def bindE_def ret_apply Let_def eval_nat_numeral)

lemma replay_resent_reachable: "replay_reachable sample_srv (fields_context honest_fields) replay_resent"
proof -
  let ?R = "replay_reachable sample_srv (fields_context honest_fields)"
    and ?S = "replay_step sample_srv (fields_context honest_fields)" and ?w = "(srv_start [])\<lparr>sw_now := 400\<rparr>"
  let ?v = "run_op (honest_op 400) ?w"
  have now: "sw_now ?v = 400" by (simp only: run_op_now) simp
  let ?s = "\<lambda>v n ps l. \<lparr>rs_world = v\<lparr>sw_now := n\<rparr>, rs_pending = ps, rs_log = l\<rparr>"
  have "?R replay_start" by (rule rr_init) (simp_all add: replay_start_def)
  moreover have "?S replay_start (replay_start\<lparr>rs_pending := [honest_op 400]\<rparr>)"
    using rp_arrive [of sample_srv "fields_context honest_fields" honest_body replay_start "honest_op 400"] honest_authorized
    by (simp add: replay_start_def)
  ultimately have "?R (?s (srv_start []) 400 [honest_op 400] [])" using rr_next by (fastforce simp: replay_start_def)
  then have "?R (\<lparr>rs_world = ?v, rs_pending = [], rs_log = [Executed (honest_op 400)]\<rparr>)"
    using rr_next [OF _ rp_apply [of "honest_op 400"]] honest_executes [of ?w 400] srv_start_clear by fastforce
  then have "?R (?s ?v 1600 [] [Executed (honest_op 400)])"
    using rr_next [OF _ rp_time [of 1200]] now by fastforce
  then have "?R (?s ?v 1600 [honest_op 1600] [Executed (honest_op 400)])"
    using rr_next [OF _ rp_arrive [of sample_srv "fields_context honest_fields" honest_body _ "honest_op 1600"]]
      honest_authorized [of 1600] by fastforce
  then show ?thesis using rr_next [OF _ rp_time [of 1]] unfolding replay_resent_def by fastforce
qed

lemma no_signed_request_twice_witness:
  "\<exists>s. replay_reachable sample_srv (fields_context honest_fields) s
     \<and> rs_log s = [] @ Executed (honest_op 1600) # [Pruned 1601] @ Executed (honest_op 400) # []
     \<and> claim_of (honest_op 1600) = claim_of (honest_op 400)
     \<and> (\<exists>t. Pruned t \<in> set [Pruned 1601] \<and> used_at (honest_op 1600) < t \<and> signed_at (honest_op 1600) + SIG_WINDOW_SEC < t)"
proof -
  let ?a = "replay_resent"
  let ?b = "?a\<lparr>rs_world := run_op (Op_prune (sw_now (rs_world ?a) - 2 * SIG_WINDOW_SEC)) (rs_world ?a),
       rs_log := Pruned (sw_now (rs_world ?a)) # rs_log ?a\<rparr>"
  let ?c = "?b\<lparr>rs_pending := remove1 (honest_op 1600) (rs_pending ?b), rs_world := run_op (honest_op 1600) (rs_world ?b),
       rs_log := (if executes (honest_op 1600) (rs_world ?b) then [Executed (honest_op 1600)] else []) @ rs_log ?b\<rparr>"
  have b: "replay_reachable sample_srv (fields_context honest_fields) ?b" by (rule rr_next [OF replay_resent_reachable rp_prune])
  have c: "replay_reachable sample_srv (fields_context honest_fields) ?c"
    by (rule rr_next [OF b rp_apply]) (simp add: replay_resent_def)
  have "sw_faults (rs_world ?a) = (\<lambda>_. False)" "used_nonces (sw_db (rs_world ?a)) = [((''Bob'', replicate 22 (CHR ''x'')), 400)]"
    by (simp_all add: replay_resent_def ignored_def applySignedRegistration_def transaction_def signed_registration_txn_def
        claim_nonce_def select_row_def insert_row_def nop_stmt_def stmt_def bindE_def tryE_def ret_apply Let_def srv_start_def
        fields_command_def honest_fields_def eval_nat_numeral)
  then have "executes (honest_op 1600) (rs_world ?b)"
    using honest_executes [of "run_op (Op_prune 401) (rs_world ?a)" 1600] pruned_world [of "rs_world ?a" 401]
    by (simp add: replay_resent_def SIG_WINDOW_SEC_def)
  then have l: "rs_log ?c = [] @ Executed (honest_op 1600) # [Pruned 1601] @ Executed (honest_op 400) # []"
    by (simp add: replay_resent_def)
  have k: "claim_of (honest_op 1600) = claim_of (honest_op 400)" by (simp add: fields_command_def)
  show ?thesis using c l k no_signed_request_twice [OF c l k] by blast
qed

subsection \<open>Where a replay gets through\<close>

text \<open>A registration dated ten minutes ahead of the server's clock, and the removal that follows it.\<close>

definition ahead_command :: "int \<Rightarrow> reg_command" where
  "ahead_command t = sample_command\<lparr>rc_signedAt := 1600, rc_nonceUsedAt := t\<rparr>"

definition removal_command :: dereg_command where
  "removal_command = \<lparr>dc_owner = ''Bob'', dc_vault = ''Vau1t'', dc_nonce = ''second'', dc_nonceUsedAt = 1010, dc_signedAt = 1010\<rparr>"

definition removed_world :: srv_world where
  "removed_world = fold run_op [Op_register (ahead_command 1000), Op_deregister removal_command] (srv_start [])"

lemma removed_world_db:
  "sw_db removed_world = \<lparr>registrations = [], used_nonces = [((''Bob'', ''nonce''), 1000), ((''Bob'', ''second''), 1010)]\<rparr>
   \<and> sw_faults removed_world = (\<lambda>_. False)"
  by (simp add: removed_world_def ignored_def applySignedRegistration_def applySignedDeregistration_def transaction_def
      signed_registration_txn_def signed_deregistration_txn_def claim_nonce_def select_row_def insert_row_def delete_rows_def
      nop_stmt_def stmt_def bindE_def tryE_def ret_apply Let_def srv_start_def ahead_command_def sample_command_def
      removal_command_def signed_row_def eval_nat_numeral)

lemma replay_created:
  assumes "used_nonces (sw_db w) = [((''Bob'', ''second''), 1010)]" "registrations (sw_db w) = []" "sw_faults w = (\<lambda>_. False)"
  shows "fst (applySignedRegistration (ahead_command t) w) = Inr (done_with R_created)"
  using assms
  by (simp add: applySignedRegistration_def transaction_def signed_registration_txn_def claim_nonce_def select_row_def insert_row_def
      nop_stmt_def stmt_def bindE_def tryE_def ret_apply Let_def ahead_command_def sample_command_def eval_nat_numeral)

text \<open>
  C34: the margins are not enough. At the minimum the comment of \<open>pruneNonces\<close> allows, one signature
  window, a registration dated ahead is accepted, removed, its nonce pruned, and the same signed request
  is still fresh and creates the registration again. At the server's margin of two windows the same
  happens to a request that is authorized in the last fresh second and applied after the next
  pruning, while its ownership read is pending.
\<close>

theorem pruning_reopens_replay:
  "freshnessError (JNum 1600) 1000 = None \<and> freshnessError (JNum 1600) 1602 = None \<and> freshnessError (JNum 1600) 2200 = None
   \<and> row_of (sw_db removed_world) ''Vau1t'' = None
   \<and> fst (applySignedRegistration (ahead_command 1602) (run_op (Op_prune (1602 - SIG_WINDOW_SEC)) removed_world)) = Inr (done_with R_created)
   \<and> fst (applySignedRegistration (ahead_command 2200) (run_op (Op_prune (2201 - 2 * SIG_WINDOW_SEC)) removed_world)) = Inr (done_with R_created)"
proof -
  have p: "fst (applySignedRegistration (ahead_command u) (run_op (Op_prune t) removed_world)) = Inr (done_with R_created)"
    if "1000 < t" "t \<le> 1010" for t u
  proof (rule replay_created)
    have f: "sw_faults removed_world = (\<lambda>_. False)" using removed_world_db by simp
    show "sw_faults (run_op (Op_prune t) removed_world) = (\<lambda>_. False)" by (rule pruned_world(2) [OF f])
    show "used_nonces (sw_db (run_op (Op_prune t) removed_world)) = [((''Bob'', ''second''), 1010)]"
      "registrations (sw_db (run_op (Op_prune t) removed_world)) = []"
      unfolding pruned_world(1) [OF f] using removed_world_db that by simp_all
  qed
  show ?thesis using removed_world_db p [of "1602 - SIG_WINDOW_SEC" 1602] p [of "2201 - 2 * SIG_WINDOW_SEC" 2200]
    by (simp add: freshnessError_def SIG_WINDOW_SEC_def)
qed

end
