(* ===== verification/Srv_Routes_Props.thy ===== *)
theory Srv_Routes_Props
  imports Srv_Routes Srv_Replay
begin

text \<open>
  What the two endpoints may do to the tables, on every input: nothing, or the one effect that the
  gates and the authorization of this request justify. The legacy window never reopens.
\<close>

subsection \<open>The gates do not touch the tables\<close>

definition same_store :: "'e srv_world_scheme \<Rightarrow> 'e srv_world_scheme \<Rightarrow> bool" where
  "same_store w w' \<longleftrightarrow> sw_db w' = sw_db w \<and> sw_now w' = sw_now w"

lemma same_store_refl: "same_store w w"
  by (simp add: same_store_def)

lemma same_store_trans: "same_store u v \<Longrightarrow> same_store v w \<Longrightarrow> same_store u w"
  by (simp add: same_store_def)

lemma stored_same: "stored_as w (sw_db w) w' \<Longrightarrow> same_store w w'"
  by (simp add: same_store_def stored_as_now)

definition same_gate :: "'e gate_world_scheme \<Rightarrow> 'e gate_world_scheme \<Rightarrow> bool" where
  "same_gate w w' \<longleftrightarrow> same_store w w' \<and> gw_expired w' = gw_expired w"

lemma same_gate_refl: "same_gate w w"
  by (simp add: same_gate_def same_store_refl)

lemma same_gate_trans: "same_gate u v \<Longrightarrow> same_gate v w \<Longrightarrow> same_gate u w"
  by (auto simp: same_gate_def intro: same_store_trans)

definition gate_ok :: "('e gate_world_scheme, 'a) io \<Rightarrow> bool" where
  "gate_ok m \<longleftrightarrow> (\<forall>w. wp m (\<lambda>_ w'. same_gate w w') (\<lambda>_ _. False) w)"

lemma gate_okD: "gate_ok m \<Longrightarrow> (\<And>a w'. same_gate w w' \<Longrightarrow> Q a w') \<Longrightarrow> wp m Q E w"
  unfolding gate_ok_def by (blast intro: wp_mono)

lemma gate_ok_ret: "gate_ok (ret a)"
  by (simp add: gate_ok_def wp_simps same_gate_refl)

lemma gate_ok_bindE: "gate_ok m \<Longrightarrow> (\<And>a. gate_ok (k a)) \<Longrightarrow> gate_ok (bindE m k)"
proof -
  assume m: "gate_ok m" and k: "\<And>a. gate_ok (k a)"
  have "wp m (\<lambda>a. wp (k a) (\<lambda>_ w'. same_gate w w') (\<lambda>_ _. False)) (\<lambda>_ _. False) w" for w
    by (rule gate_okD [OF m], rule gate_okD [OF k]) (rule same_gate_trans)
  then show ?thesis by (simp add: gate_ok_def wp_bindE)
qed

lemma gate_ok_checks:
  "gate_ok (checkIp k)" "gate_ok (checkOwner k)" "gate_ok (checkVault k)" "gate_ok (checkTokenHash k)" "gate_ok (checkAdminIp k)"
  by (auto simp: gate_ok_def wp_def checkIp_def checkOwner_def checkVault_def checkTokenHash_def checkAdminIp_def same_gate_def same_store_def
      split: prod.split)

lemma gate_ok_facet: "(\<And>s. gate_ok (check s)) \<Longrightarrow> gate_ok rest \<Longrightarrow> gate_ok (facet check k rest)"
  unfolding facet_def by (auto intro!: gate_ok_bindE gate_ok_ret split: option.split limit_result.split)

lemma gate_ok_facets: "gate_ok (facets_checked H b t)"
  unfolding facets_checked_def checkFacets_def by (auto intro!: gate_ok_facet gate_ok_checks gate_ok_ret split: prod.split)

lemma wp_transition:
  assumes "\<And>ts w'. same_store w w' \<Longrightarrow> (tv_legacyAccepting ts \<Longrightarrow> md = Legacy_only \<or> md = Dual_accept \<and> \<not> gw_expired w
       \<and> (\<exists>u. until = Some u \<and> sw_now w < u)) \<Longrightarrow> Q ts w'"
  shows "wp (transition_get md until) Q E w"
  unfolding transition_get_def wp_simps Let_def
  by (rule assms) (auto simp: same_store_def split: if_splits option.splits)

text \<open>What an ownership read may do: time passes, the tables stay.\<close>

definition keeps_db :: "('e srv_world_scheme, 'a) io \<Rightarrow> bool" where
  "keeps_db m \<longleftrightarrow> (\<forall>w. sw_db (snd (m w)) = sw_db w)"

lemma wp_keeps_db: "keeps_db m \<Longrightarrow> (\<And>a w'. sw_db w' = sw_db w \<Longrightarrow> Q a w') \<Longrightarrow> (\<And>e w'. sw_db w' = sw_db w \<Longrightarrow> E e w') \<Longrightarrow> wp m Q E w"
  unfolding keeps_db_def wp_def by (cases "m w") (auto split: sum.split dest: spec [of _ w])

lemma wp_authorize:
  assumes "\<And>ow v. keeps_db (verify ow v)" "\<And>c w'. sw_db w' = sw_db w \<Longrightarrow> Q (Inl c) w'"
    "\<And>c w'. sw_db w' = sw_db w \<Longrightarrow> register_checks L x (or_object b) (sw_now w) = Inr c \<Longrightarrow> Q (Inr c) w'"
  shows "wp (authorizeRegisterV2 L x verify b) Q E w"
proof (cases "register_checks L x (or_object b) (sw_now w)")
  case (Inl c)
  then show ?thesis using assms(2) by (simp add: authorizeRegisterV2_def wp_simps)
next
  case (Inr c)
  then show ?thesis using assms(2,3) unfolding authorizeRegisterV2_def wp_simps
    by (auto simp: wp_simps intro!: wp_keeps_db [OF assms(1)] split: option.split)
qed

lemma wp_atomic:
  assumes "atomic m R f" "\<And>w'. sw_db w' = snd (f (sw_db w)) \<Longrightarrow> Q (fst (f (sw_db w))) w'"
    "\<And>w'. sw_db w' = sw_db w \<Longrightarrow> Q R w'" "\<And>e w'. sw_db w' = sw_db w \<Longrightarrow> E e w'"
  shows "wp m Q E w"
  by (rule wp_mono [OF assms(1) [unfolded atomic_def, rule_format]]) (auto intro: assms(2-4))

text \<open>The effect a request on \<open>/register\<close> may have.\<close>

definition register_allowed :: "('e, 'x) handler_deps_scheme \<Rightarrow> http_request \<Rightarrow> 'e gate_world_scheme \<Rightarrow> srv_db \<Rightarrow> bool" where
  "register_allowed H req w d \<longleftrightarrow>
     (if isSignedAttempt (or_object (hq_body req))
      then hd_mode H \<noteq> Legacy_only
        \<and> (\<exists>c. register_checks (hd_libs H) (hd_expected H) (or_object (hq_body req)) (sw_now w) = Inr c
             \<and> d = snd (register_effect c (sw_db w)))
      else legacySecretOk (hd_secret H) (hq_secret req)
        \<and> (hd_mode H = Legacy_only \<or> hd_mode H = Dual_accept \<and> \<not> gw_expired w \<and> (\<exists>u. hd_until H = Some u \<and> sw_now w < u))
        \<and> (\<exists>c. d = snd (legacy_effect c (sw_db w))))"

lemma or_object_idem [simp]: "or_object (or_object b) = or_object b"
  by (simp add: or_object_def)

lemma gated_wp:
  assumes out: "\<And>rep w'. same_store w w' \<Longrightarrow> Q rep w'"
    and sig: "\<And>w'. same_store w w' \<Longrightarrow> isSignedAttempt (or_object (hq_body req)) \<Longrightarrow> hd_mode H \<noteq> Legacy_only \<Longrightarrow>
      wp (onSigned (or_object (hq_body req))) Q E w'"
    and leg: "\<And>w'. same_store w w' \<Longrightarrow> \<not> isSignedAttempt (or_object (hq_body req)) \<Longrightarrow> legacySecretOk (hd_secret H) (hq_secret req) \<Longrightarrow>
      hd_mode H = Legacy_only \<or> hd_mode H = Dual_accept \<and> \<not> gw_expired w \<and> (\<exists>u. hd_until H = Some u \<and> sw_now w < u) \<Longrightarrow>
      wp (onLegacy (or_object (hq_body req))) Q E w'"
  shows "wp (gated H req t onSigned onLegacy) Q E w"
proof -
  let ?b = "or_object (hq_body req)"
  have store: "same_gate w v \<Longrightarrow> same_store v u \<Longrightarrow> same_store w u" for v u
    unfolding same_gate_def by (blast intro: same_store_trans)
  have legacy: "wp (bindE (transition_get (hd_mode H) (hd_until H)) (\<lambda>ts.
       if \<not> tv_legacyAccepting ts then ret window_expired_reply
       else if \<not> legacySecretOk (hd_secret H) (hq_secret req) then ret (error_reply 401 ''unauthorized'')
       else onLegacy ?b)) Q E v"
    if v: "same_gate w v" and n: "\<not> isSignedAttempt ?b" for v
    unfolding wp_simps
  proof (rule wp_transition)
    fix ts w'
    assume w': "same_store v w'" and opened: "tv_legacyAccepting ts \<Longrightarrow> hd_mode H = Legacy_only \<or> hd_mode H = Dual_accept \<and> \<not> gw_expired v
       \<and> (\<exists>u. hd_until H = Some u \<and> sw_now v < u)"
    have eq: "gw_expired v = gw_expired w" "sw_now v = sw_now w" using v by (simp_all add: same_gate_def same_store_def)
    show "if \<not> tv_legacyAccepting ts then Q window_expired_reply w'
        else if \<not> legacySecretOk (hd_secret H) (hq_secret req) then Q (error_reply 401 ''unauthorized'') w'
        else wp (onLegacy ?b) Q E w'"
      using out [OF store [OF v w']] leg [OF store [OF v w'] n] opened by (auto simp: eq)
  qed
  have body: "wp (if isSignedAttempt ?b then (if hd_mode H = Legacy_only then ret (fail_reply R_signed_not_enabled) else onSigned ?b)
       else if hd_mode H = Signed_required then ret (fail_reply R_signed_required)
       else bindE (transition_get (hd_mode H) (hd_until H)) (\<lambda>ts.
             if \<not> tv_legacyAccepting ts then ret window_expired_reply
             else if \<not> legacySecretOk (hd_secret H) (hq_secret req) then ret (error_reply 401 ''unauthorized'')
             else onLegacy ?b)) Q E v" if v: "same_gate w v" for v
    using legacy [OF v] sig [of v] out [of v] v by (auto simp: wp_ret same_gate_def)
  have facet: "wp (bindE (facets_checked H ?b t) (\<lambda>fr. case fr of Limited n \<Rightarrow> ret (rate_reply n) | Allowed \<Rightarrow> K)) Q E v"
    if v: "same_gate w v" and k: "\<And>u. same_gate w u \<Longrightarrow> wp K Q E u" for v K
    unfolding wp_bindE
  proof (rule gate_okD [OF gate_ok_facets])
    fix r u assume "same_gate v u"
    with v have "same_gate w u" by (rule same_gate_trans)
    then show "wp (case r of Limited n \<Rightarrow> ret (rate_reply n) | Allowed \<Rightarrow> K) Q E u"
      using k [of u] out [of u] by (cases r) (auto simp: wp_ret same_gate_def)
  qed
  show ?thesis unfolding gated_def Let_def wp_bindE [of "checkIp _"]
  proof (rule gate_okD [OF gate_ok_checks(1)])
    fix r v assume v: "same_gate w v"
    show "wp (case r of Allowed \<Rightarrow> bindE (facets_checked H ?b t) (\<lambda>fr. case fr of Allowed \<Rightarrow>
          if isSignedAttempt ?b then (if hd_mode H = Legacy_only then ret (fail_reply R_signed_not_enabled) else onSigned ?b)
          else if hd_mode H = Signed_required then ret (fail_reply R_signed_required)
          else bindE (transition_get (hd_mode H) (hd_until H)) (\<lambda>ts.
             if \<not> tv_legacyAccepting ts then ret window_expired_reply
             else if \<not> legacySecretOk (hd_secret H) (hq_secret req) then ret (error_reply 401 ''unauthorized'')
             else onLegacy ?b) | Limited n \<Rightarrow> ret (rate_reply n)) | Limited n \<Rightarrow> ret (rate_reply n)) Q E v"
      using facet [OF v body] out [of v] v by (cases r) (auto simp: wp_ret same_gate_def)
  qed
qed

lemma signed_register_wp:
  assumes quiet: "\<And>ow v. keeps_db (hd_verify H ow v)" and w': "same_store w w'"
    and s: "isSignedAttempt (or_object b)" "hd_mode H \<noteq> Legacy_only" "or_object b = or_object (hq_body req)"
  shows "wp (signed_register H b) (\<lambda>rep u. sw_db u = sw_db w \<or> register_allowed H req w (sw_db u)) (\<lambda>_ u. sw_db u = sw_db w) w'"
  unfolding signed_register_def wp_bindE [of "authorizeRegisterV2 _ _ _ _"]
proof (rule wp_authorize [OF quiet])
  have d: "sw_db w' = sw_db w" "sw_now w' = sw_now w" using w' by (simp_all add: same_store_def)
  fix c u
  assume u: "sw_db u = sw_db w'" and c: "register_checks (hd_libs H) (hd_expected H) (or_object b) (sw_now w') = Inr c"
  have ok: "register_allowed H req w (snd (register_effect c (sw_db w)))"
    using s c d by (auto simp: register_allowed_def)
  show "wp (case Inr c of Inl c \<Rightarrow> ret (fail_reply c) | Inr cmd \<Rightarrow> bindE (applySignedRegistration cmd) (\<lambda>t. ret (register_answer cmd t)))
     (\<lambda>rep u. sw_db u = sw_db w \<or> register_allowed H req w (sw_db u)) (\<lambda>_ u. sw_db u = sw_db w) u"
    unfolding sum.case wp_simps by (rule wp_atomic [OF store_ops_atomic(1)]) (use ok u d in simp_all)
next
  fix c u
  assume "sw_db u = sw_db w'"
  then show "wp (case Inl c of Inl c \<Rightarrow> ret (fail_reply c) | Inr cmd \<Rightarrow> bindE (applySignedRegistration cmd) (\<lambda>t. ret (register_answer cmd t)))
     (\<lambda>rep u. sw_db u = sw_db w \<or> register_allowed H req w (sw_db u)) (\<lambda>_ u. sw_db u = sw_db w) u"
    using w' by (simp add: wp_simps same_store_def)
qed

lemma legacy_apply_wp:
  assumes "sw_db v = d"
  shows "wp (legacy_apply H ow vault token ss) (\<lambda>rep u. sw_db u = d \<or> (\<exists>c. sw_db u = snd (legacy_effect c d))) (\<lambda>_ u. sw_db u = d) v"
proof -
  have noop: "wp (bindE (seqE (prepare 3) (ret (refused R_database_error))) (\<lambda>t. ret (K t)))
      (\<lambda>rep u. sw_db u = d \<or> (\<exists>c. sw_db u = snd (legacy_effect c d))) (\<lambda>_ u. sw_db u = d) v" for K
    unfolding wp_simps by (rule wp_mono [OF prepare_keeps]) (use assms in auto)
  have applied: "wp (bindE (applyLegacyRegistration c) (\<lambda>t. ret (K t)))
      (\<lambda>rep u. sw_db u = d \<or> (\<exists>c. sw_db u = snd (legacy_effect c d))) (\<lambda>_ u. sw_db u = d) v" for K c
    unfolding wp_simps by (rule wp_atomic [OF store_ops_atomic(3)]) (use assms in auto)
  show ?thesis unfolding legacy_apply_def wp_bindE [of "gets _"] wp_gets bound_or_error_def
    using noop applied by (cases "hd_bind H vault"; cases "hd_bind H ow") simp_all
qed

lemma legacy_register_wp:
  assumes quiet: "\<And>ow v. keeps_db (hd_legacyVerify H ow v)" and d: "sw_db v = d"
  shows "wp (legacy_register H b) (\<lambda>rep u. sw_db u = d \<or> (\<exists>c. sw_db u = snd (legacy_effect c d))) (\<lambda>_ u. sw_db u = d) v"
proof -
  let ?Q = "\<lambda>rep u. sw_db u = d \<or> (\<exists>c. sw_db u = snd (legacy_effect c d))"
  have verified: "wp (or_return (hd_legacyVerify H ow vault) r (\<lambda>x. if \<not> fst x then ret r' else legacy_apply H ow vault token ss))
      ?Q (\<lambda>_ u. sw_db u = d) v" for ow vault r r' token ss
    unfolding wp_or_return
    by (rule wp_keeps_db [OF quiet]) (use d in \<open>auto simp: wp_if wp_ret intro: legacy_apply_wp\<close>)
  show ?thesis unfolding legacy_register_def Let_def
    using verified d by (auto simp: wp_if wp_ret split: json.split option.split)
qed

lemma register_wp:
  assumes signed: "\<And>ow v. keeps_db (hd_verify H ow v)" and legacy: "\<And>ow v. keeps_db (hd_legacyVerify H ow v)"
  shows "wp (handle_register H req) (\<lambda>rep w'. sw_db w' = sw_db w \<or> register_allowed H req w (sw_db w')) (\<lambda>_ w'. sw_db w' = sw_db w) w"
  unfolding handle_register_def
proof (rule gated_wp)
  fix w' assume w': "same_store w w'" and s: "isSignedAttempt (or_object (hq_body req))" "hd_mode H \<noteq> Legacy_only"
  show "wp (signed_register H (or_object (hq_body req))) (\<lambda>rep w'. sw_db w' = sw_db w \<or> register_allowed H req w (sw_db w'))
      (\<lambda>_ w'. sw_db w' = sw_db w) w'"
    by (rule signed_register_wp [OF signed w']) (use s in simp_all)
next
  fix w' assume w': "same_store w w'" and l: "\<not> isSignedAttempt (or_object (hq_body req))" "legacySecretOk (hd_secret H) (hq_secret req)"
    "hd_mode H = Legacy_only \<or> hd_mode H = Dual_accept \<and> \<not> gw_expired w \<and> (\<exists>u. hd_until H = Some u \<and> sw_now w < u)"
  show "wp (legacy_register H (or_object (hq_body req))) (\<lambda>rep w'. sw_db w' = sw_db w \<or> register_allowed H req w (sw_db w'))
      (\<lambda>_ w'. sw_db w' = sw_db w) w'"
    by (rule wp_mono [OF legacy_register_wp [OF legacy]]) (use w' l in \<open>auto simp: same_store_def register_allowed_def\<close>)
qed (simp add: same_store_def)

text \<open>
  whatever is posted to \<open>/register\<close> and whatever fails, the tables change only by one effect the
  request justifies. A body with any field of the signed envelope can only have the effect of a
  command that passed every check of the signed path, never the legacy effect, also when the shared
  secret is right; a body without one needs the secret, a mode that admits it and an open window.
\<close>

theorem register_endpoint_effects:
  assumes "\<And>ow v. keeps_db (hd_verify H ow v)" "\<And>ow v. keeps_db (hd_legacyVerify H ow v)"
  shows "wp (handle_register H req) (\<lambda>rep w'. sw_db w' = sw_db w \<or> register_allowed H req w (sw_db w')) (\<lambda>_ w'. sw_db w' = sw_db w) w"
  by (rule register_wp [OF assms])

definition sample_handlers :: "auth_mode \<Rightarrow> (unit gate_world_scheme, verdict) io \<Rightarrow> unit handler_deps" where
  "sample_handlers md v =
     \<lparr>hd_mode = md, hd_until = Some 5000, hd_expected = Some (fields_context honest_fields), hd_libs = sample_srv,
      hd_verify = (\<lambda>_ _. v), hd_legacyVerify = (\<lambda>_ _. ret (True, [])), hd_secret = ''secret'', hd_isPubkey = (\<lambda>j. js_text j \<noteq> []),
      hd_string = js_text, hd_number = (\<lambda>j. case j of JNum n \<Rightarrow> Some (of_int n) | _ \<Rightarrow> None),
      hd_bind = (\<lambda>j. case j of JStr s \<Rightarrow> Some s | _ \<Rightarrow> None)\<rparr>"

definition gate_start :: "srv_db \<Rightarrow> (nat \<Rightarrow> bool) \<Rightarrow> gate_world" where
  "gate_start d faults =
     \<lparr>sw_db = d, sw_faults = faults, sw_count = 0, sw_now = 1300, gw_ms = 1300000, gw_ip = [], gw_owner = [], gw_vault = [],
      gw_token = [], gw_admin = [], gw_expired = False, gw_firstExpiryAt = None\<rparr>"

lemma register_endpoint_effects_witness:
  "wp (handle_register (sample_handlers Dual_accept (ret Owned)) \<lparr>hq_ip = ''1.2.3.4'', hq_secret = Some ''secret'', hq_body = honest_body\<rparr>)
     (\<lambda>rep w'. sw_db w' = sw_db (gate_start \<lparr>registrations = [], used_nonces = []\<rparr> (\<lambda>n. n = 3))
        \<or> register_allowed (sample_handlers Dual_accept (ret Owned)) \<lparr>hq_ip = ''1.2.3.4'', hq_secret = Some ''secret'', hq_body = honest_body\<rparr> (gate_start \<lparr>registrations = [], used_nonces = []\<rparr> (\<lambda>n. n = 3)) (sw_db w'))
     (\<lambda>_ w'. sw_db w' = sw_db (gate_start \<lparr>registrations = [], used_nonces = []\<rparr> (\<lambda>n. n = 3))) (gate_start \<lparr>registrations = [], used_nonces = []\<rparr> (\<lambda>n. n = 3))"
  by (rule register_endpoint_effects) (simp_all add: sample_handlers_def keeps_db_def ret_apply)

subsection \<open>The legacy window\<close>

text \<open>What successive requests see, each at its reading of a clock that may also jump back.\<close>

fun window_views :: "auth_mode \<Rightarrow> int option \<Rightarrow> int list \<Rightarrow> 'e gate_world_scheme \<Rightarrow> bool list" where
  "window_views md until [] w = []"
| "window_views md until (t # ts) w =
     (case transition_get md until (w\<lparr>sw_now := t\<rparr>) of
        (Inr v, w') \<Rightarrow> tv_legacyAccepting v # window_views md until ts w'
      | (Inl e, w') \<Rightarrow> window_views md until ts w')"

lemma window_views_expired:
  "md = Dual_accept \<Longrightarrow> gw_expired w \<or> until = None \<Longrightarrow> window_views md until ts w = replicate (length ts) False"
  by (induction ts arbitrary: w) (auto simp: transition_get_def bindE_def ret_apply Let_def)

text \<open>
  the legacy window closes once: in every mode, over any sequence of clock readings, the requests
  that see it open come before all that see it closed.
\<close>

theorem legacy_window_never_reopens:
  "\<exists>n m. window_views md until ts w = replicate n True @ replicate m False"
proof (cases "md = Dual_accept \<and> until \<noteq> None")
  case True
  then obtain u where u: "md = Dual_accept" "until = Some u" by auto
  show ?thesis
  proof (induction ts arbitrary: w)
    case (Cons t ts)
    show ?case
    proof (cases "gw_expired w \<or> u \<le> t")
      case True
      let ?w = "w\<lparr>sw_now := t, gw_expired := True, gw_firstExpiryAt := Some t\<rparr>"
      have "window_views md until ts v = replicate (length ts) False" if "gw_expired v" for v :: "'a gate_world_scheme"
        by (rule window_views_expired) (use u that in auto)
      then have "window_views md until (t # ts) w = replicate 0 True @ replicate (Suc (length ts)) False"
        using True by (auto simp: u transition_get_def bindE_def ret_apply Let_def)
      then show ?thesis by blast
    next
      case False
      obtain n m where "window_views md until ts (w\<lparr>sw_now := t\<rparr>) = replicate n True @ replicate m False" using Cons.IH by blast
      then have "window_views md until (t # ts) w = replicate (Suc n) True @ replicate m False"
        using False by (simp add: u transition_get_def bindE_def ret_apply Let_def)
      then show ?thesis by blast
    qed
  qed simp
next
  case False
  have "window_views md until ts w = replicate (length ts) (md = Legacy_only)"
    using False by (induction ts arbitrary: w) (auto simp: transition_get_def bindE_def ret_apply Let_def)
  then show ?thesis by (cases "md = Legacy_only") (metis append_Nil2 replicate_0, metis append_Nil replicate_0)
qed

subsection \<open>A failure reported as success\<close>

lemma prepare_3: "prepare 3 = seqE nop_stmt (seqE nop_stmt (seqE nop_stmt (ret ())))"
  by (simp add: eval_nat_numeral)

lemma failing_delete:
  "sw_faults w = (\<lambda>n. 3 \<le> n) \<Longrightarrow> sw_count w = 0 \<Longrightarrow>
   deleteLegacyRegistration v ow w = (Inr (refused R_database_error), w\<lparr>sw_count := 4\<rparr>)"
  by (simp add: deleteLegacyRegistration_def prepare_3 transaction_def nop_stmt_def stmt_def bindE_def tryE_def ret_apply throw_apply)

definition vault_db :: srv_db where
  "vault_db = \<lparr>registrations = [(''Vau1t'', legacy_row \<lparr>lc_owner = ''Bob'', lc_vault = ''Vau1t'', lc_deviceToken = sample_token,
     lc_stage1 = 1, lc_stage2 = 2, lc_stage3 = 3, lc_now = 1000\<rparr>)], used_nonces = []\<rparr>"

definition legacy_delete_request :: http_request where
  "legacy_delete_request = \<lparr>hq_ip = ''1.2.3.4'', hq_secret = Some ''secret'', hq_body = JObj [(''vault'', JStr ''Vau1t'')]\<rparr>"

text \<open>
  in legacy mode a removal by vault that the database rejects is answered with status 200 and
  \<open>ok: true\<close>, though the row is still there; in dual mode the same failure is answered with 503.
\<close>

theorem failed_removal_reported_ok:
  "(let (r, w) = handle_deregister (sample_handlers Legacy_only (ret Owned)) legacy_delete_request (gate_start vault_db (\<lambda>n. 3 \<le> n));
        (r', w') = handle_deregister (sample_handlers Dual_accept (ret Owned)) legacy_delete_request (gate_start vault_db (\<lambda>n. 3 \<le> n))
    in r = Inr (reply_json 200 (JObj [(''ok'', JBool True)])) \<and> sw_db w = vault_db
       \<and> r' = Inr (fail_reply R_database_error) \<and> hp_status (fail_reply R_database_error) = 503)"
  by (simp add: handle_deregister_def gated_def legacy_delete_request_def gate_start_def sample_handlers_def facets_checked_def facets_def
      checkFacets_def facet_def checkIp_def checkVault_def hit_def live_bucket_def MAP_CAP_def IP_MAX_def VAULT_MAX_def or_object_def
      isSignedAttempt_def V2_ENVELOPE_FIELDS_def transition_get_def legacySecretOk_def constantTimeEqual_def legacy_deregister_def
      bound_or_error_def failing_delete bindE_def ret_apply Let_def removed_json_def refused_def fail_reply_def reply_json_def)

end
