(* ===== verification/Srv_Poll_Props.thy ===== *)
theory Srv_Poll_Props
  imports Srv_Poll Srv_Routes_Props Escalation
begin

text \<open>
  Properties of the poller: what one turn may do to the registrations and what justifies it, whatever
  requests, other turns and the monitor do while it waits (a rely relation on the tables); the
  spacing of pushes over successive turns; and the agreement of the server's stages with the app's.
\<close>

subsection \<open>Awaited calls under a rely relation\<close>

definition relies :: "(srv_db \<Rightarrow> srv_db \<Rightarrow> bool) \<Rightarrow> ('e srv_world_scheme, 'a) io \<Rightarrow> bool" where
  "relies R m \<longleftrightarrow> (\<forall>w. R (sw_db w) (sw_db (snd (m w))))"

definition poll_relies :: "(srv_db \<Rightarrow> srv_db \<Rightarrow> bool) \<Rightarrow> ('e poll_world_scheme) poll_deps \<Rightarrow> bool" where
  "poll_relies R D \<longleftrightarrow> reflp R \<and> transp R \<and> (\<forall>v. relies R (pd_readVaultState D v)) \<and> relies R (pd_checkProgram D)
     \<and> (\<forall>tok msg g. relies R (pd_sendPush D tok msg g)) \<and> (\<forall>v g. relies R (pd_runExecutor D v g))"

lemma wp_await:
  assumes "relies R m"
    "\<And>a w'. m w = (Inr a, w') \<Longrightarrow> R (sw_db w) (sw_db w') \<Longrightarrow> Q a w'"
    "\<And>e w'. m w = (Inl e, w') \<Longrightarrow> R (sw_db w) (sw_db w') \<Longrightarrow> E e w'"
  shows "wp m Q E w"
  using assms(1)[unfolded relies_def, rule_format, of w] assms(2,3) unfolding wp_def
  by (cases "m w") (auto split: sum.split)

subsection \<open>What a turn does to the tables\<close>

definition notified :: "string \<Rightarrow> int \<Rightarrow> int \<Rightarrow> srv_db \<Rightarrow> srv_db" where
  "notified v s t d = set_rows (\<lambda>u r. if u = v then r\<lparr>rr_lastStage := s, rr_lastNotifiedAt := t\<rparr> else r) d"

definition turn_db :: "string \<Rightarrow> reg_row \<Rightarrow> int \<Rightarrow> poll_action \<Rightarrow> srv_db \<Rightarrow> srv_db" where
  "turn_db v r now a d =
     (case a of
        A_sent n \<Rightarrow> notified v (int n) now d
      | A_normal \<Rightarrow> (if rr_lastStage r = 0 then d else notified v 0 0 d)
      | A_deregistered_missing \<Rightarrow> drop_rows (\<lambda>u _. u = v) d
      | A_deregistered_inactive \<Rightarrow> drop_rows (\<lambda>u _. u = v) d
      | A_deregistered_unregistered \<Rightarrow> drop_rows (\<lambda>u _. u = v) d
      | _ \<Rightarrow> d)"

definition answered :: "('w, 'a) io \<Rightarrow> ('a \<Rightarrow> bool) \<Rightarrow> bool" where
  "answered m P \<longleftrightarrow> (\<exists>u a u'. m u = (Inr a, u') \<and> P a)"

text \<open>The push was started while the turn was live on a verified network.\<close>

definition pushed ::
  "('e poll_world_scheme) poll_deps \<Rightarrow> string \<Rightarrow> msg_key \<Rightarrow> string \<Rightarrow> (push_result \<Rightarrow> bool) \<Rightarrow> bool" where
  "pushed D tok key timeText P \<longleftrightarrow>
     (\<exists>u p u' msg. can_send u \<and> stageMessage key timeText = Some msg \<and> pd_sendPush D tok msg can_send u = (Inr p, u') \<and> P p)"

definition stage_read :: "('e poll_world_scheme) poll_deps \<Rightarrow> string \<Rightarrow> reg_row \<Rightarrow> int \<Rightarrow> (stage_info \<Rightarrow> bool) \<Rightarrow> bool" where
  "stage_read D v r now P \<longleftrightarrow>
     answered (pd_readVaultState D v) (\<lambda>st. vs_exists st \<and> (case (vs_config st, vs_lastHeartbeat st) of
        (Some c, Some hb) \<Rightarrow> sv_active c \<and> \<not> sv_executed c \<and> P (computeStage hb (sv_interval c) (rr_stage1 r, rr_stage2 r, rr_stage3 r) now)
      | _ \<Rightarrow> False))"

definition justified :: "('e poll_world_scheme) poll_deps \<Rightarrow> string \<Rightarrow> reg_row \<Rightarrow> int \<Rightarrow> poll_action \<Rightarrow> 'e poll_world_scheme \<Rightarrow> bool" where
  "justified D v r now a w' =
     (case a of
        A_deregistered_missing \<Rightarrow>
          answered (pd_readVaultState D v) (\<lambda>st. \<not> vs_exists st \<or> vs_config st = None)
          \<and> answered (pd_checkProgram D) (\<lambda>p. case p of Prog_ok x \<Rightarrow> True | _ \<Rightarrow> False) \<and> can_send w'
      | A_deregistered_inactive \<Rightarrow>
          answered (pd_readVaultState D v) (\<lambda>st. vs_exists st \<and> (case vs_config st of None \<Rightarrow> False
            | Some c \<Rightarrow> \<not> sv_active c \<or> sv_executed c))
          \<and> (can_send w' \<or> rr_lastStage r = 4 \<and> pushed D (rr_deviceToken r) Complete_msg [] (\<lambda>p. pr_ok p \<or> pr_unregistered p))
      | A_normal \<Rightarrow> stage_read D v r now (\<lambda>si. si_stage si = 0)
      | A_sent n \<Rightarrow> 0 < n \<and> push_due n r now \<and> stage_read D v r now (\<lambda>si. si_stage si = n
          \<and> pushed D (rr_deviceToken r) (Stage_msg n) (formatDuration (si_secondsToExecution si)) pr_ok)
      | A_deregistered_unregistered \<Rightarrow> stage_read D v r now (\<lambda>si. push_due (si_stage si) r now
          \<and> pushed D (rr_deviceToken r) (Stage_msg (si_stage si)) (formatDuration (si_secondsToExecution si)) pr_unregistered)
      | _ \<Rightarrow> True)"

text \<open>The turn's one write is the last thing it does: the tables it writes to were reached by the others alone.\<close>

definition turn_ok ::
  "(srv_db \<Rightarrow> srv_db \<Rightarrow> bool) \<Rightarrow> ('e poll_world_scheme) poll_deps \<Rightarrow> string \<Rightarrow> reg_row \<Rightarrow> int \<Rightarrow> srv_db \<Rightarrow> poll_action \<Rightarrow> 'e poll_world_scheme \<Rightarrow> bool" where
  "turn_ok R D v r now d0 a w' \<longleftrightarrow> (\<exists>d. R d0 d \<and> sw_db w' = turn_db v r now a d) \<and> justified D v r now a w'"

lemma still_allowed_wp:
  assumes "Q A_timeout w" "Q A_net_unverified w" "can_send w \<Longrightarrow> wp k Q E w"
  shows "wp (still_allowed k) Q E w"
  using assms unfolding still_allowed_def wp_simps can_send_def by auto

lemma drop_wp:
  assumes "\<And>w'. stored_as w (drop_rows (\<lambda>u _. u = v) (sw_db w)) w' \<Longrightarrow> Q a w'" "\<And>e w'. sw_db w' = sw_db w \<Longrightarrow> E e w'"
  shows "wp (drop_registration v a) Q E w"
  unfolding drop_registration_def deleteRegistration_def delete_rows_def wp_simps
  by (rule wp_stmt [OF refl]) (use assms in \<open>auto simp: drop_rows_def\<close>)

lemma notify_wp:
  assumes "\<And>w'. stored_as w (notified v s t (sw_db w)) w' \<Longrightarrow> Q () w'" "\<And>e w'. sw_db w' = sw_db w \<Longrightarrow> E e w'"
  shows "wp (updateNotifyState v s t) Q E w"
  unfolding updateNotifyState_def update_row_def wp_simps
  by (rule wp_stmt [OF refl]) (use assms in \<open>simp_all add: notified_def set_rows_def\<close>)

lemma stored_can_send:
  assumes "stored_as w d w'"
  shows "can_send w' = can_send (w :: 'e poll_world_scheme)"
proof -
  obtain n where "w' = w\<lparr>sw_db := d, sw_count := n\<rparr>" using assms unfolding stored_as_def ..
  then show ?thesis by (simp add: can_send_def isLive_def networkVerified_def)
qed

lemma turn_okI:
  "R d0 d \<Longrightarrow> sw_db w' = turn_db v r now a d \<Longrightarrow> justified D v r now a w' \<Longrightarrow> turn_ok R D v r now d0 a w'"
  unfolding turn_ok_def by blast

lemma stage_read_mono: "stage_read D v r now P \<Longrightarrow> (\<And>si. P si \<Longrightarrow> P' si) \<Longrightarrow> stage_read D v r now P'"
  unfolding stage_read_def answered_def by (fastforce split: option.splits)

lemma send_stage_wp:
  assumes R: "poll_relies R D" and w: "R d0 (sw_db w)" and st: "0 < si_stage si" "stage_read D v r now (\<lambda>x. x = si)"
  shows "wp (send_stage D v r now si) (turn_ok R D v r now d0) (\<lambda>_ w'. R d0 (sw_db w')) w"
proof (cases "push_due (si_stage si) r now")
  case False
  then show ?thesis using w by (simp add: send_stage_def wp_simps turn_ok_def turn_db_def justified_def)
next
  case due: True
  show ?thesis
  proof (cases "stageMessage (Stage_msg (si_stage si)) (formatDuration (si_secondsToExecution si))")
    case None
    then show ?thesis using w due by (simp add: send_stage_def wp_simps turn_ok_def turn_db_def justified_def)
  next
    case (Some msg)
    have plain: "turn_ok R D v r now d0 a u"
      if "R d0 (sw_db u)" "turn_db v r now a (sw_db u) = sw_db u" "\<And>w'. justified D v r now a w'" for a u
      by (rule turn_okI [of R d0, OF that(1)]) (simp_all add: that)
    have trans: "R d0 (sw_db u)" if "R (sw_db w) (sw_db u)" for u :: "'a poll_world_scheme"
      using R w that unfolding poll_relies_def by (blast dest: transpD)
    show ?thesis unfolding send_stage_def Let_def wp_simps
    proof (simp only: due not_True_eq_False if_False Some option.case, rule still_allowed_wp)
      show "turn_ok R D v r now d0 A_timeout w" "turn_ok R D v r now d0 A_net_unverified w"
        by (rule plain, rule w; simp add: turn_db_def justified_def)+
      assume can: "can_send w"
      show "wp (bindE (pd_sendPush D (rr_deviceToken r) msg can_send) (\<lambda>ra.
              if pr_suppressed ra then ret A_net_unverified
              else if pr_unregistered ra then drop_registration v A_deregistered_unregistered
              else if pr_ok ra then seqE (updateNotifyState v (int (si_stage si)) now) (ret (A_sent (si_stage si)))
              else ret (A_send_failed (Stage_msg (si_stage si)) (pr_error ra))))
            (turn_ok R D v r now d0) (\<lambda>_ w'. R d0 (sw_db w')) w"
        unfolding wp_bindE
      proof (rule wp_await)
        show "relies R (pd_sendPush D (rr_deviceToken r) msg can_send)" using R by (simp add: poll_relies_def)
        fix p u assume p: "pd_sendPush D (rr_deviceToken r) msg can_send w = (Inr p, u)" and u: "R (sw_db w) (sw_db u)"
        have out: "stage_read D v r now (\<lambda>x. x = si \<and> pushed D (rr_deviceToken r) (Stage_msg (si_stage x))
              (formatDuration (si_secondsToExecution x)) P)" if "P p" for P
          using stage_read_mono [OF st(2), of "\<lambda>x. x = si \<and> pushed D (rr_deviceToken r) (Stage_msg (si_stage x))
              (formatDuration (si_secondsToExecution x)) P"] can Some p that unfolding pushed_def by blast
        have dead: "turn_ok R D v r now d0 A_deregistered_unregistered w'"
          if "pr_unregistered p" "stored_as u (drop_rows (\<lambda>x _. x = v) (sw_db u)) w'" for w'
          by (rule turn_okI [of R d0, OF trans [OF u]])
            (use that due stage_read_mono [OF out [of pr_unregistered]] in \<open>auto simp: turn_db_def justified_def\<close>)
        have sent: "turn_ok R D v r now d0 (A_sent (si_stage si)) w'"
          if "pr_ok p" "stored_as u (notified v (int (si_stage si)) now (sw_db u)) w'" for w'
          by (rule turn_okI [of R d0, OF trans [OF u]])
            (use that due st(1) stage_read_mono [OF out [of pr_ok]] in \<open>auto simp: turn_db_def justified_def\<close>)
        show "wp (if pr_suppressed p then ret A_net_unverified
              else if pr_unregistered p then drop_registration v A_deregistered_unregistered
              else if pr_ok p then seqE (updateNotifyState v (int (si_stage si)) now) (ret (A_sent (si_stage si)))
              else ret (A_send_failed (Stage_msg (si_stage si)) (pr_error p)))
            (turn_ok R D v r now d0) (\<lambda>_ w'. R d0 (sw_db w')) u"
          using trans [OF u] unfolding wp_simps
          by (auto intro!: drop_wp notify_wp dead sent plain simp: turn_db_def justified_def)
      qed (use trans in auto)
    qed
  qed
qed

lemma poll_relies_trans: "poll_relies R D \<Longrightarrow> R d0 d \<Longrightarrow> R d d' \<Longrightarrow> R d0 d'"
  unfolding poll_relies_def by (blast dest: transpD)

lemma turn_ok_plain:
  "R d0 (sw_db w) \<Longrightarrow> turn_db v r now a (sw_db w) = sw_db w \<Longrightarrow> (\<And>w'. justified D v r now a w') \<Longrightarrow> turn_ok R D v r now d0 a w"
  by (rule turn_okI [of R d0 "sw_db w"]) simp_all

lemma escalate_wp:
  assumes R: "poll_relies R D" and w: "R d0 (sw_db w)" and st: "stage_read D v r now (\<lambda>x. x = si)"
  shows "wp (escalate D v r now si) (turn_ok R D v r now d0) (\<lambda>_ w'. R d0 (sw_db w')) w"
proof (cases "si_stage si = 0")
  case True
  have normal: "turn_ok R D v r now d0 A_normal w'" if "sw_db w' = turn_db v r now A_normal (sw_db w)" for w'
    by (rule turn_okI [of R d0, OF w that])
      (use stage_read_mono [OF st, of "\<lambda>x. si_stage x = 0"] True in \<open>simp add: justified_def\<close>)
  show ?thesis using True w unfolding escalate_def wp_simps
    by (auto simp: wp_ret turn_db_def intro!: notify_wp normal)
next
  case False
  note send = send_stage_wp [OF R _ _ st]
  show ?thesis
  proof (cases "si_stage si = 4 \<and> rd_executor (rw_ready w)")
    case True
    show ?thesis unfolding escalate_def wp_simps
      by (subst if_not_P [OF False], subst if_P [OF True], rule wp_await [of R])
        (use R w False in \<open>auto simp: poll_relies_def intro!: send elim: poll_relies_trans [OF R]\<close>)
  qed (use False w in \<open>auto simp: escalate_def wp_simps intro!: send\<close>)
qed

lemma missing_wp:
  assumes R: "poll_relies R D" and w: "R d0 (sw_db w)"
    and st: "answered (pd_readVaultState D v) (\<lambda>st. \<not> vs_exists st \<or> vs_config st = None)"
  shows "wp (missing_vault D v) (turn_ok R D v r now d0) (\<lambda>_ w'. R d0 (sw_db w')) w"
  unfolding missing_vault_def wp_bindE
proof (rule wp_await)
  show "relies R (pd_checkProgram D)" using R by (simp add: poll_relies_def)
  fix p u assume p: "pd_checkProgram D w = (Inr p, u)" and "R (sw_db w) (sw_db u)"
  then have u: "R d0 (sw_db u)" by (rule_tac poll_relies_trans [OF R w])
  have ok: "answered (pd_checkProgram D) (\<lambda>p. case p of Prog_ok x \<Rightarrow> True | _ \<Rightarrow> False)" if "case p of Prog_ok x \<Rightarrow> True | _ \<Rightarrow> False"
    unfolding answered_def by (intro exI conjI, rule p, simp add: that)
  have gone: "turn_ok R D v r now d0 A_deregistered_missing w'"
    if "can_send u" "case p of Prog_ok x \<Rightarrow> True | _ \<Rightarrow> False" "stored_as u (drop_rows (\<lambda>x _. x = v) (sw_db u)) w'" for w'
    by (rule turn_okI [of R d0, OF u])
      (use that st stored_can_send [OF that(3)] ok in \<open>simp_all add: turn_db_def justified_def\<close>)
  show "wp (still_allowed (case p of Prog_ok x \<Rightarrow> drop_registration v A_deregistered_missing
        | Prog_bad r \<Rightarrow> ret A_program_unready | Prog_unknown r \<Rightarrow> ret A_program_unready))
      (turn_ok R D v r now d0) (\<lambda>_ w'. R d0 (sw_db w')) u"
    by (rule still_allowed_wp) (use u in \<open>auto simp: turn_db_def justified_def wp_ret split: program_check.split
      intro!: turn_ok_plain drop_wp gone\<close>)
qed (rule poll_relies_trans [OF R w])

lemma finished_wp:
  assumes R: "poll_relies R D" and w: "R d0 (sw_db w)" "can_send w" and cfg: "\<not> sv_active cfg \<or> sv_executed cfg"
    and st: "answered (pd_readVaultState D v) (\<lambda>st. vs_exists st \<and> vs_config st = Some cfg)"
  shows "wp (finished_vault D v r cfg) (turn_ok R D v r now d0) (\<lambda>_ w'. R d0 (sw_db w')) w"
proof -
  let ?J = "answered (pd_readVaultState D v) (\<lambda>st. vs_exists st \<and> (case vs_config st of None \<Rightarrow> False | Some c \<Rightarrow> \<not> sv_active c \<or> sv_executed c))"
  have j: ?J using st cfg unfolding answered_def by fastforce
  have dropped: "turn_ok R D v r now d0 A_deregistered_inactive w'"
    if "R d0 (sw_db u)" "stored_as u (drop_rows (\<lambda>x _. x = v) (sw_db u)) w'"
      "can_send w' \<or> rr_lastStage r = 4 \<and> pushed D (rr_deviceToken r) Complete_msg [] (\<lambda>p. pr_ok p \<or> pr_unregistered p)" for u w'
    by (rule turn_okI [of R d0, OF that(1)]) (use that j in \<open>auto simp: turn_db_def justified_def\<close>)
  have plain: "wp (drop_inactive v) (turn_ok R D v r now d0) (\<lambda>_ w'. R d0 (sw_db w')) w"
    unfolding drop_inactive_def wp_simps
    by (use w in \<open>auto simp: can_send_def wp_ret intro!: drop_wp dropped [OF w(1)] dest: stored_can_send\<close>)
  show ?thesis
  proof (cases "sv_executed cfg \<and> rr_lastStage r = 4 \<and> \<not> rd_fcmWaived (rw_ready w)")
    case True
    obtain msg where msg: "stageMessage Complete_msg [] = Some msg" by (simp add: stageMessage_def)
    show ?thesis unfolding finished_vault_def wp_simps
    proof (simp only: True msg simp_thms not_True_eq_False not_False_eq_True if_True option.case wp_bindE, rule wp_await)
      show "relies R (pd_sendPush D (rr_deviceToken r) msg can_send)" using R by (simp add: poll_relies_def)
      fix p u assume p: "pd_sendPush D (rr_deviceToken r) msg can_send w = (Inr p, u)" and "R (sw_db w) (sw_db u)"
      then have u: "R d0 (sw_db u)" by (rule_tac poll_relies_trans [OF R w(1)])
      have out: "pushed D (rr_deviceToken r) Complete_msg [] (\<lambda>p. pr_ok p \<or> pr_unregistered p)" if "pr_ok p \<or> pr_unregistered p"
        using that p msg w(2) unfolding pushed_def by blast
      show "wp (if pr_suppressed p then ret A_net_unverified
          else if pr_ok p \<or> pr_unregistered p then drop_registration v A_deregistered_inactive
          else ret (A_send_failed Complete_msg (pr_error p))) (turn_ok R D v r now d0) (\<lambda>_ w'. R d0 (sw_db w')) u"
        unfolding wp_simps using u True
        by (auto simp: turn_db_def justified_def intro!: turn_ok_plain drop_wp dropped [OF u] out)
    qed (rule poll_relies_trans [OF R w(1)])
  next
    case False
    show ?thesis unfolding finished_vault_def wp_bindE wp_gets by (subst if_not_P [OF False]) (rule plain)
  qed
qed

lemma turn_wp:
  assumes R: "poll_relies R D"
  shows "wp (processRegistration D (v, r) now) (turn_ok R D v r now (sw_db w)) (\<lambda>_ w'. R (sw_db w) (sw_db w')) w"
proof -
  let ?Q = "turn_ok R D v r now (sw_db w)" and ?E = "\<lambda>_ w'. R (sw_db w) (sw_db w')"
  have w: "R (sw_db w) (sw_db w)" using R by (simp add: poll_relies_def reflpD)
  have plain: "?Q a u" if "R (sw_db w) (sw_db u)" "a \<in> {A_net_unverified, A_read_error, A_timeout, A_no_heartbeat}" for a u
    using that by (auto intro!: turn_ok_plain simp: turn_db_def justified_def)
  show ?thesis unfolding processRegistration_def prod.case wp_simps
  proof (cases "networkVerified w", simp_all only: if_True if_False not_True_eq_False not_False_eq_True, rule wp_await)
    show "relies R (pd_readVaultState D v)" using R by (simp add: poll_relies_def)
    fix st u assume st: "pd_readVaultState D v w = (Inr st, u)" and u: "R (sw_db w) (sw_db u)"
    have ans: "answered (pd_readVaultState D v) P" if "P st" for P using st that unfolding answered_def by blast
    show "wp (still_allowed (if \<not> vs_exists st \<or> vs_config st = None then missing_vault D v
         else let cfg = the (vs_config st) in if \<not> sv_active cfg \<or> sv_executed cfg then finished_vault D v r cfg
           else case vs_lastHeartbeat st of None \<Rightarrow> ret A_no_heartbeat
           | Some hb \<Rightarrow> escalate D v r now (computeStage hb (sv_interval cfg) (rr_stage1 r, rr_stage2 r, rr_stage3 r) now))) ?Q ?E u"
    proof (rule still_allowed_wp)
      assume can: "can_send u"
      consider (gone) "\<not> vs_exists st \<or> vs_config st = None"
        | (fin) c where "vs_exists st" "vs_config st = Some c" "\<not> sv_active c \<or> sv_executed c"
        | (live) c where "vs_exists st" "vs_config st = Some c" "sv_active c" "\<not> sv_executed c" by fastforce
      then show "wp (if \<not> vs_exists st \<or> vs_config st = None then missing_vault D v
         else let cfg = the (vs_config st) in if \<not> sv_active cfg \<or> sv_executed cfg then finished_vault D v r cfg
           else case vs_lastHeartbeat st of None \<Rightarrow> ret A_no_heartbeat
           | Some hb \<Rightarrow> escalate D v r now (computeStage hb (sv_interval cfg) (rr_stage1 r, rr_stage2 r, rr_stage3 r) now)) ?Q ?E u"
      proof cases
        case gone
        then show ?thesis using missing_wp [OF R u ans] by auto
      next
        case fin
        then show ?thesis using finished_wp [OF R u can fin(3) ans] by auto
      next
        case live
        show ?thesis
        proof (cases "vs_lastHeartbeat st")
          case (Some hb)
          have "stage_read D v r now (\<lambda>x. x = computeStage hb (sv_interval c) (rr_stage1 r, rr_stage2 r, rr_stage3 r) now)"
            unfolding stage_read_def by (rule ans) (simp add: live Some)
          from escalate_wp [OF R u this] show ?thesis by (simp add: live Some Let_def)
        qed (use u live plain in \<open>auto simp: wp_ret\<close>)
      qed
    qed (use u plain in auto)
  qed (use w plain in auto)
qed

text \<open>
  C11: what one turn of the poller may do, whatever requests, other turns and the monitor do to the
  tables and the readiness while it waits (they respect any preorder \<open>R\<close>). It writes at most once, as
  its last step, for its own vault only; when it throws it has written nothing. It removes a
  registration only after a read that found the vault missing and a fresh probe that answered, with
  the turn live and the network verified; or a read that found the vault inactive or executed (and
  the network verified, or the final push delivered or refused as dead); or a push the provider
  refused as dead. A stage is recorded only for a due push the transport confirmed, started while
  the turn was live on a verified network, for the stage of a heartbeat actually read; the state is
  reset only for a heartbeat that is not overdue.
\<close>

theorem turn_effects:
  assumes "poll_relies R D"
  shows "wp (processRegistration D (vault, r) now) (turn_ok R D vault r now (sw_db w)) (\<lambda>_ w'. R (sw_db w) (sw_db w')) w"
  using assms by (rule turn_wp)

subsection \<open>Concrete turns\<close>

definition poll_answers :: "vault_state \<Rightarrow> push_result \<Rightarrow> ('e poll_world_scheme) poll_deps" where
  "poll_answers st p = \<lparr>pd_readVaultState = (\<lambda>_. ret st), pd_checkProgram = ret (Prog_ok True),
     pd_sendPush = (\<lambda>_ _ _. ret p), pd_runExecutor = (\<lambda>_ _. ret ''cranked'')\<rparr>"

lemma poll_answers_relies: "poll_relies (=) (poll_answers st p)"
  by (simp add: poll_relies_def poll_answers_def relies_def ret_apply reflp_def transp_def)

definition chain_state :: "bool \<Rightarrow> int \<Rightarrow> vault_state" where
  "chain_state ex hb = \<lparr>vs_exists = True, vs_config = Some \<lparr>sv_owner = ''Bob'', sv_interval = 100, sv_grace = 60,
     sv_executed = ex, sv_active = True, sv_beneficiaries = []\<rparr>, vs_lastHeartbeat = Some hb\<rparr>"

definition poll_row :: "int \<Rightarrow> int \<Rightarrow> reg_row" where
  "poll_row s t = (legacy_row \<lparr>lc_owner = ''Bob'', lc_vault = ''Vau1t'', lc_deviceToken = ''old-token'',
     lc_stage1 = 10, lc_stage2 = 20, lc_stage3 = 30, lc_now = 1000\<rparr>)\<lparr>rr_lastStage := s, rr_lastNotifiedAt := t\<rparr>"

definition poll_db :: "reg_row \<Rightarrow> srv_db" where
  "poll_db r = \<lparr>registrations = [(''Vau1t'', r)], used_nonces = []\<rparr>"

definition poll_start :: "srv_db \<Rightarrow> poll_world" where
  "poll_start d = \<lparr>sw_db = d, sw_faults = (\<lambda>_. False), sw_count = 0, sw_now = 1100,
     rw_ready = (new_readiness False True)\<lparr>rd_netVerified := True\<rparr>, rw_ms = 1100000,
     fw_state = \<lparr>fs_ready = True, fs_reason = ''ok'', fs_rejected = False\<rparr>, fw_client = True, fw_projectId = ''dmv'',
     pw_expired = False, pw_running = True, pw_runningSince = 1100000\<rparr>"

lemmas poll_run = processRegistration_def escalate_def send_stage_def still_allowed_def finished_vault_def drop_inactive_def
  drop_registration_def missing_vault_def or_return_def quietly_def bindE_def tryE_def ret_apply throw_apply Let_def
  isLive_def networkVerified_def can_send_def push_due_def computeStage_def stageMessage_def stmt_def
  updateNotifyState_def update_row_def deleteRegistration_def delete_rows_def

lemmas poll_samples = poll_answers_def chain_state_def poll_row_def poll_db_def poll_start_def new_readiness_def legacy_row_def
  push_sent_def push_failed_def

lemma js_add_small: "\<bar>x + y\<bar> \<le> 2 ^ 53 \<Longrightarrow> js_add x y = x + y"
  by (simp add: js_add_def rnd53_def)

theorem turn_effects_witness:
  "(case processRegistration (poll_answers (chain_state False 1000) push_sent) (''Vau1t'', poll_row 0 0) 1105 (poll_start (poll_db (poll_row 0 0))) of
      (Inl e, w') \<Rightarrow> False
    | (Inr a, w') \<Rightarrow> a = A_sent 1 \<and> sw_db w' = poll_db (poll_row 1 1105)
        \<and> turn_ok (=) (poll_answers (chain_state False 1000) push_sent) ''Vau1t'' (poll_row 0 0) 1105 (poll_db (poll_row 0 0)) a w')"
proof -
  let ?D = "poll_answers (chain_state False 1000) push_sent" and ?w = "poll_start (poll_db (poll_row 0 0))"
  obtain w' where run: "processRegistration ?D (''Vau1t'', poll_row 0 0) 1105 ?w = (Inr (A_sent 1), w')"
    and w': "sw_db w' = poll_db (poll_row 1 1105)"
    by (simp add: poll_run poll_samples js_add_small)
  show ?thesis using turn_effects [OF poll_answers_relies, of "chain_state False 1000" push_sent "''Vau1t''" "poll_row 0 0" 1105 ?w]
    by (simp add: run w' wp_def) (simp add: poll_start_def)
qed

end
