(* ===== verification/Srv_Exec_Props.thy ===== *)
theory Srv_Exec_Props
  imports Srv_Exec Srv_Poll_Props
begin

text \<open>
  Properties of the executor: every transaction of a run is sent with the guard open and justified by
  what the run read; a stuck mint keeps the vault from being finalized; faults and revocations
  escape as they should; the lock; and the agreement with the application's crank.
\<close>

subsection \<open>What a run preserves\<close>

definition preserves :: "('w \<Rightarrow> bool) \<Rightarrow> ('w, 'a) io \<Rightarrow> bool" where
  "preserves I m \<longleftrightarrow> (\<forall>w. I w \<longrightarrow> I (snd (m w)))"

named_theorems preserves_intro "programs that preserve a predicate of the world"

lemma preservesD: "preserves I m \<Longrightarrow> I w \<Longrightarrow> I (snd (m w))"
  by (simp add: preserves_def)

lemma preserves_ret [preserves_intro]: "preserves I (ret a)"
  by (simp add: preserves_def ret_apply)

lemma preserves_throw [preserves_intro]: "preserves I (throw e)"
  by (simp add: preserves_def throw_apply)

lemma preserves_gets [preserves_intro]: "preserves I (gets f)"
  by (simp add: preserves_def)

lemma preserves_liftE [preserves_intro]: "preserves I (liftE r)"
  by (simp add: preserves_def liftE_apply)

text \<open>The continuation may use that its argument is an answer of the first program.\<close>

lemma preserves_bindE:
  assumes "preserves I m" "\<And>a. answered m (\<lambda>x. x = a) \<Longrightarrow> preserves I (f a)"
  shows "preserves I (bindE m f)"
  unfolding preserves_def
proof (intro allI impI)
  fix w
  assume w: "I w"
  obtain r w' where m: "m w = (r, w')" by fastforce
  have w': "I w'" using assms(1) w m by (simp add: preserves_def) (metis snd_conv)
  show "I (snd (bindE m f w))"
  proof (cases r)
    case (Inr a)
    then have "answered m (\<lambda>x. x = a)" using m unfolding answered_def by blast
    from assms(2) [OF this] w' show ?thesis by (simp add: bindE_def m Inr preserves_def)
  qed (use w' in \<open>simp add: bindE_def m\<close>)
qed

lemma preserves_tryE [preserves_intro]: "preserves I m \<Longrightarrow> (\<And>e. preserves I (h e)) \<Longrightarrow> preserves I (tryE m h)"
  unfolding preserves_def tryE_def by (fastforce split: prod.split sum.split)

lemma preserves_finallyE: "preserves I m \<Longrightarrow> (\<And>w. I w \<Longrightarrow> I (fin w)) \<Longrightarrow> preserves I (finallyE m fin)"
  unfolding preserves_def finallyE_def by (fastforce split: prod.split)

lemma preserves_modify: "(\<And>w. I w \<Longrightarrow> I (f w)) \<Longrightarrow> preserves I (modify f)"
  by (simp add: preserves_def)

lemma preserves_if [preserves_intro]: "(b \<Longrightarrow> preserves I m) \<Longrightarrow> (\<not> b \<Longrightarrow> preserves I n) \<Longrightarrow> preserves I (if b then m else n)"
  by simp

lemma preserves_option [preserves_intro]:
  "(x = None \<Longrightarrow> preserves I m) \<Longrightarrow> (\<And>a. x = Some a \<Longrightarrow> preserves I (f a)) \<Longrightarrow> preserves I (case x of None \<Rightarrow> m | Some a \<Rightarrow> f a)"
  by (cases x) auto

lemma preserves_prod [preserves_intro]: "(\<And>a b. p = (a, b) \<Longrightarrow> preserves I (f a b)) \<Longrightarrow> preserves I (case p of (a, b) \<Rightarrow> f a b)"
  by (cases p) auto

lemma preserves_prod_fun [preserves_intro]:
  "(\<And>a b. p = (a, b) \<Longrightarrow> preserves I (f a b c)) \<Longrightarrow> preserves I ((case p of (a, b) \<Rightarrow> f a b) c)"
  by (cases p) auto

lemma preserves_forE: "(\<And>x acc. x \<in> set xs \<Longrightarrow> preserves I (bd x acc)) \<Longrightarrow> preserves I (forE xs acc bd)"
  by (induction xs arbitrary: acc) (auto intro!: preserves_bindE preserves_ret)

lemma preserves_seqE: "preserves I m \<Longrightarrow> preserves I n \<Longrightarrow> preserves I (seqE m n)"
  by (rule preserves_bindE)

lemma answered_bindE:
  assumes "answered (bindE m f) (\<lambda>x. x = b)"
  obtains a where "answered m (\<lambda>x. x = a)" "answered (f a) (\<lambda>x. x = b)"
proof -
  obtain u u' where f: "bindE m f u = (Inr b, u')" using assms unfolding answered_def by blast
  obtain r v where m: "m u = (r, v)" by fastforce
  show thesis
  proof (cases r)
    case (Inl e)
    then show ?thesis using f by (simp add: bindE_def m)
  next
    case (Inr a)
    then have "f a v = (Inr b, u')" using f by (simp add: bindE_def m)
    then show ?thesis using m Inr by (intro that [of a]) (auto simp: answered_def)
  qed
qed

lemma answered_ret [simp]: "answered (ret a) P = P a"
  by (auto simp: answered_def ret_apply)

lemma answered_throw [simp]: "\<not> answered (throw e) P"
  by (auto simp: answered_def throw_apply)

lemma answered_liftE: "answered (liftE r) (\<lambda>x. x = a) = (r = Inr a)"
  by (auto simp: answered_def liftE_apply)

lemma answered_fetched:
  assumes "answered (fetched m) (\<lambda>x. x = a)"
  shows "answered m (\<lambda>x. x = Some a)"
  using assms unfolding fetched_def by (rule answered_bindE) (auto split: option.splits)

lemma preserves_fetched [preserves_intro]: "preserves I m \<Longrightarrow> preserves I (fetched m)"
  unfolding fetched_def by (intro preserves_bindE preserves_intro)

lemma preserves_on_stuck [preserves_intro]: "preserves I m \<Longrightarrow> preserves I (on_stuck R m a)"
  unfolding on_stuck_def by (intro preserves_intro)

lemma answered_mono: "answered m P \<Longrightarrow> (\<And>a. P a \<Longrightarrow> Q a) \<Longrightarrow> answered m Q"
  unfolding answered_def by blast

subsection \<open>What justifies a transaction\<close>

lemma exec_chunk_groups: "exec_chunk arr = groups 8 arr"
proof -
  have "chunk_from arr n i = groups n (drop i arr)" for n i
    by (induction arr n i rule: chunk_from.induct)
      (subst chunk_from.simps, subst groups.simps, simp add: add.commute)
  then show ?thesis by (simp add: exec_chunk_def BATCH_def)
qed

definition owed_part :: "'w crank_run \<Rightarrow> nat \<Rightarrow> nat list \<Rightarrow> bool" where
  "owed_part R msk part \<longleftrightarrow> part \<noteq> [] \<and> length part \<le> 8 \<and> (\<forall>i\<in>set part. i < length (cr_benefs R) \<and> \<not> bitSet msk i)"

lemma parts_owed: "part \<in> set (exec_chunk (unpaid_of (length (cr_benefs R)) msk)) \<Longrightarrow> owed_part R msk part"
  using groups_sizes [of part 8] batch_members [of part 8]
  by (fastforce simp: exec_chunk_groups owed_part_def unpaid_of_def)

text \<open>The accounts of the run's vault as it read them.\<close>

definition saw_log :: "'w crank_run \<Rightarrow> (execution_log option \<Rightarrow> bool) \<Rightarrow> bool" where
  "saw_log R P \<longleftrightarrow> answered (xd_execLog (cr_deps R) (executionPda R)) P"

definition saw_plan :: "'w crank_run \<Rightarrow> (asset_plan option \<Rightarrow> bool) \<Rightarrow> bool" where
  "saw_plan R P \<longleftrightarrow> answered (xd_plan (cr_deps R) (assetPlanPda R)) P"

definition saw_dist :: "'w crank_run \<Rightarrow> pubkey \<Rightarrow> (token_dist option \<Rightarrow> bool) \<Rightarrow> bool" where
  "saw_dist R mint P \<longleftrightarrow> answered (xd_tokenDist (cr_deps R) (tokenDistPda R mint)) P"

text \<open>An unpaid assignment of a plan the run read, for its own beneficiary.\<close>

definition owed_bequest :: "'w crank_run \<Rightarrow> nat \<Rightarrow> assignment \<Rightarrow> pubkey \<Rightarrow> bool" where
  "owed_bequest R j a benef \<longleftrightarrow>
     saw_plan R (\<lambda>p. case p of None \<Rightarrow> False
       | Some p \<Rightarrow> j < length (assignments p) \<and> a = assignments p ! j \<and> \<not> bitSet (ap_paidMask p) j)
     \<and> beneficiaryIndex a < length (cr_benefs R) \<and> benef = wallet (cr_benefs R ! beneficiaryIndex a)"

definition may_finalize :: "'w crank_run \<Rightarrow> bool" where
  "may_finalize R \<longleftrightarrow>
     saw_log R (\<lambda>l. case l of None \<Rightarrow> False | Some l \<Rightarrow> \<not> completed l \<and> solPaidMask l = fullMask (length (cr_benefs R)))
     \<and> (\<not> cr_hasPlan R \<or> saw_plan R (\<lambda>p. case p of None \<Rightarrow> False | Some p \<Rightarrow> ap_paidMask p = fullMask (length (assignments p))))"

inductive ix_payout :: "'w crank_run \<Rightarrow> instruction \<Rightarrow> bool" for R where
  ix_begin: "saw_log R (\<lambda>l. l = None) \<Longrightarrow> ix_payout R (x_begin_ix R)"
| ix_begin_dist: "saw_dist R mint (\<lambda>d. d = None) \<Longrightarrow> ix_payout R (x_begin_dist_ix R mint vaultAta)"
| ix_specific_sol: "owed_bequest R j a benef \<Longrightarrow> a_mint a = default_pubkey \<Longrightarrow> ix_payout R (x_specific_sol_ix R j benef)"
| ix_specific_asset: "owed_bequest R j a benef \<Longrightarrow> ata (cr_env R) (a_mint a) benef False pid = Inr benAta \<Longrightarrow>
    ix_payout R (x_specific_asset_ix R j (a_mint a) vaultAta benAta pid)"
| ix_sol_shares: "saw_log R (\<lambda>x. x = Some l) \<Longrightarrow> owed_part R (solPaidMask l) part \<Longrightarrow>
    ix_payout R (x_sol_shares_ix R part (map (\<lambda>i. wallet (cr_benefs R ! i)) part))"
| ix_token_shares: "saw_dist R mint (\<lambda>x. x = Some d) \<Longrightarrow> owed_part R (td_paidMask d) part \<Longrightarrow>
    list_all2 (\<lambda>i a. ata (cr_env R) mint (wallet (cr_benefs R ! i)) False pid = Inr a) part atas \<Longrightarrow>
    ix_payout R (x_token_shares_ix R mint part vaultAta pid atas)"
| ix_close_dist: "saw_dist R mint (\<lambda>x. x = Some d) \<Longrightarrow> td_paidMask d = fullMask (length (cr_benefs R)) \<Longrightarrow>
    answered (xd_vault (cr_deps R) (cr_vault R)) (\<lambda>c. c = Some v) \<Longrightarrow> xv_executed v \<Longrightarrow>
    ix_payout R (x_close_dist_ix R mint vaultAta dustAta pid)"
| ix_ata: "answered (xd_accountOwner (cr_deps R) ataKey) (\<lambda>x. x = None) \<Longrightarrow>
    ix_payout R (CreateAtaIdempotent (cr_payer R) ataKey ow mint pid)"

definition ix_justified :: "'w crank_run \<Rightarrow> instruction \<Rightarrow> bool" where
  "ix_justified R ix \<longleftrightarrow> ix_payout R ix \<or> ix = x_finalize_ix R \<and> may_finalize R"

definition exec_reads :: "('w \<Rightarrow> bool) \<Rightarrow> 'w exec_deps \<Rightarrow> bool" where
  "exec_reads I K \<longleftrightarrow> preserves I (xd_estimate K) \<and> preserves I (xd_recentFees K) \<and> preserves I (xd_now K)
     \<and> (\<forall>k. preserves I (xd_vault K k) \<and> preserves I (xd_heartbeat K k) \<and> preserves I (xd_execLog K k) \<and> preserves I (xd_plan K k)
       \<and> preserves I (xd_tokenDist K k) \<and> preserves I (xd_accountOwner K k) \<and> (\<forall>p. preserves I (xd_holdings K k p) \<and> preserves I (xd_getAccount K k p)))
     \<and> (\<forall>ms. preserves I (xd_sleep K ms))"

text \<open>Before the instruction of a step stands at most a harvest of withheld fees.\<close>

definition plain_pre :: "instruction list \<Rightarrow> bool" where
  "plain_pre pre \<longleftrightarrow> (case pre of [] \<Rightarrow> True | [HarvestWithheldTokensToMint m as p] \<Rightarrow> True | _ \<Rightarrow> False)"

lemma plain_pre_intros [preserves_intro]:
  "plain_pre []" "plain_pre (if b then [HarvestWithheldTokensToMint m as p] else [])"
  by (simp_all add: plain_pre_def)

text \<open>Reads preserve \<open>I\<close>, and so does the guarded submission of a justified instruction other than finalize.\<close>

definition disciplined :: "('w \<Rightarrow> bool) \<Rightarrow> 'w crank_run \<Rightarrow> bool" where
  "disciplined I R \<longleftrightarrow> exec_reads I (cr_deps R)
     \<and> (\<forall>k pre ix. ix_payout R ix \<longrightarrow> plain_pre pre \<longrightarrow> preserves I (guarded_send R (crank_tx k pre ix)))"

lemma disciplined_send: "disciplined I R \<Longrightarrow> ix_payout R ix \<Longrightarrow> plain_pre pre \<Longrightarrow> preserves I (guarded_send R (crank_tx k pre ix))"
  by (simp add: disciplined_def)

lemma disciplined_reads:
  assumes "disciplined I R"
  shows "preserves I (xd_vault (cr_deps R) k)" "preserves I (xd_execLog (cr_deps R) k)" "preserves I (xd_plan (cr_deps R) k)"
    "preserves I (xd_tokenDist (cr_deps R) k)" "preserves I (xd_accountOwner (cr_deps R) k)" "preserves I (xd_holdings (cr_deps R) k p)"
    "preserves I (xd_getAccount (cr_deps R) k p)" "preserves I (xd_sleep (cr_deps R) ms)"
  using assms by (auto simp: disciplined_def exec_reads_def)

lemma x_ata_answer: "answered (x_ata R mint ow b pid) (\<lambda>x. x = a) \<Longrightarrow> ata (cr_env R) mint ow b pid = Inr a"
  by (simp add: x_ata_def answered_liftE)

lemma preserves_x_ata [preserves_intro]: "preserves I (x_ata R mint ow b pid)"
  unfolding x_ata_def by (rule preserves_liftE)

lemma preserves_wallet_at [preserves_intro]: "preserves I (wallet_at R i)"
  unfolding wallet_at_def by (intro preserves_intro)

lemma ensureAta_preserves:
  assumes "disciplined I R"
  shows "preserves I (ensureAta R ataKey mint ow pid)"
  unfolding ensureAta_def
proof (intro preserves_bindE preserves_intro disciplined_reads [OF assms] disciplined_send [OF assms])
  fix info
  assume "answered (xd_accountOwner (cr_deps R) ataKey) (\<lambda>x. x = info)" "\<not> info \<noteq> None"
  then show "ix_payout R (CreateAtaIdempotent (cr_payer R) ataKey ow mint pid)" by (auto intro: ix_ata)
qed

lemma begin_preserves:
  assumes "disciplined I R"
  shows "preserves I (begin_step R)"
  unfolding begin_step_def
proof (intro preserves_bindE preserves_intro disciplined_reads [OF assms] disciplined_send [OF assms])
  fix l
  assume "answered (xd_execLog (cr_deps R) (executionPda R)) (\<lambda>x. x = l)" "\<not> l \<noteq> None"
  then show "ix_payout R (x_begin_ix R)" by (auto simp: saw_log_def intro: ix_begin)
qed

lemma begin_dist_preserves:
  assumes "disciplined I R"
  shows "preserves I (begin_dist_step R mints acc)"
  unfolding begin_dist_step_def
proof (intro preserves_forE preserves_bindE preserves_intro disciplined_reads [OF assms] ensureAta_preserves [OF assms] disciplined_send [OF assms])
  fix mint vaultAta d
  assume "answered (xd_tokenDist (cr_deps R) (tokenDistPda R mint)) (\<lambda>x. x = d)" "\<not> d \<noteq> None"
  then show "ix_payout R (x_begin_dist_ix R mint vaultAta)" by (auto simp: saw_dist_def intro: ix_begin_dist)
qed

lemma wallet_at_answer: "answered (wallet_at R i) (\<lambda>x. x = k) \<Longrightarrow> i < length (cr_benefs R) \<and> k = wallet (cr_benefs R ! i)"
  by (auto simp: answered_def wallet_at_def ret_apply throw_apply split: if_splits)

lemma pay_bequest_preserves:
  assumes "disciplined I R" "owed_bequest R j a benef"
  shows "preserves I (pay_bequest R mints j a benef acc)"
  unfolding pay_bequest_def Let_def
proof (intro preserves_bindE preserves_intro ensureAta_preserves [OF assms(1)] disciplined_send [OF assms(1)])
  assume "a_mint a = default_pubkey"
  then show "ix_payout R (x_specific_sol_ix R j benef)" using assms(2) by (blast intro: ix_specific_sol)
next
  fix vaultAta benAta pid
  assume "answered (x_ata R (a_mint a) benef False pid) (\<lambda>x. x = benAta)"
  from x_ata_answer [OF this] show "ix_payout R (x_specific_asset_ix R j (a_mint a) vaultAta benAta pid)"
    using assms(2) by (blast intro: ix_specific_asset)
qed

lemma bequest_preserves:
  assumes "disciplined I R" "\<And>p. plan = Some p \<Longrightarrow> saw_plan R (\<lambda>x. x = Some p)"
  shows "preserves I (bequest_step R mints plan acc)"
  unfolding bequest_step_def
proof (intro preserves_forE preserves_bindE preserves_intro pay_bequest_preserves [OF assms(1)])
  fix p x acc j a benef
  assume p: "plan = Some p" and x: "x \<in> set (enumerate 0 (assignments p))" "x = (j, a)" and u: "\<not> bitSet (ap_paidMask p) j"
    and b: "answered (wallet_at R (beneficiaryIndex a)) (\<lambda>x. x = benef)"
  have "j < length (assignments p)" "a = assignments p ! j" using x by (auto simp: in_set_enumerate_eq)
  then show "owed_bequest R j a benef"
    using u wallet_at_answer [OF b] answered_mono [OF assms(2) [OF p, unfolded saw_plan_def]]
    by (auto simp: owed_bequest_def saw_plan_def)
qed

lemma sol_preserves:
  assumes "disciplined I R"
  shows "preserves I (sol_step R)"
  unfolding sol_step_def
proof (intro preserves_forE preserves_bindE preserves_intro disciplined_reads [OF assms] disciplined_send [OF assms])
  fix l part
  assume "answered (fetched (xd_execLog (cr_deps R) (executionPda R))) (\<lambda>x. x = l)"
    "part \<in> set (exec_chunk (unpaid_of (length (cr_benefs R)) (solPaidMask l)))"
  then show "ix_payout R (x_sol_shares_ix R part (map (\<lambda>i. wallet (cr_benefs R ! i)) part))"
    using ix_sol_shares [OF _ parts_owed] answered_fetched by (metis saw_log_def)
qed

lemma plan_read_preserves:
  assumes "disciplined I R"
  shows "preserves I (if cr_hasPlan R then bindE (fetched (xd_plan (cr_deps R) (assetPlanPda R))) (\<lambda>p. ret (Some p)) else ret None)"
  by (intro preserves_bindE preserves_intro disciplined_reads [OF assms])

lemma plan_read_answer:
  assumes "answered (if cr_hasPlan R then bindE (fetched (xd_plan (cr_deps R) (assetPlanPda R))) (\<lambda>p. ret (Some p)) else ret None)
      (\<lambda>x. x = plan)"
  shows "plan = None \<and> \<not> cr_hasPlan R \<or> cr_hasPlan R \<and> (\<exists>p. plan = Some p \<and> saw_plan R (\<lambda>x. x = Some p))"
proof (cases "cr_hasPlan R")
  case True
  then have "answered (bindE (fetched (xd_plan (cr_deps R) (assetPlanPda R))) (\<lambda>p. ret (Some p))) (\<lambda>x. x = plan)"
    using assms by simp
  then show ?thesis by (rule answered_bindE) (use True answered_fetched in \<open>auto simp: saw_plan_def\<close>)
qed (use assms in simp)

lemma finalize_preserves:
  assumes "disciplined I R"
    and fin: "may_finalize R \<Longrightarrow> ck_stuck acc = [] \<Longrightarrow> preserves I (guarded_send R (crank_tx Do_finalize [] (x_finalize_ix R)))"
  shows "preserves I (finalize_step R acc)"
  unfolding finalize_step_def
proof (intro preserves_bindE [OF plan_read_preserves [OF assms(1)]] preserves_bindE [OF preserves_fetched] preserves_if preserves_ret
    disciplined_reads [OF assms(1)])
  fix l plan
  assume l: "answered (fetched (xd_execLog (cr_deps R) (executionPda R))) (\<lambda>x. x = l)"
    and p: "answered (if cr_hasPlan R then bindE (fetched (xd_plan (cr_deps R) (assetPlanPda R))) (\<lambda>p. ret (Some p)) else ret None) (\<lambda>x. x = plan)"
    and f: "shouldFinalize (completed l) (solPaidMask l) (case plan of None \<Rightarrow> 0 | Some p \<Rightarrow> ap_paidMask p)
          (length (cr_benefs R)) (cr_hasPlan R) (case plan of None \<Rightarrow> 0 | Some p \<Rightarrow> length (assignments p)) (length (ck_stuck acc))"
  have "saw_log R (\<lambda>l. case l of None \<Rightarrow> False | Some l \<Rightarrow> \<not> completed l \<and> solPaidMask l = fullMask (length (cr_benefs R)))"
    using answered_mono [OF answered_fetched [OF l]] f by (simp add: saw_log_def shouldFinalize_def split: if_splits)
  moreover have "\<not> cr_hasPlan R \<or> saw_plan R (\<lambda>p. case p of None \<Rightarrow> False | Some p \<Rightarrow> ap_paidMask p = fullMask (length (assignments p)))"
    using plan_read_answer [OF p] f answered_mono by (auto simp: saw_plan_def shouldFinalize_def split: if_splits) (metis (mono_tags, lifting) answered_mono option.simps(5))
  ultimately show "preserves I (guarded_send R (crank_tx Do_finalize [] (x_finalize_ix R)))"
    using f by (intro fin) (auto simp: may_finalize_def shouldFinalize_def split: if_splits)
qed

lemma forE_answer:
  assumes "answered (forE xs acc bd) (\<lambda>r. r = out)" "P [] acc"
    "\<And>ys x a b. P ys a \<Longrightarrow> answered (bd x a) (\<lambda>r. r = b) \<Longrightarrow> P (ys @ [x]) b"
  shows "P xs out"
proof -
  have "answered (forE xs acc bd) (\<lambda>r. r = out) \<Longrightarrow> P ys acc \<Longrightarrow> P (ys @ xs) out" for ys
  proof (induction xs arbitrary: acc ys)
    case (Cons x xs)
    obtain u u' where "forE (x # xs) acc bd u = (Inr out, u')" using Cons.prems(1) unfolding answered_def by blast
    then obtain b v where "bd x acc u = (Inr b, v)" "forE xs b bd v = (Inr out, u')"
      by (auto simp: bindE_def split: prod.splits sum.splits)
    then have "answered (bd x acc) (\<lambda>r. r = b)" "answered (forE xs b bd) (\<lambda>r. r = out)" unfolding answered_def by blast+
    then show ?case using Cons.IH [of b "ys @ [x]"] assms(3) [OF Cons.prems(2)] by simp
  qed (auto simp: answered_def ret_apply)
  from this [of "[]"] assms(1,2) show ?thesis by simp
qed

lemma share_atas_answer:
  assumes "answered (share_atas R mint pid part) (\<lambda>r. r = atas)"
  shows "list_all2 (\<lambda>i a. ata (cr_env R) mint (wallet (cr_benefs R ! i)) False pid = Inr a) part atas"
  using assms unfolding share_atas_def
proof (rule forE_answer)
  fix ys i a b
  assume IH: "list_all2 (\<lambda>i a. ata (cr_env R) mint (wallet (cr_benefs R ! i)) False pid = Inr a) ys a"
    and "answered (bindE (x_ata R mint (wallet (cr_benefs R ! i)) False pid) (\<lambda>benAta.
       seqE (ensureAta R benAta mint (wallet (cr_benefs R ! i)) pid) (ret (a @ [benAta])))) (\<lambda>r. r = b)"
  then have "\<exists>k. b = a @ [k] \<and> ata (cr_env R) mint (wallet (cr_benefs R ! i)) False pid = Inr k"
    by (elim answered_bindE) (auto simp: x_ata_def answered_liftE)
  then show "list_all2 (\<lambda>i a. ata (cr_env R) mint (wallet (cr_benefs R ! i)) False pid = Inr a) (ys @ [i]) b"
    using IH by (auto intro: list_all2_appendI)
qed simp

lemma token_shares_preserves:
  assumes "disciplined I R" "saw_dist R mint (\<lambda>x. x = Some d)"
  shows "preserves I (token_shares_of R mint pid d)"
  unfolding token_shares_of_def
proof (intro preserves_forE preserves_bindE preserves_intro disciplined_send [OF assms(1)])
  show "preserves I (share_atas R mint pid part)" for part
    unfolding share_atas_def by (intro preserves_forE preserves_bindE preserves_intro ensureAta_preserves [OF assms(1)])
  fix vaultAta part atas
  assume "part \<in> set (exec_chunk (unpaid_of (length (cr_benefs R)) (td_paidMask d)))"
    "answered (share_atas R mint pid part) (\<lambda>x. x = atas)"
  then show "ix_payout R (x_token_shares_ix R mint part vaultAta pid atas)"
    by (intro ix_token_shares [OF assms(2)] parts_owed share_atas_answer)
qed

lemma token_preserves:
  assumes "disciplined I R"
  shows "preserves I (token_step R mints acc)"
  unfolding token_step_def
  by (intro preserves_forE preserves_bindE preserves_intro disciplined_reads [OF assms] token_shares_preserves [OF assms])
    (simp_all add: saw_dist_def)

lemma close_dist_preserves:
  assumes "disciplined I R" "saw_dist R mint (\<lambda>x. x = Some d)" "td_paidMask d = fullMask (length (cr_benefs R))"
    "answered (xd_vault (cr_deps R) (cr_vault R)) (\<lambda>c. c = Some v)" "xv_executed v"
  shows "preserves I (close_dist R mint pid)"
  unfolding close_dist_def vault_dust_def
  by (intro preserves_bindE preserves_intro disciplined_reads [OF assms(1)] ensureAta_preserves [OF assms(1)]
      disciplined_send [OF assms(1)] ix_close_dist [OF assms(2-5)])

lemma close_preserves:
  assumes "disciplined I R" "answered (xd_vault (cr_deps R) (cr_vault R)) (\<lambda>c. c = Some v)"
  shows "preserves I (close_step R (xv_executed v) mints acc)"
  unfolding close_step_def
  by (intro preserves_forE preserves_bindE preserves_intro disciplined_reads [OF assms(1)] close_dist_preserves [OF assms(1) _ _ assms(2)])
    (auto simp: saw_dist_def)

lemma retry_preserves:
  assumes "exec_reads I K"
  shows "preserves I (info_retry K k n i)"
  using assms by (induction n arbitrary: i) (auto simp: exec_reads_def intro!: preserves_bindE preserves_intro)

lemma collect_preserves:
  assumes "exec_reads I K"
  shows "preserves I (collectMints K vault plan)"
  unfolding collectMints_def add_planned_def getAccountInfoRetry_def Let_def
  by (intro preserves_forE preserves_bindE preserves_intro retry_preserves [OF assms])
    (use assms in \<open>simp add: exec_reads_def\<close>)

lemma steps_preserve:
  assumes "disciplined I R"
    and fin: "\<And>plan mints acc acc'. plan = None \<or> (\<exists>p. plan = Some p \<and> saw_plan R (\<lambda>x. x = Some p)) \<Longrightarrow> answered (collectMints (cr_deps R) (cr_vault R) plan) (\<lambda>x. x = mints) \<Longrightarrow>
      answered (begin_dist_step R mints \<lparr>ck_stuck = [], ck_skipped = []\<rparr>) (\<lambda>x. x = acc) \<Longrightarrow>
      answered (bequest_step R mints plan acc) (\<lambda>x. x = acc') \<Longrightarrow> may_finalize R \<Longrightarrow> ck_stuck acc' = [] \<Longrightarrow>
      preserves I (guarded_send R (crank_tx Do_finalize [] (x_finalize_ix R)))"
  shows "preserves I (crank_steps R)"
proof -
  have reads: "exec_reads I (cr_deps R)" using assms(1) by (simp add: disciplined_def)
  note d = assms(1)
  show ?thesis unfolding crank_steps_def
    by (intro preserves_bindE [OF plan_read_preserves [OF d]] preserves_bindE preserves_intro disciplined_reads [OF d]
        begin_preserves [OF d] collect_preserves [OF reads] begin_dist_preserves [OF d] sol_preserves [OF d]
        finalize_preserves [OF d] token_preserves [OF d] bequest_preserves [OF d] close_preserves [OF d] answered_fetched)
      (use plan_read_answer fin in blast)+
qed

subsection \<open>Every submission is guarded and justified\<close>

text \<open>A run of the crank on a vault that is not executed and whose deadline has passed, as read.\<close>

definition due_run :: "'w exec_deps \<Rightarrow> string \<Rightarrow> 'w crank_run \<Rightarrow> bool" where
  "due_run K vaultStr R \<longleftrightarrow>
     cr_deps R = K \<and> xd_decodeKey K vaultStr = Inr (cr_vault R)
     \<and> (\<exists>c hb now. answered (xd_vault K (cr_vault R)) (\<lambda>x. x = Some c) \<and> \<not> xv_executed c
          \<and> cr_benefs R = xv_beneficiaries c \<and> cr_hasPlan R = xv_hasPlan c \<and> cr_owner R = xv_owner c
          \<and> answered (xd_heartbeat K (heartbeatPda R)) (\<lambda>x. x = Some hb) \<and> answered (xd_now K) (\<lambda>x. x = now)
          \<and> js_add (js_add hb (xv_interval c)) (xv_grace c) \<le> now)"

text \<open>\<open>I\<close> survives the submission of a justified transaction while the readiness question is answered yes.\<close>

definition submits_ok ::
  "('w \<Rightarrow> bool) \<Rightarrow> 'w exec_deps \<Rightarrow> string \<Rightarrow> ('w \<Rightarrow> bool option) \<Rightarrow> bool" where
  "submits_ok I K vaultStr canSubmit \<longleftrightarrow>
     (\<forall>R k pre ix fee w. due_run K vaultStr R \<longrightarrow> ix_justified R ix \<longrightarrow> plain_pre pre \<longrightarrow> canSubmit w = Some True \<longrightarrow> I w
        \<longrightarrow> I (snd (xd_send K (crank_tx k pre ix fee) w)))"

text \<open>\<open>I\<close> does not look at the module's own memory.\<close>

definition module_blind :: "('e exec_world_scheme \<Rightarrow> bool) \<Rightarrow> bool" where
  "module_blind I \<longleftrightarrow> (\<forall>w l f c. I (w\<lparr>xw_inFlight := l\<rparr>) = I w \<and> I (w\<lparr>xw_priorityFee := f\<rparr>) = I w \<and> I (w\<lparr>xw_cached := c\<rparr>) = I w)"

lemma guard_preserves:
  assumes "cr_guard R = makeSubmitGuard canSubmit" "\<And>fee w. canSubmit w = Some True \<Longrightarrow> I w \<Longrightarrow> I (snd (xd_send (cr_deps R) (t fee) w))"
  shows "preserves I (guarded_send R t)"
  using assms(2) by (auto simp: preserves_def guarded_send_def assms(1) makeSubmitGuard_def bindE_def ret_apply throw_apply)

lemma fee_preserves: "exec_reads I K \<Longrightarrow> preserves I (getPriorityFee b (xd_estimate K) (xd_recentFees K))"
  unfolding getPriorityFee_def exec_reads_def by (intro preserves_bindE preserves_intro) auto

lemma toNumber_preserves [preserves_intro]: "preserves I (bn_toNumber x)"
  unfolding bn_toNumber_def by (intro preserves_intro)

lemma toNumber_answer: "answered (bn_toNumber x) (\<lambda>r. r = a) \<Longrightarrow> a = x"
  by (auto simp: bn_toNumber_def split: if_splits)

lemma inner_preserves:
  assumes "exec_reads I K" "module_blind I"
    and steps: "\<And>R. due_run K vaultStr R \<Longrightarrow> cr_guard R = makeSubmitGuard canSubmit \<Longrightarrow> preserves I (crank_steps R)"
  shows "preserves I (runExecutorInner K payer vaultStr canSubmit)"
  unfolding runExecutorInner_def Let_def
proof (intro preserves_bindE preserves_intro fee_preserves [OF assms(1)])
  show "preserves I (modify (xw_priorityFee_update (\<lambda>_. fee)))" for fee
    by (rule preserves_modify) (use assms(2) in \<open>simp add: module_blind_def\<close>)
  show "preserves I (xd_vault K k)" "preserves I (xd_heartbeat K k)" "preserves I (xd_now K)" for k
    using assms(1) by (simp_all add: exec_reads_def)
  fix fee vault cfg c hb a b g now
  assume reads: "answered (liftE (xd_decodeKey K vaultStr)) (\<lambda>x. x = vault)" "answered (xd_vault K vault) (\<lambda>x. x = cfg)"
    "cfg = Some c" "\<not> xv_executed c" "answered (fetched (xd_heartbeat K (pda (xd_env K) [seed ''heartbeat'', vault]))) (\<lambda>x. x = hb)"
    "answered (bn_toNumber hb) (\<lambda>x. x = a)" "answered (bn_toNumber (xv_interval c)) (\<lambda>x. x = b)"
    "answered (bn_toNumber (xv_grace c)) (\<lambda>x. x = g)" "answered (xd_now K) (\<lambda>x. x = now)" "\<not> now < js_add (js_add a b) g"
  show "preserves I (crank_steps \<lparr>cr_deps = K, cr_guard = makeSubmitGuard canSubmit, cr_payer = payer, cr_fee = xw_priorityFee,
      cr_vault = vault, cr_benefs = xv_beneficiaries c, cr_hasPlan = xv_hasPlan c, cr_owner = xv_owner c, cr_halt = READINESS_REVOKED\<rparr>)"
  proof (rule steps)
    show "due_run K vaultStr \<lparr>cr_deps = K, cr_guard = makeSubmitGuard canSubmit, cr_payer = payer, cr_fee = xw_priorityFee,
        cr_vault = vault, cr_benefs = xv_beneficiaries c, cr_hasPlan = xv_hasPlan c, cr_owner = xv_owner c, cr_halt = READINESS_REVOKED\<rparr>"
      unfolding due_run_def
      by (intro conjI exI [of _ c] exI [of _ hb] exI [of _ now])
        (use reads answered_fetched [OF reads(5)] toNumber_answer [OF reads(6)] toNumber_answer [OF reads(7)] toNumber_answer [OF reads(8)]
          in \<open>simp_all add: answered_liftE heartbeatPda_def\<close>)
  qed simp
qed

lemma run_preserves:
  assumes "exec_reads I K" "module_blind I" "preserves I (sc_read S)"
    and steps: "\<And>R. due_run K vaultStr R \<Longrightarrow> cr_guard R = makeSubmitGuard canSubmit \<Longrightarrow> preserves I (crank_steps R)"
  shows "preserves I (runExecutor S K vaultStr canSubmit)"
  unfolding runExecutor_def getCtx_def
  by (intro preserves_bindE preserves_intro preserves_finallyE preserves_modify inner_preserves [OF assms(1,2)] steps assms(3))
    (use assms(2) in \<open>simp_all add: module_blind_def\<close>)

end
