(* ===== verification/Home_State.thy ===== *)
theory Home_State
  imports Escalation Vault_Tx Srv_Exec_Props
begin

text \<open>
  What the application keeps of an owner's vault on the device: the vault store
  (\<open>store/useVaultStore.ts\<close>), the agent key in the secure store (\<open>tee/KeyManager.ts\<close>), the rotation of
  that key (\<open>services/MigrationService.ts\<close>) and the refresh of the dashboard
  (\<open>loadVaultState\<close> of \<open>screens/DashboardScreen.tsx\<close>). The secure store fails where the world says so;
  key generation and base58 are parameters.
\<close>

subsection \<open>The vault store\<close>

record store_benef =
  sb_wallet :: pubkey
  sb_shareBps :: nat
  sb_hasSpecific :: bool
  sb_label :: string

record store_escalation = escalation_config +
  ec_contacts :: "string list"

record vault_store =
  vs_isInitialized :: bool
  vs_isRevoked :: bool
  vs_justCompleted :: bool
  vs_vaultConfig :: "vault_config option"
  vs_isSetupComplete :: bool
  vs_beneficiaries :: "store_benef list"
  vs_defiPositions :: "json list"
  vs_escalationConfig :: store_escalation

definition initialEscalationConfig :: store_escalation where
  "initialEscalationConfig = \<lparr>ec_stage1 = 259200, ec_stage2 = 604800, ec_stage3 = 604800, ec_contacts = []\<rparr>"

definition cleared_store :: "bool \<Rightarrow> vault_store" where
  "cleared_store revoked = \<lparr>vs_isInitialized = False, vs_isRevoked = revoked, vs_justCompleted = False, vs_vaultConfig = None,
     vs_isSetupComplete = False, vs_beneficiaries = [], vs_defiPositions = [], vs_escalationConfig = initialEscalationConfig\<rparr>"

text \<open>
  The device: the store, the items of the secure store with the operations that fail, whether the
  device has a lock screen, and the key cached by the key manager.
\<close>

record home_world = esc_world +
  hw_store :: vault_store
  hw_items :: "string \<Rightarrow> string option"
  hw_faults :: "nat \<Rightarrow> bool"
  hw_ops :: nat
  hw_lock :: bool
  hw_cached :: "bytes option"

definition on_store :: "(vault_store \<Rightarrow> vault_store) \<Rightarrow> ('e home_world_scheme, unit) io" where
  "on_store f = modify (\<lambda>w. w\<lparr>hw_store := f (hw_store w)\<rparr>)"

text \<open>The label the owner gave a wallet, or a numbered one; addresses are compared as keys.\<close>

definition label_of :: "store_benef list \<Rightarrow> nat \<Rightarrow> pubkey \<Rightarrow> string" where
  "label_of local i w =
     (case find (\<lambda>b. sb_wallet b = w) local of
        Some b \<Rightarrow> if sb_label b \<noteq> [] then sb_label b else ''Beneficiary '' @ nat_str (i + 1)
      | None \<Rightarrow> ''Beneficiary '' @ nat_str (i + 1))"

definition merged_benefs :: "store_benef list \<Rightarrow> vault_config option \<Rightarrow> store_benef list" where
  "merged_benefs local config =
     map (\<lambda>(i, b). \<lparr>sb_wallet = wallet b, sb_shareBps = shareBps b, sb_hasSpecific = hasSpecificAssets b, sb_label = label_of local i (wallet b)\<rparr>)
       (enumerate 0 (case config of None \<Rightarrow> [] | Some c \<Rightarrow> beneficiaries c))"

definition setVaultConfig :: "vault_config option \<Rightarrow> ('e home_world_scheme, unit) io" where
  "setVaultConfig config =
     bindE (gets hw_store) (\<lambda>s.
     if vs_isRevoked s \<and> config \<noteq> None then ret ()
     else
     seqE (case config of None \<Rightarrow> ret ()
       | Some c \<Rightarrow> bindE (bn_toNumber (int (heartbeatInterval c))) (\<lambda>interval.
           if 0 < interval then setConfig (Some \<lparr>hc_methods = [''active_tap''], hc_intervalSeconds = interval\<rparr>) else ret ()))
     (on_store (\<lambda>_. s\<lparr>vs_isRevoked := False, vs_vaultConfig := config,
        vs_isSetupComplete := (case config of None \<Rightarrow> False | Some c \<Rightarrow> active c \<and> \<not> executed c),
        vs_beneficiaries := merged_benefs (vs_beneficiaries s) config\<rparr>)))"

definition setRevoked :: "bool \<Rightarrow> ('e home_world_scheme, unit) io" where
  "setRevoked b = on_store (\<lambda>s. s\<lparr>vs_isRevoked := b\<rparr>)"

definition setInitialized :: "bool \<Rightarrow> ('e home_world_scheme, unit) io" where
  "setInitialized b = on_store (\<lambda>s. s\<lparr>vs_isInitialized := b\<rparr>)"

definition setSetupComplete :: "bool \<Rightarrow> ('e home_world_scheme, unit) io" where
  "setSetupComplete b = on_store (\<lambda>s. s\<lparr>vs_isSetupComplete := b\<rparr>)"

definition addBeneficiary :: "store_benef \<Rightarrow> ('e home_world_scheme, unit) io" where
  "addBeneficiary b = on_store (\<lambda>s. s\<lparr>vs_beneficiaries := vs_beneficiaries s @ [b]\<rparr>)"

definition removeBeneficiary :: "pubkey \<Rightarrow> ('e home_world_scheme, unit) io" where
  "removeBeneficiary k = on_store (\<lambda>s. s\<lparr>vs_beneficiaries := filter (\<lambda>b. sb_wallet b \<noteq> k) (vs_beneficiaries s)\<rparr>)"

definition updateBeneficiary :: "pubkey \<Rightarrow> (store_benef \<Rightarrow> store_benef) \<Rightarrow> ('e home_world_scheme, unit) io" where
  "updateBeneficiary k f = on_store (\<lambda>s. s\<lparr>vs_beneficiaries := map (\<lambda>b. if sb_wallet b = k then f b else b) (vs_beneficiaries s)\<rparr>)"

definition setBeneficiaries :: "store_benef list \<Rightarrow> ('e home_world_scheme, unit) io" where
  "setBeneficiaries bs = on_store (\<lambda>s. s\<lparr>vs_beneficiaries := bs\<rparr>)"

definition setDefiPositions :: "json list \<Rightarrow> ('e home_world_scheme, unit) io" where
  "setDefiPositions ps = on_store (\<lambda>s. s\<lparr>vs_defiPositions := ps\<rparr>)"

definition setEscalationConfig :: "store_escalation \<Rightarrow> ('e home_world_scheme, unit) io" where
  "setEscalationConfig c = on_store (\<lambda>s. s\<lparr>vs_escalationConfig := c\<rparr>)"

definition markExecutionCompleted :: "('e home_world_scheme, unit) io" where
  "markExecutionCompleted = on_store (\<lambda>s. s\<lparr>vs_justCompleted := True\<rparr>)"

definition clearExecutionCompleted :: "('e home_world_scheme, unit) io" where
  "clearExecutionCompleted = on_store (\<lambda>s. s\<lparr>vs_justCompleted := False\<rparr>)"

definition reset_vault_store :: "('e home_world_scheme, unit) io" where
  "reset_vault_store = on_store (\<lambda>_. cleared_store True)"

definition resetForWalletSwitch :: "('e home_world_scheme, unit) io" where
  "resetForWalletSwitch = on_store (\<lambda>_. cleared_store False)"

subsection \<open>The agent key\<close>

text \<open>
  \<open>kd_generate\<close> gives the secret key bytes of a new pair, \<open>kd_public\<close> their public key; \<open>kd_restore\<close> is
  \<open>Keypair.fromSecretKey (bs58.decode s)\<close>.
\<close>

record 'w key_deps =
  kd_generate :: "('w, bytes) io"
  kd_public :: "bytes \<Rightarrow> pubkey"
  kd_encode :: "bytes \<Rightarrow> string"
  kd_restore :: "string \<Rightarrow> exn + bytes"

definition SECRET_KEY :: string where "SECRET_KEY = ''dmv_agent_secret_key''"
definition PUBLIC_KEY :: string where "PUBLIC_KEY = ''dmv_agent_public_key''"
definition AUTH_FLAG :: string where "AUTH_FLAG = ''dmv_agent_key_auth''"

definition secure :: "((string \<Rightarrow> string option) \<Rightarrow> 'a \<times> (string \<Rightarrow> string option)) \<Rightarrow> ('e home_world_scheme, 'a) io" where
  "secure f w =
     (let w' = w\<lparr>hw_ops := Suc (hw_ops w)\<rparr> in
      if hw_faults w (hw_ops w) then (Inl (External 1), w')
      else case f (hw_items w) of (a, items) \<Rightarrow> (Inr a, w'\<lparr>hw_items := items\<rparr>))"

definition setItemAsync :: "string \<Rightarrow> string \<Rightarrow> ('e home_world_scheme, unit) io" where
  "setItemAsync k v = secure (\<lambda>items. ((), items(k \<mapsto> v)))"

definition getItemAsync :: "string \<Rightarrow> ('e home_world_scheme, string option) io" where
  "getItemAsync k = secure (\<lambda>items. (items k, items))"

definition deleteItemAsync :: "string \<Rightarrow> ('e home_world_scheme, unit) io" where
  "deleteItemAsync k = secure (\<lambda>items. ((), items(k := None)))"

text \<open>With \<open>requireAuthentication\<close> a device without a lock screen refuses.\<close>

definition setItemGated :: "string \<Rightarrow> string \<Rightarrow> ('e home_world_scheme, unit) io" where
  "setItemGated k v = bindE (gets hw_lock) (\<lambda>lock. if lock then setItemAsync k v else throw (External 2))"

definition generateAgentKey :: "env \<Rightarrow> ('e home_world_scheme) key_deps \<Rightarrow> ('e home_world_scheme, string) io" where
  "generateAgentKey E K =
     bindE (kd_generate K) (\<lambda>secret.
     let secretB58 = kd_encode K secret; publicB58 = b58 E (kd_public K secret) in
     bindE (tryE (seqE (setItemGated SECRET_KEY secretB58) (ret True)) (\<lambda>_. seqE (setItemAsync SECRET_KEY secretB58) (ret False))) (\<lambda>authed.
     seqE (setItemAsync PUBLIC_KEY publicB58) (
     seqE (setItemAsync AUTH_FLAG (if authed then ''1'' else ''0'')) (
     seqE (modify (\<lambda>w. w\<lparr>hw_cached := Some secret\<rparr>))
       (ret publicB58)))))"

definition getAgentPublicKey :: "('e home_world_scheme, string option) io" where
  "getAgentPublicKey = getItemAsync PUBLIC_KEY"

definition hasAgentKey :: "('e home_world_scheme, bool) io" where
  "hasAgentKey = bindE (getItemAsync PUBLIC_KEY) (\<lambda>pk. ret (pk \<noteq> None))"

definition no_agent_key :: exn where
  "no_agent_key = Error ''No agent key found in secure store''"

definition getKeypair :: "('e home_world_scheme) key_deps \<Rightarrow> ('e home_world_scheme, bytes) io" where
  "getKeypair K =
     bindE (gets hw_cached) (\<lambda>cached.
     case cached of
       Some secret \<Rightarrow> ret secret
     | None \<Rightarrow>
         seqE (getItemAsync AUTH_FLAG) (
         bindE (getItemAsync SECRET_KEY) (\<lambda>secretB58.
         case secretB58 of
           None \<Rightarrow> throw no_agent_key
         | Some s \<Rightarrow>
             if s = [] then throw no_agent_key
             else bindE (liftE (kd_restore K s)) (\<lambda>secret.
               seqE (modify (\<lambda>w. w\<lparr>hw_cached := Some secret\<rparr>)) (ret secret)))))"

definition destroyKey :: "('e home_world_scheme, unit) io" where
  "destroyKey =
     seqE (modify (\<lambda>w. w\<lparr>hw_cached := None\<rparr>))
     (seqE (deleteItemAsync SECRET_KEY) (seqE (deleteItemAsync PUBLIC_KEY) (deleteItemAsync AUTH_FLAG)))"

subsection \<open>Rotation\<close>

definition needsAgentRotation :: "env \<Rightarrow> ('e home_world_scheme) rpc \<Rightarrow> pubkey \<Rightarrow> ('e home_world_scheme, bool) io" where
  "needsAgentRotation E R owner =
     bindE (fetchVaultConfig E R owner) (\<lambda>vaultData.
     case vaultData of
       None \<Rightarrow> ret False
     | Some c \<Rightarrow>
         if executed c \<or> \<not> active c then ret False
         else
         bindE hasAgentKey (\<lambda>hasKey.
         if \<not> hasKey then ret True
         else bindE getAgentPublicKey (\<lambda>localPubkey. ret (localPubkey \<noteq> Some (b58 E (agentPubkey c))))))"

text \<open>The wallet signs and sends what it is handed; \<open>new PublicKey(newPubkey)\<close> is the key just generated.\<close>

definition executeRotation ::
  "env \<Rightarrow> ('e home_world_scheme) rpc \<Rightarrow> ('e home_world_scheme) key_deps \<Rightarrow> (string \<Rightarrow> exn + pubkey)
   \<Rightarrow> (signed_tx \<Rightarrow> ('e home_world_scheme, string) io) \<Rightarrow> pubkey \<Rightarrow> ('e home_world_scheme, string \<times> string) io" where
  "executeRotation E R K newPublicKey signAndSend owner =
     seqE destroyKey (
     bindE (generateAgentKey E K) (\<lambda>newPubkey.
     bindE (liftE (newPublicKey newPubkey)) (\<lambda>newAgentPk.
     bindE (buildRotateAgentTx E R owner newAgentPk) (\<lambda>t.
     bindE (getLatestBlockhash R) (\<lambda>bh.
     bindE (signAndSend \<lparr>st_ixs = t, st_feePayer = owner, st_blockhash = blockhash bh, st_signers = []\<rparr>) (\<lambda>txSig.
     seqE (confirmTransaction R txSig bh) (ret (newPubkey, txSig))))))))"

subsection \<open>The refresh of the dashboard\<close>

text \<open>The read of the hook \<open>useVaultProgram\<close>, with its own fallback, when the program is there.\<close>

definition hook_fetchVaultConfig :: "env \<Rightarrow> 'w rpc \<Rightarrow> pubkey \<Rightarrow> ('w, vault_config option) io" where
  "hook_fetchVaultConfig E R owner =
     (let p = getVaultPDA E owner in
      tryE (bindE (anchorVaultConfig R p) (\<lambda>c. ret (Some c)))
        (\<lambda>_. tryE (bindE (rawInfo R p) (parseVaultConfigRaw (program_id E))) (\<lambda>_. ret None)))"

lemma hook_fetch_eq: "hook_fetchVaultConfig = fetchVaultConfig"
  by (intro ext) (simp add: hook_fetchVaultConfig_def fetchVaultConfig_def)

text \<open>What it does to the stores, up to the heartbeat read.\<close>

definition sync_dashboard :: "env \<Rightarrow> ('e home_world_scheme) rpc \<Rightarrow> pubkey \<Rightarrow> ('e home_world_scheme, unit) io" where
  "sync_dashboard E R owner =
     bindE (hook_fetchVaultConfig E R owner) (\<lambda>vault.
     bindE (gets hw_store) (\<lambda>s.
     case vault of
       None \<Rightarrow>
         if vs_vaultConfig s = None then ret ()
         else seqE (setVaultConfig None)
           (bindE (gets (\<lambda>w. es_executionStarted (esc_state w))) (\<lambda>started. if started then reset_escalation_store else ret ()))
     | Some c \<Rightarrow>
         seqE (if executed c then reset_escalation_store else ret ()) (setVaultConfig (Some c))))"

end
