(* ===== verification/Plan_Tx.thy ===== *)
theory Plan_Tx
  imports Vault_Tx
begin

text \<open>
  The bequest plan transactions with their size guard, and the revoke path: withdrawing every
  asset (\<open>buildWithdrawAllInstructions\<close>) and packing the instructions (\<open>buildBatchedTxs\<close>). The
  size of a transaction on the wire is defined here from the documented message format, so that the
  guard and the packing can be measured against the 1232 byte limit.
\<close>

subsection \<open>Specific bequests\<close>

datatype bn_or_number = IsBN int | IsNumber int

record asset_assignment =
  aa_mint :: pubkey
  aa_amount :: bn_or_number
  aa_benef :: nat
  aa_nft :: bool

definition toOnChainAssignment :: "env \<Rightarrow> asset_assignment \<Rightarrow> ('w, chain_assignment) io" where
  "toOnChainAssignment E a =
     bindE (case aa_amount a of IsBN n \<Rightarrow> ret n | IsNumber n \<Rightarrow> liftE (new_bn E n)) (\<lambda>n.
     ret \<lparr>ca_mint = aa_mint a, ca_amount = n, ca_benef = aa_benef a, ca_nft = aa_nft a\<rparr>)"

fun plan_mint_loop :: "env \<Rightarrow> string set \<Rightarrow> asset_assignment list \<Rightarrow> meta list" where
  "plan_mint_loop E seen [] = []"
| "plan_mint_loop E seen (a # as) =
     (if aa_mint a = default_pubkey then plan_mint_loop E seen as
      else let k = b58 E (aa_mint a) in
        if k \<in> seen then plan_mint_loop E seen as
        else \<lparr>mt_key = aa_mint a, mt_writable = False, mt_signer = False\<rparr>
             # plan_mint_loop E (insert k seen) as)"

definition planMintRemaining :: "env \<Rightarrow> asset_assignment list \<Rightarrow> meta list" where
  "planMintRemaining E as = plan_mint_loop E {} as"

definition distinct_mints :: "env \<Rightarrow> asset_assignment list \<Rightarrow> nat" where
  "distinct_mints E as =
     length (remdups (map (\<lambda>a. b58 E (aa_mint a)) (filter (\<lambda>a. aa_mint a \<noteq> default_pubkey) as)))"

definition assertPlanFits :: "env \<Rightarrow> asset_assignment list \<Rightarrow> ('w, unit) io" where
  "assertPlanFits E as =
     (if 335 + 33 * distinct_mints E as + 42 * length as > 1180
      then throw (Error (''This bequest plan is too large to fit in one transaction ('' @ nat_str (length as)
             @ '' bequests across '' @ nat_str (distinct_mints E as)
             @ '' tokens). Remove a bequest, or use fewer distinct tokens.''))
      else ret ())"

definition to_chain_all :: "env \<Rightarrow> asset_assignment list \<Rightarrow> ('w, chain_assignment list) io" where
  "to_chain_all E as = forE as [] (\<lambda>a out. bindE (toOnChainAssignment E a) (\<lambda>c. ret (out @ [c])))"

definition buildSetAssetPlanTx :: "env \<Rightarrow> 'w rpc \<Rightarrow> pubkey \<Rightarrow> asset_assignment list \<Rightarrow> ('w, tx) io" where
  "buildSetAssetPlanTx E R owner as =
     (let vaultPda = getVaultPDA E owner; heartbeatPda = getHeartbeatPDA E vaultPda;
          assetPlanPda = getAssetPlanPDA E vaultPda in
      seqE (assertPlanFits E as) (
      bindE (to_chain_all E as) (\<lambda>cs.
      addPriorityFee E R
        [ProgIx (SetAssetPlan cs) [(Owner, Some owner), (VaultConfig, Some vaultPda),
           (HeartbeatRecord, Some heartbeatPda), (AssetPlan, Some assetPlanPda),
           (SystemProgram, Some (system_program E))] (planMintRemaining E as)]
        [owner, vaultPda, assetPlanPda] 250000)))"

definition buildUpdateAssetPlanTx :: "env \<Rightarrow> 'w rpc \<Rightarrow> pubkey \<Rightarrow> asset_assignment list \<Rightarrow> ('w, tx) io" where
  "buildUpdateAssetPlanTx E R owner as =
     (let vaultPda = getVaultPDA E owner; heartbeatPda = getHeartbeatPDA E vaultPda;
          assetPlanPda = getAssetPlanPDA E vaultPda in
      seqE (assertPlanFits E as) (
      bindE (to_chain_all E as) (\<lambda>cs.
      addPriorityFee E R
        [ProgIx (UpdateAssetPlan cs) [(Owner, Some owner), (VaultConfig, Some vaultPda),
           (HeartbeatRecord, Some heartbeatPda), (AssetPlan, Some assetPlanPda)] (planMintRemaining E as)]
        [owner, vaultPda, assetPlanPda] 250000)))"

subsection \<open>Withdrawing everything\<close>

definition buildWithdrawAllInstructions :: "env \<Rightarrow> 'w rpc \<Rightarrow> pubkey \<Rightarrow> ('w, instruction list \<times> nat) io" where
  "buildWithdrawAllInstructions E R owner =
     (let vaultPda = getVaultPDA E owner in
      bindE (getVaultTokenBalances E R vaultPda) (\<lambda>vaultTokens.
      bindE (forE vaultTokens ([], 0) (\<lambda>token (instructions, assetCount).
        bindE (getTokenProgramForMint E R (pt_mint token)) (\<lambda>tokenProgram.
        bindE (ataFor E (pt_mint token) owner False tokenProgram) (\<lambda>ownerAta.
        bindE (ataFor E (pt_mint token) vaultPda True tokenProgram) (\<lambda>vaultAta.
        bindE (tryE (bindE (getAccount R ownerAta tokenProgram) (\<lambda>_. ret []))
                 (\<lambda>_. ret [CreateAtaIdempotent owner ownerAta owner (pt_mint token) tokenProgram])) (\<lambda>create.
        ret (instructions @ create
               @ [withdraw_token_ix E owner (pt_mint token) (pt_amount token) vaultAta ownerAta tokenProgram],
             assetCount + 1))))))) (\<lambda>(instructions, assetCount).
      bindE (getAccountInfo R vaultPda) (\<lambda>vaultInfo.
      case vaultInfo of
        None \<Rightarrow> ret (instructions, assetCount)
      | Some i \<Rightarrow>
          bindE (getMinimumBalanceForRentExemption R (length (acc_data i))) (\<lambda>rent.
          let availableSol = acc_lamports i - rent in
          if availableSol > 0 then
            bindE (liftE (new_bn E availableSol)) (\<lambda>bn.
            ret (instructions @ [withdraw_sol_ix E owner bn], assetCount + 1))
          else ret (instructions, assetCount))))))"

definition MAX_IXS_PER_TX :: nat where
  "MAX_IXS_PER_TX = 8"

text \<open>The packing loop is the loop of \<open>chunk\<close>; the revoke goes to the last transaction.\<close>

definition pack_chunks :: "instruction list \<Rightarrow> bool \<Rightarrow> instruction list list" where
  "pack_chunks ixs includeRevoke =
     (let chunks = (case chunk_loop ixs MAX_IXS_PER_TX 0 [] of Some cs \<Rightarrow> cs | None \<Rightarrow> [])
      in if chunks = [] \<and> includeRevoke then [[]] else chunks)"

definition buildBatchedTxs :: "env \<Rightarrow> 'w rpc \<Rightarrow> pubkey \<Rightarrow> instruction list \<Rightarrow> bool \<Rightarrow> ('w, tx list) io" where
  "buildBatchedTxs E R owner withdrawIxs includeRevoke =
     (let vaultPda = getVaultPDA E owner; chunks = pack_chunks withdrawIxs includeRevoke in
      bindE (if includeRevoke \<and> chunks \<noteq> []
             then bindE (assetPlanIfPresent E R owner) (\<lambda>assetPlan.
                  ret (butlast chunks @ [last chunks @ [revoke_ix E owner assetPlan]]))
             else ret chunks) (\<lambda>chunks'.
      forE chunks' [] (\<lambda>c txs.
        bindE (addPriorityFee E R c [owner, vaultPda] (50000 + int (length c) * 30000)) (\<lambda>priorityTx.
        ret (txs @ [priorityTx])))))"

subsection \<open>The size of a transaction\<close>

text \<open>Arguments after the 8 byte method discriminator, in borsh (the handlers' parameter types).\<close>

fun method_data_len :: "prog_method \<Rightarrow> nat" where
  "method_data_len (InitializeVault p) = 8 + (32 + 8 + 8 + (4 + 34 * length (ip_beneficiaries p)) + 1 + 8)"
| "method_data_len (RecordHeartbeat _) = 8 + 1"
| "method_data_len (UpdateVault i g bs) =
     8 + ((if i = None then 1 else 9) + (if g = None then 1 else 9)
        + (case bs of None \<Rightarrow> 1 | Some l \<Rightarrow> 1 + 4 + 34 * length l))"
| "method_data_len (WithdrawFromVault _) = 8 + 8"
| "method_data_len (WithdrawSolFromVault _) = 8 + 8"
| "method_data_len (RotateAgent _) = 8 + 32"
| "method_data_len (SetAssetPlan cs) = 8 + (4 + 42 * length cs)"
| "method_data_len (UpdateAssetPlan cs) = 8 + (4 + 42 * length cs)"
| "method_data_len (ExecuteSpecificSol _) = 8 + 1"
| "method_data_len (ExecuteSpecificAsset _) = 8 + 1"
| "method_data_len (ExecuteSolShares is) = 8 + (4 + length is)"
| "method_data_len (ExecuteTokenShares is) = 8 + (4 + length is)"
| "method_data_len _ = 8"

fun ix_data_len :: "instruction \<Rightarrow> nat" where
  "ix_data_len (ProgIx m _ _) = method_data_len m"
| "ix_data_len (SystemTransfer _ _ _) = 12"
| "ix_data_len (CreateAtaIdempotent _ _ _ _ _) = 1"
| "ix_data_len (TransferChecked _ _ _ _ _ _ _) = 10"
| "ix_data_len (HarvestWithheldTokensToMint _ _ _) = 2"
| "ix_data_len (SetComputeUnitLimit _) = 5"
| "ix_data_len (SetComputeUnitPrice _) = 9"

text \<open>The accounts of an instruction; an optional account passed as \<open>null\<close> is the program id.\<close>

fun ix_accounts :: "env \<Rightarrow> instruction \<Rightarrow> pubkey list" where
  "ix_accounts E (ProgIx _ accs rem) =
     map (\<lambda>(_, k). case k of Some p \<Rightarrow> p | None \<Rightarrow> program_id E) accs @ map mt_key rem"
| "ix_accounts E (SystemTransfer a b _) = [a, b]"
| "ix_accounts E (CreateAtaIdempotent p a ow m tp) = [p, a, ow, m, system_program E, tp]"
| "ix_accounts E (TransferChecked src m dst ow _ _ _) = [src, m, dst, ow]"
| "ix_accounts E (HarvestWithheldTokensToMint m srcs _) = m # srcs"
| "ix_accounts E _ = []"

fun ix_program :: "env \<Rightarrow> instruction \<Rightarrow> pubkey" where
  "ix_program E (ProgIx _ _ _) = program_id E"
| "ix_program E (SystemTransfer _ _ _) = system_program E"
| "ix_program E (CreateAtaIdempotent _ _ _ _ _) = ata_program E"
| "ix_program E (TransferChecked _ _ _ _ _ _ tp) = tp"
| "ix_program E (HarvestWithheldTokensToMint _ _ tp) = tp"
| "ix_program E _ = compute_budget_program E"

definition compact_len :: "nat \<Rightarrow> nat" where
  "compact_len n = (if n < 128 then 1 else if n < 16384 then 2 else 3)"

definition ix_size :: "env \<Rightarrow> instruction \<Rightarrow> nat" where
  "ix_size E ix = 1 + compact_len (length (ix_accounts E ix)) + length (ix_accounts E ix)
     + compact_len (ix_data_len ix) + ix_data_len ix"

definition tx_keys :: "env \<Rightarrow> pubkey \<Rightarrow> tx \<Rightarrow> pubkey set" where
  "tx_keys E payer t = insert payer (\<Union>ix\<in>set t. insert (ix_program E ix) (set (ix_accounts E ix)))"

text \<open>Signatures, header, account keys, blockhash, instructions, for one signer.\<close>

definition wire_size :: "env \<Rightarrow> pubkey \<Rightarrow> tx \<Rightarrow> nat" where
  "wire_size E payer t =
     (let k = card (tx_keys E payer t)
      in 1 + 64 + 3 + compact_len k + 32 * k + 32 + compact_len (length t) + sum_list (map (ix_size E) t))"

definition PACKET_DATA_SIZE :: nat where
  "PACKET_DATA_SIZE = 1232"

end
