(* ===== verification/Revoke_Run.thy ===== *)
theory Revoke_Run
  imports Home_State Plan_Tx Crank_Tx
begin

text \<open>
  Revoking a vault from the application (\<open>services/revokeVault.ts\<close>, \<open>services/revokeReturnedSol.ts\<close>): the
  refund of the agent key, the owner-signed transactions that empty and close the vault on the chain,
  and the clean-up of the device. Amounts of SOL are exact rationals here; the code rounds them to
  doubles for display only.
\<close>

subsection \<open>Results and services\<close>

record tx_ref =
  tr_label :: string
  tr_sig :: string

record revoke_base =
  rb_agentRefunded :: bool
  rb_agentRefundedSol :: rat
  rb_agentAlreadyEmpty :: bool
  rb_vaultReturnedSol :: rat
  rb_totalReturnedSol :: rat
  rb_txs :: "tx_ref list"
  rb_refundError :: string

datatype revoke_result = Revoked nat revoke_base | Cleared bool revoke_base

record 'w revoke_deps =
  rv_env :: env
  rv_rpc :: "'w rpc"
  rv_keys :: "'w key_deps"
  rv_sign :: "signed_tx \<Rightarrow> ('w, signed_tx) io"
  rv_message :: "exn \<Rightarrow> string"

definition LAMPORTS_PER_SOL :: int where "LAMPORTS_PER_SOL = 1000000000"

definition not_owner :: exn where
  "not_owner = Error ''NOT_OWNER''"

subsection \<open>The returned SOL\<close>

definition computeReturnedSol ::
  "('w, int) io \<Rightarrow> int option \<Rightarrow> rat \<Rightarrow> int \<Rightarrow> ('w, rat \<times> rat) io" where
  "computeReturnedSol getBalanceAfter ownerBalBefore agentRefundedSol lamportsPerSol =
     bindE (tryE (bindE getBalanceAfter (\<lambda>b. ret (Some b))) (\<lambda>_. ret None)) (\<lambda>ownerBalAfter.
     ret (case (ownerBalBefore, ownerBalAfter) of
         (Some before, Some after) \<Rightarrow>
           if lamportsPerSol \<le> 0 then (0, 0)
           else let returned = max 0 (of_int (after - before) / of_int lamportsPerSol) in (returned, max 0 (returned - agentRefundedSol))
       | _ \<Rightarrow> (0, 0)))"

subsection \<open>The agent's refund\<close>

record refund =
  rf_refunded :: bool
  rf_sol :: rat
  rf_empty :: bool
  rf_error :: string
  rf_txs :: "tx_ref list"

definition no_refund :: refund where
  "no_refund = \<lparr>rf_refunded = False, rf_sol = 0, rf_empty = False, rf_error = [], rf_txs = []\<rparr>"

definition refund_agent :: "('e home_world_scheme) revoke_deps \<Rightarrow> pubkey \<Rightarrow> ('e home_world_scheme, refund) io" where
  "refund_agent D owner =
     tryE
       (bindE hasAgentKey (\<lambda>has.
        if \<not> has then ret (no_refund\<lparr>rf_error := ''no agent key on this device''\<rparr>)
        else
        bindE (getKeypair (rv_keys D)) (\<lambda>secret.
        let agent = kd_public (rv_keys D) secret in
        bindE (getBalance (rv_rpc D) agent) (\<lambda>agentBal.
        if 10000 < agentBal then
          bindE (refundAgentSol (rv_env D) (rv_rpc D) agent owner) (\<lambda>refundSig.
          ret (case refundSig of
              None \<Rightarrow> no_refund
            | Some sig \<Rightarrow> no_refund\<lparr>rf_refunded := True,
                rf_sol := (if sig = [] then 0 else of_int (agentBal - 5000) / of_int LAMPORTS_PER_SOL),
                rf_txs := (if sig = [] then [] else [\<lparr>tr_label = ''Agent key refund'', tr_sig = sig\<rparr>])\<rparr>))
        else ret (no_refund\<lparr>rf_empty := True\<rparr>)))))
       (\<lambda>e. ret (no_refund\<lparr>rf_error := (if rv_message D e = [] then ''Unknown error'' else rv_message D e)\<rparr>))"

subsection \<open>The owner's transactions\<close>

definition send_owner_tx :: "('e home_world_scheme) revoke_deps \<Rightarrow> pubkey \<Rightarrow> tx \<Rightarrow> ('e home_world_scheme, string) io" where
  "send_owner_tx D owner t =
     bindE (getLatestBlockhash (rv_rpc D)) (\<lambda>bh.
     bindE (rv_sign D \<lparr>st_ixs = t, st_feePayer = owner, st_blockhash = blockhash bh, st_signers = []\<rparr>) (\<lambda>signed.
     bindE (sendRawTransaction (rv_rpc D) signed) (\<lambda>sig.
     seqE (confirmTransaction (rv_rpc D) sig bh) (ret sig))))"

definition batch_label :: "nat \<Rightarrow> nat \<Rightarrow> string" where
  "batch_label i n = (if 1 < n then ''Withdraw + close vault ('' @ nat_str (i + 1) @ ''/'' @ nat_str n @ '')'' else ''Withdraw + close vault'')"

definition close_active ::
  "('e home_world_scheme) revoke_deps \<Rightarrow> pubkey \<Rightarrow> tx_ref list \<Rightarrow> ('e home_world_scheme, nat \<times> tx_ref list) io" where
  "close_active D owner txs =
     bindE (buildWithdrawAllInstructions (rv_env D) (rv_rpc D) owner) (\<lambda>(withdrawIxs, assetCount).
     bindE (buildBatchedTxs (rv_env D) (rv_rpc D) owner withdrawIxs True) (\<lambda>batchTxs.
     bindE (forE (enumerate 0 batchTxs) txs (\<lambda>(i, t) txs.
       bindE (send_owner_tx D owner t) (\<lambda>sig. ret (txs @ [\<lparr>tr_label = batch_label i (length batchTxs), tr_sig = sig\<rparr>])))) (\<lambda>txs.
     ret (assetCount, txs))))"

definition close_executed ::
  "('e home_world_scheme) revoke_deps \<Rightarrow> pubkey \<Rightarrow> tx_ref list \<Rightarrow> ('e home_world_scheme, tx_ref list) io" where
  "close_executed D owner txs =
     bindE (buildCloseTokenDistTransactions (rv_env D) (rv_rpc D) owner owner) (\<lambda>tdTxs.
     bindE (forE tdTxs txs (\<lambda>(label, t) txs. bindE (send_owner_tx D owner t) (\<lambda>sig. ret (txs @ [\<lparr>tr_label = label, tr_sig = sig\<rparr>])))) (\<lambda>txs.
     bindE (buildCloseExecutedVaultTx (rv_env D) (rv_rpc D) owner) (\<lambda>t.
     bindE (send_owner_tx D owner t) (\<lambda>sig.
     ret (txs @ [\<lparr>tr_label = ''Close vault & reclaim rent'', tr_sig = sig\<rparr>])))))"

definition clear_device :: "('e home_world_scheme, unit) io" where
  "clear_device =
     seqE (quietly destroyKey) (
     seqE reset_vault_store (
     seqE reset_heartbeat_store (
     seqE reset_escalation_store
       (quietly (deleteSetting ''heartbeat_config'')))))"

definition finish_revoke ::
  "('e home_world_scheme) revoke_deps \<Rightarrow> pubkey \<Rightarrow> int option \<Rightarrow> refund \<Rightarrow> tx_ref list \<Rightarrow> ('e home_world_scheme, revoke_base) io" where
  "finish_revoke D owner balBefore rf txs =
     seqE clear_device (
     bindE (computeReturnedSol (getBalance (rv_rpc D) owner) balBefore (rf_sol rf) LAMPORTS_PER_SOL) (\<lambda>(returned, vaultSol).
     ret \<lparr>rb_agentRefunded = rf_refunded rf, rb_agentRefundedSol = rf_sol rf, rb_agentAlreadyEmpty = rf_empty rf,
       rb_vaultReturnedSol = vaultSol, rb_totalReturnedSol = returned, rb_txs = txs, rb_refundError = rf_error rf\<rparr>))"

text \<open>What is left once the agent is refunded: close on the chain, then clear the device.\<close>

definition revoke_rest ::
  "('e home_world_scheme) revoke_deps \<Rightarrow> pubkey \<Rightarrow> vault_config option \<Rightarrow> int option \<Rightarrow> refund \<Rightarrow> ('e home_world_scheme, revoke_result) io" where
  "revoke_rest D owner vault balBefore rf =
     (if (case vault of None \<Rightarrow> False | Some c \<Rightarrow> active c \<and> \<not> executed c) then
        bindE (close_active D owner (rf_txs rf)) (\<lambda>(assetCount, txs).
        bindE (finish_revoke D owner balBefore rf txs) (\<lambda>b. ret (Revoked assetCount b)))
      else
        bindE (if (case vault of None \<Rightarrow> False | Some c \<Rightarrow> executed c) then close_executed D owner (rf_txs rf) else ret (rf_txs rf)) (\<lambda>txs.
        bindE (finish_revoke D owner balBefore rf txs) (\<lambda>b.
        ret (Cleared (case vault of None \<Rightarrow> False | Some c \<Rightarrow> executed c) b))))"

definition balance_or_none :: "('e home_world_scheme) revoke_deps \<Rightarrow> pubkey \<Rightarrow> ('e home_world_scheme, int option) io" where
  "balance_or_none D owner = tryE (bindE (getBalance (rv_rpc D) owner) (\<lambda>b. ret (Some b))) (\<lambda>_. ret None)"

definition revokeVault :: "('e home_world_scheme) revoke_deps \<Rightarrow> pubkey \<Rightarrow> ('e home_world_scheme, revoke_result) io" where
  "revokeVault D owner =
     bindE (fetchVaultConfig (rv_env D) (rv_rpc D) owner) (\<lambda>vault.
     if (case vault of None \<Rightarrow> False | Some c \<Rightarrow> vc_owner c \<noteq> owner) then throw not_owner
     else
     bindE (balance_or_none D owner) (\<lambda>balBefore.
     bindE (refund_agent D owner) (revoke_rest D owner vault balBefore)))"

subsection \<open>The summary\<close>

definition bullet :: string where "bullet = [CHR 0xE2, CHR 0x80, CHR 0xA2]"
definition rule_line :: string where "rule_line = ''  '' @ concat (replicate 17 [CHR 0xE2, CHR 0x94, CHR 0x80])"
definition newline :: string where "newline = [CHR 0x0A]"

definition shortSig :: "string \<Rightarrow> string" where
  "shortSig sig = (if 16 < length sig then take 8 sig @ ellipsis @ drop (length sig - 6) sig else sig)"

definition base_of :: "revoke_result \<Rightarrow> revoke_base" where
  "base_of r = (case r of Revoked n b \<Rightarrow> b | Cleared e b \<Rightarrow> b)"

fun join_lines :: "string list \<Rightarrow> string" where
  "join_lines [] = []"
| "join_lines [l] = l"
| "join_lines (l # ls) = l @ newline @ join_lines ls"

definition summary_lines :: "(rat \<Rightarrow> string) \<Rightarrow> revoke_result \<Rightarrow> string list" where
  "summary_lines fixed4 r =
     (let b = base_of r; assetCount = (case r of Revoked n _ \<Rightarrow> n | Cleared _ _ \<Rightarrow> 0) in
      [''Returned to your wallet:'']
      @ (if rb_agentRefunded b then [''  '' @ bullet @ '' Agent key refund:   '' @ fixed4 (rb_agentRefundedSol b) @ '' SOL'']
         else if rb_agentAlreadyEmpty b then [''  '' @ bullet @ '' Agent SOL:  already returned earlier''] else [])
      @ (if 0 < rb_vaultReturnedSol b
         then [''  '' @ bullet @ '' '' @ (if 0 < assetCount then ''Vault rent + assets'' else ''Vault rent'') @ '':  '' @ fixed4 (rb_vaultReturnedSol b) @ '' SOL''] else [])
      @ [rule_line, ''  Total this revoke:  '' @ fixed4 (rb_totalReturnedSol b) @ '' SOL'', [],
         ''Transaction'' @ (if length (rb_txs b) \<noteq> 1 then ''s'' else []) @ '':'']
      @ map (\<lambda>t. ''  '' @ bullet @ '' '' @ tr_label t @ newline @ ''    '' @ shortSig (tr_sig t)) (rb_txs b)
      @ (if rb_refundError b \<noteq> [] \<and> rb_refundError b \<noteq> ''no agent balance'' \<and> rb_refundError b \<noteq> ''no agent key on this device''
         then [[], ''Note: agent refund failed ('' @ rb_refundError b @ '').''] else []))"

definition formatRevokeSummary :: "(rat \<Rightarrow> string) \<Rightarrow> revoke_result \<Rightarrow> string \<times> string \<times> tx_ref list" where
  "formatRevokeSummary fixed4 r =
     (let title = (case r of Revoked _ _ \<Rightarrow> ''Vault Revoked'' | Cleared _ _ \<Rightarrow> ''Vault Cleared'') in
      if rb_txs (base_of r) = [] then
        (title, (case r of Cleared True _ \<Rightarrow> ''Vault was already executed.'' | _ \<Rightarrow> ''No active vault found on-chain.'') @ '' Local data cleared.'', [])
      else (title, join_lines (summary_lines fixed4 r), rb_txs (base_of r)))"

end
