(* ===== verification/Setup_Run.thy ===== *)
theory Setup_Run
  imports Revoke_Run
begin

text \<open>
  Activating a vault (\<open>handleRegister\<close> of \<open>screens/EstateReviewScreen.tsx\<close>): the agent key, the balance
  check, the choice between initialising and replacing an older vault, the funding of the agent, the
  owner-signed transaction and the reset of the device. Alerts are the result; the navigation is left
  out.
\<close>

datatype setup_alert =
    Alert_error string
  | Insufficient_balance
  | Vault_active
  | Vault_activated string
  | Retry_required
  | Wallet_cancelled
  | Registration_failed string

record 'w setup_deps =
  su_revoke :: "'w revoke_deps"
  su_newKey :: "string \<Rightarrow> exn + pubkey"

abbreviation su_env :: "'w setup_deps \<Rightarrow> env" where "su_env D \<equiv> rv_env (su_revoke D)"
abbreviation su_rpc :: "'w setup_deps \<Rightarrow> 'w rpc" where "su_rpc D \<equiv> rv_rpc (su_revoke D)"
abbreviation su_keys :: "'w setup_deps \<Rightarrow> 'w key_deps" where "su_keys D \<equiv> rv_keys (su_revoke D)"

definition AGENT_FUNDING_LAMPORTS :: int where "AGENT_FUNDING_LAMPORTS = 5000000"
definition MIN_BALANCE :: int where "MIN_BALANCE = 35000000"

definition agent_for_setup :: "env \<Rightarrow> ('e home_world_scheme) key_deps \<Rightarrow> ('e home_world_scheme, string) io" where
  "agent_for_setup E K =
     bindE getAgentPublicKey (\<lambda>k. case k of Some s \<Rightarrow> if s = [] then generateAgentKey E K else ret s | None \<Rightarrow> generateAgentKey E K)"

definition setup_grace :: "bool \<Rightarrow> store_escalation \<Rightarrow> int" where
  "setup_grace isDemoMode c = (if isDemoMode then 90 else ec_stage1 c + ec_stage2 c + ec_stage3 c)"

text \<open>The vault that is already on the chain, if it can be read.\<close>

definition existing_vault :: "('e home_world_scheme) setup_deps \<Rightarrow> pubkey \<Rightarrow> ('e home_world_scheme, vault_config option) io" where
  "existing_vault D owner =
     bindE (getAccountInfo (su_rpc D) (getVaultPDA (su_env D) owner)) (\<lambda>info.
     case info of
       None \<Rightarrow> ret None
     | Some i \<Rightarrow>
         if length (acc_data i) = 0 then ret None
         else
         bindE (fetchVaultConfig (su_env D) (su_rpc D) owner) (\<lambda>v.
         if v = None \<and> 92 \<le> length (acc_data i)
         then parseVaultConfigRaw (program_id (su_env D)) (Some (acct.truncate i)) else ret v))"

definition setup_tx ::
  "('e home_world_scheme) setup_deps \<Rightarrow> pubkey \<Rightarrow> pubkey \<Rightarrow> vault_config option \<Rightarrow> int \<Rightarrow> int \<Rightarrow> benef_input list \<Rightarrow> bool \<Rightarrow> ('e home_world_scheme, tx) io" where
  "setup_tx D owner agent existing interval grace benefs mutable =
     bindE (case existing of
         None \<Rightarrow> buildInitializeVaultTx (su_env D) (su_rpc D) owner agent interval grace benefs mutable
       | Some v \<Rightarrow>
           if executed v then buildCloseExecutedAndReinitVaultTx (su_env D) (su_rpc D) owner agent interval grace benefs mutable
           else buildCloseAndReinitVaultTx (su_env D) (su_rpc D) owner agent interval grace benefs mutable) (\<lambda>t.
     bindE (getBalance (su_rpc D) agent) (\<lambda>agentBalance.
     let fundingNeeded = max 0 (AGENT_FUNDING_LAMPORTS - agentBalance) in
     ret (t @ (if 0 < fundingNeeded then [SystemTransfer owner agent fundingNeeded] else [])
            @ [SystemTransfer owner (getVaultPDA (su_env D) owner) KEEPER_BOUNTY_LAMPORTS])))"

definition sync_active :: "vault_config \<Rightarrow> ('e home_world_scheme, setup_alert) io" where
  "sync_active v = seqE (setRevoked False) (seqE (setVaultConfig (Some v)) (ret Vault_active))"

definition reset_for_new_vault :: "string \<Rightarrow> ('e home_world_scheme, unit) io" where
  "reset_for_new_vault ownerWallet =
     seqE clearHeartbeatHistory (
     seqE (clearDistributableSnapshot ownerWallet) (
     seqE (clearTokenSnapshot ownerWallet) (
     seqE (recordHeartbeat ''active_tap'' None)
       reset_escalation_store)))"

definition after_activation :: "('e home_world_scheme) setup_deps \<Rightarrow> pubkey \<Rightarrow> string \<Rightarrow> ('e home_world_scheme, setup_alert) io" where
  "after_activation D owner sig =
     seqE (reset_for_new_vault (b58 (su_env D) owner)) (
     bindE (fetchVaultConfig (su_env D) (su_rpc D) owner) (\<lambda>v.
     seqE (case v of Some c \<Rightarrow> seqE (setRevoked False) (setVaultConfig (Some c)) | None \<Rightarrow> setSetupComplete True)
       (ret (Vault_activated sig))))"

definition activate_body ::
  "('e home_world_scheme) setup_deps \<Rightarrow> pubkey \<Rightarrow> int \<Rightarrow> int \<Rightarrow> store_benef list \<Rightarrow> bool \<Rightarrow> ('e home_world_scheme, setup_alert) io" where
  "activate_body D owner interval grace benefs mutable =
     bindE (agent_for_setup (su_env D) (su_keys D)) (\<lambda>agentStr.
     bindE (liftE (su_newKey D agentStr)) (\<lambda>agent.
     bindE (getBalance (su_rpc D) owner) (\<lambda>ownerBalance.
     if ownerBalance < MIN_BALANCE then ret Insufficient_balance
     else
     bindE (existing_vault D owner) (\<lambda>existing.
     if (case existing of None \<Rightarrow> False | Some v \<Rightarrow> active v \<and> \<not> executed v) then sync_active (the existing)
     else
     bindE (setup_tx D owner agent existing interval grace
         (map (\<lambda>b. \<lparr>bi_wallet = sb_wallet b, bi_shareBps = int (sb_shareBps b)\<rparr>) benefs) mutable) (\<lambda>t.
     bindE (send_owner_tx (su_revoke D) owner t) (after_activation D owner))))))"

text \<open>The catch of \<open>handleRegister\<close>; the recovery's own failure falls through.\<close>

definition register_failed :: "('e home_world_scheme) setup_deps \<Rightarrow> pubkey \<Rightarrow> string \<Rightarrow> ('e home_world_scheme, setup_alert) io" where
  "register_failed D owner msg =
     bindE (if text_includes msg ''already in use'' \<or> text_includes msg ''custom program error: 0x0''
         then tryE
           (bindE (fetchVaultConfig (su_env D) (su_rpc D) owner) (\<lambda>vault.
            case vault of
              None \<Rightarrow> ret None
            | Some v \<Rightarrow>
                if active v \<and> \<not> executed v then bindE (sync_active v) (\<lambda>a. ret (Some a))
                else if \<not> active v \<and> \<not> executed v then ret (Some Retry_required)
                else ret None))
           (\<lambda>_. ret None)
         else ret None) (\<lambda>recovered.
     case recovered of
       Some a \<Rightarrow> ret a
     | None \<Rightarrow>
         ret (if text_includes msg ''CancellationException'' \<or> text_includes msg ''cancelled'' then Wallet_cancelled
              else Registration_failed msg))"

definition handleRegister ::
  "('e home_world_scheme) setup_deps \<Rightarrow> bool \<Rightarrow> bool \<Rightarrow> pubkey option \<Rightarrow> ('e home_world_scheme, setup_alert) io" where
  "handleRegister D isDemoMode mutable publicKey =
     bindE (gets hb_config) (\<lambda>hc. bindE (gets hw_store) (\<lambda>s.
     case (publicKey, hc) of
       (Some owner, Some c) \<Rightarrow>
         if vs_beneficiaries s = [] then ret (Alert_error ''At least one beneficiary is required.'')
         else tryE
           (activate_body D owner (hc_intervalSeconds c) (setup_grace isDemoMode (vs_escalationConfig s)) (vs_beneficiaries s) mutable)
           (\<lambda>e. register_failed D owner (rv_message (su_revoke D) e))
     | _ \<Rightarrow> ret (Alert_error ''Wallet and heartbeat config are required.'')))"

end
