(* ===== verification/Js_Double.thy ===== *)
theory Js_Double
  imports Prelude Complex_Main
begin

text \<open>
  JavaScript numbers with fractions, as far as the amount and share fields of the editors use them:
  IEEE doubles as rationals (rounding to nearest, ties to even, subnormals and overflow included),
  products and quotients with a positive constant, \<open>Math.round\<close>, \<open>Math.floor\<close>, \<open>parseFloat\<close> and
  \<open>Number\<close> on text. The two zeros are one. White space is the ASCII white space.
\<close>

datatype dbl = NotANumber | PosInf | NegInf | Fin rat

subsection \<open>Rounding\<close>

text \<open>The exponent of the leading bit of a positive rational.\<close>

definition ilog2 :: "rat \<Rightarrow> int" where
  "ilog2 q = (if 1 \<le> q then bitlen \<lfloor>q\<rfloor> - 1 else - bitlen (\<lceil>1 / q\<rceil> - 1))"

definition half_even :: "rat \<Rightarrow> int" where
  "half_even x = (let f = \<lfloor>x\<rfloor>; r = x - of_int f in if 1 / 2 < r \<or> (r = 1 / 2 \<and> odd f) then f + 1 else f)"

definition ulp_exp :: "rat \<Rightarrow> int" where
  "ulp_exp q = max (- 1074) (ilog2 q - 52)"

definition rnd_pos :: "rat \<Rightarrow> rat" where
  "rnd_pos q = of_int (half_even (q / 2 powi ulp_exp q)) * 2 powi ulp_exp q"

definition dbl_of :: "rat \<Rightarrow> dbl" where
  "dbl_of q =
     (if q = 0 then Fin 0
      else let v = rnd_pos \<bar>q\<bar> in
        if 2 ^ 1024 \<le> v then (if q < 0 then NegInf else PosInf)
        else Fin (if q < 0 then - v else v))"

lemma ilog2_bounds:
  assumes "0 < q"
  shows "2 powi ilog2 q \<le> q" "q < 2 powi (ilog2 q + 1)"
proof -
  have "2 powi ilog2 q \<le> q \<and> q < 2 powi (ilog2 q + 1)"
  proof (cases "1 \<le> q")
    case True
    then have f: "0 < \<lfloor>q\<rfloor>" by simp
    have n: "1 \<le> bitlen \<lfloor>q\<rfloor>" using f bitlen_nonneg [of "\<lfloor>q\<rfloor>"] bitlen_eq_zero_iff [of "\<lfloor>q\<rfloor>"] by linarith
    have b: "2 ^ nat (bitlen \<lfloor>q\<rfloor> - 1) \<le> \<lfloor>q\<rfloor>" "\<lfloor>q\<rfloor> + 1 \<le> 2 ^ nat (bitlen \<lfloor>q\<rfloor>)" using bitlen_bounds [OF f] by auto
    have "2 powi (bitlen \<lfloor>q\<rfloor> - 1) = (of_int (2 ^ nat (bitlen \<lfloor>q\<rfloor> - 1)) :: rat)" "2 powi (bitlen \<lfloor>q\<rfloor>) = (of_int (2 ^ nat (bitlen \<lfloor>q\<rfloor>)) :: rat)"
      using n by (simp_all add: power_int_def)
    moreover have "of_int (2 ^ nat (bitlen \<lfloor>q\<rfloor> - 1)) \<le> q" using b(1) le_floor_iff by blast
    moreover have "q < of_int (2 ^ nat (bitlen \<lfloor>q\<rfloor>))" using b(2) floor_less_iff [of q "2 ^ nat (bitlen \<lfloor>q\<rfloor>)"] by linarith
    ultimately show ?thesis using True by (simp add: ilog2_def)
  next
    case False
    define m where "m = \<lceil>1 / q\<rceil> - 1"
    have "1 < 1 / q" using False assms by (simp add: field_simps)
    then have m: "0 < m" unfolding m_def by (simp add: less_ceiling_iff)
    have n: "1 \<le> bitlen m" using m bitlen_nonneg [of m] bitlen_eq_zero_iff [of m] by linarith
    have b: "2 ^ nat (bitlen m - 1) \<le> m" "m + 1 \<le> 2 ^ nat (bitlen m)" using bitlen_bounds [OF m] by auto
    have "1 / q \<le> of_int (m + 1)" unfolding m_def by simp
    also have "\<dots> \<le> of_int (2 ^ nat (bitlen m))" using b(2) by (simp only: of_int_le_iff)
    finally have u: "1 / q \<le> 2 powi (bitlen m)" using n by (simp add: power_int_def)
    have "of_int (2 ^ nat (bitlen m - 1)) \<le> (of_int m :: rat)" using b(1) by (simp only: of_int_le_iff)
    also have "\<dots> < 1 / q" unfolding m_def by (simp only: less_ceiling_iff [symmetric])
    finally have l: "2 powi (bitlen m - 1) < 1 / q" using n by (simp add: power_int_def)
    have "2 powi (- bitlen m) = (1 / 2 powi (bitlen m) :: rat)" "2 powi (- bitlen m + 1) = (1 / 2 powi (bitlen m - 1) :: rat)"
      by (simp_all add: power_int_minus_divide power_int_diff power_int_add)
    moreover have p: "0 < (2 powi (bitlen m) :: rat)" "0 < (2 powi (bitlen m - 1) :: rat)" by simp_all
    moreover have "1 / 2 powi (bitlen m) \<le> q" using u assms p(1) by (simp add: field_simps)
    moreover have "q < 1 / 2 powi (bitlen m - 1)" using l assms p(2) by (simp add: field_simps)
    ultimately show ?thesis using False by (simp add: ilog2_def m_def)
  qed
  then show "2 powi ilog2 q \<le> q" "q < 2 powi (ilog2 q + 1)" by auto
qed

lemma powi_mono: "m \<le> n \<Longrightarrow> (2 powi m :: rat) \<le> 2 powi n"
  by (rule power_int_increasing) auto

lemma powi_less_iff: "(2 powi m :: rat) < 2 powi n \<longleftrightarrow> m < n"
  using power_int_strict_increasing [of m n "2 :: rat"] powi_mono [of n m] by (auto simp: not_less [symmetric])

lemma ilog2_eq:
  assumes "2 powi e \<le> q" "q < 2 powi (e + 1)"
  shows "ilog2 q = e"
proof -
  have q: "0 < q" using assms(1) by (rule less_le_trans [rotated]) simp
  have "2 powi e < (2 powi (ilog2 q + 1) :: rat)" "2 powi ilog2 q < (2 powi (e + 1) :: rat)"
    using assms ilog2_bounds [OF q] by linarith+
  then show ?thesis by (simp add: powi_less_iff)
qed

lemma half_even_of_int [simp]: "half_even (of_int n) = n"
  by (simp add: half_even_def)

lemma half_even_err: "\<bar>of_int (half_even x) - x\<bar> \<le> 1 / 2"
proof -
  have a: "of_int \<lfloor>x\<rfloor> \<le> x" "x < of_int \<lfloor>x\<rfloor> + 1" by linarith+
  show ?thesis
  proof (cases "1 / 2 < x - of_int \<lfloor>x\<rfloor> \<or> x - of_int \<lfloor>x\<rfloor> = 1 / 2 \<and> odd \<lfloor>x\<rfloor>")
    case True
    then have "half_even x = \<lfloor>x\<rfloor> + 1" unfolding half_even_def Let_def by (rule if_P)
    then show ?thesis using True a by (auto simp: abs_le_iff)
  next
    case False
    then have "half_even x = \<lfloor>x\<rfloor>" unfolding half_even_def Let_def by (rule if_not_P)
    then show ?thesis using False a by (auto simp: abs_le_iff)
  qed
qed

lemma rnd_pos_err: "0 < q \<Longrightarrow> \<bar>rnd_pos q - q\<bar> \<le> 2 powi ulp_exp q / 2"
proof -
  assume q: "0 < q"
  define u where "u = (2 powi ulp_exp q :: rat)"
  have u: "0 < u" unfolding u_def by simp
  have "\<bar>of_int (half_even (q / u)) * u - q\<bar> = \<bar>of_int (half_even (q / u)) - q / u\<bar> * u"
    using u by (simp add: abs_if field_simps)
  also have "\<dots> \<le> 1 / 2 * u" using half_even_err [of "q / u"] u by (intro mult_right_mono) auto
  finally show ?thesis unfolding rnd_pos_def u_def by simp
qed

lemma rnd_pos_rel:
  assumes "2 powi (- 1022) \<le> q"
  shows "\<bar>rnd_pos q - q\<bar> \<le> q / 2 ^ 53"
proof -
  have q: "0 < q" using assms by (rule less_le_trans [rotated]) simp
  have "(2 powi (- 1022) :: rat) < 2 powi (ilog2 q + 1)" using assms ilog2_bounds(2) [OF q] by linarith
  then have e: "ulp_exp q = ilog2 q - 52" unfolding powi_less_iff ulp_exp_def by simp
  have "(2 powi ulp_exp q / 2 :: rat) = 2 powi ilog2 q / 2 ^ 53" unfolding e by (simp add: power_int_diff)
  also have "\<dots> \<le> q / 2 ^ 53" using ilog2_bounds(1) [OF q] by (simp add: divide_right_mono)
  finally show ?thesis using rnd_pos_err [OF q] by linarith
qed

lemma rnd_pos_exact:
  assumes "q = of_int n * 2 powi k" "0 < n" "n \<le> 2 ^ 53" "- 1074 \<le> k"
  shows "rnd_pos q = q"
proof -
  have q: "0 < q" using assms(1,2) by simp
  have "\<exists>m. q / 2 powi ulp_exp q = of_int m"
  proof (cases "ulp_exp q \<le> k")
    case True
    then have "(2 powi (k - ulp_exp q) :: rat) = of_int (2 ^ nat (k - ulp_exp q))" by (simp add: power_int_def)
    moreover have "q / 2 powi ulp_exp q = of_int n * 2 powi (k - ulp_exp q)" using assms(1) power_int_diff [of "2 :: rat" k "ulp_exp q"] by (metis times_divide_eq_right zero_neq_numeral)
    ultimately have "q / 2 powi ulp_exp q = of_int (n * 2 ^ nat (k - ulp_exp q))" by simp
    then show ?thesis by blast
  next
    case False
    then have e: "ulp_exp q = ilog2 q - 52" using assms(4) unfolding ulp_exp_def by simp
    have "of_int n \<le> (of_int (2 ^ 53) :: rat)" using assms(3) by (simp only: of_int_le_iff)
    then have "q \<le> 2 powi 53 * 2 powi k" unfolding assms(1) by (intro mult_right_mono) (auto simp: power_int_def)
    also have "\<dots> = 2 powi (53 + k)" by (simp add: power_int_add)
    finally have "q \<le> 2 powi (53 + k)" .
    moreover have b: "2 powi ilog2 q \<le> q" by (rule ilog2_bounds [OF q])
    ultimately have "(2 powi ilog2 q :: rat) \<le> 2 powi (53 + k)" by linarith
    then have "ilog2 q \<le> 53 + k" using powi_less_iff [of "53 + k" "ilog2 q"] by (simp add: not_less [symmetric])
    then have k: "ilog2 q = 53 + k" using False e by simp
    then have "q = 2 powi (53 + k)" using b \<open>q \<le> 2 powi (53 + k)\<close> by simp
    then have "q / 2 powi ulp_exp q = 2 powi 52" unfolding e k by (simp add: power_int_diff [symmetric])
    then show ?thesis by (intro exI [of _ "2 ^ 52"]) (simp add: power_int_def)
  qed
  then obtain m where m: "q / 2 powi ulp_exp q = of_int m" by blast
  have "rnd_pos q = of_int m * 2 powi ulp_exp q" unfolding rnd_pos_def m half_even_of_int ..
  also have "\<dots> = q" using m by (simp add: nonzero_divide_eq_eq)
  finally show ?thesis .
qed

lemma dbl_of_exact:
  assumes "q = of_int n * 2 powi k" "\<bar>n\<bar> \<le> 2 ^ 53" "- 1074 \<le> k" "k \<le> 900"
  shows "dbl_of q = Fin q"
proof (cases "n = 0")
  case False
  have a: "\<bar>q\<bar> = of_int \<bar>n\<bar> * 2 powi k" unfolding assms(1) by (simp add: abs_mult)
  have r: "rnd_pos \<bar>q\<bar> = \<bar>q\<bar>" by (rule rnd_pos_exact [OF a]) (use False assms in auto)
  have "of_int \<bar>n\<bar> \<le> (of_int (2 ^ 53) :: rat)" using assms(2) by (simp only: of_int_le_iff)
  then have "\<bar>q\<bar> \<le> 2 powi 53 * 2 powi k" unfolding a by (intro mult_right_mono) (auto simp: power_int_def)
  also have "\<dots> = 2 powi (53 + k)" by (simp add: power_int_add)
  also have "\<dots> < 2 powi 1024" using assms(4) by (simp only: powi_less_iff)
  finally have "\<bar>q\<bar> < 2 ^ 1024" by (simp add: power_int_def)
  then show ?thesis using False assms(1) unfolding dbl_of_def Let_def r by (auto simp: abs_if)
qed (simp add: assms(1) dbl_of_def)

lemma dbl_of_int: "\<bar>n\<bar> \<le> 2 ^ 53 \<Longrightarrow> dbl_of (of_int n) = Fin (of_int n)"
  by (rule dbl_of_exact [of _ n 0]) auto

text \<open>In the range of the amounts the rounding is relative.\<close>

lemma dbl_of_rel:
  assumes "2 powi (- 1022) \<le> q" "q \<le> 2 ^ 900"
  obtains v where "dbl_of q = Fin v" "\<bar>v - q\<bar> \<le> q / 2 ^ 53"
proof -
  have q: "0 < q" using assms(1) by (rule less_le_trans [rotated]) simp
  have r: "\<bar>rnd_pos q - q\<bar> \<le> q / 2 ^ 53" by (rule rnd_pos_rel [OF assms(1)])
  have "rnd_pos q \<le> q + q / 2 ^ 53" using r by linarith
  also have "\<dots> \<le> 2 * q" using q by simp
  also have "\<dots> < 2 ^ 1024" using assms(2) by simp
  finally have "dbl_of q = Fin (rnd_pos q)" using q by (simp add: dbl_of_def Let_def)
  then show ?thesis using r that by blast
qed

subsection \<open>Arithmetic\<close>

text \<open>The product and the quotient with a positive constant, itself a double.\<close>

fun dmul :: "dbl \<Rightarrow> dbl \<Rightarrow> dbl" where
  "dmul (Fin a) (Fin c) = dbl_of (a * c)"
| "dmul PosInf (Fin c) = PosInf"
| "dmul NegInf (Fin c) = NegInf"
| "dmul _ _ = NotANumber"

fun ddiv :: "dbl \<Rightarrow> dbl \<Rightarrow> dbl" where
  "ddiv (Fin a) (Fin c) = dbl_of (a / c)"
| "ddiv PosInf (Fin c) = PosInf"
| "ddiv NegInf (Fin c) = NegInf"
| "ddiv _ _ = NotANumber"

definition pow10 :: "nat \<Rightarrow> dbl" where
  "pow10 d = dbl_of (10 ^ d)"

fun js_round :: "dbl \<Rightarrow> dbl" where
  "js_round (Fin q) = Fin (of_int \<lfloor>q + 1 / 2\<rfloor>)"
| "js_round x = x"

fun js_floor :: "dbl \<Rightarrow> dbl" where
  "js_floor (Fin q) = Fin (of_int \<lfloor>q\<rfloor>)"
| "js_floor x = x"

text \<open>\<open>x || 0\<close>, and comparison with zero.\<close>

fun or_zero :: "dbl \<Rightarrow> dbl" where
  "or_zero NotANumber = Fin 0"
| "or_zero x = x"

fun d_le :: "dbl \<Rightarrow> dbl \<Rightarrow> bool" where
  "d_le (Fin a) (Fin b) = (a \<le> b)"
| "d_le NotANumber _ = False"
| "d_le _ NotANumber = False"
| "d_le NegInf _ = True"
| "d_le _ PosInf = True"
| "d_le _ _ = False"

definition d_less :: "dbl \<Rightarrow> dbl \<Rightarrow> bool" where
  "d_less a b \<longleftrightarrow> d_le a b \<and> a \<noteq> b"

fun dadd :: "dbl \<Rightarrow> dbl \<Rightarrow> dbl" where
  "dadd (Fin a) (Fin b) = dbl_of (a + b)"
| "dadd NotANumber _ = NotANumber"
| "dadd _ NotANumber = NotANumber"
| "dadd PosInf NegInf = NotANumber"
| "dadd NegInf PosInf = NotANumber"
| "dadd PosInf _ = PosInf"
| "dadd _ PosInf = PosInf"
| "dadd NegInf _ = NegInf"
| "dadd _ NegInf = NegInf"

subsection \<open>Text\<close>

definition is_space :: "char \<Rightarrow> bool" where
  "is_space c \<longleftrightarrow> c \<in> {CHR 0x09, CHR 0x0A, CHR 0x0B, CHR 0x0C, CHR 0x0D, CHR '' ''}"

definition js_trimmed :: "string \<Rightarrow> string" where
  "js_trimmed s = rev (dropWhile is_space (rev (dropWhile is_space s)))"

definition is_dec :: "char \<Rightarrow> bool" where
  "is_dec c \<longleftrightarrow> 48 \<le> (of_char c :: nat) \<and> (of_char c :: nat) \<le> 57"

definition dec_val :: "string \<Rightarrow> nat" where
  "dec_val s = foldl (\<lambda>n c. 10 * n + (of_char c - 48)) 0 s"

text \<open>An exponent part, when the text starts with one, and the rest.\<close>

definition exponent_part :: "string \<Rightarrow> int \<times> string" where
  "exponent_part r =
     (case r of c # t \<Rightarrow>
        if c = CHR ''e'' \<or> c = CHR ''E'' then
          let neg = (t \<noteq> [] \<and> hd t = CHR ''-'');
              t' = (if t \<noteq> [] \<and> (hd t = CHR ''-'' \<or> hd t = CHR ''+'') then tl t else t);
              ds = takeWhile is_dec t' in
          if ds = [] then (0, r) else (if neg then - int (dec_val ds) else int (dec_val ds), dropWhile is_dec t')
        else (0, r)
      | [] \<Rightarrow> (0, r))"

definition unsigned_decimal :: "string \<Rightarrow> (rat \<times> string) option" where
  "unsigned_decimal s =
     (let ip = takeWhile is_dec s; r = dropWhile is_dec s;
          fp = (case r of c # t \<Rightarrow> if c = CHR ''.'' then takeWhile is_dec t else [] | [] \<Rightarrow> []);
          r' = (case r of c # t \<Rightarrow> if c = CHR ''.'' \<and> (ip \<noteq> [] \<or> fp \<noteq> []) then dropWhile is_dec t else r | [] \<Rightarrow> r)
      in if ip = [] \<and> fp = [] then None
         else let (e, r'') = exponent_part r' in
           Some (of_nat (dec_val (ip @ fp)) / 10 ^ length fp * 10 powi e, r''))"

definition signed_decimal :: "string \<Rightarrow> (dbl \<times> string) option" where
  "signed_decimal s =
     (let neg = (s \<noteq> [] \<and> hd s = CHR ''-'');
          t = (if s \<noteq> [] \<and> (hd s = CHR ''-'' \<or> hd s = CHR ''+'') then tl s else s) in
      if take 8 t = ''Infinity'' then Some (if neg then NegInf else PosInf, drop 8 t)
      else map_option (\<lambda>(q, r). (dbl_of (if neg then - q else q), r)) (unsigned_decimal t))"

definition parseFloat :: "string \<Rightarrow> dbl" where
  "parseFloat s = (case signed_decimal (dropWhile is_space s) of Some (x, _) \<Rightarrow> x | None \<Rightarrow> NotANumber)"

text \<open>\<open>Number(s)\<close>: the whole trimmed text, an empty one being 0; the prefixes of other radices included.\<close>

definition hex_val :: "char \<Rightarrow> nat" where
  "hex_val c =
     (let n = of_char c :: nat in
      if is_dec c then n - 48 else if 97 \<le> n \<and> n \<le> 102 then n - 87 else if 65 \<le> n \<and> n \<le> 70 then n - 55 else 99)"

definition radix_of :: "string \<Rightarrow> nat option" where
  "radix_of s =
     (if s \<in> {''0x'', ''0X''} then Some 16 else if s \<in> {''0o'', ''0O''} then Some 8
      else if s \<in> {''0b'', ''0B''} then Some 2 else None)"

definition js_Number :: "string \<Rightarrow> dbl" where
  "js_Number s =
     (let t = js_trimmed s in
      if t = [] then Fin 0
      else case radix_of (take 2 t) of
        Some b \<Rightarrow> (if drop 2 t \<noteq> [] \<and> list_all (\<lambda>c. hex_val c < b) (drop 2 t)
                   then dbl_of (of_nat (foldl (\<lambda>n c. b * n + hex_val c) 0 (drop 2 t))) else NotANumber)
      | None \<Rightarrow> (case signed_decimal t of Some (x, []) \<Rightarrow> x | _ \<Rightarrow> NotANumber))"

subsection \<open>Scaling an amount down and up again\<close>

text \<open>
  An amount of base units, shown in units of a power of ten and read back, is the same amount as long
  as it is below \<open>2 ^ 51\<close>: both roundings are relative, so together they move it by less than a half.
\<close>

lemma abs_leD2: "\<bar>x\<bar> \<le> y \<Longrightarrow> - y \<le> x" for x y :: rat
  by linarith

lemma tenth_below: "- e \<le> x - n \<Longrightarrow> e \<le> n / 2 \<Longrightarrow> 1 \<le> n \<Longrightarrow> 1 / 10 ^ 22 \<le> x" for e x n :: rat
proof -
  assume "- e \<le> x - n" "e \<le> n / 2" "1 \<le> n"
  then have "1 / 2 \<le> x" by linarith
  then show ?thesis by (rule order_trans [rotated]) simp
qed

lemma below_power: "x - n \<le> e \<Longrightarrow> e < 1 / 4 \<Longrightarrow> n \<le> p - 1 \<Longrightarrow> x < p" for e x n p :: rat
  by linarith

lemma floor_near:
  fixes x w e1 e2 :: rat
  assumes "\<bar>x - of_int n\<bar> \<le> e1" "\<bar>w - x\<bar> \<le> e2" "e1 < 1 / 4" "e2 < 1 / 4"
  shows "\<lfloor>w + 1 / 2\<rfloor> = n"
  using assms by linarith

lemma pow10_exact: "d \<le> 22 \<Longrightarrow> pow10 d = Fin (10 ^ d)"
proof -
  assume d: "d \<le> 22"
  have t: "(10 ^ d :: rat) = of_int (5 ^ d) * 2 powi int d" by (simp add: power_mult_distrib [symmetric])
  have "(5 :: int) ^ d \<le> 5 ^ 22" using d by (intro power_increasing) auto
  then show ?thesis unfolding pow10_def using d by (intro dbl_of_exact [OF t]) auto
qed

lemma scale_roundtrip:
  assumes "d \<le> 22" "0 \<le> n" "n < 2 ^ 51"
  shows "js_round (dmul (ddiv (Fin (of_int n)) (pow10 d)) (pow10 d)) = Fin (of_int n)"
proof (cases "n = 0")
  case False
  define c where "c = (10 ^ d :: rat)"
  have c: "1 \<le> c" "c \<le> 10 ^ 22" unfolding c_def using power_increasing [OF assms(1), of "10 :: rat"] by simp_all
  have N: "1 \<le> (of_int n :: rat)" "(of_int n :: rat) \<le> 2 ^ 51 - 1"
  proof -
    show "1 \<le> (of_int n :: rat)" using False assms(2) by simp
    have "n \<le> 2 ^ 51 - 1" using assms(3) by simp
    then have "(of_int n :: rat) \<le> of_int (2 ^ 51 - 1)" by (simp only: of_int_le_iff)
    then show "(of_int n :: rat) \<le> 2 ^ 51 - 1" by simp
  qed
  define a where "a = of_int n / c"
  have p: "pow10 d = Fin c" unfolding c_def by (rule pow10_exact [OF assms(1)])
  have lo: "2 powi (- 1022) \<le> (1 / 10 ^ 22 :: rat)" by (simp add: power_int_def field_simps)
  have a: "1 / 10 ^ 22 \<le> a" "a \<le> of_int n" unfolding a_def using N c by (auto intro: frac_le simp: divide_le_eq)
  have up: "(2 :: rat) ^ 52 \<le> 2 ^ 900" by (rule power_increasing) auto
  have a900: "a \<le> 2 ^ 900" by (rule order_trans [OF _ up]) (use a N in simp)
  obtain v where v: "dbl_of a = Fin v" "\<bar>v - a\<bar> \<le> a / 2 ^ 53"
    by (rule dbl_of_rel [OF _ a900]) (use a lo in linarith)
  have "\<bar>v * c - of_int n\<bar> = \<bar>v - a\<bar> * c" using c unfolding a_def by (simp add: abs_mult [symmetric] field_simps)
  also have "\<dots> \<le> a / 2 ^ 53 * c" using v(2) c by (intro mult_right_mono) auto
  also have "\<dots> = of_int n / 2 ^ 53" unfolding a_def using c by simp
  finally have vc: "\<bar>v * c - of_int n\<bar> \<le> of_int n / 2 ^ 53" .
  have "v * c \<le> of_int n + of_int n / 2 ^ 53" using order_trans [OF abs_ge_self vc] by linarith
  also have "\<dots> \<le> 2 * of_int n" using N(1) by simp
  also have "\<dots> \<le> 2 ^ 52" using N(2) by simp
  finally have v900: "v * c \<le> 2 ^ 900" using up by (rule order_trans)
  have half: "of_int n / 2 ^ 53 \<le> (of_int n / 2 :: rat)" using N(1) by simp
  have "- (of_int n / 2 ^ 53) \<le> v * c - of_int n" using vc by (rule abs_leD2)
  then have low: "1 / 10 ^ 22 \<le> v * c" using half N(1) by (rule tenth_below)
  obtain w where w: "dbl_of (v * c) = Fin w" "\<bar>w - v * c\<bar> \<le> v * c / 2 ^ 53"
    by (rule dbl_of_rel [OF _ v900]) (rule order_trans [OF lo low])
  have e1: "of_int n / 2 ^ 53 < (1 / 4 :: rat)" using N(2) by simp
  have "v * c < 2 ^ 51" by (rule below_power [OF order_trans [OF abs_ge_self vc] e1 N(2)])
  then have e2: "v * c / 2 ^ 53 < 1 / 4" by (simp add: mult.commute)
  have "\<lfloor>w + 1 / 2\<rfloor> = n" by (rule floor_near [OF vc w(2) e1 e2])
  then show ?thesis using v(1) w(1) unfolding p a_def by simp
qed (simp add: pow10_exact [OF assms(1)] dbl_of_def floor_eq_iff)

subsection \<open>Doubles past \<open>2 ^ 53\<close>\<close>

lemma half_even_le: "x \<le> of_int m \<Longrightarrow> half_even x \<le> m"
proof -
  assume x: "x \<le> of_int m"
  then have f: "\<lfloor>x\<rfloor> \<le> m" by linarith
  show ?thesis
  proof (cases "\<lfloor>x\<rfloor> = m")
    case True
    then have "x = of_int m" using x by linarith
    then show ?thesis by simp
  next
    case False
    then show ?thesis using f by (auto simp: half_even_def Let_def)
  qed
qed

lemma factor_above_one: "p < r \<Longrightarrow> r \<le> p * u \<Longrightarrow> 0 < p \<Longrightarrow> 1 < u" for p r u :: rat
  by (rule ccontr) (use mult_left_mono [of u 1 p] in \<open>simp only: not_less mult_1_right, linarith\<close>)

lemma rnd_pos_nonneg: "0 \<le> q \<Longrightarrow> 0 \<le> rnd_pos q"
proof -
  assume q: "0 \<le> q"
  have "0 \<le> \<lfloor>q / 2 powi ulp_exp q\<rfloor>" using q by simp
  then have "0 \<le> half_even (q / 2 powi ulp_exp q)" by (auto simp: half_even_def Let_def)
  then show ?thesis unfolding rnd_pos_def by simp
qed

lemma rnd_pos_even:
  assumes "0 < q" "2 ^ 53 < rnd_pos q"
  obtains k where "rnd_pos q = of_int (2 * k)"
proof -
  have "q < 2 powi (ilog2 q + 1)" by (rule ilog2_bounds [OF assms(1)])
  also have "\<dots> \<le> 2 powi (53 + ulp_exp q)" by (rule powi_mono) (simp add: ulp_exp_def)
  also have "\<dots> = 2 ^ 53 * 2 powi ulp_exp q" by (simp add: power_int_add)
  finally have "q / 2 powi ulp_exp q \<le> 2 ^ 53" by (simp add: divide_le_eq)
  then have h: "half_even (q / 2 powi ulp_exp q) \<le> 2 ^ 53" by (intro half_even_le) simp
  have "(of_int (half_even (q / 2 powi ulp_exp q)) :: rat) \<le> of_int (2 ^ 53)" using h by (simp only: of_int_le_iff)
  then have "rnd_pos q \<le> 2 ^ 53 * 2 powi ulp_exp q" unfolding rnd_pos_def by (intro mult_right_mono) auto
  then have "(1 :: rat) < 2 powi ulp_exp q" using assms(2) by (intro factor_above_one [of "2 ^ 53"]) auto
  then have u: "0 < ulp_exp q" using powi_less_iff [of 0 "ulp_exp q"] by simp
  then have "ulp_exp q = int (Suc (nat (ulp_exp q - 1)))" by simp
  then have "(2 powi ulp_exp q :: rat) = 2 * 2 ^ nat (ulp_exp q - 1)" by (metis power_Suc power_int_of_nat)
  then have "rnd_pos q = of_int (2 * (half_even (q / 2 powi ulp_exp q) * 2 ^ nat (ulp_exp q - 1)))" unfolding rnd_pos_def by simp
  then show ?thesis by (rule that)
qed

lemma floor_half: "\<lfloor>of_int n + 1 / 2 :: rat\<rfloor> = n"
  by linarith

text \<open>A rounded double above \<open>2 ^ 53\<close> is an even integer.\<close>

lemma dbl_of_even:
  assumes "dbl_of x = Fin q" "2 ^ 53 < q"
  shows "even \<lfloor>q + 1 / 2\<rfloor>" "\<lfloor>q + 1 / 2\<rfloor> = \<lfloor>q\<rfloor>"
proof -
  have x: "x \<noteq> 0" using assms by (auto simp: dbl_of_def)
  then have "q = rnd_pos \<bar>x\<bar> \<or> q = - rnd_pos \<bar>x\<bar>" using assms(1) by (auto simp: dbl_of_def Let_def split: if_splits)
  moreover have "0 < q" using assms(2) by (rule less_trans [rotated]) simp
  ultimately have q: "q = rnd_pos \<bar>x\<bar>" using rnd_pos_nonneg [of "\<bar>x\<bar>"] by auto
  obtain k where k: "q = of_int (2 * k)" using rnd_pos_even [of "\<bar>x\<bar>"] x assms(2) unfolding q by auto
  then show "even \<lfloor>q + 1 / 2\<rfloor>" "\<lfloor>q + 1 / 2\<rfloor> = \<lfloor>q\<rfloor>" unfolding k floor_half by (simp_all only: floor_of_int dvd_triv_left)
qed

end
