(* ===== verification/Rpc_View.thy ===== *)
theory Rpc_View
  imports Tx_Model
begin

text \<open>
  The chain as the RPC reports it. \<open>answers E R C\<close> says that whatever the connection \<open>R\<close> returns
  is the state \<open>C\<close>: a call may still fail, at any point, but it does not lie and the state does not
  move during one build. Every read of the service then yields a function of \<open>C\<close>. \<open>rpc_of\<close> is
  a connection that always answers; the concrete runs of the development use it.
\<close>

record chain =
  ch_info :: "pubkey \<Rightarrow> account_info option"
  ch_tokens :: "pubkey \<Rightarrow> pubkey \<Rightarrow> parsed_token option list"
  ch_balance :: "pubkey \<Rightarrow> int option"
  ch_rent :: "nat \<Rightarrow> int"
  ch_token_account :: "pubkey \<Rightarrow> token_account option"
  ch_mint :: "pubkey \<Rightarrow> mint_info option"

definition raw_at :: "chain \<Rightarrow> pubkey \<Rightarrow> acct option" where
  "raw_at C k = map_option acct.truncate (ch_info C k)"

definition answers :: "env \<Rightarrow> 'w rpc \<Rightarrow> chain \<Rightarrow> bool" where
  "answers E R C \<longleftrightarrow>
     (\<forall>k. yields (getAccountInfo R k) (\<lambda>i. i = ch_info C k))
     \<and> (\<forall>k. yields (anchorVaultConfig R k) (\<lambda>c. parseVaultConfig (raw_at C k) (program_id E) = Some c))
     \<and> (\<forall>k p. yields (getParsedTokenAccountsByOwner R k p) (\<lambda>ts. ts = ch_tokens C k p))
     \<and> (\<forall>k. yields (getTokenAccountBalance R k) (\<lambda>b. ch_balance C k = Some b))
     \<and> (\<forall>n. yields (getMinimumBalanceForRentExemption R n) (\<lambda>r. r = ch_rent C n))
     \<and> (\<forall>k p. yields (getAccount R k p) (\<lambda>a. ch_token_account C k = Some a))
     \<and> (\<forall>k p. yields (getMint R k p) (\<lambda>m. ch_mint C k = Some m))"

text \<open>The state as the service's reads see it.\<close>

definition vault_at :: "env \<Rightarrow> chain \<Rightarrow> pubkey \<Rightarrow> vault_config option" where
  "vault_at E C owner = parseVaultConfig (raw_at C (getVaultPDA E owner)) (program_id E)"

definition log_at :: "env \<Rightarrow> chain \<Rightarrow> pubkey \<Rightarrow> execution_log option" where
  "log_at E C owner = parseExecutionLog (raw_at C (getExecutionPDA E (getVaultPDA E owner))) (program_id E)"

definition plan_at :: "env \<Rightarrow> chain \<Rightarrow> pubkey \<Rightarrow> asset_plan option" where
  "plan_at E C owner = parseAssetPlan (raw_at C (getAssetPlanPDA E (getVaultPDA E owner))) (program_id E)"

definition dist_at :: "env \<Rightarrow> chain \<Rightarrow> pubkey \<Rightarrow> pubkey \<Rightarrow> token_dist option" where
  "dist_at E C owner mint = parseTokenDist (raw_at C (getTokenDistPDA E (getVaultPDA E owner) mint)) (program_id E)"

definition token_program_at :: "env \<Rightarrow> chain \<Rightarrow> pubkey \<Rightarrow> pubkey" where
  "token_program_at E C mint =
     (case ch_info C mint of
        Some i \<Rightarrow> if acc_owner i = token_2022_program E then token_2022_program E else token_program E
      | None \<Rightarrow> token_program E)"

definition tokens_at :: "env \<Rightarrow> chain \<Rightarrow> pubkey \<Rightarrow> parsed_token list" where
  "tokens_at E C vaultPda =
     keep_balances (ch_tokens C vaultPda (token_program E)) @ keep_balances (ch_tokens C vaultPda (token_2022_program E))"

lemma yields_info: "answers E R C \<Longrightarrow> yields (getAccountInfo R k) (\<lambda>i. i = ch_info C k)"
  by (simp add: answers_def)

lemma yields_rawInfo: "answers E R C \<Longrightarrow> yields (rawInfo R k) (\<lambda>i. i = raw_at C k)"
  unfolding rawInfo_def by (rule yields_bindE [OF yields_info]) (assumption, simp add: yields_ret raw_at_def)

lemma yields_accountExists: "answers E R C \<Longrightarrow> yields (accountExists R k) (\<lambda>b. b = (ch_info C k \<noteq> None))"
  unfolding accountExists_def by (rule yields_bindE [OF yields_info]) (assumption, simp add: yields_ret)

lemma yields_tokenProgram: "answers E R C \<Longrightarrow> yields (getTokenProgramForMint E R m) (\<lambda>p. p = token_program_at E C m)"
  unfolding getTokenProgramForMint_def
  by (rule yields_bindE [OF yields_info]) (assumption, auto intro!: yields_ret simp: token_program_at_def split: option.splits)

lemma yields_raw_parse: "answers E R C \<Longrightarrow> yields (bindE (rawInfo R k) (\<lambda>i. ret (f i))) (\<lambda>r. r = f (raw_at C k))"
  by (rule yields_bindE [OF yields_rawInfo]) (assumption, simp add: yields_ret)

lemma yields_fetchExecutionLog: "answers E R C \<Longrightarrow> yields (fetchExecutionLog E R owner) (\<lambda>l. l = log_at E C owner)"
  unfolding fetchExecutionLog_def parseExecutionLogRaw_eq log_at_def
  by (rule yields_raw_parse [where f = "\<lambda>i. parseExecutionLog i (program_id E)"])

lemma yields_fetchAssetPlan: "answers E R C \<Longrightarrow> yields (fetchAssetPlan E R owner) (\<lambda>l. l = plan_at E C owner)"
  unfolding fetchAssetPlan_def parseAssetPlanRaw_eq plan_at_def
  by (rule yields_raw_parse [where f = "\<lambda>i. parseAssetPlan i (program_id E)"])

lemma yields_fetchTokenDist: "answers E R C \<Longrightarrow> yields (fetchTokenDist E R owner m) (\<lambda>l. l = dist_at E C owner m)"
  unfolding fetchTokenDist_def parseTokenDistRaw_eq dist_at_def
  by (rule yields_raw_parse [where f = "\<lambda>i. parseTokenDist i (program_id E)"])

text \<open>A failed read of the vault is reported as no vault.\<close>

lemma yields_fetchVaultConfig:
  "answers E R C \<Longrightarrow> yields (fetchVaultConfig E R owner) (\<lambda>c. c = None \<or> c = vault_at E C owner)"
proof -
  assume ans: "answers E R C"
  have a: "yields (anchorVaultConfig R k) (\<lambda>c. parseVaultConfig (raw_at C k) (program_id E) = Some c)" for k
    using ans by (simp add: answers_def)
  have "yields (bindE (rawInfo R (getVaultPDA E owner)) (\<lambda>i. ret (parseVaultConfig i (program_id E))))
      (\<lambda>c. c = None \<or> c = vault_at E C owner)"
    by (rule yields_mono [OF yields_raw_parse [OF ans, where f = "\<lambda>i. parseVaultConfig i (program_id E)"]])
      (simp add: vault_at_def)
  then show ?thesis
    unfolding fetchVaultConfig_def Let_def parseVaultConfigRaw_eq
    by (intro yields_tryE yields_bindE [OF a] yields_ret) (simp_all add: vault_at_def)
qed

lemma yields_balances: "answers E R C \<Longrightarrow> yields (getVaultTokenBalances E R v) (\<lambda>ts. ts = tokens_at E C v)"
proof -
  assume ans: "answers E R C"
  have t: "yields (getParsedTokenAccountsByOwner R k p) (\<lambda>ts. ts = ch_tokens C k p)" for k p
    using ans by (simp add: answers_def)
  show ?thesis
    unfolding getVaultTokenBalances_def forE.simps
    by (intro yields_bindE [where P = "\<lambda>r. r = keep_balances (ch_tokens C v (token_program E))"]
        yields_bindE [where P = "\<lambda>r. r = tokens_at E C v"] yields_bindE [OF t] yields_ret)
      (simp_all add: tokens_at_def)
qed

subsection \<open>A connection that answers\<close>

definition rpc_of :: "env \<Rightarrow> chain \<Rightarrow> unit rpc" where
  "rpc_of E C =
     \<lparr>getAccountInfo = (\<lambda>k. ret (ch_info C k)),
      anchorVaultConfig = (\<lambda>k. throw (External 1)),
      getParsedTokenAccountsByOwner = (\<lambda>k p. ret (ch_tokens C k p)),
      getMint = (\<lambda>k p. case ch_mint C k of Some m \<Rightarrow> ret m | None \<Rightarrow> throw (External 2)),
      getAccount = (\<lambda>k p. case ch_token_account C k of Some a \<Rightarrow> ret a | None \<Rightarrow> throw (External 3)),
      getTokenAccountBalance = (\<lambda>k. case ch_balance C k of Some a \<Rightarrow> ret a | None \<Rightarrow> throw (External 4)),
      getMinimumBalanceForRentExemption = (\<lambda>n. ret (ch_rent C n)),
      getBalance = (\<lambda>k. ret (case ch_info C k of Some i \<Rightarrow> acc_lamports i | None \<Rightarrow> 0)),
      getLatestBlockhash = ret \<lparr>blockhash = ''hash'', lastValidBlockHeight = 150\<rparr>,
      sendRawTransaction = (\<lambda>t. ret ''signature''),
      confirmTransaction = (\<lambda>s b. ret ()),
      getHeliusApiKey = (\<lambda>_. []),
      getRpcUrl = (\<lambda>_. ''https://rpc''),
      rpc_net = \<lparr>fetch = (\<lambda>_. throw (External 5)), sleep_ms = (\<lambda>_. ret ()), random01 = ret 0,
                  stringify = (\<lambda>_. []), set_rate_limited = id\<rparr>\<rparr>"

lemma rpc_of_answers: "answers E (rpc_of E C) C"
  by (auto simp: answers_def rpc_of_def intro!: yields_ret yields_throw split: option.splits)

end
