(* ===== verification/App_Claim.thy ===== *)
theory App_Claim
  imports Srv_Exec_Props Crank_Tx Rpc_View
begin

text \<open>
  An heir's claim as the application runs it (\<open>services/ClaimService.ts\<close>): the passes over the
  transactions built from the live accounts, each signed by the heir's wallet and sent, and the final
  closing of the distributions. The builders are those of \<open>VaultTransactionService\<close>; the wallet, the
  block time and the progress callback are parameters.
\<close>

subsection \<open>The service\<close>

record claim_world =
  cw_running :: bool

record 'w claim_deps =
  cd_env :: env
  cd_rpc :: "'w rpc"
  cd_blockTime :: "('w, int option) io"
  cd_sign :: "signed_tx \<Rightarrow> ('w, signed_tx) io"
  cd_progress :: "string \<Rightarrow> nat \<Rightarrow> nat \<Rightarrow> ('w, unit) io"

definition MAX_PASSES :: nat where "MAX_PASSES = 10"

definition unsigned_for :: "pubkey \<Rightarrow> tx \<Rightarrow> block \<Rightarrow> signed_tx" where
  "unsigned_for heir t bh = \<lparr>st_ixs = t, st_feePayer = heir, st_blockhash = blockhash bh, st_signers = []\<rparr>"

definition signOnly :: "'w claim_deps \<Rightarrow> tx \<Rightarrow> pubkey \<Rightarrow> ('w, signed_tx \<times> block) io" where
  "signOnly D t heir =
     bindE (getLatestBlockhash (cd_rpc D)) (\<lambda>bh.
     bindE (cd_sign D (unsigned_for heir t bh)) (\<lambda>s. ret (s, bh)))"

definition sendConfirm :: "'w claim_deps \<Rightarrow> signed_tx \<times> block \<Rightarrow> ('w, string) io" where
  "sendConfirm D sb =
     bindE (sendRawTransaction (cd_rpc D) (fst sb)) (\<lambda>sig.
     seqE (confirmTransaction (cd_rpc D) sig (snd sb)) (ret sig))"

text \<open>The locals of the loop: \<open>i\<close>, \<open>progressed\<close> and \<open>firstSendError\<close>.\<close>

record claim_state =
  cs_i :: nat
  cs_progressed :: nat
  cs_error :: "exn option"

definition claim_step :: "'w claim_deps \<Rightarrow> pubkey \<Rightarrow> nat \<Rightarrow> labelled \<Rightarrow> claim_state \<Rightarrow> ('w, claim_state) io" where
  "claim_step D heir n lt st =
     seqE (cd_progress D (fst lt) (cs_i st) (cs_i st + n)) (
     bindE (signOnly D (snd lt) heir) (\<lambda>s.
     tryE
       (seqE (sendConfirm D s) (ret (st\<lparr>cs_i := cs_i st + 1, cs_progressed := cs_progressed st + 1\<rparr>)))
       (\<lambda>e. ret (if cs_error st = None then st\<lparr>cs_error := Some e\<rparr> else st))))"

fun claim_passes :: "'w claim_deps \<Rightarrow> pubkey \<Rightarrow> pubkey \<Rightarrow> nat \<Rightarrow> labelled list \<Rightarrow> claim_state \<Rightarrow> ('w, claim_state) io" where
  "claim_passes D owner heir 0 pass st = ret st"
| "claim_passes D owner heir (Suc p) pass st =
     (if pass = [] then ret st
      else bindE (forE pass (st\<lparr>cs_progressed := 0\<rparr>) (claim_step D heir (length pass))) (\<lambda>st.
        if cs_progressed st = 0 then ret st
        else bindE (buildClaimTransactions (cd_env D) (cd_rpc D) heir owner) (\<lambda>pass. claim_passes D owner heir p pass st)))"

text \<open>One close after the other; a failing callback ends the cleanup, a failing close does not.\<close>

fun claim_closes :: "'w claim_deps \<Rightarrow> pubkey \<Rightarrow> nat \<Rightarrow> labelled list \<Rightarrow> nat \<Rightarrow> ('w, nat) io" where
  "claim_closes D heir n [] i = ret i"
| "claim_closes D heir n ((label, t) # closes) i =
     bindE (tryE (seqE (cd_progress D label i (i + n)) (ret True)) (\<lambda>_. ret False)) (\<lambda>ok.
     if \<not> ok then ret i
     else bindE (tryE (bindE (signOnly D t heir) (\<lambda>s. seqE (sendConfirm D s) (ret (i + 1)))) (\<lambda>_. ret i))
       (claim_closes D heir n closes))"

definition claim_cleanup :: "'w claim_deps \<Rightarrow> pubkey \<Rightarrow> pubkey \<Rightarrow> nat \<Rightarrow> ('w, nat) io" where
  "claim_cleanup D owner heir i =
     bindE (tryE (buildCloseTokenDistTransactions (cd_env D) (cd_rpc D) heir owner) (\<lambda>_. ret [])) (\<lambda>closes.
     claim_closes D heir (length closes) closes i)"

definition not_claimable :: exn where
  "not_claimable = Error (''This estate is not claimable yet '' @ [CHR 0xE2, CHR 0x80, CHR 0x94] @ '' the owner is still active.'')"

definition grace_check :: "'w claim_deps \<Rightarrow> pubkey \<Rightarrow> ('w, unit) io" where
  "grace_check D owner =
     bindE (getOnChainDeadline (cd_env D) (cd_rpc D) owner) (\<lambda>deadline.
     case deadline of
       None \<Rightarrow> ret ()
     | Some d \<Rightarrow> bindE (cd_blockTime D) (\<lambda>blockTime.
         case blockTime of None \<Rightarrow> ret () | Some t \<Rightarrow> if t < d then throw not_claimable else ret ()))"

definition claim_body :: "'w claim_deps \<Rightarrow> pubkey \<Rightarrow> pubkey \<Rightarrow> ('w, nat) io" where
  "claim_body D owner heir =
     seqE (grace_check D owner) (
     bindE (buildClaimTransactions (cd_env D) (cd_rpc D) heir owner) (\<lambda>firstPass.
     if firstPass = [] then throw (Error ''This estate has already been distributed.'')
     else
     bindE (claim_passes D owner heir MAX_PASSES firstPass \<lparr>cs_i = 0, cs_progressed = 0, cs_error = None\<rparr>) (\<lambda>st.
     case cs_error st of
       Some e \<Rightarrow> if cs_i st = 0 then throw e else claim_cleanup D owner heir (cs_i st)
     | None \<Rightarrow> claim_cleanup D owner heir (cs_i st))))"

definition runClaim :: "('e claim_world_scheme) claim_deps \<Rightarrow> pubkey \<Rightarrow> pubkey \<Rightarrow> ('e claim_world_scheme, nat) io" where
  "runClaim D owner heir =
     bindE (gets cw_running) (\<lambda>busy.
     if busy then throw (Error ''A claim is already in progress.'')
     else
     seqE (modify (\<lambda>w. w\<lparr>cw_running := True\<rparr>))
       (finallyE (claim_body D owner heir) (\<lambda>w. w\<lparr>cw_running := False\<rparr>)))"

subsection \<open>What an heir's wallet is asked to sign\<close>

text \<open>The grace period was not known to be running when the claim began.\<close>

definition grace_passed :: "'w claim_deps \<Rightarrow> pubkey \<Rightarrow> bool" where
  "grace_passed D owner \<longleftrightarrow>
     answered (getOnChainDeadline (cd_env D) (cd_rpc D) owner) (\<lambda>d. case d of None \<Rightarrow> True
       | Some d \<Rightarrow> answered (cd_blockTime D) (\<lambda>t. case t of None \<Rightarrow> True | Some t \<Rightarrow> d \<le> t))"

definition built_for :: "'w claim_deps \<Rightarrow> pubkey \<Rightarrow> pubkey \<Rightarrow> tx \<Rightarrow> bool" where
  "built_for D owner heir t \<longleftrightarrow>
     answered (buildClaimTransactions (cd_env D) (cd_rpc D) heir owner) (\<lambda>xs. t \<in> snd ` set xs)
     \<or> answered (buildCloseTokenDistTransactions (cd_env D) (cd_rpc D) heir owner) (\<lambda>xs. t \<in> snd ` set xs)"

text \<open>Reads and the callback preserve \<open>I\<close>.\<close>

definition claim_reads :: "('w \<Rightarrow> bool) \<Rightarrow> 'w claim_deps \<Rightarrow> pubkey \<Rightarrow> pubkey \<Rightarrow> bool" where
  "claim_reads I D owner heir \<longleftrightarrow>
     preserves I (getOnChainDeadline (cd_env D) (cd_rpc D) owner) \<and> preserves I (cd_blockTime D)
     \<and> preserves I (buildClaimTransactions (cd_env D) (cd_rpc D) heir owner)
     \<and> preserves I (buildCloseTokenDistTransactions (cd_env D) (cd_rpc D) heir owner)
     \<and> (\<forall>l i n. preserves I (cd_progress D l i n)) \<and> preserves I (getLatestBlockhash (cd_rpc D))"

text \<open>
  The wallet may be asked for a transaction that was built for this claim, with the heir paying, and
  what it returned for that may be sent and waited for.
\<close>

definition claim_signs :: "('w \<Rightarrow> bool) \<Rightarrow> 'w claim_deps \<Rightarrow> pubkey \<Rightarrow> pubkey \<Rightarrow> bool" where
  "claim_signs I D owner heir \<longleftrightarrow>
     (\<forall>t bh. grace_passed D owner \<longrightarrow> built_for D owner heir t \<longrightarrow>
        preserves I (cd_sign D (unsigned_for heir t bh))
        \<and> (\<forall>s. answered (cd_sign D (unsigned_for heir t bh)) (\<lambda>x. x = s) \<longrightarrow> preserves I (sendRawTransaction (cd_rpc D) s)))
     \<and> (\<forall>sig bh. preserves I (confirmTransaction (cd_rpc D) sig bh))"

lemma answered_tryE:
  assumes "answered (tryE m h) (\<lambda>x. x = b)"
  shows "answered m (\<lambda>x. x = b) \<or> (\<exists>e. answered (h e) (\<lambda>x. x = b))"
proof -
  obtain u u' where run: "tryE m h u = (Inr b, u')" using assms unfolding answered_def by blast
  obtain r v where m: "m u = (r, v)" by fastforce
  show ?thesis using run m unfolding answered_def by (cases r) (auto simp: tryE_def)
qed

lemma signed_preserves:
  assumes "claim_reads I D owner heir" "claim_signs I D owner heir" "grace_passed D owner" "built_for D owner heir t"
  shows "preserves I (signOnly D t heir)" "answered (signOnly D t heir) (\<lambda>x. x = s) \<Longrightarrow> preserves I (sendConfirm D s)"
proof -
  show "preserves I (signOnly D t heir)" unfolding signOnly_def
    using assms by (intro preserves_bindE preserves_intro) (auto simp: claim_reads_def claim_signs_def)
  assume "answered (signOnly D t heir) (\<lambda>x. x = s)"
  then obtain bh where "answered (cd_sign D (unsigned_for heir t bh)) (\<lambda>x. x = fst s)"
    unfolding signOnly_def by (auto elim!: answered_bindE)
  then show "preserves I (sendConfirm D s)" unfolding sendConfirm_def
    using assms by (intro preserves_bindE preserves_intro) (auto simp: claim_signs_def)
qed

lemma passes_preserve:
  assumes "claim_reads I D owner heir" "claim_signs I D owner heir" "grace_passed D owner"
  shows "answered (buildClaimTransactions (cd_env D) (cd_rpc D) heir owner) (\<lambda>x. x = pass) \<Longrightarrow> preserves I (claim_passes D owner heir p pass st)"
proof (induction p arbitrary: pass st)
  case (Suc p)
  have b: "built_for D owner heir (snd lt)" if "lt \<in> set pass" for lt
    unfolding built_for_def using that by (intro disjI1 answered_mono [OF Suc.prems]) auto
  have "preserves I (claim_step D heir n lt s)" if "lt \<in> set pass" for n lt s
    unfolding claim_step_def using assms(1) signed_preserves [OF assms b [OF that]]
    by (intro preserves_bindE preserves_intro) (auto simp: claim_reads_def)
  then show ?case
    unfolding claim_passes.simps using assms(1)
    by (intro preserves_if preserves_ret preserves_bindE preserves_forE Suc.IH) (auto simp: claim_reads_def)
qed (simp add: preserves_ret)

lemma closes_preserve:
  assumes "claim_reads I D owner heir" "claim_signs I D owner heir" "grace_passed D owner"
  shows "\<forall>lt \<in> set closes. built_for D owner heir (snd lt) \<Longrightarrow> preserves I (claim_closes D heir n closes i)"
proof (induction closes arbitrary: i)
  case (Cons lt closes)
  obtain l t where lt: "lt = (l, t)" by fastforce
  have "preserves I (cd_progress D l i k)" for k using assms(1) by (simp add: claim_reads_def)
  moreover have "built_for D owner heir t" using Cons.prems lt by simp
  ultimately show ?case unfolding lt claim_closes.simps
    using signed_preserves [OF assms] Cons by (intro preserves_bindE preserves_intro) auto
qed (simp add: preserves_ret)

lemma grace_check_passed:
  assumes "answered (grace_check D owner) (\<lambda>x. x = u)"
  shows "grace_passed D owner"
proof -
  obtain d where d: "answered (getOnChainDeadline (cd_env D) (cd_rpc D) owner) (\<lambda>x. x = d)"
    "answered (case d of None \<Rightarrow> ret () | Some d \<Rightarrow> bindE (cd_blockTime D) (\<lambda>blockTime.
         case blockTime of None \<Rightarrow> ret () | Some t \<Rightarrow> if t < d then throw not_claimable else ret ())) (\<lambda>x. x = u)"
    using assms unfolding grace_check_def by (rule answered_bindE)
  have "case d of None \<Rightarrow> True | Some d \<Rightarrow> answered (cd_blockTime D) (\<lambda>t. case t of None \<Rightarrow> True | Some t \<Rightarrow> d \<le> t)"
  proof (cases d)
    case (Some k)
    obtain t where t: "answered (cd_blockTime D) (\<lambda>x. x = t)"
      "answered ((case t of None \<Rightarrow> ret () | Some t \<Rightarrow> if t < k then throw not_claimable else ret ()) :: ('a, unit) io) (\<lambda>x. x = u)"
      using d(2) unfolding Some option.case by (rule answered_bindE)
    have "answered (cd_blockTime D) (\<lambda>t. case t of None \<Rightarrow> True | Some t \<Rightarrow> k \<le> t)"
      by (rule answered_mono [OF t(1)]) (use t(2) in \<open>auto split: option.splits if_splits\<close>)
    then show ?thesis by (simp add: Some)
  qed simp
  with d(1) show ?thesis unfolding grace_passed_def by (blast intro: answered_mono)
qed

lemma claim_preserves:
  assumes "claim_reads I D owner heir" "claim_signs I D owner heir" "\<And>w b. I (w\<lparr>cw_running := b\<rparr>) = I w"
  shows "preserves I (runClaim D owner heir)"
proof -
  have chk: "preserves I (grace_check D owner)"
    unfolding grace_check_def using assms(1) by (intro preserves_bindE preserves_intro) (auto simp: claim_reads_def)
  have close: "preserves I (claim_cleanup D owner heir i)" if g: "grace_passed D owner" for i
    unfolding claim_cleanup_def
  proof (rule preserves_bindE)
    show "preserves I (tryE (buildCloseTokenDistTransactions (cd_env D) (cd_rpc D) heir owner) (\<lambda>_. ret []))"
      using assms(1) by (intro preserves_intro) (simp add: claim_reads_def)
    fix closes
    assume c: "answered (tryE (buildCloseTokenDistTransactions (cd_env D) (cd_rpc D) heir owner) (\<lambda>_. ret [])) (\<lambda>x. x = closes)"
    have "closes = [] \<or> answered (buildCloseTokenDistTransactions (cd_env D) (cd_rpc D) heir owner) (\<lambda>x. x = closes)"
      using answered_tryE [OF c] by auto
    then have "\<forall>lt \<in> set closes. built_for D owner heir (snd lt)"
      unfolding built_for_def by (elim disjE, simp) (intro ballI disjI2, erule answered_mono, simp)
    then show "preserves I (claim_closes D heir (length closes) closes i)" by (rule closes_preserve [OF assms(1,2) g])
  qed
  have "preserves I (claim_body D owner heir)"
    unfolding claim_body_def
  proof (rule preserves_bindE [OF chk])
    fix u assume "answered (grace_check D owner) (\<lambda>x. x = u)"
    then have g: "grace_passed D owner" by (rule grace_check_passed)
    show "preserves I (bindE (buildClaimTransactions (cd_env D) (cd_rpc D) heir owner) (\<lambda>firstPass.
     if firstPass = [] then throw (Error ''This estate has already been distributed.'')
     else
     bindE (claim_passes D owner heir MAX_PASSES firstPass \<lparr>cs_i = 0, cs_progressed = 0, cs_error = None\<rparr>) (\<lambda>st.
     case cs_error st of
       Some e \<Rightarrow> if cs_i st = 0 then throw e else claim_cleanup D owner heir (cs_i st)
     | None \<Rightarrow> claim_cleanup D owner heir (cs_i st))))"
      using assms(1) close [OF g] passes_preserve [OF assms(1,2) g]
      by (intro preserves_bindE preserves_intro) (auto simp: claim_reads_def)
  qed
  then show ?thesis unfolding runClaim_def
    by (intro preserves_bindE preserves_if preserves_gets preserves_throw preserves_modify preserves_finallyE) (simp_all add: assms(3))
qed

subsection \<open>What it reports\<close>

lemma keeps_wp:
  assumes "\<And>x. preserves (\<lambda>w. c w = x) m" "c w = k"
  shows "wp m (\<lambda>_ v. c v = k) (\<lambda>_ v. c v = k) w"
  using assms(1) [of k] assms(2) by (auto simp: preserves_def wp_def split: prod.split sum.split)

text \<open>The counter \<open>c\<close> of confirmed transactions: only a send that is confirmed moves it.\<close>

definition counts_confirmed :: "('w \<Rightarrow> nat) \<Rightarrow> 'w claim_deps \<Rightarrow> pubkey \<Rightarrow> pubkey \<Rightarrow> bool" where
  "counts_confirmed c D owner heir \<longleftrightarrow>
     (\<forall>x. claim_reads (\<lambda>w. c w = x) D owner heir) \<and> (\<forall>x s. preserves (\<lambda>w. c w = x) (cd_sign D s))
     \<and> (\<forall>s w. wp (sendConfirm D s) (\<lambda>_ v. c v = c w + 1) (\<lambda>_ v. c v = c w) w)"

lemma counted:
  assumes "counts_confirmed c D owner heir" "c w = k"
  shows "wp (cd_progress D l i n) (\<lambda>_ v. c v = k) (\<lambda>_ v. c v = k) w" "wp (signOnly D t heir) (\<lambda>_ v. c v = k) (\<lambda>_ v. c v = k) w"
    "wp (buildClaimTransactions (cd_env D) (cd_rpc D) heir owner) (\<lambda>_ v. c v = k) (\<lambda>_ v. c v = k) w"
    "wp (buildCloseTokenDistTransactions (cd_env D) (cd_rpc D) heir owner) (\<lambda>_ v. c v = k) (\<lambda>_ v. c v = k) w"
    "wp (sendConfirm D s) (\<lambda>_ v. c v = k + 1) (\<lambda>_ v. c v = k) w" "wp (grace_check D owner) (\<lambda>_ v. c v = k) (\<lambda>_ v. c v = k) w"
proof -
  have "preserves (\<lambda>w. c w = x) (signOnly D t heir)" for x unfolding signOnly_def
    using assms by (intro preserves_bindE preserves_intro) (auto simp: counts_confirmed_def claim_reads_def)
  then show "wp (signOnly D t heir) (\<lambda>_ v. c v = k) (\<lambda>_ v. c v = k) w" using assms(2) by (rule keeps_wp)
  have "preserves (\<lambda>w. c w = x) (grace_check D owner)" for x unfolding grace_check_def
    using assms by (intro preserves_bindE preserves_intro) (auto simp: counts_confirmed_def claim_reads_def)
  then show "wp (grace_check D owner) (\<lambda>_ v. c v = k) (\<lambda>_ v. c v = k) w" using assms(2) by (rule keeps_wp)
  show "wp (sendConfirm D s) (\<lambda>_ v. c v = k + 1) (\<lambda>_ v. c v = k) w" using assms unfolding counts_confirmed_def by metis
qed (use assms in \<open>auto simp: counts_confirmed_def claim_reads_def intro!: keeps_wp\<close>)

lemma counted_from:
  assumes "wp m (\<lambda>_ v. c v = k) (\<lambda>_ v. c v = k) w" "\<And>a v. c v = k \<Longrightarrow> wp (f a) Q E v" "\<And>e v. c v = k \<Longrightarrow> E e v"
  shows "wp (bindE m f) Q E w"
  unfolding wp_bindE by (rule wp_mono [OF assms(1)]) (use assms in auto)

text \<open>From \<open>k\<close> confirmed at the start, a part of the claim that counts \<open>i\<close> ends.\<close>

abbreviation reported :: "('w \<Rightarrow> nat) \<Rightarrow> nat \<Rightarrow> ('w, nat) io \<Rightarrow> 'w \<Rightarrow> bool" where
  "reported c k m w \<equiv> wp m (\<lambda>i v. c v = k + i) (\<lambda>_ v. k \<le> c v) w"

lemma step_counted:
  assumes "counts_confirmed c D owner heir" "c w = k + cs_i st"
  shows "wp (claim_step D heir n lt st) (\<lambda>st' v. c v = k + cs_i st') (\<lambda>_ v. k \<le> c v) w"
  unfolding claim_step_def
proof (rule counted_from [where k = "k + cs_i st"])
  fix a v assume v: "c v = k + cs_i st"
  show "wp (bindE (signOnly D (snd lt) heir) (\<lambda>s. tryE (seqE (sendConfirm D s) (ret (st\<lparr>cs_i := cs_i st + 1, cs_progressed := cs_progressed st + 1\<rparr>)))
       (\<lambda>e. ret (if cs_error st = None then st\<lparr>cs_error := Some e\<rparr> else st)))) (\<lambda>st' v. c v = k + cs_i st') (\<lambda>_ v. k \<le> c v) v"
  proof (rule counted_from [where k = "k + cs_i st"])
    fix s u assume u: "c u = k + cs_i st"
    show "wp (tryE (seqE (sendConfirm D s) (ret (st\<lparr>cs_i := cs_i st + 1, cs_progressed := cs_progressed st + 1\<rparr>)))
       (\<lambda>e. ret (if cs_error st = None then st\<lparr>cs_error := Some e\<rparr> else st))) (\<lambda>st' v. c v = k + cs_i st') (\<lambda>_ v. k \<le> c v) u"
      unfolding wp_tryE wp_bindE wp_ret
      by (rule wp_mono [OF counted(5) [OF assms(1) u]]) auto
  qed (use counted(2) [OF assms(1) v] in auto)
qed (use counted(1) [OF assms] in auto)

lemma passes_counted:
  assumes "counts_confirmed c D owner heir" "c w = k + cs_i st"
  shows "wp (claim_passes D owner heir p pass st) (\<lambda>st' v. c v = k + cs_i st') (\<lambda>_ v. k \<le> c v) w"
  using assms(2)
proof (induction p arbitrary: pass st w)
  case (Suc p)
  have loop: "wp (forE pass (st\<lparr>cs_progressed := 0\<rparr>) (claim_step D heir (length pass))) (\<lambda>st' v. c v = k + cs_i st') (\<lambda>_ v. k \<le> c v) w"
    by (rule wp_forE [where I = "\<lambda>_ st v. c v = k + cs_i st"]) (use Suc.prems step_counted [OF assms(1)] in auto)
  have again: "wp (bindE (buildClaimTransactions (cd_env D) (cd_rpc D) heir owner) (\<lambda>pass. claim_passes D owner heir p pass st'))
      (\<lambda>st' v. c v = k + cs_i st') (\<lambda>_ v. k \<le> c v) v" if v: "c v = k + cs_i st'" for st' v
    by (rule counted_from [OF counted(3) [OF assms(1) v]]) (use Suc.IH in auto)
  show ?case
  proof (cases "pass = []")
    case False
    have "claim_passes D owner heir (Suc p) pass st = bindE (forE pass (st\<lparr>cs_progressed := 0\<rparr>) (claim_step D heir (length pass)))
      (\<lambda>st. if cs_progressed st = 0 then ret st
         else bindE (buildClaimTransactions (cd_env D) (cd_rpc D) heir owner) (\<lambda>pass. claim_passes D owner heir p pass st))"
      using False by simp
    then show ?thesis
      by (simp only: wp_bindE) (rule wp_mono [OF loop]; auto simp: wp_ret again [unfolded wp_bindE] wp_bindE)
  qed (use Suc.prems in \<open>simp add: wp_ret\<close>)
qed (simp add: wp_ret)

lemma close_counted:
  assumes "counts_confirmed c D owner heir" "c w = k + i"
  shows "reported c k (tryE (bindE (signOnly D t heir) (\<lambda>s. seqE (sendConfirm D s) (ret (i + 1)))) (\<lambda>_. ret i)) w"
  unfolding wp_tryE
proof (rule counted_from [OF counted(2) [OF assms]])
  fix s u assume u: "c u = k + i"
  show "wp (seqE (sendConfirm D s) (ret (i + 1))) (\<lambda>i v. c v = k + i) (\<lambda>e. reported c k (ret i)) u"
    unfolding wp_bindE wp_ret by (rule wp_mono [OF counted(5) [OF assms(1) u]]) (auto simp: wp_ret)
qed (simp add: wp_ret)

lemma closes_counted:
  assumes "counts_confirmed c D owner heir" "c w = k + i"
  shows "reported c k (claim_closes D heir n closes i) w"
  using assms(2)
proof (induction closes arbitrary: i w)
  case (Cons lt closes)
  obtain l t where lt: "lt = (l, t)" by fastforce
  have rest: "reported c k (bindE (tryE (bindE (signOnly D t heir) (\<lambda>s. seqE (sendConfirm D s) (ret (i + 1)))) (\<lambda>_. ret i)) (claim_closes D heir n closes)) v"
    if "c v = k + i" for v
    unfolding wp_bindE [of _ "claim_closes D heir n closes"] by (rule wp_mono [OF close_counted [OF assms(1) that]]) (use Cons.IH in auto)
  show ?case
    unfolding lt claim_closes.simps wp_bindE [of "tryE _ _"] wp_tryE [of "seqE _ _"] wp_bindE [of "cd_progress D l i (i + n)"] wp_ret
    by (rule wp_mono [OF counted(1) [OF assms(1) Cons.prems]]) (use rest in \<open>auto simp: wp_ret\<close>)
qed (simp add: wp_ret)

lemma cleanup_counted:
  assumes "counts_confirmed c D owner heir" "c w = k + i"
  shows "reported c k (claim_cleanup D owner heir i) w"
  unfolding claim_cleanup_def wp_bindE wp_tryE wp_ret
  by (rule wp_mono [OF counted(4) [OF assms]]) (use closes_counted [OF assms(1)] in \<open>auto simp: wp_ret\<close>)

lemma body_counted:
  assumes "counts_confirmed c D owner heir" "c w = k"
  shows "reported c k (claim_body D owner heir) w"
  unfolding claim_body_def
proof (rule counted_from [OF counted(6) [OF assms]])
  fix a v assume v: "c v = k"
  show "reported c k (bindE (buildClaimTransactions (cd_env D) (cd_rpc D) heir owner) (\<lambda>firstPass.
     if firstPass = [] then throw (Error ''This estate has already been distributed.'')
     else
     bindE (claim_passes D owner heir MAX_PASSES firstPass \<lparr>cs_i = 0, cs_progressed = 0, cs_error = None\<rparr>) (\<lambda>st.
     case cs_error st of
       Some e \<Rightarrow> if cs_i st = 0 then throw e else claim_cleanup D owner heir (cs_i st)
     | None \<Rightarrow> claim_cleanup D owner heir (cs_i st)))) v"
  proof (rule counted_from [OF counted(3) [OF assms(1) v]])
    fix pass x assume x: "c x = k"
    have p: "wp (claim_passes D owner heir MAX_PASSES pass \<lparr>cs_i = 0, cs_progressed = 0, cs_error = None\<rparr>) (\<lambda>st' y. c y = k + cs_i st') (\<lambda>_ y. k \<le> c y) x"
      by (rule passes_counted [OF assms(1)]) (use x in simp)
    show "reported c k (if pass = [] then throw (Error ''This estate has already been distributed.'')
     else
     bindE (claim_passes D owner heir MAX_PASSES pass \<lparr>cs_i = 0, cs_progressed = 0, cs_error = None\<rparr>) (\<lambda>st.
     case cs_error st of
       Some e \<Rightarrow> if cs_i st = 0 then throw e else claim_cleanup D owner heir (cs_i st)
     | None \<Rightarrow> claim_cleanup D owner heir (cs_i st))) x"
      unfolding wp_if wp_bindE wp_throw
      by (split if_split, intro conjI impI, use x in simp, rule wp_mono [OF p])
        (auto split: option.split simp: wp_throw cleanup_counted [OF assms(1)])
  qed simp
qed simp

lemma claim_counted:
  assumes "counts_confirmed c D owner heir" "\<And>w b. c (w\<lparr>cw_running := b\<rparr>) = c w"
  shows "reported c (c w) (runClaim D owner heir) w"
  using body_counted [OF assms(1), of "w\<lparr>cw_running := True\<rparr>" "c w"] unfolding runClaim_def wp_simps by (simp add: assms(2))

end
