(* ===== verification/Rpc_Keeps.thy ===== *)
theory Rpc_Keeps
  imports Srv_Exec_Props Plan_Tx Crank_Tx Rpc_View
begin

text \<open>
  The transaction builders of the application only read: what the reads of an RPC preserve, every
  builder preserves.
\<close>

lemma ataFor_preserves [preserves_intro]: "preserves I (ataFor E mint ow off prog)"
  unfolding ataFor_def by (rule preserves_liftE)

lemma largest_preserves [preserves_intro]: "preserves I (largestShareWallet bs)"
  by (cases bs) (simp_all add: largestShareWallet_def preserves_throw preserves_ret)

lemma benef_at_preserves [preserves_intro]: "preserves I (benef_at ws i)"
  unfolding benef_at_def by (intro preserves_intro)

subsection \<open>The builders only read\<close>

text \<open>Reads of accounts, balances, block hashes and the priority fee preserve \<open>I\<close>.\<close>

definition rpc_reads :: "('w \<Rightarrow> bool) \<Rightarrow> env \<Rightarrow> 'w rpc \<Rightarrow> bool" where
  "rpc_reads I E R \<longleftrightarrow>
     (\<forall>k. preserves I (getAccountInfo R k)) \<and> (\<forall>k. preserves I (anchorVaultConfig R k))
     \<and> (\<forall>k p. preserves I (getParsedTokenAccountsByOwner R k p)) \<and> (\<forall>k p. preserves I (getAccount R k p))
     \<and> (\<forall>k. preserves I (getTokenAccountBalance R k)) \<and> (\<forall>n. preserves I (getMinimumBalanceForRentExemption R n)) \<and> (\<forall>k. preserves I (getBalance R k))
     \<and> preserves I (getLatestBlockhash R) \<and> (\<forall>ks. preserves I (estimatePriorityFee E R ks))"

lemma reads_preserve:
  assumes "rpc_reads I E R"
  shows "preserves I (rawInfo R k)" "preserves I (accountExists R k)" "preserves I (getTokenProgramForMint E R k)"
    "preserves I (addPriorityFee E R t keys cu)" "preserves I (getVaultTokenBalances E R k)" "preserves I (fetchVaultConfig E R owner)"
    "preserves I (fetchExecutionLog E R owner)" "preserves I (fetchAssetPlan E R owner)" "preserves I (fetchTokenDist E R owner mint)"
    "preserves I (getOnChainDeadline E R owner)"
proof -
  note r = assms [unfolded rpc_reads_def]
  show raw: "preserves I (rawInfo R k)" for k unfolding rawInfo_def using r by (intro preserves_bindE preserves_intro) simp
  show "preserves I (accountExists R k)" unfolding accountExists_def using r by (intro preserves_bindE preserves_intro) simp
  show "preserves I (getTokenProgramForMint E R k)" unfolding getTokenProgramForMint_def using r by (intro preserves_bindE preserves_intro) simp
  show "preserves I (addPriorityFee E R t keys cu)" unfolding addPriorityFee_def using r by (intro preserves_bindE preserves_intro) simp
  show "preserves I (getVaultTokenBalances E R k)" unfolding getVaultTokenBalances_def
    using r by (intro preserves_bindE preserves_forE preserves_intro) simp
  show "preserves I (fetchVaultConfig E R owner)" unfolding fetchVaultConfig_def Let_def parseVaultConfigRaw_eq
    using r by (intro preserves_bindE preserves_intro raw) simp
  show "preserves I (fetchExecutionLog E R owner)" unfolding fetchExecutionLog_def parseExecutionLogRaw_eq by (intro preserves_bindE preserves_intro raw)
  show "preserves I (fetchAssetPlan E R owner)" unfolding fetchAssetPlan_def parseAssetPlanRaw_eq by (intro preserves_bindE preserves_intro raw)
  show "preserves I (fetchTokenDist E R owner mint)" unfolding fetchTokenDist_def parseTokenDistRaw_eq by (intro preserves_bindE preserves_intro raw)
  show "preserves I (getOnChainDeadline E R owner)" unfolding getOnChainDeadline_def Let_def by (intro preserves_bindE preserves_intro raw)
qed

lemma builders_preserve:
  assumes "rpc_reads I E R"
  shows "preserves I (buildClaimTransactions E R heir owner)" "preserves I (buildCloseTokenDistTransactions E R heir owner)"
proof -
  note go = preserves_bindE preserves_forE preserves_intro reads_preserve [OF assms]
  have acc: "preserves I (getAccount R k p)" "preserves I (getTokenAccountBalance R k)" for k p using assms by (simp_all add: rpc_reads_def)
  show "preserves I (buildClaimTransactions E R heir owner)"
    unfolding buildClaimTransactions_def claim_fast_path_def claim_snapshots_def claim_bequests_def claim_bequest_def claim_sol_shares_def
      claim_token_shares_def atas_with_setup_def create_if_missing_def Let_def
    by (intro go)
  show "preserves I (buildCloseTokenDistTransactions E R heir owner)"
    unfolding buildCloseTokenDistTransactions_def read_dust_def harvest_ixs_def create_if_missing_def Let_def
    by (intro go acc largest_preserves)
qed

lemma owner_builders_preserve:
  assumes "rpc_reads I E R"
  shows "preserves I (buildWithdrawAllInstructions E R owner)" "preserves I (buildBatchedTxs E R owner ixs b)"
    "preserves I (buildCloseExecutedVaultTx E R owner)" "preserves I (buildRotateAgentTx E R owner k)"
    "preserves I (buildInitializeVaultTx E R owner agent hi hg bs mu)" "preserves I (buildCloseAndReinitVaultTx E R owner agent hi hg bs mu)"
    "preserves I (buildCloseExecutedAndReinitVaultTx E R owner agent hi hg bs mu)"
proof -
  note go = preserves_bindE preserves_forE preserves_intro reads_preserve [OF assms]
  have r: "preserves I (getAccount R k p)" "preserves I (getAccountInfo R k)" "preserves I (getMinimumBalanceForRentExemption R n)" for k p n
    using assms by (simp_all add: rpc_reads_def)
  show "preserves I (buildWithdrawAllInstructions E R owner)"
    unfolding buildWithdrawAllInstructions_def Let_def by (intro go r)
  show "preserves I (buildBatchedTxs E R owner ixs b)"
    unfolding buildBatchedTxs_def assetPlanIfPresent_def Let_def by (intro go)
  show "preserves I (buildCloseExecutedVaultTx E R owner)"
    unfolding buildCloseExecutedVaultTx_def close_executed_ix_def Let_def by (intro go)
  show "preserves I (buildRotateAgentTx E R owner k)"
    unfolding buildRotateAgentTx_def Let_def by (intro go)
  have init: "preserves I (init_ix E owner agent hi hg bs mu)"
    unfolding init_ix_def keeperBountyBN_def Let_def by (intro go)
  show "preserves I (buildInitializeVaultTx E R owner agent hi hg bs mu)"
    unfolding buildInitializeVaultTx_def Let_def by (intro go init)
  show "preserves I (buildCloseAndReinitVaultTx E R owner agent hi hg bs mu)"
    unfolding buildCloseAndReinitVaultTx_def Let_def by (intro go init)
  show "preserves I (buildCloseExecutedAndReinitVaultTx E R owner agent hi hg bs mu)"
    unfolding buildCloseExecutedAndReinitVaultTx_def close_executed_ix_def Let_def by (intro go init)
qed

end
