(* ===== verification/Web_Core.thy ===== *)
theory Web_Core
  imports Js_Double App_Claim Rpc_Keeps Plan_Tx
begin

text \<open>
  The web console below its screens (\<open>src/web/src\<close>): the network check it shares with the
  application (\<open>utils/rpcConfig.ts\<close>, \<open>store/useNetworkStore.ts\<close>, \<open>BootGate.tsx\<close>), the owner's
  actions (\<open>lib/ownerTx.ts\<close>, \<open>hooks/useOwnerActions.ts\<close>), the read model of the vault
  (\<open>hooks/useVault.ts\<close>), the claim hook (\<open>hooks/useClaim.ts\<close>) and the discovery of an inheritance
  (\<open>lib/discovery.ts\<close>, \<open>hooks/useInheritances.ts\<close>). The wallet adapter, the RPC, key text and number
  text are parameters; effects that stop when a component unmounts are left out.
\<close>

subsection \<open>The network check\<close>

datatype network_state = NetVerified | NetMismatch | NetUnknown

record verification =
  vf_state :: network_state
  vf_received :: "string option"

datatype action_error = Wallet_missing | Net_unverified | Bad_owner | Failed string

record action_state =
  as_busy :: "string option"
  as_error :: "action_error option"
  as_lastSig :: "string option"

definition idle :: action_state where
  "idle = \<lparr>as_busy = None, as_error = None, as_lastSig = None\<rparr>"

record vault_token =
  vt_mint :: string
  vt_amount :: int
  vt_decimals :: nat
  vt_isNft :: bool

record vault_view =
  vv_pda :: string
  vv_owner :: string
  vv_active :: bool
  vv_executed :: bool
  vv_isMutable :: bool
  vv_hasAssetPlan :: bool
  vv_openTokenDists :: int
  vv_beneficiaries :: "(string \<times> int) list"
  vv_interval :: int
  vv_grace :: int
  vv_deadline :: "int option"
  vv_solLamports :: int
  vv_tokens :: "vault_token list"
  vv_planAssignments :: nat

datatype inh_status = Inh_active | Inh_warning | Inh_claimable | Inh_executed

record inheritance =
  ih_vault :: string
  ih_owner :: string
  ih_shareBps :: nat
  ih_status :: inh_status
  ih_deadline :: "int option"
  ih_seconds :: "int option"

record claim_view =
  cv_running :: bool
  cv_step :: "(string \<times> nat \<times> nat) option"
  cv_finished :: "nat option"
  cv_error :: "action_error option"

definition claim_idle :: claim_view where
  "claim_idle = \<lparr>cv_running = False, cv_step = None, cv_finished = None, cv_error = None\<rparr>"

text \<open>
  \<open>activeRpcUrl\<close> and \<open>verifiedForRpc\<close> are the module variables of \<open>rpcConfig.ts\<close>; the rest is the
  network store and the hooks' state.
\<close>

record web_world = claim_world +
  activeRpcUrl :: string
  verifiedForRpc :: "string option"
  ns_state :: network_state
  ns_received :: "string option"
  wb_proceed :: bool
  wb_action :: action_state
  wb_vault :: "vault_view option"
  wb_exists :: "bool option"
  wb_error :: "string option"
  wb_claim :: claim_view
  wb_items :: "inheritance list"
  wb_itemsError :: "string option"

record 'w web_deps =
  wd_env :: env
  wd_rpc :: "'w rpc"
  wd_genesis :: "string \<Rightarrow> ('w, string) io"
  wd_expected :: string
  wd_setting :: "('w, string option) io"
  wd_newKey :: "string \<Rightarrow> exn + pubkey"
  wd_numText :: "dbl \<Rightarrow> string"
  wd_mintDecimals :: "pubkey \<Rightarrow> ('w, nat option) io"
  wd_sign :: "signed_tx \<Rightarrow> ('w, signed_tx) io"
  wd_blockTime :: "('w, int option) io"
  wd_now :: "('w, int) io"
  wd_message :: "exn \<Rightarrow> string"
  wd_served :: "string \<Rightarrow> ('w, inheritance list) io"

definition set_net :: "verification \<Rightarrow> ('e web_world_scheme, unit) io" where
  "set_net v = modify (\<lambda>w. w\<lparr>ns_state := vf_state v, ns_received := vf_received v\<rparr>)"

definition loadRpcOverride :: "('e web_world_scheme) web_deps \<Rightarrow> ('e web_world_scheme, unit) io" where
  "loadRpcOverride D =
     tryE
       (bindE (wd_setting D) (\<lambda>s.
        case map_option js_trimmed s of
          None \<Rightarrow> ret ()
        | Some v \<Rightarrow> modify (\<lambda>w. if v \<noteq> [] \<and> v \<noteq> activeRpcUrl w then w\<lparr>activeRpcUrl := v, verifiedForRpc := None\<rparr> else w)))
       (\<lambda>_. ret ())"

text \<open>\<open>wd_genesis\<close> is the race of \<open>getGenesisHash\<close> with the timer: it throws when the timer wins.\<close>

definition verifyNetwork :: "('e web_world_scheme) web_deps \<Rightarrow> ('e web_world_scheme, verification) io" where
  "verifyNetwork D =
     bindE (gets activeRpcUrl) (\<lambda>url. bindE (gets verifiedForRpc) (\<lambda>known.
     if known = Some url then ret \<lparr>vf_state = NetVerified, vf_received = None\<rparr>
     else tryE
       (bindE (wd_genesis D url) (\<lambda>received.
        bindE (gets activeRpcUrl) (\<lambda>now_url.
        if received = wd_expected D
        then seqE (modify (\<lambda>w. w\<lparr>verifiedForRpc := Some now_url\<rparr>)) (ret \<lparr>vf_state = NetVerified, vf_received = Some received\<rparr>)
        else seqE (modify (\<lambda>w. w\<lparr>verifiedForRpc := None\<rparr>)) (ret \<lparr>vf_state = NetMismatch, vf_received = Some received\<rparr>))))
       (\<lambda>_. seqE (modify (\<lambda>w. w\<lparr>verifiedForRpc := None\<rparr>)) (ret \<lparr>vf_state = NetUnknown, vf_received = None\<rparr>))))"

text \<open>\<open>run\<close> of the gate, and the page's start: the override, then the gate's first run.\<close>

definition gate_run :: "('e web_world_scheme) web_deps \<Rightarrow> bool \<Rightarrow> ('e web_world_scheme, unit) io" where
  "gate_run D allowUnknown =
     bindE (verifyNetwork D) (\<lambda>v.
     seqE (set_net v)
     (if vf_state v = NetVerified \<or> vf_state v = NetUnknown \<and> allowUnknown
      then modify (\<lambda>w. w\<lparr>wb_proceed := True\<rparr>) else ret ()))"

definition boot :: "('e web_world_scheme) web_deps \<Rightarrow> ('e web_world_scheme, unit) io" where
  "boot D = seqE (loadRpcOverride D) (gate_run D False)"

definition assertNetworkVerified :: "string \<Rightarrow> ('e web_world_scheme, unit) io" where
  "assertNetworkVerified action =
     bindE (gets ns_state) (\<lambda>s.
     if s = NetVerified then ret ()
     else throw (Error (action @ '' is blocked: the Solana network could not be verified. Retry from the network screen or set a working RPC in Settings.'')))"

subsection \<open>The owner's transactions\<close>

definition signSendOwnerTx :: "('e web_world_scheme) web_deps \<Rightarrow> tx \<Rightarrow> pubkey \<Rightarrow> ('e web_world_scheme, string) io" where
  "signSendOwnerTx D t owner =
     seqE (assertNetworkVerified ''This owner action'') (
     bindE (getLatestBlockhash (wd_rpc D)) (\<lambda>bh.
     bindE (wd_sign D (unsigned_for owner t bh)) (\<lambda>s.
     bindE (sendRawTransaction (wd_rpc D) s) (\<lambda>sig.
     seqE (confirmTransaction (wd_rpc D) sig bh) (ret sig)))))"

subsection \<open>The vault's read model\<close>

definition set_wb_vault :: "vault_view option \<Rightarrow> ('e web_world_scheme, unit) io" where
  "set_wb_vault v = modify (\<lambda>w. w\<lparr>wb_vault := v\<rparr>)"

definition set_wb_exists :: "bool option \<Rightarrow> ('e web_world_scheme, unit) io" where
  "set_wb_exists b = modify (\<lambda>w. w\<lparr>wb_exists := b\<rparr>)"

definition set_wb_error :: "string option \<Rightarrow> ('e web_world_scheme, unit) io" where
  "set_wb_error s = modify (\<lambda>w. w\<lparr>wb_error := s\<rparr>)"

definition or_default :: "('w, 'a) io \<Rightarrow> 'a \<Rightarrow> ('w, 'a) io" where
  "or_default m d = tryE m (\<lambda>_. ret d)"

definition unreadable :: exn where
  "unreadable = Error ''Your vault exists but could not be read. Try again, or set your own RPC in Network.''"

definition view_token :: "env \<Rightarrow> parsed_token \<Rightarrow> vault_token" where
  "view_token E t = \<lparr>vt_mint = b58 E (pt_mint t), vt_amount = pt_amount t, vt_decimals = pt_decimals t,
     vt_isNft = (pt_decimals t = 0 \<and> pt_amount t = 1)\<rparr>"

definition vault_view_of ::
  "('w) web_deps \<Rightarrow> pubkey \<Rightarrow> vault_config \<Rightarrow> int option \<Rightarrow> int \<Rightarrow> parsed_token list \<Rightarrow> nat \<Rightarrow> vault_view" where
  "vault_view_of D owner c deadline sol tokens plan =
     \<lparr>vv_pda = b58 (wd_env D) (getVaultPDA (wd_env D) owner), vv_owner = b58 (wd_env D) owner,
      vv_active = active c, vv_executed = executed c, vv_isMutable = isMutable c, vv_hasAssetPlan = hasAssetPlan c,
      vv_openTokenDists = int (openTokenDists c),
      vv_beneficiaries = map (\<lambda>b. (b58 (wd_env D) (wallet b), int (shareBps b))) (beneficiaries c),
      vv_interval = int (heartbeatInterval c), vv_grace = int (gracePeriod c), vv_deadline = deadline,
      vv_solLamports = sol, vv_tokens = map (view_token (wd_env D)) tokens, vv_planAssignments = plan\<rparr>"

text \<open>
  The names and logos of the tokens are decoration and left out. The reads run in parallel in the code
  and one after the other here; each has its own default.
\<close>

definition load_view :: "('e web_world_scheme) web_deps \<Rightarrow> pubkey \<Rightarrow> ('e web_world_scheme, unit) io" where
  "load_view D owner =
     (let E = wd_env D; R = wd_rpc D; vaultPda = getVaultPDA E owner in
      bindE (fetchVaultConfig E R owner) (\<lambda>config.
      case config of
        None \<Rightarrow>
          bindE (getAccountInfo R vaultPda) (\<lambda>info.
          if info \<noteq> None then throw unreadable
          else seqE (set_wb_vault None) (set_wb_exists (Some False)))
      | Some c \<Rightarrow>
          bindE (or_default (getOnChainDeadline E R owner) None) (\<lambda>deadline.
          bindE (or_default (getBalance R vaultPda) 0) (\<lambda>sol.
          bindE (or_default (getVaultTokenBalances E R vaultPda) []) (\<lambda>tokens.
          bindE (if hasAssetPlan c
                 then or_default (bindE (fetchAssetPlan E R owner) (\<lambda>p.
                        ret (case p of Some q \<Rightarrow> length (assignments q) | None \<Rightarrow> 0))) 0
                 else ret 0) (\<lambda>plan.
          bindE (bn_toNumber (int (heartbeatInterval c))) (\<lambda>_. bindE (bn_toNumber (int (gracePeriod c))) (\<lambda>_.
          seqE (set_wb_vault (Some (vault_view_of D owner c deadline sol tokens plan))) (set_wb_exists (Some True))))))))))"

definition refresh_vault :: "('e web_world_scheme) web_deps \<Rightarrow> pubkey option \<Rightarrow> ('e web_world_scheme, unit) io" where
  "refresh_vault D publicKey =
     (case publicKey of
        None \<Rightarrow> seqE (set_wb_vault None) (set_wb_exists None)
      | Some owner \<Rightarrow> seqE (set_wb_error None) (tryE (load_view D owner) (\<lambda>e. set_wb_error (Some (wd_message D e)))))"

subsection \<open>The owner's actions\<close>

definition set_action :: "action_state \<Rightarrow> ('e web_world_scheme, unit) io" where
  "set_action a = modify (\<lambda>w. w\<lparr>wb_action := a\<rparr>)"

definition run_action ::
  "('e web_world_scheme) web_deps \<Rightarrow> pubkey option \<Rightarrow> string \<Rightarrow> (pubkey \<Rightarrow> ('e web_world_scheme, tx) io) \<Rightarrow> ('e web_world_scheme, bool) io" where
  "run_action D publicKey label build =
     (case publicKey of
        None \<Rightarrow> seqE (set_action (idle\<lparr>as_error := Some Wallet_missing\<rparr>)) (ret False)
      | Some owner \<Rightarrow>
          seqE (set_action (idle\<lparr>as_busy := Some label\<rparr>)) (
          tryE
            (bindE (build owner) (\<lambda>t.
             bindE (signSendOwnerTx D t owner) (\<lambda>sig.
             seqE (set_action (idle\<lparr>as_lastSig := Some sig\<rparr>)) (
             seqE (refresh_vault D publicKey) (ret True)))))
            (\<lambda>e. seqE (set_action (idle\<lparr>as_error := Some (Failed (wd_message D e))\<rparr>)) (ret False))))"

text \<open>A number as the integer a builder takes: not an integer is a \<open>RangeError\<close> of the encoder.\<close>

definition int_of_dbl :: "dbl \<Rightarrow> ('w, int) io" where
  "int_of_dbl x = (case x of Fin q \<Rightarrow> ret \<lfloor>q\<rfloor> | _ \<Rightarrow> throw RangeError)"

definition lamports_of :: "dbl \<Rightarrow> dbl" where
  "lamports_of sol = js_round (dmul sol (Fin 1000000000))"

definition depositSol :: "('e web_world_scheme) web_deps \<Rightarrow> pubkey option \<Rightarrow> dbl \<Rightarrow> ('e web_world_scheme, bool) io" where
  "depositSol D k amount = run_action D k ''Depositing SOL'' (\<lambda>o'. bindE (int_of_dbl (lamports_of amount)) (buildFundVaultTx (wd_env D) (wd_rpc D) o'))"

definition withdrawSol :: "('e web_world_scheme) web_deps \<Rightarrow> pubkey option \<Rightarrow> dbl \<Rightarrow> ('e web_world_scheme, bool) io" where
  "withdrawSol D k amount = run_action D k ''Withdrawing SOL'' (\<lambda>o'. bindE (int_of_dbl (lamports_of amount)) (buildWithdrawSolTx (wd_env D) (wd_rpc D) o'))"

definition withdrawToken :: "('e web_world_scheme) web_deps \<Rightarrow> pubkey option \<Rightarrow> string \<Rightarrow> int \<Rightarrow> ('e web_world_scheme, bool) io" where
  "withdrawToken D k mint raw = run_action D k ''Withdrawing token'' (\<lambda>o'. bindE (liftE (wd_newKey D mint)) (\<lambda>m. buildWithdrawTokenTx (wd_env D) (wd_rpc D) o' m raw))"

definition depositToken :: "('e web_world_scheme) web_deps \<Rightarrow> pubkey option \<Rightarrow> string \<Rightarrow> int \<Rightarrow> ('e web_world_scheme, bool) io" where
  "depositToken D k mint raw = run_action D k ''Depositing asset'' (\<lambda>o'. bindE (liftE (wd_newKey D mint)) (\<lambda>m. buildDepositTokenTx (wd_env D) (wd_rpc D) o' m raw))"

definition clearBequests :: "('e web_world_scheme) web_deps \<Rightarrow> pubkey option \<Rightarrow> ('e web_world_scheme, bool) io" where
  "clearBequests D k = run_action D k ''Clearing bequests'' (buildClearAssetPlanTx (wd_env D) (wd_rpc D))"

definition to_benef_inputs :: "('w) web_deps \<Rightarrow> (string \<times> dbl) list \<Rightarrow> ('w, benef_input list) io" where
  "to_benef_inputs D bens =
     forE bens [] (\<lambda>(k, x) out.
       bindE (liftE (wd_newKey D k)) (\<lambda>w. bindE (int_of_dbl x) (\<lambda>n. ret (out @ [\<lparr>bi_wallet = w, bi_shareBps = n\<rparr>]))))"

definition updateBeneficiaries :: "('e web_world_scheme) web_deps \<Rightarrow> pubkey option \<Rightarrow> (string \<times> dbl) list \<Rightarrow> ('e web_world_scheme, bool) io" where
  "updateBeneficiaries D k bens =
     run_action D k ''Updating beneficiaries'' (\<lambda>o'.
       bindE (to_benef_inputs D bens) (\<lambda>bs. buildUpdateVaultTx (wd_env D) (wd_rpc D) o' None None (Some bs)))"

definition saveBequests :: "('e web_world_scheme) web_deps \<Rightarrow> pubkey option \<Rightarrow> asset_assignment list \<Rightarrow> bool \<Rightarrow> ('e web_world_scheme, bool) io" where
  "saveBequests D k as hasPlan =
     run_action D k ''Saving bequests'' (\<lambda>o'.
       if hasPlan then buildUpdateAssetPlanTx (wd_env D) (wd_rpc D) o' as else buildSetAssetPlanTx (wd_env D) (wd_rpc D) o' as)"

definition revoke_web :: "('e web_world_scheme) web_deps \<Rightarrow> pubkey option \<Rightarrow> ('e web_world_scheme, bool) io" where
  "revoke_web D k = run_action D k ''Revoking vault'' (buildRevokeVaultTx (wd_env D) (wd_rpc D))"

definition closeExecuted :: "('e web_world_scheme) web_deps \<Rightarrow> pubkey option \<Rightarrow> ('e web_world_scheme, bool) io" where
  "closeExecuted D k = run_action D k ''Closing vault'' (buildCloseExecutedVaultTx (wd_env D) (wd_rpc D))"

subsection \<open>Claiming and discovery\<close>

definition set_claim :: "claim_view \<Rightarrow> ('e web_world_scheme, unit) io" where
  "set_claim c = modify (\<lambda>w. w\<lparr>wb_claim := c\<rparr>)"

definition web_claim_deps :: "('e web_world_scheme) web_deps \<Rightarrow> ('e web_world_scheme) claim_deps" where
  "web_claim_deps D = \<lparr>cd_env = wd_env D, cd_rpc = wd_rpc D, cd_blockTime = wd_blockTime D, cd_sign = wd_sign D,
     cd_progress = (\<lambda>label i n. modify (\<lambda>w. w\<lparr>wb_claim := (wb_claim w)\<lparr>cv_step := Some (label, i, n)\<rparr>\<rparr>))\<rparr>"

definition web_claim :: "('e web_world_scheme) web_deps \<Rightarrow> pubkey option \<Rightarrow> string \<Rightarrow> ('e web_world_scheme, unit) io" where
  "web_claim D publicKey ownerAddress =
     (case publicKey of
        None \<Rightarrow> set_claim (claim_idle\<lparr>cv_error := Some Wallet_missing\<rparr>)
      | Some heir \<Rightarrow>
          bindE (gets ns_state) (\<lambda>s.
          if s \<noteq> NetVerified then set_claim (claim_idle\<lparr>cv_error := Some Net_unverified\<rparr>)
          else case wd_newKey D ownerAddress of
            Inl _ \<Rightarrow> set_claim (claim_idle\<lparr>cv_error := Some Bad_owner\<rparr>)
          | Inr owner \<Rightarrow>
              seqE (set_claim (claim_idle\<lparr>cv_running := True\<rparr>)) (
              tryE (bindE (runClaim (web_claim_deps D) owner heir) (\<lambda>n. set_claim (claim_idle\<lparr>cv_finished := Some n\<rparr>)))
                (\<lambda>e. set_claim (claim_idle\<lparr>cv_error := Some (Failed (wd_message D e))\<rparr>)))))"

definition inherited :: "env \<Rightarrow> pubkey \<Rightarrow> beneficiary \<Rightarrow> vault_config \<Rightarrow> int option \<Rightarrow> int \<Rightarrow> inheritance" where
  "inherited E owner benef c deadline now =
     \<lparr>ih_vault = b58 E owner, ih_owner = b58 E owner, ih_shareBps = shareBps benef,
      ih_status = (if executed c then Inh_executed
                   else case deadline of Some d \<Rightarrow> if d \<le> now then Inh_claimable else Inh_active | None \<Rightarrow> Inh_active),
      ih_deadline = deadline,
      ih_seconds = (case deadline of Some d \<Rightarrow> if d = 0 then None else Some (max 0 (d - now)) | None \<Rightarrow> None)\<rparr>"

definition resolveByOwner :: "('e web_world_scheme) web_deps \<Rightarrow> string \<Rightarrow> string \<Rightarrow> ('e web_world_scheme, inheritance option) io" where
  "resolveByOwner D ownerAddress heir =
     (let E = wd_env D; R = wd_rpc D in
      bindE (liftE (wd_newKey D ownerAddress)) (\<lambda>owner.
      bindE (fetchVaultConfig E R owner) (\<lambda>config.
      case config of
        None \<Rightarrow> ret None
      | Some c \<Rightarrow>
          (case find (\<lambda>b. b58 E (wallet b) = heir) (beneficiaries c) of
             None \<Rightarrow> ret None
           | Some benef \<Rightarrow>
               bindE (getOnChainDeadline E R owner) (\<lambda>deadline.
               bindE (wd_now D) (\<lambda>now. ret (Some (inherited E owner benef c deadline now))))))))"

definition refresh_items :: "('e web_world_scheme) web_deps \<Rightarrow> string option \<Rightarrow> ('e web_world_scheme, unit) io" where
  "refresh_items D heir =
     (case heir of
        None \<Rightarrow> modify (\<lambda>w. w\<lparr>wb_items := []\<rparr>)
      | Some h \<Rightarrow> seqE (modify (\<lambda>w. w\<lparr>wb_itemsError := None\<rparr>))
          (tryE (bindE (wd_served D h) (\<lambda>xs. modify (\<lambda>w. w\<lparr>wb_items := xs\<rparr>))) (\<lambda>e. modify (\<lambda>w. w\<lparr>wb_itemsError := Some (wd_message D e)\<rparr>))))"

definition importByOwner :: "('e web_world_scheme) web_deps \<Rightarrow> string option \<Rightarrow> string \<Rightarrow> ('e web_world_scheme, inheritance) io" where
  "importByOwner D heir ownerAddress =
     (case heir of
        None \<Rightarrow> throw (Error ''Connect a wallet first.'')
      | Some h \<Rightarrow>
          bindE (resolveByOwner D (js_trimmed ownerAddress) h) (\<lambda>found.
          case found of
            None \<Rightarrow> throw (Error ''No inheritance found for your wallet at that owner address.'')
          | Some x \<Rightarrow> seqE (modify (\<lambda>w. w\<lparr>wb_items := x # filter (\<lambda>p. ih_owner p \<noteq> ih_owner x) (wb_items w)\<rparr>)) (ret x)))"

end
