(* ===== verification/App_Deposit.thy ===== *)
theory App_Deposit
  imports Setup_Run Web_Core
begin

text \<open>
  Moving money into and out of the vault from the application: the amount field of
  \<open>components/DepositModal.tsx\<close> with its MAX button, and the four handlers of
  \<open>screens/DashboardScreen.tsx\<close> behind it. Amounts are IEEE doubles (\<open>Js_Double\<close>); the printing of a
  number (\<open>String\<close>) is a parameter, \<open>toFixed(4)\<close> is written out. Alerts are part of the result; the
  refresh of the dashboard that ends each handler is \<open>loadVaultState\<close>, a parameter that cannot throw.
\<close>

subsection \<open>The modal\<close>

record wallet_token =
  wk_mint :: pubkey
  wk_symbol :: string
  wk_amount :: dbl
  wk_decimals :: nat
  wk_isNft :: bool

record modal_props =
  mp_walletBalance :: int
  mp_tokens :: "wallet_token list"
  mp_vaultSol :: int
  mp_vaultTokens :: "wallet_token list"

record modal =
  md_withdraw :: bool
  md_asset :: "pubkey option"
  md_amount :: string

definition fresh_modal :: modal where
  "fresh_modal = \<lparr>md_withdraw = False, md_asset = None, md_amount = []\<rparr>"

definition d_positive :: "dbl \<Rightarrow> bool" where
  "d_positive x \<longleftrightarrow> d_less (Fin 0) x"

definition splTokens :: "modal_props \<Rightarrow> modal \<Rightarrow> wallet_token list" where
  "splTokens p m =
     (if md_withdraw m then filter (\<lambda>t. d_positive (wk_amount t)) (mp_vaultTokens p)
      else filter (\<lambda>t. wk_symbol t \<noteq> ''SOL'' \<and> d_positive (wk_amount t)) (mp_tokens p))"

definition selectedToken :: "modal_props \<Rightarrow> modal \<Rightarrow> wallet_token option" where
  "selectedToken p m = (case md_asset m of None \<Rightarrow> None | Some k \<Rightarrow> find (\<lambda>t. wk_mint t = k) (splTokens p m))"

definition isNftAsset :: "modal_props \<Rightarrow> modal \<Rightarrow> bool" where
  "isNftAsset p m \<longleftrightarrow> \<not> md_withdraw m
     \<and> (case md_asset m of None \<Rightarrow> False | Some k \<Rightarrow> list_ex (\<lambda>t. wk_mint t = k \<and> wk_isNft t) (mp_tokens p))"

definition feeReserve :: dbl where
  "feeReserve = dmul (dbl_of (1 / 100)) (Fin 1000000000)"

text \<open>\<open>Math.max(0, x)\<close>, and lamports as SOL.\<close>

definition max_zero :: "dbl \<Rightarrow> dbl" where
  "max_zero x = (if x = NotANumber then NotANumber else if d_le x (Fin 0) then Fin 0 else x)"

definition in_sol :: "dbl \<Rightarrow> dbl" where
  "in_sol x = ddiv x (Fin 1000000000)"

fun dneg :: "dbl \<Rightarrow> dbl" where
  "dneg (Fin q) = Fin (- q)"
| "dneg PosInf = NegInf"
| "dneg NegInf = PosInf"
| "dneg NotANumber = NotANumber"

definition maxAmount :: "modal_props \<Rightarrow> modal \<Rightarrow> dbl" where
  "maxAmount p m =
     (case md_asset m of
        None \<Rightarrow>
          (if md_withdraw m then max_zero (in_sol (dbl_of (of_int (mp_vaultSol p))))
           else max_zero (in_sol (dadd (dbl_of (of_int (mp_walletBalance p))) (dneg feeReserve))))
      | Some _ \<Rightarrow> (case selectedToken p m of Some t \<Rightarrow> wk_amount t | None \<Rightarrow> Fin 0))"

definition parsedAmount :: "modal_props \<Rightarrow> modal \<Rightarrow> dbl" where
  "parsedAmount p m = (if isNftAsset p m then Fin 1 else or_zero (parseFloat (md_amount m)))"

definition modal_valid :: "modal_props \<Rightarrow> modal \<Rightarrow> bool" where
  "modal_valid p m \<longleftrightarrow> isNftAsset p m \<or> d_positive (parsedAmount p m) \<and> d_le (parsedAmount p m) (maxAmount p m)"

text \<open>\<open>toFixed(4)\<close> of a number below \<open>10 ^ 21\<close>: the nearest multiple, the larger one of two.\<close>

definition fixed4 :: "nat \<Rightarrow> string" where
  "fixed4 n = nat_str (n div 10000) @ ''.'' @ tl (nat_str (10000 + n mod 10000))"

definition toFixed4 :: "rat \<Rightarrow> string" where
  "toFixed4 x = fixed4 (nat \<lfloor>x * 10000 + 1 / 2\<rfloor>)"

definition handleMax :: "(dbl \<Rightarrow> string) \<Rightarrow> modal_props \<Rightarrow> modal \<Rightarrow> modal" where
  "handleMax numText p m =
     m\<lparr>md_amount :=
        (if d_positive (maxAmount p m)
         then (case (md_asset m, maxAmount p m) of (None, Fin q) \<Rightarrow> toFixed4 q | _ \<Rightarrow> numText (maxAmount p m))
         else ''0'')\<rparr>"

definition handleSelect :: "pubkey option \<Rightarrow> modal \<Rightarrow> modal" where
  "handleSelect asset m = m\<lparr>md_asset := asset, md_amount := []\<rparr>"

definition handleModeSwitch :: "bool \<Rightarrow> modal \<Rightarrow> modal" where
  "handleModeSwitch withdraw m = \<lparr>md_withdraw = withdraw, md_asset = None, md_amount = []\<rparr>"

text \<open>\<open>Math.floor(x * 10 ** d)\<close>: the base units handed to the handlers.\<close>

definition floor_units :: "dbl \<Rightarrow> nat \<Rightarrow> dbl" where
  "floor_units x d = js_floor (dmul x (pow10 d))"

datatype modal_call =
    Deposit_sol dbl
  | Deposit_token pubkey dbl nat
  | Withdraw_sol dbl
  | Withdraw_token pubkey dbl nat

definition modal_call_of :: "modal_props \<Rightarrow> modal \<Rightarrow> modal_call option" where
  "modal_call_of p m =
     (let x = parsedAmount p m in
      if md_withdraw m then
        (case md_asset m of
           None \<Rightarrow> Some (Withdraw_sol (js_floor (dmul x (Fin 1000000000))))
         | Some _ \<Rightarrow> map_option (\<lambda>t. Withdraw_token (wk_mint t) (floor_units x (wk_decimals t)) (wk_decimals t)) (selectedToken p m))
      else
        (case md_asset m of
           None \<Rightarrow> Some (Deposit_sol (js_floor (dmul x (Fin 1000000000))))
         | Some _ \<Rightarrow> map_option (\<lambda>t.
             Deposit_token (wk_mint t) (if isNftAsset p m then Fin 1 else floor_units x (wk_decimals t))
               (if isNftAsset p m then 0 else wk_decimals t)) (selectedToken p m)))"

text \<open>\<open>handleConfirm\<close>: the modal closes when the call succeeds and stays as it is when it throws.\<close>

definition handleConfirm :: "(modal_call \<Rightarrow> ('w, unit) io) \<Rightarrow> modal_props \<Rightarrow> modal \<Rightarrow> ('w, modal \<times> bool) io" where
  "handleConfirm call p m =
     (if \<not> modal_valid p m then ret (m, False)
      else tryE
        (seqE (case modal_call_of p m of Some c \<Rightarrow> call c | None \<Rightarrow> ret ()) (ret (m\<lparr>md_amount := []\<rparr>, True)))
        (\<lambda>_. ret (m, False)))"

subsection \<open>The handlers of the dashboard\<close>

record 'w dash_deps =
  ds_setup :: "'w setup_deps"
  ds_load :: "('w, unit) io"
  ds_proceed :: "string \<Rightarrow> ('w, bool) io"
  ds_alert :: "string \<Rightarrow> string \<Rightarrow> ('w, unit) io"

abbreviation ds_env :: "'w dash_deps \<Rightarrow> env" where "ds_env D \<equiv> su_env (ds_setup D)"
abbreviation ds_rpc :: "'w dash_deps \<Rightarrow> 'w rpc" where "ds_rpc D \<equiv> su_rpc (ds_setup D)"

definition not_connected :: exn where
  "not_connected = Error ''Wallet not connected''"

definition as_owner :: "pubkey option \<Rightarrow> (pubkey \<Rightarrow> ('w, 'a) io) \<Rightarrow> ('w, 'a) io" where
  "as_owner publicKey f = (case publicKey of None \<Rightarrow> throw not_connected | Some owner \<Rightarrow> f owner)"

definition send_and_load :: "('e home_world_scheme) dash_deps \<Rightarrow> pubkey \<Rightarrow> tx \<Rightarrow> ('e home_world_scheme, unit) io" where
  "send_and_load D owner t = bindE (send_owner_tx (su_revoke (ds_setup D)) owner t) (\<lambda>_. ds_load D)"

definition handleDeposit :: "('e home_world_scheme) dash_deps \<Rightarrow> pubkey option \<Rightarrow> int \<Rightarrow> ('e home_world_scheme, unit) io" where
  "handleDeposit D publicKey lamports =
     as_owner publicKey (\<lambda>owner. bindE (buildFundVaultTx (ds_env D) (ds_rpc D) owner lamports) (send_and_load D owner))"

definition handleDepositToken :: "('e home_world_scheme) dash_deps \<Rightarrow> pubkey option \<Rightarrow> pubkey \<Rightarrow> int \<Rightarrow> ('e home_world_scheme, unit) io" where
  "handleDepositToken D publicKey mint rawAmount =
     as_owner publicKey (\<lambda>owner.
     bindE (checkDepositable (ds_env D) (ds_rpc D) mint) (\<lambda>c.
     if \<not> dc_ok c then
       (let reason = (case dc_reason c of Some s \<Rightarrow> s | None \<Rightarrow> []) in
        seqE (ds_alert D ''Can't deposit this token''
            ((case dc_reason c of Some s \<Rightarrow> s | None \<Rightarrow> ''undefined'') @ '', so it can't be moved into the vault.''))
          (throw (Error (if reason = [] then ''Token cannot be deposited'' else reason))))
     else
     bindE (case dc_warning c of None \<Rightarrow> ret True | Some w \<Rightarrow> ds_proceed D w) (\<lambda>proceed.
     if \<not> proceed then throw (Error ''Deposit cancelled'')
     else tryE
       (bindE (buildDepositTokenTx (ds_env D) (ds_rpc D) owner mint rawAmount) (send_and_load D owner))
       (\<lambda>e. seqE (ds_alert D ''Deposit failed'' (take 200 (rv_message (su_revoke (ds_setup D)) e))) (throw e)))))"

definition handleWithdrawSol :: "('e home_world_scheme) dash_deps \<Rightarrow> pubkey option \<Rightarrow> int \<Rightarrow> ('e home_world_scheme, unit) io" where
  "handleWithdrawSol D publicKey lamports =
     as_owner publicKey (\<lambda>owner. bindE (buildWithdrawSolTx (ds_env D) (ds_rpc D) owner lamports) (send_and_load D owner))"

definition handleWithdrawToken :: "('e home_world_scheme) dash_deps \<Rightarrow> pubkey option \<Rightarrow> pubkey \<Rightarrow> int \<Rightarrow> ('e home_world_scheme, unit) io" where
  "handleWithdrawToken D publicKey mint rawAmount =
     as_owner publicKey (\<lambda>owner. bindE (buildWithdrawTokenTx (ds_env D) (ds_rpc D) owner mint rawAmount) (send_and_load D owner))"

text \<open>The modal in the dashboard: an amount that is no integer is a \<open>RangeError\<close> of the encoder.\<close>

definition dashboard_call :: "('e home_world_scheme) dash_deps \<Rightarrow> pubkey option \<Rightarrow> modal_call \<Rightarrow> ('e home_world_scheme, unit) io" where
  "dashboard_call D k c =
     (case c of
        Deposit_sol x \<Rightarrow> bindE (int_of_dbl x) (handleDeposit D k)
      | Deposit_token m x _ \<Rightarrow> bindE (int_of_dbl x) (handleDepositToken D k m)
      | Withdraw_sol x \<Rightarrow> bindE (int_of_dbl x) (handleWithdrawSol D k)
      | Withdraw_token m x _ \<Rightarrow> bindE (int_of_dbl x) (handleWithdrawToken D k m))"

end
