(* ===== verification/App_Deposit_Props.thy ===== *)
theory App_Deposit_Props
  imports App_Deposit
begin

text \<open>
  What the amount field of the deposit modal lets through: never more than the balance it shows,
  whatever was typed; that the amount field reads back the number the MAX button wrote
  (\<open>parse_fixed4\<close>); and that entering a whole balance moves it or all but one base unit
  (\<open>floor_loses_one\<close>).
\<close>

subsection \<open>Reading the text of \<open>toFixed\<close>\<close>

lemma dec_digits: "digits s \<Longrightarrow> list_all is_dec s"
  by (simp add: digits_def list_all_iff is_dec_def)

lemma take_dec: "list_all is_dec a \<Longrightarrow> \<not> is_dec c \<Longrightarrow> takeWhile is_dec (a @ c # b) = a \<and> dropWhile is_dec (a @ c # b) = c # b"
  by (simp add: list_all_iff)

lemma dec_not_space: "is_dec c \<Longrightarrow> \<not> is_space c"
  by (auto simp: is_dec_def is_space_def)

lemma parse_fraction:
  assumes "list_all is_dec a" "list_all is_dec b" "a \<noteq> []"
  shows "parseFloat (a @ ''.'' @ b) = dbl_of (of_nat (dec_val (a @ b)) / 10 ^ length b)"
proof -
  obtain c a' where a: "a = c # a'" "is_dec c" using assms(1,3) by (cases a) auto
  have dot: "\<not> is_dec CHR ''.''" by (simp add: is_dec_def)
  have sp: "dropWhile is_space (a @ ''.'' @ b) = a @ ''.'' @ b" using a dec_not_space by simp
  have c: "c \<noteq> CHR ''-''" "c \<noteq> CHR ''+''" "c \<noteq> CHR ''I''" using a(2) by (auto simp: is_dec_def)
  have t: "takeWhile is_dec (a @ ''.'' @ b) = a" "dropWhile is_dec (a @ ''.'' @ b) = CHR ''.'' # b"
    using take_dec [OF assms(1) dot] by simp_all
  have f: "takeWhile is_dec b = b" "dropWhile is_dec b = []" using assms(2) by (simp_all add: list_all_iff takeWhile_eq_all_conv)
  have u: "unsigned_decimal (a @ ''.'' @ b) = Some (of_nat (dec_val (a @ b)) / 10 ^ length b, [])"
    unfolding unsigned_decimal_def t Let_def using assms(3) by (simp add: f exponent_part_def)
  have s: "signed_decimal (a @ ''.'' @ b) = Some (dbl_of (of_nat (dec_val (a @ b)) / 10 ^ length b), [])"
    unfolding signed_decimal_def Let_def using u c a by simp
  show ?thesis unfolding parseFloat_def sp s by simp
qed

lemma dec_val_fold: "foldl (\<lambda>n c. 10 * n + (of_char c - 48)) v s = v * 10 ^ length s + dec_val s" for v :: nat
proof (induction s arbitrary: v)
  case (Cons c s)
  have "dec_val (c # s) = (of_char c - 48) * 10 ^ length s + dec_val s" unfolding dec_val_def by (simp only: foldl_Cons Cons.IH) (simp add: dec_val_def)
  then show ?case using Cons.IH [of "10 * v + (of_char c - 48)"] by (simp add: algebra_simps)
qed (simp add: dec_val_def)

lemma dec_val_append: "dec_val (a @ b) = dec_val a * 10 ^ length b + dec_val b"
  using dec_val_fold [of "dec_val a" b] by (simp add: dec_val_def)

lemma dec_val_nat: "dec_val (nat_str n) = n"
  using str_nat_nat_str [of n] unfolding str_nat_def dec_val_def .

lemma five_digits: "r < 10000 \<Longrightarrow> nat_str (10000 + r) = ''1'' @ tl (nat_str (10000 + r)) \<and> length (tl (nat_str (10000 + r))) = 4"
proof -
  assume r: "r < 10000"
  have d: "(10000 + r) div 10 div 10 div 10 div 10 = 1" using r by (simp add: div_mult2_eq [symmetric])
  have g: "\<not> 10000 + r < 10" "\<not> (10000 + r) div 10 < 10" "\<not> (10000 + r) div 10 div 10 < 10" "\<not> (10000 + r) div 10 div 10 div 10 < 10" by simp_all
  have one: "nat_str 1 = ''1''" by code_simp
  have "\<exists>a b c e. nat_str (10000 + r) = ''1'' @ [a, b, c, e]"
    using g by (subst nat_str.simps, subst nat_str.simps, subst nat_str.simps, subst nat_str.simps) (simp only: if_False d one, simp)
  then show ?thesis by auto
qed

lemma parse_fixed4: "parseFloat (fixed4 n) = dbl_of (of_nat n / 10000)"
proof -
  define f where "f = tl (nat_str (10000 + n mod 10000))"
  have r: "n mod 10000 < 10000" by simp
  have f: "nat_str (10000 + n mod 10000) = ''1'' @ f" "length f = 4" using five_digits [OF r] unfolding f_def by blast+
  have "10000 + n mod 10000 = 10000 + dec_val f"
    using dec_val_nat [of "10000 + n mod 10000"] unfolding f(1) dec_val_append f(2) by (simp add: dec_val_def)
  then have v: "dec_val f = n mod 10000" by simp
  have ds: "list_all is_dec (nat_str k) \<and> nat_str k \<noteq> []" for k using digits_nat_str [of k] dec_digits by blast
  have df: "list_all is_dec f" using ds [of "10000 + n mod 10000"] unfolding f(1) by simp
  have "parseFloat (fixed4 n) = dbl_of (of_nat (dec_val (nat_str (n div 10000) @ f)) / 10 ^ length f)"
    unfolding fixed4_def f_def [symmetric] using parse_fraction df ds by blast
  also have "dec_val (nat_str (n div 10000) @ f) = n" unfolding dec_val_append dec_val_nat f(2) v by simp
  finally show ?thesis by (simp add: f(2))
qed

subsection \<open>Rounding near a limit\<close>

text \<open>A positive number and the double nearest to it, without a lower bound on its size.\<close>

lemma rnd_pos_above:
  assumes "0 < q"
  shows "rnd_pos q \<le> q + q / 2 ^ 53 + 2 powi (- 1075)"
proof (cases "2 powi (- 1022) \<le> q")
  case True
  from rnd_pos_rel [OF this] have "rnd_pos q - q \<le> q / 2 ^ 53" by linarith
  moreover have "(0 :: rat) \<le> 2 powi (- 1075)" by simp
  ultimately show ?thesis by linarith
next
  case False
  have "(2 :: rat) powi ilog2 q < 2 powi (- 1022)" using ilog2_bounds(1) [OF assms] False by linarith
  then have "ulp_exp q = - 1074" unfolding powi_less_iff ulp_exp_def by simp
  then have "\<bar>rnd_pos q - q\<bar> \<le> 2 powi (- 1074) / 2" using rnd_pos_err [OF assms] by simp
  also have "(2 :: rat) powi (- 1074) / 2 = 2 powi (- 1074 - 1)" using power_int_diff [of "2 :: rat" "- 1074" 1] by simp
  also have "\<dots> = 2 powi (- 1075)" by simp
  finally have "rnd_pos q - q \<le> 2 powi (- 1075)" by linarith
  moreover have "0 \<le> q / 2 ^ 53" using assms by simp
  ultimately show ?thesis by linarith
qed

text \<open>An amount of base units as a number: \<open>n\<close> divided by the power of ten of the decimals.\<close>

definition units_shown :: "int \<Rightarrow> rat \<Rightarrow> dbl" where
  "units_shown n c = dbl_of (of_int n / c)"

lemma shown_near:
  assumes "1 \<le> c" "c \<le> 10 ^ 22" "0 < n" "n < 2 ^ 51"
  obtains v where "units_shown n c = Fin v" "\<bar>v - of_int n / c\<bar> \<le> of_int n / c / 2 ^ 53" "0 < v"
proof -
  have N: "1 \<le> (of_int n :: rat)" using assms(3) by simp
  have "of_int n \<le> (of_int (2 ^ 51) :: rat)" using assms(4) by (simp only: of_int_le_iff)
  then have N2: "of_int n \<le> (2 ^ 51 :: rat)" by simp
  have a: "1 / 10 ^ 22 \<le> of_int n / c" "of_int n / c \<le> of_int n" using N assms by (auto intro: frac_le simp: divide_le_eq)
  have lo: "2 powi (- 1022) \<le> (1 / 10 ^ 22 :: rat)" by (simp add: power_int_def field_simps)
  have up: "(2 :: rat) ^ 51 \<le> 2 ^ 900" by (rule power_increasing) auto
  obtain v where v: "dbl_of (of_int n / c) = Fin v" "\<bar>v - of_int n / c\<bar> \<le> of_int n / c / 2 ^ 53"
    by (rule dbl_of_rel [of "of_int n / c"]) (use a lo up N2 in linarith)+
  have "0 < of_int n / c" using assms by simp
  then have "- (of_int n / c / 2 ^ 53) \<le> v - of_int n / c \<and> of_int n / c / 2 ^ 53 < of_int n / c" using abs_leD2 [OF v(2)] by simp
  then have "0 < v" by linarith
  then show ?thesis using v that unfolding units_shown_def by blast
qed

lemma scaled_at_most:
  assumes c: "1 \<le> c" "c \<le> 10 ^ 22" and n: "0 \<le> n" "n < 2 ^ 51" and x: "0 < x" "d_le (Fin x) (units_shown n c)"
  shows "\<exists>w. dmul (Fin x) (Fin c) = Fin w \<and> \<lfloor>w\<rfloor> \<le> n"
proof -
  have "n \<noteq> 0" using x by (auto simp: units_shown_def dbl_of_def)
  then have n0: "0 < n" using n(1) by simp
  obtain v where v: "units_shown n c = Fin v" "\<bar>v - of_int n / c\<bar> \<le> of_int n / c / 2 ^ 53" by (rule shown_near [OF c n0 n(2)])
  have xv: "x \<le> of_int n / c + of_int n / c / 2 ^ 53" using x(2) v(2) unfolding v(1) d_le.simps by linarith
  have N: "of_int n \<le> (2 ^ 51 - 1 :: rat)"
  proof -
    have "n \<le> 2 ^ 51 - 1" using n(2) by simp
    then have "(of_int n :: rat) \<le> of_int (2 ^ 51 - 1)" by (simp only: of_int_le_iff)
    then show ?thesis by simp
  qed
  have "x * c \<le> (of_int n / c + of_int n / c / 2 ^ 53) * c" using xv c by (intro mult_right_mono) auto
  also have "\<dots> = of_int n + of_int n / 2 ^ 53" using c by (simp add: field_simps)
  finally have p: "x * c \<le> of_int n + of_int n / 2 ^ 53" .
  have q: "0 < x * c" using x c by simp
  have e: "of_int n / 2 ^ 53 \<le> (1 / 4 :: rat)" using N by simp
  have "x * c \<le> 2 ^ 51" using p e N by linarith
  then have xc: "x * c / 2 ^ 53 \<le> 1 / 4" by (simp add: divide_le_eq mult.commute)
  have "(2 :: rat) powi (- 1075) \<le> 2 powi (- 2)" by (rule powi_mono) simp
  also have "\<dots> = 1 / 4" by (simp add: power_int_def power2_eq_square)
  finally have t: "(2 :: rat) powi (- 1075) \<le> 1 / 4" .
  have w: "rnd_pos (x * c) < of_int n + 1" using rnd_pos_above [OF q] p e xc t by linarith
  have "rnd_pos (x * c) \<le> 2 ^ 51" using w N by linarith
  also have "\<dots> < (2 :: rat) ^ 1024" by (rule power_strict_increasing) auto
  finally have big: "\<not> 2 ^ 1024 \<le> rnd_pos (x * c)" by (simp only: not_le)
  have "dmul (Fin x) (Fin c) = dbl_of (x * c)" by (rule dmul.simps)
  also have "\<dots> = Fin (rnd_pos (x * c))" using q big unfolding dbl_of_def Let_def by (simp only: abs_of_pos if_False order_less_irrefl not_less_iff_gr_or_eq if_True) (auto simp del: power_numeral)
  finally have "dmul (Fin x) (Fin c) = Fin (rnd_pos (x * c))" .
  moreover have "\<lfloor>rnd_pos (x * c)\<rfloor> \<le> n" using w by linarith
  ultimately show ?thesis by blast
qed

lemma floor_loses_one:
  assumes "d \<le> 22" "0 \<le> n" "n < 2 ^ 51"
  shows "floor_units (units_shown n (10 ^ d)) d \<in> {Fin (of_int n), Fin (of_int (n - 1))}"
proof -
  have s: "units_shown n (10 ^ d) = ddiv (Fin (of_int n)) (pow10 d)" using pow10_exact [OF assms(1)] by (simp add: units_shown_def)
  obtain w where w: "dmul (units_shown n (10 ^ d)) (pow10 d) = Fin w" "\<lfloor>w + 1 / 2\<rfloor> = n"
    using scale_roundtrip [OF assms] unfolding s by (cases "dmul (ddiv (Fin (of_int n)) (pow10 d)) (pow10 d)") auto
  have "\<lfloor>w\<rfloor> = n \<or> \<lfloor>w\<rfloor> = n - 1" using w(2) by linarith
  then show ?thesis unfolding floor_units_def w(1) by auto
qed

subsection \<open>Never more than the balance\<close>

lemma fee_is: "feeReserve = Fin 10000000"
  unfolding feeReserve_def by code_simp

lemma sol_shown: "\<bar>n\<bar> \<le> 2 ^ 53 \<Longrightarrow> in_sol (dbl_of (of_int n)) = units_shown n 1000000000"
  unfolding in_sol_def units_shown_def by (simp add: dbl_of_int)

lemma max_zero_shown:
  assumes "n < 2 ^ 51"
  shows "max_zero (units_shown n 1000000000) = (if 0 < n then units_shown n 1000000000 else Fin 0)"
proof (cases "0 < n")
  case True
  obtain v where "units_shown n 1000000000 = Fin v" "0 < v" by (rule shown_near [of 1000000000 n]) (use True assms in simp_all)
  then show ?thesis using True by (simp add: max_zero_def)
next
  case False
  then have "of_int n / (1000000000 :: rat) \<le> 0" by simp
  moreover have "0 \<le> rnd_pos \<bar>of_int n / (1000000000 :: rat)\<bar>" by (rule rnd_pos_nonneg) simp
  ultimately show ?thesis using False unfolding max_zero_def units_shown_def dbl_of_def Let_def by auto
qed

lemma bounded_positive: "d_positive a \<Longrightarrow> d_le a (Fin y) \<Longrightarrow> \<exists>x. a = Fin x \<and> 0 < x"
  by (cases a) (auto simp: d_positive_def d_less_def)

lemma sol_limit:
  assumes "md_asset m = None" "mp_vaultSol p < 2 ^ 51" "mp_walletBalance p < 2 ^ 51" "0 \<le> mp_vaultSol p" "0 \<le> mp_walletBalance p"
  shows "maxAmount p m = (let b = (if md_withdraw m then mp_vaultSol p else mp_walletBalance p - 10000000) in
    if 0 < b then units_shown b 1000000000 else Fin 0)"
proof -
  define b where "b = (if md_withdraw m then mp_vaultSol p else mp_walletBalance p - 10000000)"
  have b: "\<bar>b\<bar> \<le> 2 ^ 53" "b < 2 ^ 51" using assms(2-5) unfolding b_def by auto
  have "dadd (dbl_of (of_int (mp_walletBalance p))) (dneg feeReserve) = dbl_of (of_int (mp_walletBalance p - 10000000))"
    using assms(3,5) by (simp add: fee_is dbl_of_int)
  then have "maxAmount p m = max_zero (in_sol (dbl_of (of_int b)))" using assms(1) unfolding maxAmount_def b_def by (cases "md_withdraw m") simp_all
  then show ?thesis unfolding b_def [symmetric] Let_def by (simp only: sol_shown [OF b(1)] max_zero_shown [OF b(2)])
qed

text \<open>\<open>n\<close> base units of a token as the scanner and the vault report them.\<close>

definition holds :: "int \<Rightarrow> wallet_token \<Rightarrow> bool" where
  "holds n t \<longleftrightarrow> 0 \<le> n \<and> n < 2 ^ 51 \<and> wk_decimals t \<le> 22 \<and> wk_amount t = units_shown n (10 ^ wk_decimals t)"

definition fair_props :: "modal_props \<Rightarrow> bool" where
  "fair_props p \<longleftrightarrow> 0 \<le> mp_vaultSol p \<and> mp_vaultSol p < 2 ^ 51 \<and> 0 \<le> mp_walletBalance p \<and> mp_walletBalance p < 2 ^ 51
     \<and> (\<forall>t \<in> set (mp_tokens p) \<union> set (mp_vaultTokens p). \<exists>n. holds n t)"

text \<open>What a call moves, in base units, is a positive or zero integer within what is held.\<close>

definition call_within :: "modal_props \<Rightarrow> modal_call \<Rightarrow> bool" where
  "call_within p c =
     (case c of
        Deposit_sol x \<Rightarrow> \<exists>u. x = Fin (of_int u) \<and> 0 \<le> u \<and> u \<le> mp_walletBalance p - 10000000
      | Withdraw_sol x \<Rightarrow> \<exists>u. x = Fin (of_int u) \<and> 0 \<le> u \<and> u \<le> mp_vaultSol p
      | Deposit_token k x d \<Rightarrow> \<exists>u t n. x = Fin (of_int u) \<and> 0 \<le> u \<and> u \<le> n \<and> t \<in> set (mp_tokens p) \<and> wk_mint t = k \<and> holds n t
      | Withdraw_token k x d \<Rightarrow> \<exists>u t n. x = Fin (of_int u) \<and> 0 \<le> u \<and> u \<le> n \<and> t \<in> set (mp_vaultTokens p) \<and> wk_mint t = k \<and> holds n t)"

lemma deposit_within:
  "t \<in> set (mp_tokens p) \<Longrightarrow> holds n t \<Longrightarrow> 0 \<le> u \<Longrightarrow> u \<le> n \<Longrightarrow> call_within p (Deposit_token (wk_mint t) (Fin (of_int u)) d)"
  unfolding call_within_def modal_call.case by blast

lemma withdraw_within:
  "t \<in> set (mp_vaultTokens p) \<Longrightarrow> holds n t \<Longrightarrow> 0 \<le> u \<Longrightarrow> u \<le> n \<Longrightarrow> call_within p (Withdraw_token (wk_mint t) (Fin (of_int u)) d)"
  unfolding call_within_def modal_call.case by blast

lemma floor_within:
  assumes "1 \<le> c" "c \<le> 10 ^ 22" "0 \<le> n" "n < 2 ^ 51" "d_positive a" "d_le a (units_shown n c)"
  shows "\<exists>u. js_floor (dmul a (Fin c)) = Fin (of_int u) \<and> 0 \<le> u \<and> u \<le> n"
proof -
  obtain y where y: "units_shown n c = Fin y"
  proof (cases "n = 0")
    case True
    then show ?thesis using that [of 0] by (simp add: units_shown_def dbl_of_def)
  next
    case False
    then have "0 < n" using assms(3) by simp
    from shown_near [OF assms(1,2) this assms(4)] that show ?thesis by metis
  qed
  then obtain x where x: "a = Fin x" "0 < x" using bounded_positive assms(5,6) by auto
  from scaled_at_most [OF assms(1-4) x(2)] assms(6) obtain w where w: "dmul (Fin x) (Fin c) = Fin w" "\<lfloor>w\<rfloor> \<le> n" unfolding x(1) by blast
  have "0 \<le> rnd_pos \<bar>x * c\<bar>" by (rule rnd_pos_nonneg) simp
  moreover have "0 < x * c" using x(2) assms(1) by simp
  ultimately have "0 \<le> w" using w(1) unfolding dmul.simps dbl_of_def Let_def by (auto simp only: dbl.inject dbl.distinct split: if_splits)
  then have "0 \<le> \<lfloor>w\<rfloor>" by simp
  moreover have "js_floor (dmul a (Fin c)) = Fin (of_int \<lfloor>w\<rfloor>)" by (simp only: x(1) w(1) js_floor.simps)
  ultimately show ?thesis using w(2) by blast
qed

lemma selected_in:
  assumes "selectedToken p m = Some t"
  shows "t \<in> set (if md_withdraw m then mp_vaultTokens p else mp_tokens p) \<and> d_positive (wk_amount t) \<and> md_asset m = Some (wk_mint t)"
  using assms unfolding selectedToken_def splTokens_def
  by (auto simp: find_Some_iff split: option.splits if_splits dest!: nth_mem)

lemma one_held: "holds n t \<Longrightarrow> d_positive (wk_amount t) \<Longrightarrow> 1 \<le> n"
  by (cases "n = 0") (auto simp: holds_def units_shown_def dbl_of_def d_positive_def d_less_def)

lemma token_within:
  assumes "holds n t" "d_positive a" "d_le a (wk_amount t)"
  shows "\<exists>u. floor_units a (wk_decimals t) = Fin (of_int u) \<and> 0 \<le> u \<and> u \<le> n"
proof -
  have d: "wk_decimals t \<le> 22" and n: "0 \<le> n" "n < 2 ^ 51" and a: "wk_amount t = units_shown n (10 ^ wk_decimals t)" using assms(1) by (auto simp: holds_def)
  have "(10 :: rat) ^ wk_decimals t \<le> 10 ^ 22" using d by (intro power_increasing) auto
  then show ?thesis using floor_within [of "10 ^ wk_decimals t" n a] n assms(2,3) unfolding floor_units_def a pow10_exact [OF d] by simp
qed

lemma sol_within:
  assumes "modal_valid p m" "md_asset m = None" "fair_props p"
  shows "\<exists>u. js_floor (dmul (parsedAmount p m) (Fin 1000000000)) = Fin (of_int u) \<and> 0 \<le> u
    \<and> u \<le> (if md_withdraw m then mp_vaultSol p else mp_walletBalance p - 10000000)"
proof -
  define b where "b = (if md_withdraw m then mp_vaultSol p else mp_walletBalance p - 10000000)"
  have a: "d_positive (parsedAmount p m)" "d_le (parsedAmount p m) (maxAmount p m)"
    using assms(1,2) by (auto simp: modal_valid_def isNftAsset_def)
  have m: "maxAmount p m = (if 0 < b then units_shown b 1000000000 else Fin 0)"
    using sol_limit [OF assms(2)] assms(3) by (simp only: fair_props_def b_def Let_def simp_thms)
  have b: "0 < b" using a bounded_positive [OF a(1), of 0] unfolding m by (auto split: if_splits)
  have "b < 2 ^ 51" using assms(3) unfolding fair_props_def b_def by auto
  then show ?thesis using floor_within [of 1000000000 b "parsedAmount p m"] a b unfolding m b_def [symmetric] by simp
qed

text \<open>
  Whatever text is typed into the modal, and whatever token is picked, the amount it hands to the
  handlers when the button is enabled is an integer number of base units that does not exceed what the
  wallet (less the fee reserve of 0.01 SOL) or the vault holds, although both are compared as doubles
  and the amount is the floor of a product of doubles.
\<close>

theorem modal_within_balance:
  assumes "fair_props p" "modal_valid p m" "modal_call_of p m = Some c"
  shows "call_within p c"
proof (cases "md_asset m")
  case None
  then show ?thesis using sol_within [OF assms(2) None assms(1)] assms(3)
    by (auto simp: modal_call_of_def call_within_def Let_def split: if_splits)
next
  case (Some k)
  then obtain t where t: "selectedToken p m = Some t" using assms(3) by (auto simp: modal_call_of_def Let_def split: if_splits)
  note i = selected_in [OF t]
  then have "t \<in> set (mp_tokens p) \<union> set (mp_vaultTokens p)" by (auto split: if_splits)
  then obtain n where n: "holds n t" using assms(1) unfolding fair_props_def by blast
  have M: "maxAmount p m = wk_amount t" using Some t by (simp add: maxAmount_def)
  show ?thesis
  proof (cases "isNftAsset p m")
    case True
    then have "c = Deposit_token (wk_mint t) (Fin (of_int 1)) 0" "\<not> md_withdraw m"
      using Some t assms(3) by (auto simp: modal_call_of_def isNftAsset_def)
    then show ?thesis using i n one_held [OF n] by (auto simp: call_within_def intro!: exI [of _ 1] exI [of _ t] exI [of _ n])
  next
    case False
    then have v: "d_positive (parsedAmount p m)" "d_le (parsedAmount p m) (wk_amount t)" using assms(2) M by (auto simp: modal_valid_def)
    from token_within [OF n v] obtain u where u: "floor_units (parsedAmount p m) (wk_decimals t) = Fin (of_int u)" "0 \<le> u" "u \<le> n" by blast
    have "c = (if md_withdraw m then Withdraw_token (wk_mint t) (Fin (of_int u)) (wk_decimals t) else Deposit_token (wk_mint t) (Fin (of_int u)) (wk_decimals t))"
      using Some t assms(3) False by (auto simp: modal_call_of_def Let_def u(1))
    then show ?thesis using i n u(2,3) by (cases "md_withdraw m") (simp_all add: withdraw_within deposit_within)
  qed
qed

end
