(* ===== verification/App_Exec.thy ===== *)
theory App_Exec
  imports Escalation Crank_Tx
begin

text \<open>
  The application's own crank at stage 4 (\<open>services/ExecutionService.ts\<close>): it waits for the deadline
  on the chain, runs the steps of a distribution with the agent key, skips a mint whose step failed,
  and mirrors its progress into the database of the device for the screens. The steps are those of
  \<open>VaultTransactionService\<close>; the key store, the block time and the waiting are parameters;
  notifications are a log.
\<close>

subsection \<open>State and services\<close>

datatype exec_note = Progress nat nat string | Exec_complete nat string | Exec_failed string

text \<open>
  The module's lock, the counters of the service instance, the notifications sent, and the vault
  store's \<open>executionJustCompleted\<close>.
\<close>

record app_world = esc_world +
  ax_running :: bool
  ax_done :: nat
  ax_total :: nat
  ax_notes :: "exec_note list"
  ax_justCompleted :: bool

record 'w app_deps =
  ad_env :: env
  ad_rpc :: "'w rpc"
  ad_getKeypair :: "('w, pubkey) io"
  ad_blockTime :: "('w, int option) io"
  ad_sleep :: "int \<Rightarrow> ('w, unit) io"
  ad_json :: "json \<Rightarrow> string"
  ad_message :: "exn \<Rightarrow> string"
  ad_solText :: "nat \<Rightarrow> string"

definition note_exec :: "exec_note \<Rightarrow> ('e app_world_scheme, unit) io" where
  "note_exec n = modify (\<lambda>w. w\<lparr>ax_notes := ax_notes w @ [n]\<rparr>)"

subsection \<open>Progress\<close>

definition bumpProgress :: "string \<Rightarrow> ('e app_world_scheme, unit) io" where
  "bumpProgress ident =
     (if ident = ''finalize'' \<or> starts_with ''close_'' ident then ret ()
      else seqE (modify (\<lambda>w. w\<lparr>ax_done := ax_done w + 1\<rparr>))
        (bindE (gets (\<lambda>w. Progress (min (ax_done w) (ax_total w)) (ax_total w) ident)) note_exec))"

definition runStep :: "string \<Rightarrow> string \<Rightarrow> ('e app_world_scheme, string) io \<Rightarrow> ('e app_world_scheme, unit) io" where
  "runStep ownerWallet ident fn =
     (let scoped = scoped_id ownerWallet ident in
      seqE (quietly (updateStepStatus scoped ''in_progress'' None None)) (
      bindE fn (\<lambda>sig.
      seqE (quietly (updateStepStatus scoped ''completed'' (Some sig) None))
        (bumpProgress ident))))"

definition runBatch :: "string \<Rightarrow> string list \<Rightarrow> ('e app_world_scheme, string) io \<Rightarrow> ('e app_world_scheme, unit) io" where
  "runBatch ownerWallet ids fn =
     seqE (forE ids () (\<lambda>ident _. quietly (updateStepStatus (scoped_id ownerWallet ident) ''in_progress'' None None))) (
     bindE fn (\<lambda>sig.
     forE ids () (\<lambda>ident _.
       seqE (quietly (updateStepStatus (scoped_id ownerWallet ident) ''completed'' (Some sig) None)) (bumpProgress ident))))"

definition markDone :: "string \<Rightarrow> string \<Rightarrow> ('e app_world_scheme, unit) io" where
  "markDone ownerWallet ident =
     seqE (quietly (updateStepStatus (scoped_id ownerWallet ident) ''completed'' None None)) (bumpProgress ident)"

definition pending_step :: "string \<Rightarrow> string \<Rightarrow> string \<Rightarrow> execution_step" where
  "pending_step ident kind description =
     \<lparr>es_id = ident, es_type = kind, es_status = ''pending'', es_description = description, es_tx = None, es_error = None,
      es_order = 0, es_metadata = None, es_started = None, es_completed = None\<rparr>"

text \<open>The ids of the steps.\<close>

definition spec_id :: "nat \<Rightarrow> string" where "spec_id j = ''spec_'' @ nat_str j"
definition sol_id :: "nat \<Rightarrow> string" where "sol_id i = ''sol_'' @ nat_str i"
definition tok_id :: "string \<Rightarrow> nat \<Rightarrow> string" where "tok_id mint i = ''tok_'' @ mint @ ''_'' @ nat_str i"
definition close_id :: "string \<Rightarrow> string" where "close_id mint = ''close_'' @ mint"

definition mirror_steps :: "env \<Rightarrow> asset_plan option \<Rightarrow> nat \<Rightarrow> pubkey list \<Rightarrow> execution_step list" where
  "mirror_steps E plan n mints =
     (let steps =
        (case plan of None \<Rightarrow> [] | Some p \<Rightarrow>
           map (\<lambda>(j, a). pending_step (spec_id j) ''distribute_specific_asset''
             (''Bequest #'' @ nat_str (j + 1) @ '' ('' @ (if a_mint a = default_pubkey then ''SOL'' else take 6 (b58 E (a_mint a)) @ ellipsis) @ '')''))
             (enumerate 0 (assignments p)))
        @ map (\<lambda>i. pending_step (sol_id i) ''distribute_sol'' (''Distribute SOL share to beneficiary '' @ nat_str (i + 1))) [0..<n]
        @ concat (map (\<lambda>mint. map (\<lambda>i. pending_step (tok_id (b58 E mint) i) ''distribute_token''
             (''Distribute '' @ take 6 (b58 E mint) @ ellipsis @ '' to beneficiary '' @ nat_str (i + 1))) [0..<n]) mints)
        @ [pending_step ''finalize'' ''record_execution_log'' ''Finalize execution on-chain'']
        @ map (\<lambda>mint. pending_step (close_id (b58 E mint)) ''close_accounts''
             (''Close '' @ take 6 (b58 E mint) @ ellipsis @ '' distribution'')) mints
      in map (\<lambda>(k, s). s\<lparr>es_order := int k\<rparr>) (enumerate 0 steps))"

definition counts_as_distribution :: "execution_step \<Rightarrow> bool" where
  "counts_as_distribution s \<longleftrightarrow> es_type s \<in> {''distribute_sol'', ''distribute_token'', ''distribute_specific_asset''}"

definition buildMirror ::
  "('e app_world_scheme) app_deps \<Rightarrow> string \<Rightarrow> asset_plan option \<Rightarrow> nat \<Rightarrow> pubkey list \<Rightarrow> ('e app_world_scheme, unit) io" where
  "buildMirror A ownerWallet plan n mints =
     (let steps = mirror_steps (ad_env A) plan n mints in
      seqE (modify (\<lambda>w. w\<lparr>ax_total := length (filter counts_as_distribution steps)\<rparr>))
        (quietly (forE steps () (\<lambda>s _. saveExecutionStep (ad_json A) s ownerWallet))))"

subsection \<open>Waiting for the chain\<close>

definition MAX_WAIT_MS :: int where "MAX_WAIT_MS = 120000"
definition POLL_INTERVAL_MS :: int where "POLL_INTERVAL_MS = 5000"
definition BUFFER_SECONDS :: int where "BUFFER_SECONDS = 2"

text \<open>At most \<open>n\<close> rounds of the loop; \<open>False\<close>: it would go on.\<close>

fun wait_rounds :: "('e app_world_scheme) app_deps \<Rightarrow> pubkey \<Rightarrow> int \<Rightarrow> nat \<Rightarrow> ('e app_world_scheme, bool) io" where
  "wait_rounds A owner start 0 = gets (\<lambda>w. \<not> now_ms w - start < MAX_WAIT_MS)"
| "wait_rounds A owner start (Suc n) =
     bindE (gets now_ms) (\<lambda>now.
     if \<not> now - start < MAX_WAIT_MS then ret True
     else
     bindE (getOnChainDeadline (ad_env A) (ad_rpc A) owner) (\<lambda>deadline.
     case deadline of
       None \<Rightarrow> ret True
     | Some d \<Rightarrow>
         bindE (ad_blockTime A) (\<lambda>blockTime.
         case blockTime of
           None \<Rightarrow> ret True
         | Some t \<Rightarrow>
             if d + BUFFER_SECONDS < t then ret True
             else seqE (ad_sleep A POLL_INTERVAL_MS) (wait_rounds A owner start n))))"

definition WAIT_ROUNDS :: nat where "WAIT_ROUNDS = 24"

definition waitForOnChainDeadline :: "('e app_world_scheme) app_deps \<Rightarrow> pubkey \<Rightarrow> ('e app_world_scheme, bool) io" where
  "waitForOnChainDeadline A owner = bindE (gets now_ms) (\<lambda>start. wait_rounds A owner start WAIT_ROUNDS)"

subsection \<open>The steps\<close>

text \<open>What a run works with: its services, the owner and its text, the agent, the plan flag, the beneficiaries.\<close>

record 'w app_run =
  ar_deps :: "'w app_deps"
  ar_owner :: pubkey
  ar_text :: string
  ar_agent :: pubkey
  ar_hasPlan :: bool
  ar_shares :: "(pubkey \<times> nat) list"
  ar_largest :: pubkey

abbreviation ar_env :: "'w app_run \<Rightarrow> env" where "ar_env R \<equiv> ad_env (ar_deps R)"
abbreviation ar_rpc :: "'w app_run \<Rightarrow> 'w rpc" where "ar_rpc R \<equiv> ad_rpc (ar_deps R)"

definition mark_stuck :: "'w app_run \<Rightarrow> pubkey \<Rightarrow> string list \<Rightarrow> string list" where
  "mark_stuck R mint stuck = List.insert (b58 (ar_env R) mint) stuck"

definition is_stuck :: "'w app_run \<Rightarrow> pubkey \<Rightarrow> string list \<Rightarrow> bool" where
  "is_stuck R mint stuck \<longleftrightarrow> b58 (ar_env R) mint \<in> set stuck"

text \<open>\<open>try { await m } catch { markStuck(mint) }\<close>.\<close>

definition or_stuck :: "'w app_run \<Rightarrow> ('w, unit) io \<Rightarrow> pubkey \<Rightarrow> string list \<Rightarrow> ('w, string list) io" where
  "or_stuck R m mint stuck = tryE (seqE m (ret stuck)) (\<lambda>_. ret (mark_stuck R mint stuck))"

definition app_begin :: "('e app_world_scheme) app_run \<Rightarrow> ('e app_world_scheme, execution_log option) io" where
  "app_begin R =
     bindE (fetchExecutionLog (ar_env R) (ar_rpc R) (ar_owner R)) (\<lambda>execLog.
     if execLog \<noteq> None then ret execLog
     else seqE (crankBeginExecution (ar_env R) (ar_rpc R) (ar_agent R) (ar_owner R) (ar_hasPlan R))
       (fetchExecutionLog (ar_env R) (ar_rpc R) (ar_owner R)))"

definition app_snapshots :: "('e app_world_scheme) app_run \<Rightarrow> pubkey list \<Rightarrow> ('e app_world_scheme, string list) io" where
  "app_snapshots R mints =
     forE mints [] (\<lambda>mint stuck.
       bindE (fetchTokenDist (ar_env R) (ar_rpc R) (ar_owner R) mint) (\<lambda>td.
       if td \<noteq> None then ret stuck
       else or_stuck R (seqE (crankBeginTokenDist (ar_env R) (ar_rpc R) (ar_agent R) (ar_owner R) mint (ar_hasPlan R)) (ret ())) mint stuck))"

text \<open>\<open>benefWallets[a.beneficiaryIndex]\<close> may be undefined; the step then fails.\<close>

definition app_pay :: "('e app_world_scheme) app_run \<Rightarrow> nat \<Rightarrow> assignment \<Rightarrow> ('e app_world_scheme, string) io" where
  "app_pay R j a =
     bindE (benef_at (map fst (ar_shares R)) (beneficiaryIndex a)) (\<lambda>benef.
     if a_mint a = default_pubkey then crankExecuteSpecificSol (ar_env R) (ar_rpc R) (ar_agent R) (ar_owner R) j benef
     else crankExecuteSpecificAsset (ar_env R) (ar_rpc R) (ar_agent R) (ar_owner R) (a_mint a) j benef)"

definition app_bequest ::
  "('e app_world_scheme) app_run \<Rightarrow> asset_plan \<Rightarrow> nat \<Rightarrow> string list \<Rightarrow> ('e app_world_scheme, string list) io" where
  "app_bequest R p j stuck =
     (let a = assignments p ! j in
      if bigint_bit_set (int (ap_paidMask p)) j then seqE (markDone (ar_text R) (spec_id j)) (ret stuck)
      else if a_mint a \<noteq> default_pubkey \<and> is_stuck R (a_mint a) stuck then ret stuck
      else if a_mint a = default_pubkey then seqE (quietly (runStep (ar_text R) (spec_id j) (app_pay R j a))) (ret stuck)
      else or_stuck R (runStep (ar_text R) (spec_id j) (app_pay R j a)) (a_mint a) stuck)"

definition app_bequests ::
  "('e app_world_scheme) app_run \<Rightarrow> asset_plan option \<Rightarrow> string list \<Rightarrow> ('e app_world_scheme, string list) io" where
  "app_bequests R plan stuck =
     (if plan = None then ret stuck
      else bindE (fetchAssetPlan (ar_env R) (ar_rpc R) (ar_owner R)) (\<lambda>again.
        case again of
          None \<Rightarrow> ret stuck
        | Some p \<Rightarrow> forE [0..<length (assignments p)] stuck (app_bequest R p)))"

definition app_sol :: "('e app_world_scheme) app_run \<Rightarrow> ('e app_world_scheme, unit) io" where
  "app_sol R =
     bindE (fetchExecutionLog (ar_env R) (ar_rpc R) (ar_owner R)) (\<lambda>execLog.
     forE (batches (unpaidIndices (case execLog of Some l \<Rightarrow> int (solPaidMask l) | None \<Rightarrow> 0) (length (ar_shares R)))) () (\<lambda>idxs _.
       runBatch (ar_text R) (map sol_id idxs)
         (crankExecuteSolShares (ar_env R) (ar_rpc R) (ar_agent R) (ar_owner R) idxs (map (\<lambda>i. fst (ar_shares R ! i)) idxs))))"

text \<open>No mint that is stuck is looked at here.\<close>

definition app_finalize :: "('e app_world_scheme) app_run \<Rightarrow> ('e app_world_scheme, unit) io" where
  "app_finalize R =
     bindE (fetchExecutionLog (ar_env R) (ar_rpc R) (ar_owner R)) (\<lambda>execLog.
     bindE (if ar_hasPlan R then
              bindE (fetchAssetPlan (ar_env R) (ar_rpc R) (ar_owner R)) (\<lambda>ap.
              ret (case ap of None \<Rightarrow> True | Some p \<Rightarrow> int (ap_paidMask p) = fullU64Mask (length (assignments p))))
            else ret True) (\<lambda>assetDone.
     case execLog of
       None \<Rightarrow> ret ()
     | Some l \<Rightarrow>
         if \<not> completed l \<and> int (solPaidMask l) mod 2 ^ 32 = fullU32Mask (length (ar_shares R)) \<and> assetDone
         then runStep (ar_text R) ''finalize'' (crankFinalize (ar_env R) (ar_rpc R) (ar_agent R) (ar_owner R) (ar_hasPlan R))
         else ret ()))"

definition app_token_shares :: "('e app_world_scheme) app_run \<Rightarrow> pubkey \<Rightarrow> token_dist \<Rightarrow> ('e app_world_scheme, unit) io" where
  "app_token_shares R mint td =
     forE (batches (unpaidIndices (int (td_paidMask td)) (length (ar_shares R)))) () (\<lambda>idxs _.
       runBatch (ar_text R) (map (tok_id (b58 (ar_env R) mint)) idxs)
         (crankExecuteTokenShares (ar_env R) (ar_rpc R) (ar_agent R) (ar_owner R) mint idxs (map (\<lambda>i. fst (ar_shares R ! i)) idxs)))"

definition app_tokens :: "('e app_world_scheme) app_run \<Rightarrow> pubkey list \<Rightarrow> string list \<Rightarrow> ('e app_world_scheme, string list) io" where
  "app_tokens R mints stuck =
     forE mints stuck (\<lambda>mint stuck.
       if is_stuck R mint stuck then ret stuck
       else bindE (fetchTokenDist (ar_env R) (ar_rpc R) (ar_owner R) mint) (\<lambda>td.
         case td of None \<Rightarrow> ret stuck | Some d \<Rightarrow> or_stuck R (app_token_shares R mint d) mint stuck))"

definition app_closes :: "('e app_world_scheme) app_run \<Rightarrow> pubkey list \<Rightarrow> string list \<Rightarrow> ('e app_world_scheme, string list) io" where
  "app_closes R mints stuck =
     forE mints stuck (\<lambda>mint stuck.
       if is_stuck R mint stuck then ret stuck
       else bindE (fetchTokenDist (ar_env R) (ar_rpc R) (ar_owner R) mint) (\<lambda>td.
         case td of
           None \<Rightarrow> ret stuck
         | Some d \<Rightarrow>
             if int (td_paidMask d) mod 2 ^ 32 = fullU32Mask (length (ar_shares R))
             then or_stuck R (runStep (ar_text R) (close_id (b58 (ar_env R) mint))
               (crankCloseTokenDist (ar_env R) (ar_rpc R) (ar_agent R) (ar_owner R) mint (ar_largest R))) mint stuck
             else ret stuck))"

definition app_finish :: "('e app_world_scheme) app_run \<Rightarrow> ('e app_world_scheme, unit) io" where
  "app_finish R =
     bindE (fetchExecutionLog (ar_env R) (ar_rpc R) (ar_owner R)) (\<lambda>finalLog.
     case finalLog of
       None \<Rightarrow> ret ()
     | Some l \<Rightarrow>
         if \<not> completed l then ret ()
         else
         seqE reset_escalation_store (
         seqE (modify (\<lambda>w. w\<lparr>ax_justCompleted := True\<rparr>)) (
         bindE (gets ax_done) (\<lambda>n. note_exec (Exec_complete n (ad_solText (ar_deps R) (solSnapshot l)))))))"

definition app_steps :: "('e app_world_scheme) app_run \<Rightarrow> ('e app_world_scheme, unit) io" where
  "app_steps R =
     seqE (app_begin R) (
     bindE (getVaultTokenBalances (ar_env R) (ar_rpc R) (getVaultPDA (ar_env R) (ar_owner R))) (\<lambda>balances.
     bindE (if ar_hasPlan R then fetchAssetPlan (ar_env R) (ar_rpc R) (ar_owner R) else ret None) (\<lambda>plan.
     let mints = claim_mints (ar_env R) balances plan in
     seqE (buildMirror (ar_deps R) (ar_text R) plan (length (ar_shares R)) mints) (
     bindE (app_snapshots R mints) (\<lambda>stuck.
     bindE (app_bequests R plan stuck) (\<lambda>stuck.
     seqE (app_sol R) (
     seqE (app_finalize R) (
     bindE (app_tokens R mints stuck) (\<lambda>stuck.
     seqE (app_closes R mints stuck) (app_finish R))))))))))"

text \<open>A mirror left by an earlier run is cleared unless the vault is executed.\<close>

definition clear_stale_mirror :: "string \<Rightarrow> vault_config \<Rightarrow> ('e app_world_scheme, unit) io" where
  "clear_stale_mirror ownerWallet c =
     bindE (getLastCompletedStep ownerWallet) (\<lambda>lst.
     if 0 \<le> lst \<and> \<not> executed c then
       seqE (clearExecutionSteps ownerWallet) (seqE (clearDistributableSnapshot ownerWallet) (clearTokenSnapshot ownerWallet))
     else ret ())"

definition execute_body :: "('e app_world_scheme) app_deps \<Rightarrow> pubkey \<Rightarrow> ('e app_world_scheme, unit) io" where
  "execute_body A owner =
     seqE (waitForOnChainDeadline A owner) (
     bindE (fetchVaultConfig (ad_env A) (ad_rpc A) owner) (\<lambda>config.
     case config of
       None \<Rightarrow> ret ()
     | Some c \<Rightarrow>
         seqE (clear_stale_mirror (b58 (ad_env A) owner) c) (
         bindE (ad_getKeypair A) (\<lambda>agent.
         bindE (largestShareWallet (shares c)) (\<lambda>largestBenef.
         app_steps \<lparr>ar_deps = A, ar_owner = owner, ar_text = b58 (ad_env A) owner, ar_agent = agent, ar_hasPlan = hasAssetPlan c,
           ar_shares = shares c, ar_largest = largestBenef\<rparr>)))))"

definition execute :: "('e app_world_scheme) app_deps \<Rightarrow> pubkey \<Rightarrow> ('e app_world_scheme, unit) io" where
  "execute A owner =
     bindE (gets ax_running) (\<lambda>busy.
     if busy then ret ()
     else
     seqE (modify (\<lambda>w. w\<lparr>ax_running := True\<rparr>))
     (finallyE
       (tryE (execute_body A owner) (\<lambda>e. note_exec (Exec_failed (ad_message A e))))
       (\<lambda>w. w\<lparr>ax_running := False\<rparr>)))"

end
