(* ===== verification/App_Exec_Props.thy ===== *)
theory App_Exec_Props
  imports App_Exec Rpc_Keeps
begin

text \<open>
  Properties of the application's crank: the wait for the chain ends; a run is exclusive and contains
  its errors; and every transaction is justified by the accounts as the run read them.
\<close>

subsection \<open>The wait ends\<close>

text \<open>Reads do not turn the device's clock back, a sleep moves it on.\<close>

definition clock_runs :: "('e app_world_scheme) app_deps \<Rightarrow> pubkey \<Rightarrow> bool" where
  "clock_runs A owner \<longleftrightarrow>
     (\<forall>w. now_ms w \<le> now_ms (snd (getOnChainDeadline (ad_env A) (ad_rpc A) owner w))
        \<and> now_ms w \<le> now_ms (snd (ad_blockTime A w))
        \<and> (\<forall>ms. now_ms w + ms \<le> now_ms (snd (ad_sleep A ms w))))"

lemma wait_rounds_end:
  assumes "clock_runs A owner" "MAX_WAIT_MS - (now_ms w - start) \<le> int n * POLL_INTERVAL_MS"
  shows "fst (wait_rounds A owner start n w) \<noteq> Inr False"
  using assms(2)
proof (induction n arbitrary: w)
  case (Suc n)
  show ?case
  proof (cases "now_ms w - start < MAX_WAIT_MS")
    case True
    obtain d w1 where d: "getOnChainDeadline (ad_env A) (ad_rpc A) owner w = (d, w1)" by fastforce
    have w1: "now_ms w \<le> now_ms w1" using assms(1) d by (auto simp: clock_runs_def dest: spec [of _ w])
    show ?thesis
    proof (cases "\<exists>x. d = Inr (Some x)")
      case False
      then show ?thesis using True d by (cases d) (auto simp: bindE_def ret_apply split: option.splits)
    next
      case ok: True
      then obtain x where x: "d = Inr (Some x)" by blast
      obtain t w2 where t: "ad_blockTime A w1 = (t, w2)" by fastforce
      have w2: "now_ms w1 \<le> now_ms w2" using assms(1) t by (auto simp: clock_runs_def dest: spec [of _ w1])
      obtain r w3 where s: "ad_sleep A POLL_INTERVAL_MS w2 = (r, w3)" by fastforce
      have w3: "now_ms w2 + POLL_INTERVAL_MS \<le> now_ms w3"
        using assms(1) s by (auto simp: clock_runs_def dest!: spec [of _ w2]) (metis snd_conv)
      have "fst (wait_rounds A owner start n w3) \<noteq> Inr False"
        by (rule Suc.IH) (use Suc.prems w1 w2 w3 in \<open>simp add: POLL_INTERVAL_MS_def algebra_simps\<close>)
      then show ?thesis using True d x t s
        by (cases t; cases r) (auto simp: bindE_def ret_apply split: option.splits)
    qed
  qed (simp add: bindE_def ret_apply)
qed (simp add: POLL_INTERVAL_MS_def)

lemma wait_ends:
  assumes "clock_runs A owner"
  shows "fst (waitForOnChainDeadline A owner w) \<noteq> Inr False"
  using wait_rounds_end [OF assms, of w "now_ms w" WAIT_ROUNDS]
  by (simp add: waitForOnChainDeadline_def bindE_def WAIT_ROUNDS_def MAX_WAIT_MS_def POLL_INTERVAL_MS_def)

subsection \<open>What a run leaves alone\<close>

text \<open>The run's own bookkeeping does not touch what lies outside the application.\<close>

definition outside :: "('e \<Rightarrow> bool) \<Rightarrow> 'e app_world_scheme \<Rightarrow> bool" where
  "outside J w \<longleftrightarrow> J (app_world.more w)"

lemma outside_blind [simp]:
  "outside J (w\<lparr>ax_notes := n\<rparr>) = outside J w" "outside J (w\<lparr>ax_done := d\<rparr>) = outside J w" "outside J (w\<lparr>ax_total := d\<rparr>) = outside J w"
  "outside J (w\<lparr>ax_running := b\<rparr>) = outside J w" "outside J (w\<lparr>ax_justCompleted := b\<rparr>) = outside J w"
  "outside J (w\<lparr>db := t\<rparr>) = outside J w" "outside J (w\<lparr>sql_count := k\<rparr>) = outside J w" "outside J (w\<lparr>esc_state := e\<rparr>) = outside J w"
  "outside J (w\<lparr>notices := ns\<rparr>) = outside J w"
  by (simp_all add: outside_def)

lemma sql_outside [preserves_intro]: "preserves (outside J) (sql f)"
  by (simp add: preserves_def sql_def Let_def split: prod.split)

lemma getDb_outside [preserves_intro]: "preserves (outside J) getDb"
  unfolding getDb_def by (intro preserves_bindE preserves_intro)

lemma quietly_preserves [preserves_intro]: "preserves I m \<Longrightarrow> preserves I (quietly m)"
  unfolding quietly_def by (intro preserves_intro)

lemma note_outside [preserves_intro]: "preserves (outside J) (note_exec n)"
  unfolding note_exec_def by (rule preserves_modify) simp

lemma update_outside [preserves_intro]: "preserves (outside J) (updateStepStatus ident st tx err)"
  unfolding updateStepStatus_def now_sec_def by (intro preserves_bindE preserves_intro)

lemma bump_outside [preserves_intro]: "preserves (outside J) (bumpProgress ident)"
  unfolding bumpProgress_def by (intro preserves_bindE preserves_intro preserves_modify) simp

lemma runStep_outside: "preserves (outside J) fn \<Longrightarrow> preserves (outside J) (runStep ow ident fn)"
  unfolding runStep_def Let_def by (intro preserves_bindE preserves_intro)

lemma runBatch_outside: "preserves (outside J) fn \<Longrightarrow> preserves (outside J) (runBatch ow ids fn)"
  unfolding runBatch_def by (intro preserves_bindE preserves_forE preserves_intro)

lemma markDone_outside [preserves_intro]: "preserves (outside J) (markDone ow ident)"
  unfolding markDone_def by (intro preserves_bindE preserves_intro)

lemma mirror_outside [preserves_intro]: "preserves (outside J) (buildMirror A ow plan n mints)"
  unfolding buildMirror_def saveExecutionStep_def Let_def by (intro preserves_bindE preserves_forE preserves_intro preserves_modify) simp

lemma stale_outside [preserves_intro]: "preserves (outside J) (clear_stale_mirror ow c)"
  unfolding clear_stale_mirror_def getLastCompletedStep_def clearExecutionSteps_def clearDistributableSnapshot_def clearTokenSnapshot_def
    deleteSetting_def
  by (intro preserves_bindE preserves_intro)

lemma or_stuck_preserves [preserves_intro]: "preserves I m \<Longrightarrow> preserves I (or_stuck R m mint stuck)"
  unfolding or_stuck_def by (intro preserves_bindE preserves_intro)

subsection \<open>What justifies a transaction of the application\<close>

definition read_log :: "('e app_world_scheme) app_run \<Rightarrow> (execution_log option \<Rightarrow> bool) \<Rightarrow> bool" where
  "read_log R P \<longleftrightarrow> answered (fetchExecutionLog (ar_env R) (ar_rpc R) (ar_owner R)) P"

definition read_plan :: "('e app_world_scheme) app_run \<Rightarrow> (asset_plan option \<Rightarrow> bool) \<Rightarrow> bool" where
  "read_plan R P \<longleftrightarrow> answered (fetchAssetPlan (ar_env R) (ar_rpc R) (ar_owner R)) P"

definition read_dist :: "('e app_world_scheme) app_run \<Rightarrow> pubkey \<Rightarrow> (token_dist option \<Rightarrow> bool) \<Rightarrow> bool" where
  "read_dist R mint P \<longleftrightarrow> answered (fetchTokenDist (ar_env R) (ar_rpc R) (ar_owner R) mint) P"

text \<open>Unpaid indices of the beneficiaries, one batch of at most eight.\<close>

definition owed_batch :: "('e app_world_scheme) app_run \<Rightarrow> nat \<Rightarrow> nat list \<Rightarrow> bool" where
  "owed_batch R msk idxs \<longleftrightarrow> idxs \<in> set (batches (unpaidIndices (int msk) (length (ar_shares R))))"

definition app_may_finalize :: "('e app_world_scheme) app_run \<Rightarrow> bool" where
  "app_may_finalize R \<longleftrightarrow>
     read_log R (\<lambda>l. case l of None \<Rightarrow> False
       | Some l \<Rightarrow> \<not> completed l \<and> int (solPaidMask l) mod 2 ^ 32 = fullU32Mask (length (ar_shares R)))
     \<and> (\<not> ar_hasPlan R \<or> read_plan R (\<lambda>p. case p of None \<Rightarrow> True | Some p \<Rightarrow> int (ap_paidMask p) = fullU64Mask (length (assignments p))))"

text \<open>
  The calls of the transaction service that a run may make; \<open>c\<close> is the call. Token programs, addresses
  and missing accounts are looked up inside the call.
\<close>

inductive app_call :: "('e app_world_scheme) app_run \<Rightarrow> ('e app_world_scheme, string) io \<Rightarrow> bool" for R where
  ac_begin: "read_log R (\<lambda>l. l = None) \<Longrightarrow> app_call R (crankBeginExecution (ar_env R) (ar_rpc R) (ar_agent R) (ar_owner R) (ar_hasPlan R))"
| ac_snapshot: "read_dist R mint (\<lambda>d. d = None) \<Longrightarrow>
    app_call R (crankBeginTokenDist (ar_env R) (ar_rpc R) (ar_agent R) (ar_owner R) mint (ar_hasPlan R))"
| ac_specific_sol: "read_plan R (\<lambda>x. x = Some p) \<Longrightarrow> j < length (assignments p) \<Longrightarrow> \<not> bigint_bit_set (int (ap_paidMask p)) j \<Longrightarrow>
    a_mint (assignments p ! j) = default_pubkey \<Longrightarrow> beneficiaryIndex (assignments p ! j) < length (ar_shares R) \<Longrightarrow>
    app_call R (crankExecuteSpecificSol (ar_env R) (ar_rpc R) (ar_agent R) (ar_owner R) j
      (fst (ar_shares R ! beneficiaryIndex (assignments p ! j))))"
| ac_specific_asset: "read_plan R (\<lambda>x. x = Some p) \<Longrightarrow> j < length (assignments p) \<Longrightarrow> \<not> bigint_bit_set (int (ap_paidMask p)) j \<Longrightarrow>
    a_mint (assignments p ! j) \<noteq> default_pubkey \<Longrightarrow> beneficiaryIndex (assignments p ! j) < length (ar_shares R) \<Longrightarrow>
    app_call R (crankExecuteSpecificAsset (ar_env R) (ar_rpc R) (ar_agent R) (ar_owner R) (a_mint (assignments p ! j)) j
      (fst (ar_shares R ! beneficiaryIndex (assignments p ! j))))"
| ac_sol: "read_log R (\<lambda>x. x = l) \<Longrightarrow> owed_batch R (case l of Some l \<Rightarrow> solPaidMask l | None \<Rightarrow> 0) idxs \<Longrightarrow>
    app_call R (crankExecuteSolShares (ar_env R) (ar_rpc R) (ar_agent R) (ar_owner R) idxs (map (\<lambda>i. fst (ar_shares R ! i)) idxs))"
| ac_tokens: "read_dist R mint (\<lambda>x. x = Some d) \<Longrightarrow> owed_batch R (td_paidMask d) idxs \<Longrightarrow>
    app_call R (crankExecuteTokenShares (ar_env R) (ar_rpc R) (ar_agent R) (ar_owner R) mint idxs (map (\<lambda>i. fst (ar_shares R ! i)) idxs))"
| ac_finalize: "app_may_finalize R \<Longrightarrow> app_call R (crankFinalize (ar_env R) (ar_rpc R) (ar_agent R) (ar_owner R) (ar_hasPlan R))"
| ac_close: "read_dist R mint (\<lambda>x. x = Some d) \<Longrightarrow> int (td_paidMask d) mod 2 ^ 32 = fullU32Mask (length (ar_shares R)) \<Longrightarrow>
    app_call R (crankCloseTokenDist (ar_env R) (ar_rpc R) (ar_agent R) (ar_owner R) mint (ar_largest R))"

text \<open>A run for the owner's vault as read, with the agent key.\<close>

definition app_due :: "('e app_world_scheme) app_deps \<Rightarrow> pubkey \<Rightarrow> ('e app_world_scheme) app_run \<Rightarrow> bool" where
  "app_due A owner R \<longleftrightarrow>
     ar_deps R = A \<and> ar_owner R = owner \<and> answered (ad_getKeypair A) (\<lambda>k. k = ar_agent R)
     \<and> (\<exists>c. answered (fetchVaultConfig (ad_env A) (ad_rpc A) owner) (\<lambda>x. x = Some c) \<and> ar_shares R = shares c
          \<and> ar_hasPlan R = hasAssetPlan c)"

definition app_reads :: "('e app_world_scheme \<Rightarrow> bool) \<Rightarrow> ('e app_world_scheme) app_deps \<Rightarrow> pubkey \<Rightarrow> bool" where
  "app_reads I A owner \<longleftrightarrow>
     preserves I (fetchVaultConfig (ad_env A) (ad_rpc A) owner) \<and> preserves I (fetchExecutionLog (ad_env A) (ad_rpc A) owner)
     \<and> preserves I (fetchAssetPlan (ad_env A) (ad_rpc A) owner) \<and> (\<forall>mint. preserves I (fetchTokenDist (ad_env A) (ad_rpc A) owner mint))
     \<and> preserves I (getVaultTokenBalances (ad_env A) (ad_rpc A) (getVaultPDA (ad_env A) owner))
     \<and> preserves I (getOnChainDeadline (ad_env A) (ad_rpc A) owner) \<and> preserves I (ad_blockTime A) \<and> (\<forall>ms. preserves I (ad_sleep A ms))
     \<and> preserves I (ad_getKeypair A)"

lemma benef_at_answer: "answered (benef_at ws i) (\<lambda>x. x = k) \<Longrightarrow> i < length ws \<and> k = ws ! i"
  by (auto simp: answered_def benef_at_def ret_apply throw_apply split: if_splits)

lemma app_steps_outside:
  assumes "app_reads (outside J) (ar_deps R) (ar_owner R)" and calls: "\<And>c. app_call R c \<Longrightarrow> preserves (outside J) c"
  shows "preserves (outside J) (app_steps R)"
proof -
  have reads: "preserves (outside J) (fetchExecutionLog (ar_env R) (ar_rpc R) (ar_owner R))"
    "preserves (outside J) (fetchAssetPlan (ar_env R) (ar_rpc R) (ar_owner R))"
    "\<And>mint. preserves (outside J) (fetchTokenDist (ar_env R) (ar_rpc R) (ar_owner R) mint)"
    "preserves (outside J) (getVaultTokenBalances (ar_env R) (ar_rpc R) (getVaultPDA (ar_env R) (ar_owner R)))"
    using assms(1) by (simp_all add: app_reads_def)
  note go = preserves_bindE preserves_forE preserves_intro reads
  have bgn: "preserves (outside J) (app_begin R)" unfolding app_begin_def
    by (intro go calls ac_begin) (simp add: read_log_def)
  have snap: "preserves (outside J) (app_snapshots R mints)" for mints unfolding app_snapshots_def
    by (intro go calls ac_snapshot) (simp add: read_dist_def)
  have pay: "preserves (outside J) (app_pay R j (assignments p ! j))"
    if "read_plan R (\<lambda>x. x = Some p)" "j < length (assignments p)" "\<not> bigint_bit_set (int (ap_paidMask p)) j" for p j
    unfolding app_pay_def
  proof (intro go calls)
    fix benef
    assume b: "answered (benef_at (map fst (ar_shares R)) (beneficiaryIndex (assignments p ! j))) (\<lambda>x. x = benef)"
    from benef_at_answer [OF b] have k: "beneficiaryIndex (assignments p ! j) < length (ar_shares R)"
      "benef = fst (ar_shares R ! beneficiaryIndex (assignments p ! j))" by simp_all
    show "a_mint (assignments p ! j) = default_pubkey \<Longrightarrow>
        app_call R (crankExecuteSpecificSol (ar_env R) (ar_rpc R) (ar_agent R) (ar_owner R) j benef)"
      unfolding k(2) by (rule ac_specific_sol [OF that _ k(1)])
    show "a_mint (assignments p ! j) \<noteq> default_pubkey \<Longrightarrow>
        app_call R (crankExecuteSpecificAsset (ar_env R) (ar_rpc R) (ar_agent R) (ar_owner R) (a_mint (assignments p ! j)) j benef)"
      unfolding k(2) by (rule ac_specific_asset [OF that _ k(1)])
  qed
  have bequests: "preserves (outside J) (app_bequests R plan stuck)" for plan stuck
    unfolding app_bequests_def app_bequest_def Let_def
    by (intro go runStep_outside pay) (simp_all add: read_plan_def)
  have sol: "preserves (outside J) (app_sol R)" unfolding app_sol_def
    by (intro go runBatch_outside calls ac_sol) (auto simp: read_log_def owed_batch_def split: option.splits)
  have fin: "preserves (outside J) (app_finalize R)" unfolding app_finalize_def
  proof (intro go runStep_outside calls ac_finalize)
    fix execLog assetDone l
    assume l: "answered (fetchExecutionLog (ar_env R) (ar_rpc R) (ar_owner R)) (\<lambda>x. x = execLog)" "execLog = Some l"
      and a: "answered (if ar_hasPlan R then bindE (fetchAssetPlan (ar_env R) (ar_rpc R) (ar_owner R)) (\<lambda>ap.
              ret (case ap of None \<Rightarrow> True | Some p \<Rightarrow> int (ap_paidMask p) = fullU64Mask (length (assignments p))))
            else ret True) (\<lambda>x. x = assetDone)"
      and f: "\<not> completed l \<and> int (solPaidMask l) mod 2 ^ 32 = fullU32Mask (length (ar_shares R)) \<and> assetDone"
    have "read_log R (\<lambda>l. case l of None \<Rightarrow> False
       | Some l \<Rightarrow> \<not> completed l \<and> int (solPaidMask l) mod 2 ^ 32 = fullU32Mask (length (ar_shares R)))"
      unfolding read_log_def by (rule answered_mono [OF l(1)]) (use l(2) f in simp)
    moreover have "read_plan R (\<lambda>p. case p of None \<Rightarrow> True | Some p \<Rightarrow> int (ap_paidMask p) = fullU64Mask (length (assignments p)))"
      if "ar_hasPlan R"
    proof -
      have "answered (bindE (fetchAssetPlan (ar_env R) (ar_rpc R) (ar_owner R)) (\<lambda>ap.
          ret (case ap of None \<Rightarrow> True | Some p \<Rightarrow> int (ap_paidMask p) = fullU64Mask (length (assignments p))))) (\<lambda>x. x = assetDone)"
        using a that by simp
      then obtain ap where "answered (fetchAssetPlan (ar_env R) (ar_rpc R) (ar_owner R)) (\<lambda>x. x = ap)"
        "answered (ret (case ap of None \<Rightarrow> True | Some p \<Rightarrow> int (ap_paidMask p) = fullU64Mask (length (assignments p))) ::
           ('a app_world_scheme, bool) io) (\<lambda>x. x = assetDone)"
        by (rule answered_bindE)
      then show ?thesis unfolding read_plan_def using f by (auto elim: answered_mono)
    qed
    ultimately show "app_may_finalize R" by (auto simp: app_may_finalize_def)
  qed
  have tokens: "preserves (outside J) (app_tokens R mints stuck)" for mints stuck
    unfolding app_tokens_def app_token_shares_def
    by (intro go runBatch_outside calls ac_tokens) (auto simp: read_dist_def owed_batch_def)
  have closes: "preserves (outside J) (app_closes R mints stuck)" for mints stuck
    unfolding app_closes_def by (intro go runStep_outside calls ac_close) (auto simp: read_dist_def)
  have finish: "preserves (outside J) (app_finish R)"
    unfolding app_finish_def reset_escalation_store_def notify_def by (intro go preserves_modify) simp_all
  show ?thesis unfolding app_steps_def Let_def
    by (intro preserves_bindE preserves_if preserves_ret reads bgn snap bequests sol fin tokens closes finish mirror_outside)
qed

lemma wait_outside:
  assumes "app_reads I A owner"
  shows "preserves I (waitForOnChainDeadline A owner)"
proof -
  have "preserves I (wait_rounds A owner start n)" for start n
  proof (induction n)
    case (Suc n)
    then show ?case using assms by (auto simp: app_reads_def intro!: preserves_bindE preserves_intro)
  qed (simp add: preserves_def)
  then show ?thesis unfolding waitForOnChainDeadline_def by (intro preserves_bindE preserves_intro)
qed

lemma execute_outside:
  assumes "app_reads (outside J) A owner" "\<And>R c. app_due A owner R \<Longrightarrow> app_call R c \<Longrightarrow> preserves (outside J) c"
  shows "preserves (outside J) (execute A owner)"
  unfolding execute_def execute_body_def
proof (intro preserves_bindE preserves_intro preserves_finallyE preserves_modify wait_outside [OF assms(1)])
  show "preserves (outside J) (fetchVaultConfig (ad_env A) (ad_rpc A) owner)" "preserves (outside J) (ad_getKeypair A)"
    using assms(1) by (simp_all add: app_reads_def)
  fix config c agent largest
  assume c: "answered (fetchVaultConfig (ad_env A) (ad_rpc A) owner) (\<lambda>x. x = config)" "config = Some c"
    and k: "answered (ad_getKeypair A) (\<lambda>x. x = agent)"
  let ?R = "\<lparr>ar_deps = A, ar_owner = owner, ar_text = b58 (ad_env A) owner, ar_agent = agent, ar_hasPlan = hasAssetPlan c,
    ar_shares = shares c, ar_largest = largest\<rparr>"
  have "app_due A owner ?R" using c k by (auto simp: app_due_def)
  from assms(2) [OF this] show "preserves (outside J) (app_steps ?R)" by (intro app_steps_outside) (simp_all add: assms(1))
qed simp_all

lemma execute_contained:
  "fst (execute A owner w) = Inr () \<and> (if ax_running w then snd (execute A owner w) = w else \<not> ax_running (snd (execute A owner w)))"
proof (cases "ax_running w")
  case False
  obtain r v where run: "execute_body A owner (w\<lparr>ax_running := True\<rparr>) = (r, v)" by fastforce
  then show ?thesis using False
    by (cases r) (simp_all add: execute_def bindE_def finallyE_def tryE_def note_exec_def)
qed (simp add: execute_def bindE_def ret_apply)

end
