(* ===== verification/Keeper_Crank.thy ===== *)
theory Keeper_Crank
  imports Srv_Exec
begin

text \<open>
  The keeper bot's crank (\<open>keeper-bot/src/crank.js\<close>, with \<open>withTimeout\<close> of \<open>readiness.js\<close>): the
  guard that asks again before every submission, the decision on a fault, the bounded reads of a
  pass, the crank of one vault and the clean-up of an executed one. The steps of the crank are those
  of \<open>crank.js\<close> line by line; that they do what the server's \<open>executor.js\<close> does is a lemma
  (\<open>keeper_steps_composed\<close>). Shared with \<open>Srv_Exec\<close>: the records, \<open>computeBudget.js\<close> (the same file in
  both packages), the derivation of addresses, and \<open>e.message\<close>.
\<close>

subsection \<open>The guard and the faults\<close>

definition KEEPER_HALT :: string where
  "KEEPER_HALT = ''__KEEPER_READINESS_REVOKED__''"

text \<open>\<open>None\<close>: \<open>canSubmit\<close> is no function.\<close>

definition makeKeeperGuard :: "('w, bool) io option \<Rightarrow> ('w, unit) io" where
  "makeKeeperGuard canSubmit =
     bindE (tryE (case canSubmit of None \<Rightarrow> ret False | Some ask \<Rightarrow> ask) (\<lambda>_. throw (Error KEEPER_HALT))) (\<lambda>ok.
     if \<not> ok then throw (Error KEEPER_HALT) else ret ())"

text \<open>The alternatives of the two regular expressions.\<close>

definition k_transport_codes :: "string list" where
  "k_transport_codes = [''econnrefused'', ''econnreset'', ''enotfound'', ''eai_again'', ''etimedout'', ''epipe'', ''und_err'']"

definition k_operational_texts :: "string list" where
  "k_operational_texts = [''blockhash not found'', ''transaction simulation failed'', ''simulation failed'', ''preflight'',
     ''custom program error'', ''timed out'', ''request timed out'', ''timeout of'', ''429'', ''too many requests'', ''rate limit'',
     ''econnrefused'', ''econnreset'', ''enotfound'', ''eai_again'', ''getaddrinfo'', ''etimedout'', ''epipe'', ''und_err'',
     ''network error'', ''socket hang up'', ''node is behind'', ''insufficient funds'', ''insufficient lamports'',
     ''closedelaynotelapsed'', ''already been processed'', ''not been confirmed'', ''not confirmed in'', ''block height exceeded'',
     ''signature verification'', ''account does not exist'', ''account not exist'', ''accountnotinitialized'']"

definition isOperationalCrankError :: "js_error \<Rightarrow> bool" where
  "isOperationalCrankError e =
     (let m = to_lower (je_message e); code = to_lower (je_code e) in
      je_name e = ''TimeoutError''
      \<or> js_trim m = ''fetch failed''
      \<or> (\<exists>p \<in> set k_transport_codes. take (length p) code = p)
      \<or> (\<not> je_native e
         \<and> (je_name e = ''SendTransactionError'' \<or> je_name e = ''AnchorError'' \<or> je_name e = ''ProgramError''
            \<or> je_logs e \<or> (\<exists>x \<in> set k_operational_texts. text_includes m x))))"

datatype vault_decision = Dec_halt | Dec_skip | Dec_fatal

definition classifyVaultError :: "js_error \<Rightarrow> vault_decision" where
  "classifyVaultError e =
     (if je_message e = KEEPER_HALT then Dec_halt
      else if je_name e = ''TimeoutError'' then Dec_skip
      else if isOperationalCrankError e then Dec_skip else Dec_fatal)"

definition isTransientScanError :: "js_error \<Rightarrow> bool" where
  "isTransientScanError e \<longleftrightarrow> je_name e = ''TimeoutError'' \<or> isOperationalCrankError e"

subsection \<open>Bounded reads\<close>

text \<open>
  The keeper's shared context and module memory: the deadline of the pass, the fee of the pass, the
  revalidator's cache (no stamp: \<open>-Infinity\<close>), and the counters of the tick.
\<close>

record keeper_world =
  kw_deadline :: "int option"
  kw_fee :: int
  kw_live :: bool
  kw_lastOkAt :: "int option"
  kw_due :: nat
  kw_cleaned :: nat

text \<open>
  \<open>kd_fires ms w w'\<close>: a timer of \<open>ms\<close> started at \<open>w\<close> fires before the call that leads to \<open>w'\<close> settles
  (a call that never settles is one whose timer fires). \<open>kd_text\<close> is the string form of an error of
  other code; \<open>kd_passMs\<close> is \<open>ctx.passDeadlineMs\<close>.
\<close>

record 'w keeper_deps =
  kd_exec :: "'w exec_deps"
  kd_clock :: "'w \<Rightarrow> int"
  kd_fires :: "int \<Rightarrow> 'w \<Rightarrow> 'w \<Rightarrow> bool"
  kd_passMs :: "int option"
  kd_text :: "nat \<Rightarrow> string"
  kd_payer :: pubkey

definition withTimeout :: "(int \<Rightarrow> 'w \<Rightarrow> 'w \<Rightarrow> bool) \<Rightarrow> ('w, 'a) io \<Rightarrow> int \<Rightarrow> string \<Rightarrow> ('w, 'a) io" where
  "withTimeout fires m ms label w =
     (case m w of (r, w') \<Rightarrow>
        if fires ms w w' then (Inl (TimedOut (if label = [] then ''timeout'' else ''timeout: '' @ label)), w') else (r, w'))"

definition ACCT_INFO_TIMEOUT_MS :: int where
  "ACCT_INFO_TIMEOUT_MS = 8000"

definition VAULT_PASS_DEADLINE_MS :: int where
  "VAULT_PASS_DEADLINE_MS = 25000"

definition readWithin :: "('e keeper_world_scheme) keeper_deps \<Rightarrow> ('e keeper_world_scheme, 'a) io \<Rightarrow> string \<Rightarrow> ('e keeper_world_scheme, 'a) io" where
  "readWithin D m label =
     bindE (gets kw_deadline) (\<lambda>deadline. bindE (gets (kd_clock D)) (\<lambda>now.
     withTimeout (kd_fires D) m
       (case deadline of Some d \<Rightarrow> if d \<noteq> 0 then max 1 (d - now) else ACCT_INFO_TIMEOUT_MS | None \<Rightarrow> ACCT_INFO_TIMEOUT_MS) label))"

text \<open>The reads of a pass; the account look-up here is the one of \<open>ensureAta\<close>.\<close>

definition bounded_deps :: "('e keeper_world_scheme) keeper_deps \<Rightarrow> ('e keeper_world_scheme) exec_deps" where
  "bounded_deps D =
     (kd_exec D)\<lparr>xd_vault := (\<lambda>k. readWithin D (xd_vault (kd_exec D) k) ''vaultConfig''),
       xd_execLog := (\<lambda>k. readWithin D (xd_execLog (kd_exec D) k) ''executionLog''),
       xd_plan := (\<lambda>k. readWithin D (xd_plan (kd_exec D) k) ''assetPlan''),
       xd_tokenDist := (\<lambda>k. readWithin D (xd_tokenDist (kd_exec D) k) ''tokenDist''),
       xd_holdings := (\<lambda>k p. readWithin D (xd_holdings (kd_exec D) k p) ''token-accounts''),
       xd_accountOwner := (\<lambda>k. withTimeout (kd_fires D) (xd_accountOwner (kd_exec D) k) ACCT_INFO_TIMEOUT_MS ''ata-lookup''),
       xd_getAccount := (\<lambda>k p. readWithin D (xd_getAccount (kd_exec D) k p) ''vault-ata'')\<rparr>"

fun keeper_info_retry :: "'w keeper_deps \<Rightarrow> pubkey \<Rightarrow> nat \<Rightarrow> nat \<Rightarrow> ('w, pubkey option) io" where
  "keeper_info_retry D k 0 i = ret None"
| "keeper_info_retry D k (Suc left) i =
     bindE (tryE (withTimeout (kd_fires D) (xd_accountOwner (kd_exec D) k) ACCT_INFO_TIMEOUT_MS ''account-info'')
       (\<lambda>e. let v = error_view (xd_ext (kd_exec D)) e in
          if je_name v \<noteq> ''TimeoutError'' \<and> \<not> isOperationalCrankError v then throw e else ret None)) (\<lambda>acc.
     if acc \<noteq> None then ret acc
     else seqE (if left \<noteq> 0 then xd_sleep (kd_exec D) (200 * (int i + 1)) else ret ()) (keeper_info_retry D k left (Suc i)))"

definition keeper_getAccountInfoRetry :: "'w keeper_deps \<Rightarrow> pubkey \<Rightarrow> ('w, pubkey option) io" where
  "keeper_getAccountInfoRetry D k = keeper_info_retry D k 4 0"

subsection \<open>The mints\<close>

definition keeper_add_planned ::
  "('e keeper_world_scheme) keeper_deps \<Rightarrow> assignment \<Rightarrow> mint_map \<Rightarrow> ('e keeper_world_scheme, mint_map) io" where
  "keeper_add_planned D a m =
     (if a_mint a = default_pubkey then ret m
      else let key = b58 (xd_env (kd_exec D)) (a_mint a) in
      case map_of m key of
        Some prev \<Rightarrow> ret (jsmap_set key (prev\<lparr>me_inPlan := True\<rparr>) m)
      | None \<Rightarrow>
          bindE (readWithin D (keeper_getAccountInfoRetry D (a_mint a)) ''mint-owner'') (\<lambda>acc.
          ret (case acc of None \<Rightarrow> m | Some pid \<Rightarrow> jsmap_set key \<lparr>me_program = pid, me_amount = 0, me_inPlan = True\<rparr> m)))"

text \<open>\<open>[...planMints, ...heldOnly.slice(0, Math.max(0, MAX_AUTO_MINTS - planMints.length))]\<close>.\<close>

definition keeper_choose_mints :: "mint_map \<Rightarrow> mint_map" where
  "keeper_choose_mints info =
     (let planMints = filter (\<lambda>(k, v). me_inPlan v) info;
          heldOnly = sort_key (\<lambda>(k, v). - me_amount v) (filter (\<lambda>(k, v). \<not> me_inPlan v) info)
      in planMints @ take (MAX_AUTO_MINTS - length planMints) heldOnly)"

definition keeper_collectMints ::
  "('e keeper_world_scheme) keeper_deps \<Rightarrow> pubkey \<Rightarrow> asset_plan option \<Rightarrow> ('e keeper_world_scheme, (pubkey \<times> pubkey) list) io" where
  "keeper_collectMints D vault plan =
     (let K = kd_exec D in
     bindE (forE [token_program (xd_env K), token_2022_program (xd_env K)] [] (\<lambda>pid m.
       bindE (readWithin D (xd_holdings K vault pid) ''token-accounts'') (\<lambda>held. ret (fold (add_held pid) held m)))) (\<lambda>held.
     bindE (case plan of None \<Rightarrow> ret held | Some p \<Rightarrow> forE (assignments p) held (keeper_add_planned D)) (\<lambda>info.
     forE (keeper_choose_mints info) [] (\<lambda>(key, v) out.
       bindE (liftE (xd_decodeKey K key)) (\<lambda>mint. ret (out @ [(mint, me_program v)]))))))"

subsection \<open>The crank of a vault\<close>

record k_vault = x_vault +
  kv_active :: bool

text \<open>\<open>[...new Set(skipped.map(s => s.mint.slice(0, 8)))].join(',')\<close> and the text around it.\<close>

definition join_comma :: "string list \<Rightarrow> string" where
  "join_comma xs = (case xs of [] \<Rightarrow> [] | x # rest \<Rightarrow> x @ concat (map (\<lambda>y. '','' @ y) rest))"

definition pass_text :: "string \<Rightarrow> (string \<times> string) list \<Rightarrow> string" where
  "pass_text base skipped =
     (if skipped = [] then base
      else base @ '' (skipped '' @ int_str (int (length skipped)) @ '': ''
        @ join_comma (fold (\<lambda>m seen. if m \<in> set seen then seen else seen @ [m]) (map (take 8 \<circ> fst) skipped) []) @ '')'')"

definition pass_run :: "('e keeper_world_scheme) keeper_deps \<Rightarrow> pubkey \<Rightarrow> k_vault \<Rightarrow> ('e keeper_world_scheme, bool) io \<Rightarrow> ('e keeper_world_scheme) crank_run" where
  "pass_run D vault cfg ask =
     \<lparr>cr_deps = bounded_deps D, cr_guard = makeKeeperGuard (Some ask), cr_payer = kd_payer D, cr_fee = kw_fee, cr_vault = vault,
      cr_benefs = xv_beneficiaries cfg, cr_hasPlan = xv_hasPlan cfg, cr_owner = xv_owner cfg, cr_halt = KEEPER_HALT\<rparr>"

subsection \<open>The steps of a pass\<close>

text \<open>
  \<open>R\<close> holds the variables of \<open>crankVault\<close> that its steps use: the guard, the payer, the fee, the
  vault, its beneficiaries and whether it has a plan.
\<close>

type_synonym ('e, 'a) kio = "('e keeper_world_scheme, 'a) io"
type_synonym 'e kpass = "('e keeper_world_scheme) crank_run"

definition k_env :: "('e keeper_world_scheme) keeper_deps \<Rightarrow> env" where
  "k_env D = xd_env (kd_exec D)"

definition k_heartbeatPda :: "('e keeper_world_scheme) keeper_deps \<Rightarrow> pubkey \<Rightarrow> pubkey" where
  "k_heartbeatPda D vault = pda (k_env D) [seed ''heartbeat'', vault]"

definition k_executionPda :: "('e keeper_world_scheme) keeper_deps \<Rightarrow> pubkey \<Rightarrow> pubkey" where
  "k_executionPda D vault = pda (k_env D) [seed ''execution'', vault]"

definition k_assetPlanPda :: "('e keeper_world_scheme) keeper_deps \<Rightarrow> pubkey \<Rightarrow> pubkey" where
  "k_assetPlanPda D vault = pda (k_env D) [seed ''asset_plan'', vault]"

definition k_tokenDistPda :: "('e keeper_world_scheme) keeper_deps \<Rightarrow> pubkey \<Rightarrow> pubkey \<Rightarrow> pubkey" where
  "k_tokenDistPda D vault mint = pda (k_env D) [seed ''token_dist'', vault, mint]"

definition k_bitSet :: "nat \<Rightarrow> nat \<Rightarrow> bool" where
  "k_bitSet msk i \<longleftrightarrow> (drop_bit i msk AND 1) = 1"

definition k_fullMask :: "nat \<Rightarrow> nat" where
  "k_fullMask n = push_bit n 1 - 1"

text \<open>The loop of \<open>chunk\<close>, with the batches pushed so far; only ever called with \<open>n = BATCH\<close>.\<close>

function k_chunk_loop :: "'a list \<Rightarrow> nat \<Rightarrow> nat \<Rightarrow> 'a list list \<Rightarrow> 'a list list" where
  "k_chunk_loop arr n i out = (if i < length arr \<and> 0 < n then k_chunk_loop arr n (i + n) (out @ [take n (drop i arr)]) else out)"
  by pat_completeness auto
termination
  by (relation "measure (\<lambda>(arr, n, i, out). length arr - i)") auto

declare k_chunk_loop.simps [simp del]

definition k_chunk :: "'a list \<Rightarrow> 'a list list" where
  "k_chunk arr = k_chunk_loop arr 8 0 []"

fun k_largest_loop :: "beneficiary list \<Rightarrow> nat \<Rightarrow> nat \<Rightarrow> int \<Rightarrow> nat" where
  "k_largest_loop [] i best bestBps = best"
| "k_largest_loop (b # bs) i best bestBps =
     (if bestBps < int (shareBps b) then k_largest_loop bs (Suc i) i (int (shareBps b)) else k_largest_loop bs (Suc i) best bestBps)"

definition k_largestShareIndex :: "beneficiary list \<Rightarrow> nat" where
  "k_largestShareIndex bs = k_largest_loop bs 0 0 (- 1)"

definition k_unpaid :: "'e kpass \<Rightarrow> nat \<Rightarrow> nat list" where
  "k_unpaid R msk = filter (\<lambda>i. \<not> k_bitSet msk i) [0..<length (cr_benefs R)]"

text \<open>\<open>await guard(); await program.methods...preInstructions([...cuIxs(unit, ctx.priorityFee), ...pre]).rpc()\<close>.\<close>

definition k_rpc :: "('e keeper_world_scheme) keeper_deps \<Rightarrow> 'e kpass \<Rightarrow> crank_step \<Rightarrow> instruction list \<Rightarrow> instruction \<Rightarrow> ('e, unit) kio" where
  "k_rpc D R k pre ix = seqE (cr_guard R) (bindE (gets (cr_fee R)) (\<lambda>fee. xd_send (kd_exec D) (cuIxs (CU k) fee @ pre @ [ix])))"

definition k_ensureAta :: "('e keeper_world_scheme) keeper_deps \<Rightarrow> 'e kpass \<Rightarrow> pubkey \<Rightarrow> pubkey \<Rightarrow> pubkey \<Rightarrow> pubkey \<Rightarrow> ('e, unit) kio" where
  "k_ensureAta D R ataKey mint ow programId =
     bindE (withTimeout (kd_fires D) (xd_accountOwner (kd_exec D) ataKey) ACCT_INFO_TIMEOUT_MS ''ata-lookup'') (\<lambda>info.
     case info of
       Some _ \<Rightarrow> ret ()
     | None \<Rightarrow> k_rpc D R Do_ata [] (CreateAtaIdempotent (cr_payer R) ataKey ow mint programId))"

text \<open>The catch of a step.\<close>

definition k_catch :: "('e keeper_world_scheme) keeper_deps \<Rightarrow> ('e, 'a) kio \<Rightarrow> 'a \<Rightarrow> ('e, 'a) kio" where
  "k_catch D m a =
     tryE m (\<lambda>e. let v = error_view (xd_ext (kd_exec D)) e in
       if je_message v = KEEPER_HALT then throw e else if \<not> isOperationalCrankError v then throw e else ret a)"

definition k_markStuck :: "('e keeper_world_scheme) keeper_deps \<Rightarrow> pubkey \<Rightarrow> string \<Rightarrow> crank_acc \<Rightarrow> crank_acc" where
  "k_markStuck D mint step acc =
     (let s = b58 (k_env D) mint in
      \<lparr>ck_stuck = (if s \<in> set (ck_stuck acc) then ck_stuck acc else s # ck_stuck acc), ck_skipped = ck_skipped acc @ [(s, step)]\<rparr>)"

definition k_isStuck :: "('e keeper_world_scheme) keeper_deps \<Rightarrow> pubkey \<Rightarrow> crank_acc \<Rightarrow> bool" where
  "k_isStuck D mint acc \<longleftrightarrow> b58 (k_env D) mint \<in> set (ck_stuck acc)"

definition k_ata :: "('e keeper_world_scheme) keeper_deps \<Rightarrow> pubkey \<Rightarrow> pubkey \<Rightarrow> bool \<Rightarrow> pubkey \<Rightarrow> ('e, pubkey) kio" where
  "k_ata D mint ow allowOffCurve programId = liftE (ata (k_env D) mint ow allowOffCurve programId)"

text \<open>\<open>hasPlan ? assetPlanPda(programId, vault) : null\<close>, and the plan as read.\<close>

definition k_plan_arg :: "('e keeper_world_scheme) keeper_deps \<Rightarrow> 'e kpass \<Rightarrow> pubkey option" where
  "k_plan_arg D R = (if cr_hasPlan R then Some (k_assetPlanPda D (cr_vault R)) else None)"

definition k_read_plan :: "('e keeper_world_scheme) keeper_deps \<Rightarrow> 'e kpass \<Rightarrow> ('e, asset_plan option) kio" where
  "k_read_plan D R =
     (if cr_hasPlan R then
        bindE (fetched (readWithin D (xd_plan (kd_exec D) (k_assetPlanPda D (cr_vault R))) ''assetPlan'')) (\<lambda>p. ret (Some p))
      else ret None)"

definition k_read_log :: "('e keeper_world_scheme) keeper_deps \<Rightarrow> 'e kpass \<Rightarrow> ('e, execution_log option) kio" where
  "k_read_log D R = readWithin D (xd_execLog (kd_exec D) (k_executionPda D (cr_vault R))) ''executionLog''"

definition k_read_dist :: "('e keeper_world_scheme) keeper_deps \<Rightarrow> 'e kpass \<Rightarrow> pubkey \<Rightarrow> ('e, token_dist option) kio" where
  "k_read_dist D R mint = readWithin D (xd_tokenDist (kd_exec D) (k_tokenDistPda D (cr_vault R) mint)) ''tokenDist''"

definition k_wallet :: "'e kpass \<Rightarrow> nat \<Rightarrow> ('e, pubkey) kio" where
  "k_wallet R i = (if i < length (cr_benefs R) then ret (wallet (cr_benefs R ! i)) else throw TypeError)"

text \<open>1. \<open>begin_execution\<close>.\<close>

definition k_begin :: "('e keeper_world_scheme) keeper_deps \<Rightarrow> 'e kpass \<Rightarrow> ('e, unit) kio" where
  "k_begin D R =
     bindE (k_read_log D R) (\<lambda>execLog.
     case execLog of
       Some _ \<Rightarrow> ret ()
     | None \<Rightarrow>
         seqE (k_rpc D R Do_begin []
           (ProgIx BeginExecution
             [(Payer, Some (cr_payer R)), (VaultConfig, Some (cr_vault R)), (HeartbeatRecord, Some (k_heartbeatPda D (cr_vault R))),
              (ExecutionLog, Some (k_executionPda D (cr_vault R))), (AssetPlan, k_plan_arg D R),
              (SystemProgram, Some (system_program (k_env D)))] []))
         (bindE (fetched (k_read_log D R)) (\<lambda>_. ret ())))"

text \<open>2. \<open>begin_token_dist\<close> per mint.\<close>

definition k_begin_dists :: "('e keeper_world_scheme) keeper_deps \<Rightarrow> 'e kpass \<Rightarrow> (pubkey \<times> pubkey) list \<Rightarrow> crank_acc \<Rightarrow> ('e, crank_acc) kio" where
  "k_begin_dists D R mints acc =
     forE mints acc (\<lambda>(mint, tokenPid) acc.
       bindE (k_read_dist D R mint) (\<lambda>td.
       case td of
         Some _ \<Rightarrow> ret acc
       | None \<Rightarrow>
           k_catch D
             (bindE (k_ata D mint (cr_vault R) True tokenPid) (\<lambda>vaultAta.
              seqE (k_ensureAta D R vaultAta mint (cr_vault R) tokenPid) (
              seqE (k_rpc D R Do_begin_dist []
                (ProgIx BeginTokenDist
                  [(Payer, Some (cr_payer R)), (VaultConfig, Some (cr_vault R)),
                   (ExecutionLog, Some (k_executionPda D (cr_vault R))), (Mint, Some mint), (VaultAta, Some vaultAta),
                   (AssetPlan, k_plan_arg D R), (TokenDist, Some (k_tokenDistPda D (cr_vault R) mint)),
                   (SystemProgram, Some (system_program (k_env D)))] []))
              (ret acc))))
             (k_markStuck D mint ''begin_token_dist'' acc)))"

text \<open>3. The specific bequests.\<close>

definition k_pay_sol :: "('e keeper_world_scheme) keeper_deps \<Rightarrow> 'e kpass \<Rightarrow> nat \<Rightarrow> pubkey \<Rightarrow> ('e, unit) kio" where
  "k_pay_sol D R j benWallet =
     k_rpc D R Do_specific_sol []
       (ProgIx (ExecuteSpecificSol j)
         [(Payer, Some (cr_payer R)), (VaultConfig, Some (cr_vault R)), (ExecutionLog, Some (k_executionPda D (cr_vault R))),
          (AssetPlan, Some (k_assetPlanPda D (cr_vault R))), (Beneficiary, Some benWallet)] [])"

definition k_pay_asset ::
  "('e keeper_world_scheme) keeper_deps \<Rightarrow> 'e kpass \<Rightarrow> (pubkey \<times> pubkey) list \<Rightarrow> nat \<Rightarrow> pubkey \<Rightarrow> pubkey \<Rightarrow> ('e, unit) kio" where
  "k_pay_asset D R mints j mint benWallet =
     (let tokenPid = (case List.find (\<lambda>(m, pid). m = mint) mints of Some (m, pid) \<Rightarrow> pid | None \<Rightarrow> token_program (k_env D)) in
      bindE (k_ata D mint (cr_vault R) True tokenPid) (\<lambda>vaultAta.
      bindE (k_ata D mint benWallet False tokenPid) (\<lambda>benAta.
      seqE (k_ensureAta D R benAta mint benWallet tokenPid)
      (k_rpc D R Do_specific_asset []
        (ProgIx (ExecuteSpecificAsset j)
          [(Payer, Some (cr_payer R)), (VaultConfig, Some (cr_vault R)), (ExecutionLog, Some (k_executionPda D (cr_vault R))),
           (AssetPlan, Some (k_assetPlanPda D (cr_vault R))), (Mint, Some mint),
           (TokenDist, Some (k_tokenDistPda D (cr_vault R) mint)), (VaultAta, Some vaultAta), (BeneficiaryAta, Some benAta),
           (TokenProgram, Some tokenPid)] [])))))"

definition k_bequests ::
  "('e keeper_world_scheme) keeper_deps \<Rightarrow> 'e kpass \<Rightarrow> (pubkey \<times> pubkey) list \<Rightarrow> asset_plan option \<Rightarrow> crank_acc \<Rightarrow> ('e, crank_acc) kio" where
  "k_bequests D R mints plan acc =
     (case plan of
        None \<Rightarrow> ret acc
      | Some p \<Rightarrow>
          forE (enumerate 0 (assignments p)) acc (\<lambda>(j, a) acc.
            let isSol = (a_mint a = default_pubkey) in
            if k_bitSet (ap_paidMask p) j then ret acc
            else if \<not> isSol \<and> k_isStuck D (a_mint a) acc then ret acc
            else
            bindE (k_wallet R (beneficiaryIndex a)) (\<lambda>benWallet.
            k_catch D
              (if isSol then seqE (k_pay_sol D R j benWallet) (ret acc)
               else seqE (k_pay_asset D R mints j (a_mint a) benWallet) (ret acc))
              (if isSol then acc\<lparr>ck_skipped := ck_skipped acc @ [(''SOL'', ''execute_specific_sol'')]\<rparr>
               else k_markStuck D (a_mint a) ''execute_specific_asset'' acc))))"

text \<open>4. The SOL shares, and 5. the finalize.\<close>

definition k_sol_shares :: "('e keeper_world_scheme) keeper_deps \<Rightarrow> 'e kpass \<Rightarrow> ('e, unit) kio" where
  "k_sol_shares D R =
     bindE (fetched (k_read_log D R)) (\<lambda>execLog.
     forE (k_chunk (k_unpaid R (solPaidMask execLog))) () (\<lambda>part _.
       k_rpc D R Do_sol_shares []
         (ProgIx (ExecuteSolShares (buffer_from part))
           [(Payer, Some (cr_payer R)), (VaultConfig, Some (cr_vault R)), (ExecutionLog, Some (k_executionPda D (cr_vault R)))]
           (map (\<lambda>i. writable (wallet (cr_benefs R ! i))) part))))"

definition k_finalize :: "('e keeper_world_scheme) keeper_deps \<Rightarrow> 'e kpass \<Rightarrow> crank_acc \<Rightarrow> ('e, unit) kio" where
  "k_finalize D R acc =
     bindE (fetched (k_read_log D R)) (\<lambda>execLog.
     bindE (k_read_plan D R) (\<lambda>plan.
     let solFull = (solPaidMask execLog = k_fullMask (length (cr_benefs R)));
         planFull = (case plan of None \<Rightarrow> True | Some p \<Rightarrow> ap_paidMask p = k_fullMask (length (assignments p))) in
     if \<not> completed execLog \<and> solFull \<and> planFull \<and> ck_stuck acc = [] then
       k_rpc D R Do_finalize []
         (ProgIx FinalizeExecution
           [(Payer, Some (cr_payer R)), (VaultConfig, Some (cr_vault R)), (ExecutionLog, Some (k_executionPda D (cr_vault R))),
            (AssetPlan, k_plan_arg D R)] [])
     else ret ()))"

text \<open>6. The token shares.\<close>

definition k_share_atas :: "('e keeper_world_scheme) keeper_deps \<Rightarrow> 'e kpass \<Rightarrow> pubkey \<Rightarrow> pubkey \<Rightarrow> nat list \<Rightarrow> ('e, pubkey list) kio" where
  "k_share_atas D R mint tokenPid part =
     forE part [] (\<lambda>i remaining.
       bindE (k_ata D mint (wallet (cr_benefs R ! i)) False tokenPid) (\<lambda>benAta.
       seqE (k_ensureAta D R benAta mint (wallet (cr_benefs R ! i)) tokenPid) (ret (remaining @ [benAta]))))"

definition k_token_shares :: "('e keeper_world_scheme) keeper_deps \<Rightarrow> 'e kpass \<Rightarrow> (pubkey \<times> pubkey) list \<Rightarrow> crank_acc \<Rightarrow> ('e, crank_acc) kio" where
  "k_token_shares D R mints acc =
     forE mints acc (\<lambda>(mint, tokenPid) acc.
       if k_isStuck D mint acc then ret acc
       else
       bindE (k_read_dist D R mint) (\<lambda>td.
       case td of
         None \<Rightarrow> ret acc
       | Some d \<Rightarrow>
           k_catch D
             (bindE (k_ata D mint (cr_vault R) True tokenPid) (\<lambda>vaultAta.
              seqE (forE (k_chunk (k_unpaid R (td_paidMask d))) () (\<lambda>part _.
                bindE (k_share_atas D R mint tokenPid part) (\<lambda>remaining.
                k_rpc D R Do_token_shares []
                  (ProgIx (ExecuteTokenShares (buffer_from part))
                    [(Payer, Some (cr_payer R)), (VaultConfig, Some (cr_vault R)),
                     (TokenDist, Some (k_tokenDistPda D (cr_vault R) mint)), (Mint, Some mint), (VaultAta, Some vaultAta),
                     (TokenProgram, Some tokenPid)] (map writable remaining)))))
              (ret acc)))
             (k_markStuck D mint ''execute_token_shares'' acc)))"

text \<open>7. The close of a fully paid distribution.\<close>

definition k_vault_dust :: "('e keeper_world_scheme) keeper_deps \<Rightarrow> pubkey \<Rightarrow> pubkey \<Rightarrow> ('e, int \<times> int) kio" where
  "k_vault_dust D vaultAta tokenPid =
     tryE
       (bindE (readWithin D (xd_getAccount (kd_exec D) vaultAta tokenPid) ''vault-ata'') (\<lambda>(amt, withheld).
        ret (amt, case withheld of None \<Rightarrow> 0 | Some f \<Rightarrow> f)))
       (\<lambda>e. let v = error_view (xd_ext (kd_exec D)) e;
               missing = (je_name v = ''TokenAccountNotFoundError'' \<or> je_name v = ''TokenInvalidAccountOwnerError'') in
            if \<not> missing \<and> \<not> isOperationalCrankError v then throw e else ret (0, 0))"

definition k_close_dist :: "('e keeper_world_scheme) keeper_deps \<Rightarrow> 'e kpass \<Rightarrow> pubkey \<Rightarrow> pubkey \<Rightarrow> pubkey \<Rightarrow> ('e, unit) kio" where
  "k_close_dist D R ow mint tokenPid =
     bindE (k_ata D mint (cr_vault R) True tokenPid) (\<lambda>vaultAta.
     bindE (k_wallet R (k_largestShareIndex (cr_benefs R))) (\<lambda>maxWallet.
     bindE (k_vault_dust D vaultAta tokenPid) (\<lambda>(dust, withheld).
     bindE (if 0 < dust then
              bindE (k_ata D mint maxWallet False tokenPid) (\<lambda>a.
              seqE (k_ensureAta D R a mint maxWallet tokenPid) (ret (Some a)))
            else ret None) (\<lambda>dustAta.
     let preIxs = (if 0 < withheld then [HarvestWithheldTokensToMint mint [vaultAta] tokenPid] else []) in
     k_rpc D R Do_close_dist preIxs
       (ProgIx CloseTokenDist
         [(Payer, Some (cr_payer R)), (Owner, Some ow), (VaultConfig, Some (cr_vault R)), (Mint, Some mint),
          (VaultAta, Some vaultAta), (TokenDist, Some (k_tokenDistPda D (cr_vault R) mint)), (LargestBenefAta, dustAta),
          (TokenProgram, Some tokenPid)] [])))))"

definition k_closes ::
  "('e keeper_world_scheme) keeper_deps \<Rightarrow> 'e kpass \<Rightarrow> x_vault \<Rightarrow> (pubkey \<times> pubkey) list \<Rightarrow> crank_acc \<Rightarrow> ('e, crank_acc) kio" where
  "k_closes D R freshCfg mints acc =
     (if xv_executed freshCfg then
        forE mints acc (\<lambda>(mint, tokenPid) acc.
          if k_isStuck D mint acc then ret acc
          else
          bindE (k_read_dist D R mint) (\<lambda>td.
          case td of
            None \<Rightarrow> ret acc
          | Some d \<Rightarrow>
              if td_paidMask d \<noteq> k_fullMask (length (cr_benefs R)) then ret acc
              else k_catch D (seqE (k_close_dist D R (xv_owner freshCfg) mint tokenPid) (ret acc))
                     (k_markStuck D mint ''close_token_dist'' acc)))
      else ret acc)"

definition keeper_steps :: "('e keeper_world_scheme) keeper_deps \<Rightarrow> 'e kpass \<Rightarrow> ('e, string) kio" where
  "keeper_steps D R =
     seqE (k_begin D R) (
     bindE (k_read_plan D R) (\<lambda>plan.
     bindE (keeper_collectMints D (cr_vault R) plan) (\<lambda>mints.
     bindE (k_begin_dists D R mints \<lparr>ck_stuck = [], ck_skipped = []\<rparr>) (\<lambda>acc.
     bindE (k_bequests D R mints plan acc) (\<lambda>acc.
     seqE (k_sol_shares D R) (
     seqE (k_finalize D R acc) (
     bindE (k_token_shares D R mints acc) (\<lambda>acc.
     bindE (fetched (readWithin D (xd_vault (kd_exec D) (cr_vault R)) ''vaultConfig'')) (\<lambda>freshCfg.
     bindE (k_closes D R freshCfg mints acc) (\<lambda>acc.
     ret (pass_text (if xv_executed freshCfg then ''executed'' else ''cranked'') (ck_skipped acc))))))))))))"

text \<open>The deadline and the fee of a pass.\<close>

definition start_pass :: "('e keeper_world_scheme) keeper_deps \<Rightarrow> ('e keeper_world_scheme, unit) io" where
  "start_pass D =
     seqE (modify (\<lambda>w. w\<lparr>kw_deadline := Some (kd_clock D w + (case kd_passMs D of None \<Rightarrow> VAULT_PASS_DEADLINE_MS | Some ms \<Rightarrow> ms))\<rparr>))
     (bindE (readWithin D (getPriorityFee (xd_hasUrl (kd_exec D)) (xd_estimate (kd_exec D)) (xd_recentFees (kd_exec D))) ''priority-fee'') (\<lambda>fee.
      modify (\<lambda>w. w\<lparr>kw_fee := fee\<rparr>)))"

definition crankVault ::
  "('e keeper_world_scheme) keeper_deps \<Rightarrow> pubkey \<Rightarrow> k_vault \<Rightarrow> ('e keeper_world_scheme, bool) io option \<Rightarrow> ('e keeper_world_scheme, string) io" where
  "crankVault D vault cfg canSubmit =
     (case canSubmit of
        None \<Rightarrow> throw (Error ''crankVault requires a canSubmit readiness guard (fail-closed)'')
      | Some ask \<Rightarrow> seqE (start_pass D) (keeper_steps D (pass_run D vault cfg ask)))"

subsection \<open>The clean-up of an executed vault\<close>

fun holds_any :: "('e keeper_world_scheme) keeper_deps \<Rightarrow> pubkey \<Rightarrow> pubkey list \<Rightarrow> ('e keeper_world_scheme, bool) io" where
  "holds_any D vault [] = ret False"
| "holds_any D vault (pid # pids) =
     bindE (readWithin D (xd_holdings (kd_exec D) vault pid) ''token-accounts'') (\<lambda>held.
     if list_ex (\<lambda>(mint, amt). 0 < amt) held then ret True else holds_any D vault pids)"

definition vaultHoldsUndistributedTokens :: "('e keeper_world_scheme) keeper_deps \<Rightarrow> pubkey \<Rightarrow> ('e keeper_world_scheme, bool) io" where
  "vaultHoldsUndistributedTokens D vault =
     holds_any D vault [token_program (xd_env (kd_exec D)), token_2022_program (xd_env (kd_exec D))]"

definition keeper_close_ix :: "'w crank_run \<Rightarrow> pubkey \<Rightarrow> instruction" where
  "keeper_close_ix R maxWallet = ProgIx CloseExecutedVault
     [(Payer, Some (cr_payer R)), (VaultConfig, Some (cr_vault R)), (HeartbeatRecord, Some (heartbeatPda R)),
      (ExecutionLog, Some (executionPda R)), (AssetPlan, plan_key R), (LargestBenef, Some maxWallet)] []"

text \<open>\<open>e.toString()\<close>.\<close>

definition error_text :: "'w keeper_deps \<Rightarrow> exn \<Rightarrow> string" where
  "error_text D e =
     (case e of
        External n \<Rightarrow> kd_text D n
      | _ \<Rightarrow> let v = error_view (xd_ext (kd_exec D)) e in if je_message v = [] then je_name v else je_name v @ '': '' @ je_message v)"

definition leftover_dists ::
  "('e keeper_world_scheme) keeper_deps \<Rightarrow> pubkey \<Rightarrow> k_vault \<Rightarrow> ('e keeper_world_scheme, bool) io \<Rightarrow> ('e keeper_world_scheme, bool) io" where
  "leftover_dists D vault cfg ask =
     (if 0 < xv_openDists cfg then
        seqE (crankVault D vault cfg (Some ask))
          (bindE (fetched (xd_vault (bounded_deps D) vault)) (\<lambda>fresh. ret (0 < xv_openDists fresh)))
      else ret False)"

definition cleanupExecutedVault ::
  "('e keeper_world_scheme) keeper_deps \<Rightarrow> pubkey \<Rightarrow> k_vault \<Rightarrow> ('e keeper_world_scheme, bool) io option \<Rightarrow> ('e keeper_world_scheme, string) io" where
  "cleanupExecutedVault D vault cfg canSubmit =
     (case canSubmit of
        None \<Rightarrow> throw (Error ''cleanupExecutedVault requires a canSubmit readiness guard (fail-closed)'')
      | Some ask \<Rightarrow>
          let R = pass_run D vault cfg ask in
          seqE (start_pass D)
          (bindE (xd_execLog (bounded_deps D) (executionPda R)) (\<lambda>execLog.
           if (case execLog of None \<Rightarrow> True | Some l \<Rightarrow> \<not> completed l) then ret ''no_execution_log''
           else
           bindE (leftover_dists D vault cfg ask) (\<lambda>stillOpen.
           if stillOpen then ret ''token_dists_open''
           else
           bindE (vaultHoldsUndistributedTokens D vault) (\<lambda>holds.
           if holds then ret ''held_mints_remain''
           else
           bindE (k_wallet R (k_largestShareIndex (xv_beneficiaries cfg))) (\<lambda>maxWallet.
           tryE (seqE (k_rpc D R Do_close_vault [] (keeper_close_ix R maxWallet)) (ret ''closed''))
             (\<lambda>e. if text_includes (error_text D e) ''CloseDelayNotElapsed'' then ret ''window_open'' else throw e)))))))"

end
