(* ===== verification/Keeper_Loop.thy ===== *)
theory Keeper_Loop
  imports Keeper_Crank
begin

text \<open>
  The keeper bot around its crank: the readiness gate and the revalidator (\<open>readiness.js\<close>), one pass
  over the scanned vaults (\<open>tick\<close> of \<open>index.js\<close>), the decision whether a pass completed
  (\<open>orchestrate.js\<close>), the loop with its backoff (\<open>loop.js\<close>), and the checks of the settings at start.
  The genesis, program and balance classification is the one of \<open>Srv_Ready\<close>, on bounded calls.
\<close>

subsection \<open>Settings\<close>

definition MAX_TIMER_MS :: int where
  "MAX_TIMER_MS = 2147483647"

text \<open>\<open>num\<close> is \<open>Number\<close> on text, \<open>None\<close> when not finite; \<open>trim\<close> is \<open>String.trim\<close>.\<close>

definition numEnv :: "(string \<Rightarrow> rat option) \<Rightarrow> (string \<Rightarrow> string option) \<Rightarrow> string \<Rightarrow> rat \<Rightarrow> rat option" where
  "numEnv num env name def =
     (case env name of
        None \<Rightarrow> Some def
      | Some raw \<Rightarrow> if js_trim raw = [] then Some def else num (js_trim raw))"

text \<open>
  \<open>Math.round(v * 1e9)\<close>; \<open>mult\<close> is the product of doubles, \<open>None\<close> when it overflows. Decimal
  literals are read as exact rationals.
\<close>

definition to_lamports :: "(rat \<Rightarrow> rat \<Rightarrow> rat option) \<Rightarrow> rat \<Rightarrow> int option" where
  "to_lamports mult v = (case mult v 1000000000 of None \<Rightarrow> None | Some x \<Rightarrow> Some \<lfloor>x + 1 / 2\<rfloor>)"

definition balance_setting :: "(rat \<Rightarrow> rat \<Rightarrow> rat option) \<Rightarrow> rat option \<Rightarrow> (rat \<times> int) option" where
  "balance_setting mult v =
     (case v of
        None \<Rightarrow> None
      | Some x \<Rightarrow>
          if x < 0 then None
          else case to_lamports mult x of
            None \<Rightarrow> None
          | Some l \<Rightarrow> if max_safe < \<bar>l\<bar> \<or> 0 < x \<and> l = 0 then None else Some (x, l))"

record keeper_config =
  kc_pollMs :: int
  kc_closeExecuted :: bool
  kc_minLamports :: int
  kc_warnLamports :: int
  kc_genesis :: string

definition GENESIS_HASHES :: "string \<Rightarrow> string option" where
  "GENESIS_HASHES cluster =
     (if cluster = ''devnet'' then Some ''EtWTRABZaYq6iMfeYKouRu166VU2xqa1wcaWoxPkrZBG''
      else if cluster = ''mainnet-beta'' then Some ''5eykt4UsFv8P8NJdTREpY1vzqKqZKvdpKuc147dw2N9d''
      else None)"

text \<open>
  The checks before the keeper starts; \<open>None\<close> exits with status 1. \<open>httpUrl\<close>: the URL parses and is
  http or https; a missing or empty setting is \<open>[]\<close>.
\<close>

definition keeper_settings ::
  "(string \<Rightarrow> rat option) \<Rightarrow> (rat \<Rightarrow> rat \<Rightarrow> rat option) \<Rightarrow> (string \<Rightarrow> bool) \<Rightarrow> (string \<Rightarrow> string option) \<Rightarrow> keeper_config option" where
  "keeper_settings num mult httpUrl env =
     (let setting = (\<lambda>name. case env name of None \<Rightarrow> [] | Some s \<Rightarrow> s);
          cluster = (if setting ''EXPECTED_CLUSTER'' = [] then ''devnet'' else setting ''EXPECTED_CLUSTER'');
          mainnet = (cluster = ''mainnet-beta'');
          poll = numEnv num env ''POLL_MS'' 30000;
          minSol = numEnv num env ''MIN_KEEPER_BALANCE_SOL'' (if mainnet then 5 / 100 else 2 / 100);
          warnSol = numEnv num env ''WARN_KEEPER_BALANCE_SOL'' (if mainnet then 1 / 10 else 5 / 100)
      in
      if setting ''RPC_URL'' = [] \<or> setting ''KEYPAIR_PATH'' = [] then None
      else case GENESIS_HASHES cluster of
        None \<Rightarrow> None
      | Some genesis \<Rightarrow>
          if \<not> httpUrl (setting ''RPC_URL'') then None
          else case poll of
            None \<Rightarrow> None
          | Some p \<Rightarrow>
              if of_int \<lfloor>p\<rfloor> \<noteq> p \<or> p < 1000 \<or> of_int MAX_TIMER_MS < p then None
              else case (balance_setting mult minSol, balance_setting mult warnSol) of
                (Some (mn, minL), Some (wn, warnL)) \<Rightarrow>
                  if wn < mn then None
                  else Some \<lparr>kc_pollMs = \<lfloor>p\<rfloor>, kc_closeExecuted = (env ''CLOSE_EXECUTED'' \<noteq> Some ''0''),
                             kc_minLamports = minL, kc_warnLamports = warnL, kc_genesis = genesis\<rparr>
              | _ \<Rightarrow> None)"

datatype keypair_check = Key_ok string | Key_fatal string

definition validateKeeperKeypair :: "(string \<Rightarrow> exn + string option) \<Rightarrow> string \<Rightarrow> keypair_check" where
  "validateKeeperKeypair loadKeypair keypairPath =
     (if keypairPath = [] then Key_fatal ''keypair_path_missing''
      else case loadKeypair keypairPath of
        Inl e \<Rightarrow> Key_fatal ''keypair_unreadable''
      | Inr None \<Rightarrow> Key_fatal ''keypair_invalid''
      | Inr (Some k) \<Rightarrow> Key_ok k)"

subsection \<open>The readiness gate\<close>

datatype balance_check = Bal_ok bool rat | Bal_bad string "rat option"

text \<open>\<open>None\<close>: the answer is no finite number.\<close>

definition evaluateBalance :: "rat option \<Rightarrow> int \<Rightarrow> int \<Rightarrow> balance_check" where
  "evaluateBalance answer minLamports warnLamports =
     (case answer of
        None \<Rightarrow> Bal_bad ''balance_invalid'' None
      | Some l \<Rightarrow>
          if l < 0 then Bal_bad ''balance_invalid'' None
          else if l < of_int minLamports then Bal_bad ''balance_below_minimum'' (Some (l / 1000000000))
          else Bal_ok (l < of_int warnLamports) (l / 1000000000))"

datatype keeper_gate = Kg_fatal string "net_readiness option" | Kg_degraded string | Kg_ready rat bool int

record 'w tick_deps =
  td_keeper :: "'w keeper_deps"
  td_config :: keeper_config
  td_canon :: "string \<Rightarrow> string option"
  td_lower :: "exn \<Rightarrow> string"
  td_getGenesisHash :: "('w, string option) io"
  td_getProgram :: "('w, program_answer) io"
  td_getBalance :: "('w, rat option) io"
  td_scan :: "('w, (pubkey \<times> k_vault option) list) io"
  td_exit :: "('w, unit) io"
  td_wait :: "int \<Rightarrow> ('w, unit) io"
  td_random :: "'w \<Rightarrow> rat"

definition bounded_call :: "('e keeper_world_scheme) tick_deps \<Rightarrow> ('e keeper_world_scheme, 'a) io \<Rightarrow> ('e keeper_world_scheme, 'a) io" where
  "bounded_call T m = withTimeout (kd_fires (td_keeper T)) m 8000 []"

definition keeperReadiness :: "('e keeper_world_scheme) tick_deps \<Rightarrow> ('e keeper_world_scheme, keeper_gate) io" where
  "keeperReadiness T =
     bindE (classifyGenesis (td_canon T) (td_lower T) (bounded_call T (td_getGenesisHash T)) (kc_genesis (td_config T))) (\<lambda>net.
     case nt_state net of
       NET_MISMATCH \<Rightarrow> ret (Kg_fatal ''genesis_mismatch'' (Some net))
     | NET_UNKNOWN \<Rightarrow> ret (Kg_degraded (''network_'' @ (case nt_reason net of None \<Rightarrow> ''undefined'' | Some r \<Rightarrow> r)))
     | NET_VERIFIED \<Rightarrow>
         bindE (gets (kd_clock (td_keeper T))) (\<lambda>genesisVerifiedAt.
         bindE (checkProgramAccount (td_lower T) (bounded_call T (td_getProgram T)) True) (\<lambda>prog.
         case prog of
           Prog_unknown r \<Rightarrow> ret (Kg_degraded (''program_'' @ r))
         | Prog_bad r \<Rightarrow> ret (Kg_fatal r None)
         | Prog_ok x \<Rightarrow>
             tryE (bindE (bounded_call T (td_getBalance T)) (\<lambda>lamports.
               ret (case evaluateBalance lamports (kc_minLamports (td_config T)) (kc_warnLamports (td_config T)) of
                 Bal_bad r s \<Rightarrow> Kg_degraded r
               | Bal_ok low s \<Rightarrow> Kg_ready s low genesisVerifiedAt)))
             (\<lambda>e. ret (Kg_degraded (''balance_'' @ reasonCode (td_lower T) e))))))"

subsection \<open>The revalidator\<close>

definition REVALIDATE_TTL_MS :: int where
  "REVALIDATE_TTL_MS = 1500"

definition readiness_check :: "('e keeper_world_scheme) tick_deps \<Rightarrow> ('e keeper_world_scheme, bool) io" where
  "readiness_check T = bindE (keeperReadiness T) (\<lambda>g. ret (case g of Kg_ready s low t \<Rightarrow> True | _ \<Rightarrow> False))"

text \<open>The cached answer is still good at \<open>t\<close>.\<close>

definition cache_fresh :: "int \<Rightarrow> int \<Rightarrow> 'e keeper_world_scheme \<Rightarrow> bool" where
  "cache_fresh ttl t w \<longleftrightarrow> kw_live w \<and> (case kw_lastOkAt w of None \<Rightarrow> False | Some a \<Rightarrow> 0 \<le> t - a \<and> t - a < ttl)"

definition revalidate_with ::
  "('e keeper_world_scheme \<Rightarrow> int) \<Rightarrow> int \<Rightarrow> ('e keeper_world_scheme, bool) io \<Rightarrow> ('e keeper_world_scheme, bool) io" where
  "revalidate_with clock ttl chk =
     bindE (gets clock) (\<lambda>t.
     bindE (gets (cache_fresh ttl t)) (\<lambda>fresh.
     if fresh then ret True
     else
     bindE chk (\<lambda>ok.
     seqE (modify (\<lambda>w. w\<lparr>kw_live := ok\<rparr>)) (
     seqE (if ok then modify (\<lambda>w. w\<lparr>kw_lastOkAt := Some (clock w)\<rparr>) else ret ()) (ret ok)))))"

definition revalidate :: "('e keeper_world_scheme) tick_deps \<Rightarrow> ('e keeper_world_scheme, bool) io" where
  "revalidate T = revalidate_with (kd_clock (td_keeper T)) REVALIDATE_TTL_MS (readiness_check T)"

definition markVerified :: "int \<Rightarrow> ('e keeper_world_scheme, unit) io" where
  "markVerified t = modify (\<lambda>w. w\<lparr>kw_live := True, kw_lastOkAt := Some t\<rparr>)"

subsection \<open>One pass\<close>

definition SCAN_TIMEOUT_MS :: int where
  "SCAN_TIMEOUT_MS = 20000"

definition BAL_TIMEOUT_MS :: int where
  "BAL_TIMEOUT_MS = 8000"

definition HB_TIMEOUT_MS :: int where
  "HB_TIMEOUT_MS = 8000"

text \<open>An account that does not decode is \<open>None\<close> and left out.\<close>

definition scanVaults :: "'w tick_deps \<Rightarrow> ('w, (pubkey \<times> k_vault) list) io" where
  "scanVaults T = bindE (td_scan T) (\<lambda>raw. ret (concat (map (\<lambda>(k, v). case v of None \<Rightarrow> [] | Some c \<Rightarrow> [(k, c)]) raw)))"

datatype turn_end = Go_on | Halted | Deadline_hit

record tick_result =
  tr_ok :: bool
  tr_scanFailed :: bool
  tr_reason :: "string option"
  tr_vaults :: nat
  tr_due :: nat
  tr_cleaned :: nat
  tr_halted :: bool

definition executed_vault :: "('e keeper_world_scheme) tick_deps \<Rightarrow> pubkey \<Rightarrow> k_vault \<Rightarrow> ('e keeper_world_scheme, turn_end) io" where
  "executed_vault T vault cfg =
     (if \<not> kc_closeExecuted (td_config T) then ret Go_on
      else
      bindE (revalidate T) (\<lambda>ok.
      if \<not> ok then ret Halted
      else
      bindE (cleanupExecutedVault (td_keeper T) vault cfg (Some (revalidate T))) (\<lambda>r.
      seqE (if r = ''closed'' then modify (\<lambda>w. w\<lparr>kw_cleaned := kw_cleaned w + 1\<rparr>) else ret ()) (ret Go_on))))"

definition live_vault :: "('e keeper_world_scheme) tick_deps \<Rightarrow> pubkey \<Rightarrow> k_vault \<Rightarrow> ('e keeper_world_scheme, turn_end) io" where
  "live_vault T vault cfg =
     (let D = td_keeper T; K = kd_exec D in
      bindE (withTimeout (kd_fires D) (fetched (xd_heartbeat K (pda (xd_env K) [seed ''heartbeat'', vault]))) HB_TIMEOUT_MS ''heartbeat'') (\<lambda>hb.
      bindE (bn_toNumber hb) (\<lambda>a. bindE (bn_toNumber (xv_interval cfg)) (\<lambda>b. bindE (bn_toNumber (xv_grace cfg)) (\<lambda>g.
      let deadline = js_add (js_add a b) g in
      bindE (gets (kd_clock D)) (\<lambda>now.
      if now div 1000 < deadline then ret Go_on
      else
      seqE (modify (\<lambda>w. w\<lparr>kw_due := kw_due w + 1\<rparr>)) (
      bindE (revalidate T) (\<lambda>ok.
      if \<not> ok then ret Halted
      else seqE (crankVault D vault cfg (Some (revalidate T))) (ret Go_on)))))))))"

definition vault_turn :: "('e keeper_world_scheme) tick_deps \<Rightarrow> pubkey \<Rightarrow> k_vault \<Rightarrow> ('e keeper_world_scheme, turn_end) io" where
  "vault_turn T vault cfg =
     tryE
       (if xv_executed cfg then executed_vault T vault cfg
        else if \<not> kv_active cfg then ret Go_on
        else live_vault T vault cfg)
       (\<lambda>e. let v = error_view (xd_ext (kd_exec (td_keeper T))) e in
          if je_name v = ''TimeoutError'' then ret Deadline_hit
          else case classifyVaultError v of
            Dec_halt \<Rightarrow> ret Halted
          | Dec_fatal \<Rightarrow> throw e
          | Dec_skip \<Rightarrow> ret Go_on)"

fun vault_turns :: "('e keeper_world_scheme) tick_deps \<Rightarrow> (pubkey \<times> k_vault) list \<Rightarrow> ('e keeper_world_scheme, turn_end) io" where
  "vault_turns T [] = ret Go_on"
| "vault_turns T ((vault, cfg) # rest) =
     bindE (vault_turn T vault cfg) (\<lambda>r. if r = Go_on then vault_turns T rest else ret r)"

definition scan_failed :: "string \<Rightarrow> tick_result" where
  "scan_failed r = \<lparr>tr_ok = False, tr_scanFailed = True, tr_reason = Some r, tr_vaults = 0, tr_due = 0, tr_cleaned = 0, tr_halted = False\<rparr>"

definition pass_vaults :: "('e keeper_world_scheme) tick_deps \<Rightarrow> (pubkey \<times> k_vault) list \<Rightarrow> ('e keeper_world_scheme, tick_result) io" where
  "pass_vaults T vaults =
     seqE (modify (\<lambda>w. w\<lparr>kw_due := 0, kw_cleaned := 0\<rparr>)) (
     bindE (vault_turns T vaults) (\<lambda>r.
     seqE (if r = Deadline_hit then ret ()
           else tryE (seqE (withTimeout (kd_fires (td_keeper T)) (td_getBalance T) BAL_TIMEOUT_MS ''balance'') (ret ())) (\<lambda>_. ret ())) (
     gets (\<lambda>w.
       if r = Deadline_hit
       then \<lparr>tr_ok = False, tr_scanFailed = True, tr_reason = Some ''pass_deadline'', tr_vaults = length vaults,
             tr_due = kw_due w, tr_cleaned = kw_cleaned w, tr_halted = False\<rparr>
       else \<lparr>tr_ok = (r \<noteq> Halted), tr_scanFailed = False, tr_reason = None, tr_vaults = length vaults,
             tr_due = kw_due w, tr_cleaned = kw_cleaned w, tr_halted = (r = Halted)\<rparr>))))"

definition keeper_tick :: "('e keeper_world_scheme) tick_deps \<Rightarrow> ('e keeper_world_scheme, tick_result) io" where
  "keeper_tick T =
     bindE (tryE (bindE (withTimeout (kd_fires (td_keeper T)) (scanVaults T) SCAN_TIMEOUT_MS ''scan'') (\<lambda>vs. ret (Inr vs)))
       (\<lambda>e. let v = error_view (xd_ext (kd_exec (td_keeper T))) e in
          if \<not> isTransientScanError v then throw e
          else ret (Inl (if je_name v = ''TimeoutError'' then ''scan_timeout'' else ''scan_failed'')))) (\<lambda>scanned.
     case scanned of
       Inl r \<Rightarrow> ret (scan_failed r)
     | Inr vaults \<Rightarrow> pass_vaults T vaults)"

subsection \<open>Orchestration and loop\<close>

text \<open>The hooks that only log are left out; \<open>td_exit\<close> ends the process.\<close>

definition runKeeperOnce :: "('e keeper_world_scheme) tick_deps \<Rightarrow> ('e keeper_world_scheme, bool) io" where
  "runKeeperOnce T =
     bindE (keeperReadiness T) (\<lambda>g.
     case g of
       Kg_fatal r net \<Rightarrow> seqE (td_exit T) (ret False)
     | Kg_degraded r \<Rightarrow> ret False
     | Kg_ready s low verifiedAt \<Rightarrow>
         seqE (markVerified verifiedAt) (
         bindE (keeper_tick T) (\<lambda>t.
         if tr_scanFailed t then ret False
         else if \<not> tr_ok t then ret False
         else ret True)))"

text \<open>One turn of the loop; the loop itself is these turns without end.\<close>

definition loop_turn :: "('e keeper_world_scheme) tick_deps \<Rightarrow> int \<Rightarrow> ('e keeper_world_scheme, int) io" where
  "loop_turn T backoffAttempt =
     bindE (runKeeperOnce T) (\<lambda>ok.
     let attempt = (if ok then 0 else backoffAttempt + 1) in
     bindE (gets (td_random T)) (\<lambda>rng.
     seqE (td_wait T (if ok then kc_pollMs (td_config T) else \<lfloor>nextBackoff attempt 1000 60000 rng\<rfloor>)) (ret attempt)))"

fun loop_turns :: "('e keeper_world_scheme) tick_deps \<Rightarrow> nat \<Rightarrow> int \<Rightarrow> ('e keeper_world_scheme, int) io" where
  "loop_turns T 0 attempt = ret attempt"
| "loop_turns T (Suc n) attempt = bindE (loop_turn T attempt) (loop_turns T n)"

text \<open>\<open>--once\<close>: the exit status.\<close>

definition run_once_status :: "('e keeper_world_scheme) tick_deps \<Rightarrow> ('e keeper_world_scheme, nat) io" where
  "run_once_status T = bindE (runKeeperOnce T) (\<lambda>ok. ret (if ok then 0 else 1))"

end
