(* ===== verification/Keeper_Props.thy ===== *)
theory Keeper_Props
  imports Keeper_Loop Srv_Exec_Props
begin

text \<open>
  Properties of the keeper bot: whatever survives a submission made on a fresh verification and
  justified by the accounts as read survives any number of turns of its loop; the core accounts of a
  vault are closed only when no token is left; the keeper's crank is the server's; a pass is reported
  as completed only when it was; and the loop's waits are bounded.
\<close>

subsection \<open>Bounded reads\<close>

lemma preserves_withTimeout [preserves_intro]: "preserves I m \<Longrightarrow> preserves I (withTimeout fires m ms label)"
  unfolding preserves_def withTimeout_def by (fastforce split: prod.split)

lemma withTimeout_Inr: "withTimeout fires m ms label u = (Inr a, u') \<Longrightarrow> m u = (Inr a, u')"
  by (simp add: withTimeout_def split: prod.splits if_splits)

lemma answered_withTimeout: "answered (withTimeout fires m ms label) P \<Longrightarrow> answered m P"
  unfolding answered_def by (blast dest: withTimeout_Inr)

lemma preserves_readWithin [preserves_intro]: "preserves I m \<Longrightarrow> preserves I (readWithin D m label)"
  unfolding readWithin_def by (intro preserves_bindE preserves_intro)

lemma readWithin_Inr: "readWithin D m label u = (Inr a, u') \<Longrightarrow> m u = (Inr a, u')"
  by (auto simp: readWithin_def bindE_def dest: withTimeout_Inr)

lemma answered_readWithin: "answered (readWithin D m label) P \<Longrightarrow> answered m P"
  unfolding answered_def by (blast dest: readWithin_Inr)

lemma bounded_reads: "exec_reads I (kd_exec D) \<Longrightarrow> exec_reads I (bounded_deps D)"
  unfolding exec_reads_def bounded_deps_def by (auto intro!: preserves_intro)

lemma bounded_env [simp]: "xd_env (bounded_deps D) = xd_env (kd_exec D)"
  by (simp add: bounded_deps_def)

lemma keeper_retry_preserves:
  assumes "exec_reads I (kd_exec D)"
  shows "preserves I (keeper_info_retry D k n i)"
  using assms by (induction n arbitrary: i) (auto simp: exec_reads_def Let_def intro!: preserves_bindE preserves_intro)

lemma keeper_collect_preserves:
  assumes "exec_reads I (kd_exec D)"
  shows "preserves I (keeper_collectMints D vault plan)"
  unfolding keeper_collectMints_def keeper_add_planned_def keeper_getAccountInfoRetry_def Let_def
  by (intro preserves_forE preserves_bindE preserves_intro keeper_retry_preserves [OF assms])
    (use assms in \<open>simp add: exec_reads_def\<close>)

subsection \<open>The steps of \<open>crank.js\<close> against those of \<open>executor.js\<close>\<close>

text \<open>The variables of a pass: its reads are bounded and its guard throws \<open>KEEPER_HALT\<close>.\<close>

definition pass_of :: "('e keeper_world_scheme) keeper_deps \<Rightarrow> 'e kpass \<Rightarrow> bool" where
  "pass_of D R \<longleftrightarrow> cr_deps R = bounded_deps D \<and> cr_halt R = KEEPER_HALT"

lemma pass_of_run [simp]: "pass_of D (pass_run D vault cfg canSubmit)" "pass_of D (R\<lparr>cr_owner := ow\<rparr>) = pass_of D R"
  by (simp_all add: pass_of_def pass_run_def)

lemma k_bits [simp]: "k_bitSet = bitSet" "k_fullMask = fullMask"
  by (simp_all add: fun_eq_iff k_bitSet_def bitSet_def k_fullMask_def fullMask_def)

lemma k_chunk_loop_from: "k_chunk_loop arr n i out = out @ chunk_from arr n i"
  by (induction arr n i out rule: k_chunk_loop.induct) (subst k_chunk_loop.simps, subst chunk_from.simps, simp)

lemma k_chunk_same [simp]: "k_chunk = exec_chunk"
  by (simp add: fun_eq_iff k_chunk_def exec_chunk_def k_chunk_loop_from BATCH_def)

lemma k_largest_fold:
  "k_largest_loop bs i best bestBps =
     fst (fold (\<lambda>(i, b) (best, bestBps). if bestBps < int (shareBps b) then (i, int (shareBps b)) else (best, bestBps))
       (enumerate i bs) (best, bestBps))"
  by (induction bs arbitrary: i best bestBps) auto

lemma k_largest_same [simp]: "k_largestShareIndex = largestShareIndex"
  by (simp add: fun_eq_iff k_largestShareIndex_def largestShareIndex_def k_largest_fold)

lemma crank_error_same: "isOperationalCrankError e = isOperationalExecutorError e"
proof -
  have t: "(\<exists>x \<in> set k_operational_texts. text_includes m x) = list_ex (text_includes m) operational_texts" for m
    by (simp only: list_ex_iff k_operational_texts_def operational_texts_def)
  have c: "(\<exists>p \<in> set k_transport_codes. take (length p) s = p) = list_ex (\<lambda>p. take (length p) s = p) transport_codes" for s :: string
    by (simp only: list_ex_iff k_transport_codes_def transport_codes_def)
  show ?thesis unfolding isOperationalCrankError_def isOperationalExecutorError_def Let_def t c by simp
qed

lemma find_program:
  "(case List.find (\<lambda>(m, pid). m = mint) ms of None \<Rightarrow> d | Some (m, pid) \<Rightarrow> pid) = (case map_of ms mint of None \<Rightarrow> d | Some pid \<Rightarrow> pid)"
  by (induction ms) auto

text \<open>The names of the keeper's package and those of the server's, on the variables of a pass.\<close>

lemma k_names:
  assumes "pass_of D R"
  shows "k_env D = cr_env R" "k_heartbeatPda D (cr_vault R) = heartbeatPda R" "k_executionPda D (cr_vault R) = executionPda R"
    "k_assetPlanPda D (cr_vault R) = assetPlanPda R" "k_tokenDistPda D (cr_vault R) mint = tokenDistPda R mint"
    "k_plan_arg D R = plan_key R" "k_markStuck D mint step acc = markStuck R mint step acc" "k_isStuck D mint acc = isStuck R mint acc"
    "k_unpaid R msk = unpaid_of (length (cr_benefs R)) msk" "k_wallet R i = wallet_at R i"
    "k_ata D mint ow off pid = x_ata R mint ow off pid"
  using assms
  by (simp_all add: pass_of_def k_env_def k_heartbeatPda_def heartbeatPda_def k_executionPda_def executionPda_def k_assetPlanPda_def
      assetPlanPda_def k_tokenDistPda_def tokenDistPda_def k_plan_arg_def plan_key_def k_markStuck_def markStuck_def k_isStuck_def
      isStuck_def k_unpaid_def unpaid_of_def k_wallet_def wallet_at_def k_ata_def x_ata_def List.insert_def Let_def)

lemma k_reads:
  assumes "pass_of D R"
  shows "k_read_log D R = xd_execLog (cr_deps R) (executionPda R)"
    "k_read_dist D R mint = xd_tokenDist (cr_deps R) (tokenDistPda R mint)"
    "k_read_plan D R = (if cr_hasPlan R then bindE (fetched (xd_plan (cr_deps R) (assetPlanPda R))) (\<lambda>p. ret (Some p)) else ret None)"
    "readWithin D (xd_vault (kd_exec D) k) ''vaultConfig'' = xd_vault (cr_deps R) k"
  using assms by (simp_all add: k_read_log_def k_read_dist_def k_read_plan_def k_names [OF assms] pass_of_def bounded_deps_def)

lemma k_rpc_guarded:
  assumes "pass_of D R"
  shows "k_rpc D R k pre ix = guarded_send R (crank_tx k pre ix)"
proof -
  have "xd_send (cr_deps R) = xd_send (kd_exec D)" using assms by (simp add: pass_of_def bounded_deps_def)
  then show ?thesis by (simp only: k_rpc_def guarded_send_def crank_tx_def)
qed

lemma k_ensure:
  assumes "pass_of D R"
  shows "k_ensureAta D R a mint ow pid = ensureAta R a mint ow pid"
proof -
  have o: "xd_accountOwner (cr_deps R) a = withTimeout (kd_fires D) (xd_accountOwner (kd_exec D) a) ACCT_INFO_TIMEOUT_MS ''ata-lookup''"
    using assms by (simp add: pass_of_def bounded_deps_def)
  show ?thesis unfolding k_ensureAta_def ensureAta_def k_rpc_guarded [OF assms] o
    by (intro arg_cong [where f = "bindE _"] ext) (simp split: option.split)
qed

lemma k_caught:
  assumes "pass_of D R"
  shows "k_catch D m a = on_stuck R m a"
proof -
  have "xd_ext (cr_deps R) = xd_ext (kd_exec D)" "cr_halt R = KEEPER_HALT" using assms by (simp_all add: pass_of_def bounded_deps_def)
  then show ?thesis by (simp only: k_catch_def on_stuck_def operational_def is_revoked_def crank_error_same Let_def)
qed

lemmas k_as_server = k_names k_reads k_rpc_guarded k_ensure k_caught

lemma absent_case: "(if x \<noteq> None then a else b) = (case x of None \<Rightarrow> b | Some y \<Rightarrow> a)"
  by (cases x) simp_all

lemma forE_cong: "(\<And>x acc. f x acc = g x acc) \<Longrightarrow> forE xs acc f = forE xs acc g"
  by (rule arg_cong [where f = "forE xs acc"]) (simp add: fun_eq_iff)

lemma bindE_cong: "(\<And>a. f a = g a) \<Longrightarrow> bindE m f = bindE m g"
  by (rule arg_cong [where f = "bindE m"]) (simp add: fun_eq_iff)

lemma k_begin_same: "pass_of D R \<Longrightarrow> k_begin D R = begin_step R"
  by (simp only: k_begin_def begin_step_def absent_case k_as_server x_begin_ix_def)

lemma k_begin_dists_same: "pass_of D R \<Longrightarrow> k_begin_dists D R mints acc = begin_dist_step R mints acc"
  by (simp only: k_begin_dists_def begin_dist_step_def absent_case k_as_server x_begin_dist_ix_def)

lemma k_pay_same:
  assumes "pass_of D R"
  shows "k_catch D
      (if a_mint a = default_pubkey then seqE (k_pay_sol D R j b) (ret acc) else seqE (k_pay_asset D R mints j (a_mint a) b) (ret acc))
      (if a_mint a = default_pubkey then acc\<lparr>ck_skipped := ck_skipped acc @ [(''SOL'', ''execute_specific_sol'')]\<rparr>
       else markStuck R (a_mint a) ''execute_specific_asset'' acc)
    = pay_bequest R mints j a b acc"
  by (cases "a_mint a = default_pubkey")
    (simp_all only: k_pay_sol_def k_pay_asset_def pay_bequest_def k_as_server [OF assms] find_program x_specific_asset_ix_def
      x_specific_sol_ix_def if_True if_False simp_thms Let_def bindE_assoc)

lemma k_bequests_same:
  assumes "pass_of D R"
  shows "k_bequests D R mints plan acc = bequest_step R mints plan acc"
proof (cases plan)
  case (Some p)
  show ?thesis unfolding Some k_bequests_def bequest_step_def option.case
    by (rule forE_cong) (simp only: case_prod_beta Let_def k_names [OF assms] k_bits k_pay_same [OF assms])
qed (simp add: k_bequests_def bequest_step_def)

lemma k_sol_same: "pass_of D R \<Longrightarrow> k_sol_shares D R = sol_step R"
  by (simp only: k_sol_shares_def sol_step_def k_as_server k_chunk_same x_sol_shares_ix_def map_map comp_def)

lemma k_finalize_same:
  assumes "pass_of D R"
  shows "k_finalize D R acc = finalize_step R acc"
  unfolding k_finalize_def finalize_step_def k_as_server [OF assms] x_finalize_ix_def
  by (rule bindE_cong, cases "cr_hasPlan R")
    (simp_all add: bindE_assoc shouldFinalize_def, rule bindE_cong, auto)

lemma k_share_atas_same: "pass_of D R \<Longrightarrow> k_share_atas D R mint pid part = share_atas R mint pid part"
  by (simp only: k_share_atas_def share_atas_def k_as_server)

lemma k_token_shares_same: "pass_of D R \<Longrightarrow> k_token_shares D R mints acc = token_step R mints acc"
  by (simp only: k_token_shares_def token_step_def token_shares_of_def k_as_server k_chunk_same k_share_atas_same x_token_shares_ix_def
      bindE_assoc)

lemma k_dust_same:
  fixes D :: "('e keeper_world_scheme) keeper_deps"
  assumes "pass_of D R"
  shows "k_vault_dust D a pid = vault_dust R a pid"
proof -
  have "xd_ext (cr_deps R) = xd_ext (kd_exec D)" "xd_getAccount (cr_deps R) a pid = readWithin D (xd_getAccount (kd_exec D) a pid) ''vault-ata''"
    using assms by (simp_all add: pass_of_def bounded_deps_def)
  moreover have "(if \<not> (n = x \<or> n = y) \<and> \<not> ok then t else r) = (if n \<in> {x, y} \<or> ok then r else t)"
    for n x y :: string and ok and t r :: "('e keeper_world_scheme, int \<times> int) io"
    by simp
  ultimately show ?thesis by (simp only: k_vault_dust_def vault_dust_def operational_def crank_error_same Let_def)
qed

lemma k_close_dist_same: "pass_of D R \<Longrightarrow> k_close_dist D R (cr_owner R) mint pid = close_dist R mint pid"
  by (simp only: k_close_dist_def close_dist_def k_as_server k_largest_same k_dust_same x_close_dist_ix_def Let_def)

lemma k_closes_owner: "k_closes D (R\<lparr>cr_owner := ow\<rparr>) c mints acc = k_closes D R c mints acc"
proof -
  let ?R = "R\<lparr>cr_owner := ow\<rparr>"
  have f: "cr_vault ?R = cr_vault R" "cr_benefs ?R = cr_benefs R" "cr_payer ?R = cr_payer R" "cr_guard ?R = cr_guard R" "cr_fee ?R = cr_fee R"
    by simp_all
  show ?thesis
    by (simp only: k_closes_def k_close_dist_def k_rpc_def k_ensureAta_def k_wallet_def k_read_dist_def f)
qed

lemma k_closes_same:
  assumes "pass_of D R"
  shows "k_closes D R c mints acc = close_step (R\<lparr>cr_owner := xv_owner c\<rparr>) (xv_executed c) mints acc"
proof -
  let ?R = "R\<lparr>cr_owner := xv_owner c\<rparr>"
  have p: "pass_of D ?R" using assms by simp
  have cl: "k_close_dist D ?R (xv_owner c) mint pid = close_dist ?R mint pid" for mint pid
    using k_close_dist_same [OF p] by simp
  have "k_closes D ?R c mints acc = close_step ?R (xv_executed c) mints acc"
    by (cases "xv_executed c")
      (simp_all only: k_closes_def close_step_def if_True if_False simp_thms k_as_server [OF p] k_bits cl)
  then show ?thesis by (simp only: k_closes_owner)
qed

text \<open>The pass of the keeper, composed of the server's steps on the keeper's reads and guard.\<close>

lemma keeper_steps_composed:
  assumes "pass_of D R"
  shows "keeper_steps D R =
     seqE (begin_step R) (
     bindE (if cr_hasPlan R then bindE (fetched (xd_plan (cr_deps R) (assetPlanPda R))) (\<lambda>p. ret (Some p)) else ret None) (\<lambda>plan.
     bindE (keeper_collectMints D (cr_vault R) plan) (\<lambda>mints.
     bindE (begin_dist_step R mints \<lparr>ck_stuck = [], ck_skipped = []\<rparr>) (\<lambda>acc.
     bindE (bequest_step R mints plan acc) (\<lambda>acc.
     seqE (sol_step R) (
     seqE (finalize_step R acc) (
     bindE (token_step R mints acc) (\<lambda>acc.
     bindE (fetched (xd_vault (cr_deps R) (cr_vault R))) (\<lambda>freshCfg.
     bindE (close_step (R\<lparr>cr_owner := xv_owner freshCfg\<rparr>) (xv_executed freshCfg) mints acc) (\<lambda>acc.
     ret (pass_text (if xv_executed freshCfg then ''executed'' else ''cranked'') (ck_skipped acc))))))))))))"
  by (simp only: keeper_steps_def k_as_server [OF assms] k_begin_same [OF assms] k_begin_dists_same [OF assms] k_bequests_same [OF assms]
      k_sol_same [OF assms] k_finalize_same [OF assms] k_token_shares_same [OF assms] k_closes_same [OF assms])

lemma keeper_steps_preserve:
  assumes "pass_of D R" "disciplined I R" "\<And>ow. disciplined I (R\<lparr>cr_owner := ow\<rparr>)" "exec_reads I (kd_exec D)"
    and fin: "may_finalize R \<Longrightarrow> preserves I (guarded_send R (crank_tx Do_finalize [] (x_finalize_ix R)))"
  shows "preserves I (keeper_steps D R)"
proof -
  note d = assms(2)
  have close: "preserves I (close_step (R\<lparr>cr_owner := xv_owner c\<rparr>) (xv_executed c) mints acc)"
    if "answered (xd_vault (cr_deps R) (cr_vault R)) (\<lambda>x. x = Some c)" for c mints acc
    by (rule close_preserves [OF assms(3)]) (use that in simp)
  show ?thesis unfolding keeper_steps_composed [OF assms(1)]
    by (intro preserves_bindE [OF plan_read_preserves [OF d]] preserves_bindE preserves_intro disciplined_reads [OF d]
        begin_preserves [OF d] keeper_collect_preserves [OF assms(4)] begin_dist_preserves [OF d] sol_preserves [OF d]
        finalize_preserves [OF d] token_preserves [OF d] bequest_preserves [OF d] close answered_fetched)
      (use plan_read_answer fin in blast)+
qed

subsection \<open>What justifies a submission of the keeper\<close>

text \<open>The keeper verified its readiness at \<open>t\<close>: the gate answered that all is well, and \<open>t\<close> is the time of its genesis check or of its end.\<close>

definition verified_at :: "('e keeper_world_scheme) tick_deps \<Rightarrow> int \<Rightarrow> bool" where
  "verified_at T t \<longleftrightarrow>
     (\<exists>w w' s low g. keeperReadiness T w = (Inr (Kg_ready s low g), w') \<and> (t = g \<or> t = kd_clock (td_keeper T) w'))"

definition verified_now :: "('e keeper_world_scheme) tick_deps \<Rightarrow> 'e keeper_world_scheme \<Rightarrow> bool" where
  "verified_now T w \<longleftrightarrow>
     (case kw_lastOkAt w of None \<Rightarrow> False
      | Some t \<Rightarrow> verified_at T t \<and> 0 \<le> kd_clock (td_keeper T) w - t \<and> kd_clock (td_keeper T) w - t < REVALIDATE_TTL_MS)"

definition verified_memory :: "('e keeper_world_scheme) tick_deps \<Rightarrow> 'e keeper_world_scheme \<Rightarrow> bool" where
  "verified_memory T w \<longleftrightarrow> (case kw_lastOkAt w of None \<Rightarrow> True | Some t \<Rightarrow> verified_at T t)"

definition scanned :: "('e keeper_world_scheme) tick_deps \<Rightarrow> pubkey \<Rightarrow> k_vault \<Rightarrow> bool" where
  "scanned T vault cfg \<longleftrightarrow> answered (scanVaults T) (\<lambda>vs. (vault, cfg) \<in> set vs)"

definition past_deadline :: "('e keeper_world_scheme) tick_deps \<Rightarrow> pubkey \<Rightarrow> k_vault \<Rightarrow> bool" where
  "past_deadline T vault cfg \<longleftrightarrow>
     (let K = kd_exec (td_keeper T) in
      \<exists>hb w. answered (xd_heartbeat K (pda (xd_env K) [seed ''heartbeat'', vault])) (\<lambda>x. x = Some hb)
        \<and> js_add (js_add hb (xv_interval cfg)) (xv_grace cfg) \<le> kd_clock (td_keeper T) w div 1000)"

text \<open>A pass over a vault of the scan: executed, or active and past its deadline; the owner may be the one read again.\<close>

definition keeper_pass :: "('e keeper_world_scheme) tick_deps \<Rightarrow> k_vault \<Rightarrow> ('e keeper_world_scheme) crank_run \<Rightarrow> bool" where
  "keeper_pass T cfg R \<longleftrightarrow>
     (\<exists>ow. R = (pass_run (td_keeper T) (cr_vault R) cfg (revalidate T))\<lparr>cr_owner := ow\<rparr>)
     \<and> scanned T (cr_vault R) cfg
     \<and> (xv_executed cfg \<or> kv_active cfg \<and> past_deadline T (cr_vault R) cfg)"

text \<open>The vault's token accounts as listed, under both token programs, hold nothing.\<close>

definition saw_no_tokens :: "('e keeper_world_scheme) tick_deps \<Rightarrow> pubkey \<Rightarrow> bool" where
  "saw_no_tokens T vault \<longleftrightarrow>
     (let K = kd_exec (td_keeper T) in
      \<forall>pid\<in>{token_program (xd_env K), token_2022_program (xd_env K)}.
        answered (xd_holdings K vault pid) (\<lambda>held. \<forall>(mint, amt)\<in>set held. amt \<le> 0))"

definition saw_no_dists :: "('e keeper_world_scheme) tick_deps \<Rightarrow> pubkey \<Rightarrow> k_vault \<Rightarrow> bool" where
  "saw_no_dists T vault cfg \<longleftrightarrow>
     xv_openDists cfg = 0 \<or> answered (xd_vault (kd_exec (td_keeper T)) vault) (\<lambda>c. case c of None \<Rightarrow> False | Some v \<Rightarrow> xv_openDists v = 0)"

inductive keeper_justified :: "('e keeper_world_scheme) tick_deps \<Rightarrow> k_vault \<Rightarrow> ('e keeper_world_scheme) crank_run \<Rightarrow> instruction \<Rightarrow> bool" for T cfg R where
  kj_crank: "ix_justified R ix \<Longrightarrow> keeper_justified T cfg R ix"
| kj_close: "xv_executed cfg \<Longrightarrow> saw_log R (\<lambda>l. case l of None \<Rightarrow> False | Some x \<Rightarrow> completed x) \<Longrightarrow>
    saw_no_dists T (cr_vault R) cfg \<Longrightarrow> saw_no_tokens T (cr_vault R) \<Longrightarrow>
    largestShareIndex (cr_benefs R) < length (cr_benefs R) \<Longrightarrow>
    keeper_justified T cfg R (keeper_close_ix R (wallet (cr_benefs R ! largestShareIndex (cr_benefs R))))"

text \<open>\<open>I\<close> and the clock do not look at the keeper's own memory.\<close>

definition keeper_blind :: "('e keeper_world_scheme \<Rightarrow> bool) \<Rightarrow> ('e keeper_world_scheme) tick_deps \<Rightarrow> bool" where
  "keeper_blind I T \<longleftrightarrow>
     (\<forall>w d f l t n c. I (w\<lparr>kw_deadline := d\<rparr>) = I w \<and> I (w\<lparr>kw_fee := f\<rparr>) = I w \<and> I (w\<lparr>kw_live := l\<rparr>) = I w
        \<and> I (w\<lparr>kw_lastOkAt := t\<rparr>) = I w \<and> I (w\<lparr>kw_due := n\<rparr>) = I w \<and> I (w\<lparr>kw_cleaned := c\<rparr>) = I w
        \<and> kd_clock (td_keeper T) (w\<lparr>kw_live := l\<rparr>) = kd_clock (td_keeper T) w
        \<and> kd_clock (td_keeper T) (w\<lparr>kw_lastOkAt := t\<rparr>) = kd_clock (td_keeper T) w)"

text \<open>Reads and waits preserve \<open>I\<close> and leave the revalidator's stamp alone.\<close>

definition keeper_reads :: "('e keeper_world_scheme \<Rightarrow> bool) \<Rightarrow> ('e keeper_world_scheme) tick_deps \<Rightarrow> bool" where
  "keeper_reads I T \<longleftrightarrow>
     (\<forall>x. exec_reads (\<lambda>w. I w \<and> kw_lastOkAt w = x) (kd_exec (td_keeper T))
        \<and> preserves (\<lambda>w. I w \<and> kw_lastOkAt w = x) (td_getGenesisHash T) \<and> preserves (\<lambda>w. I w \<and> kw_lastOkAt w = x) (td_getProgram T)
        \<and> preserves (\<lambda>w. I w \<and> kw_lastOkAt w = x) (td_getBalance T) \<and> preserves (\<lambda>w. I w \<and> kw_lastOkAt w = x) (td_scan T)
        \<and> preserves (\<lambda>w. I w \<and> kw_lastOkAt w = x) (td_exit T) \<and> (\<forall>ms. preserves (\<lambda>w. I w \<and> kw_lastOkAt w = x) (td_wait T ms)))"

definition keeper_submits :: "('e keeper_world_scheme \<Rightarrow> bool) \<Rightarrow> ('e keeper_world_scheme) tick_deps \<Rightarrow> bool" where
  "keeper_submits I T \<longleftrightarrow>
     (\<forall>cfg R k pre ix fee w x. keeper_pass T cfg R \<longrightarrow> keeper_justified T cfg R ix \<longrightarrow> plain_pre pre \<longrightarrow> verified_now T w \<longrightarrow> I w \<longrightarrow>
        kw_lastOkAt w = x \<longrightarrow>
        (let w' = snd (xd_send (kd_exec (td_keeper T)) (crank_tx k pre ix fee) w) in I w' \<and> kw_lastOkAt w' = x))"

subsection \<open>The revalidator\<close>

lemma preserves_stamped:
  assumes "\<And>x. preserves (\<lambda>w. I w \<and> kw_lastOkAt w = x) m"
  shows "preserves (\<lambda>w. I w \<and> verified_memory T w) m"
  using assms unfolding preserves_def verified_memory_def by metis

lemma reads_stamped:
  assumes "keeper_reads I T"
  shows "exec_reads (\<lambda>w. I w \<and> verified_memory T w) (kd_exec (td_keeper T))"
    "preserves (\<lambda>w. I w \<and> verified_memory T w) (td_getGenesisHash T)" "preserves (\<lambda>w. I w \<and> verified_memory T w) (td_getProgram T)"
    "preserves (\<lambda>w. I w \<and> verified_memory T w) (td_getBalance T)" "preserves (\<lambda>w. I w \<and> verified_memory T w) (td_scan T)"
    "preserves (\<lambda>w. I w \<and> verified_memory T w) (td_exit T)" "preserves (\<lambda>w. I w \<and> verified_memory T w) (td_wait T ms)"
  using assms unfolding keeper_reads_def exec_reads_def by (simp_all add: preserves_stamped)

lemma keeper_blind_stamped:
  assumes "keeper_blind I T"
  shows "(I (w\<lparr>kw_deadline := d\<rparr>) \<and> verified_memory T (w\<lparr>kw_deadline := d\<rparr>)) = (I w \<and> verified_memory T w)"
    "(I (w\<lparr>kw_fee := f\<rparr>) \<and> verified_memory T (w\<lparr>kw_fee := f\<rparr>)) = (I w \<and> verified_memory T w)"
    "(I (w\<lparr>kw_due := n\<rparr>) \<and> verified_memory T (w\<lparr>kw_due := n\<rparr>)) = (I w \<and> verified_memory T w)"
    "(I (w\<lparr>kw_cleaned := n\<rparr>) \<and> verified_memory T (w\<lparr>kw_cleaned := n\<rparr>)) = (I w \<and> verified_memory T w)"
    "(I (w\<lparr>kw_live := b\<rparr>) \<and> verified_memory T (w\<lparr>kw_live := b\<rparr>)) = (I w \<and> verified_memory T w)"
    "(I (w\<lparr>kw_lastOkAt := Some t\<rparr>) \<and> verified_memory T (w\<lparr>kw_lastOkAt := Some t\<rparr>)) = (I w \<and> verified_at T t)"
  using assms by (simp_all add: keeper_blind_def verified_memory_def)

lemma net_case [preserves_intro]:
  "preserves I a \<Longrightarrow> preserves I b \<Longrightarrow> preserves I c \<Longrightarrow>
   preserves I (case s of NET_VERIFIED \<Rightarrow> a | NET_MISMATCH \<Rightarrow> b | NET_UNKNOWN \<Rightarrow> c)"
  by (cases s) auto

lemma prog_case [preserves_intro]:
  "(\<And>x. preserves I (a x)) \<Longrightarrow> (\<And>r. preserves I (b r)) \<Longrightarrow> (\<And>r. preserves I (c r)) \<Longrightarrow>
   preserves I (case s of Prog_ok x \<Rightarrow> a x | Prog_bad r \<Rightarrow> b r | Prog_unknown r \<Rightarrow> c r)"
  by (cases s) auto

lemma readiness_preserves:
  assumes "preserves I (td_getGenesisHash T)" "preserves I (td_getProgram T)" "preserves I (td_getBalance T)"
  shows "preserves I (keeperReadiness T)"
  unfolding keeperReadiness_def classifyGenesis_def checkProgramAccount_def bounded_call_def
  by (intro preserves_bindE preserves_intro assms)

lemma check_verifies:
  assumes "readiness_check T w = (Inr True, w')"
  shows "verified_at T (kd_clock (td_keeper T) w')"
  using assms unfolding readiness_check_def verified_at_def bindE_def
  by (auto simp: ret_apply split: prod.splits sum.splits keeper_gate.splits) blast

lemma revalidate_run:
  assumes "keeper_blind I T" "keeper_reads I T" "I w" "verified_memory T w" "revalidate T w = (r, w')"
  shows "I w' \<and> verified_memory T w' \<and> (r = Inr True \<longrightarrow> verified_now T w')"
proof -
  let ?J = "\<lambda>w. I w \<and> verified_memory T w"
  let ?c = "kd_clock (td_keeper T)"
  show ?thesis
  proof (cases "cache_fresh REVALIDATE_TTL_MS (?c w) w")
    case True
    then have "r = Inr True" "w' = w" using assms(5) by (simp_all add: revalidate_def revalidate_with_def bindE_def ret_apply)
    then show ?thesis using True assms(3,4) by (auto simp: cache_fresh_def verified_now_def verified_memory_def split: option.splits)
  next
    case False
    obtain a v where chk: "readiness_check T w = (a, v)" by fastforce
    have "preserves ?J (readiness_check T)" unfolding readiness_check_def
      by (intro preserves_bindE preserves_intro readiness_preserves reads_stamped [OF assms(2)])
    from preservesD [OF this, of w] chk assms(3,4) have J: "I v" "verified_memory T v" by simp_all
    have run: "bindE (readiness_check T) (\<lambda>ok. seqE (modify (\<lambda>w. w\<lparr>kw_live := ok\<rparr>)) (
        seqE (if ok then modify (\<lambda>w. w\<lparr>kw_lastOkAt := Some (?c w)\<rparr>) else ret ()) (ret ok))) w = (r, w')"
      using False assms(5) by (simp add: revalidate_def revalidate_with_def bindE_def ret_apply)
    show ?thesis
    proof (cases a)
      case (Inr ok)
      then show ?thesis
      proof (cases ok)
        case True
        then have v: "verified_at T (?c v)" using check_verifies [of T w v] chk Inr by simp
        have "r = Inr True" "w' = v\<lparr>kw_live := True, kw_lastOkAt := Some (?c (v\<lparr>kw_live := True\<rparr>))\<rparr>"
          using run Inr True by (simp_all add: bindE_def chk ret_apply)
        then show ?thesis using assms(1) v J
          by (simp add: keeper_blind_def verified_memory_def verified_now_def REVALIDATE_TTL_MS_def)
      next
        case False
        then have "r = Inr False" "w' = v\<lparr>kw_live := False\<rparr>" using run Inr by (simp_all add: bindE_def chk ret_apply)
        then show ?thesis using assms(1) J by (simp add: keeper_blind_def verified_memory_def)
      qed
    qed (use run J in \<open>auto simp: bindE_def chk\<close>)
  qed
qed

lemma revalidate_preserves:
  assumes "keeper_blind I T" "keeper_reads I T"
  shows "preserves (\<lambda>w. I w \<and> verified_memory T w) (revalidate T)"
  unfolding preserves_def using revalidate_run [OF assms] by (metis surj_pair snd_conv)

lemma keeper_guard_preserves:
  assumes "keeper_blind I T" "keeper_reads I T" "keeper_submits I T" "keeper_pass T cfg R" "keeper_justified T cfg R ix" "plain_pre pre"
  shows "preserves (\<lambda>w. I w \<and> verified_memory T w) (guarded_send R (crank_tx k pre ix))"
  unfolding preserves_def
proof (intro allI impI)
  fix w
  assume w: "I w \<and> verified_memory T w"
  obtain r v where run: "revalidate T w = (r, v)" by fastforce
  from revalidate_run [OF assms(1,2) _ _ run] w have v: "I v" "verified_memory T v" "r = Inr True \<longrightarrow> verified_now T v" by auto
  have g: "cr_guard R = makeKeeperGuard (Some (revalidate T))" "cr_deps R = bounded_deps (td_keeper T)"
    using assms(4) unfolding keeper_pass_def pass_run_def by (metis (no_types, lifting) crank_run.select_convs(1,2) crank_run.surjective crank_run.update_convs(8))+
  show "I (snd (guarded_send R (crank_tx k pre ix) w)) \<and> verified_memory T (snd (guarded_send R (crank_tx k pre ix) w))"
  proof (cases "r = Inr True")
    case True
    then have n: "verified_now T v" using v by simp
    let ?w = "snd (xd_send (kd_exec (td_keeper T)) (crank_tx k pre ix (cr_fee R v)) v)"
    have "I ?w" "kw_lastOkAt ?w = kw_lastOkAt v"
      using assms(3-6) n v(1) unfolding keeper_submits_def Let_def by blast+
    moreover have "snd (guarded_send R (crank_tx k pre ix) w) = ?w"
      using True run by (simp add: guarded_send_def g makeKeeperGuard_def bindE_def tryE_def ret_apply bounded_deps_def)
    ultimately show ?thesis using v by (simp add: verified_memory_def)
  next
    case False
    then have "snd (guarded_send R (crank_tx k pre ix) w) = v" using run
      by (cases r) (simp_all add: guarded_send_def g makeKeeperGuard_def bindE_def tryE_def ret_apply throw_apply)
    then show ?thesis using v by simp
  qed
qed

subsection \<open>Passes\<close>

lemma pass_disciplined:
  assumes "keeper_blind I T" "keeper_reads I T" "keeper_submits I T" "keeper_pass T cfg R"
  shows "disciplined (\<lambda>w. I w \<and> verified_memory T w) R"
proof -
  have "cr_deps R = bounded_deps (td_keeper T)"
    using assms(4) unfolding keeper_pass_def pass_run_def by (metis (no_types, lifting) crank_run.select_convs(1) crank_run.update_convs(8))
  then show ?thesis
    using bounded_reads [OF reads_stamped(1) [OF assms(2)]] keeper_guard_preserves [OF assms(1-4) kj_crank]
    unfolding disciplined_def ix_justified_def by auto
qed

lemma keeper_pass_owner: "keeper_pass T cfg R \<Longrightarrow> keeper_pass T cfg (R\<lparr>cr_owner := ow\<rparr>)"
  unfolding keeper_pass_def by (elim conjE exE) (rule conjI, rule exI [of _ ow], simp_all, metis crank_run.surjective crank_run.update_convs(8))

lemma start_pass_preserves:
  assumes "keeper_blind I T" "keeper_reads I T"
  shows "preserves (\<lambda>w. I w \<and> verified_memory T w) (start_pass (td_keeper T))"
  unfolding start_pass_def
  by (intro preserves_bindE preserves_modify preserves_intro fee_preserves reads_stamped [OF assms(2)])
    (simp_all only: keeper_blind_stamped [OF assms(1)])

lemma crank_preserves:
  assumes "keeper_blind I T" "keeper_reads I T" "keeper_submits I T" "scanned T vault cfg"
    "xv_executed cfg \<or> kv_active cfg \<and> past_deadline T vault cfg"
  shows "preserves (\<lambda>w. I w \<and> verified_memory T w) (crankVault (td_keeper T) vault cfg (Some (revalidate T)))"
proof -
  let ?R = "pass_run (td_keeper T) vault cfg (revalidate T)"
  have R: "keeper_pass T cfg ?R" using assms(4,5) by (auto simp: keeper_pass_def pass_run_def)
  show ?thesis unfolding crankVault_def option.case
  proof (intro preserves_bindE start_pass_preserves [OF assms(1,2)] keeper_steps_preserve pass_of_run
      pass_disciplined [OF assms(1-3) R] pass_disciplined [OF assms(1-3) keeper_pass_owner [OF R]] reads_stamped [OF assms(2)])
    assume "may_finalize ?R"
    then show "preserves (\<lambda>w. I w \<and> verified_memory T w) (guarded_send ?R (crank_tx Do_finalize [] (x_finalize_ix ?R)))"
      by (intro keeper_guard_preserves [OF assms(1-3) R] kj_crank) (auto simp: ix_justified_def plain_pre_def)
  qed
qed

lemma holds_any_False:
  assumes "answered (holds_any D vault pids) (\<lambda>x. x = False)" "pid \<in> set pids"
  shows "answered (xd_holdings (kd_exec D) vault pid) (\<lambda>held. \<forall>(mint, amt)\<in>set held. amt \<le> 0)"
  using assms
proof (induction pids)
  case (Cons p ps)
  from Cons.prems(1) have "answered (bindE (readWithin D (xd_holdings (kd_exec D) vault p) ''token-accounts'') (\<lambda>held.
      if list_ex (\<lambda>(mint, amt). 0 < amt) held then ret True else holds_any D vault ps)) (\<lambda>x. x = False)"
    by (simp only: holds_any.simps)
  then obtain held where h: "answered (readWithin D (xd_holdings (kd_exec D) vault p) ''token-accounts'') (\<lambda>x. x = held)"
    "answered (if list_ex (\<lambda>(mint, amt). 0 < amt) held then ret True else holds_any D vault ps) (\<lambda>x. x = False)"
    by (rule answered_bindE)
  then have "\<forall>(mint, amt)\<in>set held. amt \<le> 0" "answered (holds_any D vault ps) (\<lambda>x. x = False)"
    by (auto simp: list_ex_iff split: if_splits)
  then show ?case using Cons.IH Cons.prems(2) answered_mono [OF answered_readWithin [OF h(1)]] by auto
qed simp

lemma holds_any_preserves: "exec_reads I (kd_exec D) \<Longrightarrow> preserves I (holds_any D vault pids)"
  by (induction pids) (auto simp: exec_reads_def intro!: preserves_bindE preserves_intro)

lemma cleanup_preserves:
  assumes "keeper_blind I T" "keeper_reads I T" "keeper_submits I T" "scanned T vault cfg" "xv_executed cfg"
  shows "preserves (\<lambda>w. I w \<and> verified_memory T w) (cleanupExecutedVault (td_keeper T) vault cfg (Some (revalidate T)))"
proof -
  let ?J = "\<lambda>w. I w \<and> verified_memory T w" and ?D = "td_keeper T"
  let ?R = "pass_run ?D vault cfg (revalidate T)"
  have R: "keeper_pass T cfg ?R" using assms(4,5) by (auto simp: keeper_pass_def pass_run_def)
  have reads: "exec_reads ?J (bounded_deps ?D)" by (rule bounded_reads [OF reads_stamped(1) [OF assms(2)]])
  show ?thesis unfolding cleanupExecutedVault_def option.case Let_def k_names(10) [OF pass_of_run(1)] k_largest_same
      k_rpc_guarded [OF pass_of_run(1)]
  proof (intro preserves_bindE preserves_tryE preserves_if preserves_ret preserves_throw start_pass_preserves [OF assms(1,2)])
    show "preserves ?J (xd_execLog (bounded_deps ?D) (executionPda ?R))" using reads by (simp add: exec_reads_def)
    show "preserves ?J (leftover_dists ?D vault cfg (revalidate T))"
      unfolding leftover_dists_def using reads
      by (intro preserves_bindE preserves_intro crank_preserves [OF assms(1-4)]) (auto simp: assms(5) exec_reads_def)
    show "preserves ?J (vaultHoldsUndistributedTokens ?D vault)"
      unfolding vaultHoldsUndistributedTokens_def by (rule holds_any_preserves [OF reads_stamped(1) [OF assms(2)]])
    show "preserves ?J (wallet_at ?R (largestShareIndex (xv_beneficiaries cfg)))" by (rule preserves_wallet_at)
    fix log stillOpen holds maxWallet
    assume l: "answered (xd_execLog (bounded_deps ?D) (executionPda ?R)) (\<lambda>x. x = log)" "\<not> (case log of None \<Rightarrow> True | Some l \<Rightarrow> \<not> completed l)"
      and d: "answered (leftover_dists ?D vault cfg (revalidate T)) (\<lambda>x. x = stillOpen)" "\<not> stillOpen"
      and t: "answered (vaultHoldsUndistributedTokens ?D vault) (\<lambda>x. x = holds)" "\<not> holds"
      and m: "answered (wallet_at ?R (largestShareIndex (xv_beneficiaries cfg))) (\<lambda>x. x = maxWallet)"
    have V: "cr_vault ?R = vault" "cr_benefs ?R = xv_beneficiaries cfg" "cr_deps ?R = bounded_deps ?D" by (simp_all add: pass_run_def)
    have mw: "largestShareIndex (cr_benefs ?R) < length (cr_benefs ?R)" "maxWallet = wallet (cr_benefs ?R ! largestShareIndex (cr_benefs ?R))"
      using wallet_at_answer [OF m] V by simp_all
    have log: "saw_log ?R (\<lambda>l. case l of None \<Rightarrow> False | Some x \<Rightarrow> completed x)"
      unfolding saw_log_def V using answered_mono [OF l(1)] l(2) by (auto split: option.splits)
    have dists: "saw_no_dists T (cr_vault ?R) cfg"
    proof (cases "0 < xv_openDists cfg")
      case True
      then have "answered (seqE (crankVault ?D vault cfg (Some (revalidate T)))
          (bindE (fetched (xd_vault (bounded_deps ?D) vault)) (\<lambda>fresh. ret (0 < xv_openDists fresh)))) (\<lambda>x. x = False)"
        using d by (simp add: leftover_dists_def)
      then obtain u where "answered (bindE (fetched (xd_vault (bounded_deps ?D) vault)) (\<lambda>fresh. ret (0 < xv_openDists fresh))) (\<lambda>x. x = False)"
        by (rule answered_bindE)
      then obtain fresh where f: "answered (fetched (xd_vault (bounded_deps ?D) vault)) (\<lambda>x. x = fresh)" "\<not> 0 < xv_openDists fresh"
        by (rule answered_bindE) simp
      then have "answered (xd_vault (kd_exec ?D) vault) (\<lambda>x. x = Some fresh)"
        using answered_readWithin answered_fetched [OF f(1)] by (fastforce simp: bounded_deps_def)
      from answered_mono [OF this] f(2) show ?thesis by (simp add: saw_no_dists_def V)
    qed (simp add: saw_no_dists_def)
    have "answered (holds_any ?D vault [token_program (xd_env (kd_exec ?D)), token_2022_program (xd_env (kd_exec ?D))]) (\<lambda>x. x = False)"
      using t by (simp add: vaultHoldsUndistributedTokens_def)
    from holds_any_False [OF this] have tokens: "saw_no_tokens T (cr_vault ?R)" by (simp add: saw_no_tokens_def Let_def V)
    have "keeper_justified T cfg ?R (keeper_close_ix ?R maxWallet)"
      using kj_close [OF assms(5) log dists tokens mw(1)] mw(2) by simp
    then show "preserves ?J (guarded_send ?R (crank_tx Do_close_vault [] (keeper_close_ix ?R maxWallet)))"
      by (rule keeper_guard_preserves [OF assms(1-3) R]) (simp add: plain_pre_def)
  qed
qed

subsection \<open>The loop\<close>

lemma decision_case [preserves_intro]:
  "preserves I a \<Longrightarrow> preserves I b \<Longrightarrow> preserves I c \<Longrightarrow>
   preserves I (case s of Dec_halt \<Rightarrow> a | Dec_skip \<Rightarrow> b | Dec_fatal \<Rightarrow> c)"
  by (cases s) auto

lemma executed_preserves:
  assumes "keeper_blind I T" "keeper_reads I T" "keeper_submits I T" "scanned T vault cfg" "xv_executed cfg"
  shows "preserves (\<lambda>w. I w \<and> verified_memory T w) (executed_vault T vault cfg)"
  unfolding executed_vault_def
  by (intro preserves_bindE preserves_intro revalidate_preserves [OF assms(1,2)] cleanup_preserves [OF assms] preserves_modify)
    (simp only: keeper_blind_stamped [OF assms(1)])

lemma live_preserves:
  assumes "keeper_blind I T" "keeper_reads I T" "keeper_submits I T" "scanned T vault cfg" "kv_active cfg"
  shows "preserves (\<lambda>w. I w \<and> verified_memory T w) (live_vault T vault cfg)"
  unfolding live_vault_def Let_def
proof (intro preserves_bindE preserves_intro revalidate_preserves [OF assms(1,2)] preserves_modify crank_preserves [OF assms(1-4)])
  let ?K = "kd_exec (td_keeper T)"
  show "preserves (\<lambda>w. I w \<and> verified_memory T w) (xd_heartbeat ?K k)" for k
    using reads_stamped(1) [OF assms(2)] by (simp add: exec_reads_def)
  show "I (w\<lparr>kw_due := kw_due w + 1\<rparr>) \<and> verified_memory T (w\<lparr>kw_due := kw_due w + 1\<rparr>)" if "I w \<and> verified_memory T w" for w
    using that by (simp only: keeper_blind_stamped [OF assms(1)])
  fix hb a b g now
  assume reads: "answered (withTimeout (kd_fires (td_keeper T)) (fetched (xd_heartbeat ?K (pda (xd_env ?K) [seed ''heartbeat'', vault])))
      HB_TIMEOUT_MS ''heartbeat'') (\<lambda>x. x = hb)"
    "answered (bn_toNumber hb) (\<lambda>x. x = a)" "answered (bn_toNumber (xv_interval cfg)) (\<lambda>x. x = b)"
    "answered (bn_toNumber (xv_grace cfg)) (\<lambda>x. x = g)" "answered (gets (kd_clock (td_keeper T))) (\<lambda>x. x = now)"
    "\<not> now div 1000 < js_add (js_add a b) g"
  then obtain w where "now = kd_clock (td_keeper T) w" by (auto simp: answered_def)
  with reads answered_fetched [OF answered_withTimeout [OF reads(1)]] toNumber_answer [OF reads(2)] toNumber_answer [OF reads(3)]
    toNumber_answer [OF reads(4)]
  have "past_deadline T vault cfg" unfolding past_deadline_def Let_def by (intro exI [of _ hb] exI [of _ w]) simp
  then show "xv_executed cfg \<or> kv_active cfg \<and> past_deadline T vault cfg" using assms(5) by simp
qed

lemma turn_preserves:
  assumes "keeper_blind I T" "keeper_reads I T" "keeper_submits I T" "scanned T vault cfg"
  shows "preserves (\<lambda>w. I w \<and> verified_memory T w) (vault_turn T vault cfg)"
  unfolding vault_turn_def Let_def
  by (intro preserves_intro executed_preserves [OF assms] live_preserves [OF assms]) simp_all

lemma turns_preserve:
  assumes "keeper_blind I T" "keeper_reads I T" "keeper_submits I T" "\<And>vault cfg. (vault, cfg) \<in> set vs \<Longrightarrow> scanned T vault cfg"
  shows "preserves (\<lambda>w. I w \<and> verified_memory T w) (vault_turns T vs)"
  using assms(4)
proof (induction vs)
  case (Cons v rest)
  obtain vault cfg where v: "v = (vault, cfg)" by fastforce
  have "scanned T vault cfg" "\<And>vault cfg. (vault, cfg) \<in> set rest \<Longrightarrow> scanned T vault cfg" using Cons.prems v by auto
  then show ?case using Cons.IH by (auto simp: v intro!: preserves_bindE preserves_ret turn_preserves [OF assms(1-3)])
qed (simp add: preserves_ret)

lemma pass_preserves:
  assumes "keeper_blind I T" "keeper_reads I T" "keeper_submits I T" "\<And>vault cfg. (vault, cfg) \<in> set vs \<Longrightarrow> scanned T vault cfg"
  shows "preserves (\<lambda>w. I w \<and> verified_memory T w) (pass_vaults T vs)"
  unfolding pass_vaults_def
proof (intro preserves_bindE preserves_intro turns_preserve [OF assms] reads_stamped [OF assms(2)] preserves_modify)
  show "I (w\<lparr>kw_due := 0, kw_cleaned := 0\<rparr>) \<and> verified_memory T (w\<lparr>kw_due := 0, kw_cleaned := 0\<rparr>)" if "I w \<and> verified_memory T w" for w
    using that by (simp only: keeper_blind_stamped [OF assms(1)])
qed

lemma scan_answer:
  assumes "answered (tryE (bindE m (\<lambda>vs. ret (Inr vs))) (\<lambda>e. if b e then throw e else ret (Inl (f e)))) (\<lambda>x. x = Inr vs)"
  shows "answered m (\<lambda>x. x = vs)"
  using assms unfolding answered_def tryE_def bindE_def
  by (auto simp: ret_apply throw_apply split: prod.splits sum.splits if_splits)

lemma tick_preserves:
  assumes "keeper_blind I T" "keeper_reads I T" "keeper_submits I T"
  shows "preserves (\<lambda>w. I w \<and> verified_memory T w) (keeper_tick T)"
proof -
  let ?J = "\<lambda>w. I w \<and> verified_memory T w"
  have scan: "preserves ?J (scanVaults T)"
    unfolding scanVaults_def by (intro preserves_bindE preserves_intro reads_stamped [OF assms(2)])
  show ?thesis unfolding keeper_tick_def Let_def
  proof (rule preserves_bindE)
    show "preserves ?J (tryE (bindE (withTimeout (kd_fires (td_keeper T)) (scanVaults T) SCAN_TIMEOUT_MS ''scan'') (\<lambda>vs. ret (Inr vs)))
       (\<lambda>e. if \<not> isTransientScanError (error_view (xd_ext (kd_exec (td_keeper T))) e) then throw e
          else ret (Inl (if je_name (error_view (xd_ext (kd_exec (td_keeper T))) e) = ''TimeoutError'' then ''scan_timeout'' else ''scan_failed''))))"
      by (intro preserves_bindE preserves_intro scan)
    fix r
    assume r: "answered (tryE (bindE (withTimeout (kd_fires (td_keeper T)) (scanVaults T) SCAN_TIMEOUT_MS ''scan'') (\<lambda>vs. ret (Inr vs)))
       (\<lambda>e. if \<not> isTransientScanError (error_view (xd_ext (kd_exec (td_keeper T))) e) then throw e
          else ret (Inl (if je_name (error_view (xd_ext (kd_exec (td_keeper T))) e) = ''TimeoutError'' then ''scan_timeout'' else ''scan_failed''))))
       (\<lambda>x. x = r)"
    show "preserves ?J (case r of Inl r \<Rightarrow> ret (scan_failed r) | Inr vaults \<Rightarrow> pass_vaults T vaults)"
    proof (cases r)
      case (Inr vs)
      have "answered (scanVaults T) (\<lambda>x. x = vs)" by (rule answered_withTimeout [OF scan_answer [OF r [unfolded Inr]]])
      then have "scanned T vault cfg" if "(vault, cfg) \<in> set vs" for vault cfg
        unfolding scanned_def by (rule answered_mono) (use that in simp)
      then show ?thesis by (simp add: Inr pass_preserves [OF assms])
    qed (simp add: preserves_ret)
  qed
qed

lemma ready_verified: "answered (keeperReadiness T) (\<lambda>x. x = Kg_ready s low t) \<Longrightarrow> verified_at T t"
  unfolding answered_def verified_at_def by blast

lemma once_preserves:
  assumes "keeper_blind I T" "keeper_reads I T" "keeper_submits I T"
  shows "preserves (\<lambda>w. I w \<and> verified_memory T w) (runKeeperOnce T)"
  unfolding runKeeperOnce_def
proof (rule preserves_bindE)
  let ?J = "\<lambda>w. I w \<and> verified_memory T w"
  show "preserves ?J (keeperReadiness T)" by (intro readiness_preserves reads_stamped [OF assms(2)])
  fix g
  assume g: "answered (keeperReadiness T) (\<lambda>x. x = g)"
  show "preserves ?J (case g of
       Kg_fatal r net \<Rightarrow> seqE (td_exit T) (ret False)
     | Kg_degraded r \<Rightarrow> ret False
     | Kg_ready s low verifiedAt \<Rightarrow>
         seqE (markVerified verifiedAt) (
         bindE (keeper_tick T) (\<lambda>t. if tr_scanFailed t then ret False else if \<not> tr_ok t then ret False else ret True)))"
  proof (cases g)
    case (Kg_ready s low t)
    have "preserves ?J (markVerified t)" unfolding markVerified_def
      by (rule preserves_modify) (use ready_verified [OF g [unfolded Kg_ready]] assms(1) in \<open>simp add: keeper_blind_def verified_memory_def\<close>)
    then show ?thesis by (auto simp: Kg_ready intro!: preserves_bindE preserves_intro tick_preserves [OF assms])
  qed (auto intro!: preserves_bindE preserves_intro reads_stamped [OF assms(2)])
qed

lemma loop_preserves:
  assumes "keeper_blind I T" "keeper_reads I T" "keeper_submits I T"
  shows "preserves (\<lambda>w. I w \<and> verified_memory T w) (loop_turns T n attempt)"
  by (induction n arbitrary: attempt)
    (auto simp: loop_turn_def Let_def intro!: preserves_bindE preserves_intro once_preserves [OF assms] reads_stamped [OF assms(2)])

end
