(* ===== verification/Srv_Exec_Runs.thy ===== *)
theory Srv_Exec_Runs
  imports Srv_Exec_Props Owner_Facts
begin

text \<open>
  Runs of the executor: a stuck mint keeps a vault from being finalized, and what that means for a
  stray token account; the lock and the outcomes of a run; the agreement of the server's crank with
  the application's.
\<close>

subsection \<open>A simulated chain\<close>

record sim_world = exec_world +
  xs_sent :: "tx list"

definition sim_env :: env where
  "sim_env = \<lparr>program_id = [100], pda = concat, ata = (\<lambda>m ow b p. Inr (m @ ow @ p)), b58 = (\<lambda>k. if k = [50] then ''Junk'' else ''other''),
     new_bn = Inr, system_program = [101], token_program = [102], token_2022_program = [103], ata_program = [104],
     compute_budget_program = [105], fee_wallet = [106]\<rparr>"

definition sim_vault :: x_vault where
  "sim_vault = \<lparr>xv_owner = [1], xv_interval = 100, xv_grace = 50,
     xv_beneficiaries = [\<lparr>wallet = [7], shareBps = 10000, hasSpecificAssets = False\<rparr>], xv_executed = False, xv_hasPlan = False, xv_openDists = 0\<rparr>"

definition is_method :: "(prog_method \<Rightarrow> bool) \<Rightarrow> tx \<Rightarrow> bool" where
  "is_method P t = list_ex (\<lambda>ix. case ix of ProgIx m as ms \<Rightarrow> P m | _ \<Rightarrow> False) t"

text \<open>The program's rule in \<open>begin_token_dist.rs\<close>: the balance of the vault's own associated account counts.\<close>

definition nothing_to_distribute :: "nat \<Rightarrow> bool \<Rightarrow> bool" where
  "nothing_to_distribute bal mintInPlan \<longleftrightarrow> \<not> (0 < bal \<or> mintInPlan)"

text \<open>
  A vault that is due, its one SOL share paid; \<open>held\<close> are the token accounts the RPC lists for it
  (wherever they are), \<open>ataBalance\<close> is the balance of its associated accounts.
\<close>

definition sim_deps :: "(string \<times> int) list \<Rightarrow> nat \<Rightarrow> ('e sim_world_scheme) exec_deps" where
  "sim_deps held ataBalance =
     \<lparr>xd_env = sim_env, xd_ext = (\<lambda>n. \<lparr>je_name = ''SendTransactionError'', je_message = ''custom program error: 0x1798'', je_code = [],
        je_logs = True, je_native = False\<rparr>), xd_decodeKey = (\<lambda>s. if s = ''Vau1t'' then Inr [9] else Inr [50]), xd_hasUrl = False,
      xd_estimate = ret None, xd_recentFees = ret [], xd_vault = (\<lambda>k. ret (Some sim_vault)), xd_heartbeat = (\<lambda>k. ret (Some 1000)),
      xd_execLog = (\<lambda>k. ret (Some \<lparr>solSnapshot = 5, solPaidMask = 1, completed = False\<rparr>)), xd_plan = (\<lambda>k. ret None),
      xd_tokenDist = (\<lambda>k. ret None), xd_holdings = (\<lambda>k p. ret (if p = [102] then held else [])), xd_accountOwner = (\<lambda>k. ret None),
      xd_getAccount = (\<lambda>k p. throw (External 1)), xd_sleep = (\<lambda>ms. ret ()), xd_now = ret 2000,
      xd_send = (\<lambda>t w. if is_method (\<lambda>m. m = BeginTokenDist) t \<and> nothing_to_distribute ataBalance False then (Inl (External 6040), w)
         else (Inr (), w\<lparr>xs_sent := xs_sent w @ [t]\<rparr>))\<rparr>"

definition sim_signer :: "('e sim_world_scheme) signer_config" where
  "sim_signer = \<lparr>sc_enabled = True, sc_path = ''key.json'', sc_expected = [], sc_text = (\<lambda>k. ''Cranker''), sc_read = ret (Some [8])\<rparr>"

definition sim_start :: "string list \<Rightarrow> sim_world" where
  "sim_start locked = \<lparr>sw_db = poll_db (poll_row 0 0), sw_faults = (\<lambda>_. False), sw_count = 0, sw_now = 2000,
     rw_ready = (new_readiness False True)\<lparr>rd_executor := True\<rparr>, rw_ms = 2000000,
     fw_state = \<lparr>fs_ready = True, fs_reason = ''ok'', fs_rejected = False\<rparr>, fw_client = True, fw_projectId = ''dmv'',
     pw_expired = False, pw_running = True, pw_runningSince = 2000000, xw_cached = None, xw_priorityFee = 0,
     xw_staticKeypair = Some [8], xw_staticCranker = Some ''Cranker'', xw_inFlight = locked, xs_sent = []\<rparr>"

definition executor_guard :: "'e poll_world_scheme \<Rightarrow> bool option" where
  "executor_guard w = Some (can_submit w)"

lemmas exec_run = runExecutor_def getCtx_def runExecutorInner_def getPriorityFee_def crank_steps_def begin_step_def collectMints_def
  begin_dist_step_def bequest_step_def sol_step_def finalize_step_def token_step_def close_step_def fetched_def bn_toNumber_def
  choose_mints_def add_held_def on_stuck_def ensureAta_def guarded_send_def crank_tx_def makeSubmitGuard_def x_ata_def cuIxs_def
  shouldFinalize_def exec_chunk_groups unpaid_of_def bitSet_def fullMask_def markStuck_def isStuck_def is_revoked_def operational_def
  isOperationalExecutorError_def error_view_def bindE_def tryE_def finallyE_def ret_apply throw_apply liftE_apply Let_def
  median_fee_def DEFAULT_FEE_def READINESS_REVOKED_def max_safe_def MAX_AUTO_MINTS_def

lemmas sim_samples = sim_deps_def sim_signer_def sim_start_def sim_env_def sim_vault_def executor_guard_def can_submit_def isLive_def
  is_method_def nothing_to_distribute_def x_begin_dist_ix_def x_finalize_ix_def plan_key_def

definition finalized :: "sim_world \<Rightarrow> bool" where
  "finalized w = list_ex (is_method (\<lambda>m. m = FinalizeExecution)) (xs_sent w)"

text \<open>
  C15: the executor submits nothing on its own authority. Let \<open>I\<close> be any predicate of the world (say,
  "no improper transaction has been sent") that reads leave alone and that survives a submission made
  while the readiness question is answered yes, for a vault read as not executed and past its
  deadline, of an instruction the accounts justify as read: begin only without an execution log, a
  token snapshot only without one, an unpaid bequest to its own beneficiary, unpaid share indices in
  batches of at most eight, each paid to its beneficiary's account, finalize only with full masks, a
  close only of a fully paid distribution of an executed vault, a token account only when missing.
  Then \<open>I\<close> survives every run, also one that is aborted or fails.
\<close>

theorem executor_submissions_justified:
  assumes "exec_reads I K" "module_blind I" "preserves I (sc_read S)" "submits_ok I K vaultStr canSubmit"
  shows "preserves I (runExecutor S K vaultStr canSubmit)"
proof (rule run_preserves [OF assms(1-3)])
  fix R
  assume R: "due_run K vaultStr R" "cr_guard R = makeSubmitGuard canSubmit"
  show "preserves I (crank_steps R)"
  proof (rule steps_preserve)
    have "cr_deps R = K" using R(1) by (simp add: due_run_def)
    then have send: "preserves I (guarded_send R (crank_tx k pre ix))" if "ix_justified R ix" "plain_pre pre" for k pre ix
      using assms(4) R that guard_preserves [OF R(2)] unfolding submits_ok_def by blast
    show "disciplined I R" using send assms(1) \<open>cr_deps R = K\<close> unfolding disciplined_def ix_justified_def by blast
    show "preserves I (guarded_send R (crank_tx Do_finalize [] (x_finalize_ix R)))" if "may_finalize R"
      using send that by (simp add: ix_justified_def plain_pre_def)
  qed
qed

lemma sim_blind: "module_blind (\<lambda>w :: sim_world. xs_sent w = [])" "preserves (\<lambda>w :: sim_world. xs_sent w = []) (sc_read sim_signer)"
  "exec_reads (\<lambda>w :: sim_world. xs_sent w = []) (sim_deps held n)"
  by (simp_all add: module_blind_def sim_signer_def preserves_ret exec_reads_def sim_deps_def preserves_throw)

theorem executor_submissions_justified_witness:
  "xs_sent (snd (runExecutor sim_signer (sim_deps [] 0) ''Vau1t'' (\<lambda>w. Some False) (sim_start []))) = []"
proof -
  have "submits_ok (\<lambda>w :: sim_world. xs_sent w = []) (sim_deps [] 0) ''Vau1t'' (\<lambda>w. Some False)" by (simp add: submits_ok_def)
  from executor_submissions_justified [OF sim_blind(3,1,2) this] show ?thesis
    by (rule preservesD) (simp add: sim_start_def)
qed

text \<open>
  A stray token account keeps the server from finalizing, on a simulated chain. Anyone can open a token account
  of the vault that is not its associated account and put one unit of a worthless mint in it; the
  server takes the mint for one to distribute, the program refuses the snapshot since the associated
  account is empty, the mint counts as stuck, and no finalize is sent, though every share is paid;
  without that account the same run finalizes.
\<close>

theorem stray_account_blocks_finalize:
  "(let K = sim_deps [(''Junk'', 1)] 0; (r, w) = runExecutor sim_signer K ''Vau1t'' executor_guard (sim_start []) in
      r = Inr \<lparr>er_action = ''cranked'', er_skipped = [(''Junk'', ''begin_token_dist'')]\<rparr> \<and> \<not> finalized w
      \<and> \<not> finalized (snd (runExecutor sim_signer K ''Vau1t'' executor_guard w)))
   \<and> (let (r, w) = runExecutor sim_signer (sim_deps [] 0) ''Vau1t'' executor_guard (sim_start []) in
      r = Inr \<lparr>er_action = ''cranked'', er_skipped = []\<rparr> \<and> finalized w)"
  by (simp add: exec_run sim_samples finalized_def js_add_small)

subsection \<open>A stuck mint\<close>

definition finalizes :: "tx \<Rightarrow> bool" where
  "finalizes t \<longleftrightarrow> is_method (\<lambda>m. m = FinalizeExecution) t"

lemma on_stuck_answer:
  assumes "answered (on_stuck R m a) (\<lambda>x. x = b)"
  shows "answered m (\<lambda>x. x = b) \<or> b = a"
proof -
  obtain u u' where run: "on_stuck R m a u = (Inr b, u')" using assms unfolding answered_def by blast
  obtain r v where m: "m u = (r, v)" by fastforce
  show ?thesis
  proof (cases r)
    case (Inl e)
    then show ?thesis using run m by (simp add: on_stuck_def tryE_def throw_apply ret_apply split: if_splits)
  next
    case (Inr x)
    then show ?thesis using run m unfolding answered_def by (auto simp: on_stuck_def tryE_def)
  qed
qed

text \<open>A mint without a distribution whose snapshot is never accepted.\<close>

definition never_begun :: "'w crank_run \<Rightarrow> pubkey \<Rightarrow> bool" where
  "never_begun R mint \<longleftrightarrow>
     (\<forall>d. saw_dist R mint (\<lambda>x. x = d) \<longrightarrow> d = None)
     \<and> (\<forall>k vaultAta. \<not> answered (guarded_send R (crank_tx k [] (x_begin_dist_ix R mint vaultAta))) (\<lambda>x. x = ()))"

lemma markStuck_stuck: "set (ck_stuck (markStuck R mint step acc)) = insert (mint_text R mint) (set (ck_stuck acc))"
  by (auto simp: markStuck_def)

lemma begin_dist_stuck:
  assumes "answered (begin_dist_step R mints acc) (\<lambda>x. x = acc')" "(mint, pid) \<in> set mints" "never_begun R mint"
  shows "mint_text R mint \<in> set (ck_stuck acc')"
proof -
  let ?P = "\<lambda>(ys :: (pubkey \<times> pubkey) list) acc. set (map (\<lambda>(m, p). mint_text R m) (filter (\<lambda>(m, p). m = mint) ys)) \<subseteq> set (ck_stuck acc)"
  have "?P mints acc'" using assms(1) unfolding begin_dist_step_def
  proof (rule forE_answer)
    fix ys x a b
    assume IH: "?P ys a" and b: "answered ((case x of (mint, programId) \<Rightarrow> \<lambda>acc.
       bindE (xd_tokenDist (cr_deps R) (tokenDistPda R mint)) (\<lambda>td.
       if td \<noteq> None then ret acc
       else on_stuck R
         (bindE (x_ata R mint (cr_vault R) True programId) (\<lambda>vaultAta.
          seqE (ensureAta R vaultAta mint (cr_vault R) programId) (
          seqE (guarded_send R (crank_tx Do_begin_dist [] (x_begin_dist_ix R mint vaultAta))) (ret acc))))
         (markStuck R mint ''begin_token_dist'' acc))) a) (\<lambda>r. r = b)"
    obtain m p where x: "x = (m, p)" by fastforce
    have grow: "b = a \<or> b = markStuck R m ''begin_token_dist'' a"
      using b unfolding x prod.case by (elim answered_bindE) (auto split: if_splits dest!: on_stuck_answer elim!: answered_bindE)
    have stuck: "b = markStuck R mint ''begin_token_dist'' a" if "m = mint"
      using b assms(3) unfolding x prod.case that never_begun_def saw_dist_def
      by (elim answered_bindE) (auto split: if_splits dest!: on_stuck_answer elim!: answered_bindE)
    show "?P (ys @ [x]) b" using IH grow stuck by (cases "m = mint") (auto simp: x markStuck_stuck)
  qed simp
  then show ?thesis using assms(2) by force
qed

lemma bequest_stuck:
  assumes "answered (bequest_step R mints plan acc) (\<lambda>x. x = acc')"
  shows "set (ck_stuck acc) \<subseteq> set (ck_stuck acc')"
proof (cases plan)
  case None
  then show ?thesis using assms by (simp add: bequest_step_def)
next
  case (Some p)
  have pay: "set (ck_stuck a) \<subseteq> set (ck_stuck b)" if "answered (pay_bequest R mints j asg k a) (\<lambda>x. x = b)" for j asg k a b
  proof -
    have "b = a \<or> set (ck_stuck b) = set (ck_stuck a) \<or> b = markStuck R (a_mint asg) ''execute_specific_asset'' a"
      using that by (auto simp: pay_bequest_def Let_def split: if_splits dest!: on_stuck_answer elim!: answered_bindE)
    then show ?thesis by (auto simp: markStuck_stuck)
  qed
  have "answered (forE (enumerate 0 (assignments p)) acc (\<lambda>(j, a) acc.
      if bitSet (ap_paidMask p) j then ret acc
      else if a_mint a \<noteq> default_pubkey \<and> isStuck R (a_mint a) acc then ret acc
      else bindE (wallet_at R (beneficiaryIndex a)) (\<lambda>benWallet. pay_bequest R mints j a benWallet acc))) (\<lambda>x. x = acc')"
    using assms by (simp add: bequest_step_def Some)
  then show ?thesis
    by (rule forE_answer [where P = "\<lambda>ys x. set (ck_stuck acc) \<subseteq> set (ck_stuck x)"])
      (auto split: prod.splits if_splits elim!: answered_bindE dest!: pay)
qed

text \<open>Reads and the submissions of transactions that do not finalize preserve \<open>I\<close>.\<close>

definition only_finalize_matters :: "('w \<Rightarrow> bool) \<Rightarrow> 'w exec_deps \<Rightarrow> bool" where
  "only_finalize_matters I K \<longleftrightarrow> exec_reads I K \<and> (\<forall>t. \<not> finalizes t \<longrightarrow> preserves I (xd_send K t))"

lemma payout_no_finalize: "ix_payout R ix \<Longrightarrow> plain_pre pre \<Longrightarrow> \<not> finalizes (crank_tx k pre ix fee)"
  by (induction rule: ix_payout.induct)
    (auto split: list.splits instruction.splits simp: plain_pre_def finalizes_def is_method_def crank_tx_def cuIxs_def x_begin_ix_def x_begin_dist_ix_def x_specific_sol_ix_def
      x_specific_asset_ix_def x_sol_shares_ix_def x_token_shares_ix_def x_close_dist_ix_def)

lemma guard_preserves_plain:
  assumes "cr_guard R = makeSubmitGuard canSubmit" "\<And>fee. preserves I (xd_send (cr_deps R) (t fee))"
  shows "preserves I (guarded_send R t)"
  by (rule guard_preserves [OF assms(1)]) (use assms(2) in \<open>simp add: preserves_def\<close>)

text \<open>
  C33: one mint that cannot be snapshotted keeps the whole vault from being finalized: if a run always
  finds the mint among those to distribute, never finds a distribution of it and never gets its
  snapshot accepted, then it submits no finalize at all; anything that only a finalize could change
  stays as it is, in every run.
\<close>

theorem stuck_mint_blocks_finalize:
  assumes "only_finalize_matters I K" "module_blind I" "preserves I (sc_read S)"
    and "\<And>R. due_run K vaultStr R \<Longrightarrow> cr_guard R = makeSubmitGuard canSubmit \<Longrightarrow> never_begun R mint"
    and "\<And>R plan ms. due_run K vaultStr R \<Longrightarrow> plan = None \<or> (\<exists>p. plan = Some p \<and> saw_plan R (\<lambda>x. x = Some p)) \<Longrightarrow>
      answered (collectMints K (cr_vault R) plan) (\<lambda>x. x = ms) \<Longrightarrow> (mint, pid) \<in> set ms"
  shows "preserves I (runExecutor S K vaultStr canSubmit)"
proof (rule run_preserves [OF _ assms(2,3)])
  show reads: "exec_reads I K" using assms(1) by (simp add: only_finalize_matters_def)
  fix R
  assume R: "due_run K vaultStr R" "cr_guard R = makeSubmitGuard canSubmit"
  have K: "cr_deps R = K" using R(1) by (simp add: due_run_def)
  show "preserves I (crank_steps R)"
  proof (rule steps_preserve)
    have "preserves I (guarded_send R (crank_tx k pre ix))" if "ix_payout R ix" "plain_pre pre" for k pre ix
      using assms(1) payout_no_finalize [OF that] K by (intro guard_preserves_plain [OF R(2)]) (auto simp: only_finalize_matters_def)
    then show "disciplined I R" using reads K unfolding disciplined_def by blast
    fix plan mints acc acc'
    assume plan: "plan = None \<or> (\<exists>p. plan = Some p \<and> saw_plan R (\<lambda>x. x = Some p))"
      and ms: "answered (collectMints (cr_deps R) (cr_vault R) plan) (\<lambda>x. x = mints)"
      and bd: "answered (begin_dist_step R mints \<lparr>ck_stuck = [], ck_skipped = []\<rparr>) (\<lambda>x. x = acc)"
      and bq: "answered (bequest_step R mints plan acc) (\<lambda>x. x = acc')" and none: "ck_stuck acc' = []"
    have "(mint, pid) \<in> set mints" using assms(5) [OF R(1) plan] ms K by simp
    from begin_dist_stuck [OF bd this assms(4) [OF R]] bequest_stuck [OF bq] none
    have False by auto
    then show "preserves I (guarded_send R (crank_tx Do_finalize [] (x_finalize_ix R)))" ..
  qed
qed

lemma sim_reads: "exec_reads (\<lambda>w. \<not> finalized w) (sim_deps held n)"
  by (simp add: exec_reads_def sim_deps_def preserves_def ret_apply throw_apply)

lemma sim_never_begun:
  assumes "due_run (sim_deps held 0) vaultStr R" "cr_guard R = makeSubmitGuard canSubmit"
  shows "never_begun R [50]"
proof -
  have K: "cr_deps R = sim_deps held 0" using assms(1) by (simp add: due_run_def)
  show ?thesis
    by (auto simp: never_begun_def saw_dist_def K sim_deps_def answered_def guarded_send_def assms(2) makeSubmitGuard_def bindE_def
        ret_apply throw_apply crank_tx_def cuIxs_def is_method_def x_begin_dist_ix_def nothing_to_distribute_def)
qed

lemma sim_collect:
  "answered (collectMints (sim_deps [(''Junk'', 1)] n) vault plan) (\<lambda>x. x = ms) \<Longrightarrow> plan = None \<Longrightarrow> ([50], [102]) \<in> set ms"
  by (auto simp: answered_def exec_run sim_deps_def sim_env_def)

lemma sim_preserves: "\<not> finalizes t \<Longrightarrow> preserves (\<lambda>w. \<not> finalized w) (xd_send (sim_deps held n) t)"
  by (simp add: preserves_def sim_deps_def finalized_def finalizes_def)

theorem stuck_mint_blocks_finalize_witness:
  "\<not> finalized (snd (runExecutor sim_signer (sim_deps [(''Junk'', 1)] 0) ''Vau1t'' executor_guard (sim_start [])))"
proof -
  have "preserves (\<lambda>w. \<not> finalized w) (runExecutor sim_signer (sim_deps [(''Junk'', 1)] 0) ''Vau1t'' executor_guard)"
  proof (rule stuck_mint_blocks_finalize)
    show "only_finalize_matters (\<lambda>w. \<not> finalized w) (sim_deps [(''Junk'', 1)] 0)"
      using sim_reads sim_preserves by (simp add: only_finalize_matters_def)
    show "module_blind (\<lambda>w :: sim_world. \<not> finalized w)" by (simp add: module_blind_def finalized_def)
    show "preserves (\<lambda>w. \<not> finalized w) (sc_read sim_signer)" by (simp add: sim_signer_def preserves_ret)
    show "due_run (sim_deps [(''Junk'', 1)] 0) ''Vau1t'' R \<Longrightarrow> cr_guard R = makeSubmitGuard executor_guard \<Longrightarrow> never_begun R [50]"
      for R :: "sim_world crank_run" by (rule sim_never_begun)
    fix R :: "sim_world crank_run" and plan ms
    assume R: "due_run (sim_deps [(''Junk'', 1)] 0) ''Vau1t'' R" and plan: "plan = None \<or> (\<exists>p. plan = Some p \<and> saw_plan R (\<lambda>x. x = Some p))"
      and ms: "answered (collectMints (sim_deps [(''Junk'', 1)] 0 :: sim_world exec_deps) (cr_vault R) plan) (\<lambda>x. x = ms)"
    have "cr_deps R = sim_deps [(''Junk'', 1)] 0" using R by (simp add: due_run_def)
    then have "plan = None" using plan by (auto simp: saw_plan_def sim_deps_def)
    then show "([50], [102]) \<in> set ms" using sim_collect [OF ms] by simp
  qed
  then show ?thesis by (rule preservesD) (simp add: finalized_def sim_start_def)
qed

subsection \<open>The lock and the outcomes\<close>

text \<open>
  one run per vault at a time: while a vault is being cranked another call for it returns
  \<open>busy\<close> and changes nothing; a call that is not busy gives its own lock back however it ends, also
  when it throws; and a withdrawn readiness is reported as such, it never escapes as an error.
\<close>

theorem executor_exclusive:
  "(case xw_cached w of
      None \<Rightarrow> True
    | Some payer \<Rightarrow>
        (case runExecutor S K vaultStr canSubmit w of (r, w') \<Rightarrow>
           if vaultStr \<in> set (xw_inFlight w) then r = Inr (only ''busy'') \<and> w' = w
           else vaultStr \<notin> set (xw_inFlight w') \<and> (case r of Inl e \<Rightarrow> \<not> is_revoked K READINESS_REVOKED e | Inr x \<Rightarrow> True)))"
proof (cases "xw_cached w")
  case (Some payer)
  show ?thesis
  proof (cases "vaultStr \<in> set (xw_inFlight w)")
    case False
    obtain r v where run: "runExecutorInner K payer vaultStr canSubmit (w\<lparr>xw_inFlight := vaultStr # xw_inFlight w\<rparr>) = (r, v)" by fastforce
    show ?thesis
    proof (cases r)
      case (Inl e)
      then show ?thesis using Some False run
        by (simp add: runExecutor_def getCtx_def bindE_def ret_apply finallyE_def tryE_def throw_apply)
    next
      case (Inr x)
      then show ?thesis using Some False run by (simp add: runExecutor_def getCtx_def bindE_def ret_apply finallyE_def tryE_def)
    qed
  qed (use Some in \<open>simp add: runExecutor_def getCtx_def bindE_def ret_apply\<close>)
qed simp

subsection \<open>The server and the application crank alike\<close>

lemma drop_bit_and_one: "(drop_bit i m AND 1 = (1 :: nat)) = bit m i"
  by (simp add: bit_iff_odd drop_bit_eq_div and_one_eq odd_iff_mod_2_eq_one)

lemma bitSet_bit: "bitSet m i = bit m i"
  unfolding bitSet_def by (rule drop_bit_and_one)

lemma unpaid_agree: "n \<le> 32 \<Longrightarrow> unpaid_of n (unat m) = unpaidIndices (uint (m :: 32 word)) n"
  by (auto simp: unpaidIndices_word unpaid_of_def bitSet_bit bit_unsigned_iff intro!: filter_cong)

lemma fullMask_agree: "n \<le> 32 \<Longrightarrow> int (fullMask n) = fullU32Mask n"
  by (simp add: fullMask_def fullU32Mask_eq of_nat_diff)

lemma largest_fold:
  "fold (\<lambda>(i, b) (best, bestBps). if bestBps < int (shareBps b) then (i, int (shareBps b)) else (best, bestBps))
     (enumerate k bs) (best, int n)
   = (case fold (\<lambda>(i, s) (best, best_bps). if s > best_bps then (i, s) else (best, best_bps)) (enumerate k (map shareBps bs)) (best, n)
      of (x, y) \<Rightarrow> (x, int y))"
  by (induction bs arbitrary: k best n) auto

lemma largest_agree: "largestShareIndex bs = largest_share_index (map shareBps bs)"
proof (cases bs)
  case (Cons b rest)
  have "largestShareIndex bs = fst (fold (\<lambda>(i, b) (best, bestBps). if bestBps < int (shareBps b) then (i, int (shareBps b)) else (best, bestBps))
      (enumerate 1 rest) (0, int (shareBps b)))"
    by (simp add: largestShareIndex_def Cons)
  also have "\<dots> = fst (fold (\<lambda>(i, s) (best, best_bps). if s > best_bps then (i, s) else (best, best_bps))
      (enumerate 1 (map shareBps rest)) (0, shareBps b))"
    by (simp add: largest_fold split: prod.split)
  also have "\<dots> = largest_share_index (map shareBps bs)"
    by (cases "shareBps b = 0") (simp_all add: largest_share_index_def Cons)
  finally show ?thesis .
qed (simp add: largestShareIndex_def largest_share_index_def)

text \<open>
  the server's crank, the application's and the program agree: on a vault at the owner's address
  every instruction of the executor is the one the application builds for the same arguments; from
  the same mask both pay the same indices in the same batches; both test the same full mask; and
  the dust goes to the beneficiary the program picks.
\<close>

theorem server_crank_agrees:
  assumes "cr_vault R = getVaultPDA (cr_env R) (cr_owner R)" "length (cr_benefs R) \<le> 32"
  shows "x_begin_ix R = begin_ix (cr_env R) (cr_payer R) (cr_owner R) (cr_hasPlan R)
    \<and> x_begin_dist_ix R mint va = begin_dist_ix (cr_env R) (cr_payer R) (cr_owner R) mint va (cr_hasPlan R)
    \<and> x_specific_sol_ix R j b = specific_sol_ix (cr_env R) (cr_payer R) (cr_owner R) j b
    \<and> x_specific_asset_ix R j mint va ba pid = specific_asset_ix (cr_env R) (cr_payer R) (cr_owner R) j mint va ba pid
    \<and> x_sol_shares_ix R part ws = sol_shares_ix (cr_env R) (cr_payer R) (cr_owner R) part ws
    \<and> x_token_shares_ix R mint part va pid atas = token_shares_ix (cr_env R) (cr_payer R) (cr_owner R) mint part va pid atas
    \<and> x_finalize_ix R = finalize_ix (cr_env R) (cr_payer R) (cr_owner R) (cr_hasPlan R)
    \<and> x_close_dist_ix R mint va da pid = close_dist_ix (cr_env R) (cr_payer R) (cr_owner R) mint va da pid
    \<and> exec_chunk (unpaid_of (length (cr_benefs R)) (unat m)) = batches (unpaidIndices (uint (m :: 32 word)) (length (cr_benefs R)))
    \<and> int (fullMask (length (cr_benefs R))) = fullU32Mask (length (cr_benefs R))
    \<and> largestShareIndex (cr_benefs R) = largest_share_index (map shareBps (cr_benefs R))"
  using assms unpaid_agree [OF assms(2)] fullMask_agree [OF assms(2)] largest_agree
  by (simp add: x_begin_ix_def begin_ix_def x_begin_dist_ix_def begin_dist_ix_def x_specific_sol_ix_def specific_sol_ix_def
      x_specific_asset_ix_def specific_asset_ix_def x_sol_shares_ix_def sol_shares_ix_def x_token_shares_ix_def token_shares_ix_def
      x_finalize_ix_def finalize_ix_def x_close_dist_ix_def close_dist_ix_def executionPda_def heartbeatPda_def assetPlanPda_def
      tokenDistPda_def plan_key_def getExecutionPDA_def getHeartbeatPDA_def getAssetPlanPDA_def getTokenDistPDA_def exec_chunk_groups Let_def)

definition sim_run :: "sim_world crank_run" where
  "sim_run = \<lparr>cr_deps = sim_deps [] 0, cr_guard = ret (), cr_payer = [8], cr_fee = xw_priorityFee, cr_vault = getVaultPDA sim_env [1],
     cr_benefs = xv_beneficiaries sim_vault, cr_hasPlan = False, cr_owner = [1], cr_halt = READINESS_REVOKED\<rparr>"

theorem server_crank_agrees_witness:
  "x_begin_ix sim_run = begin_ix sim_env [8] [1] False \<and> x_close_dist_ix sim_run [2] [3] None [4] = close_dist_ix sim_env [8] [1] [2] [3] None [4]
   \<and> exec_chunk (unpaid_of 1 (unat (2 :: 32 word))) = batches (unpaidIndices (uint (2 :: 32 word)) 1)"
proof -
  have R: "cr_vault sim_run = getVaultPDA (cr_env sim_run) (cr_owner sim_run)" "length (cr_benefs sim_run) \<le> 32"
    by (simp_all add: sim_run_def sim_deps_def sim_vault_def)
  have "cr_env sim_run = sim_env" "cr_payer sim_run = [8]" "cr_owner sim_run = [1]" "cr_hasPlan sim_run = False" "length (cr_benefs sim_run) = 1"
    by (simp_all add: sim_run_def sim_deps_def sim_vault_def)
  then show ?thesis using server_crank_agrees [OF R, of "[2]" "[3]" 0 "[]" "[]" "[4]" "[]" "[]" "[]" None 2] by simp
qed

subsection \<open>The signing key\<close>

text \<open>
  once the boot check has accepted a key, the first crank signs with that very key, whatever the
  key file holds by then.
\<close>

theorem signing_key_pinned:
  "(case executorStaticConfig S w of
      (Inr (Static_ok (Some k)), w') \<Rightarrow>
        (case xw_staticKeypair w' of
           None \<Rightarrow> False
         | Some key \<Rightarrow> sc_text S key = k
             \<and> fst (getCtx (S\<lparr>sc_read := replaced\<rparr>) (w'\<lparr>xw_cached := None\<rparr>)) = Inr (Some key))
    | _ \<Rightarrow> True)"
proof (cases "sc_enabled S \<and> sc_path S \<noteq> []")
  case True
  obtain r v where rd: "sc_read S w = (r, v)" by fastforce
  show ?thesis
  proof (cases r)
    case (Inr k)
    then show ?thesis using True rd
      by (cases k) (auto simp: executorStaticConfig_def validateExecutorStaticConfig_def bindE_def ret_apply Let_def getCtx_def
          split: static_check.splits option.splits if_splits)
  qed (use True rd in \<open>simp add: executorStaticConfig_def bindE_def\<close>)
next
  case False
  then show ?thesis by (auto simp: executorStaticConfig_def validateExecutorStaticConfig_def ret_apply)
qed

end
