(* ===== verification/Keeper_Runs.thy ===== *)
theory Keeper_Runs
  imports Keeper_Props Srv_Exec_Runs
begin

text \<open>
  The keeper bot as a whole: what its submissions rest on, with a simulated chain; its crank against
  the server's; when a pass counts as completed; and the waits of its loop.
\<close>

subsection \<open>Every submission is verified and justified\<close>

text \<open>
  C16: the keeper submits nothing on stale readiness or without a reason. Let \<open>I\<close> be any predicate of
  the world that reads and waits leave alone and that survives a submission made at most 1500 ms after
  a time at which the whole gate (genesis, program, balance) was verified, for a scanned vault that is
  executed or active and past its deadline, of an instruction the accounts justify as read; the core
  accounts of a vault are closed only when its execution log is completed, no distribution is open and
  the listed token accounts of both token programs are all empty. Then \<open>I\<close> survives any number of
  turns of the loop, whatever fails, halts or times out in between.
\<close>

theorem keeper_submissions_verified:
  assumes "keeper_blind I T" "keeper_reads I T" "keeper_submits I T"
  shows "preserves (\<lambda>w. I w \<and> verified_memory T w) (loop_turns T n attempt)"
  by (rule loop_preserves [OF assms])

subsection \<open>The keeper cranks as the server does\<close>

lemma never_fires: "(\<And>ms w w'. \<not> fires ms w w') \<Longrightarrow> withTimeout fires m ms label = m"
  by (rule ext) (simp add: withTimeout_def split: prod.split)

definition unhurried :: "('e keeper_world_scheme) keeper_deps \<Rightarrow> bool" where
  "unhurried D \<longleftrightarrow> (\<forall>ms w w'. \<not> kd_fires D ms w w')"

lemma unhurried_read:
  assumes "unhurried D"
  shows "readWithin D m label = m"
proof
  fix w
  have "withTimeout (kd_fires D) m ms l = m" for ms l using assms by (intro never_fires) (simp add: unhurried_def)
  then show "readWithin D m label w = m w" by (simp add: readWithin_def bindE_def)
qed

lemma choose_take:
  "fold (\<lambda>e chosen. if n \<le> length chosen then chosen else chosen @ [e]) ys xs = xs @ take (n - length xs) ys"
proof (induction ys arbitrary: xs)
  case (Cons y ys)
  show ?case
  proof (cases "n \<le> length xs")
    case False
    then show ?thesis by (simp add: Cons.IH take_Cons')
  qed (simp add: Cons.IH)
qed simp

lemma keeper_choice: "keeper_choose_mints info = choose_mints info"
  by (simp add: keeper_choose_mints_def choose_mints_def choose_take Let_def)

lemma unhurried_retry:
  fixes D :: "('e keeper_world_scheme) keeper_deps"
  assumes "unhurried D"
  shows "keeper_info_retry D k n i = info_retry (kd_exec D) k n i"
proof -
  have t: "(let v = error_view x e in if je_name v \<noteq> ''TimeoutError'' \<and> \<not> isOperationalCrankError v then throw e else ret None)
      = (if isOperationalExecutorError (error_view x e) then ret None else throw e)" for x and e
    by (auto simp: crank_error_same isOperationalExecutorError_def Let_def)
  have w: "withTimeout (kd_fires D) m ms l = m" for m :: "('e keeper_world_scheme, pubkey option) io" and ms l
    using assms by (intro never_fires) (simp add: unhurried_def)
  show ?thesis by (induction n arbitrary: i) (simp_all only: keeper_info_retry.simps info_retry.simps t w operational_def)
qed

lemma unhurried_planned:
  assumes "unhurried D"
  shows "keeper_add_planned D = add_planned (kd_exec D)"
  by (intro ext) (simp only: keeper_add_planned_def add_planned_def keeper_getAccountInfoRetry_def getAccountInfoRetry_def Let_def
      unhurried_retry [OF assms] unhurried_read [OF assms])

lemma unhurried_collect:
  assumes "unhurried D"
  shows "keeper_collectMints D vault plan = collectMints (kd_exec D) vault plan"
  by (simp only: keeper_collectMints_def collectMints_def keeper_choice Let_def unhurried_planned [OF assms] unhurried_read [OF assms])

text \<open>Two runs that leave the same world, fail with the same error or return related results.\<close>

definition outcomes_alike :: "('a \<Rightarrow> 'b \<Rightarrow> bool) \<Rightarrow> (exn + 'a) \<times> 'w \<Rightarrow> (exn + 'b) \<times> 'w \<Rightarrow> bool" where
  "outcomes_alike Q x y \<longleftrightarrow>
     snd x = snd y \<and> (case (fst x, fst y) of (Inl e, Inl e') \<Rightarrow> e = e' | (Inr a, Inr b) \<Rightarrow> Q a b | _ \<Rightarrow> False)"

definition runs_alike :: "('a \<Rightarrow> 'b \<Rightarrow> bool) \<Rightarrow> ('w, 'a) io \<Rightarrow> ('w, 'b) io \<Rightarrow> bool" where
  "runs_alike Q m n \<longleftrightarrow> (\<forall>w. outcomes_alike Q (m w) (n w))"

lemma alike_bind:
  assumes "\<And>a. runs_alike Q (f a) (g a)"
  shows "runs_alike Q (bindE m f) (bindE m g)"
  unfolding runs_alike_def
proof
  fix w
  obtain r v where m: "m w = (r, v)" by fastforce
  show "outcomes_alike Q (bindE m f w) (bindE m g w)"
    using assms by (cases r) (simp_all add: bindE_def m runs_alike_def, simp add: outcomes_alike_def)
qed

text \<open>Reading the vault changes nothing and always finds it with the owner of the run.\<close>

definition steady_vault :: "'w crank_run \<Rightarrow> bool" where
  "steady_vault R \<longleftrightarrow>
     (\<forall>w. case xd_vault (cr_deps R) (cr_vault R) w of (Inr (Some c), w') \<Rightarrow> w' = w \<and> xv_owner c = cr_owner R | _ \<Rightarrow> False)"

lemma alike_close:
  assumes "steady_vault R"
  shows "runs_alike (\<lambda>txt res. txt \<in> {pass_text ''executed'' (er_skipped res), pass_text ''cranked'' (er_skipped res)})
    (bindE (fetched (xd_vault (cr_deps R) (cr_vault R))) (\<lambda>freshCfg.
     bindE (close_step (R\<lparr>cr_owner := xv_owner freshCfg\<rparr>) (xv_executed freshCfg) mints acc) (\<lambda>acc.
     ret (pass_text (if xv_executed freshCfg then ''executed'' else ''cranked'') (ck_skipped acc)))))
    (bindE (fetched (xd_vault (cr_deps R) (cr_vault R))) (\<lambda>finalized.
     bindE (close_step R (xv_executed finalized) mints acc) (\<lambda>acc.
     bindE (fetched (xd_vault (cr_deps R) (cr_vault R))) (\<lambda>final.
     ret \<lparr>er_action = (if xv_executed final then ''executed'' else ''cranked''), er_skipped = ck_skipped acc\<rparr>))))"
    (is "runs_alike ?Q ?k ?s")
  unfolding runs_alike_def
proof
  fix w
  have rd: "\<exists>c. xd_vault (cr_deps R) (cr_vault R) v = (Inr (Some c), v) \<and> xv_owner c = cr_owner R" for v
    using assms [unfolded steady_vault_def, rule_format, of v] by (auto split: prod.splits sum.splits option.splits)
  then obtain c where c: "xd_vault (cr_deps R) (cr_vault R) w = (Inr (Some c), w)" "xv_owner c = cr_owner R" by blast
  have R: "R\<lparr>cr_owner := xv_owner c\<rparr> = R" by (simp add: c)
  obtain r v where cl: "close_step R (xv_executed c) mints acc w = (r, v)" by fastforce
  obtain c' where c': "xd_vault (cr_deps R) (cr_vault R) v = (Inr (Some c'), v)" using rd by blast
  show "outcomes_alike ?Q (?k w) (?s w)"
    using c c' cl by (cases r) (simp_all add: fetched_def bindE_def ret_apply R outcomes_alike_def)
qed

lemma unhurried_deps:
  fixes D :: "('e keeper_world_scheme) keeper_deps"
  assumes "unhurried D"
  shows "bounded_deps D = kd_exec D"
proof -
  have "withTimeout (kd_fires D) m ms l = m" for m :: "('e keeper_world_scheme, pubkey option) io" and ms l
    using assms by (intro never_fires) (simp add: unhurried_def)
  then show ?thesis by (simp add: bounded_deps_def unhurried_read [OF assms])
qed

lemma steps_alike:
  assumes "unhurried D" "cr_deps R = kd_exec D" "steady_vault R" "pass_of D R"
  shows "runs_alike (\<lambda>txt res. txt \<in> {pass_text ''executed'' (er_skipped res), pass_text ''cranked'' (er_skipped res)})
    (keeper_steps D R) (crank_steps R)"
  unfolding keeper_steps_composed [OF assms(4)] crank_steps_def unhurried_collect [OF assms(1)] assms(2) [symmetric]
  by (intro alike_bind alike_close [OF assms(3)])

text \<open>
  C25: when no timer fires the keeper's crank of a vault is the server's: on a vault whose owner stays
  the same, with the same services and the same guard, both submit the same transactions in the same
  order, skip the same mints, leave the same world and fail with the same error; they differ in the
  reported text at most in whether a finalize of this very run is counted.
\<close>

theorem keeper_cranks_as_server:
  assumes "unhurried D" "steady_vault (pass_run D vault cfg canSubmit)"
  shows "runs_alike (\<lambda>txt res. txt \<in> {pass_text ''executed'' (er_skipped res), pass_text ''cranked'' (er_skipped res)})
    (keeper_steps D (pass_run D vault cfg canSubmit)) (crank_steps ((pass_run D vault cfg canSubmit)\<lparr>cr_deps := kd_exec D\<rparr>))"
proof -
  have "(pass_run D vault cfg canSubmit)\<lparr>cr_deps := kd_exec D\<rparr> = pass_run D vault cfg canSubmit"
    by (simp add: pass_run_def unhurried_deps [OF assms(1)])
  moreover have "cr_deps (pass_run D vault cfg canSubmit) = kd_exec D"
    by (simp add: pass_run_def unhurried_deps [OF assms(1)])
  ultimately show ?thesis using steps_alike [OF assms(1) _ assms(2) pass_of_run(1)] by (simp only:)
qed

subsection \<open>A simulated keeper\<close>

record sim_kworld = keeper_world +
  ks_ms :: int
  ks_sent :: "tx list"
  ks_waits :: "int list"

definition sim_kvault :: "bool \<Rightarrow> k_vault" where
  "sim_kvault fin = \<lparr>xv_owner = [1], xv_interval = 100, xv_grace = 50,
     xv_beneficiaries = [\<lparr>wallet = [7], shareBps = 10000, hasSpecificAssets = False\<rparr>], xv_executed = fin, xv_hasPlan = False,
     xv_openDists = 0, kv_active = True\<rparr>"

definition sim_kexec :: "bool \<Rightarrow> (string \<times> int) list \<Rightarrow> sim_kworld exec_deps" where
  "sim_kexec fin held =
     \<lparr>xd_env = sim_env, xd_ext = (\<lambda>n. \<lparr>je_name = ''SendTransactionError'', je_message = ''simulation failed'', je_code = [],
        je_logs = True, je_native = False\<rparr>), xd_decodeKey = (\<lambda>s. Inr [50]), xd_hasUrl = False, xd_estimate = ret None, xd_recentFees = ret [],
      xd_vault = (\<lambda>k. ret (Some (x_vault.truncate (sim_kvault fin)))), xd_heartbeat = (\<lambda>k. ret (Some 1000)),
      xd_execLog = (\<lambda>k. ret (Some \<lparr>solSnapshot = 5, solPaidMask = 1, completed = True\<rparr>)), xd_plan = (\<lambda>k. ret None),
      xd_tokenDist = (\<lambda>k. ret None), xd_holdings = (\<lambda>k p. ret held), xd_accountOwner = (\<lambda>k. ret None),
      xd_getAccount = (\<lambda>k p. throw (External 1)), xd_sleep = (\<lambda>ms. ret ()), xd_now = ret 2000,
      xd_send = (\<lambda>t. modify (\<lambda>w. w\<lparr>ks_sent := ks_sent w @ [t]\<rparr>))\<rparr>"

definition sim_keeper :: "bool \<Rightarrow> (string \<times> int) list \<Rightarrow> sim_kworld keeper_deps" where
  "sim_keeper fin held =
     \<lparr>kd_exec = sim_kexec fin held, kd_clock = ks_ms, kd_fires = (\<lambda>ms w w'. False), kd_passMs = None, kd_text = (\<lambda>n. []), kd_payer = [8]\<rparr>"

definition sim_tick :: "bool \<Rightarrow> (string \<times> int) list \<Rightarrow> sim_kworld tick_deps" where
  "sim_tick fin held =
     \<lparr>td_keeper = sim_keeper fin held,
      td_config = \<lparr>kc_pollMs = 30000, kc_closeExecuted = True, kc_minLamports = 20000000, kc_warnLamports = 50000000, kc_genesis = ''G''\<rparr>,
      td_canon = Some, td_lower = (\<lambda>e. []), td_getGenesisHash = ret (Some ''G''), td_getProgram = ret (Acc_program True),
      td_getBalance = ret (Some 1000000000), td_scan = ret [([9], Some (sim_kvault fin))], td_exit = ret (),
      td_wait = (\<lambda>ms. modify (\<lambda>w. w\<lparr>ks_ms := ks_ms w + ms, ks_waits := ks_waits w @ [ms]\<rparr>)), td_random = (\<lambda>w. 0)\<rparr>"

definition sim_kstart :: sim_kworld where
  "sim_kstart = \<lparr>kw_deadline = None, kw_fee = 0, kw_live = False, kw_lastOkAt = None, kw_due = 0, kw_cleaned = 0,
     ks_ms = 2000000, ks_sent = [], ks_waits = []\<rparr>"

lemmas sim_keepers = sim_tick_def sim_keeper_def sim_kexec_def

definition closes_core :: "tx \<Rightarrow> bool" where
  "closes_core t \<longleftrightarrow> is_method (\<lambda>m. m = CloseExecutedVault) t"

lemma payout_no_close: "ix_justified R ix \<Longrightarrow> plain_pre pre \<Longrightarrow> \<not> closes_core (crank_tx k pre ix fee)"
  unfolding ix_justified_def
  by (elim disjE ix_payout.cases)
    (auto split: list.splits instruction.splits simp: plain_pre_def closes_core_def is_method_def crank_tx_def cuIxs_def x_begin_ix_def
      x_begin_dist_ix_def x_specific_sol_ix_def x_specific_asset_ix_def x_sol_shares_ix_def x_token_shares_ix_def x_close_dist_ix_def x_finalize_ix_def)

text \<open>A vault that still holds a token: its core accounts are not closed.\<close>

theorem keeper_submissions_verified_witness:
  "list_all (\<lambda>t. \<not> closes_core t) (ks_sent (snd (loop_turns (sim_tick True [(''Junk'', 1)]) 3 0 sim_kstart)))"
proof -
  let ?T = "sim_tick True [(''Junk'', 1)]"
  let ?I = "\<lambda>w :: sim_kworld. list_all (\<lambda>t. \<not> closes_core t) (ks_sent w)"
  have "keeper_blind ?I ?T" by (simp add: keeper_blind_def sim_keepers)
  moreover have "keeper_reads ?I ?T"
    by (simp add: keeper_reads_def exec_reads_def sim_keepers preserves_ret preserves_throw) (simp add: preserves_def)
  moreover have "keeper_submits ?I ?T" unfolding keeper_submits_def
  proof (intro allI impI)
    fix cfg R k pre ix fee w x
    assume j: "keeper_justified ?T cfg R ix" and p: "plain_pre pre" and w: "?I w" "kw_lastOkAt w = x"
    have "\<not> closes_core (crank_tx k pre ix fee)" using j
    proof cases
      case kj_crank
      then show ?thesis by (rule payout_no_close [OF _ p])
    next
      case kj_close
      then show ?thesis by (simp add: saw_no_tokens_def sim_keepers)
    qed
    then show "let w' = snd (xd_send (kd_exec (td_keeper ?T)) (crank_tx k pre ix fee) w) in ?I w' \<and> kw_lastOkAt w' = x"
      using w by (simp add: sim_keepers Let_def)
  qed
  ultimately have "preserves (\<lambda>w. ?I w \<and> verified_memory ?T w) (loop_turns ?T 3 0)" by (rule keeper_submissions_verified)
  from preservesD [OF this, of sim_kstart] show ?thesis by (simp add: sim_kstart_def verified_memory_def)
qed

theorem keeper_cranks_as_server_witness:
  "snd (keeper_steps (sim_keeper False []) (pass_run (sim_keeper False []) [9] (sim_kvault False) (ret True)) sim_kstart)
   = snd (crank_steps ((pass_run (sim_keeper False []) [9] (sim_kvault False) (ret True))\<lparr>cr_deps := sim_kexec False []\<rparr>) sim_kstart)"
proof -
  have "unhurried (sim_keeper False [])" by (simp add: unhurried_def sim_keeper_def)
  moreover have "steady_vault (pass_run (sim_keeper False []) [9] (sim_kvault False) (ret True))"
    using calculation by (simp add: steady_vault_def pass_run_def unhurried_deps)
      (simp add: sim_keepers sim_kvault_def x_vault.defs ret_apply)
  ultimately show ?thesis
    using keeper_cranks_as_server [of "sim_keeper False []" "[9]" "sim_kvault False" "ret True"]
    by (simp add: runs_alike_def outcomes_alike_def sim_keeper_def)
qed

subsection \<open>Completed passes and the waits of the loop\<close>

text \<open>
  a pass counts as completed only if it was: when a turn of the keeper reports success, the gate
  answered that all is well, the scan returned within its bound, and the turns of all scanned vaults
  ended without a revoked readiness and without a call that ran out of time; after a fatal gate
  nothing but the exit happens.
\<close>

theorem completed_pass_was_complete:
  "(case runKeeperOnce T w of
      (Inr True, w') \<Rightarrow> \<exists>s low t v v' vs u.
        keeperReadiness T w = (Inr (Kg_ready s low t), v)
        \<and> withTimeout (kd_fires (td_keeper T)) (scanVaults T) SCAN_TIMEOUT_MS ''scan'' (v\<lparr>kw_live := True, kw_lastOkAt := Some t\<rparr>) = (Inr vs, v')
        \<and> vault_turns T vs (v'\<lparr>kw_due := 0, kw_cleaned := 0\<rparr>) = (Inr Go_on, u)
    | _ \<Rightarrow> True)
   \<and> (case keeperReadiness T w of
        (Inr (Kg_fatal r net), v) \<Rightarrow> runKeeperOnce T w = seqE (td_exit T) (ret False) v
      | _ \<Rightarrow> True)"
proof (intro conjI)
  show "case keeperReadiness T w of (Inr (Kg_fatal r net), v) \<Rightarrow> runKeeperOnce T w = seqE (td_exit T) (ret False) v | _ \<Rightarrow> True"
    by (auto simp: runKeeperOnce_def bindE_def split: prod.split sum.split keeper_gate.split)
  show "case runKeeperOnce T w of
      (Inr True, w') \<Rightarrow> \<exists>s low t v v' vs u.
        keeperReadiness T w = (Inr (Kg_ready s low t), v)
        \<and> withTimeout (kd_fires (td_keeper T)) (scanVaults T) SCAN_TIMEOUT_MS ''scan'' (v\<lparr>kw_live := True, kw_lastOkAt := Some t\<rparr>) = (Inr vs, v')
        \<and> vault_turns T vs (v'\<lparr>kw_due := 0, kw_cleaned := 0\<rparr>) = (Inr Go_on, u)
    | _ \<Rightarrow> True"
  proof (cases "fst (runKeeperOnce T w) = Inr True")
    case True
    then obtain w' where run: "runKeeperOnce T w = (Inr True, w')" by (metis prod.collapse)
    obtain g v where g: "keeperReadiness T w = (g, v)" by fastforce
    obtain s low t where gr: "g = Inr (Kg_ready s low t)"
      using run g by (auto simp: runKeeperOnce_def bindE_def ret_apply split: sum.splits keeper_gate.splits prod.splits)
    let ?v = "v\<lparr>kw_live := True, kw_lastOkAt := Some t\<rparr>"
    obtain r x where tick: "keeper_tick T ?v = (Inr r, x)" "tr_ok r" "\<not> tr_scanFailed r"
      using run g gr by (auto simp: runKeeperOnce_def bindE_def ret_apply markVerified_def split: sum.splits prod.splits if_splits)
    obtain a y where scan: "withTimeout (kd_fires (td_keeper T)) (scanVaults T) SCAN_TIMEOUT_MS ''scan'' ?v = (a, y)" by fastforce
    obtain vs where vs: "a = Inr vs"
      using tick scan by (cases a) (auto simp: keeper_tick_def bindE_def tryE_def ret_apply throw_apply Let_def scan_failed_def split: if_splits)
    then have p: "pass_vaults T vs y = (Inr r, x)"
      using tick(1) scan by (simp add: keeper_tick_def bindE_def tryE_def ret_apply)
    obtain b u where turns: "vault_turns T vs (y\<lparr>kw_due := 0, kw_cleaned := 0\<rparr>) = (b, u)" by fastforce
    have "b = Inr Go_on" using p turns tick(2,3)
    proof (cases b)
      case (Inr e)
      then show ?thesis using p turns tick(2,3)
        by (cases e) (auto simp: pass_vaults_def bindE_def ret_apply split: prod.splits sum.splits)
    qed (simp add: pass_vaults_def bindE_def)
    then show ?thesis using run g gr scan vs turns by auto
  qed (auto split: prod.split sum.split bool.split)
qed

lemma backoff_range:
  assumes "0 \<le> rng" "rng < 1" "0 \<le> attempt"
  shows "1000 \<le> \<lfloor>nextBackoff attempt 1000 60000 rng\<rfloor> \<and> \<lfloor>nextBackoff attempt 1000 60000 rng\<rfloor> \<le> 60000"
proof -
  have "1000 \<le> nextBackoff attempt 1000 60000 rng" "nextBackoff attempt 1000 60000 rng \<le> 60000"
    by (simp_all add: nextBackoff_def Let_def)
  then show ?thesis by (auto simp: le_floor_iff floor_le_iff)
qed

lemma settings_poll:
  assumes "keeper_settings num mult url env = Some c"
  shows "1000 \<le> kc_pollMs c \<and> kc_pollMs c \<le> 2147483647"
  using assms unfolding keeper_settings_def Let_def
  by (auto simp: MAX_TIMER_MS_def le_floor_iff floor_le_iff split: if_splits option.splits)

text \<open>
  the loop neither spins nor overflows its timer: with accepted settings every wait is at least one
  second and fits the 32-bit timer, however many passes fail in a row.
\<close>

theorem keeper_waits_bounded:
  assumes "keeper_settings num mult url env = Some (td_config T)" "\<And>w. 0 \<le> td_random T w \<and> td_random T w < 1"
    and "preserves I (runKeeperOnce T)" "\<And>ms. 1000 \<le> ms \<Longrightarrow> ms \<le> 2147483647 \<Longrightarrow> preserves I (td_wait T ms)" "0 \<le> attempt"
  shows "preserves I (loop_turns T n attempt)"
  using assms(5)
proof (induction n arbitrary: attempt)
  case (Suc n)
  have wait: "preserves I (td_wait T (if ok then kc_pollMs (td_config T) else \<lfloor>nextBackoff a 1000 60000 (td_random T w)\<rfloor>))"
    if "0 \<le> a" for ok a w
    using settings_poll [OF assms(1)] backoff_range [OF _ _ that, of "td_random T w"] assms(2) by (intro assms(4)) auto
  have "preserves I (loop_turn T attempt)" unfolding loop_turn_def Let_def
  proof (intro preserves_bindE preserves_intro assms(3))
    fix ok rng
    assume "answered (gets (td_random T)) (\<lambda>x. x = rng)"
    then obtain w where "rng = td_random T w" by (auto simp: answered_def)
    then show "preserves I (td_wait T (if ok then kc_pollMs (td_config T) else \<lfloor>nextBackoff (if ok then 0 else attempt + 1) 1000 60000 rng\<rfloor>))"
      using wait [of 0 True w] wait [of "attempt + 1" False w] Suc.prems by (cases ok) simp_all
  qed
  moreover have "0 \<le> a" if "answered (loop_turn T attempt) (\<lambda>x. x = a)" for a
    using that Suc.prems by (auto simp: loop_turn_def Let_def elim!: answered_bindE)
  ultimately show ?case using Suc.IH by (auto intro: preserves_bindE)
qed (simp add: preserves_ret)

definition sim_env_text :: "string \<Rightarrow> string option" where
  "sim_env_text name = (if name = ''RPC_URL'' then Some ''http://rpc'' else if name = ''KEYPAIR_PATH'' then Some ''key.json'' else None)"

text \<open>The default settings, and an RPC that is down.\<close>

definition sim_outage :: "sim_kworld tick_deps" where
  "sim_outage = (sim_tick False [])\<lparr>td_getGenesisHash := throw (External 7),
     td_config := \<lparr>kc_pollMs = 30000, kc_closeExecuted = True, kc_minLamports = 20000000, kc_warnLamports = 50000000,
       kc_genesis = ''EtWTRABZaYq6iMfeYKouRu166VU2xqa1wcaWoxPkrZBG''\<rparr>\<rparr>"

theorem keeper_waits_bounded_witness:
  "list_all (\<lambda>ms. 1000 \<le> ms \<and> ms \<le> 2147483647) (ks_waits (snd (loop_turns sim_outage 50 0 sim_kstart)))"
proof -
  let ?I = "\<lambda>w :: sim_kworld. list_all (\<lambda>ms. 1000 \<le> ms \<and> ms \<le> 2147483647) (ks_waits w)"
  have fl: "\<lfloor>100000001 / 2 :: rat\<rfloor> = 50000000" "\<lfloor>40000001 / 2 :: rat\<rfloor> = 20000000"
    by (simp_all add: floor_eq_iff)
  have "preserves ?I (loop_turns sim_outage 50 0)"
  proof (rule keeper_waits_bounded)
    show "keeper_settings (\<lambda>_. None) (\<lambda>x y. Some (x * y)) (\<lambda>_. True) sim_env_text = Some (td_config sim_outage)"
      by (simp add: keeper_settings_def sim_env_text_def numEnv_def GENESIS_HASHES_def balance_setting_def to_lamports_def
          max_safe_def MAX_TIMER_MS_def sim_outage_def Let_def fl)
    show "preserves ?I (runKeeperOnce sim_outage)"
      by (simp add: preserves_def runKeeperOnce_def keeperReadiness_def classifyGenesis_def bounded_call_def withTimeout_def bindE_def
          tryE_def ret_apply throw_apply net_unknown_def sim_outage_def sim_keepers)
    show "preserves ?I (td_wait sim_outage ms)" if "1000 \<le> ms" "ms \<le> 2147483647" for ms
      using that by (simp add: preserves_def sim_outage_def sim_tick_def)
  qed (simp_all add: sim_outage_def sim_tick_def)
  from preservesD [OF this, of sim_kstart] show ?thesis by (simp add: sim_kstart_def)
qed

end
