(* ===== verification/App_Runs.thy ===== *)
theory App_Runs
  imports App_Exec_Props Keeper_Runs
begin

text \<open>
  The application's crank on a simulated estate that the server and the keeper crank too: what its
  transactions rest on, its lock, its wait, and what becomes of a mint whose snapshot failed.
\<close>

subsection \<open>An estate\<close>

text \<open>
  A vault of one beneficiary whose SOL share is paid and that holds one token: whether its execution
  is finalized, whether the token's distribution is open, how many snapshots were tried, and the
  transactions sent. The first snapshot fails.
\<close>

record estate =
  st_done :: bool
  st_dist :: bool
  st_tries :: nat
  st_sent :: "tx list"

definition estate_vault :: vault_config where
  "estate_vault = \<lparr>vc_owner = [1], agentPubkey = [8], heartbeatInterval = 100, gracePeriod = 50,
     beneficiaries = [\<lparr>wallet = [7], shareBps = 10000, hasSpecificAssets = False\<rparr>], executed = False, active = True,
     createdAt = 0, updatedAt = 0, vc_bump = 255, isMutable = True, hasAssetPlan = False, openTokenDists = 0\<rparr>"

definition log_bytes :: "bool \<Rightarrow> bytes" where
  "log_bytes c = DISCRIMINATORS ExecutionLogK @ replicate 40 0 @ [1, 0, 0, 0] @ replicate 8 0 @ [if c then 1 else 0] @ replicate 5 0"

definition estate_send :: "tx \<Rightarrow> estate \<Rightarrow> (exn + unit) \<times> estate" where
  "estate_send t e =
     (if is_method (\<lambda>m. m = BeginTokenDist) t then
        (if st_tries e = 0 then (Inl (External 1), e\<lparr>st_tries := 1\<rparr>)
         else (Inr (), e\<lparr>st_tries := st_tries e + 1, st_dist := True, st_sent := st_sent e @ [t]\<rparr>))
      else if is_method (\<lambda>m. m = FinalizeExecution) t then (Inr (), e\<lparr>st_done := True, st_sent := st_sent e @ [t]\<rparr>)
      else (Inr (), e\<lparr>st_sent := st_sent e @ [t]\<rparr>))"

definition estate_info :: "estate \<Rightarrow> pubkey \<Rightarrow> account_info option" where
  "estate_info e k =
     (if k = getExecutionPDA sim_env (getVaultPDA sim_env [1]) then Some \<lparr>acc_owner = [100], acc_data = log_bytes (st_done e), acc_lamports = 1\<rparr>
      else if k = [50] then Some \<lparr>acc_owner = [102], acc_data = [], acc_lamports = 1\<rparr>
      else None)"

type_synonym estate_app = "estate app_world_scheme"

definition estate_rpc :: "estate_app rpc" where
  "estate_rpc =
     \<lparr>getAccountInfo = (\<lambda>k. gets (\<lambda>w. estate_info (app_world.more w) k)),
      anchorVaultConfig = (\<lambda>k. gets (\<lambda>w. estate_vault\<lparr>executed := st_done (app_world.more w)\<rparr>)),
      getParsedTokenAccountsByOwner = (\<lambda>k p. ret (if p = [102] then [Some \<lparr>pt_mint = [50], pt_amount = 1000, pt_decimals = 0, pt_ui = []\<rparr>] else [])),
      getMint = (\<lambda>k p. throw (External 2)), getAccount = (\<lambda>k p. throw (External 2)), getTokenAccountBalance = (\<lambda>k. throw (External 2)),
      getMinimumBalanceForRentExemption = (\<lambda>n. ret 0), getBalance = (\<lambda>k. ret 0),
      getLatestBlockhash = ret \<lparr>blockhash = ''h'', lastValidBlockHeight = 9\<rparr>,
      sendRawTransaction = (\<lambda>t w. case estate_send (st_ixs t) (app_world.more w) of (r, e) \<Rightarrow>
        (case r of Inl x \<Rightarrow> Inl x | Inr _ \<Rightarrow> Inr ''sig'', app_world.more_update (\<lambda>_. e) w)),
      confirmTransaction = (\<lambda>s b. ret ()), getHeliusApiKey = (\<lambda>w. []), getRpcUrl = (\<lambda>w. []),
      rpc_net = \<lparr>fetch = (\<lambda>_. throw (External 5)), sleep_ms = (\<lambda>_. ret ()), random01 = ret 0, stringify = (\<lambda>j. []), set_rate_limited = id\<rparr>\<rparr>"

definition estate_deps :: "estate_app app_deps" where
  "estate_deps = \<lparr>ad_env = sim_env, ad_rpc = estate_rpc, ad_getKeypair = ret [8], ad_blockTime = ret (Some 5000), ad_sleep = (\<lambda>ms. modify (\<lambda>w. w\<lparr>now_ms := now_ms w + ms\<rparr>)),
     ad_json = (\<lambda>j. []), ad_message = (\<lambda>e. []), ad_solText = (\<lambda>n. [])\<rparr>"

definition fresh_estate :: estate where
  "fresh_estate = \<lparr>st_done = False, st_dist = False, st_tries = 0, st_sent = []\<rparr>"

definition estate_start :: "estate_app" where
  "estate_start = \<lparr>db_open = True, db = empty_tables, sql_faults = (\<lambda>_. False), sql_count = 0, now_ms = 5000000,
     esc_state = initial_escalation, svc = \<lparr>sv_loop = True, sv_stage = S4, sv_callback = True, sv_beneficiaries = 1, sv_fcmActive = False\<rparr>,
     hb_status = None, hb_config = None, hb_loading = False, notices = [], ax_running = False, ax_done = 0, ax_total = 0, ax_notes = [],
     ax_justCompleted = False, \<dots> = fresh_estate\<rparr>"


lemmas estate_samples = estate_rpc_def estate_info_def sim_env_def getExecutionPDA_def getVaultPDA_def getTokenDistPDA_def getHeartbeatPDA_def
  rawInfo_def bindE_def ret_apply throw_apply liftE_apply tryE_def Let_def

lemma estate_log:
  "fetchExecutionLog sim_env estate_rpc [1] w = (Inr (Some \<lparr>solSnapshot = 0, solPaidMask = 1, completed = st_done (app_world.more w)\<rparr>), w)"
proof -
  have p: "parseExecutionLog (Some \<lparr>acc_owner = [100], acc_data = log_bytes c\<rparr>) [100] = Some \<lparr>solSnapshot = 0, solPaidMask = 1, completed = c\<rparr>" for c
    by (cases c) (simp_all only:, code_simp+)
  show ?thesis using p
    by (simp add: fetchExecutionLog_def parseExecutionLogRaw_eq acct.defs estate_samples)
qed

lemma log_bytes_length: "length (log_bytes c) = 66"
  by (simp add: log_bytes_def)

lemma estate_dist: "fetchTokenDist sim_env estate_rpc [1] mint w = (Inr None, w)"
  by (simp add: fetchTokenDist_def parseTokenDistRaw_eq parseTokenDist_def isProgramAccount_def acct.defs log_bytes_length estate_samples)

lemma estate_plan: "fetchAssetPlan sim_env estate_rpc [1] w = (Inr None, w)"
  by (simp add: fetchAssetPlan_def parseAssetPlanRaw_eq parseAssetPlan_def isProgramAccount_def acct.defs log_bytes_def getAssetPlanPDA_def
    estate_samples)

lemma estate_config:
  "fetchVaultConfig sim_env estate_rpc [1] w = (Inr (Some (estate_vault\<lparr>executed := st_done (app_world.more w)\<rparr>)), w)"
  by (simp add: fetchVaultConfig_def estate_samples)

lemma estate_balances:
  "getVaultTokenBalances sim_env estate_rpc k w = (Inr [\<lparr>pt_mint = [50], pt_amount = 1000, pt_decimals = 0, pt_ui = []\<rparr>], w)"
  by (simp add: getVaultTokenBalances_def keep_balances_def estate_samples)

lemma estate_deadline: "getOnChainDeadline sim_env estate_rpc [1] w = (Inr None, w)"
  by (simp add: getOnChainDeadline_def deadlineRaw_eq parseDeadline_def isProgramAccount_def estate_samples)

lemma estate_wait: "waitForOnChainDeadline estate_deps [1] w = (Inr True, w)"
proof -
  have "wait_rounds estate_deps [1] (now_ms w) (Suc n) w = (Inr True, w)" for n
    by (simp add: bindE_def ret_apply MAX_WAIT_MS_def estate_deps_def estate_deadline)
  from this [of 23] show ?thesis by (simp add: waitForOnChainDeadline_def WAIT_ROUNDS_def bindE_def)
qed

lemma estate_snapshot_fails:
  assumes "st_tries (app_world.more w) = 0"
  shows "crankBeginTokenDist sim_env estate_rpc [8] [1] [50] False w
    = (Inl (External 1), w\<lparr>app_world.more := (app_world.more w)\<lparr>st_tries := 1\<rparr>\<rparr>)"
  using assms
  by (simp add: crankBeginTokenDist_def getTokenProgramForMint_def ataFor_def sendWithPayer_def addPriorityFee_def estimatePriorityFee_def
    estate_send_def is_method_def begin_dist_ix_def estate_samples)

lemma estate_finalizes:
  "\<exists>t. \<forall>w. crankFinalize sim_env estate_rpc [8] [1] False w
    = (Inr ''sig'', w\<lparr>app_world.more := (app_world.more w)\<lparr>st_done := True, st_sent := st_sent (app_world.more w) @ [t]\<rparr>\<rparr>)"
  by (simp add: crankFinalize_def sendWithPayer_def addPriorityFee_def estimatePriorityFee_def
    estate_send_def is_method_def finalize_ix_def estate_samples) (rule exI, rule allI, rule refl)

text \<open>The mirror and the bookkeeping end normally and leave the estate alone.\<close>

lemma keeps_more: "preserves (outside J) m \<Longrightarrow> J (app_world.more w) \<Longrightarrow> J (app_world.more (snd (m w)))"
  by (auto simp: preserves_def outside_def)

lemma same_more:
  assumes "\<And>J. preserves (outside J) m"
  shows "app_world.more (snd (m w)) = app_world.more w"
  using keeps_more [OF assms [of "\<lambda>e. e = app_world.more w"], of w] by simp

lemma quiet_ends: "fst (quietly m w) = Inr ()"
  by (cases "m w"; cases "fst (m w)") (auto simp: quietly_def tryE_def ret_apply)

lemma mirror_ends: "fst (buildMirror A ow plan n mints w) = Inr ()"
  by (simp add: buildMirror_def bindE_def Let_def quiet_ends)

lemma bump_ends: "fst (bumpProgress ident w) = Inr ()"
  by (simp add: bumpProgress_def bindE_def note_exec_def ret_apply)

lemma step_runs:
  assumes "\<And>v. app_world.more v = app_world.more w \<Longrightarrow> \<exists>sig v'. fn v = (Inr sig, v') \<and> app_world.more v' = e"
  shows "\<exists>w'. runStep ow ident fn w = (Inr (), w') \<and> app_world.more w' = e"
proof -
  let ?q = "quietly (updateStepStatus (scoped_id ow ident) ''in_progress'' None None)"
  obtain v where v: "?q w = (Inr (), v)" by (metis quiet_ends prod.collapse)
  have "app_world.more v = app_world.more w" using same_more [of ?q w] v by (simp add: quietly_preserves update_outside)
  then obtain sig v' where fn: "fn v = (Inr sig, v')" "app_world.more v' = e" using assms by blast
  let ?c = "seqE (quietly (updateStepStatus (scoped_id ow ident) ''completed'' (Some sig) None)) (bumpProgress ident)"
  have "app_world.more (snd (?c v')) = e" using same_more [of ?c v'] fn by (simp add: quietly_preserves update_outside preserves_bindE bump_outside)
  moreover have "fst (?c v') = Inr ()"
    using quiet_ends [of "updateStepStatus (scoped_id ow ident) ''completed'' (Some sig) None" v']
    by (cases "quietly (updateStepStatus (scoped_id ow ident) ''completed'' (Some sig) None) v'") (simp add: bindE_def bump_ends)
  moreover have "runStep ow ident fn w = ?c v'" using v fn by (simp add: runStep_def bindE_def Let_def)
  ultimately show ?thesis by (metis prod.collapse)
qed

definition estate_run :: "estate_app app_run" where
  "estate_run = \<lparr>ar_deps = estate_deps, ar_owner = [1], ar_text = ''other'', ar_agent = [8], ar_hasPlan = False,
     ar_shares = [([7], 10000)], ar_largest = [7]\<rparr>"

lemmas estate_reads = estate_log estate_dist estate_balances estate_config estate_wait

lemma estate_steps:
  assumes "app_world.more w = fresh_estate"
  shows "\<exists>t w'. app_steps estate_run w = (Inr (), w')
    \<and> app_world.more w' = \<lparr>st_done = True, st_dist = False, st_tries = 1, st_sent = [t]\<rparr>"
proof -
  let ?R = estate_run
  let ?step = "\<lambda>b. \<lparr>st_done = b, st_dist = False, st_tries = 1, st_sent = []\<rparr>"
  have R: "ar_deps ?R = estate_deps" "ar_owner ?R = [1]" "ad_env estate_deps = sim_env" "ad_rpc estate_deps = estate_rpc" "ar_hasPlan ?R = False"
    "ar_agent ?R = [8]" "ar_shares ?R = [([7], 10000)]" "b58 sim_env [50] = ''Junk''"
    by (simp_all add: estate_run_def estate_deps_def sim_env_def)
  have begun: "\<exists>l. app_begin ?R w = (Inr l, w)" by (simp add: app_begin_def bindE_def ret_apply R estate_reads)
  have mints: "claim_mints sim_env [\<lparr>pt_mint = [50], pt_amount = 1000, pt_decimals = 0, pt_ui = []\<rparr>] None = [[50]]"
    by (simp add: claim_mints_def)
  obtain w1 where m: "buildMirror estate_deps (ar_text ?R) None 1 [[50]] w = (Inr (), w1)" by (metis mirror_ends prod.collapse)
  have w1: "app_world.more w1 = fresh_estate"
    using same_more [of "buildMirror estate_deps (ar_text ?R) None 1 [[50]]" w] m assms by (simp add: mirror_outside)
  obtain w2 where s: "app_snapshots ?R [[50]] w1 = (Inr [''Junk''], w2)" "app_world.more w2 = ?step False"
    using estate_snapshot_fails [of w1] w1
    by (simp add: app_snapshots_def or_stuck_def mark_stuck_def bindE_def tryE_def ret_apply R estate_reads fresh_estate_def)
  have "unpaidIndices 1 1 = []" by code_simp
  then have sol: "app_sol ?R w2 = (Inr (), w2)"
    by (simp add: app_sol_def bindE_def ret_apply R estate_reads)
  have full: "fullU32Mask (Suc 0) = 1" by code_simp
  let ?f = "crankFinalize sim_env estate_rpc [8] [1] False"
  obtain t where t: "\<And>v. ?f v
      = (Inr ''sig'', v\<lparr>app_world.more := (app_world.more v)\<lparr>st_done := True, st_sent := st_sent (app_world.more v) @ [t]\<rparr>\<rparr>)"
    using estate_finalizes by metis
  have "\<exists>w3. runStep (ar_text ?R) ''finalize'' ?f w2 = (Inr (), w3) \<and> app_world.more w3 = (?step True)\<lparr>st_sent := [t]\<rparr>"
    by (rule step_runs) (simp add: t s)
  then obtain w3 where "runStep (ar_text ?R) ''finalize'' ?f w2 = (Inr (), w3)" "app_world.more w3 = (?step True)\<lparr>st_sent := [t]\<rparr>"
    by blast
  then have fin: "app_finalize ?R w2 = (Inr (), w3)" "app_world.more w3 = (?step True)\<lparr>st_sent := [t]\<rparr>"
    using s full by (simp_all add: app_finalize_def bindE_def ret_apply R estate_reads)
  have skip: "app_tokens ?R [[50]] [''Junk''] w3 = (Inr [''Junk''], w3)" "app_closes ?R [[50]] [''Junk''] w3 = (Inr [''Junk''], w3)"
    by (simp_all add: app_tokens_def app_closes_def is_stuck_def R ret_apply)
  obtain w4 where "app_finish ?R w3 = (Inr (), w4)" "app_world.more w4 = app_world.more w3"
    using fin(2) by (simp add: app_finish_def bindE_def ret_apply R estate_reads reset_escalation_store_def notify_def note_exec_def)
  then show ?thesis using begun m s sol fin skip
    by (auto simp: app_steps_def bindE_def ret_apply Let_def R mints app_bequests_def estate_reads)
qed

definition end_state :: "estate \<Rightarrow> bool" where
  "end_state e \<longleftrightarrow> st_done e \<and> \<not> st_dist e \<and> st_tries e = 1 \<and> length (st_sent e) = 1"

lemma estate_executes: "fst (execute estate_deps [1] estate_start) = Inr () \<and> end_state (app_world.more (snd (execute estate_deps [1] estate_start)))"
proof -
  let ?w = "estate_start\<lparr>ax_running := True\<rparr>"
  have b: "b58 sim_env [1] = ''other''" by (simp add: sim_env_def)
  have c: "hasAssetPlan (estate_vault\<lparr>executed := e\<rparr>) = False" "shares (estate_vault\<lparr>executed := e\<rparr>) = [([7], 10000)]" for e
    by (simp_all add: estate_vault_def shares_def)
  obtain v where st: "clear_stale_mirror ''other'' (estate_vault\<lparr>executed := st_done (app_world.more ?w)\<rparr>) ?w = (Inr (), v)"
    by (simp add: clear_stale_mirror_def getLastCompletedStep_def getDb_def sql_def bindE_def ret_apply estate_start_def empty_tables_def Let_def)
  have "app_world.more v = fresh_estate"
    using same_more [of "clear_stale_mirror ''other'' (estate_vault\<lparr>executed := st_done (app_world.more ?w)\<rparr>)" ?w] st
    by (simp add: stale_outside estate_start_def)
  from estate_steps [OF this] obtain t w' where run: "app_steps estate_run v = (Inr (), w')"
    "app_world.more w' = \<lparr>st_done = True, st_dist = False, st_tries = 1, st_sent = [t]\<rparr>" by blast
  have "execute_body estate_deps [1] ?w = (Inr (), w')"
    using run(1) st
    by (simp add: execute_body_def bindE_def ret_apply estate_wait estate_run_def)
      (simp add: estate_deps_def estate_config b c bindE_def ret_apply largestShareWallet_def largest_step_def)
  then show ?thesis using run(2)
    by (simp add: execute_def bindE_def finallyE_def tryE_def end_state_def) (simp add: estate_start_def)
qed

subsection \<open>The same estate for the server and the keeper\<close>

text \<open>The services of the other two cranks, reading and changing the same estate.\<close>

definition estate_exec :: "('w \<Rightarrow> estate) \<Rightarrow> ((estate \<Rightarrow> estate) \<Rightarrow> 'w \<Rightarrow> 'w) \<Rightarrow> 'w exec_deps" where
  "estate_exec get upd =
     \<lparr>xd_env = sim_env, xd_ext = (\<lambda>n. \<lparr>je_name = ''SendTransactionError'', je_message = [], je_code = [], je_logs = True, je_native = False\<rparr>),
      xd_decodeKey = (\<lambda>s. if s = ''Vau1t'' then Inr [9] else Inr [50]), xd_hasUrl = False, xd_estimate = ret None, xd_recentFees = ret [],
      xd_vault = (\<lambda>k. gets (\<lambda>w. Some (sim_vault\<lparr>xv_executed := st_done (get w)\<rparr>))), xd_heartbeat = (\<lambda>k. ret (Some 1000)),
      xd_execLog = (\<lambda>k. gets (\<lambda>w. Some \<lparr>solSnapshot = 0, solPaidMask = 1, completed = st_done (get w)\<rparr>)), xd_plan = (\<lambda>k. ret None),
      xd_tokenDist = (\<lambda>k. ret None), xd_holdings = (\<lambda>k p. ret (if p = [102] then [(''Junk'', 1000)] else [])), xd_accountOwner = (\<lambda>k. ret None),
      xd_getAccount = (\<lambda>k p. throw (External 1)), xd_sleep = (\<lambda>ms. ret ()), xd_now = ret 2000,
      xd_send = (\<lambda>t w. case estate_send t (get w) of (r, e) \<Rightarrow> (r, upd (\<lambda>_. e) w))\<rparr>"

definition estate_server :: "(estate sim_world_scheme) exec_deps" where
  "estate_server = estate_exec sim_world.more sim_world.more_update"

definition estate_keeper :: "(estate keeper_world_scheme) keeper_deps" where
  "estate_keeper = \<lparr>kd_exec = estate_exec keeper_world.more keeper_world.more_update, kd_clock = (\<lambda>w. 2000000), kd_fires = (\<lambda>ms w w'. False),
     kd_passMs = None, kd_text = (\<lambda>n. []), kd_payer = [8]\<rparr>"

definition server_at :: "estate \<Rightarrow> estate sim_world_scheme" where
  "server_at e = sim_world.extend (sim_start []) e"

definition keeper_at :: "estate \<Rightarrow> estate keeper_world_scheme" where
  "keeper_at e = \<lparr>kw_deadline = None, kw_fee = 0, kw_live = False, kw_lastOkAt = None, kw_due = 0, kw_cleaned = 0, \<dots> = e\<rparr>"

lemma server_leaves:
  assumes "end_state e"
  shows "fst (runExecutor sim_signer estate_server ''Vau1t'' executor_guard (server_at e)) = Inr \<lparr>er_action = ''already_executed'', er_skipped = []\<rparr>
    \<and> sim_world.more (snd (runExecutor sim_signer estate_server ''Vau1t'' executor_guard (server_at e))) = e"
  using assms
  by (simp add: exec_run sim_samples only_def sim_world.defs server_at_def estate_server_def estate_exec_def end_state_def)

lemma keeper_leaves:
  assumes "end_state e"
  shows "fst (cleanupExecutedVault estate_keeper [9] (sim_kvault True) (Some (ret True)) (keeper_at e)) = Inr ''held_mints_remain''
    \<and> keeper_world.more (snd (cleanupExecutedVault estate_keeper [9] (sim_kvault True) (Some (ret True)) (keeper_at e))) = e"
proof -
  have t: "withTimeout (kd_fires estate_keeper) m ms l = m" for m :: "(estate keeper_world_scheme, 'z) io" and ms l
    by (rule never_fires) (simp add: estate_keeper_def)
  have r: "readWithin estate_keeper m l = m" for m :: "(estate keeper_world_scheme, 'z) io" and l
    by (rule unhurried_read) (simp add: unhurried_def estate_keeper_def)
  show ?thesis using assms
    by (simp add: cleanupExecutedVault_def start_pass_def t r bindE_def)
      (simp add: estate_keeper_def estate_exec_def keeper_at_def sim_env_def sim_kvault_def end_state_def bindE_def ret_apply Let_def
        leftover_dists_def vaultHoldsUndistributedTokens_def bounded_deps_def getPriorityFee_def tryE_def withTimeout_def readWithin_def pass_run_def)
qed

subsection \<open>Properties\<close>

text \<open>
  C40: the wait of the application's crank for the deadline on the chain returns: whatever the chain
  answers, if reads do not turn the device's clock back and a sleep moves it on by the time asked for,
  24 rounds of polling are more than the wait ever makes, and it never remains in the loop.
\<close>

theorem app_wait_terminates:
  assumes "clock_runs A owner"
  shows "fst (waitForOnChainDeadline A owner w) \<noteq> Inr False"
  by (rule wait_ends [OF assms])

lemma estate_clock: "clock_runs estate_deps [1]"
  by (simp add: clock_runs_def estate_deps_def estate_deadline ret_apply)

theorem app_wait_terminates_witness: "fst (waitForOnChainDeadline estate_deps [1] estate_start) \<noteq> Inr False"
  by (rule app_wait_terminates [OF estate_clock])

text \<open>
  a run of the application's crank contains its errors and releases its lock: whatever its services
  do, \<open>execute\<close> ends normally; a call while another run holds the lock changes nothing at all, every
  other call ends with the lock released.
\<close>

theorem app_execute_contained:
  "fst (execute A owner w) = Inr () \<and> (if ax_running w then snd (execute A owner w) = w else \<not> ax_running (snd (execute A owner w)))"
  by (rule execute_contained)

text \<open>
  C17: the application submits nothing without a reason. Let \<open>J\<close> be any predicate of what lies outside the
  application that its reads leave alone and that survives each call of the transaction service the
  accounts justify as the run read them: begin only without an execution log, a snapshot only of a mint
  without a distribution, an unpaid bequest to its own beneficiary, unpaid share indices in batches of
  at most eight to their own wallets, finalize only with full masks, a close only of a fully paid
  distribution. Then \<open>J\<close> survives every run, also one that fails halfway.
\<close>

theorem app_submissions_justified:
  assumes "app_reads (outside J) A owner" "\<And>R c. app_due A owner R \<Longrightarrow> app_call R c \<Longrightarrow> preserves (outside J) c"
  shows "preserves (outside J) (execute A owner)"
  by (rule execute_outside [OF assms])

definition no_close :: "estate \<Rightarrow> bool" where
  "no_close e \<longleftrightarrow> list_all (\<lambda>t. \<not> is_method (\<lambda>m. m = CloseTokenDist) t) (st_sent e)"

lemma estate_getInfo: "preserves (outside J) (getAccountInfo estate_rpc k)"
  by (simp add: preserves_def estate_rpc_def)

lemma estate_sends:
  assumes "\<not> is_method (\<lambda>m. m = CloseTokenDist) ixs"
  shows "preserves (outside no_close) (sendWithPayer sim_env estate_rpc ixs payer ks cu [])"
  using assms
  by (auto simp: preserves_def sendWithPayer_def addPriorityFee_def estimatePriorityFee_def estate_rpc_def bindE_def ret_apply outside_def no_close_def
    estate_send_def is_method_def)

lemma estate_calls:
  assumes "app_due estate_deps [1] R" "app_call R c"
  shows "preserves (outside no_close) c"
proof -
  have R: "ar_env R = sim_env" "ar_rpc R = estate_rpc" "ar_owner R = [1]"
    using assms(1) by (simp_all add: app_due_def estate_deps_def)
  note go = preserves_bindE preserves_forE preserves_intro estate_sends estate_getInfo
  note calls = crankBeginExecution_def crankBeginTokenDist_def crankExecuteSpecificSol_def crankExecuteSpecificAsset_def crankExecuteSolShares_def
    crankExecuteTokenShares_def crankFinalize_def getTokenProgramForMint_def create_if_missing_def accountExists_def atas_with_setup_def Let_def
  note ixs = is_method_def begin_ix_def begin_dist_ix_def specific_sol_ix_def specific_asset_ix_def sol_shares_ix_def token_shares_ix_def finalize_ix_def
  show ?thesis using assms(2)
  proof cases
    case (ac_close mint d)
    then show ?thesis by (simp add: read_dist_def answered_def R estate_dist)
  next
    case (ac_tokens mint d idxs)
    then show ?thesis by (simp add: read_dist_def answered_def R estate_dist)
  next
    case (ac_specific_asset p j)
    then show ?thesis by (simp add: read_plan_def answered_def R estate_plan)
  next
    case (ac_specific_sol p j)
    then show ?thesis by (simp add: read_plan_def answered_def R estate_plan)
  qed (simp_all only: R calls, (intro go; simp add: ixs Let_def)+)
qed

theorem app_submissions_justified_witness: "no_close (app_world.more (snd (execute estate_deps [1] estate_start)))"
proof -
  have "app_reads (outside no_close) estate_deps [1]"
    by (simp add: app_reads_def preserves_def estate_reads estate_plan estate_deadline estate_deps_def ret_apply outside_def)
  from app_submissions_justified [OF this estate_calls] show ?thesis
    by (rule keeps_more) (simp_all add: no_close_def estate_start_def fresh_estate_def)
qed

text \<open>
  C35: the application strands a mint that the other two cranks guard against. One transient failure of a
  snapshot marks the mint as stuck for the run, and the run still finalizes the vault, ends normally
  and opens no distribution of the mint. From then on the server takes the vault for done
  (\<open>already_executed\<close>) and the keeper refuses to clean it up (\<open>held_mints_remain\<close>), both without
  sending anything: the token stays in the vault.
\<close>

theorem app_strands_stuck_mint:
  "let (r, w) = execute estate_deps [1] estate_start; e = app_world.more w;
     (r', s) = runExecutor sim_signer estate_server ''Vau1t'' executor_guard (server_at e);
     (r'', k) = cleanupExecutedVault estate_keeper [9] (sim_kvault True) (Some (ret True)) (keeper_at e) in
   r = Inr () \<and> end_state e
   \<and> r' = Inr \<lparr>er_action = ''already_executed'', er_skipped = []\<rparr> \<and> sim_world.more s = e
   \<and> r'' = Inr ''held_mints_remain'' \<and> keeper_world.more k = e"
  using estate_executes server_leaves keeper_leaves by (simp add: case_prod_beta Let_def)

end
