(* ===== verification/App_Claim_Runs.thy ===== *)
theory App_Claim_Runs
  imports App_Claim App_Runs Rpc_Keeps
begin

text \<open>
  An heir's claim as a whole: what the wallet is asked to sign, what the reported number of steps means,
  the lock, and a claim of a simulated estate.
\<close>

subsection \<open>A claim of a small estate\<close>

record sim_claim = claim_world +
  sc_sent :: "signed_tx list"

definition heir_rpc :: "sim_claim rpc" where
  "heir_rpc =
     \<lparr>getAccountInfo = (\<lambda>k. gets (\<lambda>w. if k = getExecutionPDA sim_env (getVaultPDA sim_env [1]) \<and> sc_sent w \<noteq> []
        then Some \<lparr>acc_owner = [100], acc_data = log_bytes True, acc_lamports = 1\<rparr> else None)),
      anchorVaultConfig = (\<lambda>k. ret estate_vault), getParsedTokenAccountsByOwner = (\<lambda>k p. ret []),
      getMint = (\<lambda>k p. throw (External 2)), getAccount = (\<lambda>k p. throw (External 2)), getTokenAccountBalance = (\<lambda>k. throw (External 2)),
      getMinimumBalanceForRentExemption = (\<lambda>n. ret 0), getBalance = (\<lambda>k. ret 0),
      getLatestBlockhash = ret \<lparr>blockhash = ''h'', lastValidBlockHeight = 9\<rparr>,
      sendRawTransaction = (\<lambda>t. seqE (modify (\<lambda>w. w\<lparr>sc_sent := sc_sent w @ [t]\<rparr>)) (ret ''sig'')), confirmTransaction = (\<lambda>s b. ret ()),
      getHeliusApiKey = (\<lambda>w. []), getRpcUrl = (\<lambda>w. []),
      rpc_net = \<lparr>fetch = (\<lambda>_. throw (External 5)), sleep_ms = (\<lambda>_. ret ()), random01 = ret 0, stringify = (\<lambda>j. []), set_rate_limited = id\<rparr>\<rparr>"

definition heir_deps :: "sim_claim claim_deps" where
  "heir_deps = \<lparr>cd_env = sim_env, cd_rpc = heir_rpc, cd_blockTime = ret (Some 5000),
     cd_sign = (\<lambda>t. ret (t\<lparr>st_signers := [st_feePayer t]\<rparr>)), cd_progress = (\<lambda>l i n. ret ())\<rparr>"

definition heir_start :: sim_claim where
  "heir_start = \<lparr>cw_running = False, sc_sent = []\<rparr>"

lemma heir_reads: "(\<And>w b. I (w\<lparr>cw_running := b\<rparr>) = I w) \<Longrightarrow> claim_reads I heir_deps [1] [60]"
proof -
  have "rpc_reads I sim_env heir_rpc"
    by (simp add: rpc_reads_def estimatePriorityFee_def heir_rpc_def preserves_gets preserves_ret preserves_throw gets_const)
  from builders_preserve [OF this] reads_preserve(10) [OF this]
  show "claim_reads I heir_deps [1] [60]" by (simp add: claim_reads_def heir_deps_def preserves_ret) (simp add: heir_rpc_def preserves_ret)
qed

subsection \<open>Properties\<close>

text \<open>
  C27: the heir's wallet is asked only for what the claim is for. Let \<open>I\<close> be any predicate of the world
  that reads and the callback leave alone and that survives asking the wallet, when the grace period
  was not found to be running, to sign a transaction that the builders made of the live accounts with
  the heir paying, and sending what the wallet returned for it. Then \<open>I\<close> survives every claim, also
  one that fails halfway.
\<close>

theorem claim_asks_only_built:
  assumes "claim_reads I D owner heir" "claim_signs I D owner heir" "\<And>w b. I (w\<lparr>cw_running := b\<rparr>) = I w"
  shows "preserves I (runClaim D owner heir)"
  by (rule claim_preserves [OF assms])

theorem claim_asks_only_built_witness:
  "list_all (\<lambda>t. st_feePayer t = [60] \<and> st_signers t = [[60]]) (sc_sent (snd (runClaim heir_deps [1] [60] heir_start)))"
proof -
  let ?I = "\<lambda>w. list_all (\<lambda>t. st_feePayer t = [60] \<and> st_signers t = [[60]]) (sc_sent w)"
  have "claim_signs ?I heir_deps [1] [60]"
    by (simp add: claim_signs_def heir_deps_def heir_rpc_def unsigned_for_def preserves_ret) (simp add: preserves_def bindE_def ret_apply)
  from claim_asks_only_built [OF heir_reads this] have "preserves ?I (runClaim heir_deps [1] [60])" by simp
  then show ?thesis by (rule preservesD) (simp add: heir_start_def)
qed

text \<open>
  C28: the number of steps a claim reports is the number of transactions that were confirmed: with a
  counter that moves by one when a transaction is sent and confirmed and by nothing else, a claim
  that returns \<open>n\<close> has moved it by \<open>n\<close>; stuck transactions, rebuilt passes and the closing of the
  distributions included.
\<close>

theorem claim_reports_confirmed:
  assumes "counts_confirmed c D owner heir" "\<And>w b. c (w\<lparr>cw_running := b\<rparr>) = c w"
  shows "wp (runClaim D owner heir) (\<lambda>n v. c v = c w + n) (\<lambda>_ v. c w \<le> c v) w"
  by (rule claim_counted [OF assms])

lemma heir_counts: "counts_confirmed (\<lambda>w. length (sc_sent w)) heir_deps [1] [60]"
  unfolding counts_confirmed_def
proof (intro conjI allI)
  show "claim_reads (\<lambda>w. length (sc_sent w) = x) heir_deps [1] [60]" for x by (rule heir_reads) simp
qed (simp_all add: heir_deps_def preserves_ret sendConfirm_def heir_rpc_def wp_simps)

lemma heir_log: "fetchExecutionLog sim_env heir_rpc [1] w
    = (Inr (if sc_sent w = [] then None else Some \<lparr>solSnapshot = 0, solPaidMask = 1, completed = True\<rparr>), w)"
proof -
  have "parseExecutionLog (Some \<lparr>acc_owner = [100], acc_data = log_bytes True\<rparr>) [100] = Some \<lparr>solSnapshot = 0, solPaidMask = 1, completed = True\<rparr>"
    by code_simp
  moreover have "parseExecutionLog None [100] = None" by code_simp
  ultimately show ?thesis
    by (simp add: fetchExecutionLog_def parseExecutionLogRaw_eq rawInfo_def heir_rpc_def sim_env_def acct.defs bindE_def ret_apply)
qed

lemma heir_claim: "fst (runClaim heir_deps [1] [60] heir_start) = Inr 1"
proof -
  have deadline: "getOnChainDeadline sim_env heir_rpc [1] w = (Inr None, w)" for w
    by (simp add: getOnChainDeadline_def deadlineRaw_eq parseDeadline_def isProgramAccount_def heir_rpc_def estate_samples)
  have config: "fetchVaultConfig sim_env heir_rpc [1] = ret (Some estate_vault)" and balances: "getVaultTokenBalances sim_env heir_rpc k = ret []" for k
    by (simp_all add: fetchVaultConfig_def getVaultTokenBalances_def keep_balances_def map_filter_def heir_rpc_def Let_def)
  have fee: "addPriorityFee sim_env heir_rpc t ks cu = ret (SetComputeUnitLimit cu # SetComputeUnitPrice 1000 # t)" for t ks cu
    by (rule ext) (simp add: addPriorityFee_def estimatePriorityFee_def heir_rpc_def bindE_def ret_apply)
  have v: "beneficiaries estate_vault = [\<lparr>wallet = [7], shareBps = 10000, hasSpecificAssets = False\<rparr>]" "\<not> hasAssetPlan estate_vault"
    "shares estate_vault = [([7], 10000)]"
    by (simp_all add: estate_vault_def shares_def)
  have unpaid: "unpaidIndices 1 1 = []" by code_simp
  obtain t where one: "\<And>w. sc_sent w = [] \<Longrightarrow> buildClaimTransactions sim_env heir_rpc [60] [1] w = (Inr [t], w)"
    by (simp add: buildClaimTransactions_def config balances v claim_mints_def heir_log claim_fast_path_def fee Let_def bindE_def ret_apply)
  have two: "buildClaimTransactions sim_env heir_rpc [60] [1] w = (Inr [], w)" if "sc_sent w \<noteq> []" for w
    using that unpaid by (simp add: buildClaimTransactions_def config balances v claim_mints_def heir_log claim_snapshots_def claim_sol_shares_def
      claim_token_shares_def Let_def bindE_def ret_apply)
  have closes: "buildCloseTokenDistTransactions sim_env heir_rpc [60] [1] = ret []"
    by (simp add: buildCloseTokenDistTransactions_def config balances v claim_mints_def largestShareWallet_def Let_def)
  have D: "cd_env heir_deps = sim_env" "cd_rpc heir_deps = heir_rpc" "cd_progress heir_deps l i n = ret ()" "cd_blockTime heir_deps = ret (Some 5000)"
    for l i n by (simp_all add: heir_deps_def)
  have send: "\<exists>s v. signOnly heir_deps x [60] w = (Inr s, w) \<and> sendConfirm heir_deps s w = (Inr ''sig'', v) \<and> sc_sent v \<noteq> []" for x w
    by (simp add: signOnly_def sendConfirm_def heir_deps_def heir_rpc_def bindE_def ret_apply)
  let ?s0 = "\<lparr>cs_i = 0, cs_progressed = 0, cs_error = None\<rparr>"
  let ?w = "heir_start\<lparr>cw_running := True\<rparr>"
  have w: "sc_sent ?w = []" by (simp add: heir_start_def)
  obtain s v where sv: "signOnly heir_deps (snd t) [60] ?w = (Inr s, ?w)" "sendConfirm heir_deps s ?w = (Inr ''sig'', v)" "sc_sent v \<noteq> []"
    using send by blast
  have step: "claim_step heir_deps [60] 1 t ?s0 ?w = (Inr (?s0\<lparr>cs_i := 1, cs_progressed := 1\<rparr>), v)"
    by (simp add: claim_step_def D bindE_def tryE_def ret_apply sv)
  have "claim_passes heir_deps [1] [60] (Suc (Suc n)) [t] ?s0 ?w = (Inr (?s0\<lparr>cs_i := 1, cs_progressed := 1\<rparr>), v)"
    for n using step by (simp add: bindE_def ret_apply two [OF sv(3)] D)
  from this [of 8] have "claim_passes heir_deps [1] [60] MAX_PASSES [t] ?s0 ?w = (Inr (?s0\<lparr>cs_i := 1, cs_progressed := 1\<rparr>), v)"
    by (simp add: MAX_PASSES_def del: claim_passes.simps)
  then have "claim_body heir_deps [1] [60] ?w = (Inr 1, v)"
    by (simp add: claim_body_def grace_check_def claim_cleanup_def D deadline closes one [OF w] bindE_def tryE_def ret_apply)
  then show ?thesis by (simp add: runClaim_def bindE_def finallyE_def) (simp add: heir_start_def)
qed

theorem claim_reports_confirmed_witness:
  "fst (runClaim heir_deps [1] [60] heir_start) = Inr 1 \<and> length (sc_sent (snd (runClaim heir_deps [1] [60] heir_start))) = 1"
proof -
  have "wp (runClaim heir_deps [1] [60]) (\<lambda>n v. length (sc_sent v) = length (sc_sent heir_start) + n) (\<lambda>_ v. length (sc_sent heir_start) \<le> length (sc_sent v)) heir_start"
    by (rule claim_reports_confirmed [OF heir_counts]) simp
  with heir_claim show ?thesis by (auto simp: wp_def heir_start_def split: prod.splits)
qed

end
