(* ===== verification/Web_Editors.thy ===== *)
theory Web_Editors
  imports Web_Core
begin

text \<open>
  The editors of the web console: beneficiaries (\<open>components/BeneficiaryEditor.tsx\<close>), bequests
  (\<open>components/BequestsEditor.tsx\<close>), and the deposit and funding panels (\<open>views/MyVaultView.tsx\<close>), with
  the checks of the program they must satisfy (\<open>update_vault.rs\<close>, \<open>set_asset_plan.rs\<close>, \<open>update_asset_plan.rs\<close>).
\<close>

subsection \<open>What the program checks\<close>

text \<open>The beneficiary part of \<open>update_vault\<close>; a share is a \<open>u16\<close>.\<close>

definition update_accepts :: "pubkey \<Rightarrow> benef_input list \<Rightarrow> bool" where
  "update_accepts owner bs \<longleftrightarrow>
     1 \<le> length bs \<and> length bs \<le> 20
     \<and> list_all (\<lambda>b. 0 \<le> bi_shareBps b \<and> bi_shareBps b < 65536) bs
     \<and> sum_list (map bi_shareBps bs) = 10000
     \<and> list_all (\<lambda>b. bi_wallet b \<noteq> owner) bs"

definition MAX_ASSIGNMENTS :: nat where "MAX_ASSIGNMENTS = 64"

definition raw_of :: "bn_or_number \<Rightarrow> int" where
  "raw_of n = (case n of IsBN x \<Rightarrow> x | IsNumber x \<Rightarrow> x)"

definition validate_assignments :: "chain_assignment list \<Rightarrow> nat \<Rightarrow> bool" where
  "validate_assignments cs beneficiary_count \<longleftrightarrow>
     length cs \<le> MAX_ASSIGNMENTS
     \<and> list_all (\<lambda>c. ca_benef c < beneficiary_count \<and> (ca_mint c = default_pubkey \<longrightarrow> \<not> ca_nft c \<and> 0 < ca_amount c)) cs
     \<and> distinct (map ca_mint (filter ca_nft cs))"

text \<open>
  Every mint of the plan must be among the remaining accounts and be a mint. \<open>live_mint\<close> is what the program
  finds on the chain: the account belongs to a token program and unpacks as a mint.
\<close>

definition validate_plan_mints :: "(pubkey \<Rightarrow> bool) \<Rightarrow> chain_assignment list \<Rightarrow> pubkey list \<Rightarrow> bool" where
  "validate_plan_mints live_mint cs remaining \<longleftrightarrow>
     list_all (\<lambda>c. ca_mint c = default_pubkey \<or> ca_mint c \<in> set remaining \<and> live_mint (ca_mint c)) cs"

text \<open>What \<open>set_asset_plan\<close> and \<open>update_asset_plan\<close> require of the list, and what the second leaves stored.\<close>

definition plan_accepted :: "(pubkey \<Rightarrow> bool) \<Rightarrow> chain_assignment list \<Rightarrow> nat \<Rightarrow> pubkey list \<Rightarrow> bool" where
  "plan_accepted live_mint cs beneficiary_count remaining \<longleftrightarrow>
     validate_assignments cs beneficiary_count \<and> validate_plan_mints live_mint cs remaining"

definition stored_assignment :: "chain_assignment \<Rightarrow> assignment" where
  "stored_assignment c = \<lparr>a_mint = ca_mint c, a_amount = nat (ca_amount c), beneficiaryIndex = ca_benef c, isNft = ca_nft c\<rparr>"

definition update_asset_plan :: "chain_assignment list \<Rightarrow> asset_plan \<Rightarrow> asset_plan" where
  "update_asset_plan cs plan = plan\<lparr>assignments := map stored_assignment cs, ap_paidMask := 0\<rparr>"

subsection \<open>The beneficiary editor\<close>

record share_row =
  sr_wallet :: string
  sr_share :: string

definition share_rows :: "'w web_deps \<Rightarrow> vault_view \<Rightarrow> share_row list" where
  "share_rows D v = map (\<lambda>(k, bps). \<lparr>sr_wallet = k, sr_share = wd_numText D (ddiv (Fin (of_int bps)) (Fin 100))\<rparr>) (vv_beneficiaries v)"

definition row_bps :: "share_row \<Rightarrow> dbl" where
  "row_bps r = js_round (dmul (or_zero (parseFloat (sr_share r))) (Fin 100))"

definition total_bps :: "share_row list \<Rightarrow> dbl" where
  "total_bps rows = foldl (\<lambda>s r. dadd s (row_bps r)) (Fin 0) rows"

datatype share_error = Bad_count | Bad_wallet string | Own_wallet | Twice | Share_zero | Bad_total

definition add_share_row :: "share_row list \<Rightarrow> share_row list" where
  "add_share_row rows = (if length rows < 20 then rows @ [\<lparr>sr_wallet = [], sr_share = []\<rparr>] else rows)"

fun check_shares ::
  "'w web_deps \<Rightarrow> string \<Rightarrow> string set \<Rightarrow> share_row list \<Rightarrow> share_error + (string \<times> dbl) list" where
  "check_shares D owner seen [] = Inr []"
| "check_shares D owner seen (r # rows) =
     (case wd_newKey D (js_trimmed (sr_wallet r)) of
        Inl _ \<Rightarrow> Inl (Bad_wallet (sr_wallet r))
      | Inr pk \<Rightarrow>
          let key = b58 (wd_env D) pk in
          if key = owner then Inl Own_wallet
          else if key \<in> seen then Inl Twice
          else if d_le (row_bps r) (Fin 0) then Inl Share_zero
          else case check_shares D owner (insert key seen) rows of
            Inl e \<Rightarrow> Inl e
          | Inr bens \<Rightarrow> Inr ((key, row_bps r) # bens))"

definition checked_shares :: "'w web_deps \<Rightarrow> string \<Rightarrow> share_row list \<Rightarrow> share_error + (string \<times> dbl) list" where
  "checked_shares D owner rows =
     (if length rows < 1 \<or> 20 < length rows then Inl Bad_count
      else case check_shares D owner {} rows of
        Inl e \<Rightarrow> Inl e
      | Inr bens \<Rightarrow> if total_bps rows \<noteq> Fin 10000 then Inl Bad_total else Inr bens)"

definition save_shares ::
  "('e web_world_scheme) web_deps \<Rightarrow> pubkey option \<Rightarrow> string \<Rightarrow> share_row list \<Rightarrow> ('e web_world_scheme, share_error + bool) io" where
  "save_shares D k owner rows =
     (case checked_shares D owner rows of
        Inl e \<Rightarrow> ret (Inl e)
      | Inr bens \<Rightarrow> bindE (updateBeneficiaries D k bens) (\<lambda>ok. ret (Inr ok)))"

subsection \<open>The bequest editor\<close>

record asset_opt =
  ao_key :: string
  ao_decimals :: nat
  ao_isNft :: bool

record bequest_row =
  br_asset :: string
  br_amount :: string
  br_ben :: int

definition sol_opt :: asset_opt where
  "sol_opt = \<lparr>ao_key = ''SOL'', ao_decimals = 9, ao_isNft = False\<rparr>"

definition asset_opts :: "vault_view \<Rightarrow> asset_opt list \<Rightarrow> asset_opt list" where
  "asset_opts v extra =
     sol_opt # map (\<lambda>t. \<lparr>ao_key = vt_mint t, ao_decimals = vt_decimals t, ao_isNft = vt_isNft t\<rparr>) (vv_tokens v) @ extra"

text \<open>\<open>new Map(entries)\<close>: the last entry of a key counts.\<close>

definition opt_by_key :: "asset_opt list \<Rightarrow> string \<Rightarrow> asset_opt option" where
  "opt_by_key opts k = find (\<lambda>a. ao_key a = k) (rev opts)"

text \<open>The mints of the plan that the vault does not hold, in the plan's order, with their decimals.\<close>

definition unheld_mints :: "env \<Rightarrow> vault_view \<Rightarrow> assignment list \<Rightarrow> pubkey list" where
  "unheld_mints E v as =
     rev (remdups (rev (filter (\<lambda>m. b58 E m \<notin> vt_mint ` set (vv_tokens v)) (filter (\<lambda>m. m \<noteq> default_pubkey) (map a_mint as)))))"

definition extra_opts :: "'w web_deps \<Rightarrow> vault_view \<Rightarrow> assignment list \<Rightarrow> ('w, asset_opt list) io" where
  "extra_opts D v as =
     forE (unheld_mints (wd_env D) v as) [] (\<lambda>m extra.
       bindE (or_default (bindE (wd_mintDecimals D m) (\<lambda>d. ret (case d of Some n \<Rightarrow> n | None \<Rightarrow> 0))) 0) (\<lambda>dec.
       ret (extra @ [\<lparr>ao_key = b58 (wd_env D) m, ao_decimals = dec,
         ao_isNft = (case find (\<lambda>a. b58 (wd_env D) (a_mint a) = b58 (wd_env D) m) as of Some a \<Rightarrow> isNft a | None \<Rightarrow> False)\<rparr>])))"

definition dec_by_mint :: "vault_view \<Rightarrow> asset_opt list \<Rightarrow> string \<Rightarrow> nat" where
  "dec_by_mint v extra k =
     (case find (\<lambda>a. ao_key a = k) (rev extra) of
        Some a \<Rightarrow> ao_decimals a
      | None \<Rightarrow> (case find (\<lambda>t. vt_mint t = k) (rev (vv_tokens v)) of Some t \<Rightarrow> vt_decimals t | None \<Rightarrow> 0))"

definition bequest_row_of :: "'w web_deps \<Rightarrow> vault_view \<Rightarrow> asset_opt list \<Rightarrow> assignment \<Rightarrow> bequest_row" where
  "bequest_row_of D v extra a =
     (if a_mint a = default_pubkey
      then \<lparr>br_asset = ''SOL'', br_amount = wd_numText D (ddiv (dbl_of (of_nat (a_amount a))) (Fin 1000000000)), br_ben = int (beneficiaryIndex a)\<rparr>
      else let mintStr = b58 (wd_env D) (a_mint a) in
        \<lparr>br_asset = mintStr,
         br_amount = wd_numText D (if isNft a then Fin 1 else ddiv (dbl_of (of_nat (a_amount a))) (pow10 (dec_by_mint v extra mintStr))),
         br_ben = int (beneficiaryIndex a)\<rparr>)"

text \<open>The load on opening: the extra options and the rows; a failure leaves the editor empty.\<close>

definition load_rows :: "('e web_world_scheme) web_deps \<Rightarrow> vault_view \<Rightarrow> ('e web_world_scheme, asset_opt list \<times> bequest_row list) io" where
  "load_rows D v =
     tryE
       (bindE (liftE (wd_newKey D (vv_owner v))) (\<lambda>owner.
        bindE (fetchAssetPlan (wd_env D) (wd_rpc D) owner) (\<lambda>plan.
        case plan of
          None \<Rightarrow> ret ([], [])
        | Some p \<Rightarrow> if assignments p = [] then ret ([], [])
            else bindE (extra_opts D v (assignments p)) (\<lambda>extra.
              ret (extra, map (bequest_row_of D v extra) (assignments p))))))
       (\<lambda>_. ret ([], []))"

datatype bequest_error = No_rows | No_asset | No_beneficiary | Sol_zero | Nft_twice | Token_zero

text \<open>\<open>new BN(x)\<close> and \<open>BigInt(x)\<close> of a number.\<close>

definition bn_of_dbl :: "env \<Rightarrow> dbl \<Rightarrow> ('w, int) io" where
  "bn_of_dbl E x = (case x of Fin q \<Rightarrow> liftE (new_bn E \<lfloor>q\<rfloor>) | _ \<Rightarrow> throw (Error ''Assertion failed''))"

fun check_bequests ::
  "'w web_deps \<Rightarrow> (string \<Rightarrow> asset_opt option) \<Rightarrow> nat \<Rightarrow> string set \<Rightarrow> bequest_row list
     \<Rightarrow> ('w, bequest_error + asset_assignment list) io" where
  "check_bequests D opt n nfts [] = ret (Inr [])"
| "check_bequests D opt n nfts (r # rows) =
     (let rest = (\<lambda>nfts' a. bindE (check_bequests D opt n nfts' rows) (\<lambda>x.
                    ret (case x of Inl e \<Rightarrow> Inl e | Inr as \<Rightarrow> Inr (a # as)))) in
      case opt (br_asset r) of
        None \<Rightarrow> ret (Inl No_asset)
      | Some o' \<Rightarrow>
          if br_ben r < 0 \<or> int n \<le> br_ben r then ret (Inl No_beneficiary)
          else if ao_key o' = ''SOL'' then
            (let lamports = js_round (dmul (or_zero (parseFloat (br_amount r))) (Fin 1000000000)) in
             if d_le lamports (Fin 0) then ret (Inl Sol_zero)
             else bindE (bn_of_dbl (wd_env D) lamports) (\<lambda>b.
               rest nfts \<lparr>aa_mint = default_pubkey, aa_amount = IsBN b, aa_benef = nat (br_ben r), aa_nft = False\<rparr>))
          else if ao_isNft o' then
            (if ao_key o' \<in> nfts then ret (Inl Nft_twice)
             else bindE (liftE (wd_newKey D (ao_key o'))) (\<lambda>m.
               rest (insert (ao_key o') nfts) \<lparr>aa_mint = m, aa_amount = IsBN 1, aa_benef = nat (br_ben r), aa_nft = True\<rparr>))
          else
            bindE (int_of_dbl (js_round (dmul (or_zero (parseFloat (br_amount r))) (pow10 (ao_decimals o'))))) (\<lambda>raw.
            if raw \<le> 0 then ret (Inl Token_zero)
            else bindE (liftE (wd_newKey D (ao_key o'))) (\<lambda>m.
              rest nfts \<lparr>aa_mint = m, aa_amount = IsBN raw, aa_benef = nat (br_ben r), aa_nft = False\<rparr>)))"

definition checked_bequests ::
  "'w web_deps \<Rightarrow> vault_view \<Rightarrow> asset_opt list \<Rightarrow> bequest_row list \<Rightarrow> ('w, bequest_error + asset_assignment list) io" where
  "checked_bequests D v extra rows =
     (if rows = [] then ret (Inl No_rows)
      else check_bequests D (opt_by_key (asset_opts v extra)) (length (vv_beneficiaries v)) {} rows)"

definition save_bequest_rows ::
  "('e web_world_scheme) web_deps \<Rightarrow> pubkey option \<Rightarrow> vault_view \<Rightarrow> asset_opt list \<Rightarrow> bequest_row list
     \<Rightarrow> ('e web_world_scheme, bequest_error + bool) io" where
  "save_bequest_rows D k v extra rows =
     bindE (checked_bequests D v extra rows) (\<lambda>c.
     case c of
       Inl e \<Rightarrow> ret (Inl e)
     | Inr as \<Rightarrow> bindE (saveBequests D k as (vv_hasAssetPlan v)) (\<lambda>ok. ret (Inr ok)))"

text \<open>The edits of the rows, and the editor from opening to saving.\<close>

datatype row_edit = Row_asset nat string | Row_amount nat string | Row_benef nat int | Row_add | Row_remove nat

fun edit_rows :: "asset_opt list \<Rightarrow> row_edit \<Rightarrow> bequest_row list \<Rightarrow> bequest_row list" where
  "edit_rows opts (Row_asset i k) rows = (if i < length rows then rows[i := (rows ! i)\<lparr>br_asset := k\<rparr>] else rows)"
| "edit_rows opts (Row_amount i s) rows = (if i < length rows then rows[i := (rows ! i)\<lparr>br_amount := s\<rparr>] else rows)"
| "edit_rows opts (Row_benef i n) rows = (if i < length rows then rows[i := (rows ! i)\<lparr>br_ben := n\<rparr>] else rows)"
| "edit_rows opts Row_add rows =
     rows @ [\<lparr>br_asset = (case opts of [] \<Rightarrow> ''SOL'' | o' # _ \<Rightarrow> ao_key o'), br_amount = [], br_ben = 0\<rparr>]"
| "edit_rows opts (Row_remove i) rows = take i rows @ drop (Suc i) rows"

definition bequest_session ::
  "('e web_world_scheme) web_deps \<Rightarrow> pubkey option \<Rightarrow> vault_view \<Rightarrow> row_edit list
     \<Rightarrow> ('e web_world_scheme, bequest_error + bool) io" where
  "bequest_session D k v edits =
     bindE (load_rows D v) (\<lambda>(extra, loaded).
     save_bequest_rows D k v extra (fold (edit_rows (asset_opts v extra)) edits loaded))"

subsection \<open>Funding and deposits\<close>

definition isFrozen :: "vault_view \<Rightarrow> int \<Rightarrow> bool" where
  "isFrozen v now \<longleftrightarrow> \<not> vv_executed v \<and> (case vv_deadline v of Some d \<Rightarrow> d \<le> now | None \<Rightarrow> False)"

definition can_edit :: "vault_view option \<Rightarrow> int \<Rightarrow> bool" where
  "can_edit v now = (case v of Some x \<Rightarrow> \<not> isFrozen x now \<and> \<not> vv_executed x | None \<Rightarrow> False)"

definition danger_rows :: "vault_view \<Rightarrow> int \<Rightarrow> string list" where
  "danger_rows v now =
     (if vv_hasAssetPlan v \<and> \<not> isFrozen v now \<and> \<not> vv_executed v then [''clear''] else [])
     @ (if vv_active v \<and> vv_isMutable v \<and> \<not> isFrozen v now \<and> \<not> vv_executed v then [''revoke''] else [])
     @ (if vv_executed v \<and> vv_openTokenDists v = 0 then [''close''] else [])"

datatype deposit_msg = Not_positive | Above_balance | Not_depositable string | Deposit_warning string

record deposit_asset =
  da_mint :: string
  da_amount :: int
  da_decimals :: nat
  da_isNft :: bool

definition deposit_raw :: "deposit_asset \<Rightarrow> string option \<Rightarrow> ('w, int) io" where
  "deposit_raw a edited =
     (if da_isNft a then ret 1
      else case edited of
        Some s \<Rightarrow> int_of_dbl (js_round (dmul (or_zero (parseFloat s)) (pow10 (da_decimals a))))
      | None \<Rightarrow> ret (da_amount a))"

definition deposit_web ::
  "('e web_world_scheme) web_deps \<Rightarrow> pubkey option \<Rightarrow> deposit_asset \<Rightarrow> string option
     \<Rightarrow> ('e web_world_scheme, deposit_msg option \<times> bool option) io" where
  "deposit_web D k a edited =
     bindE (deposit_raw a edited) (\<lambda>raw.
     if raw \<le> 0 then ret (Some Not_positive, None)
     else if da_amount a < raw then ret (Some Above_balance, None)
     else
     bindE (or_default (bindE (liftE (wd_newKey D (da_mint a))) (\<lambda>m. bindE (checkDepositable (wd_env D) (wd_rpc D) m) (\<lambda>c. ret (Some c)))) None) (\<lambda>chk.
     case chk of
       None \<Rightarrow> bindE (depositToken D k (da_mint a) raw) (\<lambda>ok. ret (None, Some ok))
     | Some c \<Rightarrow>
         if \<not> dc_ok c then ret (Some (Not_depositable (case dc_reason c of Some s \<Rightarrow> s | None \<Rightarrow> ''This asset cannot be deposited.'')), None)
         else bindE (depositToken D k (da_mint a) raw) (\<lambda>ok. ret (map_option Deposit_warning (dc_warning c), Some ok))))"

end
