(* ===== verification/Web_Share_Props.thy ===== *)
theory Web_Share_Props
  imports Web_Editors
begin

text \<open>
  The beneficiary editor: whatever it hands to \<open>updateBeneficiaries\<close> is a list that \<open>update_vault\<close>
  accepts, whatever was typed, and opening the editor and saving at once hands over the shares of the
  vault. The sum of the editor is a sum of doubles; it is exact where it matters.
\<close>

subsection \<open>Sums of doubles\<close>

lemma dadd_int: "0 \<le> a \<Longrightarrow> 0 \<le> b \<Longrightarrow> a + b \<le> 2 ^ 53 \<Longrightarrow> dadd (Fin (of_int a)) (Fin (of_int b)) = Fin (of_int (a + b))"
  using dbl_of_int [of "a + b"] by simp

text \<open>A sum past 10000 cannot come back to it by adding positive integers.\<close>

definition beyond :: "dbl \<Rightarrow> bool" where
  "beyond s \<longleftrightarrow> s = PosInf \<or> s = NotANumber \<or> (\<exists>q. s = Fin q \<and> ((\<exists>m. q = of_int m \<and> 10001 \<le> m \<and> m \<le> 2 ^ 53) \<or> 2 ^ 52 \<le> q))"

definition positive_int :: "dbl \<Rightarrow> bool" where
  "positive_int x \<longleftrightarrow> x = PosInf \<or> x = NotANumber \<or> (\<exists>n. x = Fin (of_int n) \<and> 0 < n)"

lemma dbl_of_large:
  assumes "2 ^ 52 + 1 \<le> q"
  shows "beyond (dbl_of q)"
proof -
  have q: "0 < q" using assms by (rule less_le_trans [rotated]) simp
  have "(2 powi (- 1022) :: rat) \<le> 2 powi 0" by (rule powi_mono) simp
  also have "\<dots> \<le> 2 ^ 52 + 1" by simp
  finally have "2 powi (- 1022) \<le> q" using assms by (rule order_trans)
  from rnd_pos_rel [OF this] have r: "- (q / 2 ^ 53) \<le> rnd_pos q - q" by (rule abs_leD2)
  have e: "q / 2 ^ 53 \<le> q - 2 ^ 52" using assms by simp
  have "2 ^ 52 \<le> rnd_pos q" using add_mono [OF r e] by simp
  then show ?thesis using q unfolding dbl_of_def Let_def beyond_def by auto
qed

lemma beyond_int: "10001 \<le> m \<Longrightarrow> beyond (dbl_of (of_int m))"
proof (cases "m \<le> 2 ^ 53")
  case False
  then have "2 ^ 52 + 1 \<le> m" by simp
  then have "(of_int (2 ^ 52 + 1) :: rat) \<le> of_int m" by (simp only: of_int_le_iff)
  then show ?thesis by (intro dbl_of_large) simp
qed (use dbl_of_int [of m] in \<open>auto simp: beyond_def\<close>)

lemma beyond_dadd:
  assumes "beyond s" "positive_int x"
  shows "beyond (dadd s x)"
proof -
  consider "s = PosInf \<or> s = NotANumber \<or> x = PosInf \<or> x = NotANumber" | (fin) q n where "s = Fin q" "x = Fin (of_int n)" "0 < n"
    using assms unfolding beyond_def positive_int_def by blast
  then show ?thesis
  proof cases
    case fin
    have n: "1 \<le> (of_int n :: rat)" using fin(3) by simp
    from assms(1) fin(1) consider (i) m where "q = of_int m" "10001 \<le> m" | (l) "2 ^ 52 \<le> q" unfolding beyond_def by auto
    then show ?thesis
    proof cases
      case i
      then show ?thesis using fin beyond_int [of "m + n"] by simp
    next
      case l
      then show ?thesis using fin n dbl_of_large [of "q + of_int n"] by (simp add: add_mono)
    qed
  qed (use assms in \<open>cases s; cases x; auto simp: beyond_def positive_int_def\<close>)
qed

lemma beyond_foldl: "beyond s \<Longrightarrow> list_all positive_int xs \<Longrightarrow> beyond (foldl dadd s xs)"
  by (induction xs arbitrary: s) (simp_all add: beyond_dadd)

lemma foldl_total:
  assumes "list_all positive_int xs" "0 \<le> a" "a \<le> 10000" "foldl dadd (Fin (of_int a)) xs = Fin 10000"
  shows "\<exists>ns. xs = map (\<lambda>n. Fin (of_int n)) ns \<and> list_all (\<lambda>n. 0 < n \<and> n \<le> 10000) ns \<and> a + sum_list ns = 10000"
  using assms
proof (induction xs arbitrary: a)
  case (Cons x xs)
  have ne: "\<not> beyond (foldl dadd (dadd (Fin (of_int a)) x) xs)" using Cons.prems(4) by (simp add: beyond_def)
  then have nb: "\<not> beyond (dadd (Fin (of_int a)) x)" using beyond_foldl Cons.prems(1) by auto
  from Cons.prems(1) nb obtain n where n: "x = Fin (of_int n)" "0 < n" unfolding positive_int_def by (auto simp: beyond_def)
  have le: "a + n \<le> 10000" using nb n Cons.prems(2) beyond_int [of "a + n"] by fastforce
  have s: "dadd (Fin (of_int a)) x = Fin (of_int (a + n))" unfolding n(1) using n(2) le Cons.prems(2) by (intro dadd_int) auto
  from Cons.IH [of "a + n"] Cons.prems s le n(2) obtain ns where
    "xs = map (\<lambda>n. Fin (of_int n)) ns" "list_all (\<lambda>n. 0 < n \<and> n \<le> 10000) ns" "(a + n) + sum_list ns = 10000" by auto
  then show ?case using n le Cons.prems(2) by (intro exI [of _ "n # ns"]) auto
qed (auto intro: exI [of _ "[]"])

lemma foldl_exact:
  "list_all (\<lambda>n. 0 \<le> n) ns \<Longrightarrow> 0 \<le> a \<Longrightarrow> a + sum_list ns \<le> 2 ^ 53
   \<Longrightarrow> foldl dadd (Fin (of_int a)) (map (\<lambda>n. Fin (of_int n)) ns) = Fin (of_int (a + sum_list ns))"
proof (induction ns arbitrary: a)
  case (Cons n ns)
  have s: "0 \<le> sum_list ns" using Cons.prems(1) by (intro sum_list_nonneg) (auto simp: list_all_iff)
  have "dadd (Fin (of_int a)) (Fin (of_int n)) = Fin (of_int (a + n))" using Cons.prems s by (intro dadd_int) auto
  then show ?case using Cons.IH [of "a + n"] Cons.prems by (simp add: add.assoc)
qed simp

lemma total_bps_foldl: "total_bps rows = foldl dadd (Fin 0) (map row_bps rows)"
proof -
  have "foldl (\<lambda>s r. dadd s (row_bps r)) s rows = foldl dadd s (map row_bps rows)" for s by (induction rows arbitrary: s) simp_all
  then show ?thesis unfolding total_bps_def .
qed

subsection \<open>What is saved\<close>

text \<open>\<open>new PublicKey\<close> accepts exactly the texts of keys, which have no white space.\<close>

definition key_text :: "'w web_deps \<Rightarrow> bool" where
  "key_text D \<longleftrightarrow> (\<forall>s k. wd_newKey D s = Inr k \<longleftrightarrow> s = b58 (wd_env D) k) \<and> (\<forall>k. js_trimmed (b58 (wd_env D) k) = b58 (wd_env D) k)"

lemma key_text_new: "key_text D \<Longrightarrow> wd_newKey D (b58 (wd_env D) k) = Inr k"
  by (simp add: key_text_def)

lemma key_text_inj: "key_text D \<Longrightarrow> b58 (wd_env D) k = b58 (wd_env D) k' \<Longrightarrow> k = k'"
  by (metis key_text_new sum.inject(2))

lemma liftE_new: "key_text D \<Longrightarrow> liftE (wd_newKey D (b58 (wd_env D) k)) = ret k"
  by (rule ext) (simp add: key_text_new liftE_apply ret_apply)

lemma row_bps_positive: "\<not> d_le (row_bps r) (Fin 0) \<Longrightarrow> positive_int (row_bps r)"
  unfolding row_bps_def by (cases "dmul (or_zero (parseFloat (sr_share r))) (Fin 100)") (auto simp: positive_int_def not_le)

lemma check_shares_ok:
  assumes "check_shares D owner seen rows = Inr bens"
  shows "map snd bens = map row_bps rows \<and> list_all positive_int (map snd bens) \<and> distinct (map fst bens)
    \<and> set (map fst bens) \<inter> insert owner seen = {} \<and> (\<exists>ks. map fst bens = map (b58 (wd_env D)) ks)"
  using assms
proof (induction rows arbitrary: seen bens)
  case (Cons r rows)
  from Cons.prems obtain pk bens' where c: "wd_newKey D (js_trimmed (sr_wallet r)) = Inr pk" "b58 (wd_env D) pk \<noteq> owner"
    "b58 (wd_env D) pk \<notin> seen" "\<not> d_le (row_bps r) (Fin 0)"
    "check_shares D owner (insert (b58 (wd_env D) pk) seen) rows = Inr bens'" "bens = (b58 (wd_env D) pk, row_bps r) # bens'"
    by (auto simp: Let_def split: sum.splits if_splits)
  from Cons.IH [OF c(5)] obtain ks where "map fst bens' = map (b58 (wd_env D)) ks" by blast
  then have "map fst bens = map (b58 (wd_env D)) (pk # ks)" by (simp add: c(6))
  then show ?case using Cons.IH [OF c(5)] c row_bps_positive [OF c(4)] by (auto simp del: check_shares.simps intro!: exI [of _ "pk # ks"])
qed simp

lemma benef_inputs_loop:
  assumes "key_text D"
  shows "forE (zip (map (b58 (wd_env D)) ks) (map (\<lambda>n. Fin (of_int n)) ns)) out (\<lambda>(k, x) out.
       bindE (liftE (wd_newKey D k)) (\<lambda>w. bindE (int_of_dbl x) (\<lambda>n. ret (out @ [\<lparr>bi_wallet = w, bi_shareBps = n\<rparr>]))))
     = ret (out @ map (\<lambda>(k, n). \<lparr>bi_wallet = k, bi_shareBps = n\<rparr>) (zip ks ns))"
proof (induction ks arbitrary: ns out)
  case (Cons k ks)
  then show ?case by (cases ns) (simp_all add: int_of_dbl_def liftE_new [OF assms])
qed simp

lemma to_benef_inputs_eq:
  assumes "key_text D"
  shows "to_benef_inputs D (zip (map (b58 (wd_env D)) ks) (map (\<lambda>n. Fin (of_int n)) ns)) w
    = (Inr (map (\<lambda>(k, n). \<lparr>bi_wallet = k, bi_shareBps = n\<rparr>) (zip ks ns)), w)"
  unfolding to_benef_inputs_def benef_inputs_loop [OF assms] by (simp add: ret_apply)

text \<open>
  C18: Whatever is typed in the beneficiary editor, a list it does not reject is one that \<open>update_vault\<close>
  accepts: between one and twenty beneficiaries, none of them the owner and none twice, shares that fit
  and sum to 10000 basis points.
\<close>

theorem web_shares_accepted:
  assumes "key_text D"
  shows "case checked_shares D (b58 (wd_env D) owner) rows of
      Inl e \<Rightarrow> True
    | Inr bens \<Rightarrow> \<exists>bs. (\<forall>w. to_benef_inputs D bens w = (Inr bs, w)) \<and> update_accepts owner bs \<and> distinct (map bi_wallet bs)
        \<and> list_all (\<lambda>b. 0 < bi_shareBps b) bs"
proof (cases "checked_shares D (b58 (wd_env D) owner) rows")
  case (Inr bens)
  from Inr have c: "check_shares D (b58 (wd_env D) owner) {} rows = Inr bens" "1 \<le> length rows" "length rows \<le> 20" "total_bps rows = Fin 10000"
    by (auto simp: checked_shares_def Suc_le_eq split: if_splits sum.splits)
  note f = check_shares_ok [OF c(1)]
  obtain ks where ks: "map fst bens = map (b58 (wd_env D)) ks" using f by blast
  have "map snd bens = map row_bps rows" "list_all positive_int (map snd bens)" "distinct (map fst bens)"
    "b58 (wd_env D) owner \<notin> set (map fst bens)" using f by blast+
  note k = this ks
  have "foldl dadd (Fin (of_int 0)) (map snd bens) = Fin 10000" using c(4) unfolding total_bps_foldl k(1) by simp
  from foldl_total [OF k(2) _ _ this] obtain ns where n: "map snd bens = map (\<lambda>n. Fin (of_int n)) ns"
    "list_all (\<lambda>n. 0 < n \<and> n \<le> 10000) ns" "sum_list ns = 10000" by auto
  have len: "length ks = length rows" "length ns = length rows" "length bens = length rows"
    using arg_cong [OF k(1), of length] arg_cong [OF k(5), of length] arg_cong [OF n(1), of length] by simp_all
  have bens: "bens = zip (map (b58 (wd_env D)) ks) (map (\<lambda>n. Fin (of_int n)) ns)" using k(5) n(1) by (metis zip_map_fst_snd)
  define bs where "bs = map (\<lambda>(k, n). \<lparr>bi_wallet = k, bi_shareBps = n\<rparr>) (zip ks ns)"
  have w: "map bi_wallet bs = ks" "map bi_shareBps bs = ns"
    unfolding bs_def using len by (simp_all add: comp_def case_prod_beta)
  have kd: "distinct ks" "owner \<notin> set ks" using k(3,4) unfolding k(5) by (auto simp: distinct_map)
  have "list_all (\<lambda>b. bi_wallet b \<noteq> owner) bs" using kd(2) w(1) by (auto simp: list_all_iff)
  moreover have "list_all (\<lambda>n. 0 < n \<and> n \<le> 10000) (map bi_shareBps bs)" unfolding w(2) by (rule n(2))
  then have "list_all (\<lambda>b. 0 < bi_shareBps b \<and> bi_shareBps b \<le> 10000) bs" by (simp add: list_all_iff)
  ultimately have "update_accepts owner bs" unfolding update_accepts_def w(2) n(3) using c(2,3) len by (auto simp: list_all_iff bs_def)
  moreover have "to_benef_inputs D bens w = (Inr bs, w)" for w unfolding bens bs_def by (rule to_benef_inputs_eq [OF assms])
  ultimately show ?thesis using Inr kd(1) w(1) \<open>list_all (\<lambda>b. 0 < bi_shareBps b \<and> bi_shareBps b \<le> 10000) bs\<close> by (auto simp: list_all_iff)
qed simp

subsection \<open>Opening and saving\<close>

text \<open>The text of a number reads back as the number, for the shares of the vault.\<close>

definition prints :: "'w web_deps \<Rightarrow> dbl \<Rightarrow> bool" where
  "prints D x \<longleftrightarrow> parseFloat (wd_numText D x) = x"

lemma row_bps_loaded:
  assumes "prints D (ddiv (Fin (of_int n)) (Fin 100))" "0 \<le> n" "n \<le> 10000"
  shows "row_bps \<lparr>sr_wallet = k, sr_share = wd_numText D (ddiv (Fin (of_int n)) (Fin 100))\<rparr> = Fin (of_int n)"
proof -
  have p: "pow10 2 = Fin 100" by (simp add: pow10_exact)
  have r: "js_round (dmul (ddiv (Fin (of_int n)) (Fin 100)) (Fin 100)) = Fin (of_int n)"
    using scale_roundtrip [of 2 n] assms(2,3) unfolding p by simp
  moreover have "ddiv (Fin (of_int n)) (Fin 100) \<noteq> NotANumber" by (simp add: dbl_of_def Let_def)
  then have "or_zero (ddiv (Fin (of_int n)) (Fin 100)) = ddiv (Fin (of_int n)) (Fin 100)" by (cases "ddiv (Fin (of_int n)) (Fin 100)") auto
  ultimately show ?thesis using assms(1) unfolding row_bps_def prints_def by simp
qed

lemma check_shares_loaded:
  assumes "key_text D" "owner \<notin> set ks" "distinct ks" "b58 (wd_env D) ` set ks \<inter> seen = {}"
    "list_all (\<lambda>n. 0 < n \<and> n \<le> 10000 \<and> prints D (ddiv (Fin (of_int n)) (Fin 100))) ns" "length ks = length ns"
  shows "check_shares D (b58 (wd_env D) owner) seen
      (map (\<lambda>(k, n). \<lparr>sr_wallet = k, sr_share = wd_numText D (ddiv (Fin (of_int n)) (Fin 100))\<rparr>) (zip (map (b58 (wd_env D)) ks) ns))
    = Inr (zip (map (b58 (wd_env D)) ks) (map (\<lambda>n. Fin (of_int n)) ns))"
  using assms(6,2-5)
proof (induction ks ns arbitrary: seen rule: list_induct2)
  case (Cons k ks n ns)
  have t: "wd_newKey D (js_trimmed (b58 (wd_env D) k)) = Inr k" using assms(1) by (simp add: key_text_def)
  have ne: "b58 (wd_env D) k \<noteq> b58 (wd_env D) owner" using Cons.prems(1) key_text_inj [OF assms(1)] by fastforce
  have disj: "b58 (wd_env D) ` set ks \<inter> insert (b58 (wd_env D) k) seen = {}"
    using Cons.prems(2,3) key_text_inj [OF assms(1)] by fastforce
  have r: "row_bps \<lparr>sr_wallet = b58 (wd_env D) k, sr_share = wd_numText D (ddiv (Fin (of_int n)) (Fin 100))\<rparr> = Fin (of_int n)"
    using Cons.prems(4) by (intro row_bps_loaded) auto
  show ?case using Cons.IH [of "insert (b58 (wd_env D) k) seen"] Cons.prems disj ne by (simp add: t r Let_def del: ddiv.simps)
qed simp

text \<open>
  Opening the beneficiary editor on a vault and saving at once submits the vault's own beneficiaries
  with their exact shares, although the shares travel as decimal text and doubles.
\<close>

theorem web_share_roundtrip:
  assumes "key_text D" "distinct (map wallet (beneficiaries c))"
    "update_accepts owner (map (\<lambda>b. \<lparr>bi_wallet = wallet b, bi_shareBps = int (shareBps b)\<rparr>) (beneficiaries c))"
    "list_all (\<lambda>b. 0 < shareBps b \<and> prints D (ddiv (Fin (of_nat (shareBps b))) (Fin 100))) (beneficiaries c)"
  shows "checked_shares D (b58 (wd_env D) owner) (share_rows D (vault_view_of D owner c dl sol toks n))
    = Inr (map (\<lambda>b. (b58 (wd_env D) (wallet b), Fin (of_nat (shareBps b)))) (beneficiaries c))"
proof -
  define bs where "bs = beneficiaries c"
  define ks where "ks = map wallet bs"
  define ns where "ns = map (int \<circ> shareBps) bs"
  have sum: "sum_list ns = 10000" using assms(3) unfolding update_accepts_def ns_def bs_def by (simp add: comp_def)
  have bound: "n \<le> 10000" if "n \<in> set ns" for n
    using member_le_sum_list [OF that] sum that unfolding ns_def by (smt (verit) comp_apply imageE list.set_map of_nat_0_le_iff)
  have ns: "list_all (\<lambda>n. 0 < n \<and> n \<le> 10000 \<and> prints D (ddiv (Fin (of_int n)) (Fin 100))) ns"
    using assms(4) bound unfolding ns_def bs_def by (auto simp: list_all_iff)
  have zip: "zip (map (b58 (wd_env D)) ks) (map f ns) = map (\<lambda>b. (b58 (wd_env D) (wallet b), f (int (shareBps b)))) bs" for f :: "int \<Rightarrow> 'z"
    unfolding ks_def ns_def by (induction bs) simp_all
  have rows: "share_rows D (vault_view_of D owner c dl sol toks n)
      = map (\<lambda>(k, n). \<lparr>sr_wallet = k, sr_share = wd_numText D (ddiv (Fin (of_int n)) (Fin 100))\<rparr>) (zip (map (b58 (wd_env D)) ks) ns)"
    unfolding share_rows_def vault_view_of_def ks_def ns_def bs_def by (simp add: zip_map_map zip_same_conv_map)
  have len: "1 \<le> length (share_rows D (vault_view_of D owner c dl sol toks n))" "length (share_rows D (vault_view_of D owner c dl sol toks n)) \<le> 20"
    using assms(3) unfolding share_rows_def vault_view_of_def update_accepts_def by simp_all
  have c: "check_shares D (b58 (wd_env D) owner) {} (share_rows D (vault_view_of D owner c dl sol toks n))
      = Inr (zip (map (b58 (wd_env D)) ks) (map (\<lambda>n. Fin (of_int n)) ns))"
    unfolding rows
  proof (rule check_shares_loaded [OF assms(1) _ _ _ ns])
    show "owner \<notin> set ks" using assms(3) unfolding update_accepts_def ks_def bs_def by (auto simp: list_all_iff)
  qed (use assms(2) in \<open>simp_all add: ks_def ns_def bs_def\<close>)
  from check_shares_ok [OF c] have "map row_bps (share_rows D (vault_view_of D owner c dl sol toks n)) = map (\<lambda>n. Fin (of_int n)) ns"
    by (simp add: ks_def ns_def)
  then have "total_bps (share_rows D (vault_view_of D owner c dl sol toks n)) = Fin 10000"
    unfolding total_bps_foldl using foldl_exact [of ns 0] ns sum by (simp add: list_all_iff less_imp_le)
  then show ?thesis using len c unfolding checked_shares_def zip by (simp add: not_less Suc_le_eq bs_def)
qed

end
