(* ===== verification/Revoke_Tx.thy ===== *)
theory Revoke_Tx
  imports Owner_Facts
begin

text \<open>
  The revoke path against the chain: which withdrawals are built, how they are packed, that the
  revoke comes last, and when a packed transaction exceeds the packet size. The checks that the
  owner sees before a deposit are characterised here too.
\<close>

subsection \<open>Packing\<close>

definition body_of :: "tx \<Rightarrow> instruction list" where
  "body_of t = drop 2 t"

definition budgeted :: "tx \<Rightarrow> bool" where
  "budgeted t \<longleftrightarrow> (\<exists>cu fee rest. t = SetComputeUnitLimit cu # SetComputeUnitPrice fee # rest
      \<and> cu = 50000 + int (length rest) * 30000)"

lemma pack_chunks_eq:
  "pack_chunks ixs inc = (if ixs = [] \<and> inc then [[]] else groups 8 ixs)"
  by (simp add: pack_chunks_def MAX_IXS_PER_TX_def chunk_loop_groups Let_def groups.simps [of 8 ixs])

lemma yields_batch_loop:
  "yields (forE cs acc (\<lambda>c txs.
        bindE (addPriorityFee E R c keys (50000 + int (length c) * 30000)) (\<lambda>priorityTx.
        ret (txs @ [priorityTx]))))
     (\<lambda>txs. \<exists>ts. txs = acc @ ts \<and> map body_of ts = cs \<and> list_all budgeted ts)"
proof (induction cs arbitrary: acc)
  case (Cons c cs)
  show ?case
    unfolding forE.simps bindE_assoc bindE_ret
  proof (rule yields_bindE)
    show "yields (addPriorityFee E R c keys (50000 + int (length c) * 30000)) (\<lambda>t. body_of t = c \<and> budgeted t)"
      by (rule yields_addPriorityFee) (simp add: body_of_def budgeted_def)
  next
    fix t assume t: "body_of t = c \<and> budgeted t"
    show "yields (forE cs (acc @ [t]) (\<lambda>c txs.
          bindE (addPriorityFee E R c keys (50000 + int (length c) * 30000)) (\<lambda>priorityTx. ret (txs @ [priorityTx]))))
        (\<lambda>txs. \<exists>ts. txs = acc @ ts \<and> map body_of ts = c # cs \<and> list_all budgeted ts)"
    proof (rule yields_mono [OF Cons.IH])
      fix a assume "\<exists>ts. a = (acc @ [t]) @ ts \<and> map body_of ts = cs \<and> list_all budgeted ts"
      then obtain ts where "a = (acc @ [t]) @ ts" "map body_of ts = cs" "list_all budgeted ts" by blast
      with t show "\<exists>ts. a = acc @ ts \<and> map body_of ts = c # cs \<and> list_all budgeted ts"
        by (intro exI [of _ "t # ts"]) simp
    qed
  qed
qed (simp add: yields_ret)

lemma concat_snoc_last: "cs \<noteq> [] \<Longrightarrow> concat (butlast cs @ [last cs @ [x]]) = concat cs @ [x]"
  by (metis append_assoc append_butlast_last_id concat.simps(1) concat_append concat.simps(2) append_Nil2)

lemma returns_buildBatchedTxs: "returns (buildBatchedTxs E R owner ixs inc)"
  unfolding buildBatchedTxs_def Let_def by (intro returns_intro)

lemma pack_ne: "pack_chunks ixs True \<noteq> []"
  by (simp add: pack_chunks_eq groups.simps [of 8 ixs])

lemma pack_concat: "concat (pack_chunks ixs True) = ixs"
  by (simp add: pack_chunks_eq concat_groups)

lemma pack_small: "c \<in> set (pack_chunks ixs True) \<Longrightarrow> length c \<le> 8"
  using groups_sizes [of c 8 ixs] by (auto simp: pack_chunks_eq split: if_splits)

lemma yields_revoke_batches:
  "yields (buildBatchedTxs E R owner ixs True)
     (\<lambda>ts. \<exists>plan. map body_of ts = butlast (pack_chunks ixs True) @ [last (pack_chunks ixs True) @ [revoke_ix E owner plan]]
        \<and> list_all budgeted ts)"
proof -
  let ?cs = "pack_chunks ixs True"
  have pick: "yields (bindE (assetPlanIfPresent E R owner) (\<lambda>plan. ret (butlast ?cs @ [last ?cs @ [revoke_ix E owner plan]])))
      (\<lambda>cs'. \<exists>plan. cs' = butlast ?cs @ [last ?cs @ [revoke_ix E owner plan]])"
    by (rule yields_bindE_any, rule yields_ret) blast
  have c: "(True \<and> ?cs \<noteq> []) = True" using pack_ne [of ixs] by simp
  show ?thesis
    unfolding buildBatchedTxs_def Let_def c if_True
    by (rule yields_bindE [OF pick], rule yields_mono [OF yields_batch_loop]) auto
qed

text \<open>
  packing a revoke loses nothing and closes last: the program instructions of the transactions,
  read in order, are exactly the withdrawals followed by one \<open>revoke_vault\<close> for the owner's vault;
  no transaction carries more than nine of them, and each has the compute limit
  \<open>50000 + 30000\<close> per instruction.
\<close>

theorem revoke_batches_complete:
  "\<exists>ts w'. buildBatchedTxs E R owner ixs True w = (Inr ts, w')
     \<and> (\<exists>plan. concat (map body_of ts) = ixs @ [revoke_ix E owner plan])
     \<and> list_all budgeted ts \<and> list_all (\<lambda>t. length (body_of t) \<le> 9) ts"
proof (rule returns_yields [OF returns_buildBatchedTxs yields_mono [OF yields_revoke_batches]])
  fix ts assume "\<exists>plan. map body_of ts = butlast (pack_chunks ixs True) @ [last (pack_chunks ixs True) @ [revoke_ix E owner plan]]
      \<and> list_all budgeted ts"
  then obtain plan where b: "map body_of ts = butlast (pack_chunks ixs True) @ [last (pack_chunks ixs True) @ [revoke_ix E owner plan]]"
    and bud: "list_all budgeted ts" by blast
  have cat: "concat (map body_of ts) = ixs @ [revoke_ix E owner plan]"
    by (simp only: b concat_snoc_last [OF pack_ne] pack_concat)
  have "length c \<le> 9" if "c \<in> set (map body_of ts)" for c
    using that pack_small [of _ ixs] pack_ne [of ixs] unfolding b
    by (fastforce dest: in_set_butlastD)
  then show "(\<exists>plan. concat (map body_of ts) = ixs @ [revoke_ix E owner plan])
        \<and> list_all budgeted ts \<and> list_all (\<lambda>t. length (body_of t) \<le> 9) ts"
    using cat bud by (auto simp: list_all_iff)
qed

subsection \<open>Too large to send\<close>

definition wd :: "env \<Rightarrow> pubkey \<Rightarrow> pubkey \<Rightarrow> pubkey \<times> pubkey \<times> pubkey \<times> int \<Rightarrow> instruction" where
  "wd E owner tp x = (case x of (mint, src, dst, amt) \<Rightarrow> withdraw_token_ix E owner mint amt src dst tp)"

lemma wd_size: "ix_size E (wd E owner tp x) = 26"
  by (cases x) (simp add: wd_def withdraw_token_ix_def Let_def ix_size_def compact_len_def)

lemma sum_wd: "sum_list (map (ix_size E) (map (wd E owner tp) xs)) = 26 * length xs"
  by (induction xs) (simp_all add: wd_size)

lemma batch_wire_size:
  assumes t: "body_of t = map (wd E owner tp) xs @ [revoke_ix E owner plan]" "budgeted t"
    and n: "length xs = 8"
    and d: "distinct ([owner, getVaultPDA E owner, getHeartbeatPDA E (getVaultPDA E owner), program_id E,
        compute_budget_program E, tp] @ concat (map (\<lambda>(m, s, d, n). [m, s, d]) xs))"
  shows "PACKET_DATA_SIZE < wire_size E owner t"
proof -
  let ?ks = "[owner, getVaultPDA E owner, getHeartbeatPDA E (getVaultPDA E owner), program_id E,
        compute_budget_program E, tp] @ concat (map (\<lambda>(m, s, d, n). [m, s, d]) xs)"
  obtain cu fee where t': "t = SetComputeUnitLimit cu # SetComputeUnitPrice fee # map (wd E owner tp) xs @ [revoke_ix E owner plan]"
    using t by (auto simp: budgeted_def body_of_def)
  have "length (concat (map (\<lambda>(m, s, d, n). [m, s, d]) xs)) = 3 * length xs" by (induction xs) auto
  then have "length ?ks = 30" using n by simp
  then have "card (set ?ks) = 30" using distinct_card [OF d] by simp
  moreover have "set ?ks \<subseteq> tx_keys E owner t"
    using n by (cases xs) (auto simp: t' tx_keys_def wd_def withdraw_token_ix_def Let_def)
  moreover have "finite (tx_keys E owner t)" by (simp add: tx_keys_def)
  ultimately have k: "30 \<le> card (tx_keys E owner t)" by (metis card_mono)
  have b: "228 \<le> sum_list (map (ix_size E) t)"
    using n by (simp add: t' sum_wd [simplified] ix_size_def [of E "SetComputeUnitLimit _"]
        ix_size_def [of E "SetComputeUnitPrice _"] compact_len_def)
  have c: "1 \<le> compact_len j" for j by (simp add: compact_len_def)
  show ?thesis
    using k b c [of "card (tx_keys E owner t)"] c [of "length t"]
    unfolding wire_size_def Let_def PACKET_DATA_SIZE_def by linarith
qed

text \<open>
  eight withdrawals do not fit: for a vault holding eight tokens whose owner accounts exist
  (so nothing but the eight withdrawals is built), all keys distinct, the packing of the revoke
  always produces a transaction larger than the 1232 byte packet, although the packing constant
  is documented as eight instructions fitting one transaction.
\<close>

theorem eight_withdrawals_overflow:
  assumes "length xs = 8"
    and "distinct ([owner, getVaultPDA E owner, getHeartbeatPDA E (getVaultPDA E owner), program_id E,
        compute_budget_program E, tp] @ concat (map (\<lambda>(m, s, d, n). [m, s, d]) xs))"
  shows "\<exists>ts w'. buildBatchedTxs E R owner (map (wd E owner tp) xs) True w = (Inr ts, w')
    \<and> (\<exists>t\<in>set ts. PACKET_DATA_SIZE < wire_size E owner t)"
proof (rule returns_yields [OF returns_buildBatchedTxs yields_mono [OF yields_revoke_batches]])
  let ?ixs = "map (wd E owner tp) xs"
  fix ts assume "\<exists>plan. map body_of ts = butlast (pack_chunks ?ixs True) @ [last (pack_chunks ?ixs True) @ [revoke_ix E owner plan]]
      \<and> list_all budgeted ts"
  then obtain plan where b: "map body_of ts = butlast (pack_chunks ?ixs True) @ [last (pack_chunks ?ixs True) @ [revoke_ix E owner plan]]"
    and bud: "list_all budgeted ts" by blast
  have "groups 8 ?ixs = [?ixs]" using assms(1) by (subst groups.simps) auto
  then have "pack_chunks ?ixs True = [?ixs]" using assms(1) by (auto simp: pack_chunks_eq)
  then have "map body_of ts = [?ixs @ [revoke_ix E owner plan]]" using b by simp
  then obtain t where "ts = [t]" "body_of t = ?ixs @ [revoke_ix E owner plan]" by (cases ts) auto
  then show "\<exists>t\<in>set ts. PACKET_DATA_SIZE < wire_size E owner t"
    using batch_wire_size [OF _ _ assms] bud by auto
qed

definition ex_env :: env where
  "ex_env = \<lparr>program_id = [100], pda = (\<lambda>ss. 101 # concat ss), ata = (\<lambda>m ow c tp. Inr (102 # m @ ow)),
     b58 = map (\<lambda>b. char_of (unat b)), new_bn = Inr, system_program = [103], token_program = [104],
     token_2022_program = [105], ata_program = [107], compute_budget_program = [108], fee_wallet = [106]\<rparr>"

text \<open>Eight withdrawals of mints 1 to 8, from the vault's accounts to the owner's.\<close>

definition ex_eight :: "(pubkey \<times> pubkey \<times> pubkey \<times> int) list" where
  "ex_eight = map (\<lambda>i. ([i], [10, i], [20, i], 1000)) [1, 2, 3, 4, 5, 6, 7, 8]"

theorem eight_withdrawals_overflow_witness:
  "\<exists>ts w'. buildBatchedTxs ex_env (rpc_of ex_env \<lparr>ch_info = \<lambda>_. None, ch_tokens = \<lambda>_ _. [], ch_balance = \<lambda>_. None,
        ch_rent = \<lambda>_. 0, ch_token_account = \<lambda>_. None, ch_mint = \<lambda>_. None\<rparr>) [50]
        (map (wd ex_env [50] [104]) ex_eight) True () = (Inr ts, w')
    \<and> (\<exists>t\<in>set ts. PACKET_DATA_SIZE < wire_size ex_env [50] t)"
  by (rule eight_withdrawals_overflow)
    (simp_all add: ex_eight_def ex_env_def getVaultPDA_def getHeartbeatPDA_def seed_def)

subsection \<open>The withdrawals\<close>

definition bn_exact :: "env \<Rightarrow> bool" where
  "bn_exact E \<longleftrightarrow> (\<forall>n m. new_bn E n = Inr m \<longrightarrow> m = n)"

definition prog_methods :: "instruction list \<Rightarrow> prog_method list" where
  "prog_methods ixs = List.map_filter (\<lambda>ix. case ix of ProgIx m _ _ \<Rightarrow> Some m | _ \<Rightarrow> None) ixs"

lemma prog_methods_simps [simp]:
  "prog_methods [] = []" "prog_methods (ProgIx m a r # ixs) = m # prog_methods ixs"
  "prog_methods (CreateAtaIdempotent p x q y z # ixs) = prog_methods ixs"
  "prog_methods (HarvestWithheldTokensToMint x hs z # ixs) = prog_methods ixs"
  "prog_methods (SetComputeUnitLimit n # ixs) = prog_methods ixs"
  "prog_methods (SetComputeUnitPrice n # ixs) = prog_methods ixs"
  "prog_methods (ixs @ ixs2) = prog_methods ixs @ prog_methods ixs2"
  by (simp_all add: prog_methods_def map_filter_def)

definition withdraw_methods :: "env \<Rightarrow> chain \<Rightarrow> pubkey \<Rightarrow> prog_method list" where
  "withdraw_methods E C owner =
     (let v = getVaultPDA E owner in
      map (\<lambda>t. WithdrawFromVault (pt_amount t)) (tokens_at E C v)
      @ (case ch_info C v of None \<Rightarrow> []
         | Some i \<Rightarrow> let sol = acc_lamports i - ch_rent C (length (acc_data i))
                    in if sol > 0 then [WithdrawSolFromVault sol] else []))"

lemma yields_withdraw_methods_loop:
  "yields (forE ts (ixs, k) (\<lambda>token (instructions, assetCount).
        bindE (getTokenProgramForMint E R (pt_mint token)) (\<lambda>tokenProgram.
        bindE (ataFor E (pt_mint token) owner False tokenProgram) (\<lambda>ownerAta.
        bindE (ataFor E (pt_mint token) v True tokenProgram) (\<lambda>vaultAta.
        bindE (tryE (bindE (getAccount R ownerAta tokenProgram) (\<lambda>_. ret []))
                 (\<lambda>_. ret [CreateAtaIdempotent owner ownerAta owner (pt_mint token) tokenProgram])) (\<lambda>create.
        ret (instructions @ create
               @ [withdraw_token_ix E owner (pt_mint token) (pt_amount token) vaultAta ownerAta tokenProgram],
             assetCount + 1)))))))
     (\<lambda>(ixs', n). prog_methods ixs' = prog_methods ixs @ map (\<lambda>t. WithdrawFromVault (pt_amount t)) ts
        \<and> n = k + length ts)"
proof (induction ts arbitrary: ixs k)
  case (Cons t ts)
  show ?case
    unfolding forE.simps prod.case bindE_assoc bindE_ret
    by (rule yields_bindE_any, rule yields_bindE_any, rule yields_bindE_any,
        rule yields_bindE [OF yields_create_or_not [where P = "\<lambda>c. prog_methods c = []"]],
        simp, simp, rule yields_mono [OF Cons.IH]) (auto simp: withdraw_token_ix_def Let_def)
qed (simp add: yields_ret)

text \<open>
  a revoke withdraws everything and nothing else: against a chain state that the RPC reports
  truthfully, the built program instructions are exactly one withdrawal per positive token balance,
  for its full raw amount and in order, then the lamports above the rent minimum when there are
  any; the reported asset count is their number.
\<close>

theorem withdraw_all_exact:
  assumes "answers E R C" "bn_exact E"
  shows "yields (buildWithdrawAllInstructions E R owner)
    (\<lambda>(ixs, n). prog_methods ixs = withdraw_methods E C owner \<and> n = length (withdraw_methods E C owner))"
proof -
  let ?v = "getVaultPDA E owner"
  let ?tok = "map (\<lambda>t. WithdrawFromVault (pt_amount t)) (tokens_at E C ?v)"
  have rent: "yields (getMinimumBalanceForRentExemption R n) (\<lambda>r. r = ch_rent C n)" for n
    using assms(1) by (simp add: answers_def)
  have bn: "yields (liftE (new_bn E n)) (\<lambda>b. b = n)" for n
    using assms(2) by (auto simp: yields_def liftE_apply bn_exact_def)
  have tail: "yields (bindE (getAccountInfo R ?v) (\<lambda>vaultInfo.
      case vaultInfo of
        None \<Rightarrow> ret (ixs, k)
      | Some i \<Rightarrow>
          bindE (getMinimumBalanceForRentExemption R (length (acc_data i))) (\<lambda>rent.
          let availableSol = acc_lamports i - rent in
          if availableSol > 0 then
            bindE (liftE (new_bn E availableSol)) (\<lambda>bn. ret (ixs @ [withdraw_sol_ix E owner bn], k + 1))
          else ret (ixs, k))))
     (\<lambda>(ixs, n). prog_methods ixs = withdraw_methods E C owner \<and> n = length (withdraw_methods E C owner))"
    if "prog_methods ixs = ?tok" "k = length (tokens_at E C ?v)" for ixs k
  proof (rule yields_bindE [OF yields_info [OF assms(1)]], goal_cases)
    case (1 i)
    show ?case
    proof (cases "ch_info C ?v")
      case None
      then show ?thesis using 1 that by (simp add: yields_ret withdraw_methods_def Let_def)
    next
      case (Some a)
      show ?thesis
        unfolding 1 Some option.case Let_def
        by (rule yields_bindE [OF rent], intro yields_if yields_bindE [OF bn] yields_ret)
          (use Some that in \<open>auto simp: withdraw_methods_def Let_def withdraw_sol_ix_def\<close>)
    qed
  qed
  show ?thesis
    unfolding buildWithdrawAllInstructions_def Let_def
    by (rule yields_bindE [OF yields_balances [OF assms(1)]], rule yields_bindE [OF yields_withdraw_methods_loop])
      (use tail in \<open>auto simp: Let_def\<close>)
qed

text \<open>A chain with one token in the vault of the owner \<open>[50]\<close>, and lamports above the rent.\<close>

definition ex_vault_key :: pubkey where
  "ex_vault_key = getVaultPDA ex_env [50]"

definition ex_chain :: chain where
  "ex_chain =
     \<lparr>ch_info = (\<lambda>k. if k = ex_vault_key then Some \<lparr>acc_owner = [100], acc_data = [1, 2, 3], acc_lamports = 910\<rparr>
                     else None),
      ch_tokens = (\<lambda>k p. if p = [104] then [None, Some \<lparr>pt_mint = [1], pt_amount = 700, pt_decimals = 0, pt_ui = ''700''\<rparr>,
                     Some \<lparr>pt_mint = [2], pt_amount = 0, pt_decimals = 0, pt_ui = ''0''\<rparr>] else []),
      ch_balance = (\<lambda>_. None), ch_rent = (\<lambda>n. 900), ch_token_account = (\<lambda>_. None), ch_mint = (\<lambda>_. None)\<rparr>"

lemma bn_exact_ex: "bn_exact ex_env"
  by (simp add: bn_exact_def ex_env_def)

theorem withdraw_all_exact_witness:
  "\<exists>ixs n w'. buildWithdrawAllInstructions ex_env (rpc_of ex_env ex_chain) [50] () = (Inr (ixs, n), w')
     \<and> prog_methods ixs = [WithdrawFromVault 700, WithdrawSolFromVault 10] \<and> n = 2"
proof -
  have toks: "tokens_at ex_env ex_chain ex_vault_key
      = [\<lparr>pt_mint = [1], pt_amount = 700, pt_decimals = 0, pt_ui = ''700''\<rparr>]"
    by (simp add: tokens_at_def keep_balances_def ex_chain_def ex_env_def map_filter_def)
  have ms: "withdraw_methods ex_env ex_chain [50] = [WithdrawFromVault 700, WithdrawSolFromVault 10]"
    using toks by (simp add: withdraw_methods_def Let_def ex_vault_key_def) (simp add: ex_chain_def ex_vault_key_def)
  have "\<exists>r w'. buildWithdrawAllInstructions ex_env (rpc_of ex_env ex_chain) [50] () = (Inr r, w')"
    by (simp add: buildWithdrawAllInstructions_def Let_def getVaultTokenBalances_def rpc_of_def keep_balances_def
        map_filter_def ex_chain_def ex_env_def getTokenProgramForMint_def ataFor_def bindE_def ret_apply liftE_apply
        tryE_def throw_apply ex_vault_key_def split: prod.splits)
  then obtain r w' where run: "buildWithdrawAllInstructions ex_env (rpc_of ex_env ex_chain) [50] () = (Inr r, w')"
    by blast
  obtain ixs n where r: "r = (ixs, n)" by (cases r)
  from yieldsD [OF withdraw_all_exact [OF rpc_of_answers [of ex_env ex_chain] bn_exact_ex, of "[50]"] run [unfolded r]]
  show ?thesis using run r ms by auto
qed

subsection \<open>The deposit check\<close>

text \<open>
  the deposit check fails open and blocks only for a stated reason: it never throws, and when
  it refuses a mint, that mint is a Token-2022 mint of the chain which is non-transferable, frozen
  by default, has a live transfer hook or is paused; every refusal carries a reason and every
  acceptance none.
\<close>

theorem deposit_check_sound:
  assumes "answers E R C"
  shows "\<exists>r w'. checkDepositable E R mint w = (Inr r, w')
    \<and> (\<not> dc_ok r \<longrightarrow> (\<exists>mi. ch_mint C mint = Some mi \<and> token_program_at E C mint \<noteq> token_program E
          \<and> (mi_nonTransferable mi \<or> mi_defaultState mi = Some Frozen \<or> live_key (mi_hook mi)
             \<or> mi_paused mi = Some True)))
    \<and> (dc_reason r = None \<longleftrightarrow> dc_ok r)"
proof (rule returns_yields)
  show "returns (checkDepositable E R mint)" unfolding checkDepositable_def by (intro returns_intro)
  have mint: "yields (getMint R k p) (\<lambda>m. ch_mint C k = Some m)" for k p
    using assms by (simp add: answers_def)
  show "yields (checkDepositable E R mint) (\<lambda>r. (\<not> dc_ok r \<longrightarrow> (\<exists>mi. ch_mint C mint = Some mi \<and> token_program_at E C mint \<noteq> token_program E
          \<and> (mi_nonTransferable mi \<or> mi_defaultState mi = Some Frozen \<or> live_key (mi_hook mi)
             \<or> mi_paused mi = Some True))) \<and> (dc_reason r = None \<longleftrightarrow> dc_ok r))"
    unfolding checkDepositable_def
    by (intro yields_tryE yields_bindE [OF yields_tokenProgram [OF assms]] yields_if yields_bindE [OF mint] yields_ret)
      (auto simp: depositable_def dc_fine_def dc_blocked_def dc_warn_def Let_def)
qed

definition ex_paused :: chain where
  "ex_paused = ex_chain
     \<lparr>ch_info := (\<lambda>k. Some \<lparr>acc_owner = [105], acc_data = [], acc_lamports = 0\<rparr>),
      ch_mint := (\<lambda>k. Some \<lparr>mi_decimals = 6, mi_freezeAuthority = None, mi_nonTransferable = False,
        mi_defaultState = None, mi_hook = Some default_pubkey, mi_paused = Some True,
        mi_permanentDelegate = None, mi_feeBps = Some 250\<rparr>)\<rparr>"

theorem deposit_check_sound_witness:
  "checkDepositable ex_env (rpc_of ex_env ex_paused) [1] ()
     = (Inr (dc_blocked ''This token is currently paused by the issuer''), ())
    \<and> dc_reason (dc_blocked ''This token is currently paused by the issuer'') \<noteq> None"
proof -
  have run: "checkDepositable ex_env (rpc_of ex_env ex_paused) [1] ()
     = (Inr (dc_blocked ''This token is currently paused by the issuer''), ())"
    by (simp add: checkDepositable_def getTokenProgramForMint_def rpc_of_def ex_paused_def ex_env_def tryE_def
        bindE_def ret_apply depositable_def live_key_def)
  show ?thesis
    using deposit_check_sound [OF rpc_of_answers [of ex_env ex_paused], of "[1]" "()"] run
    by (simp add: dc_blocked_def)
qed

end
