(* ===== verification/Web_Bequest_Props.thy ===== *)
theory Web_Bequest_Props
  imports Web_Share_Props Revoke_Tx
begin

text \<open>
  The bequest editor: the assignments it lets through are accepted by \<open>set_asset_plan\<close>; a plan that is
  opened and saved untouched is submitted unchanged as long as its amounts stay below \<open>2 ^ 51\<close> base
  units and the editor takes the same view of what is an NFT, and is changed otherwise.
\<close>

subsection \<open>What is saved\<close>

definition fair_bequest :: "(pubkey \<Rightarrow> bool) \<Rightarrow> nat \<Rightarrow> asset_assignment \<Rightarrow> bool" where
  "fair_bequest live n a \<longleftrightarrow> aa_benef a < n \<and> (if aa_mint a = default_pubkey then \<not> aa_nft a else live (aa_mint a)) \<and> 0 < raw_of (aa_amount a)"

definition fair_bequests :: "'w web_deps \<Rightarrow> (pubkey \<Rightarrow> bool) \<Rightarrow> nat \<Rightarrow> string set \<Rightarrow> asset_assignment list \<Rightarrow> bool" where
  "fair_bequests D live n nfts as \<longleftrightarrow>
     list_all (fair_bequest live n) as \<and> distinct (map aa_mint (filter aa_nft as))
     \<and> (\<forall>a \<in> set as. aa_nft a \<longrightarrow> b58 (wd_env D) (aa_mint a) \<notin> nfts)"

lemma opt_by_keyD: "opt_by_key opts k = Some o' \<Longrightarrow> o' \<in> set opts \<and> ao_key o' = k"
  unfolding opt_by_key_def find_Some_iff by (metis nth_mem set_rev)

lemma js_round_pos: "\<not> d_le (js_round x) (Fin 0) \<Longrightarrow> js_round x = Fin q \<Longrightarrow> 0 < \<lfloor>q\<rfloor>"
  by (cases x) auto

lemma yields_liftE: "(\<And>a. r = Inr a \<Longrightarrow> P a) \<Longrightarrow> yields (liftE r) P"
  by (simp add: yields_def liftE_apply)

lemma yields_bn_of_dbl:
  assumes "bn_exact E" "\<not> d_le (js_round x) (Fin 0)"
  shows "yields (bn_of_dbl E (js_round x)) (\<lambda>b. 0 < b)"
proof (cases "js_round x")
  case (Fin q)
  have "0 < \<lfloor>q\<rfloor>" by (rule js_round_pos [OF assms(2) Fin])
  moreover have "a = \<lfloor>q\<rfloor>" if "new_bn E \<lfloor>q\<rfloor> = Inr a" for a using assms(1) that unfolding bn_exact_def by blast
  ultimately show ?thesis unfolding bn_of_dbl_def Fin dbl.case by (intro yields_liftE) (metis)
qed (simp_all add: bn_of_dbl_def yields_throw)

lemma fair_rest:
  assumes "yields m (\<lambda>c. case c of Inl e \<Rightarrow> True | Inr as \<Rightarrow> fair_bequests D live n nfts' as)" "fair_bequest live n a" "nfts \<subseteq> nfts'"
    "aa_nft a \<Longrightarrow> b58 (wd_env D) (aa_mint a) \<notin> nfts \<and> b58 (wd_env D) (aa_mint a) \<in> nfts'"
  shows "yields (bindE m (\<lambda>x. ret (case x of Inl e \<Rightarrow> Inl e | Inr as \<Rightarrow> Inr (a # as))))
    (\<lambda>c. case c of Inl e \<Rightarrow> True | Inr as \<Rightarrow> fair_bequests D live n nfts as)"
  by (rule yields_bindE [OF assms(1)], rule yields_ret)
    (use assms(2-4) in \<open>fastforce simp: fair_bequests_def split: sum.splits\<close>)

lemma check_bequests_fair:
  assumes "key_text D" "bn_exact (wd_env D)" "\<And>k o'. opt k = Some o' \<Longrightarrow> ao_key o' \<noteq> b58 (wd_env D) default_pubkey"
    and live: "\<And>k o' m. opt k = Some o' \<Longrightarrow> ao_key o' \<noteq> ''SOL'' \<Longrightarrow> wd_newKey D (ao_key o') = Inr m \<Longrightarrow> live m"
  shows "yields (check_bequests D opt n nfts rows) (\<lambda>c. case c of Inl e \<Rightarrow> True | Inr as \<Rightarrow> fair_bequests D live n nfts as)"
proof (induction rows arbitrary: nfts)
  case (Cons r rows)
  let ?P = "\<lambda>nfts c. case c of Inl e \<Rightarrow> True | Inr as \<Rightarrow> fair_bequests D live n nfts as"
  show ?case
  proof (cases "opt (br_asset r)")
    case (Some o')
    have nd: "ao_key o' \<noteq> b58 (wd_env D) default_pubkey" by (rule assms(3) [OF Some])
    have key: "yields (liftE (wd_newKey D (ao_key o'))) (\<lambda>m. b58 (wd_env D) m = ao_key o' \<and> m \<noteq> default_pubkey \<and> (ao_key o' \<noteq> ''SOL'' \<longrightarrow> live m))"
      by (rule yields_liftE) (use assms(1) nd live [OF Some] in \<open>auto simp: key_text_def\<close>)
    show ?thesis
    proof (cases "br_ben r < 0 \<or> int n \<le> br_ben r")
      case ben: False
      then have b: "nat (br_ben r) < n" by linarith
      show ?thesis
        unfolding check_bequests.simps Let_def Some option.case if_not_P [OF ben]
        by (intro yields_if yields_ret yields_bindE [OF yields_bn_of_dbl [OF assms(2)]] yields_bindE [OF key] fair_rest [OF Cons.IH]
            yields_bindE [where P = "\<lambda>_. True"])
          (use b in \<open>auto simp: fair_bequest_def raw_of_def\<close>)
    qed (simp add: Some yields_ret)
  qed (simp add: yields_ret)
qed (simp add: yields_ret fair_bequests_def)

lemma yields_assertPlanFits: "yields (assertPlanFits E as) (\<lambda>_. length as \<le> 20)"
  unfolding assertPlanFits_def by (intro yields_if yields_throw yields_ret) linarith

definition plan_builder :: "env \<Rightarrow> 'w rpc \<Rightarrow> pubkey \<Rightarrow> bool \<Rightarrow> asset_assignment list \<Rightarrow> ('w, tx) io" where
  "plan_builder E R owner hasPlan as = (if hasPlan then buildUpdateAssetPlanTx E R owner as else buildSetAssetPlanTx E R owner as)"

lemma saveBequests_builder: "saveBequests D k as hasPlan = run_action D k ''Saving bequests'' (\<lambda>o'. plan_builder (wd_env D) (wd_rpc D) o' hasPlan as)"
  by (simp add: saveBequests_def plan_builder_def)

text \<open>What is sent to the program for a list, and the transaction that carries it.\<close>

definition chain_of :: "asset_assignment \<Rightarrow> chain_assignment" where
  "chain_of a = \<lparr>ca_mint = aa_mint a, ca_amount = raw_of (aa_amount a), ca_benef = aa_benef a, ca_nft = aa_nft a\<rparr>"

definition carries_plan :: "bool \<Rightarrow> chain_assignment list \<Rightarrow> meta list \<Rightarrow> tx \<Rightarrow> bool" where
  "carries_plan hasPlan cs remaining t \<longleftrightarrow>
     (\<exists>accounts. ProgIx (if hasPlan then UpdateAssetPlan cs else SetAssetPlan cs) accounts remaining \<in> set t)"

lemma yields_to_chain: "bn_exact E \<Longrightarrow> yields (to_chain_all E as) (\<lambda>cs. cs = map chain_of as)"
proof -
  assume e: "bn_exact E"
  have "yields (forE as out (\<lambda>a out. bindE (toOnChainAssignment E a) (\<lambda>c. ret (out @ [c])))) (\<lambda>cs. cs = out @ map chain_of as)" for out
  proof (induction as arbitrary: out)
    case (Cons a as)
    have "yields (case aa_amount a of IsBN n \<Rightarrow> ret n | IsNumber n \<Rightarrow> liftE (new_bn E n)) (\<lambda>n. n = raw_of (aa_amount a))"
      using e by (auto simp: raw_of_def bn_exact_def intro: yields_ret yields_liftE split: bn_or_number.split)
    then have "yields (toOnChainAssignment E a) (\<lambda>c. c = chain_of a)"
      unfolding toOnChainAssignment_def by (rule yields_bindE) (simp add: yields_ret chain_of_def)
    then have "yields (bindE (toOnChainAssignment E a) (\<lambda>c. ret (out @ [c]))) (\<lambda>out'. out' = out @ [chain_of a])"
      by (rule yields_bindE) (simp add: yields_ret)
    then show ?case unfolding forE.simps
      by (rule yields_bindE) (rule yields_mono [OF Cons.IH], simp)
  qed (simp add: yields_ret)
  from this [of "[]"] show ?thesis by (simp add: to_chain_all_def)
qed

lemma yields_fee: "yields (addPriorityFee E R t keys cu) (\<lambda>t'. set t \<subseteq> set t')"
  unfolding addPriorityFee_def by (intro yields_bindE_any yields_ret) auto

lemma yields_plan_builder:
  assumes "bn_exact E"
  shows "yields (plan_builder E R owner hasPlan as) (\<lambda>t. length as \<le> 20 \<and> carries_plan hasPlan (map chain_of as) (planMintRemaining E as) t)"
  unfolding plan_builder_def buildUpdateAssetPlanTx_def buildSetAssetPlanTx_def Let_def
  by (intro yields_if yields_bindE [OF yields_assertPlanFits] yields_bindE [OF yields_to_chain [OF assms]] yields_mono [OF yields_fee])
    (auto simp: carries_plan_def)

lemma plan_mints_covered:
  assumes "key_text D" "a \<in> set as" "aa_mint a \<noteq> default_pubkey" "b58 (wd_env D) (aa_mint a) \<notin> seen"
  shows "aa_mint a \<in> mt_key ` set (plan_mint_loop (wd_env D) seen as)"
  using assms(2-4)
proof (induction as arbitrary: seen)
  case (Cons x as)
  show ?case
  proof (cases "aa_mint x = aa_mint a")
    case False
    then have "b58 (wd_env D) (aa_mint x) \<noteq> b58 (wd_env D) (aa_mint a)" using key_text_inj [OF assms(1)] by blast
    then show ?thesis using Cons False by (auto simp: Let_def)
  qed (use Cons.prems in \<open>simp add: Let_def\<close>)
qed simp

lemma fair_accepted:
  assumes "key_text D" "fair_bequests D live n {} as" "length as \<le> 20"
  shows "plan_accepted live (map chain_of as) n (map mt_key (planMintRemaining (wd_env D) as)) \<and> list_all (\<lambda>c. 0 < ca_amount c) (map chain_of as)"
proof -
  have "map ca_mint (filter ca_nft (map chain_of as)) = map aa_mint (filter aa_nft as)" by (induction as) (simp_all add: chain_of_def)
  then have "validate_assignments (map chain_of as) n"
    using assms(2,3) by (auto simp: validate_assignments_def MAX_ASSIGNMENTS_def fair_bequests_def fair_bequest_def list_all_iff chain_of_def)
  moreover have "validate_plan_mints live (map chain_of as) (map mt_key (planMintRemaining (wd_env D) as))"
    using assms(2) plan_mints_covered [OF assms(1), of _ as "{}"]
    by (fastforce simp: validate_plan_mints_def planMintRemaining_def fair_bequests_def fair_bequest_def list_all_iff chain_of_def)
  ultimately show ?thesis using assms(2) by (auto simp: plan_accepted_def fair_bequests_def fair_bequest_def list_all_iff chain_of_def)
qed

text \<open>The checks of the editor and then the transaction for what they let through.\<close>

definition checked_plan ::
  "'w web_deps \<Rightarrow> vault_view \<Rightarrow> asset_opt list \<Rightarrow> bequest_row list \<Rightarrow> pubkey \<Rightarrow> ('w, (asset_assignment list \<times> tx) option) io" where
  "checked_plan D v extra rows owner =
     bindE (checked_bequests D v extra rows) (\<lambda>c.
     case c of
       Inl e \<Rightarrow> ret None
     | Inr as \<Rightarrow> bindE (plan_builder (wd_env D) (wd_rpc D) owner (vv_hasAssetPlan v) as) (\<lambda>t. ret (Some (as, t))))"

text \<open>
  C19: A bequest list that the web editor lets through and for which a transaction is built is accepted by
  \<open>set_asset_plan\<close> and \<open>update_asset_plan\<close>, as long as the tokens the editor offers still exist: the
  transaction carries exactly the checked list, every index names a beneficiary, a SOL bequest is positive
  and no NFT, no NFT is given twice, the list is short enough, and every mint of the list is among the
  accounts the transaction passes for the program's mint check; every amount is positive.
\<close>

theorem web_bequests_accepted:
  assumes "key_text D" "bn_exact (wd_env D)"
    "b58 (wd_env D) default_pubkey \<notin> vt_mint ` set (vv_tokens v) \<union> ao_key ` set extra \<union> {''SOL''}"
    "\<And>o' m. o' \<in> set (asset_opts v extra) \<Longrightarrow> ao_key o' \<noteq> ''SOL'' \<Longrightarrow> wd_newKey D (ao_key o') = Inr m \<Longrightarrow> live m"
  shows "yields (checked_plan D v extra rows owner)
    (\<lambda>r. case r of
       None \<Rightarrow> True
     | Some (as, t) \<Rightarrow> \<exists>cs remaining. carries_plan (vv_hasAssetPlan v) cs remaining t \<and> cs = map chain_of as
         \<and> plan_accepted live cs (length (vv_beneficiaries v)) (map mt_key remaining) \<and> list_all (\<lambda>c. 0 < ca_amount c) cs)"
proof -
  have opt: "ao_key o' \<noteq> b58 (wd_env D) default_pubkey" if "opt_by_key (asset_opts v extra) k = Some o'" for k o'
    using assms(3) opt_by_keyD [OF that] by (fastforce simp: asset_opts_def sol_opt_def image_iff)
  have mints: "live m" if "opt_by_key (asset_opts v extra) k = Some o'" "ao_key o' \<noteq> ''SOL''" "wd_newKey D (ao_key o') = Inr m" for k o' m
    using assms(4) opt_by_keyD [OF that(1)] that(2,3) by blast
  have c: "yields (checked_bequests D v extra rows)
      (\<lambda>c. case c of Inl e \<Rightarrow> True | Inr as \<Rightarrow> fair_bequests D live (length (vv_beneficiaries v)) {} as)"
    unfolding checked_bequests_def by (intro yields_if yields_ret check_bequests_fair [OF assms(1,2) opt mints]) auto
  show ?thesis unfolding checked_plan_def
  proof (rule yields_bindE [OF c])
    fix c
    assume f: "case c of Inl e \<Rightarrow> True | Inr as \<Rightarrow> fair_bequests D live (length (vv_beneficiaries v)) {} as"
    show "yields (case c of Inl e \<Rightarrow> ret None | Inr as \<Rightarrow> bindE (plan_builder (wd_env D) (wd_rpc D) owner (vv_hasAssetPlan v) as) (\<lambda>t. ret (Some (as, t))))
      (\<lambda>r. case r of None \<Rightarrow> True
       | Some (as, t) \<Rightarrow> \<exists>cs remaining. carries_plan (vv_hasAssetPlan v) cs remaining t \<and> cs = map chain_of as
         \<and> plan_accepted live cs (length (vv_beneficiaries v)) (map mt_key remaining) \<and> list_all (\<lambda>c. 0 < ca_amount c) cs)"
    proof (cases c)
      case (Inr as)
      then have "fair_bequests D live (length (vv_beneficiaries v)) {} as" using f by simp
      from fair_accepted [OF assms(1) this] show ?thesis unfolding Inr sum.case
        by (intro yields_bindE [OF yields_plan_builder [OF assms(2)]] yields_ret) auto
    qed (simp add: yields_ret)
  qed
qed

subsection \<open>Opening and saving\<close>

definition as_submitted :: "assignment \<Rightarrow> asset_assignment" where
  "as_submitted a = \<lparr>aa_mint = a_mint a, aa_amount = IsBN (int (a_amount a)), aa_benef = beneficiaryIndex a, aa_nft = isNft a\<rparr>"

definition shown :: "vault_view \<Rightarrow> asset_opt list \<Rightarrow> string \<Rightarrow> assignment \<Rightarrow> dbl" where
  "shown v extra k a =
     (if a_mint a = default_pubkey then ddiv (dbl_of (of_nat (a_amount a))) (Fin 1000000000)
      else ddiv (dbl_of (of_nat (a_amount a))) (pow10 (dec_by_mint v extra k)))"

text \<open>
  An assignment the editor represents exactly: a beneficiary that exists, an amount below \<open>2 ^ 51\<close> whose
  text reads back, an option that agrees on whether the asset is an NFT, and then one of it.
\<close>

definition editable :: "'w web_deps \<Rightarrow> vault_view \<Rightarrow> asset_opt list \<Rightarrow> assignment \<Rightarrow> bool" where
  "editable D v extra a \<longleftrightarrow>
     (let k = b58 (wd_env D) (a_mint a) in
      beneficiaryIndex a < length (vv_beneficiaries v) \<and> 0 < a_amount a \<and> a_amount a < 2 ^ 51
      \<and> (if isNft a then a_amount a = 1 else prints D (shown v extra k a))
      \<and> (if a_mint a = default_pubkey then \<not> isNft a \<and> new_bn (wd_env D) (int (a_amount a)) = Inr (int (a_amount a))
         else k \<noteq> ''SOL'' \<and> (case opt_by_key (asset_opts v extra) k of
           None \<Rightarrow> False | Some o' \<Rightarrow> ao_isNft o' = isNft a \<and> ao_decimals o' \<le> 22)))"

lemma find_append: "find P (xs @ ys) = (case find P xs of None \<Rightarrow> find P ys | Some x \<Rightarrow> Some x)"
  by (induction xs) auto

lemma opt_SOL:
  "''SOL'' \<notin> vt_mint ` set (vv_tokens v) \<union> ao_key ` set extra \<Longrightarrow> opt_by_key (asset_opts v extra) ''SOL'' = Some sol_opt"
proof -
  assume n: "''SOL'' \<notin> vt_mint ` set (vv_tokens v) \<union> ao_key ` set extra"
  have "find (\<lambda>a. ao_key a = ''SOL'') (rev extra) = None" using n by (auto simp: find_None_iff) (metis image_eqI)+
  moreover have "find (\<lambda>a. ao_key a = ''SOL'') (rev (map (\<lambda>t. \<lparr>ao_key = vt_mint t, ao_decimals = vt_decimals t, ao_isNft = vt_isNft t\<rparr>) (vv_tokens v))) = None"
    using n by (auto simp: find_None_iff) (metis image_eqI)+
  ultimately show ?thesis unfolding opt_by_key_def asset_opts_def by (simp add: find_append sol_opt_def)
qed

lemma find_map: "find P (map f xs) = map_option f (find (P \<circ> f) xs)"
  by (induction xs) auto

lemma opt_decimals:
  assumes "opt_by_key (asset_opts v extra) k = Some o'" "k \<noteq> ''SOL''"
  shows "ao_decimals o' = dec_by_mint v extra k"
  using assms unfolding opt_by_key_def asset_opts_def dec_by_mint_def sol_opt_def
  by (auto simp: find_append find_map rev_map comp_def split: option.splits if_splits)

lemma scaled_back:
  assumes "prints D (ddiv (dbl_of (of_nat n)) (pow10 d))" "n < 2 ^ 51" "d \<le> 22"
  shows "js_round (dmul (or_zero (parseFloat (wd_numText D (ddiv (dbl_of (of_nat n)) (pow10 d))))) (pow10 d)) = Fin (of_nat n)"
proof -
  have e: "dbl_of (of_nat n) = Fin (of_int (int n))" using dbl_of_int [of "int n"] assms(2) by simp
  have r: "js_round (dmul (ddiv (Fin (of_int (int n))) (pow10 d)) (pow10 d)) = Fin (of_int (int n))"
    by (rule scale_roundtrip) (use assms(2,3) in auto)
  then have "ddiv (Fin (of_int (int n))) (pow10 d) \<noteq> NotANumber" by auto
  then have "or_zero (ddiv (Fin (of_int (int n))) (pow10 d)) = ddiv (Fin (of_int (int n))) (pow10 d)"
    by (cases "ddiv (Fin (of_int (int n))) (pow10 d)") auto
  then show ?thesis using assms(1) r unfolding prints_def e by simp
qed

lemma bn_of_nat: "new_bn E (int n) = Inr (int n) \<Longrightarrow> bn_of_dbl E (Fin (of_nat n)) = ret (int n)"
  by (rule ext) (simp add: bn_of_dbl_def liftE_apply ret_apply)

lemma check_loaded:
  assumes "key_text D" "''SOL'' \<notin> vt_mint ` set (vv_tokens v) \<union> ao_key ` set extra"
  shows "list_all (editable D v extra) as \<Longrightarrow> distinct (map a_mint (filter isNft as))
    \<Longrightarrow> \<forall>a \<in> set as. isNft a \<longrightarrow> b58 (wd_env D) (a_mint a) \<notin> nfts
    \<Longrightarrow> check_bequests D (opt_by_key (asset_opts v extra)) (length (vv_beneficiaries v)) nfts (map (bequest_row_of D v extra) as)
      = ret (Inr (map as_submitted as))"
proof (induction as arbitrary: nfts)
  case (Cons a as)
  have e: "editable D v extra a" using Cons.prems(1) by simp
  let ?k = "b58 (wd_env D) (a_mint a)"
  have IH: "check_bequests D (opt_by_key (asset_opts v extra)) (length (vv_beneficiaries v)) nfts' (map (bequest_row_of D v extra) as)
      = ret (Inr (map as_submitted as))"
    if "nfts' = (if isNft a then insert ?k nfts else nfts)" for nfts'
  proof (rule Cons.IH)
    show "list_all (editable D v extra) as" "distinct (map a_mint (filter isNft as))" using Cons.prems(1,2) by (auto split: if_splits)
    have "a_mint a' \<noteq> a_mint a" if "isNft a" "a' \<in> set as" "isNft a'" for a'
      using Cons.prems(2) that by (auto simp: image_iff)
    then show "\<forall>a' \<in> set as. isNft a' \<longrightarrow> b58 (wd_env D) (a_mint a') \<notin> nfts'"
      using Cons.prems(3) key_text_inj [OF assms(1)] unfolding that by auto
  qed
  have ben: "\<not> (br_ben (bequest_row_of D v extra a) < 0 \<or> int (length (vv_beneficiaries v)) \<le> br_ben (bequest_row_of D v extra a))"
    using e by (simp add: editable_def bequest_row_of_def Let_def)
  have p9: "pow10 9 = Fin 1000000000" by (simp add: pow10_exact)
  show ?case
  proof (cases "a_mint a = default_pubkey")
    case True
    have s: "js_round (dmul (or_zero (parseFloat (br_amount (bequest_row_of D v extra a)))) (Fin 1000000000)) = Fin (of_nat (a_amount a))"
      using e True scaled_back [of D "a_amount a" 9] unfolding p9 by (auto simp: editable_def Let_def shown_def bequest_row_of_def split: if_splits)
    have b: "new_bn (wd_env D) (int (a_amount a)) = Inr (int (a_amount a))" using e True by (simp add: editable_def Let_def)
    have k: "br_asset (bequest_row_of D v extra a) = ''SOL''" using True by (simp add: bequest_row_of_def)
    have n: "\<not> isNft a" "0 < a_amount a" "br_ben (bequest_row_of D v extra a) = int (beneficiaryIndex a)"
      using e True by (simp_all add: editable_def Let_def bequest_row_of_def)
    show ?thesis using True IH [of nfts] ben s n opt_SOL [OF assms(2)] k
      by (simp add: sol_opt_def as_submitted_def [of a] Let_def bn_of_nat [OF b])
  next
    case False
    obtain o' where o': "opt_by_key (asset_opts v extra) ?k = Some o'" "ao_isNft o' = isNft a" "ao_decimals o' \<le> 22" "?k \<noteq> ''SOL''"
      using e False by (auto simp: editable_def Let_def split: option.splits)
    have key: "ao_key o' = ?k" using opt_by_keyD [OF o'(1)] by simp
    have k: "br_asset (bequest_row_of D v extra a) = ?k" using False by (simp add: bequest_row_of_def Let_def)
    have s: "js_round (dmul (or_zero (parseFloat (br_amount (bequest_row_of D v extra a)))) (pow10 (ao_decimals o'))) = Fin (of_nat (a_amount a))" if "\<not> isNft a"
      using e False that o'(3) scaled_back [of D "a_amount a" "ao_decimals o'"] opt_decimals [OF o'(1,4)]
      by (simp add: editable_def Let_def shown_def bequest_row_of_def)
    have nn: "isNft a \<Longrightarrow> ?k \<notin> nfts" using Cons.prems(3) by simp
    have n: "br_ben (bequest_row_of D v extra a) = int (beneficiaryIndex a)" "isNft a \<Longrightarrow> a_amount a = 1" "0 < a_amount a"
      using e by (auto simp: editable_def Let_def bequest_row_of_def split: if_splits)
    show ?thesis
    proof (cases "isNft a")
      case True
      then show ?thesis using IH [of "insert ?k nfts"] ben o' k key nn n
        by (simp add: as_submitted_def [of a] Let_def liftE_new [OF assms(1)])
    next
      case no: False
      then show ?thesis using IH [of nfts] ben o' k key n s
        by (simp add: as_submitted_def [of a] Let_def liftE_new [OF assms(1)] int_of_dbl_def)
    qed
  qed
qed simp

lemma stored_submitted: "map stored_assignment (map chain_of (map as_submitted as)) = as"
  by (induction as) (simp_all add: stored_assignment_def chain_of_def as_submitted_def raw_of_def)

lemma carried_stored:
  assumes "carries_plan b cs remaining t" "map stored_assignment cs = as"
  shows "\<exists>cs remaining. carries_plan b cs remaining t \<and> (\<forall>stored. assignments (update_asset_plan cs stored) = as)"
  by (intro exI [of _ cs] exI [of _ remaining] conjI allI assms(1)) (simp add: update_asset_plan_def assms(2))

lemma load_stored:
  assumes "wd_newKey D (vv_owner v) = Inr owner" "fetchAssetPlan (wd_env D) (wd_rpc D) owner w = (Inr (Some p), w1)"
    "assignments p \<noteq> []" "extra_opts D v (assignments p) w1 = (Inr extra, w2)"
  shows "load_rows D v w = (Inr (extra, map (bequest_row_of D v extra) (assignments p)), w2)"
  using assms by (simp add: load_rows_def bindE_def tryE_def liftE_apply ret_apply)

text \<open>
  C20: Opening the bequest editor on a stored plan and saving it untouched submits the same plan. When the
  load reads the plan \<open>p\<close> and the decimals of the tokens the vault does not hold, the save
  submits exactly the assignments of \<open>p\<close>, and the transaction built for them leaves exactly these
  assignments stored, every amount to the base unit, although the amounts travel as decimal text and doubles.
  This holds for assignments the editor can represent: a positive amount below \<open>2 ^ 51\<close> whose decimal text
  reads back, of an asset with at most 22 decimals on whose kind (an NFT, and then one of it)
  the editor agrees, for a beneficiary that exists, and no NFT twice.
\<close>

theorem web_plan_roundtrip:
  assumes "key_text D" "bn_exact (wd_env D)" "''SOL'' \<notin> vt_mint ` set (vv_tokens v) \<union> ao_key ` set extra"
    and load: "wd_newKey D (vv_owner v) = Inr owner" "fetchAssetPlan (wd_env D) (wd_rpc D) owner w = (Inr (Some p), w1)"
      "assignments p \<noteq> []" "extra_opts D v (assignments p) w1 = (Inr extra, w2)"
    and plan: "list_all (editable D v extra) (assignments p)" "distinct (map a_mint (filter isNft (assignments p)))"
  shows "bequest_session D k v [] w
      = bindE (saveBequests D k (map as_submitted (assignments p)) (vv_hasAssetPlan v)) (\<lambda>ok. ret (Inr ok)) w2
    \<and> yields (plan_builder (wd_env D) (wd_rpc D) ow (vv_hasAssetPlan v) (map as_submitted (assignments p)))
        (\<lambda>t. \<exists>cs remaining. carries_plan (vv_hasAssetPlan v) cs remaining t
          \<and> (\<forall>stored. assignments (update_asset_plan cs stored) = assignments p))"
proof
  have c: "checked_bequests D v extra (map (bequest_row_of D v extra) (assignments p)) = ret (Inr (map as_submitted (assignments p)))"
    using check_loaded [OF assms(1,3) plan, of "{}"] load(3) by (simp add: checked_bequests_def)
  show "bequest_session D k v [] w
      = bindE (saveBequests D k (map as_submitted (assignments p)) (vv_hasAssetPlan v)) (\<lambda>ok. ret (Inr ok)) w2"
    by (simp add: bequest_session_def save_bequest_rows_def bindE_def [of "load_rows D v"] load_stored [OF load] c)
  show "yields (plan_builder (wd_env D) (wd_rpc D) ow (vv_hasAssetPlan v) (map as_submitted (assignments p)))
        (\<lambda>t. \<exists>cs remaining. carries_plan (vv_hasAssetPlan v) cs remaining t
          \<and> (\<forall>stored. assignments (update_asset_plan cs stored) = assignments p))"
    by (rule yields_mono [OF yields_plan_builder [OF assms(2)]]) (erule conjE, rule carried_stored, assumption, rule stored_submitted)
qed

subsection \<open>Amounts past \<open>2 ^ 53\<close>, and the flag\<close>

definition even_when_large :: "int \<Rightarrow> bool" where
  "even_when_large n \<longleftrightarrow> (2 ^ 53 < n \<longrightarrow> even n)"

lemma scaled_even:
  assumes "js_round (dmul x c) = Fin q"
  shows "even_when_large \<lfloor>q\<rfloor>"
proof -
  obtain v where v: "dmul x c = Fin v" "\<lfloor>q\<rfloor> = \<lfloor>v + 1 / 2\<rfloor>" using assms by (cases "dmul x c") auto
  then obtain a b where d: "dbl_of (a * b) = Fin v" by (cases x; cases c) auto
  have "2 ^ 53 < v" if "2 ^ 53 < \<lfloor>v + 1 / 2\<rfloor>"
  proof -
    have "2 ^ 53 + 1 \<le> \<lfloor>v + 1 / 2\<rfloor>" using that by simp
    then have "of_int (2 ^ 53 + 1) \<le> v + 1 / 2" by (simp only: le_floor_iff)
    then show ?thesis by simp
  qed
  then show ?thesis unfolding even_when_large_def v(2) using dbl_of_even(1) [OF d] by blast
qed

lemma yields_scaled:
  assumes "bn_exact E"
  shows "yields (bn_of_dbl E (js_round (dmul x c))) even_when_large" "yields (int_of_dbl (js_round (dmul x c))) even_when_large"
  using scaled_even [of x c] assms
  by (cases "js_round (dmul x c)"; auto simp: bn_of_dbl_def int_of_dbl_def bn_exact_def yields_def liftE_apply throw_apply ret_apply; fail)+

definition even_amounts :: "bequest_error + asset_assignment list \<Rightarrow> bool" where
  "even_amounts c \<longleftrightarrow> (case c of Inl e \<Rightarrow> True | Inr as \<Rightarrow> list_all (\<lambda>a. even_when_large (raw_of (aa_amount a))) as)"

lemma even_rest:
  assumes "yields m even_amounts" "even_when_large (raw_of (aa_amount a))"
  shows "yields (bindE m (\<lambda>x. ret (case x of Inl e \<Rightarrow> Inl e | Inr as \<Rightarrow> Inr (a # as)))) even_amounts"
  by (rule yields_bindE [OF assms(1)], rule yields_ret) (use assms(2) in \<open>auto simp: even_amounts_def split: sum.splits\<close>)

text \<open>
  C39: The bequest editor of the console cannot hand over an odd amount of base units above \<open>2 ^ 53\<close>,
  whatever is typed: its amounts pass through a double. A stored bequest of such an amount is changed by
  any save, although the token's amount is a \<open>u64\<close>.
\<close>

theorem web_large_amounts_even:
  assumes "bn_exact (wd_env D)"
  shows "yields (checked_bequests D v extra rows) (\<lambda>c. case c of Inl e \<Rightarrow> True
    | Inr as \<Rightarrow> list_all (\<lambda>a. 2 ^ 53 < raw_of (aa_amount a) \<longrightarrow> even (raw_of (aa_amount a))) as)"
proof -
  have "yields (check_bequests D opt n nfts rows) even_amounts" for opt n nfts
  proof (induction rows arbitrary: nfts)
    case (Cons r rows)
    show ?case
    proof (cases "opt (br_asset r)")
      case (Some o')
      show ?thesis
        unfolding check_bequests.simps Let_def Some option.case
        by (intro yields_if yields_bindE [OF yields_scaled(1) [OF assms]] yields_bindE [OF yields_scaled(2) [OF assms]] yields_bindE_any even_rest Cons.IH)
          (auto simp: even_amounts_def raw_of_def even_when_large_def intro: yields_ret)
    qed (simp add: even_amounts_def yields_ret)
  qed (simp add: even_amounts_def yields_ret)
  then have "yields (checked_bequests D v extra rows) even_amounts"
    unfolding checked_bequests_def by (intro yields_if yields_ret) (auto simp: even_amounts_def)
  then show ?thesis by (rule yields_mono) (simp add: even_amounts_def even_when_large_def split: sum.splits)
qed

text \<open>
  When the vault holds one unit of a token without decimals, the editor takes any stored bequest of
  that token for an NFT: saving it untouched replaces its amount by one and flags it as an NFT.
\<close>

theorem web_save_rewrites_as_nft:
  assumes "key_text D" "a_mint a \<noteq> default_pubkey" "b58 (wd_env D) (a_mint a) \<noteq> ''SOL''"
    "opt_by_key (asset_opts v extra) (b58 (wd_env D) (a_mint a)) = Some o'" "ao_isNft o'" "beneficiaryIndex a < length (vv_beneficiaries v)"
  shows "checked_bequests D v extra [bequest_row_of D v extra a]
    = ret (Inr [\<lparr>aa_mint = a_mint a, aa_amount = IsBN 1, aa_benef = beneficiaryIndex a, aa_nft = True\<rparr>])"
proof -
  have k: "ao_key o' = b58 (wd_env D) (a_mint a)" using opt_by_keyD [OF assms(4)] by simp
  have r: "br_asset (bequest_row_of D v extra a) = b58 (wd_env D) (a_mint a)" "br_ben (bequest_row_of D v extra a) = int (beneficiaryIndex a)"
    using assms(2) by (simp_all add: bequest_row_of_def Let_def)
  show ?thesis using assms(3-6) unfolding checked_bequests_def by (simp add: r k liftE_new [OF assms(1)] Let_def)
qed

subsection \<open>A load that fails\<close>

lemma yields_rest:
  assumes "yields m (\<lambda>c. case c of Inl e \<Rightarrow> True | Inr as \<Rightarrow> length as = n)"
  shows "yields (bindE m (\<lambda>x. ret (case x of Inl e \<Rightarrow> Inl e | Inr as \<Rightarrow> Inr (a # as)))) (\<lambda>c. case c of Inl e \<Rightarrow> True | Inr as \<Rightarrow> length as = Suc n)"
  by (rule yields_bindE [OF assms], rule yields_ret) (simp split: sum.splits)

lemma yields_one_per_row:
  "yields (check_bequests D opt n nfts rows) (\<lambda>c. case c of Inl e \<Rightarrow> True | Inr as \<Rightarrow> length as = length rows)"
proof (induction rows arbitrary: nfts)
  case (Cons r rows)
  show ?case
  proof (cases "opt (br_asset r)")
    case (Some o')
    show ?thesis
      unfolding check_bequests.simps Let_def Some option.case list.size add_Suc_right add_0_right
      by (intro yields_if yields_bindE_any yields_rest [OF Cons.IH] yields_ret) simp_all
  qed (simp add: yields_ret)
qed (simp add: yields_ret)

text \<open>
  C38: When the stored plan of a vault cannot be read, the editor opens without rows and without an error.
  Whatever the user then edits, the save checks and submits the new rows alone, one assignment for
  each; and the transaction built for them leaves exactly these assignments stored, whatever the stored plan
  was: the bequests that could not be read are gone.
\<close>

theorem web_failed_load_drops_plan:
  assumes "wd_newKey D (vv_owner v) = Inr owner" "\<And>k. getAccountInfo (wd_rpc D) k = throw e"
    "bn_exact (wd_env D)" "vv_hasAssetPlan v"
  shows "load_rows D v = ret ([], [])
    \<and> (let rows = fold (edit_rows (asset_opts v [])) edits [] in
        bequest_session D k v edits = bindE (checked_bequests D v [] rows) (\<lambda>c. case c of
            Inl b \<Rightarrow> ret (Inl b)
          | Inr as \<Rightarrow> bindE (saveBequests D k as True) (\<lambda>ok. ret (Inr ok)))
        \<and> yields (checked_plan D v [] rows ow) (\<lambda>r. case r of
            None \<Rightarrow> True
          | Some (as, t) \<Rightarrow> length as = length rows \<and> (\<exists>cs remaining. carries_plan True cs remaining t
              \<and> (\<forall>stored. assignments (update_asset_plan cs stored) = map stored_assignment (map chain_of as)))))"
proof -
  have k: "liftE (wd_newKey D (vv_owner v)) = ret owner" by (rule ext) (simp add: assms(1) liftE_apply ret_apply)
  have l: "load_rows D v = ret ([], [])"
    unfolding load_rows_def fetchAssetPlan_def rawInfo_def k assms(2) by simp
  have "yields (checked_bequests D v [] rows) (\<lambda>c. case c of Inl e \<Rightarrow> True | Inr as \<Rightarrow> length as = length rows)" for rows
    unfolding checked_bequests_def by (intro yields_if yields_ret yields_one_per_row) simp
  then have p: "yields (checked_plan D v [] rows ow) (\<lambda>r. case r of
            None \<Rightarrow> True
          | Some (as, t) \<Rightarrow> length as = length rows \<and> (\<exists>cs remaining. carries_plan True cs remaining t
              \<and> (\<forall>stored. assignments (update_asset_plan cs stored) = map stored_assignment (map chain_of as))))" for rows
    unfolding checked_plan_def assms(4)
    by (rule yields_bindE, auto split: sum.split simp del: map_map
        intro!: yields_ret yields_bindE [OF yields_plan_builder [OF assms(3)]] simp: assms(4))
      (use carried_stored [OF _ refl] in blast)
  show ?thesis using l p by (simp add: bequest_session_def save_bequest_rows_def assms(4) Let_def)
qed

end
