(* ===== verification/Web_Core_Props.thy ===== *)
theory Web_Core_Props
  imports Web_Bequest_Props
begin

text \<open>
  The console's gate and read model: an unverified network reaches no wallet, \<open>VERIFIED\<close> always rests on
  the expected genesis hash of the active RPC, and a vault is reported missing only when its account is
  absent. The console's revocation closes the vault with its tokens still in it.
\<close>

subsection \<open>No writes on an unverified network\<close>

abbreviation unverified :: "'e web_world_scheme \<Rightarrow> bool" where
  "unverified w \<equiv> ns_state w \<noteq> NetVerified"

lemma unverified_send:
  assumes "unverified w"
  shows "signSendOwnerTx D t owner w = (Inl (Error (''This owner action'' @ '' is blocked: the Solana network could not be verified. Retry from the network screen or set a working RPC in Settings.'')), w)"
  using assms unfolding signSendOwnerTx_def assertNetworkVerified_def by (simp add: bindE_def throw_apply)

text \<open>
  C21: While the network is not verified, an owner action of the web console fails without the wallet or
  the sending connection being asked for anything: with any other wallet and sender the run is the same.
  A claim then does nothing but report the error.
\<close>

theorem web_unverified_writes_nothing:
  assumes "unverified w" "preserves unverified (build owner)"
  shows "run_action (D\<lparr>wd_sign := s, wd_rpc := (wd_rpc D)\<lparr>sendRawTransaction := f, confirmTransaction := g\<rparr>\<rparr>) (Some owner) label build w
      = run_action D (Some owner) label build w
    \<and> fst (run_action D (Some owner) label build w) = Inr False
    \<and> web_claim D (Some owner) address w = (Inr (), w\<lparr>wb_claim := claim_idle\<lparr>cv_error := Some Net_unverified\<rparr>\<rparr>)"
proof (intro conjI)
  define u where "u = w\<lparr>wb_action := idle\<lparr>as_busy := Some label\<rparr>\<rparr>"
  have "unverified (snd (build owner u))" by (rule preservesD [OF assms(2)]) (use assms(1) in \<open>simp add: u_def\<close>)
  then show "run_action (D\<lparr>wd_sign := s, wd_rpc := (wd_rpc D)\<lparr>sendRawTransaction := f, confirmTransaction := g\<rparr>\<rparr>) (Some owner) label build w
      = run_action D (Some owner) label build w"
    and "fst (run_action D (Some owner) label build w) = Inr False"
    unfolding run_action_def set_action_def option.case u_def
    by (cases "build owner u"; cases "fst (build owner u)"; simp add: u_def bindE_def tryE_def unverified_send ret_apply)+
  show "web_claim D (Some owner) address w = (Inr (), w\<lparr>wb_claim := claim_idle\<lparr>cv_error := Some Net_unverified\<rparr>\<rparr>)"
    unfolding web_claim_def set_claim_def using assms(1) by (simp add: bindE_def)
qed

subsection \<open>The network gate\<close>

definition same_net :: "'e web_world_scheme \<Rightarrow> 'e web_world_scheme \<Rightarrow> bool" where
  "same_net w w' \<longleftrightarrow> activeRpcUrl w' = activeRpcUrl w \<and> verifiedForRpc w' = verifiedForRpc w \<and> ns_state w' = ns_state w \<and> wb_proceed w' = wb_proceed w"

definition quiet_net :: "('e web_world_scheme, 'a) io \<Rightarrow> bool" where
  "quiet_net m \<longleftrightarrow> (\<forall>w. same_net w (snd (m w)))"

definition genuine :: "('e web_world_scheme) web_deps \<Rightarrow> string \<Rightarrow> bool" where
  "genuine D url \<longleftrightarrow> answered (wd_genesis D url) (\<lambda>g. g = wd_expected D)"

text \<open>What the module variables and the store may claim.\<close>

definition net_ok :: "('e web_world_scheme) web_deps \<Rightarrow> bool \<Rightarrow> 'e web_world_scheme \<Rightarrow> bool" where
  "net_ok D continued w \<longleftrightarrow>
     (\<forall>u. verifiedForRpc w = Some u \<longrightarrow> genuine D u)
     \<and> (ns_state w = NetVerified \<longrightarrow> genuine D (activeRpcUrl w))
     \<and> (wb_proceed w \<longrightarrow> ns_state w = NetVerified \<or> ns_state w = NetUnknown \<and> continued)"

text \<open>The gate: the start, then the user's retries and continues until the console is mounted.\<close>

fun gate_session :: "('e web_world_scheme) web_deps \<Rightarrow> bool list \<Rightarrow> ('e web_world_scheme, unit) io" where
  "gate_session D [] = ret ()"
| "gate_session D (allowUnknown # presses) =
     bindE (gets wb_proceed) (\<lambda>p. if p then ret () else seqE (gate_run D allowUnknown) (gate_session D presses))"

lemma quiet_wp:
  assumes "quiet_net m"
  shows "wp m (\<lambda>a w'. same_net w w' \<and> answered m (\<lambda>x. x = a)) (\<lambda>_ w'. same_net w w') w"
proof -
  obtain r w' where m: "m w = (r, w')" by fastforce
  have "same_net w w'" using assms m unfolding quiet_net_def by (metis snd_conv)
  then show ?thesis using m unfolding wp_def answered_def by (cases r) auto
qed

lemma gate_run_ok:
  assumes "\<And>u. quiet_net (wd_genesis D u)" "net_ok D c w" "\<not> wb_proceed w"
  shows "wp (gate_run D b) (\<lambda>_ w'. net_ok D (c \<or> b) w') (\<lambda>_ w'. False) w"
proof (cases "verifiedForRpc w = Some (activeRpcUrl w)")
  case True
  then show ?thesis using assms(2,3)
    unfolding gate_run_def verifyNetwork_def set_net_def by (simp add: wp_simps net_ok_def)
next
  case False
  have g: "wp (wd_genesis D (activeRpcUrl w)) (\<lambda>a w'. same_net w w' \<and> answered (wd_genesis D (activeRpcUrl w)) (\<lambda>x. x = a)) (\<lambda>_ w'. same_net w w') w"
    by (rule quiet_wp [OF assms(1)])
  show ?thesis
    using False unfolding gate_run_def verifyNetwork_def set_net_def
    by (simp add: wp_simps)
      (rule wp_mono [OF g], use assms(2,3) in \<open>auto simp: net_ok_def same_net_def genuine_def wp_simps\<close>)
qed

lemma loadRpcOverride_ok:
  assumes "quiet_net (wd_setting D)" "verifiedForRpc w = None" "ns_state w = NetUnknown" "\<not> wb_proceed w"
  shows "wp (loadRpcOverride D) (\<lambda>_ w'. net_ok D False w' \<and> \<not> wb_proceed w') (\<lambda>_ _. False) w"
proof -
  have s: "wp (wd_setting D) (\<lambda>a w'. same_net w w') (\<lambda>_ w'. same_net w w') w"
    by (rule wp_mono [OF quiet_wp [OF assms(1)]]) auto
  show ?thesis unfolding loadRpcOverride_def
    by (simp add: wp_simps)
      (rule wp_mono [OF s], use assms(2-4) in \<open>auto simp: net_ok_def same_net_def wp_simps split: option.splits\<close>)
qed

lemma gate_session_ok:
  assumes "\<And>u. quiet_net (wd_genesis D u)"
  shows "net_ok D c w \<Longrightarrow> wp (gate_session D bs) (\<lambda>_ w'. net_ok D (c \<or> True \<in> set bs) w') (\<lambda>_ _. False) w"
proof (induction bs arbitrary: w c)
  case (Cons b bs)
  show ?case
  proof (cases "wb_proceed w")
    case False
    show ?thesis using False unfolding gate_session.simps
      by (simp add: wp_simps)
        (rule wp_mono [OF gate_run_ok [OF assms Cons.prems False]], rule wp_mono [OF Cons.IH], auto)
  qed (use Cons.prems in \<open>auto simp: wp_simps net_ok_def\<close>)
qed (simp add: wp_simps)

text \<open>
  C22: After the page's start and any sequence of retries and continues, the store says VERIFIED only when
  the active RPC answered with the expected genesis hash. The console is mounted only on a network
  verified so, or on one that could not be checked and that the user chose to continue on; on a
  network found to be another cluster it is not mounted, also when the user chose to continue.
\<close>

theorem gate_verified_is_genuine:
  assumes "quiet_net (wd_setting D)" "\<And>u. quiet_net (wd_genesis D u)"
    "verifiedForRpc w = None" "ns_state w = NetUnknown" "\<not> wb_proceed w"
  shows "wp (seqE (boot D) (gate_session D presses))
    (\<lambda>_ w'. (ns_state w' = NetVerified \<longrightarrow> answered (wd_genesis D (activeRpcUrl w')) (\<lambda>g. g = wd_expected D))
       \<and> (wb_proceed w' \<longrightarrow> ns_state w' = NetVerified \<or> ns_state w' = NetUnknown \<and> True \<in> set presses)) (\<lambda>_ _. False) w"
proof -
  have r: "wp (boot D) (\<lambda>_ w'. net_ok D False w') (\<lambda>_ _. False) w"
    unfolding boot_def wp_bindE
    by (rule wp_mono [OF loadRpcOverride_ok [OF assms(1,3-5)]]) (use gate_run_ok [OF assms(2), of False _ False] in auto)
  show ?thesis unfolding wp_bindE
    by (rule wp_mono [OF r], rule wp_mono [OF gate_session_ok [OF assms(2)]]) (auto simp: net_ok_def genuine_def)
qed

subsection \<open>Whether the owner has a vault\<close>

lemma preserves_or_default [preserves_intro]: "preserves I m \<Longrightarrow> preserves I (or_default m d)"
  unfolding or_default_def by (intro preserves_intro)

lemma preserves_toNumber [preserves_intro]: "preserves I (bn_toNumber n)"
  unfolding bn_toNumber_def by (intro preserves_intro)

text \<open>A read that leaves a predicate of the world alone and answers as the chain is.\<close>

lemma wp_reads:
  assumes "preserves I m" "yields m P" "I w"
  shows "wp m (\<lambda>a w'. P a \<and> I w') (\<lambda>_ w'. I w') w"
proof -
  obtain r w' where m: "m w = (r, w')" by fastforce
  have "I w'" using preservesD [OF assms(1,3)] m by simp
  then show ?thesis using m yieldsD [OF assms(2)] unfolding wp_def by (cases r) auto
qed

lemma wp_reads_any: "preserves I m \<Longrightarrow> I w \<Longrightarrow> wp m (\<lambda>_ w'. I w') (\<lambda>_ w'. I w') w"
  using wp_reads [where P = "\<lambda>_. True"] by fastforce

definition not_missing :: "'e web_world_scheme \<Rightarrow> bool" where
  "not_missing w \<longleftrightarrow> wb_exists w \<noteq> Some False"

lemma load_view_missing:
  fixes D :: "('e web_world_scheme) web_deps"
  assumes "answers (wd_env D) (wd_rpc D) C" "rpc_reads not_missing (wd_env D) (wd_rpc D)"
    "k = getVaultPDA (wd_env D) owner" "not_missing w"
  shows "wp (load_view D owner) (\<lambda>_ w'. wb_exists w' = Some False \<longrightarrow> ch_info C k = None) (\<lambda>_ w'. wb_exists w' = Some False \<longrightarrow> ch_info C k = None) w"
proof -
  note pre = reads_preserve [OF assms(2)]
  have info: "preserves not_missing (getAccountInfo (wd_rpc D) k)" using assms(2) by (simp add: rpc_reads_def)
  have bal: "preserves not_missing (getBalance (wd_rpc D) k)" using assms(2) by (simp add: rpc_reads_def)
  have plan: "preserves not_missing (fetchAssetPlan (wd_env D) (wd_rpc D) owner)" by (rule pre)
  have dl: "preserves not_missing (getOnChainDeadline (wd_env D) (wd_rpc D) owner)" by (rule pre)
  define K where "K c = bindE (or_default (getOnChainDeadline (wd_env D) (wd_rpc D) owner) None) (\<lambda>deadline.
          bindE (or_default (getBalance (wd_rpc D) k) 0) (\<lambda>sol.
          bindE (or_default (getVaultTokenBalances (wd_env D) (wd_rpc D) k) []) (\<lambda>tokens.
          bindE (if hasAssetPlan c
                 then or_default (bindE (fetchAssetPlan (wd_env D) (wd_rpc D) owner) (\<lambda>p.
                        ret (case p of Some q \<Rightarrow> length (assignments q) | None \<Rightarrow> 0))) 0
                 else ret 0) (\<lambda>plan.
          bindE (bn_toNumber (int (heartbeatInterval c))) (\<lambda>_. bindE (bn_toNumber (int (gracePeriod c))) (\<lambda>_.
          seqE (set_wb_vault (Some (vault_view_of D owner c deadline sol tokens plan))) (set_wb_exists (Some True))))))))" for c
  have K: "preserves not_missing (K c)" for c
    unfolding K_def set_wb_vault_def set_wb_exists_def
    by (intro preserves_bindE preserves_intro preserves_modify dl pre plan bal) (auto simp: not_missing_def)
  have body: "load_view D owner = bindE (fetchVaultConfig (wd_env D) (wd_rpc D) owner) (\<lambda>config. case config of
        None \<Rightarrow> bindE (getAccountInfo (wd_rpc D) k) (\<lambda>info. if info \<noteq> None then throw unreadable
          else seqE (set_wb_vault None) (set_wb_exists (Some False)))
      | Some c \<Rightarrow> K c)"
    unfolding load_view_def Let_def K_def assms(3) ..
  let ?Q = "\<lambda>w' :: 'e web_world_scheme. wb_exists w' = Some False \<longrightarrow> ch_info C k = None"
  have kept: "wp m (\<lambda>_. ?Q) (\<lambda>_. ?Q) u" if "preserves not_missing m" "not_missing u" for m :: "('e web_world_scheme, unit) io" and u
    by (rule wp_mono [OF wp_reads_any [OF that]]) (auto simp: not_missing_def)
  show ?thesis unfolding body wp_bindE
  proof (rule wp_mono [OF wp_reads_any [OF pre(6) assms(4)]])
    fix config :: "vault_config option" and u :: "'e web_world_scheme"
    assume u: "not_missing u"
    show "wp (case config of None \<Rightarrow> bindE (getAccountInfo (wd_rpc D) k) (\<lambda>info. if info \<noteq> None then throw unreadable
          else seqE (set_wb_vault None) (set_wb_exists (Some False))) | Some c \<Rightarrow> K c) (\<lambda>_. ?Q) (\<lambda>_. ?Q) u"
    proof (cases config)
      case None
      show ?thesis unfolding None option.case wp_bindE
        by (rule wp_mono [OF wp_reads [OF info yields_info [OF assms(1)] u]])
          (auto simp: wp_simps set_wb_vault_def set_wb_exists_def not_missing_def)
    next
      case (Some c)
      show ?thesis unfolding Some option.case by (rule kept [OF K u])
    qed
  qed (simp add: not_missing_def)
qed

text \<open>
  C23: A refresh of the console tells the owner that there is no vault only when the vault's account is
  absent from the chain: failed or garbled reads of it, and failed reads of the deadline, the balances or
  the plan, never do.
\<close>

theorem web_missing_only_if_absent:
  assumes "answers (wd_env D) (wd_rpc D) C" "rpc_reads not_missing (wd_env D) (wd_rpc D)" "wb_exists w \<noteq> Some False"
  shows "wp (refresh_vault D (Some owner))
    (\<lambda>_ w'. wb_exists w' = Some False \<longrightarrow> ch_info C (getVaultPDA (wd_env D) owner) = None) (\<lambda>_ _. False) w"
proof -
  have w: "not_missing (w\<lparr>wb_error := None\<rparr>)" using assms(3) by (simp add: not_missing_def)
  show ?thesis unfolding refresh_vault_def option.case set_wb_error_def
    by (simp add: wp_simps)
      (rule wp_mono [OF load_view_missing [OF assms(1,2) refl w]], auto simp: wp_simps)
qed

subsection \<open>Revoking from the console\<close>

lemma yields_priority: "yields (addPriorityFee E R t keys cu) (\<lambda>t'. \<exists>f. t' = SetComputeUnitLimit cu # SetComputeUnitPrice f # t)"
  unfolding addPriorityFee_def by (rule yields_bindE_any) (auto intro: yields_ret)

text \<open>
  The transaction with which the web console revokes a vault only closes it: it moves no token out,
  whatever the vault holds, although the console says that all assets return to the owner.
\<close>

theorem web_revoke_moves_no_token:
  shows "yields (buildRevokeVaultTx E R owner) (\<lambda>t. length t = 3 \<and>
    list_all (\<lambda>ix. case ix of ProgIx m _ _ \<Rightarrow> m = RevokeVault | SetComputeUnitLimit _ \<Rightarrow> True | SetComputeUnitPrice _ \<Rightarrow> True | _ \<Rightarrow> False) t)"
  unfolding buildRevokeVaultTx_def Let_def
  by (intro yields_bindE_any yields_mono [OF yields_priority]) (auto simp: revoke_ix_def Let_def)

end
