(* ===== verification/Program_Layout.thy ===== *)
theory Program_Layout
  imports Account_Raw
begin

text \<open>
  The accounts as the on-chain program writes them: the structs of
  \<open>programs/dead-mans-vault/src/state\<close> and their borsh encoding behind the Anchor
  discriminator. The interface \<open>codec\<close> ties a cursor reader to the encoder of the same field;
  its interpretations cover every field type of these accounts, and the round trips of whole
  accounts rest on them.
\<close>

subsection \<open>The structs of the program\<close>

record rust_vault =
  rv_owner :: pubkey
  rv_agent :: pubkey
  rv_interval :: int
  rv_grace :: int
  rv_beneficiaries :: "(pubkey \<times> nat) list"
  rv_executed :: bool
  rv_active :: bool
  rv_created :: int
  rv_updated :: int
  rv_bump :: nat
  rv_mutable :: bool
  rv_has_plan :: bool
  rv_open :: nat
  rv_bounty :: nat

record rust_log =
  rl_vault :: pubkey
  rl_snapshot :: nat
  rl_mask :: "32 word"
  rl_started :: int
  rl_completed :: bool
  rl_count :: nat
  rl_total :: nat
  rl_bump :: nat

record rust_assignment =
  ra_mint :: pubkey
  ra_amount :: nat
  ra_benef :: nat
  ra_nft :: bool

record rust_plan =
  rp_vault :: pubkey
  rp_assignments :: "rust_assignment list"
  rp_mask :: "64 word"
  rp_bump :: nat

record rust_dist =
  rd_vault :: pubkey
  rd_mint :: pubkey
  rd_snapshot :: nat
  rd_mask :: "32 word"
  rd_bump :: nat

record rust_heartbeat =
  rh_vault :: pubkey
  rh_last :: int
  rh_method :: nat
  rh_total :: nat
  rh_bump :: nat

subsection \<open>Field encoders\<close>

text \<open>Borsh writes integers little-endian, an \<open>i64\<close> as its two's complement.\<close>

definition enc_u8 :: "nat \<Rightarrow> bytes" where
  "enc_u8 v = [word_of_nat v]"

definition enc_bool :: "bool \<Rightarrow> bytes" where
  "enc_bool b = [if b then 1 else 0]"

definition enc_i64 :: "int \<Rightarrow> bytes" where
  "enc_i64 v = to_le 8 (nat (v mod 2 ^ 64))"

definition enc_benef :: "pubkey \<times> nat \<Rightarrow> bytes" where
  "enc_benef b = fst b @ to_le 2 (snd b)"

definition enc_assignment :: "rust_assignment \<Rightarrow> bytes" where
  "enc_assignment a = ra_mint a @ to_le 8 (ra_amount a) @ enc_u8 (ra_benef a) @ enc_bool (ra_nft a)"

text \<open>A codec: the reader needs exactly the bytes the encoder writes and inverts it.\<close>

locale codec =
  fixes rd :: "'a reader" and k :: nat and dec :: "bytes \<Rightarrow> 'a"
    and enc :: "'b \<Rightarrow> bytes" and view :: "'b \<Rightarrow> 'a" and dom :: "'b \<Rightarrow> bool"
  assumes rd: "rd_spec rd k dec"
    and length_enc: "dom b \<Longrightarrow> length (enc b) = k"
    and dec_enc: "dom b \<Longrightarrow> dec (enc b) = view b"
begin

lemma reads_back:
  assumes "dom b"
  shows "rd \<lparr>cur_data = pre @ enc b @ post, cur_offset = length pre\<rparr>
    = (Inr (view b), \<lparr>cur_data = pre @ enc b @ post, cur_offset = length pre + k\<rparr>)"
  using rd [unfolded rd_spec_def, rule_format, of "\<lparr>cur_data = pre @ enc b @ post, cur_offset = length pre\<rparr>"]
  by (simp add: length_enc dec_enc sub_def assms)

lemma length_vec: "list_all dom bs \<Longrightarrow> length (concat (map enc bs)) = length bs * k"
  by (induction bs) (simp_all add: length_enc)

lemma vec_block:
  "list_all dom bs \<Longrightarrow> i < length bs \<Longrightarrow> sub (concat (map enc bs) @ post) (i * k) k = enc (bs ! i)"
proof (induction bs arbitrary: i)
  case (Cons b bs)
  then show ?case by (cases i) (simp_all add: sub_def length_enc)
qed simp

text \<open>The vector parsers read back the whole list.\<close>

lemma reads_vec:
  assumes "list_all dom bs"
  shows "forE [0..<length bs] [] (\<lambda>_ ys. bindE rd (\<lambda>y. ret (ys @ [y])))
           \<lparr>cur_data = pre @ concat (map enc bs) @ post, cur_offset = length pre\<rparr>
    = (Inr (map view bs),
       \<lparr>cur_data = pre @ concat (map enc bs) @ post, cur_offset = length pre + length bs * k\<rparr>)"
proof -
  let ?v = "concat (map enc bs)"
  have blocks: "dec (sub ?v (i * k) k) = view (bs ! i)" if "i < length bs" for i
    using vec_block [OF assms that, of "[]"] assms that by (simp add: dec_enc list_all_length)
  have "sub (pre @ ?v @ post) (length pre) (length bs * k) = ?v"
    by (simp add: sub_def length_vec [OF assms])
  then have dat: "map (\<lambda>i. dec (sub (sub (pre @ ?v @ post) (length pre) (length bs * k)) (i * k) k)) [0..<length bs]
      = map view bs"
    by (intro nth_equalityI) (simp_all add: blocks)
  have len: "length pre + length bs * k \<le> length (pre @ ?v @ post)"
    by (simp add: length_vec [OF assms])
  show ?thesis
    using rd_loop [OF rd, of "[0..<length bs]" "[]", unfolded rd_spec_def, rule_format,
        of "\<lparr>cur_data = pre @ ?v @ post, cur_offset = length pre\<rparr>"] dat len
    by simp
qed

end

lemma byte_of_nat: "v < 256 \<Longrightarrow> unat (word_of_nat v :: byte) = v"
  by (simp add: unat_of_nat)

interpretation u8: codec c_u8 1 "\<lambda>bs. unat (hd bs)" enc_u8 id "\<lambda>v. v < 256"
  by unfold_locales (use rd_u8 in \<open>simp_all add: enc_u8_def byte_of_nat\<close>)

interpretation u16: codec c_u16 2 le_nat "to_le 2" id "\<lambda>v. v < 256 ^ 2"
  by unfold_locales (simp_all only: rd_u16 length_to_le le_nat_to_le id_apply)

interpretation u32: codec c_u32 4 le_nat "to_le 4" id "\<lambda>v. v < 256 ^ 4"
  by unfold_locales (simp_all only: rd_u32 length_to_le le_nat_to_le id_apply)

interpretation u64: codec c_u64big 8 le_nat "to_le 8" id "\<lambda>v. v < 256 ^ 8"
  by unfold_locales (simp_all only: rd_u64big length_to_le le_nat_to_le id_apply)

interpretation flag: codec c_bool 1 "\<lambda>bs. unat (hd bs) \<noteq> 0" enc_bool id "\<lambda>_. True"
  by unfold_locales (use rd_bool in \<open>simp_all add: enc_bool_def\<close>)

interpretation key: codec c_pubkey 32 id id id "\<lambda>p. length p = 32"
  by unfold_locales (simp_all add: rd_pubkey)

text \<open>The cursor's \<open>i64()\<close> is unsigned: it returns a written \<open>i64\<close> modulo \<open>2^64\<close>.\<close>

interpretation i64: codec c_i64 8 le_nat enc_i64 "\<lambda>v. nat (v mod 2 ^ 64)" "\<lambda>_. True"
proof unfold_locales
  show "rd_spec c_i64 8 le_nat" by (rule rd_i64)
  show "length (enc_i64 b) = 8" for b by (simp add: enc_i64_def)
  show "le_nat (enc_i64 b) = nat (b mod 2 ^ 64)" for b
    unfolding enc_i64_def by (rule le_nat_to_le) (simp add: nat_less_iff)
qed

definition benef_ok :: "pubkey \<times> nat \<Rightarrow> bool" where
  "benef_ok b \<longleftrightarrow> length (fst b) = 32 \<and> snd b < 256 ^ 2"

definition benef_view :: "pubkey \<times> nat \<Rightarrow> beneficiary" where
  "benef_view b = \<lparr>wallet = fst b, shareBps = snd b, hasSpecificAssets = False\<rparr>"

interpretation benef: codec c_beneficiary 34
  "\<lambda>bs. \<lparr>wallet = sub bs 0 32, shareBps = le_nat (sub bs 32 2), hasSpecificAssets = False\<rparr>"
  enc_benef benef_view benef_ok
proof unfold_locales
  fix b
  show "benef_ok b \<Longrightarrow> length (enc_benef b) = 34" by (simp add: benef_ok_def enc_benef_def)
  assume "benef_ok b"
  then have "length (fst b) = 32" "snd b < 256 ^ 2" by (simp_all only: benef_ok_def)
  then show "\<lparr>wallet = sub (enc_benef b) 0 32, shareBps = le_nat (sub (enc_benef b) 32 2),
      hasSpecificAssets = False\<rparr> = benef_view b"
    using le_nat_to_le [of "snd b" 2] by (simp add: enc_benef_def benef_view_def sub_def)
qed (rule rd_beneficiary)

definition assignment_ok :: "rust_assignment \<Rightarrow> bool" where
  "assignment_ok a \<longleftrightarrow> length (ra_mint a) = 32 \<and> ra_amount a < 256 ^ 8 \<and> ra_benef a < 256"

definition assignment_view :: "rust_assignment \<Rightarrow> assignment" where
  "assignment_view a =
     \<lparr>a_mint = ra_mint a, a_amount = ra_amount a, beneficiaryIndex = ra_benef a, isNft = ra_nft a\<rparr>"

interpretation assign: codec c_assignment 42
  "\<lambda>bs. \<lparr>a_mint = sub bs 0 32, a_amount = le_nat (sub bs 32 8),
     beneficiaryIndex = unat (bs ! 40), isNft = unat (bs ! 41) \<noteq> 0\<rparr>"
  enc_assignment assignment_view assignment_ok
proof unfold_locales
  fix a
  show "assignment_ok a \<Longrightarrow> length (enc_assignment a) = 42"
    by (simp add: assignment_ok_def enc_assignment_def enc_u8_def enc_bool_def)
  assume "assignment_ok a"
  then have "length (ra_mint a) = 32" "ra_amount a < 256 ^ 8" "ra_benef a < 256"
    by (simp_all only: assignment_ok_def)
  then show "\<lparr>a_mint = sub (enc_assignment a) 0 32, a_amount = le_nat (sub (enc_assignment a) 32 8),
     beneficiaryIndex = unat (enc_assignment a ! 40), isNft = unat (enc_assignment a ! 41) \<noteq> 0\<rparr>
     = assignment_view a"
    using le_nat_to_le [of "ra_amount a" 8]
    by (simp add: enc_assignment_def assignment_view_def sub_def nth_append enc_u8_def enc_bool_def byte_of_nat)
qed (rule rd_assignment)


subsection \<open>Whole accounts\<close>

definition enc_vault :: "rust_vault \<Rightarrow> bytes" where
  "enc_vault v =
     rv_owner v @ rv_agent v @ enc_i64 (rv_interval v) @ enc_i64 (rv_grace v)
     @ to_le 4 (length (rv_beneficiaries v)) @ concat (map enc_benef (rv_beneficiaries v))
     @ enc_bool (rv_executed v) @ enc_bool (rv_active v) @ enc_i64 (rv_created v) @ enc_i64 (rv_updated v)
     @ enc_u8 (rv_bump v) @ enc_bool (rv_mutable v) @ enc_bool (rv_has_plan v) @ to_le 2 (rv_open v)
     @ to_le 8 (rv_bounty v)"

definition enc_log :: "rust_log \<Rightarrow> bytes" where
  "enc_log l = rl_vault l @ to_le 8 (rl_snapshot l) @ to_le 4 (unat (rl_mask l)) @ enc_i64 (rl_started l)
     @ enc_bool (rl_completed l) @ to_le 4 (rl_count l) @ to_le 8 (rl_total l) @ enc_u8 (rl_bump l)"

definition enc_plan :: "rust_plan \<Rightarrow> bytes" where
  "enc_plan p = rp_vault p @ to_le 4 (length (rp_assignments p))
     @ concat (map enc_assignment (rp_assignments p)) @ to_le 8 (unat (rp_mask p)) @ enc_u8 (rp_bump p)"

definition enc_dist :: "rust_dist \<Rightarrow> bytes" where
  "enc_dist d = rd_vault d @ rd_mint d @ to_le 8 (rd_snapshot d) @ to_le 4 (unat (rd_mask d)) @ enc_u8 (rd_bump d)"

definition enc_heartbeat :: "rust_heartbeat \<Rightarrow> bytes" where
  "enc_heartbeat h = rh_vault h @ enc_i64 (rh_last h) @ enc_u8 (rh_method h) @ to_le 8 (rh_total h) @ enc_u8 (rh_bump h)"

text \<open>An Anchor account: owner, discriminator, borsh body, and whatever padding follows.\<close>

definition program_account :: "pubkey \<Rightarrow> acct_kind \<Rightarrow> bytes \<Rightarrow> bytes \<Rightarrow> acct" where
  "program_account pid k body pad = \<lparr>acc_owner = pid, acc_data = DISCRIMINATORS k @ body @ pad\<rparr>"

definition vault_ok :: "rust_vault \<Rightarrow> bool" where
  "vault_ok v \<longleftrightarrow> length (rv_owner v) = 32 \<and> length (rv_agent v) = 32
     \<and> length (rv_beneficiaries v) \<le> 20 \<and> list_all benef_ok (rv_beneficiaries v)
     \<and> rv_bump v < 256 \<and> rv_open v < 256 ^ 2"

definition vault_view :: "rust_vault \<Rightarrow> vault_config" where
  "vault_view v =
     \<lparr>vc_owner = rv_owner v, agentPubkey = rv_agent v,
      heartbeatInterval = nat (rv_interval v mod 2 ^ 64), gracePeriod = nat (rv_grace v mod 2 ^ 64),
      beneficiaries = map benef_view (rv_beneficiaries v), executed = rv_executed v, active = rv_active v,
      createdAt = nat (rv_created v mod 2 ^ 64), updatedAt = nat (rv_updated v mod 2 ^ 64),
      vc_bump = rv_bump v, isMutable = rv_mutable v, hasAssetPlan = rv_has_plan v,
      openTokenDists = rv_open v\<rparr>"

declare DISCRIMINATORS.simps [simp del]

lemma sub_append_left: "p + n \<le> length xs \<Longrightarrow> sub (xs @ ys) p n = sub xs p n"
  by (simp add: sub_def)

lemma sub_append_right: "length xs \<le> p \<Longrightarrow> sub (xs @ ys) p n = sub ys (p - length xs) n"
  by (simp add: sub_def)

lemma sub_all: "length xs = n \<Longrightarrow> sub xs 0 n = xs"
  by (simp add: sub_def)

lemmas sub_fields = sub_append_left sub_append_right sub_all

lemma le_nat_fields [simp]:
  "le_nat (enc_i64 v) = nat (v mod 2 ^ 64)"
  "length (enc_i64 v) = 8" "length (enc_u8 n) = 1" "length (enc_bool b) = 1"
  using i64.dec_enc [of v] by (simp_all add: enc_i64_def enc_u8_def enc_bool_def)

lemma benef_vec_at:
  assumes "list_all benef_ok bs" "i < length bs" "length pre = 92"
  shows "beneficiary_at (pre @ concat (map enc_benef bs) @ post) (92 + i * 34) = benef_view (bs ! i)"
proof -
  let ?d = "pre @ concat (map enc_benef bs) @ post"
  have ok: "benef_ok (bs ! i)" using assms by (simp add: list_all_length)
  have blk: "sub ?d (92 + i * 34) 34 = enc_benef (bs ! i)"
    using benef.vec_block [OF assms(1,2)] assms(3) by (simp add: sub_append_right)
  have "beneficiary_at ?d (92 + i * 34)
      = \<lparr>wallet = sub (sub ?d (92 + i * 34) 34) 0 32,
         shareBps = le_nat (sub (sub ?d (92 + i * 34) 34) 32 2), hasSpecificAssets = False\<rparr>"
    by (simp add: beneficiary_at_def sub_sub)
  also have "\<dots> = benef_view (bs ! i)" unfolding blk using benef.dec_enc [OF ok] by simp
  finally show ?thesis .
qed

lemma unat_bool: "unat (if b then 1 else 0 :: byte) = (if b then 1 else 0)"
  by simp

lemma parse_encoded_vault:
  assumes ok: "vault_ok v"
  shows "parseVaultConfig (Some (program_account pid VaultConfigK (enc_vault v) pad)) pid = Some (vault_view v)"
proof -
  define bs where "bs = rv_beneficiaries v"
  define vec where "vec = concat (map enc_benef bs)"
  define pre where "pre = DISCRIMINATORS VaultConfigK @ rv_owner v @ rv_agent v @ enc_i64 (rv_interval v)
    @ enc_i64 (rv_grace v) @ to_le 4 (length bs)"
  define tl where "tl = enc_bool (rv_executed v) @ enc_bool (rv_active v) @ enc_i64 (rv_created v)
     @ enc_i64 (rv_updated v) @ enc_u8 (rv_bump v) @ enc_bool (rv_mutable v) @ enc_bool (rv_has_plan v)
     @ to_le 2 (rv_open v) @ to_le 8 (rv_bounty v) @ pad"
  have d: "acc_data (program_account pid VaultConfigK (enc_vault v) pad) = pre @ vec @ tl"
    by (simp add: program_account_def enc_vault_def pre_def vec_def tl_def bs_def)
  have lens: "length (rv_owner v) = 32" "length (rv_agent v) = 32" and n: "length bs \<le> 20"
    and bok: "list_all benef_ok bs" and bump: "rv_bump v < 256" and opn: "rv_open v < 256 ^ 2"
    using ok unfolding vault_ok_def bs_def by blast+
  have lpre: "length pre = 92" and lvec: "length vec = length bs * 34"
    using lens benef.length_vec [OF bok] by (simp_all add: pre_def vec_def)
  have cnt: "le_nat (sub (pre @ vec @ tl) 88 4) = length bs"
    using lens n le_nat_to_le [of "length bs" 4] by (simp add: pre_def sub_fields)
  have fit: "vault_config_fits (pre @ vec @ tl)"
    using n lpre lvec by (simp add: vault_config_fits_def cnt) (simp add: tl_def)
  have keys: "sub (pre @ vec @ tl) 8 32 = rv_owner v" "sub (pre @ vec @ tl) 40 32 = rv_agent v"
    "le_nat (sub (pre @ vec @ tl) 72 8) = nat (rv_interval v mod 2 ^ 64)"
    "le_nat (sub (pre @ vec @ tl) 80 8) = nat (rv_grace v mod 2 ^ 64)"
    using lens by (simp_all add: pre_def sub_fields)
  have ben: "map (\<lambda>i. beneficiary_at (pre @ vec @ tl) (92 + i * 34)) [0..<length bs] = map benef_view bs"
    by (rule nth_equalityI) (simp_all add: vec_def benef_vec_at [OF bok _ lpre])
  let ?t = "92 + length bs * 34"
  have nth_t: "(pre @ vec @ tl) ! (?t + i) = tl ! i" for i
    using lpre lvec by (simp add: nth_append)
  have sub_t: "sub (pre @ vec @ tl) (?t + i) k = sub tl i k" for i k
    using lpre lvec by (simp add: sub_append_right)
  have tail: "unat (tl ! 0) \<noteq> 0 \<longleftrightarrow> rv_executed v" "unat (tl ! 1) \<noteq> 0 \<longleftrightarrow> rv_active v"
    "unat (tl ! 18) = rv_bump v" "unat (tl ! 19) \<noteq> 0 \<longleftrightarrow> rv_mutable v" "unat (tl ! 20) \<noteq> 0 \<longleftrightarrow> rv_has_plan v"
    using bump by (simp_all add: tl_def nth_append enc_bool_def enc_u8_def byte_of_nat)
  have times: "le_nat (sub tl 2 8) = nat (rv_created v mod 2 ^ 64)" "le_nat (sub tl 10 8) = nat (rv_updated v mod 2 ^ 64)"
    by (simp_all add: tl_def sub_fields)
  have opn': "le_nat (sub tl 21 2) = rv_open v"
    using le_nat_to_le [OF opn] by (simp add: tl_def sub_fields)
  have "vault_config_at (pre @ vec @ tl) = vault_view v"
    using nth_t [of 0] nth_t [of 1] nth_t [of 18] nth_t [of 19] nth_t [of 20]
      sub_t [of 2 8] sub_t [of 10 8] sub_t [of 21 2] tail times opn'
    by (simp add: vault_config_at_def cnt Let_def keys ben vault_view_def flip: bs_def)
  moreover have "isProgramAccount (Some (program_account pid VaultConfigK (enc_vault v) pad)) VaultConfigK 92 pid"
    using lpre by (simp add: isProgramAccount_def program_account_def enc_vault_def pre_def bs_def)
  ultimately show ?thesis by (simp add: parseVaultConfig_eq d fit)
qed


lemma parse_encoded_log:
  assumes ok: "length (rl_vault l) = 32" "rl_snapshot l < 256 ^ 8"
  shows "parseExecutionLog (Some (program_account pid ExecutionLogK (enc_log l) pad)) pid
    = Some \<lparr>solSnapshot = rl_snapshot l, solPaidMask = unat (rl_mask l), completed = rl_completed l\<rparr>"
proof -
  define d where "d = acc_data (program_account pid ExecutionLogK (enc_log l) pad)"
  have d: "d = DISCRIMINATORS ExecutionLogK @ rl_vault l @ to_le 8 (rl_snapshot l) @ to_le 4 (unat (rl_mask l))
      @ enc_i64 (rl_started l) @ enc_bool (rl_completed l) @ to_le 4 (rl_count l) @ to_le 8 (rl_total l)
      @ enc_u8 (rl_bump l) @ pad"
    by (simp add: d_def program_account_def enc_log_def)
  have mask: "unat (rl_mask l) < 256 ^ 4" using unsigned_less [of "rl_mask l"] by simp
  have fields: "le_nat (sub d 40 8) = rl_snapshot l" "le_nat (sub d 48 4) = unat (rl_mask l)"
    "d ! 60 = (if rl_completed l then 1 else 0)"
    using ok le_nat_to_le [OF ok(2)] le_nat_to_le [OF mask]
    by (simp_all add: d sub_fields nth_append enc_bool_def)
  have len: "66 \<le> length d" using ok by (simp add: d)
  have prog: "isProgramAccount (Some (program_account pid ExecutionLogK (enc_log l) pad)) ExecutionLogK 66 pid"
    using len by (simp add: isProgramAccount_def program_account_def d_def)
  show ?thesis
    using prog len fields by (simp add: parseExecutionLog_def run_steps hd_sub flip: d_def)
qed

lemma parse_encoded_dist:
  assumes ok: "length (rd_vault l) = 32" "length (rd_mint l) = 32" "rd_snapshot l < 256 ^ 8"
  shows "parseTokenDist (Some (program_account pid TokenDistK (enc_dist l) pad)) pid
    = Some \<lparr>td_snapshot = rd_snapshot l, td_paidMask = unat (rd_mask l)\<rparr>"
proof -
  define d where "d = acc_data (program_account pid TokenDistK (enc_dist l) pad)"
  have d: "d = DISCRIMINATORS TokenDistK @ rd_vault l @ rd_mint l @ to_le 8 (rd_snapshot l)
      @ to_le 4 (unat (rd_mask l)) @ enc_u8 (rd_bump l) @ pad"
    by (simp add: d_def program_account_def enc_dist_def)
  have mask: "unat (rd_mask l) < 256 ^ 4" using unsigned_less [of "rd_mask l"] by simp
  have fields: "le_nat (sub d 72 8) = rd_snapshot l" "le_nat (sub d 80 4) = unat (rd_mask l)"
    using ok le_nat_to_le [OF ok(3)] le_nat_to_le [OF mask] by (simp_all add: d sub_fields)
  have len: "85 \<le> length d" using ok by (simp add: d)
  have prog: "isProgramAccount (Some (program_account pid TokenDistK (enc_dist l) pad)) TokenDistK 85 pid"
    using len by (simp add: isProgramAccount_def program_account_def d_def)
  show ?thesis
    using prog len fields by (simp add: parseTokenDist_def run_steps flip: d_def)
qed

definition plan_ok :: "rust_plan \<Rightarrow> bool" where
  "plan_ok p \<longleftrightarrow> length (rp_vault p) = 32 \<and> length (rp_assignments p) \<le> 64
     \<and> list_all assignment_ok (rp_assignments p)"

lemma assignment_vec_at:
  assumes "list_all assignment_ok bs" "i < length bs" "length pre = 44"
  shows "assignment_at (pre @ concat (map enc_assignment bs) @ post) (44 + i * 42) = assignment_view (bs ! i)"
proof -
  let ?d = "pre @ concat (map enc_assignment bs) @ post"
  have ok: "assignment_ok (bs ! i)" using assms by (simp add: list_all_length)
  have blk: "sub ?d (44 + i * 42) 42 = enc_assignment (bs ! i)"
    using assign.vec_block [OF assms(1,2)] assms(3) by (simp add: sub_append_right)
  have "(i + 1) * 42 \<le> length bs * 42" using assms(2) by (intro mult_right_mono) simp_all
  then have fit: "44 + i * 42 + 42 \<le> length ?d"
    using assms(3) assign.length_vec [OF assms(1)] by simp
  have "assignment_at ?d (44 + i * 42)
      = \<lparr>a_mint = sub (sub ?d (44 + i * 42) 42) 0 32, a_amount = le_nat (sub (sub ?d (44 + i * 42) 42) 32 8),
         beneficiaryIndex = unat (sub ?d (44 + i * 42) 42 ! 40), isNft = unat (sub ?d (44 + i * 42) 42 ! 41) \<noteq> 0\<rparr>"
    using fit by (simp add: assignment_at_def sub_sub nth_sub)
  also have "\<dots> = assignment_view (bs ! i)" unfolding blk using assign.dec_enc [OF ok] by simp
  finally show ?thesis .
qed

lemma parse_encoded_plan:
  assumes ok: "plan_ok p"
  shows "parseAssetPlan (Some (program_account pid AssetPlanK (enc_plan p) pad)) pid
    = Some \<lparr>assignments = map assignment_view (rp_assignments p), ap_paidMask = unat (rp_mask p)\<rparr>"
proof -
  define bs where "bs = rp_assignments p"
  define vec where "vec = concat (map enc_assignment bs)"
  define pre where "pre = DISCRIMINATORS AssetPlanK @ rp_vault p @ to_le 4 (length bs)"
  define tl where "tl = to_le 8 (unat (rp_mask p)) @ enc_u8 (rp_bump p) @ pad"
  have d: "acc_data (program_account pid AssetPlanK (enc_plan p) pad) = pre @ vec @ tl"
    by (simp add: program_account_def enc_plan_def pre_def vec_def tl_def bs_def)
  have lv: "length (rp_vault p) = 32" and n: "length bs \<le> 64" and aok: "list_all assignment_ok bs"
    using ok unfolding plan_ok_def bs_def by blast+
  have lpre: "length pre = 44" and lvec: "length vec = length bs * 42"
    using lv assign.length_vec [OF aok] by (simp_all add: pre_def vec_def)
  have mask: "unat (rp_mask p) < 256 ^ 8" using unsigned_less [of "rp_mask p"] by simp
  have cnt: "le_nat (sub (pre @ vec @ tl) 40 4) = length bs"
    using lv n le_nat_to_le [of "length bs" 4] by (simp add: pre_def sub_fields)
  have fit: "asset_plan_fits (pre @ vec @ tl)"
    using n lpre lvec by (simp add: asset_plan_fits_def cnt) (simp add: tl_def)
  have items: "map (\<lambda>i. assignment_at (pre @ vec @ tl) (44 + i * 42)) [0..<length bs] = map assignment_view bs"
    by (rule nth_equalityI) (simp_all add: vec_def assignment_vec_at [OF aok _ lpre])
  have m: "le_nat (sub (pre @ vec @ tl) (44 + length bs * 42) 8) = unat (rp_mask p)"
    using lpre lvec le_nat_to_le [OF mask] by (simp add: sub_append_right) (simp add: tl_def sub_fields)
  have "isProgramAccount (Some (program_account pid AssetPlanK (enc_plan p) pad)) AssetPlanK 44 pid"
    using lpre by (simp add: isProgramAccount_def program_account_def enc_plan_def pre_def bs_def)
  then show ?thesis
    by (simp add: parseAssetPlan_eq d fit asset_plan_at_def cnt Let_def items m flip: bs_def)
qed

lemma number_at_small: "v < 2 ^ 53 \<Longrightarrow> le_nat (sub d q 8) = v \<Longrightarrow> number_at d q = int v"
  by (simp add: number_at_def)

text \<open>A non-negative \<open>i64\<close> below \<open>2^53\<close> is read exactly.\<close>

lemma i64_mod_small: "0 \<le> v \<Longrightarrow> v < 2 ^ 53 \<Longrightarrow> nat (v mod 2 ^ 64) = nat v"
  by simp

lemma parse_encoded_deadline:
  assumes ok: "vault_ok v" "length (rh_vault h) = 32"
    and t: "0 \<le> rv_interval v" "0 \<le> rv_grace v" "0 \<le> rh_last h"
      "rh_last h + rv_interval v + rv_grace v < 2 ^ 53"
  shows "parseDeadline (Some (program_account pid VaultConfigK (enc_vault v) pad))
      (Some (program_account pid HeartbeatRecordK (enc_heartbeat h) pad')) pid
    = Some (rh_last h + rv_interval v + rv_grace v)"
proof -
  let ?v = "DISCRIMINATORS VaultConfigK @ enc_vault v @ pad"
  let ?h = "DISCRIMINATORS HeartbeatRecordK @ enc_heartbeat h @ pad'"
  have lens: "length (rv_owner v) = 32" "length (rv_agent v) = 32"
    using ok(1) unfolding vault_ok_def by blast+
  have "le_nat (sub ?v 72 8) = nat (rv_interval v)" "le_nat (sub ?v 80 8) = nat (rv_grace v)"
    "le_nat (sub ?h 40 8) = nat (rh_last h)"
    using lens ok(2) t by (simp_all add: enc_vault_def enc_heartbeat_def sub_fields)
  then have nums: "number_at ?v 72 = rv_interval v" "number_at ?v 80 = rv_grace v" "number_at ?h 40 = rh_last h"
    using t by (simp_all add: number_at_def)
  have sums: "js_add (js_add (rh_last h) (rv_interval v)) (rv_grace v) = rh_last h + rv_interval v + rv_grace v"
    using t by (simp add: js_add_exact)
  have "isProgramAccount (Some (program_account pid VaultConfigK (enc_vault v) pad)) VaultConfigK 88 pid"
    "isProgramAccount (Some (program_account pid HeartbeatRecordK (enc_heartbeat h) pad')) HeartbeatRecordK 48 pid"
    using lens ok(2) by (simp_all add: isProgramAccount_def program_account_def enc_vault_def enc_heartbeat_def)
  then show ?thesis
    by (simp add: parseDeadline_def Let_def nums sums) (simp add: program_account_def nums sums)
qed

subsection \<open>Properties\<close>

text \<open>
  a vault config is accepted only from a program-owned account that carries the discriminator,
  with at most 20 beneficiaries and room for all of them and the 23 byte tail; what is returned
  then has exactly as many beneficiaries as the account declares, each key 32 bytes.
\<close>

theorem parsed_config_bounded:
  assumes "parseVaultConfig (Some i) pid = Some v"
  shows "acc_owner i = pid \<and> take 8 (acc_data i) = DISCRIMINATORS VaultConfigK
    \<and> length (beneficiaries v) \<le> 20 \<and> 115 + 34 * length (beneficiaries v) \<le> length (acc_data i)
    \<and> list_all (\<lambda>b. length (wallet b) = 32 \<and> shareBps b < 65536) (beneficiaries v)"
proof -
  have p: "isProgramAccount (Some i) VaultConfigK 92 pid" and f: "vault_config_fits (acc_data i)"
    and v: "v = vault_config_at (acc_data i)"
    using assms by (auto simp: parseVaultConfig_eq split: if_splits)
  have share: "le_nat (sub d q 2) < 65536" for d q
    using le_nat_bound [of "sub d q 2"] by (rule less_le_trans) (auto simp: sub_def min_def power2_eq_square intro: order_trans [OF power_increasing [of _ 2]])
  show ?thesis
    using p f unfolding v isProgramAccount_def vault_config_fits_def
    by (auto simp: vault_config_at_def Let_def list_all_iff beneficiary_at_def share split: if_splits)
      (auto simp: sub_def min_def)
qed

definition ex_vault :: rust_vault where
  "ex_vault =
     \<lparr>rv_owner = replicate 32 1, rv_agent = replicate 32 2, rv_interval = 86400, rv_grace = 3600,
      rv_beneficiaries = [(replicate 32 3, 6000), (replicate 32 4, 4000)], rv_executed = False,
      rv_active = True, rv_created = 1700000000, rv_updated = 1700000001, rv_bump = 254,
      rv_mutable = True, rv_has_plan = True, rv_open = 2, rv_bounty = 5000000\<rparr>"

definition ex_program :: pubkey where
  "ex_program = replicate 32 9"

lemma ex_vault_ok: "vault_ok ex_vault"
  by (simp add: vault_ok_def ex_vault_def benef_ok_def)

theorem parsed_config_bounded_witness:
  "length (beneficiaries (vault_view ex_vault)) \<le> 20 \<and> length (beneficiaries (vault_view ex_vault)) = 2"
  using parsed_config_bounded [OF parse_encoded_vault [OF ex_vault_ok, of ex_program "[]"]]
  by (simp add: vault_view_def ex_vault_def)

text \<open>
  C30: what the program stores in a vault account is what the application reads: for every vault
  the program can hold (32 byte keys, at most 20 beneficiaries, field ranges of the struct), any
  program id and any zero padding of the account, \<open>parseVaultConfig\<close> succeeds and returns the
  stored fields in their positions; both parser implementations do.
\<close>

theorem vault_config_roundtrip:
  assumes "vault_ok v"
  shows "parseVaultConfig (Some (program_account pid VaultConfigK (enc_vault v) pad)) pid = Some (vault_view v)
    \<and> parseVaultConfigRaw pid (Some (program_account pid VaultConfigK (enc_vault v) pad)) w
        = (Inr (Some (vault_view v)), w)"
  using parse_encoded_vault [OF assms] by (simp add: raw_parsers_eq ret_apply)

theorem vault_config_roundtrip_witness:
  "parseVaultConfig (Some (program_account ex_program VaultConfigK (enc_vault ex_vault) [0, 0])) ex_program
     = Some (vault_view ex_vault) \<and> openTokenDists (vault_view ex_vault) = 2"
  using vault_config_roundtrip [OF ex_vault_ok, of ex_program "[0, 0]" "()"]
  by (simp add: vault_view_def ex_vault_def)

text \<open>
  the execution log, the asset plan and the token distribution that the program writes are read
  back with the snapshot, the full paid masks (32 and 64 bits) and every assignment in order: the
  crank's resume decisions are made on the bits the program stored.
\<close>

theorem progress_accounts_roundtrip:
  assumes "length (rl_vault l) = 32" "rl_snapshot l < 256 ^ 8"
    and "plan_ok p"
    and "length (rd_vault t) = 32" "length (rd_mint t) = 32" "rd_snapshot t < 256 ^ 8"
  shows "parseExecutionLog (Some (program_account pid ExecutionLogK (enc_log l) pad)) pid
      = Some \<lparr>solSnapshot = rl_snapshot l, solPaidMask = unat (rl_mask l), completed = rl_completed l\<rparr>
    \<and> parseAssetPlan (Some (program_account pid AssetPlanK (enc_plan p) pad)) pid
      = Some \<lparr>assignments = map assignment_view (rp_assignments p), ap_paidMask = unat (rp_mask p)\<rparr>
    \<and> parseTokenDist (Some (program_account pid TokenDistK (enc_dist t) pad)) pid
      = Some \<lparr>td_snapshot = rd_snapshot t, td_paidMask = unat (rd_mask t)\<rparr>"
  using parse_encoded_log [OF assms(1,2)] parse_encoded_plan [OF assms(3)] parse_encoded_dist [OF assms(4-6)]
  by simp

definition ex_log :: rust_log where
  "ex_log = \<lparr>rl_vault = replicate 32 5, rl_snapshot = 10, rl_mask = 3, rl_started = 7, rl_completed = True,
     rl_count = 2, rl_total = 9, rl_bump = 1\<rparr>"

definition ex_plan :: rust_plan where
  "ex_plan = \<lparr>rp_vault = replicate 32 5, rp_assignments =
     [\<lparr>ra_mint = default_pubkey, ra_amount = 77, ra_benef = 1, ra_nft = False\<rparr>,
      \<lparr>ra_mint = replicate 32 6, ra_amount = 1, ra_benef = 0, ra_nft = True\<rparr>],
     rp_mask = 2, rp_bump = 3\<rparr>"

definition ex_dist :: rust_dist where
  "ex_dist = \<lparr>rd_vault = replicate 32 5, rd_mint = replicate 32 6, rd_snapshot = 1000, rd_mask = 1, rd_bump = 2\<rparr>"

lemma ex_plan_ok: "plan_ok ex_plan"
  by (simp add: plan_ok_def ex_plan_def assignment_ok_def default_pubkey_def)

theorem progress_accounts_roundtrip_witness:
  "parseExecutionLog (Some (program_account ex_program ExecutionLogK (enc_log ex_log) [])) ex_program
      = Some \<lparr>solSnapshot = 10, solPaidMask = 3, completed = True\<rparr>"
proof -
  have "length (rl_vault ex_log) = 32" "rl_snapshot ex_log < 256 ^ 8" "length (rd_vault ex_dist) = 32"
    "length (rd_mint ex_dist) = 32" "rd_snapshot ex_dist < 256 ^ 8"
    by (simp_all add: ex_log_def ex_dist_def)
  from progress_accounts_roundtrip [OF this(1,2) ex_plan_ok this(3-5), of ex_program "[]"]
  show ?thesis by (simp add: ex_log_def)
qed

text \<open>
  the deadline the application shows is the program's: for a vault and a heartbeat record whose
  times are non-negative and sum below \<open>2^53\<close>, \<open>parseDeadline\<close> is exactly
  last heartbeat + interval + grace, with no rounding; \<open>deadlineRaw\<close> agrees.
\<close>

theorem deadline_exact:
  assumes "vault_ok v" "length (rh_vault h) = 32"
    and "0 \<le> rv_interval v" "0 \<le> rv_grace v" "0 \<le> rh_last h"
      "rh_last h + rv_interval v + rv_grace v < 2 ^ 53"
  shows "parseDeadline (Some (program_account pid VaultConfigK (enc_vault v) pad))
      (Some (program_account pid HeartbeatRecordK (enc_heartbeat h) pad')) pid
    = Some (rh_last h + rv_interval v + rv_grace v)
    \<and> deadlineRaw pid (Some (program_account pid VaultConfigK (enc_vault v) pad))
        (Some (program_account pid HeartbeatRecordK (enc_heartbeat h) pad'))
      = Some (rh_last h + rv_interval v + rv_grace v)"
  using parse_encoded_deadline [OF assms] by (simp add: raw_parsers_eq)

definition ex_heartbeat :: rust_heartbeat where
  "ex_heartbeat = \<lparr>rh_vault = replicate 32 5, rh_last = 1700000500, rh_method = 1, rh_total = 12, rh_bump = 4\<rparr>"

theorem deadline_exact_witness:
  "parseDeadline (Some (program_account ex_program VaultConfigK (enc_vault ex_vault) []))
     (Some (program_account ex_program HeartbeatRecordK (enc_heartbeat ex_heartbeat) [])) ex_program
   = Some 1700090500"
  using deadline_exact [OF ex_vault_ok, of ex_heartbeat ex_program "[]" "[]"]
  by (simp add: ex_heartbeat_def ex_vault_def)

text \<open>
  the cursor's \<open>i64()\<close> reads the stored two's complement as an unsigned number: a negative
  timestamp comes back as \<open>2^64\<close> plus it, with the cursor moved past the field.
\<close>

theorem cursor_i64_unsigned:
  assumes "- (2 ^ 63) \<le> x" "x < 0"
  shows "c_i64 \<lparr>cur_data = pre @ enc_i64 x @ post, cur_offset = length pre\<rparr>
    = (Inr (nat (2 ^ 64 + x)), \<lparr>cur_data = pre @ enc_i64 x @ post, cur_offset = length pre + 8\<rparr>)"
proof -
  have "x mod 2 ^ 64 = (2 ^ 64 + x) mod 2 ^ 64" by simp
  also have "\<dots> = 2 ^ 64 + x" using assms by (intro mod_pos_pos_trivial) simp_all
  finally show ?thesis using i64.reads_back [OF TrueI, of pre x post] by simp
qed

theorem cursor_i64_unsigned_witness:
  "c_i64 \<lparr>cur_data = enc_i64 (- 1), cur_offset = 0\<rparr>
     = (Inr 18446744073709551615, \<lparr>cur_data = enc_i64 (- 1), cur_offset = 8\<rparr>)"
  using cursor_i64_unsigned [of "- 1" "[]" "[]"] by simp

end
