(* ===== verification/Web_Runs.thy ===== *)
theory Web_Runs
  imports Web_Core_Props Program_Layout
begin

text \<open>
  A console over a connection that answers, with keys written as pairs of letters: the hypotheses of the
  web properties hold there, and two plans that the bequest editor does not give back as they were.
\<close>

subsection \<open>Keys as letters\<close>

definition letter :: "nat \<Rightarrow> char" where
  "letter n = char_of (65 + n)"

definition letters :: "pubkey \<Rightarrow> string" where
  "letters k = concat (map (\<lambda>b. [letter (unat b div 16), letter (unat b mod 16)]) k)"

definition is_letter :: "char \<Rightarrow> bool" where
  "is_letter c \<longleftrightarrow> 65 \<le> (of_char c :: nat) \<and> (of_char c :: nat) < 81"

fun unletters :: "string \<Rightarrow> exn + pubkey" where
  "unletters [] = Inr []"
| "unletters [c] = Inl (Error ''Invalid public key input'')"
| "unletters (c # d # s) =
     (if is_letter c \<and> is_letter d
      then case unletters s of Inl e \<Rightarrow> Inl e | Inr k \<Rightarrow> Inr (of_nat (16 * (of_char c - 65) + (of_char d - 65)) # k)
      else Inl (Error ''Invalid public key input''))"

lemma of_char_letter: "n < 16 \<Longrightarrow> of_char (letter n) = (65 + n :: nat)"
  by (simp add: letter_def)

lemma letter_of_char: "is_letter c \<Longrightarrow> letter (of_char c - 65) = c"
  by (simp add: letter_def is_letter_def)

lemma unletters_letters: "unletters (letters k) = Inr k"
proof (induction k)
  case (Cons b k)
  have b: "unat b < 256" using unsigned_less [of b, where 'a = nat] by simp
  have d: "unat b div 16 < 16" "unat b mod 16 < 16" using b by auto
  have "is_letter (letter (unat b div 16))" "is_letter (letter (unat b mod 16))" using d by (simp_all add: is_letter_def of_char_letter)
  then show ?case using Cons d by (simp add: letters_def of_char_letter)
qed (simp add: letters_def)

lemma unat_byte: "n < 256 \<Longrightarrow> unat (of_nat n :: byte) = n"
  by (simp add: unsigned_of_nat take_bit_nat_eq_self)

lemma letters_unletters: "unletters s = Inr k \<Longrightarrow> s = letters k"
proof (induction s arbitrary: k rule: unletters.induct)
  case (3 c d s)
  then obtain k' where k: "is_letter c" "is_letter d" "unletters s = Inr k'" "k = of_nat (16 * (of_char c - 65) + (of_char d - 65)) # k'"
    by (auto split: if_splits sum.splits)
  have n: "(of_char c :: nat) - 65 < 16" "(of_char d :: nat) - 65 < 16" using k(1,2) by (auto simp: is_letter_def)
  have "unat (of_nat (16 * (of_char c - 65) + (of_char d - 65)) :: byte) = 16 * (of_char c - 65) + (of_char d - 65)"
    by (rule unat_byte) (use n in simp)
  then show ?case using 3 k n by (simp add: letters_def letter_of_char)
qed (simp_all add: letters_def)

lemma letters_no_space: "list_all (\<lambda>c. \<not> is_space c) (letters k)"
proof -
  have "\<not> is_space (letter n)" if "n < 16" for n
    using of_char_letter [OF that] by (auto simp: is_space_def)
  moreover have "unat b div 16 < 16" "unat b mod 16 < 16" for b :: byte
    using unsigned_less [of b, where 'a = nat] by auto
  ultimately show ?thesis unfolding letters_def list_all_iff by auto
qed

lemma trimmed_id: "list_all (\<lambda>c. \<not> is_space c) s \<Longrightarrow> js_trimmed s = s"
proof -
  assume n: "list_all (\<lambda>c. \<not> is_space c) s"
  have "dropWhile is_space t = t" if "list_all (\<lambda>c. \<not> is_space c) t" for t
    using that by (cases t) auto
  from this [of s] this [of "rev s"] n have "dropWhile is_space s = s" "dropWhile is_space (rev s) = rev s" by (auto simp: list_all_iff)
  then show ?thesis using n unfolding js_trimmed_def by simp
qed

subsection \<open>A console\<close>

definition web_rpc :: "chain \<Rightarrow> 'w rpc" where
  "web_rpc C =
     \<lparr>getAccountInfo = (\<lambda>k. ret (ch_info C k)),
      anchorVaultConfig = (\<lambda>k. throw (External 1)),
      getParsedTokenAccountsByOwner = (\<lambda>k p. ret (ch_tokens C k p)),
      getMint = (\<lambda>k p. case ch_mint C k of Some m \<Rightarrow> ret m | None \<Rightarrow> throw (External 2)),
      getAccount = (\<lambda>k p. case ch_token_account C k of Some a \<Rightarrow> ret a | None \<Rightarrow> throw (External 3)),
      getTokenAccountBalance = (\<lambda>k. case ch_balance C k of Some a \<Rightarrow> ret a | None \<Rightarrow> throw (External 4)),
      getMinimumBalanceForRentExemption = (\<lambda>n. ret (ch_rent C n)),
      getBalance = (\<lambda>k. ret 0),
      getLatestBlockhash = ret \<lparr>blockhash = ''hash'', lastValidBlockHeight = 150\<rparr>,
      sendRawTransaction = (\<lambda>t. ret ''signature''),
      confirmTransaction = (\<lambda>s b. ret ()),
      getHeliusApiKey = (\<lambda>_. []),
      getRpcUrl = (\<lambda>_. ''https://rpc''),
      rpc_net = \<lparr>fetch = (\<lambda>_. throw (External 5)), sleep_ms = (\<lambda>_. ret ()), random01 = ret 0,
                  stringify = (\<lambda>_. []), set_rate_limited = id\<rparr>\<rparr>"

definition no_chain :: chain where
  "no_chain = \<lparr>ch_info = \<lambda>_. None, ch_tokens = \<lambda>_ _. [], ch_balance = \<lambda>_. None, ch_rent = \<lambda>_. 0,
     ch_token_account = \<lambda>_. None, ch_mint = \<lambda>_. None\<rparr>"

definition web_env :: env where
  "web_env = ex_env\<lparr>b58 := letters\<rparr>"

definition text_of :: "dbl \<Rightarrow> string" where
  "text_of x = (if x = Fin 60 then ''60'' else if x = Fin 40 then ''40'' else ''1.5'')"

definition console :: "web_world web_deps" where
  "console = \<lparr>wd_env = web_env, wd_rpc = web_rpc no_chain, wd_genesis = \<lambda>_. ret ''genesis'', wd_expected = ''genesis'',
     wd_setting = ret (Some ''https://mine''), wd_newKey = unletters, wd_numText = text_of, wd_mintDecimals = \<lambda>_. ret None,
     wd_sign = ret, wd_blockTime = ret None, wd_now = ret 0, wd_message = \<lambda>_. ''error'', wd_served = \<lambda>_. ret []\<rparr>"

definition fresh_console :: web_world where
  "fresh_console = \<lparr>cw_running = False, activeRpcUrl = ''https://rpc'', verifiedForRpc = None, ns_state = NetUnknown, ns_received = None,
     wb_proceed = False, wb_action = idle, wb_vault = None, wb_exists = None, wb_error = None, wb_claim = claim_idle, wb_items = [],
     wb_itemsError = None\<rparr>"

lemma console_keys: "key_text console"
  unfolding key_text_def console_def web_env_def
  using unletters_letters letters_unletters trimmed_id [OF letters_no_space] by auto

lemma web_rpc_answers: "answers E (web_rpc C) C"
  by (auto simp: answers_def web_rpc_def intro!: yields_ret yields_throw split: option.splits)

lemma web_rpc_reads: "rpc_reads I E (web_rpc C)"
  unfolding rpc_reads_def estimatePriorityFee_def
  by (auto simp: web_rpc_def gets_const intro!: preserves_bindE preserves_intro split: option.splits)

lemma dbl_of_numeral: "numeral n \<le> (2 ^ 53 :: int) \<Longrightarrow> dbl_of (numeral n) = Fin (numeral n)"
  using dbl_of_int [of "numeral n"] by simp

lemma sixty: "parseFloat ''60'' = Fin 60" "parseFloat ''40'' = Fin 40"
  by (simp_all add: parseFloat_def signed_decimal_def unsigned_decimal_def is_space_def is_dec_def exponent_part_def dec_val_def
      dbl_of_numeral Let_def)

lemma three_halves: "dbl_of (3 / 2) = Fin (3 / 2)"
  by (rule dbl_of_exact [of _ 3 "- 1"]) (simp_all add: power_int_minus)

lemma one_and_a_half: "parseFloat ''1.5'' = Fin (3 / 2)"
  by (simp add: parseFloat_def signed_decimal_def unsigned_decimal_def is_space_def is_dec_def exponent_part_def dec_val_def
      three_halves Let_def)

subsection \<open>The properties there\<close>

theorem web_shares_accepted_witness:
  "\<exists>bs. (\<forall>w. to_benef_inputs console [(letters [1], Fin 6000), (letters [2], Fin 4000)] w = (Inr bs, w))
     \<and> update_accepts [9] bs \<and> distinct (map bi_wallet bs) \<and> list_all (\<lambda>b. 0 < bi_shareBps b) bs"
proof -
  let ?rows = "[\<lparr>sr_wallet = letters [1], sr_share = ''60''\<rparr>, \<lparr>sr_wallet = letters [2], sr_share = ''40''\<rparr>]"
  have b: "row_bps \<lparr>sr_wallet = k, sr_share = ''60''\<rparr> = Fin 6000" "row_bps \<lparr>sr_wallet = k, sr_share = ''40''\<rparr> = Fin 4000" for k
    by (simp_all add: row_bps_def sixty dbl_of_numeral floor_eq_iff)
  have ne: "letters [9] \<noteq> letters [1]" "letters [9] \<noteq> letters [2]" "letters [1] \<noteq> letters [2]"
    using unletters_letters [of "[9]"] unletters_letters [of "[1]"] unletters_letters [of "[2]"] by auto
  have "checked_shares console (b58 (wd_env console) [9]) ?rows = Inr [(letters [1], Fin 6000), (letters [2], Fin 4000)]"
    using ne ne [symmetric] trimmed_id [OF letters_no_space] unletters_letters
    by (simp add: checked_shares_def total_bps_def b console_def web_env_def dbl_of_numeral)
  then show ?thesis using web_shares_accepted [OF console_keys, of "[9]" ?rows] by simp
qed

definition two_heirs :: vault_config where
  "two_heirs = \<lparr>vc_owner = [9], agentPubkey = [8], heartbeatInterval = 60, gracePeriod = 60,
     beneficiaries = [\<lparr>wallet = [1], shareBps = 6000, hasSpecificAssets = False\<rparr>, \<lparr>wallet = [2], shareBps = 4000, hasSpecificAssets = False\<rparr>],
     executed = False, active = True, createdAt = 0, updatedAt = 0, vc_bump = 0, isMutable = True, hasAssetPlan = True, openTokenDists = 0\<rparr>"

theorem web_share_roundtrip_witness:
  "checked_shares console (letters [9]) (share_rows console (vault_view_of console [9] two_heirs None 0 [] 0))
     = Inr [(letters [1], Fin 6000), (letters [2], Fin 4000)]"
proof -
  have "prints console (Fin 60)" "prints console (Fin 40)"
    by (simp_all add: prints_def console_def text_of_def sixty)
  then have "checked_shares console (b58 (wd_env console) [9])
      (share_rows console (vault_view_of console [9] two_heirs None 0 [] 0))
    = Inr (map (\<lambda>b. (b58 (wd_env console) (wallet b), Fin (of_nat (shareBps b)))) (beneficiaries two_heirs))"
    by (intro web_share_roundtrip [OF console_keys]) (simp_all add: two_heirs_def update_accepts_def dbl_of_numeral)
  then show ?thesis by (simp add: two_heirs_def console_def web_env_def)
qed

text \<open>The vault of the two heirs, which holds an NFT.\<close>

definition nft_mint :: pubkey where
  "nft_mint = replicate 32 5"

definition nft_view :: vault_view where
  "nft_view = vault_view_of console [9] two_heirs None 0 [\<lparr>pt_mint = nft_mint, pt_amount = 1, pt_decimals = 0, pt_ui = ''1''\<rparr>] 2"

definition sol_and_nft :: rust_plan where
  "sol_and_nft = \<lparr>rp_vault = replicate 32 7, rp_assignments =
     [\<lparr>ra_mint = default_pubkey, ra_amount = 1500000000, ra_benef = 0, ra_nft = False\<rparr>,
      \<lparr>ra_mint = nft_mint, ra_amount = 1, ra_benef = 1, ra_nft = True\<rparr>], rp_mask = 0, rp_bump = 3\<rparr>"

definition read_plan_of :: "rust_plan \<Rightarrow> asset_plan" where
  "read_plan_of p = \<lparr>assignments = map assignment_view (rp_assignments p), ap_paidMask = unat (rp_mask p)\<rparr>"

lemma nft_mint_letters: "letters nft_mint \<noteq> ''SOL''" "letters nft_mint \<noteq> letters default_pubkey" "nft_mint \<noteq> default_pubkey"
proof -
  have "hd nft_mint \<noteq> hd default_pubkey" by (simp add: nft_mint_def default_pubkey_def)
  then show d: "nft_mint \<noteq> default_pubkey" by auto
  have "length (letters nft_mint) = 64" by (simp add: letters_def nft_mint_def length_concat sum_list_replicate)
  then show "letters nft_mint \<noteq> ''SOL''" by auto
  show "letters nft_mint \<noteq> letters default_pubkey" using d unletters_letters [of nft_mint] unletters_letters [of default_pubkey] by auto
qed

lemma default_letters: "letters default_pubkey = replicate 64 (CHR ''A'')"
  by code_simp

lemma nft_tokens: "vv_tokens nft_view = [\<lparr>vt_mint = letters nft_mint, vt_amount = 1, vt_decimals = 0, vt_isNft = True\<rparr>]"
  "length (vv_beneficiaries nft_view) = 2" "vv_hasAssetPlan nft_view" "vv_owner nft_view = letters [9]"
  by (simp_all add: nft_view_def vault_view_of_def view_token_def console_def web_env_def two_heirs_def)

lemma nft_opt: "opt_by_key (asset_opts nft_view []) (letters nft_mint) = Some \<lparr>ao_key = letters nft_mint, ao_decimals = 0, ao_isNft = True\<rparr>"
  by (simp add: opt_by_key_def asset_opts_def nft_tokens sol_opt_def)

lemma console_exact: "bn_exact (wd_env console)"
  by (simp add: bn_exact_def console_def web_env_def ex_env_def)

lemma default_not_offered:
  "b58 (wd_env console) default_pubkey \<notin> vt_mint ` set (vv_tokens nft_view) \<union> ao_key ` set [] \<union> {''SOL''}"
  using nft_mint_letters(2) by (simp add: console_def web_env_def nft_tokens) (simp add: default_letters numeral_eq_Suc)

text \<open>One and a half SOL typed for the second heir and the NFT given to the first.\<close>

definition typed_rows :: "bequest_row list" where
  "typed_rows = [\<lparr>br_asset = ''SOL'', br_amount = ''1.5'', br_ben = 1\<rparr>, \<lparr>br_asset = letters nft_mint, br_amount = [], br_ben = 0\<rparr>]"

theorem web_bequests_accepted_witness:
  "yields (checked_plan console nft_view [] typed_rows [9])
    (\<lambda>r. case r of
       None \<Rightarrow> True
     | Some (as, t) \<Rightarrow> \<exists>cs remaining. carries_plan (vv_hasAssetPlan nft_view) cs remaining t \<and> cs = map chain_of as
         \<and> plan_accepted (\<lambda>m. m = nft_mint) cs (length (vv_beneficiaries nft_view)) (map mt_key remaining) \<and> list_all (\<lambda>c. 0 < ca_amount c) cs)"
proof (rule web_bequests_accepted [OF console_keys console_exact default_not_offered])
  fix o' m
  assume "o' \<in> set (asset_opts nft_view [])" "ao_key o' \<noteq> ''SOL''" "wd_newKey console (ao_key o') = Inr m"
  then show "m = nft_mint" using unletters_letters [of nft_mint] by (auto simp: asset_opts_def sol_opt_def nft_tokens console_def)
qed

text \<open>The console over a chain that stores the plan.\<close>

definition plan_chain :: chain where
  "plan_chain = no_chain\<lparr>ch_info := \<lambda>k. if k = getAssetPlanPDA web_env (getVaultPDA web_env [9])
     then Some \<lparr>acc_owner = program_id web_env, acc_data = DISCRIMINATORS AssetPlanK @ enc_plan sol_and_nft @ [], acc_lamports = 1\<rparr> else None\<rparr>"

definition plan_console :: "web_world web_deps" where
  "plan_console = console\<lparr>wd_rpc := web_rpc plan_chain\<rparr>"

lemma plan_console_same [simp]: "wd_env plan_console = web_env" "wd_newKey plan_console = unletters" "wd_numText plan_console = text_of"
  "key_text plan_console" "bn_exact (wd_env plan_console)"
  using console_keys console_exact by (simp_all add: plan_console_def console_def key_text_def)

lemma sol_and_nft_ok: "plan_ok sol_and_nft"
  by (simp add: plan_ok_def sol_and_nft_def assignment_ok_def default_pubkey_def nft_mint_def)

lemma plan_console_reads:
  "fetchAssetPlan web_env (wd_rpc plan_console) [9] w = (Inr (Some (read_plan_of sol_and_nft)), w)"
proof -
  have e: "map_option acct.truncate (ch_info plan_chain (getAssetPlanPDA web_env (getVaultPDA web_env [9])))
      = Some (program_account (program_id web_env) AssetPlanK (enc_plan sol_and_nft) [])"
    by (simp add: plan_chain_def acct.defs program_account_def del: DISCRIMINATORS.simps)
  have "fetchAssetPlan web_env (wd_rpc plan_console) [9] w
      = (Inr (parseAssetPlan (map_option acct.truncate (ch_info plan_chain (getAssetPlanPDA web_env (getVaultPDA web_env [9])))) (program_id web_env)), w)"
    by (simp add: fetchAssetPlan_def rawInfo_def plan_console_def web_rpc_def parseAssetPlanRaw_eq bindE_def ret_apply)
  then show ?thesis unfolding e parse_encoded_plan [OF sol_and_nft_ok] read_plan_of_def .
qed

lemma plan_assignments:
  "assignments (read_plan_of sol_and_nft) =
     [\<lparr>a_mint = default_pubkey, a_amount = 1500000000, beneficiaryIndex = 0, isNft = False\<rparr>,
      \<lparr>a_mint = nft_mint, a_amount = 1, beneficiaryIndex = 1, isNft = True\<rparr>]"
  by (simp add: read_plan_of_def sol_and_nft_def assignment_view_def)

lemma sol_and_nft_editable: "list_all (editable plan_console nft_view []) (assignments (read_plan_of sol_and_nft))"
proof -
  have s: "shown nft_view [] k \<lparr>a_mint = default_pubkey, a_amount = 1500000000, beneficiaryIndex = 0, isNft = False\<rparr> = Fin (3 / 2)" for k
    using three_halves by (simp add: shown_def dbl_of_numeral)
  have p: "prints plan_console (Fin (3 / 2))" by (simp add: prints_def text_of_def one_and_a_half)
  have b: "b58 web_env = letters" "new_bn web_env = Inr" by (simp_all add: web_env_def ex_env_def)
  show ?thesis using nft_mint_letters by (simp add: plan_assignments editable_def s p nft_tokens b nft_opt Let_def)
qed

theorem web_plan_roundtrip_witness:
  "bequest_session plan_console (Some [9]) nft_view [] fresh_console
     = bindE (saveBequests plan_console (Some [9])
         [\<lparr>aa_mint = default_pubkey, aa_amount = IsBN 1500000000, aa_benef = 0, aa_nft = False\<rparr>,
          \<lparr>aa_mint = nft_mint, aa_amount = IsBN 1, aa_benef = 1, aa_nft = True\<rparr>] True) (\<lambda>ok. ret (Inr ok)) fresh_console"
proof -
  have m: "map as_submitted (assignments (read_plan_of sol_and_nft)) =
      [\<lparr>aa_mint = default_pubkey, aa_amount = IsBN 1500000000, aa_benef = 0, aa_nft = False\<rparr>,
       \<lparr>aa_mint = nft_mint, aa_amount = IsBN 1, aa_benef = 1, aa_nft = True\<rparr>]"
    by (simp add: plan_assignments as_submitted_def)
  have x: "extra_opts plan_console nft_view (assignments (read_plan_of sol_and_nft)) fresh_console = (Inr [], fresh_console)"
    by (simp add: extra_opts_def unheld_mints_def plan_assignments nft_tokens web_env_def ret_apply)
  have "bequest_session plan_console (Some [9]) nft_view [] fresh_console
      = bindE (saveBequests plan_console (Some [9]) (map as_submitted (assignments (read_plan_of sol_and_nft))) (vv_hasAssetPlan nft_view))
          (\<lambda>ok. ret (Inr ok)) fresh_console"
  proof (rule conjunct1 [OF web_plan_roundtrip [where owner = "[9]" and extra = "[]"]])
    show "wd_newKey plan_console (vv_owner nft_view) = Inr [9]" by (simp add: nft_tokens unletters_letters)
    show "fetchAssetPlan (wd_env plan_console) (wd_rpc plan_console) [9] fresh_console = (Inr (Some (read_plan_of sol_and_nft)), fresh_console)"
      by (simp add: plan_console_reads)
  qed (rule x sol_and_nft_editable plan_console_same | use nft_mint_letters(1) in \<open>simp add: nft_tokens plan_assignments\<close>)+
  then show ?thesis by (simp only: m nft_tokens)
qed

theorem web_large_amounts_even_witness:
  "yields (checked_bequests console nft_view [] [\<lparr>br_asset = ''SOL'', br_amount = ''9007199.254740993'', br_ben = 1\<rparr>])
    (\<lambda>c. case c of Inl e \<Rightarrow> True | Inr as \<Rightarrow> list_all (\<lambda>a. 2 ^ 53 < raw_of (aa_amount a) \<longrightarrow> even (raw_of (aa_amount a))) as)"
  by (rule web_large_amounts_even) (simp add: bn_exact_def console_def web_env_def ex_env_def)

theorem web_save_rewrites_as_nft_witness:
  "checked_bequests console nft_view [] [bequest_row_of console nft_view [] \<lparr>a_mint = nft_mint, a_amount = 500, beneficiaryIndex = 1, isNft = False\<rparr>]
    = ret (Inr [\<lparr>aa_mint = nft_mint, aa_amount = IsBN 1, aa_benef = 1, aa_nft = True\<rparr>])"
proof -
  have k: "b58 (wd_env console) nft_mint = letters nft_mint" by (simp add: console_def web_env_def)
  show ?thesis
    using web_save_rewrites_as_nft [OF console_keys, of "\<lparr>a_mint = nft_mint, a_amount = 500, beneficiaryIndex = 1, isNft = False\<rparr>" nft_view "[]"] nft_mint_letters
    by (simp add: k nft_opt nft_tokens)
qed

theorem web_unverified_writes_nothing_witness:
  "fst (run_action console (Some [9]) ''Clearing bequests'' (buildClearAssetPlanTx web_env (web_rpc no_chain)) fresh_console) = Inr False"
proof -
  have "preserves unverified (buildClearAssetPlanTx web_env (web_rpc no_chain) [9])"
    unfolding buildClearAssetPlanTx_def Let_def by (rule reads_preserve(4) [OF web_rpc_reads])
  moreover have "unverified fresh_console" by (simp add: fresh_console_def)
  ultimately show ?thesis using web_unverified_writes_nothing by blast
qed

lemma quiet_ret: "quiet_net (ret a)"
  by (simp add: quiet_net_def same_net_def ret_apply)

theorem gate_verified_is_genuine_witness:
  "wp (seqE (boot console) (gate_session console [True, False]))
    (\<lambda>_ w'. (ns_state w' = NetVerified \<longrightarrow> answered (wd_genesis console (activeRpcUrl w')) (\<lambda>g. g = wd_expected console))
       \<and> (wb_proceed w' \<longrightarrow> ns_state w' = NetVerified \<or> ns_state w' = NetUnknown \<and> True \<in> set [True, False])) (\<lambda>_ _. False) fresh_console"
  by (rule gate_verified_is_genuine) (simp_all add: console_def quiet_ret fresh_console_def)

theorem web_missing_only_if_absent_witness:
  "wp (refresh_vault console (Some [9]))
    (\<lambda>_ w'. wb_exists w' = Some False \<longrightarrow> ch_info no_chain (getVaultPDA web_env [9]) = None) (\<lambda>_ _. False) fresh_console"
proof -
  have d: "wd_env console = web_env" "wd_rpc console = web_rpc no_chain" by (simp_all add: console_def)
  have e: "wb_exists fresh_console \<noteq> Some False" by (simp add: fresh_console_def)
  show ?thesis using web_missing_only_if_absent [of console no_chain fresh_console "[9]", unfolded d, OF web_rpc_answers web_rpc_reads e] .
qed

text \<open>The console while its RPC answers no account.\<close>

definition outage_console :: "web_world web_deps" where
  "outage_console = console\<lparr>wd_rpc := (web_rpc no_chain)\<lparr>getAccountInfo := \<lambda>_. throw (External 9)\<rparr>\<rparr>"

definition typed_edits :: "row_edit list" where
  "typed_edits = [Row_add, Row_amount 0 ''1.5'']"

lemma typed_edits_rows: "fold (edit_rows (asset_opts nft_view [])) typed_edits [] = [\<lparr>br_asset = ''SOL'', br_amount = ''1.5'', br_ben = 0\<rparr>]"
  by (simp add: typed_edits_def asset_opts_def sol_opt_def)

definition typed_plan :: "asset_assignment list" where
  "typed_plan = [\<lparr>aa_mint = default_pubkey, aa_amount = IsBN 1500000000, aa_benef = 0, aa_nft = False\<rparr>]"

lemma sol_option: "opt_by_key (asset_opts nft_view []) ''SOL'' = Some sol_opt"
  using nft_mint_letters(1) by (simp add: opt_by_key_def asset_opts_def nft_tokens sol_opt_def)

lemma typed_checked:
  "checked_bequests outage_console nft_view [] [\<lparr>br_asset = ''SOL'', br_amount = ''1.5'', br_ben = 0\<rparr>] = ret (Inr typed_plan)"
proof -
  have n: "new_bn (wd_env outage_console) = Inr" by (simp add: outage_console_def console_def web_env_def ex_env_def)
  have "dmul (Fin (3 / 2)) (Fin 1000000000) = Fin 1500000000" by (simp add: dbl_of_numeral)
  moreover have "\<lfloor>3000000001 / 2 :: rat\<rfloor> = 1500000000" by (simp add: floor_eq_iff)
  ultimately show ?thesis
    by (simp add: checked_bequests_def sol_option nft_tokens one_and_a_half sol_opt_def bn_of_dbl_def n liftE_apply typed_plan_def
        fun_eq_iff bindE_def ret_apply)
qed

lemma typed_saved: "fst (saveBequests outage_console (Some [9]) typed_plan True (fresh_console\<lparr>ns_state := NetVerified\<rparr>)) = Inr True"
  by (simp add: saveBequests_def run_action_def set_action_def buildUpdateAssetPlanTx_def assertPlanFits_def distinct_mints_def typed_plan_def
      to_chain_all_def toOnChainAssignment_def addPriorityFee_def estimatePriorityFee_def signSendOwnerTx_def assertNetworkVerified_def
      refresh_vault_def load_view_def fetchVaultConfig_def rawInfo_def set_wb_error_def outage_console_def console_def web_rpc_def
      fresh_console_def bindE_def tryE_def ret_apply throw_apply modify_def gets_def Let_def)

theorem web_failed_load_drops_plan_witness:
  "load_rows outage_console nft_view = ret ([], [])
   \<and> (let rows = fold (edit_rows (asset_opts nft_view [])) typed_edits [] in
      bequest_session outage_console (Some [9]) nft_view typed_edits = bindE (checked_bequests outage_console nft_view [] rows) (\<lambda>c. case c of
            Inl b \<Rightarrow> ret (Inl b)
          | Inr as \<Rightarrow> bindE (saveBequests outage_console (Some [9]) as True) (\<lambda>ok. ret (Inr ok)))
        \<and> yields (checked_plan outage_console nft_view [] rows [9]) (\<lambda>r. case r of
            None \<Rightarrow> True
          | Some (as, t) \<Rightarrow> length as = length rows \<and> (\<exists>cs remaining. carries_plan True cs remaining t
              \<and> (\<forall>stored. assignments (update_asset_plan cs stored) = map stored_assignment (map chain_of as)))))
   \<and> fst (bequest_session outage_console (Some [9]) nft_view typed_edits (fresh_console\<lparr>ns_state := NetVerified\<rparr>)) = Inr (Inr True)"
proof -
  have o': "wd_env outage_console = web_env" "wd_newKey outage_console = unletters"
    "getAccountInfo (wd_rpc outage_console) = (\<lambda>_. throw (External 9))"
    by (simp_all add: outage_console_def console_def)
  have e: "bn_exact (wd_env outage_console)" using console_exact by (simp add: o' console_def)
  note t = web_failed_load_drops_plan [of outage_console nft_view "[9]" "External 9", OF _ _ e nft_tokens(3), of typed_edits "Some [9]" "[9]",
      unfolded o' nft_tokens(4), OF unletters_letters refl]
  have run: "bequest_session outage_console (Some [9]) nft_view typed_edits
      = bindE (saveBequests outage_console (Some [9]) typed_plan True) (\<lambda>ok. ret (Inr ok))"
    using t unfolding Let_def typed_edits_rows by (simp add: typed_checked)
  have "fst (bequest_session outage_console (Some [9]) nft_view typed_edits (fresh_console\<lparr>ns_state := NetVerified\<rparr>)) = Inr (Inr True)"
  proof (cases "saveBequests outage_console (Some [9]) typed_plan True (fresh_console\<lparr>ns_state := NetVerified\<rparr>)")
    case (Pair r w)
    then show ?thesis using typed_saved by (simp add: run bindE_def ret_apply)
  qed
  then show ?thesis using t o' by blast
qed

end
