(* ===== verification/Home_Runs.thy ===== *)
theory Home_Runs
  imports Revoke_Props Setup_Run App_Runs
begin

text \<open>
  The owner's device as a whole: the key manager's round trip, revoking with and without the chain
  answering, the refresh of the dashboard in an outage, and a vault activated over a key that was
  destroyed halfway.
\<close>

subsection \<open>Runs of the secure store\<close>

text \<open>No operation of the secure store fails from here on.\<close>

definition steady :: "'e home_world_scheme \<Rightarrow> bool" where
  "steady w \<longleftrightarrow> hw_faults w = (\<lambda>_. False)"

lemma steady_blind [simp]:
  "steady (w\<lparr>hw_ops := n\<rparr>) = steady w" "steady (w\<lparr>hw_items := i\<rparr>) = steady w" "steady (w\<lparr>hw_cached := c\<rparr>) = steady w"
  "steady (w\<lparr>hw_store := s\<rparr>) = steady w"
  by (simp_all add: steady_def)

lemma steady_secure [wp_simps]:
  "steady w \<Longrightarrow> wp (secure f) Q E w = Q (fst (f (hw_items w))) (w\<lparr>hw_ops := Suc (hw_ops w), hw_items := snd (f (hw_items w))\<rparr>)"
  by (simp add: wp_secure steady_def)

subsection \<open>The agent key\<close>

definition key_stored :: "env \<Rightarrow> ('e home_world_scheme) key_deps \<Rightarrow> bytes \<Rightarrow> string \<Rightarrow> 'e home_world_scheme \<Rightarrow> bool" where
  "key_stored E K secret pub v \<longleftrightarrow>
     hw_cached v = Some secret \<and> pub = b58 E (kd_public K secret)
     \<and> hw_items v SECRET_KEY = Some (kd_encode K secret) \<and> hw_items v PUBLIC_KEY = Some pub"

lemma generate_stores: "wp (generateAgentKey E K) (\<lambda>pub v. \<exists>secret. key_stored E K secret pub v) (\<lambda>_ _. True) w"
  unfolding generateAgentKey_def wp_bindE
proof (rule wp_mono [where Q = "\<lambda>_ _. True" and E = "\<lambda>_ _. True"])
  show "wp (kd_generate K) (\<lambda>_ _. True) (\<lambda>_ _. True) w" by (simp add: wp_def split: prod.split sum.split)
  fix secret and v :: "'a home_world_scheme"
  show "wp (let secretB58 = kd_encode K secret; publicB58 = b58 E (kd_public K secret)
       in bindE (tryE (seqE (setItemGated SECRET_KEY secretB58) (ret True)) (\<lambda>_. seqE (setItemAsync SECRET_KEY secretB58) (ret False))) (\<lambda>authed.
          seqE (setItemAsync PUBLIC_KEY publicB58) (seqE (setItemAsync AUTH_FLAG (if authed then ''1'' else ''0''))
          (seqE (modify (\<lambda>w. w\<lparr>hw_cached := Some secret\<rparr>)) (ret publicB58)))))
     (\<lambda>pub v. \<exists>secret. key_stored E K secret pub v) (\<lambda>_ _. True) v"
    unfolding item_ops Let_def by (simp add: wp_simps key_stored_def key_names)
qed simp

lemma key_reads_back:
  assumes "kd_restore K (kd_encode K secret) = Inr secret" "kd_encode K secret \<noteq> []" "hw_items w SECRET_KEY = Some (kd_encode K secret)"
    "steady w" "hw_cached w = None"
  shows "wp (getKeypair K) (\<lambda>s u. s = secret \<and> hw_items u = hw_items w) (\<lambda>_ _. False) w"
  using assms(4,5) unfolding getKeypair_def item_ops
  by (simp add: wp_bindE wp_gets wp_ret wp_liftE wp_modify steady_secure) (simp add: assms(1-3) wp_simps)

definition restart :: "('e home_world_scheme, unit) io" where
  "restart = modify (\<lambda>u. u\<lparr>hw_cached := None, hw_faults := (\<lambda>_. False)\<rparr>)"

text \<open>
  the agent key survives a restart: when a generated key was stored, then after the cache is gone
  the key manager reads back the very secret that was generated, and the public key it reports is the
  one of that secret; this holds with and without a lock screen, whatever failed in the secure store
  before the key was stored, if base58 restores what it encoded.
\<close>

theorem agent_key_roundtrip:
  assumes "\<And>s. kd_restore K (kd_encode K s) = Inr s" "\<And>s. kd_encode K s \<noteq> []"
  shows "wp (generateAgentKey E K)
    (\<lambda>pub v. wp (seqE restart (getKeypair K))
       (\<lambda>secret u. hw_cached v = Some secret \<and> pub = b58 E (kd_public K secret) \<and> hw_items u PUBLIC_KEY = Some pub) (\<lambda>_ _. False) v)
    (\<lambda>_ _. True) w"
proof (rule wp_mono [OF generate_stores])
  fix pub v assume "\<exists>secret. key_stored E K secret pub v"
  then obtain secret where st: "key_stored E K secret pub v" by blast
  show "wp (seqE restart (getKeypair K))
      (\<lambda>secret u. hw_cached v = Some secret \<and> pub = b58 E (kd_public K secret) \<and> hw_items u PUBLIC_KEY = Some pub) (\<lambda>_ _. False) v"
    unfolding restart_def wp_bindE wp_modify
    by (rule wp_mono [OF key_reads_back [OF assms(1) [of secret] assms(2) [of secret]]]) (use st in \<open>auto simp: key_stored_def steady_def\<close>)
qed simp

subsection \<open>An outage of the RPC\<close>

definition down_rpc :: "'w rpc" where
  "down_rpc =
     \<lparr>getAccountInfo = (\<lambda>k. throw (External 9)), anchorVaultConfig = (\<lambda>k. throw (External 9)),
      getParsedTokenAccountsByOwner = (\<lambda>k p. throw (External 9)), getMint = (\<lambda>k p. throw (External 9)), getAccount = (\<lambda>k p. throw (External 9)),
      getTokenAccountBalance = (\<lambda>k. throw (External 9)), getMinimumBalanceForRentExemption = (\<lambda>n. throw (External 9)),
      getBalance = (\<lambda>k. throw (External 9)), getLatestBlockhash = throw (External 9), sendRawTransaction = (\<lambda>t. throw (External 9)),
      confirmTransaction = (\<lambda>s b. throw (External 9)), getHeliusApiKey = (\<lambda>w. []), getRpcUrl = (\<lambda>w. []),
      rpc_net = \<lparr>fetch = (\<lambda>_. throw (External 9)), sleep_ms = (\<lambda>_. ret ()), random01 = ret 0, stringify = (\<lambda>j. []), set_rate_limited = id\<rparr>\<rparr>"

lemma down_reads:
  "fetchVaultConfig E down_rpc owner = ret None" "getBalance down_rpc k = throw (External 9)"
  by (simp_all add: fetchVaultConfig_def rawInfo_def down_rpc_def Let_def)

definition in_outage :: "('e home_world_scheme) revoke_deps \<Rightarrow> ('e home_world_scheme) revoke_deps" where
  "in_outage D = D\<lparr>rv_rpc := down_rpc\<rparr>"

lemma outage_refund: "steady w \<Longrightarrow> wp (refund_agent (in_outage D) owner) (\<lambda>rf v. rf_txs rf = [] \<and> steady v) (\<lambda>_ _. False) w"
  unfolding refund_agent_def hasAgentKey_def getKeypair_def item_ops in_outage_def
  by (auto simp: wp_bindE wp_tryE wp_ret wp_gets wp_modify wp_liftE wp_throw wp_if steady_secure no_refund_def down_reads Let_def
      split: option.split sum.split)

lemma outage_clears:
  assumes "steady w"
  shows "wp clear_device (\<lambda>_ v. hw_store v = cleared_store True \<and> hw_items v SECRET_KEY = None \<and> hw_items v PUBLIC_KEY = None) (\<lambda>_ _. False) w"
proof -
  let ?Q = "\<lambda>v. hw_store v = cleared_store True \<and> hw_items v SECRET_KEY = None \<and> hw_items v PUBLIC_KEY = None"
  have d: "preserves ?Q (deleteSetting k)" for k
    by (simp add: preserves_def deleteSetting_def getDb_def sql_def bindE_def ret_apply throw_apply Let_def)
  have "wp (seqE reset_vault_store (seqE reset_heartbeat_store (seqE reset_escalation_store (quietly (deleteSetting ''heartbeat_config''))))) (\<lambda>_. ?Q) (\<lambda>_ _. False) v"
    if "hw_items v SECRET_KEY = None" "hw_items v PUBLIC_KEY = None" for v :: "'a home_world_scheme"
    unfolding reset_vault_store_def reset_heartbeat_store_def reset_escalation_store_def on_store_def notify_def wp_bindE wp_modify
    by (rule quietly_wp [OF d]) (use that in simp)
  then show ?thesis
    unfolding clear_device_def wp_bindE [of "quietly destroyKey"] wp_quietly
    unfolding destroyKey_def item_ops wp_bindE [of "modify _"] wp_bindE [of "secure _"] wp_modify
    using assms by (simp add: steady_secure key_names)
qed

lemma outage_revoke:
  assumes "steady w"
  shows "wp (revokeVault (in_outage D) owner)
    (\<lambda>r v. (\<exists>b. r = Cleared False b \<and> rb_txs b = []) \<and> hw_store v = cleared_store True \<and> hw_items v SECRET_KEY = None \<and> hw_items v PUBLIC_KEY = None)
    (\<lambda>_ _. False) w"
proof -
  have rpc: "rv_rpc (in_outage D) = down_rpc" by (simp add: in_outage_def)
  have bal: "balance_or_none (in_outage D) owner = ret None" by (simp add: balance_or_none_def rpc down_reads)
  have "revokeVault (in_outage D) owner = bindE (refund_agent (in_outage D) owner) (revoke_rest (in_outage D) owner None None)"
    unfolding revokeVault_def rpc down_reads bal by simp
  moreover have "wp (revoke_rest (in_outage D) owner None None rf)
      (\<lambda>r v. (\<exists>b. r = Cleared False b \<and> rb_txs b = []) \<and> hw_store v = cleared_store True \<and> hw_items v SECRET_KEY = None \<and> hw_items v PUBLIC_KEY = None)
      (\<lambda>_ _. False) v" if "rf_txs rf = []" "steady v" for rf and v :: "'a home_world_scheme"
    unfolding revoke_rest_def finish_revoke_def computeReturnedSol_def rpc down_reads
    by (simp add: wp_bindE that) (rule wp_mono [OF outage_clears [OF that(2)]]; simp add: wp_ret)
  ultimately show ?thesis by (simp add: wp_bindE) (rule wp_mono [OF outage_refund [OF assms]]; simp)
qed

text \<open>
  C36: revoking while the RPC answers nothing destroys the agent key of a live vault: a failed read of
  the vault counts as "no vault", a failed refund is only noted, and the revoke ends normally, with no
  transaction signed, as a vault that was not there; by then the agent key is deleted from the device
  and the stores are reset, and the summary tells the owner that no active vault was found on the
  chain.
\<close>

theorem outage_revoke_destroys_key:
  "let (r, v) = revokeVault (in_outage D) owner (w\<lparr>hw_faults := (\<lambda>_. False)\<rparr>) in
   \<exists>b. r = Inr (Cleared False b) \<and> rb_txs b = []
     \<and> formatRevokeSummary fixed4 (Cleared False b) = (''Vault Cleared'', ''No active vault found on-chain. Local data cleared.'', [])
     \<and> hw_store v = cleared_store True \<and> hw_items v SECRET_KEY = None \<and> hw_items v PUBLIC_KEY = None"
  using outage_revoke [of "w\<lparr>hw_faults := (\<lambda>_. False)\<rparr>" D owner]
  by (auto simp: steady_def wp_def formatRevokeSummary_def base_of_def split: prod.splits sum.splits)

subsection \<open>Two devices\<close>

text \<open>Keys are encoded byte by byte; a device without an agent key and one label of the owner's own.\<close>

definition plain_keys :: "('e home_world_scheme) key_deps" where
  "plain_keys = \<lparr>kd_generate = ret [8, 8], kd_public = (\<lambda>s. take 1 s), kd_encode = (\<lambda>s. CHR ''k'' # map (\<lambda>b. char_of (unat b)) s),
     kd_restore = (\<lambda>t. Inr (map (\<lambda>c. word_of_nat (of_char c)) (tl t)))\<rparr>"

definition labelled_store :: vault_store where
  "labelled_store = (cleared_store False)\<lparr>vs_vaultConfig := Some estate_vault, vs_isSetupComplete := True,
     vs_beneficiaries := [\<lparr>sb_wallet = [7], sb_shareBps = 10000, sb_hasSpecific = False, sb_label = ''Mum''\<rparr>]\<rparr>"

definition home_device :: home_world where
  "home_device = \<lparr>db_open = True, db = empty_tables, sql_faults = (\<lambda>_. False), sql_count = 0, now_ms = 5000000,
     esc_state = initial_escalation, svc = \<lparr>sv_loop = True, sv_stage = S0, sv_callback = True, sv_beneficiaries = 1, sv_fcmActive = False\<rparr>,
     hb_status = None, hb_config = Some \<lparr>hc_methods = [''active_tap''], hc_intervalSeconds = 100\<rparr>, hb_loading = False, notices = [],
     hw_store = labelled_store, hw_items = (\<lambda>_. None), hw_faults = (\<lambda>_. False), hw_ops = 0, hw_lock = True, hw_cached = None\<rparr>"

text \<open>A chain with an active vault that holds nothing; the send is given.\<close>

definition vault_rpc :: "('w, string) io \<Rightarrow> 'w rpc" where
  "vault_rpc send = down_rpc\<lparr>anchorVaultConfig := (\<lambda>k. ret estate_vault), getParsedTokenAccountsByOwner := (\<lambda>k p. ret []),
     getAccountInfo := (\<lambda>k. ret None), getLatestBlockhash := ret \<lparr>blockhash = ''h'', lastValidBlockHeight = 9\<rparr>,
     sendRawTransaction := (\<lambda>t. send), confirmTransaction := (\<lambda>s b. ret ())\<rparr>"

definition vault_deps :: "('e home_world_scheme, string) io \<Rightarrow> ('e home_world_scheme) revoke_deps" where
  "vault_deps send = \<lparr>rv_env = sim_env, rv_rpc = vault_rpc send, rv_keys = plain_keys, rv_sign = (\<lambda>t. ret (t\<lparr>st_signers := [st_feePayer t]\<rparr>)),
     rv_message = (\<lambda>e. ''failed'')\<rparr>"

lemma vault_reads: "fetchVaultConfig E (vault_rpc send) owner = ret (Some estate_vault)"
  by (simp add: fetchVaultConfig_def vault_rpc_def Let_def)

lemma vault_keep: "preserves I send \<Longrightarrow> calls_keep I (vault_deps send)"
  by (simp add: calls_keep_def rpc_reads_def vault_deps_def vault_rpc_def down_rpc_def estimatePriorityFee_def gets_const preserves_ret preserves_throw)

lemma vault_apart: "(\<And>I. preserves I send) \<Longrightarrow> chain_apart (vault_deps send)"
  by (simp add: chain_apart_def vault_keep)

text \<open>The device with an agent key, or with what looks like one.\<close>

definition key_device :: home_world where
  "key_device = home_device\<lparr>hw_items := [SECRET_KEY \<mapsto> ''k'', PUBLIC_KEY \<mapsto> ''other'', AUTH_FLAG \<mapsto> ''1'', ''rpc_key'' \<mapsto> ''mine'']\<rparr>"

lemma byte_chars: "map (\<lambda>x :: byte. word_of_nat (unat x mod 256)) s = s"
proof -
  have "unat x mod 256 = unat x" for x :: byte using unsigned_less [of x, where 'a = nat] by simp
  then show ?thesis by simp
qed

theorem agent_key_roundtrip_witness:
  "wp (generateAgentKey sim_env plain_keys)
    (\<lambda>pub v. wp (seqE restart (getKeypair plain_keys))
       (\<lambda>secret u. hw_cached v = Some secret \<and> pub = b58 sim_env (kd_public (plain_keys :: home_world key_deps) secret) \<and> hw_items u PUBLIC_KEY = Some pub) (\<lambda>_ _. False) v)
    (\<lambda>_ _. True) home_device"
proof -
  let ?K = "plain_keys :: home_world key_deps"
  have "kd_restore ?K (kd_encode ?K s) = Inr s" "kd_encode ?K s \<noteq> []" for s
    using byte_chars [of s] by (simp_all add: plain_keys_def comp_def)
  from agent_key_roundtrip [OF this] show ?thesis .
qed

text \<open>
  C24: the device is cleared exactly when a revoke ends. If it returns, the vault store is the one of a
  revoked vault, the heartbeat and escalation stores are reset, the cached agent key is gone and exactly
  the three items of the agent key are deleted from the secure store, unless an operation of the secure
  store itself failed during the revoke; the read of the final balance changes nothing of this. If it
  throws, the store, the items of the secure store, the heartbeat and escalation stores and the database
  are what they were, whatever was sent before.
\<close>

theorem revoke_clears_exactly:
  assumes "chain_apart D"
  shows "wp (revokeVault D owner) (\<lambda>_ v. cleared_device w v) (\<lambda>_ v. device_part v = device_part w) w"
  by (rule wp_mono [OF revoke_ends [OF assms]]) (simp_all add: at_device_def)

lemma vault_revoke_runs:
  "isl (fst (revokeVault (vault_deps (throw e)) [1] key_device)) \<and> \<not> isl (fst (revokeVault (vault_deps (ret sig)) [1] key_device))"
proof -
  have D: "rv_env (vault_deps send) = sim_env" "rv_rpc (vault_deps send) = vault_rpc send" "rv_sign (vault_deps send) t = ret (t\<lparr>st_signers := [st_feePayer t]\<rparr>)"
    for send :: "(home_world, string) io" and t by (simp_all add: vault_deps_def)
  have v: "vc_owner estate_vault = [1]" "active estate_vault" "\<not> executed estate_vault" "\<not> hasAssetPlan estate_vault"
    by (simp_all add: estate_vault_def)
  have rpc: "getBalance (vault_rpc send) k = throw (External 9)" "getVaultTokenBalances sim_env (vault_rpc send) k = ret []"
    "getAccountInfo (vault_rpc send) k = ret None" "getLatestBlockhash (vault_rpc send) = ret \<lparr>blockhash = ''h'', lastValidBlockHeight = 9\<rparr>"
    "sendRawTransaction (vault_rpc send) t = send" "confirmTransaction (vault_rpc send) x y = ret ()"
    "addPriorityFee sim_env (vault_rpc send) ixs ks cu = ret (SetComputeUnitLimit cu # SetComputeUnitPrice 1000 # ixs)"
    for send :: "(home_world, string) io" and k t x y ixs ks cu
    by (simp_all add: vault_rpc_def down_rpc_def getVaultTokenBalances_def keep_balances_def map_filter_def addPriorityFee_def estimatePriorityFee_def gets_const)
  have c: "chunk_loop [] 8 0 [] = Some ([] :: instruction list list)" by (simp add: chunk_loop.simps)
  obtain rf u where rf: "\<And>send. refund_agent (vault_deps send) [1] key_device = (Inr rf, u)"
    by (simp add: refund_agent_def hasAgentKey_def getKeypair_def getItemAsync_def secure_def bindE_def tryE_def ret_apply throw_apply
        liftE_apply modify_def gets_def key_device_def home_device_def vault_deps_def vault_rpc_def down_rpc_def plain_keys_def key_names Let_def)
  have act: "close_active (vault_deps send) [1] txs = bindE send (\<lambda>sig. ret (0, txs @ [\<lparr>tr_label = batch_label 0 1, tr_sig = sig\<rparr>]))"
    for send :: "(home_world, string) io" and txs
    by (simp add: close_active_def buildWithdrawAllInstructions_def buildBatchedTxs_def assetPlanIfPresent_def pack_chunks_def MAX_IXS_PER_TX_def
      c D rpc v vault_reads send_owner_tx_def bindE_assoc Let_def)
  have run: "revokeVault (vault_deps send) [1] key_device = revoke_rest (vault_deps send) [1] (Some estate_vault) None rf u"
    for send :: "(home_world, string) io"
    by (simp add: revokeVault_def D rpc vault_reads v balance_or_none_def) (simp add: bindE_def rf)
  have ends: "\<exists>b x. finish_revoke (vault_deps send) [1] None rf txs y = (Inr b, x)" if "\<And>I. preserves I send" for send :: "(home_world, string) io" and txs y
    using finish_ends [OF vault_apart [OF that], of "[1]" None rf txs y] by (auto simp: wp_def split: prod.splits sum.splits)
  obtain b x where fin: "finish_revoke (vault_deps (ret sig)) [1] None rf (rf_txs rf @ [\<lparr>tr_label = batch_label 0 1, tr_sig = sig\<rparr>]) u = (Inr b, x)"
    using ends [OF preserves_ret] by blast
  show ?thesis
    using fin by (simp add: run revoke_rest_def v act bindE_def ret_apply throw_apply)
qed

theorem revoke_clears_exactly_witness:
  "(let v = snd (revokeVault (vault_deps (ret ''sig'')) [1] key_device) in
      cleared_device key_device v \<and> hw_items v = [''rpc_key'' \<mapsto> ''mine''])
   \<and> device_part (snd (revokeVault (vault_deps (throw (External 3))) [1] key_device)) = device_part key_device"
proof -
  have i: "hw_faults key_device i = False" "(hw_items key_device)(SECRET_KEY := None, PUBLIC_KEY := None, AUTH_FLAG := None) = [''rpc_key'' \<mapsto> ''mine'']" for i
    by (auto simp: key_device_def home_device_def key_names)
  show ?thesis
    using revoke_clears_exactly [OF vault_apart [of "ret ''sig''"], of "[1]" key_device]
      revoke_clears_exactly [OF vault_apart [of "throw (External 3)"], of "[1]" key_device] vault_revoke_runs [of "External 3" "''sig''"]
    by (auto simp: wp_def preserves_ret preserves_throw cleared_device_def keys_gone_def i Let_def split: prod.splits sum.splits)
qed

text \<open>
  one failed read wipes the owner's labels. The dashboard takes a failed read of the vault for a
  closed vault and empties the store, the beneficiaries and their labels with it; when the chain
  answers again the vault is back, its beneficiaries numbered. Without the failed read the refresh
  keeps the label.
\<close>

theorem dashboard_outage_wipes_labels:
  "(let w0 = w\<lparr>hw_store := labelled_store\<rparr>;
        w1 = snd (sync_dashboard E down_rpc owner w0);
        w2 = snd (sync_dashboard E (vault_rpc send) owner w1);
        w3 = snd (sync_dashboard E (vault_rpc send) owner w0) in
     vs_vaultConfig (hw_store w1) = None \<and> vs_beneficiaries (hw_store w1) = [] \<and> \<not> vs_isSetupComplete (hw_store w1)
     \<and> vs_vaultConfig (hw_store w2) = Some estate_vault \<and> map sb_label (vs_beneficiaries (hw_store w2)) = [''Beneficiary 1'']
     \<and> map sb_label (vs_beneficiaries (hw_store w3)) = [''Mum''])"
proof -
  have one: "nat_str (Suc 0) = ''1''" by code_simp
  show ?thesis
    by (simp add: sync_dashboard_def hook_fetch_eq setVaultConfig_def setConfig_def on_store_def bn_toNumber_def max_safe_def reset_escalation_store_def notify_def down_reads vault_reads
      bindE_def ret_apply Let_def labelled_store_def cleared_store_def estate_vault_def merged_benefs_def label_of_def one)
qed

text \<open>
  C37: a key destroyed halfway becomes the agent of the next vault. If the secure store fails after the
  secret is deleted (the revoke ignores it), the public key stays behind: the next activation takes it
  as the agent, the key manager cannot sign for it, and the device does not ask for a rotation.
\<close>

theorem half_destroyed_key_becomes_agent:
  "let w0 = w\<lparr>hw_items := [SECRET_KEY \<mapsto> s, PUBLIC_KEY \<mapsto> ''other'', AUTH_FLAG \<mapsto> ''1''], hw_faults := (\<lambda>n. n = Suc (hw_ops w))\<rparr>;
       w1 = snd (quietly destroyKey w0);
       (pub, w2) = agent_for_setup sim_env K w1;
       (key, w3) = getKeypair K w2;
       (rot, w4) = needsAgentRotation sim_env (vault_rpc send) [1] w3 in
   pub = Inr ''other'' \<and> key = Inl no_agent_key \<and> rot = Inr False"
  by (simp add: quietly_def destroyKey_def item_ops secure_def agent_for_setup_def getAgentPublicKey_def getKeypair_def needsAgentRotation_def hasAgentKey_def
      vault_reads bindE_def tryE_def ret_apply throw_apply Let_def key_names estate_vault_def sim_env_def)

end
