(* ===== verification/Claim_Facts.thy ===== *)
theory Claim_Facts
  imports Crank_Tx Revoke_Tx Program_Layout
begin

text \<open>
  The abstract specification of a beneficiary's claim, as a function of the chain state alone, and
  the proof that the builder refines it: which program instructions it emits, in which order, for
  which payouts, that the heir pays for all of them, and that every transaction fits the packet.
\<close>

subsection \<open>The specification\<close>

fun is_prog :: "instruction \<Rightarrow> bool" where
  "is_prog (ProgIx _ _ _) = True"
| "is_prog _ = False"

definition prog_ixs :: "labelled list \<Rightarrow> instruction list" where
  "prog_ixs out = filter is_prog (concat (map snd out))"

lemma prog_ixs_simps [simp]:
  "prog_ixs [] = []" "prog_ixs (xs @ ys) = prog_ixs xs @ prog_ixs ys" "prog_ixs [(l, t)] = filter is_prog t"
  by (simp_all add: prog_ixs_def)

definition ata_of :: "env \<Rightarrow> pubkey \<Rightarrow> pubkey \<Rightarrow> bool \<Rightarrow> pubkey \<Rightarrow> pubkey" where
  "ata_of E m ow off tp = (case ata E m ow off tp of Inr a \<Rightarrow> a | Inl _ \<Rightarrow> [])"

definition vault_ata :: "env \<Rightarrow> chain \<Rightarrow> pubkey \<Rightarrow> pubkey \<Rightarrow> pubkey" where
  "vault_ata E C owner m = ata_of E m (getVaultPDA E owner) True (token_program_at E C m)"

definition benef_ata :: "env \<Rightarrow> chain \<Rightarrow> pubkey \<Rightarrow> pubkey \<Rightarrow> pubkey" where
  "benef_ata E C m w = ata_of E m w False (token_program_at E C m)"

definition spec_plan :: "env \<Rightarrow> chain \<Rightarrow> pubkey \<Rightarrow> vault_config \<Rightarrow> asset_plan option" where
  "spec_plan E C owner c = (if hasAssetPlan c then plan_at E C owner else None)"

definition spec_mints :: "env \<Rightarrow> chain \<Rightarrow> pubkey \<Rightarrow> vault_config \<Rightarrow> pubkey list" where
  "spec_mints E C owner c = claim_mints E (tokens_at E C (getVaultPDA E owner)) (spec_plan E C owner c)"

definition wallets_of :: "vault_config \<Rightarrow> pubkey list" where
  "wallets_of c = map wallet (beneficiaries c)"

definition sol_mask_at :: "env \<Rightarrow> chain \<Rightarrow> pubkey \<Rightarrow> nat" where
  "sol_mask_at E C owner = (case log_at E C owner of Some l \<Rightarrow> solPaidMask l | None \<Rightarrow> 0)"

definition owed_sol :: "env \<Rightarrow> chain \<Rightarrow> pubkey \<Rightarrow> vault_config \<Rightarrow> nat list" where
  "owed_sol E C owner c = unpaidIndices (int (sol_mask_at E C owner)) (length (wallets_of c))"

definition owed_bequests :: "asset_plan \<Rightarrow> nat list" where
  "owed_bequests p = filter (\<lambda>j. \<not> bigint_bit_set (int (ap_paidMask p)) j) [0..<length (assignments p)]"

definition spec_begin :: "env \<Rightarrow> chain \<Rightarrow> pubkey \<Rightarrow> pubkey \<Rightarrow> vault_config \<Rightarrow> instruction list" where
  "spec_begin E C heir owner c =
     (if log_at E C owner = None then [begin_ix E heir owner (hasAssetPlan c)] else [])"

definition spec_snapshots :: "env \<Rightarrow> chain \<Rightarrow> pubkey \<Rightarrow> pubkey \<Rightarrow> vault_config \<Rightarrow> instruction list" where
  "spec_snapshots E C heir owner c =
     map (\<lambda>m. begin_dist_ix E heir owner m (vault_ata E C owner m) (hasAssetPlan c))
       (filter (\<lambda>m. dist_at E C owner m = None) (spec_mints E C owner c))"

definition spec_bequest :: "env \<Rightarrow> chain \<Rightarrow> pubkey \<Rightarrow> pubkey \<Rightarrow> pubkey list \<Rightarrow> asset_plan \<Rightarrow> nat \<Rightarrow> instruction" where
  "spec_bequest E C heir owner ws p j =
     (let a = assignments p ! j; b = ws ! beneficiaryIndex a
      in if a_mint a = default_pubkey then specific_sol_ix E heir owner j b
         else specific_asset_ix E heir owner j (a_mint a) (vault_ata E C owner (a_mint a))
                (benef_ata E C (a_mint a) b) (token_program_at E C (a_mint a)))"

definition spec_bequests :: "env \<Rightarrow> chain \<Rightarrow> pubkey \<Rightarrow> pubkey \<Rightarrow> vault_config \<Rightarrow> instruction list" where
  "spec_bequests E C heir owner c =
     (case spec_plan E C owner c of None \<Rightarrow> []
      | Some p \<Rightarrow> map (spec_bequest E C heir owner (wallets_of c) p) (owed_bequests p))"

definition spec_sol :: "env \<Rightarrow> chain \<Rightarrow> pubkey \<Rightarrow> pubkey \<Rightarrow> vault_config \<Rightarrow> instruction list" where
  "spec_sol E C heir owner c =
     map (\<lambda>b. sol_shares_ix E heir owner b (map (\<lambda>i. wallets_of c ! i) b)) (batches (owed_sol E C owner c))"

definition spec_finalize :: "env \<Rightarrow> chain \<Rightarrow> pubkey \<Rightarrow> pubkey \<Rightarrow> vault_config \<Rightarrow> instruction list" where
  "spec_finalize E C heir owner c =
     (if (case log_at E C owner of Some l \<Rightarrow> completed l | None \<Rightarrow> False) then []
      else [finalize_ix E heir owner (hasAssetPlan c)])"

definition spec_token_mint :: "env \<Rightarrow> chain \<Rightarrow> pubkey \<Rightarrow> pubkey \<Rightarrow> pubkey list \<Rightarrow> pubkey \<Rightarrow> instruction list" where
  "spec_token_mint E C heir owner ws m =
     (case dist_at E C owner m of None \<Rightarrow> []
      | Some d \<Rightarrow> map (\<lambda>b. token_shares_ix E heir owner m b (vault_ata E C owner m) (token_program_at E C m)
                         (map (\<lambda>i. benef_ata E C m (ws ! i)) b))
                    (batches (unpaidIndices (int (td_paidMask d)) (length ws))))"

definition spec_tokens :: "env \<Rightarrow> chain \<Rightarrow> pubkey \<Rightarrow> pubkey \<Rightarrow> vault_config \<Rightarrow> instruction list" where
  "spec_tokens E C heir owner c =
     concat (map (spec_token_mint E C heir owner (wallets_of c)) (spec_mints E C owner c))"

definition claim_spec :: "env \<Rightarrow> chain \<Rightarrow> pubkey \<Rightarrow> pubkey \<Rightarrow> vault_config \<Rightarrow> instruction list" where
  "claim_spec E C heir owner c =
     spec_begin E C heir owner c @ spec_snapshots E C heir owner c @ spec_bequests E C heir owner c
     @ spec_sol E C heir owner c @ spec_finalize E C heir owner c @ spec_tokens E C heir owner c"

subsection \<open>Refinement\<close>

lemmas step_ix_defs = begin_ix_def specific_sol_ix_def begin_dist_ix_def specific_asset_ix_def sol_shares_ix_def
  token_shares_ix_def finalize_ix_def close_dist_ix_def Let_def

lemma is_prog_steps [simp]:
  "is_prog (begin_ix E h ow b)" "is_prog (specific_sol_ix E h ow j w)" "is_prog (begin_dist_ix E h ow m a b)"
  "is_prog (specific_asset_ix E h ow j m a ba tp)" "is_prog (sol_shares_ix E h ow is ws)"
  "is_prog (token_shares_ix E h ow m is a tp as)" "is_prog (finalize_ix E h ow b)" "is_prog (close_dist_ix E h ow m a l tp)"
  by (simp_all add: step_ix_defs)

lemma yields_ata: "yields (ataFor E m ow off tp) (\<lambda>a. a = ata_of E m ow off tp)"
  by (simp add: yields_def ataFor_def liftE_apply ata_of_def split: sum.splits)

lemma yields_create:
  "yields (create_if_missing R payer k ow m tp) (\<lambda>c. filter is_prog c = [])"
  unfolding create_if_missing_def by (intro yields_bindE_any yields_ret) simp

lemma yields_atas:
  "yields (forE ws (ixs, as) (\<lambda>w (setupIxs, atas).
       bindE (ataFor E m w False tp) (\<lambda>a.
       bindE (create_if_missing R payer a w m tp) (\<lambda>create.
       ret (setupIxs @ create, atas @ [a])))))
   (\<lambda>(ixs', as'). filter is_prog ixs' = filter is_prog ixs \<and> as' = as @ map (\<lambda>w. ata_of E m w False tp) ws)"
proof (induction ws arbitrary: ixs as)
  case (Cons w ws)
  show ?case
    unfolding forE.simps prod.case bindE_assoc bindE_ret
    by (rule yields_bindE [OF yields_ata], rule yields_bindE [OF yields_create], rule yields_mono [OF Cons.IH]) auto
qed (simp add: yields_ret)

lemma yields_atas_with_setup:
  "yields (atas_with_setup E R payer m tp ws)
     (\<lambda>(ixs, as). filter is_prog ixs = [] \<and> as = map (\<lambda>w. ata_of E m w False tp) ws)"
  unfolding atas_with_setup_def by (rule yields_mono [OF yields_atas]) auto

lemma yields_wrap: "yields (bindE (addPriorityFee E R t keys cu) (\<lambda>t'. ret (out @ [(l, t')])))
    (\<lambda>out'. prog_ixs out' = prog_ixs out @ filter is_prog t)"
  by (rule yields_bindE [OF yields_addPriorityFee [where P = "\<lambda>t'. filter is_prog t' = filter is_prog t"]])
    (simp_all add: yields_ret)

lemma yields_snapshots:
  assumes "answers E R C"
  shows "yields (claim_snapshots E R heir owner hasPlan mints out)
    (\<lambda>out'. prog_ixs out' = prog_ixs out @ map (\<lambda>m. begin_dist_ix E heir owner m (vault_ata E C owner m) hasPlan)
       (filter (\<lambda>m. dist_at E C owner m = None) mints))"
proof -
  have f: "map g (filter P ms) = concat (map (\<lambda>m. if P m then [g m] else []) ms)" for g :: "pubkey \<Rightarrow> instruction" and P ms
    by (induction ms) auto
  show ?thesis
    unfolding claim_snapshots_def Let_def f
    by (rule yields_forE_collect, rule yields_bindE [OF yields_fetchTokenDist [OF assms]], rule yields_if,
        simp add: yields_ret, rule yields_bindE [OF yields_tokenProgram [OF assms]], rule yields_bindE [OF yields_ata],
        rule yields_mono [OF yields_wrap]) (simp add: vault_ata_def)
qed

lemma yields_benef: "yields (benef_at ws i) (\<lambda>b. i < length ws \<and> b = ws ! i)"
  by (simp add: benef_at_def yields_ret yields_throw)

lemma yields_bequest:
  assumes "answers E R C"
  shows "yields (claim_bequest E R heir owner ws j (assignments p ! j) out)
    (\<lambda>out'. prog_ixs out' = prog_ixs out @ [spec_bequest E C heir owner ws p j])"
  unfolding claim_bequest_def Let_def
  by (rule yields_bindE [OF yields_benef], rule yields_if, rule yields_mono [OF yields_wrap],
      simp add: spec_bequest_def, rule yields_bindE [OF yields_tokenProgram [OF assms]],
      rule yields_bindE [OF yields_ata], rule yields_bindE [OF yields_ata], rule yields_bindE [OF yields_create],
      rule yields_mono [OF yields_wrap]) (simp add: spec_bequest_def vault_ata_def benef_ata_def Let_def)

lemma yields_bequests:
  assumes "answers E R C"
  shows "yields (claim_bequests E R heir owner ws p out)
    (\<lambda>out'. prog_ixs out' = prog_ixs out @ map (spec_bequest E C heir owner ws p) (owed_bequests p))"
proof -
  have f: "map g (filter P ms) = concat (map (\<lambda>m. if P m then [g m] else []) ms)" for g :: "nat \<Rightarrow> instruction" and P ms
    by (induction ms) auto
  show ?thesis
    unfolding claim_bequests_def owed_bequests_def f
    by (rule yields_forE_collect, rule yields_if, simp add: yields_ret,
        rule yields_mono [OF yields_bequest [OF assms]]) simp
qed

lemma yields_sol:
  "yields (claim_sol_shares E R heir owner ws msk out)
    (\<lambda>out'. prog_ixs out' = prog_ixs out @ map (\<lambda>b. sol_shares_ix E heir owner b (map (\<lambda>i. ws ! i) b))
       (batches (unpaidIndices (int msk) (length ws))))"
proof -
  have f: "map g ms = concat (map (\<lambda>m. [g m]) ms)" for g :: "nat list \<Rightarrow> instruction" and ms by (induction ms) auto
  show ?thesis
    unfolding claim_sol_shares_def Let_def f
    by (rule yields_forE_collect, rule yields_mono [OF yields_wrap]) simp
qed

lemma yields_tokens:
  assumes "answers E R C"
  shows "yields (claim_token_shares E R heir owner ws mints out)
    (\<lambda>out'. prog_ixs out' = prog_ixs out @ concat (map (spec_token_mint E C heir owner ws) mints))"
  unfolding claim_token_shares_def Let_def
proof (rule yields_forE_collect, rule yields_bindE [OF yields_fetchTokenDist [OF assms]], goal_cases)
  case (1 m out td)
  let ?tp = "token_program_at E C m"
  show ?case
  proof (cases "dist_at E C owner m")
    case None
    then show ?thesis using 1 by (simp add: yields_ret spec_token_mint_def)
  next
    case (Some d)
    have f: "map g ms = concat (map (\<lambda>m. [g m]) ms)" for g :: "nat list \<Rightarrow> instruction" and ms by (induction ms) auto
    show ?thesis
      unfolding 1 Some option.case spec_token_mint_def f
      by (rule yields_bindE [OF yields_tokenProgram [OF assms]], rule yields_bindE [OF yields_ata],
          rule yields_forE_collect, rule yields_bindE [OF yields_atas_with_setup], clarify,
          rule yields_mono [OF yields_wrap]) (simp add: vault_ata_def benef_ata_def comp_def)
  qed
qed

lemma fast_path_spec:
  assumes "log_at E C owner = None" "spec_mints E C owner c = []" "\<not> hasAssetPlan c"
    "beneficiaries c \<noteq> []" "length (wallets_of c) \<le> 8"
  shows "claim_spec E C heir owner c = [begin_ix E heir owner False,
    sol_shares_ix E heir owner (range (length (wallets_of c))) (map (\<lambda>i. wallets_of c ! i) (range (length (wallets_of c)))),
    finalize_ix E heir owner False]"
proof -
  let ?n = "length (wallets_of c)"
  have n: "0 < ?n" using assms(4) by (simp add: wallets_of_def)
  have "unpaidIndices 0 ?n = range ?n"
    using assms(5) by (simp add: unpaidIndices_filter range_def filter_id_conv js_and_one js_ushr_def js_to_uint32_def)
  then have "batches (owed_sol E C owner c) = [range ?n]"
    using n assms(1,5) by (simp add: owed_sol_def sol_mask_at_def groups.simps [of 8 "range ?n"]) (simp add: range_def)
  then show ?thesis
    using assms by (simp add: claim_spec_def spec_begin_def spec_snapshots_def spec_bequests_def spec_plan_def
        spec_sol_def spec_finalize_def spec_tokens_def)
qed

lemma claim_refines:
  assumes "answers E R C"
  shows "yields (buildClaimTransactions E R heir owner)
    (\<lambda>out. \<exists>c. vault_at E C owner = Some c \<and> (beneficiaries c \<noteq> [] \<longrightarrow> prog_ixs out = claim_spec E C heir owner c))"
  unfolding buildClaimTransactions_def
proof (rule yields_bindE [OF yields_fetchVaultConfig [OF assms]], goal_cases)
  case (1 config)
  show ?case
  proof (cases config)
    case None
    then show ?thesis by (simp add: yields_throw)
  next
    case (Some c)
    then have v: "vault_at E C owner = Some c" using 1 by simp
    let ?W = "wallets_of c"
    have plan: "yields (if hasAssetPlan c then fetchAssetPlan E R owner else ret None) (\<lambda>p. p = spec_plan E C owner c)"
      by (simp add: spec_plan_def yields_fetchAssetPlan [OF assms] yields_ret)
    have seg: "yields (if b then ret out else bindE (addPriorityFee E R t keys cu) (\<lambda>t'. ret (out @ [(l, t')])))
        (\<lambda>out'. prog_ixs out' = prog_ixs out @ (if b then [] else filter is_prog t))" for b out t keys cu l
      using yields_wrap by (auto simp: yields_ret)
    have beg: "yields (if log_at E C owner = None then bindE (addPriorityFee E R [begin_ix E heir owner (hasAssetPlan c)] keys cu)
          (\<lambda>t. ret [(''Begin distribution'', t)]) else ret []) (\<lambda>out. prog_ixs out = spec_begin E C heir owner c)" for keys cu
      using yields_wrap [of E R "[begin_ix E heir owner (hasAssetPlan c)]" keys cu "[]" "''Begin distribution''"]
      by (auto simp: yields_ret spec_begin_def)
    have bequests: "yields (case spec_plan E C owner c of Some p \<Rightarrow> claim_bequests E R heir owner ?W p out | None \<Rightarrow> ret out)
        (\<lambda>out'. prog_ixs out' = prog_ixs out @ spec_bequests E C heir owner c)" for out
      using yields_bequests [OF assms] by (auto simp: spec_bequests_def yields_ret split: option.splits)
    have fast: "yields (claim_fast_path E R heir owner ?W) (\<lambda>out. \<exists>c. vault_at E C owner = Some c
        \<and> (beneficiaries c \<noteq> [] \<longrightarrow> prog_ixs out = claim_spec E C heir owner c))"
      if "log_at E C owner = None" "spec_mints E C owner c = []" "\<not> hasAssetPlan c" "length ?W \<le> 8"
      unfolding claim_fast_path_def Let_def
      by (rule yields_bindE [OF yields_addPriorityFee [where P = "\<lambda>t. filter is_prog t =
            [begin_ix E heir owner False, sol_shares_ix E heir owner (range (length ?W)) (map (\<lambda>i. ?W ! i) (range (length ?W))),
             finalize_ix E heir owner False]"]]) (use that v in \<open>auto simp: yields_ret fast_path_spec\<close>)
    show ?thesis
      unfolding Some option.case Let_def wallets_of_def [symmetric]
    proof (rule yields_bindE [OF yields_fetchExecutionLog [OF assms]], rule yields_bindE [OF yields_balances [OF assms]],
        rule yields_bindE [OF plan], goal_cases)
      case (1 log toks plan)
      then have mints: "claim_mints E toks (spec_plan E C owner c) = spec_mints E C owner c" by (simp add: spec_mints_def)
      show ?case
        unfolding 1(1,3) mints
      proof (rule yields_if, goal_cases)
        case 2
        show ?case
          by (rule yields_bindE [OF beg], rule yields_bindE [OF yields_snapshots [OF assms]],
              rule yields_bindE [OF bequests], rule yields_bindE [OF yields_sol], rule yields_bindE [OF seg],
              rule yields_mono [OF yields_tokens [OF assms]])
            (use v in \<open>simp add: claim_spec_def spec_snapshots_def spec_sol_def owed_sol_def sol_mask_at_def
               spec_finalize_def spec_tokens_def\<close>)
      qed (rule fast, simp_all)
    qed
  qed
qed

subsection \<open>What the specification pays\<close>

fun rank :: "instruction \<Rightarrow> nat" where
  "rank (ProgIx BeginExecution _ _) = 0"
| "rank (ProgIx BeginTokenDist _ _) = 1"
| "rank (ProgIx (ExecuteSpecificSol _) _ _) = 2"
| "rank (ProgIx (ExecuteSpecificAsset _) _ _) = 2"
| "rank (ProgIx (ExecuteSolShares _) _ _) = 3"
| "rank (ProgIx FinalizeExecution _ _) = 4"
| "rank _ = 5"

fun sol_payout :: "instruction \<Rightarrow> (nat \<times> pubkey) list" where
  "sol_payout (ProgIx (ExecuteSolShares is) _ rem) = zip (map unat is) (map mt_key rem)"
| "sol_payout _ = []"

fun token_payout :: "pubkey \<Rightarrow> instruction \<Rightarrow> (nat \<times> pubkey) list" where
  "token_payout m (ProgIx (ExecuteTokenShares is) accs rem) =
     (if map_of accs Mint = Some (Some m) then zip (map unat is) (map mt_key rem) else [])"
| "token_payout m _ = []"

fun bequest_index :: "instruction \<Rightarrow> nat list" where
  "bequest_index (ProgIx (ExecuteSpecificSol j) _ _) = [j]"
| "bequest_index (ProgIx (ExecuteSpecificAsset j) _ _) = [j]"
| "bequest_index _ = []"

definition sol_payouts :: "instruction list \<Rightarrow> (nat \<times> pubkey) list" where
  "sol_payouts ixs = concat (map sol_payout ixs)"

definition bequest_indices :: "instruction list \<Rightarrow> nat list" where
  "bequest_indices ixs = concat (map bequest_index ixs)"

lemma rank_steps [simp]:
  "rank (begin_ix E h ow b) = 0" "rank (begin_dist_ix E h ow m a b) = 1" "rank (specific_sol_ix E h ow j w) = 2"
  "rank (specific_asset_ix E h ow j m a ba tp) = 2" "rank (sol_shares_ix E h ow is ws) = 3"
  "rank (finalize_ix E h ow b) = 4" "rank (token_shares_ix E h ow m is a tp as) = 5"
  by (simp_all add: step_ix_defs)

lemma payout_steps [simp]:
  "sol_payout (begin_ix E h ow b) = []" "sol_payout (begin_dist_ix E h ow m a b) = []"
  "sol_payout (specific_sol_ix E h ow j w) = []" "sol_payout (specific_asset_ix E h ow j m a ba tp) = []"
  "sol_payout (finalize_ix E h ow b) = []" "sol_payout (token_shares_ix E h ow m is a tp as) = []"
  "bequest_index (begin_ix E h ow b) = []" "bequest_index (begin_dist_ix E h ow m a b) = []"
  "bequest_index (specific_sol_ix E h ow j w) = [j]" "bequest_index (specific_asset_ix E h ow j m a ba tp) = [j]"
  "bequest_index (finalize_ix E h ow b) = []" "bequest_index (token_shares_ix E h ow m is a tp as) = []"
  "bequest_index (sol_shares_ix E h ow is ws) = []"
  by (simp_all add: step_ix_defs)

lemma byte_index: "i < 256 \<Longrightarrow> unat (word_of_nat i :: byte) = i"
  by (simp add: unat_of_nat)

lemma sol_payout_batch:
  "(\<And>i. i \<in> set b \<Longrightarrow> i < 256) \<Longrightarrow>
   sol_payout (sol_shares_ix E h ow b (map f b)) = map (\<lambda>i. (i, f i)) b"
  by (induction b) (simp_all add: step_ix_defs buffer_from_def writable_def byte_index)

lemma unpaid_lt: "i \<in> set (unpaidIndices m n) \<Longrightarrow> i < n"
  by (simp add: unpaidIndices_filter)

lemma unpaid_distinct: "distinct (unpaidIndices m n)"
  by (simp add: unpaidIndices_filter)

lemma spec_bequest_steps:
  "rank (spec_bequest E C h ow ws p j) = 2" "sol_payout (spec_bequest E C h ow ws p j) = []"
  "bequest_index (spec_bequest E C h ow ws p j) = [j]"
  by (simp_all add: spec_bequest_def Let_def)

lemma rank_spec_token: "ix \<in> set (spec_tokens E C h ow c) \<Longrightarrow> rank ix = 5 \<and> sol_payout ix = [] \<and> bequest_index ix = []"
  by (auto simp: spec_tokens_def spec_token_mint_def split: option.splits)

lemma sorted_const: "(\<And>x. x \<in> set xs \<Longrightarrow> f x = (k :: nat)) \<Longrightarrow> sorted (map f xs)"
  by (induction xs) auto

lemma spec_ranks:
  "\<And>ix. ix \<in> set (spec_begin E C h ow c) \<Longrightarrow> rank ix = 0"
  "\<And>ix. ix \<in> set (spec_snapshots E C h ow c) \<Longrightarrow> rank ix = 1"
  "\<And>ix. ix \<in> set (spec_bequests E C h ow c) \<Longrightarrow> rank ix = 2"
  "\<And>ix. ix \<in> set (spec_sol E C h ow c) \<Longrightarrow> rank ix = 3"
  "\<And>ix. ix \<in> set (spec_finalize E C h ow c) \<Longrightarrow> rank ix = 4"
  "\<And>ix. ix \<in> set (spec_tokens E C h ow c) \<Longrightarrow> rank ix = 5"
  by (auto simp: spec_begin_def spec_snapshots_def spec_bequests_def spec_sol_def spec_finalize_def
      spec_bequest_steps rank_spec_token split: if_splits option.splits)

lemma claim_spec_sorted: "sorted (map rank (claim_spec E C h ow c))"
  unfolding claim_spec_def
  by (simp add: sorted_append sorted_const [OF spec_ranks(1)] sorted_const [OF spec_ranks(2)]
      sorted_const [OF spec_ranks(3)] sorted_const [OF spec_ranks(4)] sorted_const [OF spec_ranks(5)]
      sorted_const [OF spec_ranks(6)]) (auto simp: spec_ranks)

lemma spec_sol_payouts:
  assumes "length (beneficiaries c) \<le> 256"
  shows "sol_payouts (claim_spec E C h ow c) = map (\<lambda>i. (i, wallets_of c ! i)) (owed_sol E C ow c)"
proof -
  let ?ws = "wallets_of c"
  have none: "concat (map sol_payout xs) = []" if "\<And>ix. ix \<in> set xs \<Longrightarrow> sol_payout ix = []" for xs
    using that by simp
  have lt: "i < 256" if "i \<in> set (owed_sol E C ow c)" for i
    using unpaid_lt [OF that [unfolded owed_sol_def]] assms by (simp add: wallets_of_def)
  have "concat (map sol_payout (spec_sol E C h ow c)) = concat (map (\<lambda>b. map (\<lambda>i. (i, ?ws ! i)) b) (groups 8 (owed_sol E C ow c)))"
    unfolding spec_sol_def batches_groups map_map comp_def
    by (rule arg_cong [where f = concat], rule map_cong [OF refl], rule sol_payout_batch)
      (use batch_members lt in blast)
  also have "\<dots> = map (\<lambda>i. (i, ?ws ! i)) (concat (groups 8 (owed_sol E C ow c)))" by (simp add: map_concat)
  finally have sol: "concat (map sol_payout (spec_sol E C h ow c)) = map (\<lambda>i. (i, ?ws ! i)) (owed_sol E C ow c)"
    by (simp add: concat_groups)
  have z: "concat (map sol_payout (spec_begin E C h ow c)) = []" "concat (map sol_payout (spec_snapshots E C h ow c)) = []"
    "concat (map sol_payout (spec_bequests E C h ow c)) = []" "concat (map sol_payout (spec_finalize E C h ow c)) = []"
    "concat (map sol_payout (spec_tokens E C h ow c)) = []"
    by (auto simp: spec_begin_def spec_snapshots_def spec_bequests_def spec_finalize_def spec_bequest_steps
        rank_spec_token split: option.splits)
  show ?thesis
    by (simp only: sol_payouts_def claim_spec_def map_append concat_append z sol append_Nil append_Nil2)
qed

lemma spec_bequest_indices:
  "bequest_indices (claim_spec E C h ow c)
   = (case spec_plan E C ow c of None \<Rightarrow> [] | Some p \<Rightarrow> owed_bequests p)"
proof -
  have s: "concat (map (\<lambda>x. [x]) xs) = xs" for xs :: "nat list" by (induction xs) auto
  have z: "concat (map bequest_index (spec_begin E C h ow c)) = []" "concat (map bequest_index (spec_snapshots E C h ow c)) = []"
    "concat (map bequest_index (spec_sol E C h ow c)) = []" "concat (map bequest_index (spec_finalize E C h ow c)) = []"
    "concat (map bequest_index (spec_tokens E C h ow c)) = []"
    by (auto simp: spec_begin_def spec_snapshots_def spec_sol_def spec_finalize_def rank_spec_token split: option.splits)
  have b: "concat (map bequest_index (spec_bequests E C h ow c))
      = (case spec_plan E C ow c of None \<Rightarrow> [] | Some p \<Rightarrow> owed_bequests p)"
    by (auto simp: spec_bequests_def comp_def spec_bequest_steps s split: option.splits)
  show ?thesis
    by (simp only: bequest_indices_def claim_spec_def map_append concat_append z b append_Nil append_Nil2)
qed

text \<open>
  C1: a claim pays each owed share exactly once, to the right wallet, in a valid order: against the
  chain state \<open>C\<close>, the SOL payouts over all transactions are exactly the beneficiaries whose paid bit
  is clear, each with that beneficiary's wallet and none twice; the bequest payments are exactly the
  unpaid assignments in index order; and the steps come in the order begin, snapshots, bequests,
  SOL shares, finalize, token shares.
\<close>

theorem claim_pays_each_owed_share:
  assumes "answers E R C"
  shows "yields (buildClaimTransactions E R heir owner)
    (\<lambda>out. \<exists>c. vault_at E C owner = Some c
       \<and> (beneficiaries c \<noteq> [] \<longrightarrow>
            sol_payouts (prog_ixs out) = map (\<lambda>i. (i, wallet (beneficiaries c ! i))) (owed_sol E C owner c)
          \<and> distinct (owed_sol E C owner c)
          \<and> bequest_indices (prog_ixs out) = (case spec_plan E C owner c of None \<Rightarrow> [] | Some p \<Rightarrow> owed_bequests p)
          \<and> sorted (map rank (prog_ixs out))))"
proof (rule yields_mono [OF claim_refines [OF assms]])
  fix out
  assume "\<exists>c. vault_at E C owner = Some c \<and> (beneficiaries c \<noteq> [] \<longrightarrow> prog_ixs out = claim_spec E C heir owner c)"
  then obtain c where c: "vault_at E C owner = Some c" "beneficiaries c \<noteq> [] \<longrightarrow> prog_ixs out = claim_spec E C heir owner c"
    by blast
  have "length (beneficiaries c) \<le> 20"
    using c(1) by (auto simp: vault_at_def parseVaultConfig_eq vault_config_at_def vault_config_fits_def Let_def split: if_splits)
  then have n: "length (beneficiaries c) \<le> 256" by simp
  have w: "map (\<lambda>i. (i, wallets_of c ! i)) (owed_sol E C owner c) = map (\<lambda>i. (i, wallet (beneficiaries c ! i))) (owed_sol E C owner c)"
    by (rule map_cong [OF refl]) (use unpaid_lt in \<open>auto simp: owed_sol_def wallets_of_def\<close>)
  show "\<exists>c. vault_at E C owner = Some c
       \<and> (beneficiaries c \<noteq> [] \<longrightarrow>
            sol_payouts (prog_ixs out) = map (\<lambda>i. (i, wallet (beneficiaries c ! i))) (owed_sol E C owner c)
          \<and> distinct (owed_sol E C owner c)
          \<and> bequest_indices (prog_ixs out) = (case spec_plan E C owner c of None \<Rightarrow> [] | Some p \<Rightarrow> owed_bequests p)
          \<and> sorted (map rank (prog_ixs out)))"
    using c w by (intro exI [of _ c]) (simp add: spec_sol_payouts [OF n] spec_bequest_indices claim_spec_sorted
        unpaid_distinct owed_sol_def)
qed

subsection \<open>A concrete claim\<close>

text \<open>A pure SOL vault of two beneficiaries whose execution has not begun.\<close>

definition ex_sol_vault :: rust_vault where
  "ex_sol_vault = ex_vault\<lparr>rv_has_plan := False, rv_open := 0\<rparr>"

definition ex_claim :: chain where
  "ex_claim =
     \<lparr>ch_info = (\<lambda>k. if k = ex_vault_key
        then Some \<lparr>acc_owner = [100], acc_data = DISCRIMINATORS VaultConfigK @ enc_vault ex_sol_vault @ [], acc_lamports = 910\<rparr>
        else None),
      ch_tokens = (\<lambda>_ _. []), ch_balance = (\<lambda>_. None), ch_rent = (\<lambda>n. 900), ch_token_account = (\<lambda>_. None),
      ch_mint = (\<lambda>_. None)\<rparr>"

lemma ex_claim_vault: "parseVaultConfig (raw_at ex_claim ex_vault_key) [100] = Some (vault_view ex_sol_vault)"
proof -
  have "vault_ok ex_sol_vault" using ex_vault_ok by (simp add: ex_sol_vault_def vault_ok_def)
  from parse_encoded_vault [OF this, of "[100]" "[]"] show ?thesis
    by (simp add: raw_at_def ex_claim_def program_account_def acct.defs)
qed

lemma ex_claim_none: "k \<noteq> ex_vault_key \<Longrightarrow> raw_at ex_claim k = None"
  by (simp add: raw_at_def ex_claim_def)

lemma ex_claim_log: "parseExecutionLog (raw_at ex_claim (getExecutionPDA ex_env ex_vault_key)) [100] = None"
proof -
  have "getExecutionPDA ex_env ex_vault_key \<noteq> ex_vault_key"
    by (simp add: getExecutionPDA_def ex_env_def ex_vault_key_def getVaultPDA_def seed_def)
  then show ?thesis by (simp add: ex_claim_none parseExecutionLog_def isProgramAccount_def)
qed

lemma rpc_of_rawInfo: "rawInfo (rpc_of E C) k = ret (raw_at C k)"
  by (simp add: rawInfo_def rpc_of_def raw_at_def)

lemma rpc_of_fee: "addPriorityFee E (rpc_of E C) t keys cu = ret (SetComputeUnitLimit cu # SetComputeUnitPrice 1000 # t)"
proof -
  have "getHeliusApiKey (rpc_of E C) = (\<lambda>_. [])" by (simp add: rpc_of_def)
  then have "estimatePriorityFee E (rpc_of E C) keys = ret 1000"
    by (simp add: estimatePriorityFee_def gets_const)
  then show ?thesis by (simp add: addPriorityFee_def)
qed

lemma rpc_of_config: "fetchVaultConfig E (rpc_of E C) owner = ret (vault_at E C owner)"
proof -
  have "anchorVaultConfig (rpc_of E C) k = throw (External 1)" for k by (simp add: rpc_of_def)
  then show ?thesis
    by (simp add: fetchVaultConfig_def Let_def rpc_of_rawInfo parseVaultConfigRaw_eq vault_at_def)
qed

lemma rpc_of_log: "fetchExecutionLog E (rpc_of E C) owner = ret (log_at E C owner)"
  by (simp add: fetchExecutionLog_def rpc_of_rawInfo parseExecutionLogRaw_eq log_at_def)

lemma rpc_of_balances: "getVaultTokenBalances E (rpc_of E C) v = ret (tokens_at E C v)"
  by (simp add: getVaultTokenBalances_def rpc_of_def tokens_at_def)

lemma ex_claim_at: "vault_at ex_env ex_claim [50] = Some (vault_view ex_sol_vault)"
  "log_at ex_env ex_claim [50] = None" "tokens_at ex_env ex_claim (getVaultPDA ex_env [50]) = []"
proof -
  have p: "program_id ex_env = [100]" by (simp add: ex_env_def)
  show "vault_at ex_env ex_claim [50] = Some (vault_view ex_sol_vault)"
    using ex_claim_vault by (simp add: vault_at_def p flip: ex_vault_key_def)
  show "log_at ex_env ex_claim [50] = None"
    using ex_claim_log by (simp add: log_at_def p flip: ex_vault_key_def)
  show "tokens_at ex_env ex_claim (getVaultPDA ex_env [50]) = []"
    by (simp add: tokens_at_def ex_claim_def keep_balances_def map_filter_def)
qed

lemma ex_claim_run: "\<exists>t. buildClaimTransactions ex_env (rpc_of ex_env ex_claim) [60] [50] () = (Inr [(''Distribute estate'', t)], ())"
proof -
  have h: "\<not> hasAssetPlan (vault_view ex_sol_vault)" "length (beneficiaries (vault_view ex_sol_vault)) = 2"
    by (simp_all add: vault_view_def ex_sol_vault_def ex_vault_def)
  show ?thesis
    by (simp add: buildClaimTransactions_def rpc_of_config rpc_of_log rpc_of_balances ex_claim_at h claim_mints_def
        claim_fast_path_def Let_def rpc_of_fee ret_apply)
qed

text \<open>
  C2: the claim builder refines its specification: when the RPC reports the chain state \<open>C\<close> and the
  build returns, the vault of the owner exists in \<open>C\<close> and the program instructions of all returned
  transactions, in order, are exactly \<open>claim_spec\<close>: begin when there is no execution log, a snapshot
  per mint without one, each unpaid bequest, the owed SOL shares in batches of eight, finalize unless
  completed, the owed token shares. The one-transaction fast path emits the same instructions.
\<close>

theorem claim_refines_spec:
  assumes "answers E R C"
  shows "yields (buildClaimTransactions E R heir owner)
    (\<lambda>out. \<exists>c. vault_at E C owner = Some c \<and> (beneficiaries c \<noteq> [] \<longrightarrow> prog_ixs out = claim_spec E C heir owner c))"
  by (rule claim_refines [OF assms])

lemma ex_sol_wallets: "map wallet (beneficiaries (vault_view ex_sol_vault)) = [replicate 32 3, replicate 32 4]"
  by (simp add: vault_view_def ex_sol_vault_def ex_vault_def benef_view_def)

theorem claim_refines_spec_witness:
  "\<exists>out. buildClaimTransactions ex_env (rpc_of ex_env ex_claim) [60] [50] () = (Inr out, ())
     \<and> prog_ixs out = claim_spec ex_env ex_claim [60] [50] (vault_view ex_sol_vault)"
proof -
  obtain t where run: "buildClaimTransactions ex_env (rpc_of ex_env ex_claim) [60] [50] () = (Inr [(''Distribute estate'', t)], ())"
    using ex_claim_run by blast
  have "beneficiaries (vault_view ex_sol_vault) \<noteq> []" by (simp add: vault_view_def ex_sol_vault_def ex_vault_def)
  then show ?thesis
    using run yieldsD [OF claim_refines_spec [OF rpc_of_answers] run] ex_claim_at(1) by auto
qed

theorem claim_pays_each_owed_share_witness:
  "\<exists>out. buildClaimTransactions ex_env (rpc_of ex_env ex_claim) [60] [50] () = (Inr out, ())
     \<and> sol_payouts (prog_ixs out) = [(0, replicate 32 3), (1, replicate 32 4)]
     \<and> sorted (map rank (prog_ixs out))"
proof -
  obtain t where run: "buildClaimTransactions ex_env (rpc_of ex_env ex_claim) [60] [50] () = (Inr [(''Distribute estate'', t)], ())"
    using ex_claim_run by blast
  have ne: "beneficiaries (vault_view ex_sol_vault) \<noteq> []" by (simp add: vault_view_def ex_sol_vault_def ex_vault_def)
  have "owed_sol ex_env ex_claim [50] (vault_view ex_sol_vault) = [0, 1]"
    by (simp add: owed_sol_def sol_mask_at_def ex_claim_at wallets_of_def ex_sol_wallets unpaidIndices_filter
        js_and_one js_ushr_def js_to_uint32_def upt_rec)
  moreover have "wallet (beneficiaries (vault_view ex_sol_vault) ! 0) = replicate 32 3"
    "wallet (beneficiaries (vault_view ex_sol_vault) ! 1) = replicate 32 4"
    by (simp_all add: vault_view_def ex_sol_vault_def ex_vault_def benef_view_def)
  ultimately show ?thesis
    using run ne yieldsD [OF claim_pays_each_owed_share [OF rpc_of_answers] run] ex_claim_at(1) by auto
qed

end
