(* ===== verification/Claim_Size.thy ===== *)
theory Claim_Size
  imports Claim_Facts
begin

text \<open>
  Each transaction of a claim on its own, whatever the RPC answers: the heir is the only payer it
  names, no account is asked to sign besides, and its serialized size is within the packet.
\<close>

fun heir_ix :: "pubkey \<Rightarrow> instruction \<Rightarrow> bool" where
  "heir_ix heir (ProgIx m accs rem) =
     (map_of accs Payer = Some (Some heir) \<and> list_all (\<lambda>m. \<not> mt_signer m) rem)"
| "heir_ix heir (CreateAtaIdempotent payer a ow m tp) = (payer = heir)"
| "heir_ix heir (SetComputeUnitLimit n) = True"
| "heir_ix heir (SetComputeUnitPrice n) = True"
| "heir_ix heir ix = False"

definition good_tx :: "env \<Rightarrow> pubkey \<Rightarrow> tx \<Rightarrow> bool" where
  "good_tx E heir t \<longleftrightarrow> list_all (heir_ix heir) t \<and> wire_size E heir t \<le> PACKET_DATA_SIZE"

text \<open>A size bound from a list that covers the keys.\<close>

lemma wire_size_le:
  assumes "tx_keys E payer (SetComputeUnitLimit cu # SetComputeUnitPrice fee # t) \<subseteq> set ks"
    and "length ks \<le> 35" "length t < 100" "32 * length ks + sum_list (map (ix_size E) t) \<le> 1110"
  shows "wire_size E payer (SetComputeUnitLimit cu # SetComputeUnitPrice fee # t) \<le> PACKET_DATA_SIZE"
proof -
  have k: "card (tx_keys E payer (SetComputeUnitLimit cu # SetComputeUnitPrice fee # t)) \<le> length ks"
    using card_mono [OF finite_set assms(1)] card_length [of ks] by simp
  then have c: "compact_len (card (tx_keys E payer (SetComputeUnitLimit cu # SetComputeUnitPrice fee # t))) = 1"
    using assms(2) by (simp add: compact_len_def)
  have cb: "ix_size E (SetComputeUnitLimit cu) = 8" "ix_size E (SetComputeUnitPrice fee) = 12"
    by (simp_all add: ix_size_def compact_len_def)
  show ?thesis
    using k assms(3,4) unfolding wire_size_def Let_def c
    by (simp add: cb PACKET_DATA_SIZE_def compact_len_def)
qed

lemma create_size: "ix_size E (CreateAtaIdempotent p a ow m tp) = 10"
  by (simp add: ix_size_def compact_len_def)

lemma step_sizes:
  "ix_size E (begin_ix E h ow b) = 17" "ix_size E (begin_dist_ix E h ow m a b) = 19"
  "ix_size E (specific_sol_ix E h ow j w) = 17" "ix_size E (specific_asset_ix E h ow j m a ba tp) = 21"
  "ix_size E (finalize_ix E h ow b) = 15" "ix_size E (close_dist_ix E h ow m a l tp) = 19"
  "length is \<le> 8 \<Longrightarrow> ix_size E (sol_shares_ix E h ow is ws) \<le> 25 + length ws + compact_len (3 + length ws)"
  "length is \<le> 8 \<Longrightarrow> ix_size E (token_shares_ix E h ow m is a tp as) \<le> 28 + length as + compact_len (6 + length as)"
  by (simp_all add: step_ix_defs ix_size_def compact_len_def buffer_from_def)

lemma heir_steps [simp]:
  "heir_ix h (begin_ix E h ow b)" "heir_ix h (specific_sol_ix E h ow j w)" "heir_ix h (begin_dist_ix E h ow m a b)"
  "heir_ix h (specific_asset_ix E h ow j m a ba tp)" "heir_ix h (sol_shares_ix E h ow is ws)"
  "heir_ix h (token_shares_ix E h ow m is a tp as)" "heir_ix h (finalize_ix E h ow b)"
  by (auto simp: step_ix_defs writable_def list_all_iff)

text \<open>The shapes of the transactions of a claim.\<close>

lemma good_begin: "good_tx E h [SetComputeUnitLimit cu, SetComputeUnitPrice fee, begin_ix E h ow b]"
  unfolding good_tx_def
  by (rule conjI, simp, rule wire_size_le [where ks = "[h, compute_budget_program E, program_id E, getVaultPDA E ow,
      getHeartbeatPDA E (getVaultPDA E ow), getExecutionPDA E (getVaultPDA E ow), getAssetPlanPDA E (getVaultPDA E ow),
      system_program E]"])
    (auto simp: tx_keys_def step_sizes, auto simp: step_ix_defs)

lemma good_finalize: "good_tx E h [SetComputeUnitLimit cu, SetComputeUnitPrice fee, finalize_ix E h ow b]"
  unfolding good_tx_def
  by (rule conjI, simp, rule wire_size_le [where ks = "[h, compute_budget_program E, program_id E, getVaultPDA E ow,
      getExecutionPDA E (getVaultPDA E ow), getAssetPlanPDA E (getVaultPDA E ow)]"])
    (auto simp: tx_keys_def step_sizes, auto simp: step_ix_defs)

lemma good_snapshot: "good_tx E h [SetComputeUnitLimit cu, SetComputeUnitPrice fee,
    CreateAtaIdempotent h a (getVaultPDA E ow) m tp, begin_dist_ix E h ow m a b]"
  unfolding good_tx_def
  by (rule conjI, simp, rule wire_size_le [where ks = "[h, compute_budget_program E, program_id E, getVaultPDA E ow,
      getExecutionPDA E (getVaultPDA E ow), getAssetPlanPDA E (getVaultPDA E ow), system_program E, a, m, tp,
      getTokenDistPDA E (getVaultPDA E ow) m, ata_program E]"])
    (auto simp: tx_keys_def step_sizes create_size, auto simp: step_ix_defs)

lemma good_specific_sol: "good_tx E h [SetComputeUnitLimit cu, SetComputeUnitPrice fee, specific_sol_ix E h ow j w]"
  unfolding good_tx_def
  by (rule conjI, simp, rule wire_size_le [where ks = "[h, compute_budget_program E, program_id E, getVaultPDA E ow,
      getExecutionPDA E (getVaultPDA E ow), getAssetPlanPDA E (getVaultPDA E ow), w]"])
    (auto simp: tx_keys_def step_sizes, auto simp: step_ix_defs)

lemma good_specific_asset:
  assumes "create = [] \<or> create = [CreateAtaIdempotent h ba w m tp]"
  shows "good_tx E h (SetComputeUnitLimit cu # SetComputeUnitPrice fee # create @ [specific_asset_ix E h ow j m a ba tp])"
  unfolding good_tx_def
  by (rule conjI, use assms in force, rule wire_size_le [where ks = "[h, compute_budget_program E, program_id E, getVaultPDA E ow,
      getExecutionPDA E (getVaultPDA E ow), getAssetPlanPDA E (getVaultPDA E ow), m, getTokenDistPDA E (getVaultPDA E ow) m,
      a, ba, tp, w, system_program E, ata_program E]"])
    (use assms in \<open>auto simp: tx_keys_def step_sizes create_size\<close>, auto simp: step_ix_defs)

lemma good_sol_shares:
  assumes "length b \<le> 8"
  shows "good_tx E h [SetComputeUnitLimit cu, SetComputeUnitPrice fee, sol_shares_ix E h ow b (map f b)]"
proof -
  have sz: "ix_size E (sol_shares_ix E h ow b (map f b)) \<le> 34"
    using step_sizes(7) [OF assms, of E h ow "map f b"] assms by (simp add: compact_len_def)
  show ?thesis
    unfolding good_tx_def
    by (rule conjI, simp, rule wire_size_le [where ks = "[h, compute_budget_program E, program_id E, getVaultPDA E ow,
        getExecutionPDA E (getVaultPDA E ow)] @ map f b"])
      (use assms sz in \<open>auto simp: tx_keys_def\<close>, auto simp: step_ix_defs writable_def)
qed

lemma good_fast:
  assumes "length b \<le> 8"
  shows "good_tx E h [SetComputeUnitLimit cu, SetComputeUnitPrice fee, begin_ix E h ow False,
    sol_shares_ix E h ow b (map f b), finalize_ix E h ow False]"
proof -
  have sz: "ix_size E (sol_shares_ix E h ow b (map f b)) \<le> 34"
    using step_sizes(7) [OF assms, of E h ow "map f b"] assms by (simp add: compact_len_def)
  show ?thesis
    unfolding good_tx_def
    by (rule conjI, simp, rule wire_size_le [where ks = "[h, compute_budget_program E, program_id E, getVaultPDA E ow,
        getHeartbeatPDA E (getVaultPDA E ow), getExecutionPDA E (getVaultPDA E ow), system_program E] @ map f b"])
      (use assms sz in \<open>auto simp: tx_keys_def step_sizes\<close>, auto simp: step_ix_defs writable_def)
qed

definition creations :: "env \<Rightarrow> pubkey \<Rightarrow> pubkey \<Rightarrow> pubkey \<Rightarrow> pubkey list \<Rightarrow> instruction list \<Rightarrow> bool" where
  "creations E h m tp ws ixs \<longleftrightarrow> length ixs \<le> length ws
     \<and> set ixs \<subseteq> (\<lambda>w. CreateAtaIdempotent h (ata_of E m w False tp) w m tp) ` set ws"

lemma creations_size: "creations E h m tp ws ixs \<Longrightarrow> sum_list (map (ix_size E) ixs) \<le> 10 * length ws"
proof -
  assume c: "creations E h m tp ws ixs"
  have m: "map (ix_size E) ixs = map (\<lambda>_. 10) ixs" using c by (intro map_cong) (auto simp: creations_def create_size)
  have "sum_list (map (ix_size E) ixs) = length ixs * 10" unfolding m by (simp add: sum_list_triv)
  then show ?thesis using c by (simp add: creations_def)
qed

lemma creations_keys:
  "creations E h m tp ws ixs \<Longrightarrow> ix \<in> set ixs \<Longrightarrow> set (ix_accounts E ix) \<subseteq>
     {h, m, system_program E, tp} \<union> set ws \<union> (\<lambda>w. ata_of E m w False tp) ` set ws \<and> ix_program E ix = ata_program E"
proof -
  assume "creations E h m tp ws ixs" "ix \<in> set ixs"
  then obtain w where "w \<in> set ws" "ix = CreateAtaIdempotent h (ata_of E m w False tp) w m tp"
    unfolding creations_def by blast
  then show ?thesis by simp
qed

lemma good_token_shares:
  assumes "length b \<le> 8" "creations E h m tp (map f b) ixs"
  shows "good_tx E h (SetComputeUnitLimit cu # SetComputeUnitPrice fee # ixs
    @ [token_shares_ix E h ow m b a tp (map (\<lambda>w. ata_of E m w False tp) (map f b))])"
proof -
  let ?as = "map (\<lambda>w. ata_of E m w False tp) (map f b)"
  have sz: "ix_size E (token_shares_ix E h ow m b a tp ?as) \<le> 37"
    using step_sizes(8) [OF assms(1), of E h ow m a tp ?as] assms(1) by (simp add: compact_len_def)
  have c: "sum_list (map (ix_size E) ixs) \<le> 80" "length ixs \<le> 8"
    using creations_size [OF assms(2)] assms by (simp_all add: creations_def)
  have keys: "tx_keys E h (SetComputeUnitLimit cu # SetComputeUnitPrice fee # ixs @ [token_shares_ix E h ow m b a tp ?as])
      \<subseteq> set ([h, compute_budget_program E, program_id E, getVaultPDA E ow, getTokenDistPDA E (getVaultPDA E ow) m,
        m, a, tp, system_program E, ata_program E] @ map f b @ ?as)"
    (is "_ \<subseteq> ?K")
  proof -
    have "insert (ix_program E ix) (set (ix_accounts E ix)) \<subseteq> ?K" if "ix \<in> set ixs" for ix
      using creations_keys [OF assms(2) that] by auto
    then have "(\<Union>ix\<in>set ixs. insert (ix_program E ix) (set (ix_accounts E ix))) \<subseteq> ?K" by (rule UN_least)
    moreover have "insert (ix_program E (token_shares_ix E h ow m b a tp ?as))
        (set (ix_accounts E (token_shares_ix E h ow m b a tp ?as))) \<subseteq> ?K"
      by (auto simp: step_ix_defs writable_def)
    ultimately show ?thesis by (simp add: tx_keys_def)
  qed
  have heirs: "list_all (heir_ix h) ixs" using assms(2) by (auto simp: creations_def list_all_iff)
  show ?thesis
    unfolding good_tx_def
    by (rule conjI, use heirs in simp, rule wire_size_le [OF keys]) (use assms(1) sz c in simp_all)
qed

subsection \<open>The loops\<close>

abbreviation good_out :: "env \<Rightarrow> pubkey \<Rightarrow> labelled list \<Rightarrow> bool" where
  "good_out E h \<equiv> list_all (\<lambda>(l, t). good_tx E h t)"

lemma yields_good_wrap:
  "good_out E h out \<Longrightarrow> (\<And>fee. good_tx E h (SetComputeUnitLimit cu # SetComputeUnitPrice fee # t)) \<Longrightarrow>
   yields (bindE (addPriorityFee E R t keys cu) (\<lambda>t'. ret (out @ [(l, t')]))) (good_out E h)"
  by (rule yields_bindE [OF yields_addPriorityFee [where P = "good_tx E h"]]) (auto intro: yields_ret)

lemma yields_create_shape:
  "yields (create_if_missing R payer k ow m tp) (\<lambda>c. c = [] \<or> c = [CreateAtaIdempotent payer k ow m tp])"
  unfolding create_if_missing_def by (intro yields_bindE_any yields_ret) simp

lemma yields_creations_loop:
  "yields (forE ws (ixs, as) (\<lambda>w (setupIxs, atas).
       bindE (ataFor E m w False tp) (\<lambda>a.
       bindE (create_if_missing R h a w m tp) (\<lambda>create.
       ret (setupIxs @ create, atas @ [a])))))
   (\<lambda>(ixs', as'). \<exists>cs. ixs' = ixs @ cs \<and> creations E h m tp ws cs \<and> as' = as @ map (\<lambda>w. ata_of E m w False tp) ws)"
proof (induction ws arbitrary: ixs as)
  case (Cons w ws)
  show ?case
    unfolding forE.simps prod.case bindE_assoc bindE_ret
  proof (rule yields_bindE [OF yields_ata], rule yields_bindE [OF yields_create_shape], rule yields_mono [OF Cons.IH], goal_cases)
    case (1 a c r)
    obtain ixs' as' where r: "r = (ixs', as')" by (cases r)
    then obtain cs where "ixs' = (ixs @ c) @ cs" "creations E h m tp ws cs" "as' = (as @ [a]) @ map (\<lambda>w. ata_of E m w False tp) ws"
      using 1 by auto
    then show ?case using 1(1,2) r by (auto simp: creations_def intro!: exI [of _ "c @ cs"])
  qed
qed (simp add: yields_ret creations_def)

lemma yields_creations:
  "yields (atas_with_setup E R h m tp ws)
     (\<lambda>(ixs, as). creations E h m tp ws ixs \<and> as = map (\<lambda>w. ata_of E m w False tp) ws)"
  unfolding atas_with_setup_def by (rule yields_mono [OF yields_creations_loop]) auto

lemma good_snapshots: "good_out E h out \<Longrightarrow> yields (claim_snapshots E R h ow b mints out) (good_out E h)"
  unfolding claim_snapshots_def Let_def
  by (rule yields_forE, assumption, rule yields_bindE_any, rule yields_if, rule yields_ret, assumption,
      rule yields_bindE_any, rule yields_bindE_any, rule yields_good_wrap, assumption, rule good_snapshot)

lemma good_bequest: "good_out E h out \<Longrightarrow> yields (claim_bequest E R h ow ws j a out) (good_out E h)"
  unfolding claim_bequest_def Let_def
  by (rule yields_bindE_any, rule yields_if, rule yields_good_wrap, assumption, rule good_specific_sol,
      rule yields_bindE_any, rule yields_bindE_any, rule yields_bindE_any, rule yields_bindE [OF yields_create_shape],
      rule yields_good_wrap, assumption, rule good_specific_asset)

lemma good_bequests: "good_out E h out \<Longrightarrow> yields (claim_bequests E R h ow ws p out) (good_out E h)"
  unfolding claim_bequests_def
  by (rule yields_forE, assumption, rule yields_if, rule yields_ret, assumption, rule good_bequest)

lemma good_sols: "good_out E h out \<Longrightarrow> yields (claim_sol_shares E R h ow ws msk out) (good_out E h)"
  unfolding claim_sol_shares_def Let_def batches_groups
  by (rule yields_forE, assumption, rule yields_good_wrap, assumption, rule good_sol_shares)
    (use groups_sizes in blast)

lemma good_tokens: "good_out E h out \<Longrightarrow> yields (claim_token_shares E R h ow ws mints out) (good_out E h)"
  unfolding claim_token_shares_def Let_def batches_groups
proof (rule yields_forE, assumption, rule yields_bindE_any, goal_cases)
  case (1 m out td)
  show ?case
  proof (cases td)
    case None
    then show ?thesis using 1 by (simp add: yields_ret)
  next
    case (Some d)
    show ?thesis
      unfolding Some option.case
    proof (rule yields_bindE_any, rule yields_bindE_any, rule yields_forE, use 1 in simp,
        rule yields_bindE [OF yields_creations], goal_cases)
      case (1 tp a b out r)
      obtain ixs as where r: "r = (ixs, as)" by (cases r)
      have "length b \<le> 8" using 1(1) groups_sizes by blast
      then show ?case
        using 1 unfolding r prod.case
        by (intro yields_good_wrap) (auto dest: good_token_shares)
    qed
  qed
qed

text \<open>
  C26: whatever the RPC answers, every transaction that a claim returns is payable and sendable by the
  heir alone: the heir is the payer of each of its program instructions and account creations, no
  remaining account signs, and the serialized size is at most 1232 bytes, for any number of
  beneficiaries, any mints and any fee.
\<close>

theorem claim_transactions_sendable:
  "yields (buildClaimTransactions E R heir owner) (list_all (\<lambda>(l, t). good_tx E heir t))"
proof -
  have fast: "length ws \<le> 8 \<Longrightarrow> yields (claim_fast_path E R heir owner ws) (good_out E heir)" for ws
    unfolding claim_fast_path_def Let_def
    by (rule yields_bindE [OF yields_addPriorityFee [where P = "good_tx E heir"]])
      (auto intro!: yields_ret good_fast simp: range_def)
  show ?thesis
    unfolding buildClaimTransactions_def Let_def
  proof (rule yields_bindE_any, goal_cases)
    case (1 config)
    show ?case
    proof (cases config)
      case None
      then show ?thesis by (simp add: yields_throw)
    next
      case (Some c)
      have beg: "yields (if b then bindE (addPriorityFee E R [begin_ix E heir owner p] keys cu)
            (\<lambda>t. ret [(''Begin distribution'', t)]) else ret []) (good_out E heir)" for b p keys cu
        using yields_good_wrap [of E heir "[]" cu "[begin_ix E heir owner p]" R keys "''Begin distribution''"]
        by (simp add: yields_ret good_begin)
      have beq: "yields (case p of Some p \<Rightarrow> claim_bequests E R heir owner ws p out | None \<Rightarrow> ret out) (good_out E heir)"
        if "good_out E heir out" for p ws out
        using that good_bequests by (auto simp: yields_ret split: option.splits)
      have fin: "yields (if b then ret out else bindE (addPriorityFee E R [finalize_ix E heir owner p] keys cu)
            (\<lambda>t. ret (out @ [(''Finalize distribution'', t)]))) (good_out E heir)"
        if "good_out E heir out" for b p keys cu out
        by (intro yields_if yields_ret yields_good_wrap) (use that in \<open>simp_all add: good_finalize\<close>)
      show ?thesis
        unfolding Some option.case
        by (rule yields_bindE_any, rule yields_bindE_any, rule yields_bindE_any, rule yields_if, rule fast, simp,
            rule yields_bindE [OF beg], rule yields_bindE [OF good_snapshots], assumption, rule yields_bindE [OF beq],
            assumption, rule yields_bindE [OF good_sols], assumption, rule yields_bindE [OF fin], assumption,
            rule good_tokens)
    qed
  qed
qed

end
