(* ===== verification/Notify_Life.thy ===== *)
theory Notify_Life
  imports Notify_Dereg
begin

text \<open>
  The notification lifecycle of \<open>services/notificationLifecycle.ts\<close>: token fingerprints, the pure
  reconciliation, the local observer with its generation counter, and the operation lock. An awaited
  step of a check may overlap with newer checks and invalidations; the observer sees them as a jump of
  the generation, which the world outside may make at any step.
\<close>

subsection \<open>Fingerprints and reconciliation\<close>

definition TOKEN_FP_HEX :: nat where
  "TOKEN_FP_HEX = 32"

definition tokenFingerprint :: "string \<Rightarrow> string" where
  "tokenFingerprint sha256HexLower = take TOKEN_FP_HEX sha256HexLower"

definition isLegacyFingerprint :: "json \<Rightarrow> bool" where
  "isLegacyFingerprint fp \<longleftrightarrow> (case fp of JStr s \<Rightarrow> length s = 16 \<and> list_all hex_lower s | _ \<Rightarrow> False)"

definition isStrongFingerprint :: "json \<Rightarrow> bool" where
  "isStrongFingerprint fp \<longleftrightarrow> (case fp of JStr s \<Rightarrow> length s = 32 \<and> list_all hex_lower s | _ \<Rightarrow> False)"

datatype lifecycle_state =
    Not_enabled | Enabled | Update_required | Checking | Updating | Disabling | Disabled
  | Token_unavailable | Owner_mismatch | Local_cleanup_pending | Vault_closed_cleanup_pending | Failed

definition pendingKey :: "key_parts \<Rightarrow> string" where
  "pendingKey k = ''notif_pending/'' @ key_path k"

text \<open>\<open>record\<close> is the parsed confirmed record, \<open>null\<close> as \<open>JNull\<close>.\<close>

definition reconcile :: "json \<Rightarrow> string option \<Rightarrow> string \<Rightarrow> lifecycle_state \<times> string option" where
  "reconcile rc currentTokenHashHex connectedOwner =
     (if \<not> js_truthy rc then (Not_enabled, None)
      else if js_field ''owner'' rc \<noteq> JStr connectedOwner then (Owner_mismatch, None)
      else if js_truthy (js_field ''deregisteredAt'' rc) then (Disabled, None)
      else case currentTokenHashHex of
        None \<Rightarrow> (Token_unavailable, None)
      | Some h \<Rightarrow>
          let fp = tokenFingerprint h; confirmed = js_field ''tokenFingerprint'' rc in
          if isLegacyFingerprint confirmed then (Update_required, Some fp)
          else if \<not> isStrongFingerprint confirmed then (Failed, None)
          else if confirmed = JStr fp then (Enabled, Some fp)
          else (Update_required, Some fp))"

subsection \<open>The observer\<close>

record 'w observer_deps = "'w local_deps" +
  d_getConnectedOwner :: "'w \<Rightarrow> string option"
  d_getCurrentToken :: "('w, string option) io"
  d_tokenHash :: "string \<Rightarrow> ('w, string) io"
  d_clockMs :: "('w, int) io"
  d_onState :: "lifecycle_state \<Rightarrow> ('w, unit) io"

datatype lifecycle_op = Op_register | Op_update | Op_deregister

record active_op =
  ao_op :: lifecycle_op
  ao_generation :: nat

record life_world = notify_world +
  generation :: nat
  disposed :: bool
  subscribed :: bool
  emitted :: "lifecycle_state list"
  activeOps :: "string \<rightharpoonup> active_op"
  opGeneration :: nat

definition emit ::
  "('e life_world_scheme, 'x) observer_deps_scheme \<Rightarrow> nat \<Rightarrow> lifecycle_state \<Rightarrow> ('e life_world_scheme, unit) io" where
  "emit D gen s =
     bindE (gets (\<lambda>w. gen \<noteq> generation w \<or> disposed w)) (\<lambda>stale.
     if stale then ret () else quietly (d_onState D s))"

definition marker_json :: "string \<Rightarrow> int \<Rightarrow> int \<Rightarrow> json" where
  "marker_json fingerprint detectedAt sequence = JObj
     [(''schemaVersion'', JNum 1), (''fingerprint'', JStr fingerprint), (''detectedAt'', JNum detectedAt),
      (''sequence'', JNum sequence), (''rotationRequired'', JBool True)]"

definition previous_sequence :: "json \<Rightarrow> int" where
  "previous_sequence prev =
     (if js_truthy prev then (case js_field ''sequence'' prev of JNum n \<Rightarrow> n | _ \<Rightarrow> 0) else 0)"

definition persistPending ::
  "notify_libs \<Rightarrow> ('e life_world_scheme, 'x) observer_deps_scheme \<Rightarrow> nat \<Rightarrow> key_parts \<Rightarrow> string
   \<Rightarrow> ('e life_world_scheme, unit) io" where
  "persistPending L D gen key fingerprint =
     (let k = pendingKey key in
      bindE (tryE (read_json L D k) (\<lambda>_. ret JNull)) (\<lambda>prev.
      if js_truthy prev \<and> js_field ''fingerprint'' prev = JStr fingerprint then ret ()
      else
      bindE (gets (\<lambda>w. gen \<noteq> generation w \<or> disposed w)) (\<lambda>stale.
      if stale then ret ()
      else
      bindE (d_clockMs D) (\<lambda>now.
      d_setSetting D k (nl_json L (marker_json fingerprint now (previous_sequence prev + 1)))))))"

text \<open>
  The closed-vault part: \<open>True\<close> when the check must answer \<open>vault_closed_cleanup_pending\<close>. The
  outer \<open>try\<close> covers the read of the marker only; the inner reads and writes have their own.
\<close>

definition stale_tombstone :: "json \<Rightarrow> json \<Rightarrow> bool" where
  "stale_tombstone rc tomb \<longleftrightarrow>
     (case (js_field ''revision'' rc, js_field ''priorRevision'' tomb) of
        (JNum r, JNum p) \<Rightarrow> r > p | _ \<Rightarrow> False)"

definition live_record :: "key_parts \<Rightarrow> json \<Rightarrow> bool" where
  "live_record key rc \<longleftrightarrow>
     js_truthy rc \<and> js_field ''owner'' rc = JStr (kp_owner key) \<and> js_field ''vault'' rc = JStr (kp_vault key)
     \<and> \<not> js_truthy (js_field ''deregisteredAt'' rc)"

definition closed_check ::
  "notify_libs \<Rightarrow> ('w, 'x) local_deps_scheme \<Rightarrow> key_parts \<Rightarrow> ('w, bool) io" where
  "closed_check L D key =
     tryE (bindE (d_getSetting D (closedVaultKey key)) (\<lambda>rawClosed.
       case rawClosed of None \<Rightarrow> ret False
       | Some raw \<Rightarrow>
       if raw = [] then ret False
       else
       let tomb = (case nl_parse L raw of None \<Rightarrow> JNull | Some j \<Rightarrow> j) in
       if js_truthy tomb \<and> js_field ''owner'' tomb = JStr (kp_owner key) \<and> js_field ''vault'' tomb = JStr (kp_vault key)
       then
         bindE (tryE (read_json L D (successKey key)) (\<lambda>_. ret JNull)) (\<lambda>rc.
         if live_record key rc \<and> \<not> stale_tombstone rc tomb then ret True
         else seqE (quietly (d_setSetting D (closedVaultKey key) [])) (ret False))
       else ret False))
     (\<lambda>_. ret False)"

definition repair_json :: "key_parts \<Rightarrow> int \<Rightarrow> json" where
  "repair_json k deregisteredAt = JObj
     [(''owner'', JStr (kp_owner k)), (''vault'', JStr (kp_vault k)), (''cluster'', JStr (kp_cluster k)),
      (''programId'', JStr (kp_programId k)), (''deregisteredAt'', JNum deregisteredAt)]"

text \<open>\<open>Number(marker) || Math.floor(nowMs / 1000)\<close>.\<close>

definition repaired_at :: "notify_libs \<Rightarrow> string \<Rightarrow> int \<Rightarrow> int" where
  "repaired_at L marker ms =
     (case nl_num L marker of Some n \<Rightarrow> if n \<noteq> 0 then n else ms div 1000 | None \<Rightarrow> ms div 1000)"

text \<open>The repair of a failed tombstone write: \<open>True\<close> when it is still failing.\<close>

definition repair_check ::
  "notify_libs \<Rightarrow> ('w, 'x) observer_deps_scheme \<Rightarrow> key_parts \<Rightarrow> ('w, bool) io" where
  "repair_check L D key =
     tryE (bindE (d_getSetting D (deregPendingKey key)) (\<lambda>marker.
       case marker of None \<Rightarrow> ret False
       | Some mk \<Rightarrow>
       if mk = [] then ret False
       else
         or_return
           (bindE (if nl_num L mk = None \<or> nl_num L mk = Some 0 then d_clockMs D else ret 0) (\<lambda>ms.
            seqE (d_setSetting D (successKey key) (nl_json L (repair_json key (repaired_at L mk ms))))
                 (d_setSetting D (deregPendingKey key) [])))
           True (\<lambda>_. ret False)))
     (\<lambda>_. ret False)"

definition current_hash :: "('w, 'x) observer_deps_scheme \<Rightarrow> ('w, string option) io" where
  "current_hash D =
     tryE (bindE (d_getCurrentToken D) (\<lambda>token.
       case token of None \<Rightarrow> ret None
       | Some t \<Rightarrow> if t = [] then ret None else bindE (d_tokenHash D t) (\<lambda>h. ret (Some (to_lower h)))))
     (\<lambda>_. ret None)"

definition finish_check ::
  "('e life_world_scheme, 'x) observer_deps_scheme \<Rightarrow> nat \<Rightarrow> lifecycle_state \<Rightarrow> ('e life_world_scheme, lifecycle_state) io" where
  "finish_check D gen s = seqE (emit D gen s) (ret s)"

definition check_record ::
  "notify_libs \<Rightarrow> ('e life_world_scheme, 'x) observer_deps_scheme \<Rightarrow> nat \<Rightarrow> key_parts
   \<Rightarrow> ('e life_world_scheme, lifecycle_state) io" where
  "check_record L D gen key =
     bindE (tryE (bindE (read_json L D (successKey key)) (\<lambda>j. ret (Some j))) (\<lambda>_. ret None)) (\<lambda>rc.
     case rc of None \<Rightarrow> finish_check D gen Failed
     | Some rc' \<Rightarrow>
     bindE (current_hash D) (\<lambda>hash.
     let (state, fingerprint) = reconcile rc' hash (kp_owner key) in
     seqE (if state = Update_required \<and> fingerprint \<noteq> None \<and> fingerprint \<noteq> Some []
           then quietly (persistPending L D gen key (the fingerprint)) else ret ())
     (finish_check D gen state)))"

definition checkNow ::
  "notify_libs \<Rightarrow> ('e life_world_scheme, 'x) observer_deps_scheme \<Rightarrow> ('e life_world_scheme, lifecycle_state) io" where
  "checkNow L D =
     seqE (modify (\<lambda>w. w\<lparr>generation := Suc (generation w)\<rparr>)) (
     bindE (gets generation) (\<lambda>gen.
     bindE (gets (d_getConnectedOwner D)) (\<lambda>connected.
     case connected of None \<Rightarrow> finish_check D gen Not_enabled
     | Some ow \<Rightarrow>
     if ow = [] then finish_check D gen Not_enabled
     else
     case d_deriveVault D ow of Inl _ \<Rightarrow> finish_check D gen Failed
     | Inr vault \<Rightarrow>
     let key = \<lparr>kp_cluster = d_cluster D, kp_programId = d_programId D, kp_owner = ow, kp_vault = vault\<rparr> in
     bindE (closed_check L D key) (\<lambda>closed.
     if closed then finish_check D gen Vault_closed_cleanup_pending
     else
     bindE (repair_check L D key) (\<lambda>failing.
     if failing then finish_check D gen Local_cleanup_pending
     else check_record L D gen key)))))"

definition invalidate :: "('e life_world_scheme, unit) io" where
  "invalidate = modify (\<lambda>w. w\<lparr>generation := Suc (generation w)\<rparr>)"

definition start_observer :: "bool \<Rightarrow> ('e life_world_scheme, unit) io" where
  "start_observer can_subscribe =
     modify (\<lambda>w. if can_subscribe \<and> \<not> subscribed w then w\<lparr>subscribed := True\<rparr> else w)"

definition dispose :: "('e life_world_scheme, unit) io" where
  "dispose = modify (\<lambda>w. w\<lparr>disposed := True, subscribed := False\<rparr>)"

subsection \<open>The operation lock\<close>

definition operationIdentity :: "key_parts \<Rightarrow> string" where
  "operationIdentity k = key_path k"

datatype 'a exclusive_result = Ran nat 'a | Noop lifecycle_op | Conflict lifecycle_op

text \<open>Taking the lock: the current holder, or the generation of the new one.\<close>

definition acquire :: "string \<Rightarrow> lifecycle_op \<Rightarrow> 'e life_world_scheme \<Rightarrow> (active_op + nat) \<times> 'e life_world_scheme" where
  "acquire ident opn w =
     (case activeOps w ident of
        Some cur \<Rightarrow> (Inl cur, w)
      | None \<Rightarrow>
          let gen = Suc (opGeneration w) in
          (Inr gen, w\<lparr>activeOps := (activeOps w)(ident \<mapsto> \<lparr>ao_op = opn, ao_generation = gen\<rparr>), opGeneration := gen\<rparr>))"

definition release :: "string \<Rightarrow> nat \<Rightarrow> 'e life_world_scheme \<Rightarrow> 'e life_world_scheme" where
  "release ident gen w =
     (case activeOps w ident of
        None \<Rightarrow> w
      | Some now \<Rightarrow> if ao_generation now = gen then w\<lparr>activeOps := (activeOps w)(ident := None)\<rparr> else w)"

definition runExclusive ::
  "string \<Rightarrow> lifecycle_op \<Rightarrow> ('e life_world_scheme, 'a) io \<Rightarrow> ('e life_world_scheme, 'a exclusive_result) io" where
  "runExclusive ident opn fn w =
     (case acquire ident opn w of
        (Inl cur, w') \<Rightarrow> (Inr (if ao_op cur = opn then Noop (ao_op cur) else Conflict (ao_op cur)), w')
      | (Inr gen, w') \<Rightarrow> finallyE (bindE fn (\<lambda>v. ret (Ran gen v))) (release ident gen) w')"

definition isOperationActive :: "string \<Rightarrow> 'e life_world_scheme \<Rightarrow> bool" where
  "isOperationActive ident w \<longleftrightarrow> activeOps w ident \<noteq> None"

end
