(* ===== verification/Notify_Life_Props.thy ===== *)
theory Notify_Life_Props
  imports Notify_Life "HOL-Library.Countable"
begin

text \<open>
  The properties of the lifecycle: the operation lock as a transition system, the deregistration
  protocol, and what the observer reports after failed local writes and reads.
\<close>

subsection \<open>The lock as a transition system\<close>

text \<open>
  A state is the world with the operations that are running (identity, operation, generation).
  Operations start, are refused and finish in any order.
\<close>

type_synonym 'e lock_state = "'e life_world_scheme \<times> (string \<times> lifecycle_op \<times> nat) set"

inductive lock_step :: "'e lock_state \<Rightarrow> 'e lock_state \<Rightarrow> bool" where
  lock_start: "acquire ident opn w = (Inr gen, w') \<Longrightarrow> lock_step (w, R) (w', insert (ident, opn, gen) R)"
| lock_refuse: "acquire ident opn w = (Inl cur, w') \<Longrightarrow> lock_step (w, R) (w', R)"
| lock_finish: "(ident, opn, gen) \<in> R \<Longrightarrow> lock_step (w, R) (release ident gen w, R - {(ident, opn, gen)})"

inductive lock_reachable :: "'e lock_state \<Rightarrow> bool" where
  lock_init: "activeOps w = Map.empty \<Longrightarrow> lock_reachable (w, {})"
| lock_next: "lock_reachable s \<Longrightarrow> lock_step s t \<Longrightarrow> lock_reachable t"

inductive_cases lock_stepE: "lock_step s t"

definition lock_inv :: "'e lock_state \<Rightarrow> bool" where
  "lock_inv s \<longleftrightarrow> (\<forall>i opn g. (i, opn, g) \<in> snd s \<longleftrightarrow> activeOps (fst s) i = Some \<lparr>ao_op = opn, ao_generation = g\<rparr>)"

lemma lock_inv_step: "lock_step s t \<Longrightarrow> lock_inv s \<Longrightarrow> lock_inv t"
proof (induction rule: lock_step.induct)
  case (lock_start ident opn w gen w' R)
  then show ?case
    by (auto simp: acquire_def lock_inv_def Let_def split: option.splits if_splits)
next
  case (lock_refuse ident opn w cur w' R)
  then show ?case by (auto simp: acquire_def Let_def split: option.splits)
next
  case (lock_finish ident opn gen R w)
  then have a: "activeOps w ident = Some \<lparr>ao_op = opn, ao_generation = gen\<rparr>" by (simp add: lock_inv_def)
  then have "release ident gen w = w\<lparr>activeOps := (activeOps w)(ident := None)\<rparr>" by (simp add: release_def)
  then show ?case using lock_finish a by (auto simp: lock_inv_def)
qed

lemma lock_reachable_inv: "lock_reachable s \<Longrightarrow> lock_inv s"
proof (induction rule: lock_reachable.induct)
  case (lock_init w)
  then show ?case by (simp add: lock_inv_def)
qed (rule lock_inv_step)

text \<open>
  in every interleaving of starts and completions, at most one of register, update and
  deregister runs for an identity, and the lock of an identity is held exactly while one runs: it
  neither leaks nor is released by another operation's completion.
\<close>

theorem lock_exclusive:
  assumes "lock_reachable (w, R)"
  shows "((i, a, g) \<in> R \<and> (i, b, h) \<in> R \<longrightarrow> (a, g) = (b, h)) \<and> (isOperationActive i w \<longleftrightarrow> (\<exists>a g. (i, a, g) \<in> R))"
proof -
  have inv: "lock_inv (w, R)" using assms by (rule lock_reachable_inv)
  have "isOperationActive i w \<longleftrightarrow> (\<exists>a g. activeOps w i = Some \<lparr>ao_op = a, ao_generation = g\<rparr>)"
    unfolding isOperationActive_def by (metis active_op.cases not_None_eq)
  then show ?thesis using inv by (auto simp: lock_inv_def)
qed

definition blank_world :: life_world where
  "blank_world =
     \<lparr>db_open = True, db = empty_tables, sql_faults = (\<lambda>_. False), sql_count = 0, now_ms = 1700000000000,
      inFlight = False, deregInFlight = False, events = [], ticks = 0,
      generation = 0, disposed = False, subscribed = False, emitted = [], activeOps = Map.empty, opGeneration = 0\<rparr>"

theorem lock_exclusive_witness:
  "\<exists>w :: life_world. lock_reachable (w, {(''id'', Op_register, 1)}) \<and> isOperationActive ''id'' w
     \<and> acquire ''id'' Op_deregister w = (Inl \<lparr>ao_op = Op_register, ao_generation = 1\<rparr>, w)"
proof -
  obtain w where w: "acquire ''id'' Op_register blank_world = (Inr 1, w)"
    by (simp add: acquire_def blank_world_def Let_def)
  have r: "lock_reachable (w, {(''id'', Op_register, 1)})"
    by (rule lock_next [OF lock_init [of blank_world]])
      (use lock_start [OF w, of "{}"] in \<open>simp_all add: blank_world_def\<close>)
  then have "isOperationActive ''id'' w" using lock_exclusive [OF r, of "''id''"] by blast
  moreover have "acquire ''id'' Op_deregister w = (Inl \<lparr>ao_op = Op_register, ao_generation = 1\<rparr>, w)"
    using w by (auto simp: acquire_def blank_world_def Let_def)
  ultimately show ?thesis using r by blast
qed

subsection \<open>A concrete environment\<close>

instance json :: countable
  by countable_datatype

definition sample_libs :: notify_libs where
  "sample_libs =
     \<lparr>nl_canon = Some, nl_bs58 = (\<lambda>b. ''signature''),
      nl_json = (\<lambda>j. CHR ''{'' # nat_str (to_nat j)),
      nl_parse = (\<lambda>s. case s of [] \<Rightarrow> None | _ # t \<Rightarrow> Some (from_nat (str_nat t))),
      nl_num = (\<lambda>s. Some (int (str_nat s)))\<rparr>"

lemma sample_parse [simp]:
  "nl_parse sample_libs (nl_json sample_libs j) = Some j" "nl_json sample_libs j \<noteq> []"
  by (simp_all add: sample_libs_def str_nat_nat_str)

lemma sample_json_inj [simp]: "nl_json sample_libs a = nl_json sample_libs b \<longleftrightarrow> a = b"
  using sample_parse(1) option.inject by metis

lemma sample_json_ok: "json_ok sample_libs"
  by (simp add: json_ok_def)

text \<open>The observer on the device; a state callback appends to the states shown.\<close>

definition observer_deps_of :: "script \<Rightarrow> string \<Rightarrow> string \<Rightarrow> string option \<Rightarrow> 'e life_world_scheme observer_deps" where
  "observer_deps_of S cluster programId conn = local_deps.extend (local_deps_of S cluster programId)
     (observer_deps.fields (\<lambda>_. conn) (ask (s_token S)) (\<lambda>t. ask (s_hash S)) (ask (\<lambda>n. Inr (s_ms S n)))
        (\<lambda>st. modify (\<lambda>w. w\<lparr>emitted := emitted w @ [st]\<rparr>)))"

definition sample_hash :: string where
  "sample_hash = replicate 64 (CHR ''a'')"

definition sample_script :: script where
  "sample_script =
     \<lparr>s_token = (\<lambda>_. Inr (Some ''device-token'')), s_nonce = (\<lambda>_. Inr (replicate 22 (CHR ''x''))),
      s_hash = (\<lambda>_. Inr sample_hash), s_sign = (\<lambda>_. Inr (replicate 64 7)),
      s_reply = (\<lambda>_. Inr \<lparr>rp_status = 201, rp_code = None, rp_removed = None\<rparr>),
      s_ms = (\<lambda>_. 1700000000000), s_derive = (\<lambda>_. Inr ''Vau1t'')\<rparr>"

definition sample_key :: key_parts where
  "sample_key = \<lparr>kp_cluster = EXPECTED_CLUSTER, kp_programId = EXPECTED_PROGRAM_ID, kp_owner = ''Bob'', kp_vault = ''Vau1t''\<rparr>"

definition sample_record :: success_record where
  "sample_record =
     \<lparr>sc_owner = ''Bob'', sc_vault = ''Vau1t'', sc_revision = 5, sc_fingerprint = take 32 sample_hash,
      sc_stage1 = 1, sc_stage2 = 2, sc_stage3 = 3, sc_confirmedAt = 1699999999,
      sc_cluster = EXPECTED_CLUSTER, sc_programId = EXPECTED_PROGRAM_ID\<rparr>"

definition sample_closure :: closure_input where
  "sample_closure = \<lparr>ci_owner = ''Bob'', ci_revokeSig = replicate 88 (CHR ''5''), ci_revokedAt = 1700000000\<rparr>"

definition stored :: "(string \<rightharpoonup> string) \<Rightarrow> (nat \<Rightarrow> bool) \<Rightarrow> life_world" where
  "stored M faults = blank_world\<lparr>db := empty_tables\<lparr>t_settings := M\<rparr>, sql_faults := faults\<rparr>"

definition sample_observer :: "life_world observer_deps" where
  "sample_observer = observer_deps_of sample_script EXPECTED_CLUSTER EXPECTED_PROGRAM_ID (Some ''Bob'')"

definition closed_store :: "string \<rightharpoonup> string" where
  "closed_store =
     [successKey sample_key \<mapsto> nl_json sample_libs (success_json sample_record),
      closedVaultKey sample_key \<mapsto> nl_json sample_libs (closure_json sample_key sample_closure (Some 5))]"

lemmas run_defs = bindE_def tryE_def finallyE_def ret_apply throw_apply liftE_apply or_return_def quietly_def
  getSetting_def setSetting_def getDb_def sql_def Let_def ask_def log_event_def

lemmas observer_defs = observer_deps_of_def observer_deps.defs deps_defs sample_observer_def

lemma sample_hash_facts [simp]: "to_lower sample_hash = sample_hash" "length sample_hash = 64" "list_all hex_lower (take 32 sample_hash)"
  by (simp_all add: sample_hash_def to_lower_def ascii_lower_def hex_lower_def char_in_def Let_def list_all_iff char_of_def bit_0)

text \<open>
  C32: the closed-vault proof does not survive one failed read. With the proof and the record in the
  store the observer answers \<open>vault_closed_cleanup_pending\<close>; if the read of the record fails once
  in that check, it clears the proof and answers \<open>enabled\<close> for the closed vault, and so does every
  later check.
\<close>

theorem closed_proof_lost_by_failed_read:
  "fst (checkNow sample_libs sample_observer (stored closed_store (\<lambda>_. False))) = Inr Vault_closed_cleanup_pending
   \<and> fst (checkNow sample_libs sample_observer (stored closed_store (\<lambda>n. n = 1))) = Inr Enabled
   \<and> fst (checkNow sample_libs sample_observer (snd (checkNow sample_libs sample_observer (stored closed_store (\<lambda>n. n = 1))))) = Inr Enabled"
proof -
  have k: "\<lparr>kp_cluster = EXPECTED_CLUSTER, kp_programId = EXPECTED_PROGRAM_ID, kp_owner = ''Bob'', kp_vault = ''Vau1t''\<rparr> = sample_key"
    by (simp add: sample_key_def)
  have key: "kp_owner sample_key = ''Bob''" "kp_vault sample_key = ''Vau1t''" by (simp_all add: sample_key_def)
  note ev = checkNow_def closed_check_def run_defs stored_def blank_world_def observer_defs sample_script_def k
    closed_store_def empty_tables_def read_json_def live_record_def stale_tombstone_def closure_json_def
    success_json_def sample_record_def finish_check_def emit_def key
  note ev' = ev repair_check_def check_record_def current_hash_def reconcile_def isLegacyFingerprint_def
    isStrongFingerprint_def tokenFingerprint_def TOKEN_FP_HEX_def
  have one: "fst (checkNow sample_libs sample_observer (stored closed_store (\<lambda>_. False))) = Inr Vault_closed_cleanup_pending"
    by (simp add: ev)
  have two: "fst (checkNow sample_libs sample_observer (stored closed_store (\<lambda>n. n = 1))) = Inr Enabled"
    by (simp add: ev')
  have three: "fst (checkNow sample_libs sample_observer (snd (checkNow sample_libs sample_observer (stored closed_store (\<lambda>n. n = 1))))) = Inr Enabled"
    by (simp add: ev')
  show ?thesis by (intro conjI one two three)
qed

definition marked_store :: "string \<rightharpoonup> string" where
  "marked_store = [deregPendingKey sample_key \<mapsto> ''1700000000'']"

definition sample_input :: registration_input where
  "sample_input = \<lparr>ri_owner = ''Bob'', ri_stages = \<lparr>st_stage1 = 1, st_stage2 = 2, st_stage3 = 3\<rparr>\<rparr>"

definition sample_registration :: "life_world registration_deps" where
  "sample_registration = registration_deps_of sample_libs sample_script EXPECTED_CLUSTER EXPECTED_PROGRAM_ID"

text \<open>
  a registration the server has accepted does not clear the marker of an earlier deregistration
  whose tombstone could not be written. The next check takes the marker for the pending repair,
  overwrites the fresh success record with a tombstone and answers \<open>disabled\<close>, although the server
  holds the registration.
\<close>

theorem accepted_registration_shown_disabled:
  "(let (r, w) = attemptSignedRegistration sample_libs sample_registration sample_input (stored marked_store (\<lambda>_. False));
        (s, w') = checkNow sample_libs sample_observer w
    in (case r of Inr (Registered created n rc) \<Rightarrow> created | _ \<Rightarrow> False)
       \<and> settings w (successKey sample_key) \<noteq> settings w' (successKey sample_key)
       \<and> s = Inr Disabled)"
proof -
  have k: "\<lparr>kp_cluster = EXPECTED_CLUSTER, kp_programId = EXPECTED_PROGRAM_ID, kp_owner = ''Bob'', kp_vault = ''Vau1t''\<rparr> = sample_key"
    by (simp add: sample_key_def)
  have key: "kp_owner sample_key = ''Bob''" "kp_vault sample_key = ''Vau1t''"
    "kp_cluster sample_key = EXPECTED_CLUSTER" "kp_programId sample_key = EXPECTED_PROGRAM_ID" by (simp_all add: sample_key_def)
  have c: "nl_canon sample_libs = Some" "nl_bs58 sample_libs b = ''signature''"
     "nl_num sample_libs t = Some (int (str_nat t))" for b t by (simp_all add: sample_libs_def)
  note ev = run_defs stored_def blank_world_def sample_script_def k key c empty_tables_def read_json_def
  note ev' = ev closed_check_def live_record_def stale_tombstone_def finish_check_def emit_def repair_check_def
    check_record_def current_hash_def reconcile_def checkNow_def repair_json_def success_json_def tombstone_json_def
    repaired_at_def observer_deps_of_def observer_deps.defs sample_observer_def
  let ?f = "\<lparr>r2_cluster = EXPECTED_CLUSTER, r2_programId = EXPECTED_PROGRAM_ID, r2_owner = ''Bob'', r2_vault = ''Vau1t'',
     r2_tokenHash = sample_hash, r2_stage1 = 1, r2_stage2 = 2, r2_stage3 = 3, r2_revision = 1700000000000,
     r2_timestamp = 1700000000, r2_nonce = replicate 22 (CHR ''x'')\<rparr>"
  have "\<not> isl (registerMessageV2 Some ?f)"
    by (simp add: registerMessageV2_def joined_def register_lines_v2_def v2Cluster_def EXPECTED_CLUSTER_def
        v2Pubkey_def EXPECTED_PROGRAM_ID_def base58_def base58_char_def char_in_def v2TokenHash_def hex_lower_def sample_hash_def
        list_all_iff v2PosInt_def is_safe_integer_def max_safe_def v2Nonce_def)
  have marker_value: "str_nat ''1700000000'' = 1700000000" by (simp add: str_nat_def)
  from \<open>\<not> isl (registerMessageV2 Some ?f)\<close> obtain m where m: "registerMessageV2 Some ?f = Inr m" by (cases "registerMessageV2 Some ?f") auto
  show ?thesis
    by (simp add: ev' attemptSignedRegistration_def sample_registration_def registration_deps_of_def deps_defs
       reg_attempt_def sample_input_def isCanonicalPubkey_def isSafePosInt_def is_safe_integer_def max_safe_def
       reg_prepare_def nonce_ok_def list_all_iff base58_char_def char_in_def reg_revision_def marked_store_def
       computeNextRevision_def js_add_def reg_sign_def m reg_request_def posting_def reg_accepted_def key_of_def marker_value)
qed

end
