(* ===== verification/Escalation_Props.thy ===== *)
theory Escalation_Props
  imports Escalation Notify_Life_Props
begin

text \<open>
  The escalation as a transition system: mounts, ticks, taps, time, registration reads and resets in
  any order, over storage that may fail. The execution callback fires at most once between two
  resets of the store, and a silent owner's callback does fire.
\<close>

subsection \<open>Steps\<close>

inductive esc_step :: "heartbeat_config \<Rightarrow> escalation_config \<Rightarrow> esc_world \<Rightarrow> esc_world \<Rightarrow> bool"
  for hc ec where
  esc_mount: "esc_step hc ec w (snd (mount hc ec hasOwner n w))"
| esc_unmount: "esc_step hc ec w (snd (stop_service w))"
| esc_tick: "esc_step hc ec w (snd (evaluate hc ec w))"
| esc_tap: "esc_step hc ec w (snd (confirm_tap hc how w))"
| esc_chain: "esc_step hc ec w (snd (confirmHeartbeat hc ''on_chain_activity'' w))"
| esc_read: "esc_step hc ec w (snd (read_registration key w))"
| esc_time: "0 \<le> d \<Longrightarrow> esc_step hc ec w (w\<lparr>now_ms := now_ms w + d\<rparr>)"
| esc_reset: "esc_step hc ec w (snd (reset_escalation_store w))"
| esc_storage: "esc_step hc ec w (w\<lparr>sql_faults := f, db_open := b\<rparr>)"

inductive esc_reachable :: "heartbeat_config \<Rightarrow> escalation_config \<Rightarrow> esc_world \<Rightarrow> bool" for hc ec where
  esc_init: "esc_state w = initial_escalation \<Longrightarrow> notices w = [] \<Longrightarrow> esc_reachable hc ec w"
| esc_next: "esc_reachable hc ec w \<Longrightarrow> esc_step hc ec w w' \<Longrightarrow> esc_reachable hc ec w'"

text \<open>No two callbacks without a reset of the store between them.\<close>

fun once_per_reset :: "bool \<Rightarrow> notice list \<Rightarrow> bool" where
  "once_per_reset fired [] = True"
| "once_per_reset fired (n # ns) =
     (if n = Callback then \<not> fired \<and> once_per_reset True ns
      else once_per_reset (fired \<and> n \<noteq> Store_reset) ns)"

fun fired_after :: "bool \<Rightarrow> notice list \<Rightarrow> bool" where
  "fired_after fired [] = fired"
| "fired_after fired (n # ns) = fired_after (n = Callback \<or> fired \<and> n \<noteq> Store_reset) ns"

lemma once_append: "once_per_reset b (xs @ ys) \<longleftrightarrow> once_per_reset b xs \<and> once_per_reset (fired_after b xs) ys"
  by (induction xs arbitrary: b) auto

lemma fired_append: "fired_after b (xs @ ys) = fired_after (fired_after b xs) ys"
  by (induction xs arbitrary: b) auto

abbreviation started :: "'e esc_world_scheme \<Rightarrow> bool" where
  "started w \<equiv> es_executionStarted (esc_state w)"

text \<open>What a piece of code may add: at most one callback, which sets the flag that guards it.\<close>

definition guarded :: "'e esc_world_scheme \<Rightarrow> 'e esc_world_scheme \<Rightarrow> bool" where
  "guarded w w' \<longleftrightarrow> (\<exists>ns. notices w' = notices w @ ns
     \<and> (\<forall>b. (b \<longrightarrow> started w) \<longrightarrow> once_per_reset b ns \<and> (fired_after b ns \<longrightarrow> started w')))"

lemma guarded_same: "notices w' = notices w \<Longrightarrow> (started w \<longrightarrow> started w') \<Longrightarrow> guarded w w'"
  unfolding guarded_def by (rule exI [of _ "[]"]) auto

lemma guarded_refl: "guarded w w"
  by (rule guarded_same) auto

lemma guarded_trans: "guarded u v \<Longrightarrow> guarded v w \<Longrightarrow> guarded u w"
proof -
  assume "guarded u v" "guarded v w"
  then obtain xs ys where x: "notices v = notices u @ xs"
      "\<And>b. (b \<longrightarrow> started u) \<Longrightarrow> once_per_reset b xs \<and> (fired_after b xs \<longrightarrow> started v)"
    and y: "notices w = notices v @ ys"
      "\<And>b. (b \<longrightarrow> started v) \<Longrightarrow> once_per_reset b ys \<and> (fired_after b ys \<longrightarrow> started w)"
    unfolding guarded_def by blast
  have "once_per_reset b (xs @ ys) \<and> (fired_after b (xs @ ys) \<longrightarrow> started w)" if "b \<longrightarrow> started u" for b
    using x(2) [OF that] y(2) [of "fired_after b xs"] by (simp add: once_append fired_append)
  then show ?thesis unfolding guarded_def using x(1) y(1) by (intro exI [of _ "xs @ ys"]) simp
qed

definition guards :: "('e esc_world_scheme, 'a) io \<Rightarrow> bool" where
  "guards m \<longleftrightarrow> (\<forall>w. guarded w (snd (m w)))"

named_theorems guards_intro "code that fires at most once per reset"

lemma guards_ret [guards_intro]: "guards (ret a)"
  by (simp add: guards_def ret_apply guarded_refl)

lemma guards_throw [guards_intro]: "guards (throw e)"
  by (simp add: guards_def throw_apply guarded_refl)

lemma guards_gets [guards_intro]: "guards (gets f)"
  by (simp add: guards_def guarded_refl)

lemma guards_bindE [guards_intro]:
  assumes "guards m" "\<And>a. guards (f a)"
  shows "guards (bindE m f)"
proof -
  have "guarded w (snd (bindE m f w))" for w
  proof -
    obtain r v where r: "m w = (r, v)" by (cases "m w")
    have "guarded w v" using assms(1) r unfolding guards_def by (metis snd_conv)
    then show ?thesis
    proof (cases r)
      case (Inr a)
      have "guarded v (snd (f a v))" using assms(2) unfolding guards_def by blast
      then show ?thesis using guarded_trans [OF \<open>guarded w v\<close>] by (simp add: bindE_def r Inr)
    qed (simp add: bindE_def r)
  qed
  then show ?thesis by (simp add: guards_def)
qed

lemma guards_tryE [guards_intro]:
  assumes "guards m" "\<And>e. guards (h e)"
  shows "guards (tryE m h)"
proof -
  have "guarded w (snd (tryE m h w))" for w
  proof -
    obtain r v where r: "m w = (r, v)" by (cases "m w")
    have "guarded w v" using assms(1) r unfolding guards_def by (metis snd_conv)
    then show ?thesis
    proof (cases r)
      case (Inl e)
      have "guarded v (snd (h e v))" using assms(2) unfolding guards_def by blast
      then show ?thesis using guarded_trans [OF \<open>guarded w v\<close>] by (simp add: tryE_def r Inl)
    qed (simp add: tryE_def r)
  qed
  then show ?thesis by (simp add: guards_def)
qed

lemma guards_quietly [guards_intro]: "guards m \<Longrightarrow> guards (quietly m)"
  unfolding quietly_def by (intro guards_intro)

lemma guards_or_return [guards_intro]: "guards m \<Longrightarrow> (\<And>a. guards (k a)) \<Longrightarrow> guards (or_return m r k)"
  unfolding or_return_def by (intro guards_intro) (auto intro: guards_intro split: option.split)

lemma guards_if [guards_intro]: "guards m \<Longrightarrow> guards n \<Longrightarrow> guards (if b then m else n)"
  by simp

lemma guards_sql [guards_intro]: "guards (sql f :: ('e esc_world_scheme, 'a) io)"
  by (auto simp: guards_def sql_def Let_def split: prod.split intro!: guarded_same)

lemma guards_getDb [guards_intro]: "guards getDb"
  unfolding getDb_def by (intro guards_intro)

lemma guards_set_svc [guards_intro]: "guards (set_svc f)"
  by (auto simp: guards_def set_svc_def intro: guarded_same)

lemma guards_notify: "n \<noteq> Callback \<Longrightarrow> n \<noteq> Store_reset \<Longrightarrow> guards (notify n)"
  by (auto simp: guards_def notify_def guarded_def)

lemma guards_stores [guards_intro]:
  "guards (setStage st)" "guards recordNotification" "guards (setStatus s)" "guards (setExecutionStarted True)"
  "guards new_service" "guards (notify Cancel_timeline)" "guards (notify Cancel_all)" "guards (notify Execution_push)"
  by (auto simp: guards_def setStage_def recordNotification_def setStatus_def setExecutionStarted_def new_service_def
      intro!: guarded_same guards_notify [unfolded guards_def, rule_format])

lemma guards_reset [guards_intro]: "guards reset_escalation_store"
  by (auto simp: guards_def reset_escalation_store_def bindE_def notify_def guarded_def)

lemma guards_resetEscalation [guards_intro]: "guards resetEscalation"
  unfolding resetEscalation_def scheduleBackgroundTimeline_def by (intro guards_intro)

lemma guards_transitionTo [guards_intro]: "guards (transitionTo st :: ('e esc_world_scheme, unit) io)"
proof -
  have "guarded w (snd (transitionTo st w))" for w :: "'e esc_world_scheme"
  proof (cases "st = S4 \<and> \<not> started w")
    case True
    define ns where "ns = (if sv_fcmActive (svc w) then [] else [Execution_push]) @ (if sv_callback (svc w) then [Callback] else [])"
    have "notices (snd (transitionTo st w)) = notices w @ ns" "started (snd (transitionTo st w))"
      using True by (simp_all add: transitionTo_def bindE_def set_svc_def setStage_def stop_service_def setExecutionStarted_def
          notify_def recordNotification_def ret_apply ns_def)
    moreover have "once_per_reset b ns" if "\<not> b" for b using that by (simp add: ns_def)
    ultimately show ?thesis unfolding guarded_def by (intro exI [of _ ns]) (use True in auto)
  next
    case False
    then have "notices (snd (transitionTo st w)) = notices w" "started (snd (transitionTo st w)) = started w"
      by (auto simp: transitionTo_def bindE_def set_svc_def setStage_def stop_service_def ret_apply)
    then show ?thesis by (intro guarded_same) simp_all
  qed
  then show ?thesis by (simp add: guards_def)
qed

lemma guards_getStatus [guards_intro]: "guards (getStatus c :: ('e esc_world_scheme, heartbeat_status) io)"
  unfolding getStatus_def getLastHeartbeat_def getHeartbeatCount_def now_sec_def by (intro guards_intro)

lemma guards_evaluate [guards_intro]: "guards (evaluate hc ec)"
  unfolding evaluate_def Let_def by (intro guards_intro)

lemma guards_confirm [guards_intro]: "guards (confirmHeartbeat hc how)"
  unfolding confirmHeartbeat_def recordHeartbeat_def now_sec_def by (intro guards_intro)

lemma guards_mount [guards_intro]: "guards (mount hc ec b n)"
  unfolding mount_def start_service_def scheduleBackgroundTimeline_def setBeneficiaryCount_def setExecutionCallback_def
  by (intro guards_intro)

lemma guards_read [guards_intro]: "guards (read_registration key)"
  unfolding read_registration_def setFcmActive_def scheduleBackgroundTimeline_def getSetting_def by (intro guards_intro)

lemma guards_stop [guards_intro]: "guards stop_service"
  unfolding stop_service_def by (intro guards_intro)

lemma guards_tap [guards_intro]: "guards (confirm_tap hc how)"
  unfolding confirm_tap_def by (intro guards_intro)

lemma esc_step_guarded: "esc_step hc ec w w' \<Longrightarrow> guarded w w'"
  by (induction rule: esc_step.induct) (auto simp: guarded_same intro: guards_intro [unfolded guards_def, rule_format])

lemma esc_reachable_guarded: "esc_reachable hc ec w \<Longrightarrow> once_per_reset False (notices w) \<and> (fired_after False (notices w) \<longrightarrow> started w)"
proof (induction rule: esc_reachable.induct)
  case (esc_next w w')
  then obtain ns where n: "notices w' = notices w @ ns"
    "\<And>b. (b \<longrightarrow> started w) \<Longrightarrow> once_per_reset b ns \<and> (fired_after b ns \<longrightarrow> started w')"
    using esc_step_guarded unfolding guarded_def by blast
  show ?case using n(2) [of "fired_after False (notices w)"] esc_next.IH by (simp add: n(1) once_append fired_append)
qed (simp add: initial_escalation_def)

subsection \<open>At most once\<close>

text \<open>
  C4: however mounts, ticks, taps, time, registration reads, resets and failing storage are
  interleaved, the execution callback is called at most once between two resets of the store.
\<close>

theorem execution_fires_once_per_reset:
  assumes "esc_reachable hc ec w"
  shows "once_per_reset False (notices w)"
  using esc_reachable_guarded [OF assms] by simp

subsection \<open>A silent owner\<close>

definition newest_heartbeat :: "'e device_scheme \<Rightarrow> (int \<times> string) option" where
  "newest_heartbeat w = (case newest_first (t_heartbeats (db w)) of [] \<Rightarrow> None | r # _ \<Rightarrow> Some (hb_timestamp r, hb_how r))"

definition grace_end :: "heartbeat_config \<Rightarrow> escalation_config \<Rightarrow> int \<Rightarrow> int" where
  "grace_end hc ec ts = ts + hc_intervalSeconds hc + ec_stage1 ec + ec_stage2 ec + ec_stage3 ec"

definition config_ok :: "escalation_config \<Rightarrow> bool" where
  "config_ok ec \<longleftrightarrow> 0 < ec_stage1 ec \<and> 0 \<le> ec_stage2 ec \<and> 0 \<le> ec_stage3 ec"

text \<open>The service is mounted and has not fired; the newest heartbeat is from \<open>ts\<close>.\<close>

definition waiting :: "int \<Rightarrow> 'e esc_world_scheme \<Rightarrow> bool" where
  "waiting ts w \<longleftrightarrow> db_open w \<and> sql_faults w = (\<lambda>_. False) \<and> ts \<noteq> 0 \<and> (\<exists>how. newest_heartbeat w = Some (ts, how))
     \<and> sv_loop (svc w) \<and> sv_callback (svc w) \<and> sv_stage (svc w) \<noteq> S4 \<and> \<not> started w"

text \<open>The timer: \<open>n\<close> periods of \<open>p\<close> milliseconds, each with an evaluation while the timer is set.\<close>

fun timer_run :: "heartbeat_config \<Rightarrow> escalation_config \<Rightarrow> nat \<Rightarrow> nat \<Rightarrow> esc_world \<Rightarrow> esc_world" where
  "timer_run hc ec p 0 w = w"
| "timer_run hc ec p (Suc n) w =
     (let w' = w\<lparr>now_ms := now_ms w + int p\<rparr> in
      timer_run hc ec p n (if sv_loop (svc w) then snd (evaluate hc ec w') else w'))"

lemma calculateStage_S4:
  "config_ok ec \<Longrightarrow> calculateStage ec s = S4 \<longleftrightarrow> ec_stage1 ec + ec_stage2 ec + ec_stage3 ec \<le> s"
  by (auto simp: calculateStage_def config_ok_def Let_def)

lemma getStatus_waiting:
  "waiting ts w \<Longrightarrow> \<exists>how n c. getStatus hc w = (Inr (status_at (hc_intervalSeconds hc) (now_ms w div 1000) (Some (ts, how)) n),
      w\<lparr>sql_count := c\<rparr>)"
  by (auto simp: waiting_def getStatus_def getLastHeartbeat_def getHeartbeatCount_def now_sec_def getDb_def sql_def bindE_def
      ret_apply Let_def newest_heartbeat_def) blast

lemma set_count_waiting: "waiting ts w \<Longrightarrow> waiting ts (w\<lparr>sql_count := c\<rparr>)"
  by (auto simp: waiting_def newest_heartbeat_def)

text \<open>What is called from one state to the next, the execution callback not among it.\<close>

definition no_callback :: "'e esc_world_scheme \<Rightarrow> 'e esc_world_scheme \<Rightarrow> bool" where
  "no_callback w w' \<longleftrightarrow> (\<exists>ns. notices w' = notices w @ ns \<and> Callback \<notin> set ns)"

lemma no_callback_cases: "notices w' = notices w \<Longrightarrow> no_callback w w'" "notices w' = notices w @ ns \<Longrightarrow> Callback \<notin> set ns \<Longrightarrow> no_callback w w'"
  by (simp_all add: no_callback_def)

lemma no_callback_trans: "no_callback u v \<Longrightarrow> no_callback v w \<Longrightarrow> no_callback u w"
  unfolding no_callback_def by force

text \<open>Before the end of the grace period an evaluation leaves the service waiting.\<close>

lemma early_tick:
  assumes w: "waiting ts w" and c: "config_ok ec" and t: "now_ms w div 1000 < grace_end hc ec ts"
  shows "waiting ts (snd (evaluate hc ec w)) \<and> now_ms (snd (evaluate hc ec w)) = now_ms w
    \<and> no_callback w (snd (evaluate hc ec w))"
proof -
  obtain how n k where g: "getStatus hc w = (Inr (status_at (hc_intervalSeconds hc) (now_ms w div 1000) (Some (ts, how)) n),
      w\<lparr>sql_count := k\<rparr>)" using getStatus_waiting [OF w] by blast
  have "ts \<noteq> 0" using w by (simp add: waiting_def)
  have "calculateStage ec (now_ms w div 1000 - (ts + hc_intervalSeconds hc)) \<noteq> S4"
    using t calculateStage_S4 [OF c] by (simp add: grace_end_def)
  then show ?thesis using w \<open>ts \<noteq> 0\<close> unfolding evaluate_def quietly_def
    by (auto simp: bindE_def tryE_def g status_at_def Let_def ret_apply transitionTo_def set_svc_def setStage_def
       resetEscalation_def reset_escalation_store_def notify_def scheduleBackgroundTimeline_def waiting_def newest_heartbeat_def
       initial_escalation_def no_callback_def)
qed

text \<open>The first evaluation after it fires.\<close>

lemma late_tick:
  assumes w: "waiting ts w" and c: "config_ok ec" and t: "grace_end hc ec ts \<le> now_ms w div 1000"
  shows "let w' = snd (evaluate hc ec w) in es_stage (esc_state w') = S4 \<and> started w' \<and> \<not> sv_loop (svc w')
    \<and> notices w' = notices w @ (if sv_fcmActive (svc w) then [] else [Execution_push]) @ [Callback] \<and> now_ms w' = now_ms w"
proof -
  obtain how n k where g: "getStatus hc w = (Inr (status_at (hc_intervalSeconds hc) (now_ms w div 1000) (Some (ts, how)) n),
      w\<lparr>sql_count := k\<rparr>)" using getStatus_waiting [OF w] by blast
  have "ts \<noteq> 0" using w by (simp add: waiting_def)
  have o: "ts + hc_intervalSeconds hc < now_ms w div 1000" using t c by (simp add: grace_end_def config_ok_def)
  have s: "calculateStage ec (now_ms w div 1000 - (ts + hc_intervalSeconds hc)) = S4"
    using t calculateStage_S4 [OF c] by (simp add: grace_end_def)
  have n: "S4 \<noteq> sv_stage (svc w)" using w by (auto simp: waiting_def)
  show ?thesis using w n s \<open>ts \<noteq> 0\<close> o unfolding evaluate_def quietly_def
    by (simp add: bindE_def tryE_def g status_at_def Let_def ret_apply transitionTo_def set_svc_def setStage_def
       stop_service_def setExecutionStarted_def recordNotification_def notify_def waiting_def)
qed

lemma waiting_later: "waiting ts (w\<lparr>now_ms := t\<rparr>) = waiting ts w"
  by (simp add: waiting_def newest_heartbeat_def)

lemma timer_stopped:
  "\<not> sv_loop (svc w) \<Longrightarrow> let w' = timer_run hc ec p n w in
     esc_state w' = esc_state w \<and> svc w' = svc w \<and> notices w' = notices w \<and> now_ms w \<le> now_ms w'"
proof (induction n arbitrary: w)
  case (Suc n)
  show ?case using Suc.prems Suc.IH [of "w\<lparr>now_ms := now_ms w + int p\<rparr>"] by (simp add: Let_def)
qed simp

definition execution_fired :: "heartbeat_config \<Rightarrow> escalation_config \<Rightarrow> int \<Rightarrow> esc_world \<Rightarrow> bool" where
  "execution_fired hc ec ts w \<longleftrightarrow> es_stage (esc_state w) = S4 \<and> started w \<and> \<not> sv_loop (svc w)
     \<and> (\<exists>k. notices w = k @ [Callback]) \<and> grace_end hc ec ts \<le> now_ms w div 1000"

text \<open>As long as the timer runs within the grace period the service keeps waiting.\<close>

lemma timer_waits:
  assumes c: "config_ok ec"
  shows "waiting ts w \<Longrightarrow> now_ms w + int n * int p < 1000 * grace_end hc ec ts \<Longrightarrow>
    waiting ts (timer_run hc ec p n w) \<and> no_callback w (timer_run hc ec p n w)"
proof (induction n arbitrary: w)
  case (Suc n)
  let ?v = "w\<lparr>now_ms := now_ms w + int p\<rparr>"
  let ?u = "snd (evaluate hc ec ?v)"
  have v: "waiting ts ?v" "sv_loop (svc w)" using Suc.prems(1) by (simp_all add: waiting_later) (simp add: waiting_def)
  have "now_ms ?v + int n * int p = now_ms w + int (Suc n) * int p" "0 \<le> int n * int p" by (simp_all add: algebra_simps)
  then have "now_ms ?v < 1000 * grace_end hc ec ts" using Suc.prems(2) by linarith
  then have "now_ms ?v div 1000 < grace_end hc ec ts" by linarith
  note early = early_tick [OF v(1) c this]
  have "waiting ts (timer_run hc ec p n ?u) \<and> no_callback ?u (timer_run hc ec p n ?u)"
    by (rule Suc.IH) (use early Suc.prems(2) in \<open>auto simp: algebra_simps\<close>)
  moreover have "no_callback w ?u" using early by (simp add: no_callback_def)
  ultimately show ?case using v(2) no_callback_trans by (auto simp: Let_def)
qed (simp add: no_callback_def)

lemma timer_fires:
  assumes c: "config_ok ec"
  shows "waiting ts w \<Longrightarrow> 1000 * grace_end hc ec ts \<le> now_ms w + int (Suc n) * int p \<Longrightarrow>
    execution_fired hc ec ts (timer_run hc ec p (Suc n) w)"
proof (induction n arbitrary: w)
  case (Suc n)
  let ?v = "w\<lparr>now_ms := now_ms w + int p\<rparr>" and ?u = "snd (evaluate hc ec (w\<lparr>now_ms := now_ms w + int p\<rparr>))"
  have v: "waiting ts ?v" "sv_loop (svc w)" using Suc.prems(1) by (simp_all add: waiting_later) (simp add: waiting_def)
  show ?case
  proof (cases "now_ms ?v div 1000 < grace_end hc ec ts")
    case True
    note early = early_tick [OF v(1) c True]
    have "execution_fired hc ec ts (timer_run hc ec p (Suc n) ?u)"
      by (rule Suc.IH) (use early Suc.prems(2) in \<open>auto simp: algebra_simps\<close>)
    then show ?thesis using v(2) by (simp add: Let_def)
  next
    case False
    then have late: "execution_fired hc ec ts ?u"
      using late_tick [OF v(1) c] by (simp add: Let_def execution_fired_def)
    then have "execution_fired hc ec ts (timer_run hc ec p (Suc n) ?u)"
      using timer_stopped [of ?u hc ec p "Suc n"] by (fastforce simp: execution_fired_def Let_def)
    then show ?thesis using v(2) by (simp add: Let_def)
  qed
next
  case 0
  let ?v = "w\<lparr>now_ms := now_ms w + int p\<rparr>"
  have v: "waiting ts ?v" "sv_loop (svc w)" using 0(1) by (simp_all add: waiting_later) (simp add: waiting_def)
  then show ?case using late_tick [OF v(1) c, of hc] 0(2) by (simp add: Let_def execution_fired_def)
qed

text \<open>
  C14: while the owner stays silent and storage works, the timer executes the vault when the grace
  period is over, and not before. After any number of ticks that all lie before the end of the grace
  period the service is still waiting, at no stage 4, and the execution callback has not been called;
  and with the first tick that is not before it, the service has reached stage 4, marked the
  execution started, stopped its timer and called the callback.
\<close>

theorem silent_owner_executes:
  assumes "waiting ts w" "config_ok ec" "0 < n"
  shows "if now_ms w + int n * int p < 1000 * grace_end hc ec ts
    then waiting ts (timer_run hc ec p n w)
      \<and> (\<exists>ns. notices (timer_run hc ec p n w) = notices w @ ns \<and> Callback \<notin> set ns)
    else execution_fired hc ec ts (timer_run hc ec p n w)"
proof -
  obtain m where n: "n = Suc m" using assms(3) by (cases n) simp_all
  show ?thesis
    using timer_waits [OF assms(2,1), of n p hc] timer_fires [OF assms(2,1), of hc m p]
    unfolding n no_callback_def by (simp only: if_bool_eq_conj not_less) blast
qed

definition silent_world :: esc_world where
  "silent_world = \<lparr>db_open = True, db = empty_tables\<lparr>t_heartbeats :=
       [\<lparr>hb_id = 1, hb_timestamp = 100, hb_how = ''active_tap'', hb_tx = None, hb_created = 100\<rparr>]\<rparr>,
     sql_faults = (\<lambda>_. False), sql_count = 0, now_ms = 100000, esc_state = initial_escalation,
     svc = \<lparr>sv_loop = True, sv_stage = S0, sv_callback = True, sv_beneficiaries = 1, sv_fcmActive = False\<rparr>,
     hb_status = None, hb_config = None, hb_loading = False, notices = []\<rparr>"

definition day_config :: heartbeat_config where
  "day_config = \<lparr>hc_methods = [''active_tap''], hc_intervalSeconds = 60\<rparr>"

definition dev_escalation :: escalation_config where
  "dev_escalation = \<lparr>ec_stage1 = 30, ec_stage2 = 30, ec_stage3 = 30\<rparr>"

lemma silent_world_waiting: "waiting 100 silent_world" "config_ok dev_escalation"
  by (simp_all add: waiting_def silent_world_def newest_heartbeat_def newest_first_def initial_escalation_def config_ok_def dev_escalation_def)

text \<open>A heartbeat at 100 s, an interval of a minute and three stages of 30 s: the grace period ends at 250 s.\<close>

lemma silent_owner_executes_witness:
  "waiting 100 (timer_run day_config dev_escalation 10000 14 silent_world)
   \<and> Callback \<notin> set (notices (timer_run day_config dev_escalation 10000 14 silent_world))
   \<and> execution_fired day_config dev_escalation 100 (timer_run day_config dev_escalation 10000 15 silent_world)"
proof -
  have g: "grace_end day_config dev_escalation 100 = 250" "now_ms silent_world = 100000" "notices silent_world = []"
    by (simp_all add: grace_end_def day_config_def dev_escalation_def silent_world_def)
  show ?thesis
    using silent_owner_executes [OF silent_world_waiting, of 14 10000 day_config]
      silent_owner_executes [OF silent_world_waiting, of 15 10000 day_config]
    by (simp add: g del: timer_run.simps) 
qed

lemma execution_fires_once_per_reset_witness:
  "once_per_reset False (notices (snd (evaluate day_config dev_escalation (silent_world\<lparr>now_ms := 250000\<rparr>))))
   \<and> Callback \<in> set (notices (snd (evaluate day_config dev_escalation (silent_world\<lparr>now_ms := 250000\<rparr>))))"
proof
  show "once_per_reset False (notices (snd (evaluate day_config dev_escalation (silent_world\<lparr>now_ms := 250000\<rparr>))))"
    by (rule execution_fires_once_per_reset, rule esc_next [OF esc_init esc_tick]) (simp_all add: silent_world_def)
  have "waiting 100 (silent_world\<lparr>now_ms := 250000\<rparr>)" using silent_world_waiting by (simp add: waiting_later)
  from late_tick [OF this silent_world_waiting(2), of day_config]
  show "Callback \<in> set (notices (snd (evaluate day_config dev_escalation (silent_world\<lparr>now_ms := 250000\<rparr>))))"
    by (simp add: Let_def grace_end_def day_config_def dev_escalation_def)
qed

subsection \<open>A deregistered owner\<close>

definition removing_script :: script where
  "removing_script = sample_script\<lparr>s_reply := (\<lambda>_. Inr \<lparr>rp_status = 200, rp_code = None, rp_removed = Some 1\<rparr>)\<rparr>"

definition sample_deregistration :: "life_world deregister_deps" where
  "sample_deregistration = deregister_deps_of sample_libs removing_script EXPECTED_CLUSTER EXPECTED_PROGRAM_ID"

definition registered_store :: "string \<rightharpoonup> string" where
  "registered_store = [successKey sample_key \<mapsto> nl_json sample_libs (success_json sample_record)]"

definition overdue_world :: "(string \<rightharpoonup> string) \<Rightarrow> esc_world" where
  "overdue_world M = silent_world\<lparr>db := (db silent_world)\<lparr>t_settings := M\<rparr>, now_ms := 250000\<rparr>"

lemma overdue_world_waiting: "waiting 100 (overdue_world M)"
  using silent_world_waiting by (simp add: overdue_world_def waiting_def newest_heartbeat_def)

lemma overdue_push:
  "sv_fcmActive (svc (snd (read_registration key (overdue_world M)))) = fcm_from_record (M key)
   \<and> (Execution_push \<in> set (notices (snd (evaluate day_config dev_escalation (snd (read_registration key (overdue_world M))))))
      \<longleftrightarrow> \<not> fcm_from_record (M key))"
proof -
  let ?v = "snd (read_registration key (overdue_world M))"
  have v: "sv_fcmActive (svc ?v) = fcm_from_record (M key)" "waiting 100 ?v" "now_ms ?v = 250000"
    "Execution_push \<notin> set (notices ?v)"
    using overdue_world_waiting [of M]
    by (auto simp: read_registration_def setFcmActive_def scheduleBackgroundTimeline_def run_defs notify_def set_svc_def
        overdue_world_def silent_world_def waiting_def newest_heartbeat_def)
  have g: "grace_end day_config dev_escalation 100 \<le> now_ms ?v div 1000"
    by (simp add: grace_end_def day_config_def dev_escalation_def v(3))
  have "notices (snd (evaluate day_config dev_escalation ?v)) =
      notices ?v @ (if sv_fcmActive (svc ?v) then [] else [Execution_push]) @ [Callback]"
    using late_tick [OF v(2) silent_world_waiting(2) g] by (simp add: Let_def)
  then show ?thesis by (simp add: v)
qed

text \<open>
  the hook takes any stored record for an active registration. After an accepted
  deregistration, whose tombstone the lifecycle observer reads as no live registration, the service
  still believes that the server watches the vault and sends no push of its own at stage 4.
\<close>

theorem tombstone_read_as_active:
  "(let (r, w) = attemptSignedDeregistration sample_libs sample_deregistration
                   \<lparr>di_owner = ''Bob'', di_cleanup = False\<rparr> (stored registered_store (\<lambda>_. False));
        v = snd (read_registration (successKey sample_key) (overdue_world (settings w)))
    in r = Inr (Deregistered 1 False False)
       \<and> (\<exists>t j. settings w (successKey sample_key) = Some t \<and> nl_parse sample_libs t = Some j \<and> \<not> live_record sample_key j)
       \<and> sv_fcmActive (svc v)
       \<and> Execution_push \<notin> set (notices (snd (evaluate day_config dev_escalation v))))"
proof -
  have k: "\<lparr>kp_cluster = EXPECTED_CLUSTER, kp_programId = EXPECTED_PROGRAM_ID, kp_owner = ''Bob'', kp_vault = ''Vau1t''\<rparr> = sample_key"
    by (simp add: sample_key_def)
  have key: "kp_owner sample_key = ''Bob''" "kp_vault sample_key = ''Vau1t''"
    "kp_cluster sample_key = EXPECTED_CLUSTER" "kp_programId sample_key = EXPECTED_PROGRAM_ID" by (simp_all add: sample_key_def)
  have c: "nl_canon sample_libs = Some" "nl_bs58 sample_libs b = ''signature''" for b by (simp_all add: sample_libs_def)
  let ?f = "\<lparr>d2_cluster = EXPECTED_CLUSTER, d2_programId = EXPECTED_PROGRAM_ID, d2_owner = ''Bob'', d2_vault = ''Vau1t'',
     d2_timestamp = 1700000000, d2_nonce = replicate 22 (CHR ''x'')\<rparr>"
  have "\<not> isl (deregisterMessageV2 Some ?f)"
    by (simp add: deregisterMessageV2_def joined_def deregister_lines_v2_def v2Cluster_def EXPECTED_CLUSTER_def
        v2Pubkey_def EXPECTED_PROGRAM_ID_def base58_def base58_char_def char_in_def
        list_all_iff v2PosInt_def is_safe_integer_def max_safe_def v2Nonce_def)
  then obtain m where m: "deregisterMessageV2 Some ?f = Inr m" by (cases "deregisterMessageV2 Some ?f") auto
  let ?w = "attemptSignedDeregistration sample_libs sample_deregistration
                   \<lparr>di_owner = ''Bob'', di_cleanup = False\<rparr> (stored registered_store (\<lambda>_. False))"
  let ?t = "nl_json sample_libs (tombstone_json sample_key 1700000000)"
  have r: "fst ?w = Inr (Deregistered 1 False False) \<and> settings (snd ?w) (successKey sample_key) = Some ?t"
    by (simp add: run_defs stored_def blank_world_def sample_script_def k key c empty_tables_def read_json_def
       attemptSignedDeregistration_def sample_deregistration_def deregister_deps_of_def deps_defs deregister_deps.defs
       dereg_attempt_def isCanonicalPubkey_def isSafePosInt_def is_safe_integer_def max_safe_def
       dereg_checked_def nonce_ok_def list_all_iff base58_char_def char_in_def dereg_sign_def m removing_script_def
       posting_def dereg_response_def dereg_cleanup_def registered_store_def success_json_def sample_record_def)
  have "\<not> live_record sample_key (tombstone_json sample_key 1700000000)"
    by (simp add: live_record_def tombstone_json_def)
  then show ?thesis using r overdue_push [of "successKey sample_key" "settings (snd ?w)"]
    by (auto simp: case_prod_unfold Let_def fcm_from_record_def)
qed

end
