(* ===== verification/End_To_End.thy ===== *)
theory End_To_End
  imports Srv_Routes_Props Notify_Reg_Props
begin

text \<open>
  The app's registration attempt against the notification server: the request the app posts
  (\<open>SettingsScreen.tsx\<close>) is handled by the server's endpoint, the network may lose the request or
  the answer. When the app reports success, the server holds exactly what the app recorded.
\<close>

subsection \<open>An accepted answer has stored the command\<close>

definition stored_command :: "srv_db \<Rightarrow> reg_command \<Rightarrow> bool" where
  "stored_command d c \<longleftrightarrow> (\<exists>r. row_of d (rc_vault c) = Some r \<and> rr_owner r = rc_owner c \<and> rr_revision r = rc_revision c
     \<and> rr_deviceToken r = rc_deviceToken c \<and> rr_tokenHash r = Some (rc_tokenHash c) \<and> rr_stage1 r = of_int (rc_stage1 c)
     \<and> rr_stage2 r = of_int (rc_stage2 c) \<and> rr_stage3 r = of_int (rc_stage3 c) \<and> isSignedRow (Some r))"

lemma register_effect_stored:
  assumes "ar_code (fst (register_effect c d)) = R_created \<or> ar_code (fst (register_effect c d)) = R_updated"
  shows "stored_command (snd (register_effect c d)) c"
proof (cases "row_of d (rc_vault c)")
  case None
  then have "snd (register_effect c d) = add_row (rc_vault c) (signed_row c) (add_nonce (rc_owner c) (rc_nonce c) (rc_nonceUsedAt c) d)"
    using assms by (auto simp: register_effect_def Let_def refused_def)
  then show ?thesis using None by (simp add: stored_command_def add_row_def signed_row_def isSignedRow_def map_add_def)
next
  case (Some r)
  then have "snd (register_effect c d) = set_rows (\<lambda>v r. if v = rc_vault c then signed_update c r else r)
      (add_nonce (rc_owner c) (rc_nonce c) (rc_nonceUsedAt c) d)" "rr_owner r = rc_owner c"
    using assms by (auto simp: register_effect_def Let_def refused_def split: if_splits)
  then show ?thesis using Some by (simp add: stored_command_def row_set_rows signed_update_def isSignedRow_def)
qed

text \<open>Refusals never carry a code of success.\<close>

definition refusal :: "result_code \<Rightarrow> bool" where
  "refusal c \<longleftrightarrow> http_status c \<noteq> 200 \<and> http_status c \<noteq> 201"

lemma freshness_refusal: "freshnessError t now = Some c \<Longrightarrow> refusal c"
  by (cases t) (auto simp: freshnessError_def refusal_def split: if_splits)

lemma register_checks_refusal: "case register_checks L x b now of Inl c \<Rightarrow> refusal c | Inr c \<Rightarrow> True"
proof -
  have "refusal R_invalid_request" "refusal R_context_mismatch" "refusal R_invalid_signature" by (simp_all add: refusal_def)
  then show ?thesis unfolding register_checks_def Let_def
    by (simp split: option.split sum.split add: freshness_refusal)
qed

definition server_holds :: "srv_db \<Rightarrow> json \<Rightarrow> bool" where
  "server_holds d j \<longleftrightarrow> (\<exists>h now. stored_command d (register_command j h now))"

lemma register_checks_command: "register_checks L x b now = Inr c \<Longrightarrow> \<exists>h. c = register_command b h now"
  by (auto simp: register_checks_def Let_def split: if_splits option.splits sum.splits)

definition accepts :: "http_reply \<Rightarrow> bool" where
  "accepts rep \<longleftrightarrow> hp_status rep = 200 \<or> hp_status rep = 201"

lemma accepts_fail_reply: "accepts (fail_reply c) \<longleftrightarrow> \<not> refusal c"
  by (simp add: fail_reply_def reply_json_def accepts_def refusal_def)

lemma accepts_rate_reply: "\<not> accepts (rate_reply n)"
  by (simp add: rate_reply_def accepts_def)

lemma wp_any: "(\<And>a w'. Q a w') \<Longrightarrow> (\<And>e w'. E e w') \<Longrightarrow> wp m Q E w"
  by (simp add: wp_def split: prod.split sum.split)

lemma authorize_outcomes:
  "wp (authorizeRegisterV2 L x verify b)
     (\<lambda>r w'. case r of Inl c \<Rightarrow> refusal c | Inr c \<Rightarrow> \<exists>h now. c = register_command (or_object b) h now) (\<lambda>_ _. False) w"
proof (cases "register_checks L x (or_object b) (sw_now w)")
  case (Inl c)
  then show ?thesis using register_checks_refusal [of L x "or_object b" "sw_now w"] by (simp add: authorizeRegisterV2_def wp_simps)
next
  case (Inr c)
  have owned: "classifyOwnership v = Some e \<Longrightarrow> refusal e" for v e by (cases v) (auto simp: refusal_def split: if_splits)
  have dep: "refusal R_dependency_unavailable" by (simp add: refusal_def)
  show ?thesis unfolding authorizeRegisterV2_def wp_bindE wp_gets Inr sum.case wp_or_return
    by (rule wp_any) (use register_checks_command [OF Inr] dep in \<open>auto simp: wp_ret owned split: option.split\<close>)
qed

lemma signed_register_stored:
  "wp (signed_register H b) (\<lambda>rep w'. accepts rep \<longrightarrow> server_holds (sw_db w') (or_object b)) (\<lambda>_ _. True) w"
  unfolding signed_register_def wp_bindE [of "authorizeRegisterV2 _ _ _ _"]
proof (rule wp_mono [OF authorize_outcomes])
  fix r u
  assume r: "case r of Inl c \<Rightarrow> refusal c | Inr c \<Rightarrow> \<exists>h now. c = register_command (or_object b) h now"
  show "wp (case r of Inl c \<Rightarrow> ret (fail_reply c) | Inr cmd \<Rightarrow> bindE (applySignedRegistration cmd) (\<lambda>t. ret (register_answer cmd t)))
     (\<lambda>rep w'. accepts rep \<longrightarrow> server_holds (sw_db w') (or_object b)) (\<lambda>_ _. True) u"
  proof (cases r)
    case (Inl c)
    then show ?thesis using r by (simp add: wp_ret accepts_fail_reply)
  next
    case (Inr c)
    then obtain h now where c: "c = register_command (or_object b) h now" using r by auto
    have "R \<in> {R_created, R_updated} \<or> \<not> accepts (register_answer c t)"
      if "ar_code t = R" "R \<in> {R_created, R_updated, R_nonce_reused, R_owner_conflict, R_stale_revision, R_database_error}" for t R
      using that by (auto simp: register_answer_def accepts_fail_reply refusal_def)
    moreover have "ar_code (fst (register_effect c d)) \<in> {R_created, R_updated, R_nonce_reused, R_owner_conflict, R_stale_revision, R_database_error}" for d
      by (auto simp: register_effect_def Let_def refused_def done_with_def split: option.split)
    ultimately have codes: "accepts (register_answer c (fst (register_effect c d))) \<Longrightarrow>
        ar_code (fst (register_effect c d)) = R_created \<or> ar_code (fst (register_effect c d)) = R_updated" for d by blast
    have db: "\<not> accepts (register_answer c (refused R_database_error))"
      by (simp add: register_answer_def refused_def accepts_fail_reply refusal_def)
    have held: "accepts (register_answer c (fst (register_effect c d))) \<Longrightarrow> server_holds (snd (register_effect c d)) (or_object b)" for d
      using register_effect_stored [OF codes] c unfolding server_holds_def by blast
    show ?thesis unfolding Inr sum.case wp_simps
      by (rule wp_atomic [OF store_ops_atomic(1)]) (use held db in simp_all)
  qed
qed auto

lemma register_stored:
  assumes "isSignedAttempt (or_object (hq_body req))"
  shows "wp (handle_register H req) (\<lambda>rep w'. accepts rep \<longrightarrow> server_holds (sw_db w') (or_object (hq_body req))) (\<lambda>_ _. True) w"
proof -
  have s: "wp (signed_register H (or_object (hq_body req)))
     (\<lambda>rep w'. accepts rep \<longrightarrow> server_holds (sw_db w') (or_object (hq_body req))) (\<lambda>_ _. True) u" for u
    using signed_register_stored [of H "or_object (hq_body req)" u] by simp
  have facet: "wp (bindE (facets_checked H (or_object (hq_body req)) True) (\<lambda>fr. case fr of Allowed \<Rightarrow> K | Limited n \<Rightarrow> ret (rate_reply n)))
     (\<lambda>rep w'. accepts rep \<longrightarrow> server_holds (sw_db w') (or_object (hq_body req))) (\<lambda>_ _. True) u"
    if "\<And>u. wp K (\<lambda>rep w'. accepts rep \<longrightarrow> server_holds (sw_db w') (or_object (hq_body req))) (\<lambda>_ _. True) u" for K u
    unfolding wp_bindE
    by (rule gate_okD [OF gate_ok_facets]) (auto simp: wp_ret accepts_rate_reply intro: that split: limit_result.split)
  show ?thesis unfolding handle_register_def gated_def Let_def wp_bindE [of "checkIp _"] using assms
    by (intro gate_okD [OF gate_ok_checks(1)])
      (auto simp: wp_ret accepts_rate_reply accepts_fail_reply refusal_def intro!: facet s split: limit_result.split)
qed

subsection \<open>The app's dependencies with the server behind them\<close>

record e2e_world = notify_world +
  e2e_server :: gate_world

text \<open>
  \<open>postRegister\<close>: the answer's status, and its \<open>code\<close> when the body has one. \<open>net n\<close> says what
  the network does at step \<open>n\<close>: deliver, lose the request, lose the answer.
\<close>

datatype delivery = Delivered | Request_lost | Answer_lost

definition reply_of :: "http_reply \<Rightarrow> reply" where
  "reply_of rep = \<lparr>rp_status = int (hp_status rep),
     rp_code = (case js_field ''code'' (hp_body rep) of JStr c \<Rightarrow> Some c | _ \<Rightarrow> None),
     rp_removed = (case js_field ''removed'' (hp_body rep) of JNum n \<Rightarrow> Some n | _ \<Rightarrow> None)\<rparr>"

definition exchange :: "unit handler_deps \<Rightarrow> string \<Rightarrow> (nat \<Rightarrow> delivery) \<Rightarrow> json \<Rightarrow> (e2e_world, reply) io" where
  "exchange H ip net j w =
     (let how = net (ticks w); w1 = w\<lparr>ticks := Suc (ticks w)\<rparr> in
      if how = Request_lost then (Inl (External 9), w1)
      else case handle_register H \<lparr>hq_ip = ip, hq_secret = None, hq_body = j\<rparr> (e2e_server w) of
             (Inl e, s) \<Rightarrow> (Inl (External 9), w1\<lparr>e2e_server := s\<rparr>)
           | (Inr rep, s) \<Rightarrow> (if how = Answer_lost then Inl (External 9) else Inr (reply_of rep), w1\<lparr>e2e_server := s\<rparr>))"

definition post_to_server :: "unit handler_deps \<Rightarrow> string \<Rightarrow> (nat \<Rightarrow> delivery) \<Rightarrow> json \<Rightarrow> (e2e_world, reply) io" where
  "post_to_server H ip net j =
     seqE (log_event (Posted j)) (bindE (exchange H ip net j) (\<lambda>p. seqE (log_event (Replied p)) (ret p)))"

definition e2e_deps ::
  "notify_libs \<Rightarrow> script \<Rightarrow> string \<Rightarrow> string \<Rightarrow> unit handler_deps \<Rightarrow> string \<Rightarrow> (nat \<Rightarrow> delivery) \<Rightarrow> e2e_world registration_deps" where
  "e2e_deps L S cluster programId H ip net = signing_deps.extend (signing_deps_of S cluster programId)
     (registration_deps.fields (ask (s_token S)) (registerMessageV2 (nl_canon L)) (\<lambda>t. ask (s_hash S))
        (post_to_server H ip net) (ask (\<lambda>n. Inr (s_ms S n))))"

lemma exchange_keeps: "exchange H ip net j w = (r, w') \<Longrightarrow> events w' = events w \<and> settings w' = settings w"
  by (auto simp: exchange_def Let_def split: if_splits prod.splits sum.splits)

lemma post_ok: "post_to_server H ip net j w = (Inr p, w') \<Longrightarrow> events w' = events w @ [Posted j, Replied p] \<and> settings w' = settings w"
  by (auto simp: post_to_server_def bindE_def log_event_def ret_apply split: sum.splits prod.splits dest!: exchange_keeps)

lemma post_fail: "post_to_server H ip net j w = (Inl e, w') \<Longrightarrow> events w' = events w @ [Posted j] \<and> settings w' = settings w"
  by (auto simp: post_to_server_def bindE_def log_event_def ret_apply split: sum.splits prod.splits dest!: exchange_keeps)

interpretation e2e: registration_env "e2e_deps L S cluster programId H ip net" settings events
  for L S cluster programId H ip net
proof (rule registration_env.intro)
  let ?D = "e2e_deps L S cluster programId H ip net"
  show "signing_env ?D settings events" unfolding e2e_deps_def by (rule signing_env_of)
  show "registration_env_axioms ?D settings events"
  proof
    fix w w' :: e2e_world and e and j and tk
    show "d_getDeviceToken ?D w = (r, w') \<Longrightarrow> events w' = events w \<and> settings w' = settings w" for r
      by (auto simp: e2e_deps_def deps_defs dest!: ask_keeps)
    show "d_sha256Hex ?D tk w = (r, w') \<Longrightarrow> events w' = events w \<and> settings w' = settings w" for r
      by (auto simp: e2e_deps_def deps_defs dest!: ask_keeps)
    show "d_nowMs ?D w = (r, w') \<Longrightarrow> events w' = events w \<and> settings w' = settings w" for r
      by (auto simp: e2e_deps_def deps_defs dest!: ask_keeps)
    show "d_postRegister ?D j w = (Inr p, w') \<Longrightarrow> events w' = events w @ [Posted j, Replied p] \<and> settings w' = settings w" for p
      by (simp add: e2e_deps_def deps_defs post_ok)
    show "d_postRegister ?D j w = (Inl e, w') \<Longrightarrow> events w' = events w @ [Posted j] \<and> settings w' = settings w"
      by (simp add: e2e_deps_def deps_defs post_fail)
  qed
qed

subsection \<open>The last exchange\<close>

text \<open>The last request of a log with its answer, if it has one.\<close>

fun exchange_step :: "(json \<times> reply option) option \<Rightarrow> event \<Rightarrow> (json \<times> reply option) option" where
  "exchange_step x (Posted j) = Some (j, None)"
| "exchange_step x (Replied p) = map_option (\<lambda>(j, q). (j, Some p)) x"
| "exchange_step x _ = x"

definition last_exchange :: "event list \<Rightarrow> (json \<times> reply option) option" where
  "last_exchange evs = foldl exchange_step None evs"

text \<open>Since \<open>w0\<close>: the last request that was answered with 200 or 201 is what the server holds.\<close>

definition tracked :: "e2e_world \<Rightarrow> e2e_world \<Rightarrow> bool" where
  "tracked w0 w \<longleftrightarrow> (\<exists>evs. events w = events w0 @ evs \<and> (\<forall>j p. last_exchange evs = Some (j, Some p) \<and> rp_status p \<in> {200, 201}
     \<and> isSignedAttempt (or_object j) \<longrightarrow> server_holds (sw_db (e2e_server w)) (or_object j)))"

definition tracks :: "(e2e_world, 'a) io \<Rightarrow> bool" where
  "tracks m \<longleftrightarrow> (\<forall>w0 w. tracked w0 w \<longrightarrow> tracked w0 (snd (m w)))"

named_theorems tracks_intro "code that keeps the last exchange tracked"

lemma tracked_same:
  "tracked w0 w \<Longrightarrow> events w' = events w @ evs \<Longrightarrow> \<forall>x. foldl exchange_step x evs = x \<Longrightarrow> e2e_server w' = e2e_server w \<Longrightarrow> tracked w0 w'"
  by (auto simp: tracked_def last_exchange_def)

lemma tracks_quiet: "(\<And>w r w'. m w = (r, w') \<Longrightarrow> events w' = events w \<and> e2e_server w' = e2e_server w) \<Longrightarrow> tracks m"
  unfolding tracks_def using tracked_same [where evs = "[]"] by (metis append_Nil2 foldl_Nil prod.collapse)

lemma tracks_bindE [tracks_intro]:
  assumes "tracks m" "\<And>a. tracks (f a)"
  shows "tracks (bindE m f)"
  using assms unfolding tracks_def bindE_def by (auto split: prod.split sum.split) (metis snd_conv)+

lemma tracks_tryE [tracks_intro]:
  assumes "tracks m" "\<And>e. tracks (h e)"
  shows "tracks (tryE m h)"
  using assms unfolding tracks_def tryE_def by (auto split: prod.split sum.split) (metis snd_conv)+

lemma tracks_ret [tracks_intro]: "tracks (ret a)"
  by (simp add: tracks_def ret_apply)

lemma tracks_gets [tracks_intro]: "tracks (gets f)"
  by (simp add: tracks_def)

lemma tracks_liftE [tracks_intro]: "tracks (liftE r)"
  by (simp add: tracks_def liftE_apply)

lemma tracks_if [tracks_intro]: "tracks m \<Longrightarrow> tracks n \<Longrightarrow> tracks (if b then m else n)"
  by simp

lemma tracks_option [tracks_intro]: "tracks m \<Longrightarrow> (\<And>a. tracks (k a)) \<Longrightarrow> tracks (case x of None \<Rightarrow> m | Some a \<Rightarrow> k a)"
  by (cases x) simp_all

lemma tracks_or_return [tracks_intro]: "tracks m \<Longrightarrow> (\<And>a. tracks (k a)) \<Longrightarrow> tracks (or_return m r k)"
  unfolding or_return_def by (intro tracks_intro)

lemma tracks_quietly [tracks_intro]: "tracks m \<Longrightarrow> tracks (quietly m)"
  unfolding quietly_def by (intro tracks_intro)

lemma tracks_finallyE [tracks_intro]:
  assumes "tracks m" "\<And>w. events (f w) = events w \<and> e2e_server (f w) = e2e_server w"
  shows "tracks (finallyE m f)"
proof -
  have "tracked w0 (f w)" if "tracked w0 w" for w0 w
    by (rule tracked_same [OF that, of _ "[]"]) (simp_all add: assms(2))
  then show ?thesis using assms(1) unfolding tracks_def finallyE_def by (auto split: prod.split) (metis snd_conv)
qed

lemma tracks_flag [tracks_intro]: "tracks (modify (\<lambda>w. w\<lparr>inFlight := b\<rparr>))"
  by (rule tracks_quiet) auto

lemma tracks_ask [tracks_intro]: "tracks (ask f)"
  by (rule tracks_quiet) (auto simp: ask_def)

lemma tracks_sql [tracks_intro]: "tracks (sql f)"
  by (rule tracks_quiet) (auto simp: sql_def Let_def split: if_splits prod.splits)

lemma tracks_throw [tracks_intro]: "tracks (throw e)"
  by (simp add: tracks_def throw_apply)

lemma tracks_log [tracks_intro]: "tracks (log_event (Wrote k v))" "tracks (log_event (Signed b))"
  unfolding tracks_def log_event_def by (auto elim!: tracked_same)

lemma server_answer:
  assumes "handle_register H req s = (Inr rep, s')" "accepts rep" "isSignedAttempt (or_object (hq_body req))"
  shows "server_holds (sw_db s') (or_object (hq_body req))"
  using register_stored [OF assms(3), of H s] assms(1,2) by (simp add: wp_def)

lemma tracks_post [tracks_intro]: "tracks (post_to_server H ip net j)"
  unfolding tracks_def
proof (intro allI impI)
  fix w0 w assume "tracked w0 w"
  then obtain evs where e: "events w = events w0 @ evs" unfolding tracked_def by blast
  obtain r w' where r: "post_to_server H ip net j w = (r, w')" by (cases "post_to_server H ip net j w")
  show "tracked w0 (snd (post_to_server H ip net j w))"
  proof (cases r)
    case (Inl x)
    then have "events w' = events w0 @ (evs @ [Posted j])" using post_fail [of H ip net j w x w'] r e by simp
    then show ?thesis unfolding r snd_conv tracked_def by (intro exI [of _ "evs @ [Posted j]"]) (simp add: last_exchange_def)
  next
    case (Inr p)
    then have ev: "events w' = events w0 @ (evs @ [Posted j, Replied p])" using post_ok [of H ip net j w p w'] r e by simp
    have "server_holds (sw_db (e2e_server w')) (or_object j)" if "rp_status p \<in> {200, 201}" "isSignedAttempt (or_object j)"
      using r Inr that server_answer [of H "\<lparr>hq_ip = ip, hq_secret = None, hq_body = j\<rparr>"]
      by (auto simp: post_to_server_def bindE_def log_event_def exchange_def ret_apply Let_def reply_of_def accepts_def
          split: if_splits prod.splits sum.splits)
    then show ?thesis unfolding r snd_conv tracked_def using ev
      by (intro exI [of _ "evs @ [Posted j, Replied p]"]) (auto simp: last_exchange_def)
  qed
qed

lemma tracks_store [tracks_intro]: "tracks (getSetting k)" "tracks (setSetting k v)"
  unfolding getSetting_def setSetting_def getDb_def by (intro tracks_intro)+

lemma e2e_fields:
  "d_getSetting (e2e_deps L S c p H ip net) = getSetting"
  "d_setSetting (e2e_deps L S c p H ip net) = (\<lambda>k v. seqE (setSetting k v) (log_event (Wrote k v)))"
  "d_signMessage (e2e_deps L S c p H ip net) = (\<lambda>b. seqE (log_event (Signed b)) (ask (s_sign S)))"
  "d_generateNonce (e2e_deps L S c p H ip net) = ask (s_nonce S)"
  "d_nowSec (e2e_deps L S c p H ip net) = ask (\<lambda>n. Inr (s_ms S n div 1000))"
  "d_getDeviceToken (e2e_deps L S c p H ip net) = ask (s_token S)"
  "d_buildRegister (e2e_deps L S c p H ip net) = registerMessageV2 (nl_canon L)"
  "d_sha256Hex (e2e_deps L S c p H ip net) = (\<lambda>t. ask (s_hash S))"
  "d_postRegister (e2e_deps L S c p H ip net) = post_to_server H ip net"
  "d_nowMs (e2e_deps L S c p H ip net) = ask (\<lambda>n. Inr (s_ms S n))"
  "d_cluster (e2e_deps L S c p H ip net) = c" "d_programId (e2e_deps L S c p H ip net) = p"
  "d_deriveVault (e2e_deps L S c p H ip net) = s_derive S"
  by (simp_all add: e2e_deps_def deps_defs)

lemma tracks_attempt: "tracks (attemptSignedRegistration L (e2e_deps L S c p H ip net) inp)"
  unfolding attemptSignedRegistration_def reg_attempt_def reg_prepare_def reg_revision_def reg_sign_def reg_request_def reg_accepted_def
    e2e_fields Let_def
  by (intro tracks_intro) auto

subsection \<open>Reported registered, stored by the server\<close>

lemma register_body_signed: "or_object (register_body tok f sg) = register_body tok f sg" "isSignedAttempt (register_body tok f sg)"
  by (simp_all add: or_object_def register_body_def isSignedAttempt_def V2_ENVELOPE_FIELDS_def)

text \<open>What the record of a success says about the server's row.\<close>

definition stored_as_recorded :: "srv_db \<Rightarrow> success_record \<Rightarrow> bool" where
  "stored_as_recorded d rc \<longleftrightarrow> (\<exists>r. row_of d (sc_vault rc) = Some r \<and> rr_owner r = sc_owner rc \<and> rr_revision r = sc_revision rc
     \<and> rr_stage1 r = of_int (sc_stage1 rc) \<and> rr_stage2 r = of_int (sc_stage2 rc) \<and> rr_stage3 r = of_int (sc_stage3 rc)
     \<and> isSignedRow (Some r))"

lemma held_body: "server_holds d (register_body tok f sg) \<Longrightarrow> stored_as_recorded d (success_of f now)"
  by (auto simp: server_holds_def stored_command_def stored_as_recorded_def register_command_def register_body_def success_of_def)

lemma attempt_tracked:
  assumes "attemptSignedRegistration L (e2e_deps L S c p H ip net) inp w = (r, w')"
  shows "\<exists>evs. events w' = events w @ evs \<and> (\<forall>j q. last_exchange evs = Some (j, Some q) \<and> rp_status q \<in> {200, 201}
     \<and> isSignedAttempt (or_object j) \<longrightarrow> server_holds (sw_db (e2e_server w')) (or_object j))"
proof -
  have "tracked w w" by (auto simp: tracked_def last_exchange_def)
  then have "tracked w w'" using tracks_attempt [of L S c p H ip net inp] assms unfolding tracks_def by (metis snd_conv)
  then show ?thesis by (simp add: tracked_def)
qed

lemma attempt_run:
  assumes "attemptSignedRegistration L (e2e_deps L S c p H ip net) inp w = (Inr (Registered cr n rc), w')"
  shows "\<exists>evs B k. events w' = events w @ evs \<and> reg_run L B k (settings w) (Registered cr n rc) evs"
proof -
  let ?D = "e2e_deps L S c p H ip net"
  have free: "\<not> inFlight w" using assms by (auto simp: attemptSignedRegistration_def bindE_def ret_apply)
  let ?w = "w\<lparr>inFlight := True\<rparr>"
  have "wp (reg_attempt L ?D inp)
     (\<lambda>r w'. \<exists>evs B k. events w' = events w @ evs \<and> reg_run L B k (settings w) r evs) (\<lambda>_ _. True) ?w"
    by (rule wp_mono [OF e2e.reg_attempt_run [OF e2e.did_refl]]) (auto simp: e2e.did_def)
  then have "wp (attemptSignedRegistration L ?D inp)
     (\<lambda>r w'. \<exists>evs B k. events w' = events w @ evs \<and> reg_run L B k (settings w) r evs) (\<lambda>_ _. True) w"
    unfolding attemptSignedRegistration_def wp_simps using free by (auto intro: wp_mono)
  then show ?thesis by (simp add: assms wp_def)
qed

lemma registered_stored:
  assumes "attemptSignedRegistration L (e2e_deps L S c p H ip net) inp w = (Inr (Registered cr n rc), w')"
  shows "sc_revision rc = n \<and> stored_as_recorded (sw_db (e2e_server w')) rc"
proof -
  obtain evs B k where e: "events w' = events w @ evs" and run: "reg_run L B k (settings w) (Registered cr n rc) evs"
    using attempt_run [OF assms] by blast
  obtain es where es: "events w' = events w @ es" "\<And>j q. last_exchange es = Some (j, Some q) \<Longrightarrow> rp_status q \<in> {200, 201} \<Longrightarrow>
      isSignedAttempt (or_object j) \<Longrightarrow> server_holds (sw_db (e2e_server w')) (or_object j)"
    using attempt_tracked [OF assms] by blast
  have ev: "es = evs" using e es(1) by simp
  from run show ?thesis
  proof (cases rule: reg_run.cases)
    case (reg_done ms f m sg q ws now tok)
    have step: "foldl exchange_step x ws = x" for x using reg_done(9) by auto
    have "last_exchange es = Some (register_body tok f (nl_bs58 L sg), Some q)"
      unfolding ev last_exchange_def reg_done(3) by (simp add: step)
    moreover have "rp_status q \<in> {200, 201}" using reg_done(8) by simp
    ultimately have "server_holds (sw_db (e2e_server w')) (register_body tok f (nl_bs58 L sg))"
      using es(2) register_body_signed by metis
    then show ?thesis using held_body reg_done(1,2) by (simp add: success_of_def)
  qed
qed

text \<open>
  C3: whatever the network loses and whatever the server's database, limiter or RPC node do, an
  attempt that the app reports as registered has left in the server's database, when it returns, a
  signed row of that vault with the owner, the revision and the stages of the record the app keeps.
\<close>

theorem registered_means_stored:
  "wp (attemptSignedRegistration L (e2e_deps L S cluster programId H ip net) inp)
     (\<lambda>r w'. case r of
        Registered created n rc \<Rightarrow> sc_revision rc = n \<and> stored_as_recorded (sw_db (e2e_server w')) rc
      | RegFail _ _ _ \<Rightarrow> True)
     (\<lambda>_ _. True) w"
  unfolding wp_def using registered_stored [of L S cluster programId H ip net inp w]
  by (auto split: prod.split sum.split registration_result.split)

end
