(* ===== verification/Srv_Poll_Runs.thy ===== *)
theory Srv_Poll_Runs
  imports Srv_Poll_Props Program_Layout
begin

text \<open>
  The poller over time: the spacing of the pushes of successive turns, two ways a registration is
  lost without the owner's knowledge, and the agreement of the server's stages with the application's
  stages and with the program's deadline.
\<close>

subsection \<open>Spacing of pushes\<close>

text \<open>Others may change a vault's row but not its notification state, nor make a row appear.\<close>

definition keeps_notify :: "string \<Rightarrow> srv_db \<Rightarrow> srv_db \<Rightarrow> bool" where
  "keeps_notify v d d' \<longleftrightarrow>
     (\<forall>r'. row_of d' v = Some r' \<longrightarrow>
       (\<exists>r. row_of d v = Some r \<and> rr_lastStage r' = rr_lastStage r \<and> rr_lastNotifiedAt r' = rr_lastNotifiedAt r))"

text \<open>
  The recorded pushes and resets of a vault's turns at the given times, each with the row the turn
  took; stage 0 is a reset.
\<close>

fun poll_log :: "('e poll_world_scheme) poll_deps \<Rightarrow> string \<Rightarrow> int list \<Rightarrow> 'e poll_world_scheme \<Rightarrow> (reg_row \<times> nat \<times> int) list" where
  "poll_log D v [] w = []"
| "poll_log D v (t # ts) w =
     (case row_of (sw_db w) v of
        None \<Rightarrow> []
      | Some r \<Rightarrow>
          (case processRegistration D (v, r) t w of (res, w') \<Rightarrow>
             (case res of Inr (A_sent n) \<Rightarrow> [(r, n, t)] | Inr A_normal \<Rightarrow> [(r, 0, t)] | _ \<Rightarrow> []) @ poll_log D v ts w'))"

text \<open>
  Every entry is the stage of a heartbeat read at its time. A push raises the stage, or repeats stage
  1, 2 or 3 after at least its interval; stage 0, a heartbeat that is not overdue, starts over.
\<close>

fun throttled :: "('e poll_world_scheme) poll_deps \<Rightarrow> string \<Rightarrow> nat \<times> int \<Rightarrow> (reg_row \<times> nat \<times> int) list \<Rightarrow> bool" where
  "throttled D v (l, t0) [] = True"
| "throttled D v (l, t0) ((r, n, t) # ps) =
     (stage_read D v r t (\<lambda>si. si_stage si = n)
      \<and> (n = 0 \<or> l < n \<and> n \<le> 4 \<or> n = l \<and> 1 \<le> n \<and> n \<le> 3 \<and> STAGE_RECUR_INTERVAL n \<le> t - t0)
      \<and> throttled D v (n, t) ps)"

lemma keeps_notify_drop: "keeps_notify v d d' \<Longrightarrow> row_of d v = None \<Longrightarrow> row_of d' v = None"
  unfolding keeps_notify_def by (cases "row_of d' v") auto

lemma row_notified: "row_of (notified v s t d) v = map_option (\<lambda>r. r\<lparr>rr_lastStage := s, rr_lastNotifiedAt := t\<rparr>) (row_of d v)"
  by (simp add: notified_def row_set_rows)

lemma row_dropped: "row_of (drop_rows (\<lambda>u _. u = v) d) v = None"
proof -
  have "map_of (filter (\<lambda>(u, r). u \<noteq> v) rows) v = None" for rows :: "(string \<times> reg_row) list"
    by (induction rows) auto
  then show ?thesis by (simp add: drop_rows_def)
qed

definition notify_state :: "string \<Rightarrow> nat \<Rightarrow> int \<Rightarrow> srv_db \<Rightarrow> bool" where
  "notify_state v l t0 d \<longleftrightarrow> l \<le> 4 \<and> (\<forall>r. row_of d v = Some r \<longrightarrow> rr_lastStage r = int l \<and> (0 < l \<longrightarrow> rr_lastNotifiedAt r = t0))"

lemma notify_state_kept: "keeps_notify v d d' \<Longrightarrow> notify_state v l t0 d \<Longrightarrow> notify_state v l t0 d'"
  unfolding keeps_notify_def notify_state_def by fastforce

lemma stage_bound: "si_stage (computeStage hb iv ss now) \<le> 4"
  by (simp add: computeStage_def Let_def split: prod.split)

lemma stage_read_bound:
  assumes "stage_read D v r now P"
  shows "\<exists>si. P si \<and> si_stage si \<le> 4"
  using assms unfolding stage_read_def answered_def
proof (elim exE conjE)
  fix st
  assume "case (vs_config st, vs_lastHeartbeat st) of
        (Some c, Some hb) \<Rightarrow> sv_active c \<and> \<not> sv_executed c \<and> P (computeStage hb (sv_interval c) (rr_stage1 r, rr_stage2 r, rr_stage3 r) now)
      | _ \<Rightarrow> False"
  then show ?thesis using stage_bound by (cases "vs_config st"; cases "vs_lastHeartbeat st") auto
qed

lemma push_due_throttle:
  assumes "push_due n r t" "rr_lastStage r = int l" "l \<le> 4" "n \<le> 4" "0 < l \<longrightarrow> rr_lastNotifiedAt r = t0"
  shows "l < n \<or> n = l \<and> 1 \<le> n \<and> n \<le> 3 \<and> STAGE_RECUR_INTERVAL n \<le> t - t0"
  using assms by (auto simp: push_due_def split: if_splits)

lemma turn_notify_state:
  assumes "turn_ok (keeps_notify v) D v r t d0 a w'" "row_of d0 v = Some r" "notify_state v l t0 d0"
  shows "case a of A_sent n \<Rightarrow> throttled D v (l, t0) [(r, n, t)] \<and> notify_state v n t (sw_db w')
    | A_normal \<Rightarrow> throttled D v (l, t0) [(r, 0, t)] \<and> notify_state v 0 t (sw_db w') | _ \<Rightarrow> notify_state v l t0 (sw_db w')"
proof -
  obtain d where d: "keeps_notify v d0 d" "sw_db w' = turn_db v r t a d" and j: "justified D v r t a w'"
    using assms(1) unfolding turn_ok_def by blast
  have st: "notify_state v l t0 d" using notify_state_kept [OF d(1) assms(3)] .
  have l: "rr_lastStage r = int l" "l \<le> 4" "0 < l \<longrightarrow> rr_lastNotifiedAt r = t0"
    using assms(2,3) by (auto simp: notify_state_def)
  show ?thesis
  proof (cases a)
    case (A_sent n)
    have n: "n \<le> 4" "push_due n r t" "stage_read D v r t (\<lambda>si. si_stage si = n)"
      using j by (auto simp: A_sent justified_def dest: stage_read_bound intro: stage_read_mono)
    show ?thesis using push_due_throttle [OF n(2) l(1,2) n(1) l(3)] n(1,3) d(2)
      by (auto simp: A_sent turn_db_def notify_state_def row_notified)
  next
    case A_normal
    then show ?thesis using d(2) st l(1) j by (auto simp: turn_db_def notify_state_def row_notified justified_def)
  qed (use d(2) st in \<open>auto simp: turn_db_def notify_state_def row_dropped\<close>)
qed

lemma log_throttled:
  assumes "poll_relies (keeps_notify v) D"
  shows "notify_state v l t0 (sw_db w) \<Longrightarrow> throttled D v (l, t0) (poll_log D v ts w)"
proof (induction ts arbitrary: w l t0)
  case (Cons t ts)
  show ?case
  proof (cases "row_of (sw_db w) v")
    case (Some r)
    obtain res w' where run: "processRegistration D (v, r) t w = (res, w')" by fastforce
    have w': "wp (processRegistration D (v, r) t) (turn_ok (keeps_notify v) D v r t (sw_db w)) (\<lambda>_ w'. keeps_notify v (sw_db w) (sw_db w')) w"
      by (rule turn_wp [OF assms])
    show ?thesis
    proof (cases res)
      case (Inl e)
      then have "keeps_notify v (sw_db w) (sw_db w')" using w' run by (simp add: wp_def)
      then show ?thesis using Cons.IH [OF notify_state_kept [OF _ Cons.prems]] Some run Inl by simp
    next
      case (Inr a)
      then have "turn_ok (keeps_notify v) D v r t (sw_db w) a w'" using w' run by (simp add: wp_def)
      from turn_notify_state [OF this Some Cons.prems] show ?thesis
        using Cons.IH Some run Inr by (cases a) auto
    qed
  qed simp
qed simp

text \<open>
  C12: the owner is not flooded. Over any sequence of turns of one vault, as long as everyone else
  leaves its notification state alone, every recorded push and every reset is the stage computed from
  a heartbeat the turn read. The pushes only climb the stages 1 to 4: each stage is entered
  once per escalation, stage 4 is sent once, and stages 1, 2 and 3 repeat only after 8, 4 and 1
  hours; only a heartbeat read that is not overdue (stage 0) starts over.
\<close>

theorem pushes_throttled:
  assumes "poll_relies (keeps_notify v) D" "row_of (sw_db w) v = Some r" "rr_lastStage r = int l" "l \<le> 4"
  shows "throttled D v (l, rr_lastNotifiedAt r) (poll_log D v ts w)"
  using log_throttled [OF assms(1)] assms(2-4) by (simp add: notify_state_def)

lemma keeps_notify_trans: "keeps_notify v d d' \<Longrightarrow> keeps_notify v d' d'' \<Longrightarrow> keeps_notify v d d''"
  unfolding keeps_notify_def by fastforce

lemma keeps_notify_refl: "keeps_notify v d d"
  by (simp add: keeps_notify_def)

lemma poll_answers_keeps: "poll_relies (keeps_notify v) (poll_answers st p)"
  by (simp add: poll_relies_def poll_answers_def relies_def ret_apply keeps_notify_refl reflp_def)
    (blast intro: transpI keeps_notify_trans)

lemma pushes_throttled_witness:
  "throttled (poll_answers (chain_state False 1000) push_sent :: poll_world poll_deps) ''Vau1t'' (0, 0)
     (poll_log (poll_answers (chain_state False 1000) push_sent) ''Vau1t'' [1050, 1105, 1106, 1115, 1150, 1200, 9000]
     (poll_start (poll_db (poll_row 0 0))))
   \<and> poll_log (poll_answers (chain_state False 1000) push_sent) ''Vau1t'' [1050, 1105, 1106, 1115, 1150, 1200, 9000]
      (poll_start (poll_db (poll_row 0 0)))
      = [(poll_row 0 0, 0, 1050), (poll_row 0 0, 1, 1105), (poll_row 1 1105, 2, 1115), (poll_row 2 1115, 3, 1150),
         (poll_row 3 1150, 4, 1200)]"
proof
  have init: "row_of (sw_db (poll_start (poll_db (poll_row 0 0)))) ''Vau1t'' = Some (poll_row 0 0)"
    "rr_lastStage (poll_row 0 0) = int 0" "rr_lastNotifiedAt (poll_row 0 0) = 0"
    by (simp_all add: poll_start_def poll_db_def poll_row_def)
  show "throttled (poll_answers (chain_state False 1000) push_sent :: poll_world poll_deps) ''Vau1t'' (0, 0)
     (poll_log (poll_answers (chain_state False 1000) push_sent) ''Vau1t'' [1050, 1105, 1106, 1115, 1150, 1200, 9000]
     (poll_start (poll_db (poll_row 0 0))))"
    using pushes_throttled [OF poll_answers_keeps init(1,2) le0] unfolding init(3) .
qed (simp add: poll_run poll_samples js_add_small)

subsection \<open>Registrations lost\<close>

text \<open>While the push to the old token is pending the owner renews the registration with a new token.\<close>

definition renewal :: reg_command where
  "renewal = \<lparr>rc_owner = ''Bob'', rc_vault = ''Vau1t'', rc_deviceToken = ''new-token'', rc_tokenHash = ''hash'', rc_stage1 = 10,
     rc_stage2 = 20, rc_stage3 = 30, rc_revision = 5, rc_signedAt = 1100, rc_nonce = ''nonce'', rc_nonceUsedAt = 1100\<rparr>"

definition dead_token :: push_result where
  "dead_token = \<lparr>pr_ok = False, pr_suppressed = False, pr_unregistered = True, pr_error = JStr ''UNREGISTERED''\<rparr>"

definition renewed_meanwhile :: "unit poll_world_scheme poll_deps" where
  "renewed_meanwhile = (poll_answers (chain_state False 1000) dead_token)
     \<lparr>pd_sendPush := (\<lambda>_ _ _. bindE (applySignedRegistration renewal) (\<lambda>a. if ar_ok a then ret dead_token else throw (Error ''refused'')))\<rparr>"

lemma prepare_4: "prepare 4 = seqE nop_stmt (seqE nop_stmt (seqE nop_stmt (seqE nop_stmt (ret ()))))"
  by (simp add: eval_nat_numeral)

text \<open>
  a registration the server has just accepted is lost: when the owner renews it with a new device
  token (answered \<open>updated\<close>) while a push to the old token is pending, and the provider then answers
  that the old token is dead, the turn removes the row by its vault alone, the renewal with it.
\<close>

theorem dead_old_token_drops_renewal:
  "(case processRegistration renewed_meanwhile (''Vau1t'', poll_row 0 0) 1105 (poll_start (poll_db (poll_row 0 0))) of
      (r, w') \<Rightarrow> r = Inr A_deregistered_unregistered \<and> row_of (sw_db w') ''Vau1t'' = None
        \<and> used_nonces (sw_db w') = [((''Bob'', ''nonce''), 1100)])"
  by (simp add: poll_run poll_samples renewed_meanwhile_def dead_token_def renewal_def applySignedRegistration_def prepare_4 transaction_def
      nop_stmt_def signed_registration_txn_def claim_nonce_def select_row_def signed_update_def done_with_def js_add_small)

text \<open>
  an execution can end in silence: when the push of stage 4 fails in the turn whose crank executes
  the vault, the next turn finds the vault executed and the stage not recorded, and removes the
  registration without any push, however the push transport would have answered.
\<close>

theorem failed_last_push_ends_in_silence:
  "(case processRegistration (poll_answers (chain_state False 1000) (push_failed ''fcm_send_failed'')) (''Vau1t'', poll_row 3 1150) 1200
      (poll_start (poll_db (poll_row 3 1150))) of
      (r, w) \<Rightarrow> r = Inr (A_send_failed (Stage_msg 4) (JStr ''fcm_send_failed'')) \<and> sw_db w = poll_db (poll_row 3 1150)
        \<and> (case processRegistration ((poll_answers (chain_state True 1000) p)\<lparr>pd_sendPush := transport\<rparr>)
              (''Vau1t'', poll_row 3 1150) 1260 w of
            (r', w') \<Rightarrow> r' = Inr A_deregistered_inactive \<and> registrations (sw_db w') = []))"
  by (simp add: poll_run poll_samples js_add_small)

subsection \<open>The server's stages, the application's and the program's deadline\<close>

lemma computeStage_app:
  "si_stage (computeStage hb iv (of_int (ec_stage1 c), of_int (ec_stage2 c), of_int (ec_stage3 c)) now)
   = stage_nat (calculateStage c (js_add now (- js_add hb iv)))"
  unfolding computeStage_def calculateStage_def Let_def
  by (simp add: max_def flip: of_int_add)

lemma signed64_small: "0 \<le> x \<Longrightarrow> x < 2 ^ 53 \<Longrightarrow> rnd53 (signed64 (nat (x mod 2 ^ 64))) = x"
  by (simp add: signed64_def)

lemma signed64_nat: "0 \<le> x \<Longrightarrow> x < 2 ^ 53 \<Longrightarrow> rnd53 (signed64 (nat x)) = x"
  by (simp add: signed64_def)

lemma encoded_heartbeat_read:
  assumes "length (rh_vault h) = 32" "0 \<le> rh_last h" "rh_last h < 2 ^ 53" "anchor_hash L"
  shows "readHeartbeatFromAccount L pid (Some (program_account pid HeartbeatRecordK (enc_heartbeat h) pad)) (sl_encode L (rh_vault h))
    = Some (rh_last h)"
proof -
  let ?h = "DISCRIMINATORS HeartbeatRecordK @ enc_heartbeat h @ pad"
  have "sub ?h 8 32 = rh_vault h" "le_nat (sub ?h 40 8) = nat (rh_last h mod 2 ^ 64)"
    using assms(1) by (simp_all add: enc_heartbeat_def sub_fields del: DISCRIMINATORS.simps)
  then have "parseHeartbeat L ?h = Inr \<lparr>sh_vault = sl_encode L (rh_vault h), sh_lastHeartbeat = rh_last h\<rparr>"
    using assms(1) signed64_small [OF assms(2,3)] by (simp add: parseHeartbeat_def readI64_def enc_heartbeat_def del: DISCRIMINATORS.simps)
  moreover have "hasHeartbeatDiscriminator L ?h"
    using assms(4) by (simp add: hasHeartbeatDiscriminator_def anchor_hash_def del: DISCRIMINATORS.simps)
  ultimately show ?thesis by (simp add: readHeartbeatFromAccount_def program_account_def del: DISCRIMINATORS.simps)
qed

lemma deadline_stage:
  assumes "0 < a" "0 \<le> b" "0 \<le> c" "0 \<le> hb + iv" "hb + iv < 2 ^ 53" "0 \<le> t" "t < 2 ^ 53"
  shows "si_stage (computeStage hb iv (of_int a, of_int b, of_int c) t)
      = stage_nat (calculateStage \<lparr>ec_stage1 = a, ec_stage2 = b, ec_stage3 = c\<rparr> (t - (hb + iv)))"
    "si_stage (computeStage hb iv (of_int a, of_int b, of_int c) t) = 4 \<longleftrightarrow> hb + iv + a + b + c \<le> t"
proof -
  have js: "js_add t (- js_add hb iv) = t - (hb + iv)" using assms by (simp add: js_add_exact)
  show st: "si_stage (computeStage hb iv (of_int a, of_int b, of_int c) t)
      = stage_nat (calculateStage \<lparr>ec_stage1 = a, ec_stage2 = b, ec_stage3 = c\<rparr> (t - (hb + iv)))"
    using computeStage_app [of hb iv "\<lparr>ec_stage1 = a, ec_stage2 = b, ec_stage3 = c\<rparr>" t] unfolding js by simp
  show "si_stage (computeStage hb iv (of_int a, of_int b, of_int c) t) = 4 \<longleftrightarrow> hb + iv + a + b + c \<le> t"
    unfolding st using assms(1-3) by (auto simp: calculateStage_def Let_def)
qed

text \<open>
  C13: the server, the application and the program agree on the schedule. From the bytes the program
  stores, the server's own parsers read the times the program holds; the stage it computes from them
  is the stage the application computes; and with stages that add up to the grace period, it is
  stage 4, the execution, exactly from the deadline on that the application shows.
\<close>

theorem schedules_agree:
  assumes "anchor_hash L" "vault_ok v" "length (rh_vault h) = 32"
    and "0 \<le> rv_interval v" "0 \<le> rh_last h" "rh_last h + rv_interval v + rv_grace v < 2 ^ 53"
    and "0 < a" "0 \<le> b" "0 \<le> c" "a + b + c = rv_grace v" "0 \<le> t" "t < 2 ^ 53"
  shows "case (srv_config_of L pid (Some (program_account pid VaultConfigK (enc_vault v) pad)),
        readHeartbeatFromAccount L pid (Some (program_account pid HeartbeatRecordK (enc_heartbeat h) pad')) (sl_encode L (rh_vault h)),
        parseDeadline (Some (program_account pid VaultConfigK (enc_vault v) pad))
          (Some (program_account pid HeartbeatRecordK (enc_heartbeat h) pad')) pid) of
      (Some cfg, Some hb, Some dl) \<Rightarrow>
        sv_grace cfg = a + b + c \<and> dl = hb + sv_interval cfg + sv_grace cfg
        \<and> si_stage (computeStage hb (sv_interval cfg) (of_int a, of_int b, of_int c) t)
          = stage_nat (calculateStage \<lparr>ec_stage1 = a, ec_stage2 = b, ec_stage3 = c\<rparr> (t - (hb + sv_interval cfg)))
        \<and> (si_stage (computeStage hb (sv_interval cfg) (of_int a, of_int b, of_int c) t) = 4 \<longleftrightarrow> dl \<le> t)
    | _ \<Rightarrow> False"
proof -
  have cfg: "srv_config_of L pid (Some (program_account pid VaultConfigK (enc_vault v) pad)) = Some (srv_view L (vault_view v))"
    by (rule srv_config_parsed [OF assms(1) parse_encoded_vault [OF assms(2)]])
  have hb: "readHeartbeatFromAccount L pid (Some (program_account pid HeartbeatRecordK (enc_heartbeat h) pad')) (sl_encode L (rh_vault h))
      = Some (rh_last h)"
    by (rule encoded_heartbeat_read) (use assms in simp_all)
  have dl: "parseDeadline (Some (program_account pid VaultConfigK (enc_vault v) pad))
      (Some (program_account pid HeartbeatRecordK (enc_heartbeat h) pad')) pid = Some (rh_last h + rv_interval v + rv_grace v)"
    by (rule parse_encoded_deadline) (use assms in simp_all)
  have times: "sv_interval (srv_view L (vault_view v)) = rv_interval v" "sv_grace (srv_view L (vault_view v)) = rv_grace v"
    using assms by (simp_all add: srv_view_def vault_view_def signed64_nat)
  have bound: "0 \<le> rh_last h + rv_interval v" "rh_last h + rv_interval v < 2 ^ 53" using assms(4-10) by linarith+
  note stage = deadline_stage [OF assms(7-9) bound assms(11,12)]
  have sum: "rh_last h + rv_interval v + a + b + c = rh_last h + rv_interval v + rv_grace v" using assms(10) by simp
  show ?thesis unfolding cfg hb dl option.case prod.case times stage(2) sum by (simp add: stage(1) assms(10))
qed

definition anchor_libs :: srv_libs where
  "anchor_libs = sample_srv\<lparr>sl_sha256 := (\<lambda>bs. if bs = utf8 ''account:VaultConfig'' then DISCRIMINATORS VaultConfigK @ [0]
     else DISCRIMINATORS HeartbeatRecordK @ [0])\<rparr>"

lemma anchor_libs_hash: "anchor_hash anchor_libs"
  by (simp add: anchor_hash_def anchor_libs_def VAULT_CONFIG_DISCRIMINATOR_def HEARTBEAT_DISCRIMINATOR_def utf8_def utf8_char_def)

theorem schedules_agree_witness:
  "case (srv_config_of anchor_libs ex_program (Some (program_account ex_program VaultConfigK (enc_vault ex_vault) [])),
        readHeartbeatFromAccount anchor_libs ex_program (Some (program_account ex_program HeartbeatRecordK (enc_heartbeat ex_heartbeat) []))
          (sl_encode anchor_libs (rh_vault ex_heartbeat)),
        parseDeadline (Some (program_account ex_program VaultConfigK (enc_vault ex_vault) []))
          (Some (program_account ex_program HeartbeatRecordK (enc_heartbeat ex_heartbeat) [])) ex_program) of
      (Some cfg, Some hb, Some dl) \<Rightarrow>
        sv_grace cfg = 1000 + 1000 + 1600 \<and> dl = hb + sv_interval cfg + sv_grace cfg
        \<and> si_stage (computeStage hb (sv_interval cfg) (of_int 1000, of_int 1000, of_int 1600) 1700090500)
          = stage_nat (calculateStage \<lparr>ec_stage1 = 1000, ec_stage2 = 1000, ec_stage3 = 1600\<rparr> (1700090500 - (hb + sv_interval cfg)))
        \<and> (si_stage (computeStage hb (sv_interval cfg) (of_int 1000, of_int 1000, of_int 1600) 1700090500) = 4 \<longleftrightarrow> dl \<le> 1700090500)
    | _ \<Rightarrow> False"
  by (rule schedules_agree [OF anchor_libs_hash ex_vault_ok]) (simp_all add: ex_heartbeat_def ex_vault_def)

end
