(* ===== verification/Srv_Ready_Props.thy ===== *)
theory Srv_Ready_Props
  imports Srv_Push
begin

text \<open>
  Properties of readiness and of the push transport: the readiness state stays coherent under any
  order of updates and an executor problem never switches escalation off; a push leaves only while
  the caller allows it, and what an outcome says about the provider's answer.
\<close>

subsection \<open>Updates of the readiness state\<close>

datatype ready_op = Op_listen | Op_net net_readiness int | Op_fcm bool string | Op_program program_check
  | Op_executor exec_check | Op_poll bool int "(nat \<times> nat) option" | Op_backoff

fun rd_op :: "ready_op \<Rightarrow> readiness \<Rightarrow> readiness" where
  "rd_op Op_listen d = d\<lparr>rd_api := True\<rparr>"
| "rd_op (Op_net n t) d = applyNet n t d"
| "rd_op (Op_fcm b r) d = rd_setFcm b r d"
| "rd_op (Op_program p) d = setProgram p d"
| "rd_op (Op_executor x) d = setExecutor x d"
| "rd_op (Op_poll ok t c) d = recordPollResult ok t c d"
| "rd_op Op_backoff d = d\<lparr>rd_backoffAttempt := rd_backoffAttempt d + 1\<rparr>"

definition is_executor_op :: "ready_op \<Rightarrow> bool" where
  "is_executor_op p = (case p of Op_executor x \<Rightarrow> True | _ \<Rightarrow> False)"

text \<open>Transactions need a verified network and a proven program, reads a verified network; three failed cycles demote.\<close>

definition coherent :: "readiness \<Rightarrow> bool" where
  "coherent d \<longleftrightarrow> (rd_netVerified d \<longleftrightarrow> nt_state (rd_net d) = NET_VERIFIED)
     \<and> (rd_executor d \<longrightarrow> rd_netVerified d \<and> rd_program d) \<and> (rd_poller d \<longrightarrow> rd_netVerified d \<and> rd_failures d < 3)"

lemma coherent_op: "coherent d \<Longrightarrow> coherent (rd_op p d)"
  by (cases p) (auto simp: coherent_def applyNet_def rd_setFcm_def setProgram_def setExecutor_def recordPollResult_def Let_def
      split: program_check.splits option.splits)

lemma coherent_fold: "coherent d \<Longrightarrow> coherent (fold rd_op ps d)"
  by (induction ps arbitrary: d) (simp_all add: coherent_op)

lemma coherent_new: "coherent (new_readiness a b)"
  by (simp add: coherent_def new_readiness_def net_unknown_def)

text \<open>Everything but the executor's own fields.\<close>

definition but_executor :: "readiness \<Rightarrow> readiness" where
  "but_executor d = d\<lparr>rd_executor := False, rd_executorReason := [], rd_balance := None\<rparr>"

lemma executor_op_local: "but_executor (rd_op (Op_executor x) d) = but_executor d"
  by (simp add: but_executor_def setExecutor_def)

lemma but_executor_op: "but_executor (rd_op p (but_executor d)) = but_executor (rd_op p d)"
proof (cases p)
  case (Op_poll ok t c)
  then show ?thesis by (cases c) (auto simp: but_executor_def recordPollResult_def Let_def)
next
  case (Op_program r)
  then show ?thesis by (cases r) (simp_all add: but_executor_def setProgram_def)
qed (simp_all add: but_executor_def applyNet_def rd_setFcm_def setExecutor_def Let_def)

lemma but_executor_cong: "but_executor d = but_executor e \<Longrightarrow> but_executor (rd_op p d) = but_executor (rd_op p e)"
  by (metis but_executor_op)

lemma executor_irrelevant:
  "but_executor d = but_executor e \<Longrightarrow>
   but_executor (fold rd_op (filter (\<lambda>p. \<not> is_executor_op p) ps) d) = but_executor (fold rd_op ps e)"
proof (induction ps arbitrary: d e)
  case (Cons p ps)
  have "but_executor d = but_executor (rd_op p e)" if "is_executor_op p"
    using that Cons.prems executor_op_local by (cases p) (simp_all add: is_executor_op_def)
  then show ?case using Cons but_executor_cong [OF Cons.prems, of p] by simp
qed simp

lemma escalation_but_executor: "escalationReady (but_executor d) = escalationReady d"
  by (simp add: escalationReady_def but_executor_def)

text \<open>
  whatever order the monitor, the poller, the push transport and the listener update the readiness
  in, from start on: transactions are allowed only on a verified network with a proven program, the
  poller counts as ready only on a verified network and never after three failed cycles in a row,
  and the executor's checks never change whether escalation is ready.
\<close>

theorem readiness_coherent:
  "coherent (fold rd_op ps (new_readiness fcmWaived executorWaived))
   \<and> escalationReady (fold rd_op ps (new_readiness fcmWaived executorWaived))
     = escalationReady (fold rd_op (filter (\<lambda>p. \<not> is_executor_op p) ps) (new_readiness fcmWaived executorWaived))"
  using coherent_fold [OF coherent_new] executor_irrelevant [OF refl, of ps "new_readiness fcmWaived executorWaived"]
  by (metis escalation_but_executor)

subsection \<open>Pushes\<close>

text \<open>The request was made, with the caller's permission at that moment, and was answered by \<open>r\<close>.\<close>

definition requested ::
  "('e fcm_world_scheme) fcm_deps \<Rightarrow> string \<Rightarrow> stage_msg \<Rightarrow> ('e fcm_world_scheme \<Rightarrow> bool) \<Rightarrow> fcm_response \<Rightarrow> bool" where
  "requested F tok msg canSend r \<longleftrightarrow> (\<exists>p t v v'. p \<noteq> [] \<and> t \<noteq> [] \<and> canSend v \<and> fd_fetch F p t tok msg v = (Inr r, v'))"

definition accepted_by :: "fcm_response \<Rightarrow> bool" where
  "accepted_by r \<longleftrightarrow> 200 \<le> fr_status r \<and> fr_status r \<le> 299"

text \<open>A dead token: a complete answer that is not 2xx, with status 404 or the code \<open>UNREGISTERED\<close>.\<close>

definition dead_token_answer :: "fcm_response \<Rightarrow> bool" where
  "dead_token_answer r \<longleftrightarrow> \<not> accepted_by r \<and> (case fr_body r of Body_aborted e \<Rightarrow> False
     | Body_malformed e \<Rightarrow> fr_status r = 404 | Body j \<Rightarrow> fr_status r = 404 \<or> fcm_error_code j = JStr ''UNREGISTERED'')"

definition meaning ::
  "('e fcm_world_scheme) fcm_deps \<Rightarrow> string \<Rightarrow> stage_msg \<Rightarrow> ('e fcm_world_scheme \<Rightarrow> bool) \<Rightarrow> push_result \<Rightarrow> bool" where
  "meaning F tok msg canSend r \<longleftrightarrow>
     (pr_ok r \<longrightarrow> \<not> pr_suppressed r \<and> \<not> pr_unregistered r \<and> (\<exists>a. requested F tok msg canSend a \<and> accepted_by a))
     \<and> (pr_unregistered r \<longrightarrow> \<not> pr_suppressed r \<and> (\<exists>a. requested F tok msg canSend a \<and> dead_token_answer a))
     \<and> (pr_suppressed r \<longrightarrow> (\<exists>v. \<not> canSend v))"

lemma meaning_failed: "meaning F tok msg canSend (push_failed e)" "\<not> canSend v \<Longrightarrow> meaning F tok msg canSend push_suppressed"
  by (auto simp: meaning_def push_failed_def push_suppressed_def)

lemma push_answer_meaning:
  assumes "requested F tok msg canSend a"
  shows "wp (push_answer F a) (\<lambda>r w'. meaning F tok msg canSend r) (\<lambda>_ _. accepted_by a) w"
proof -
  have rej: "wp (push_rejected F (fr_status a) j) (\<lambda>r w'. meaning F tok msg canSend r) (\<lambda>_ _. accepted_by a) u"
    if "\<not> accepted_by a" "fr_status a = 404 \<or> fcm_error_code j = JStr ''UNREGISTERED'' \<Longrightarrow> dead_token_answer a" for j u
    using that assms unfolding push_rejected_def setFcm_def resetFcm_def Let_def wp_simps by (auto simp: meaning_def)
  have sent: "meaning F tok msg canSend push_sent" if "accepted_by a"
    using that assms by (auto simp: meaning_def push_sent_def)
  show ?thesis
  proof (cases "fr_body a")
    case (Body j)
    show ?thesis using sent rej [of j] Body
      by (auto simp: push_answer_def setFcm_def wp_simps accepted_by_def dead_token_answer_def split: sum.split)
  next
    case (Body_malformed e)
    show ?thesis using sent rej [of "JObj []"] Body_malformed
      by (auto simp: push_answer_def setFcm_def wp_simps accepted_by_def dead_token_answer_def fcm_error_code_def js_or_def)
  next
    case (Body_aborted e)
    show ?thesis using Body_aborted by (simp add: push_answer_def setFcm_def wp_simps meaning_failed)
  qed
qed

lemma push_request_meaning:
  assumes "project \<noteq> []"
  shows "wp (push_request F project tok msg canSend) (\<lambda>r w'. meaning F tok msg canSend r)
     (\<lambda>_ _. \<exists>a. requested F tok msg canSend a \<and> accepted_by a) w"
proof -
  let ?Q = "\<lambda>r w'. meaning F tok msg canSend r" and ?E = "\<lambda>_ _. \<exists>a. requested F tok msg canSend a \<and> accepted_by a"
  have send: "wp (push_fetch F project t tok msg) ?Q ?E u" if "canSend u" "t \<noteq> []" for t u
  proof (cases "fd_fetch F project t tok msg u")
    case (Pair x u')
    show ?thesis
    proof (cases x)
      case (Inl e)
      then show ?thesis using Pair by (simp add: push_fetch_def wp_def tryE_def bindE_def ret_apply setFcm_def meaning_failed)
    next
      case (Inr a)
      have q: "requested F tok msg canSend a" using that assms Pair Inr unfolding requested_def by blast
      have "wp (push_answer F a) ?Q ?E u'"
        by (rule wp_mono [OF push_answer_meaning [OF q]]) (use q in auto)
      then show ?thesis using Pair Inr by (simp add: push_fetch_def wp_def tryE_def bindE_def ret_apply)
    qed
  qed
  have tok: "wp (fd_getAccessToken F) Q E u" if "\<And>t u. Q t u" "\<And>e u. E e u" for Q E u
    using that by (simp add: wp_def split: prod.split sum.split)
  show ?thesis
    unfolding push_request_def wp_bindE wp_tryE wp_ret
    by (rule tok) (auto simp: wp_simps resetFcm_def setFcm_def meaning_failed intro!: send)
qed

text \<open>
  what the outcome of a push proves. A push reported as delivered was requested while the caller's
  guard allowed it at that very moment and was answered with 2xx; a token is reported dead only for
  a complete answer of the provider that says so, never for a timeout; a suppressed push saw the
  guard closed. An exception escapes only after an accepted push, for a malformed answer.
\<close>

theorem push_outcome_meaning:
  "wp (sendPush F tok msg canSend) (\<lambda>r w'. meaning F tok msg canSend r)
     (\<lambda>_ _. \<exists>a. requested F tok msg canSend a \<and> accepted_by a) w"
proof -
  have cl: "wp (getClient F) Q E u" if "\<And>t u. Q t u" "\<And>e u. E e u" for Q E u
    using that by (simp add: wp_def split: prod.split sum.split)
  show ?thesis
    unfolding sendPush_def wp_bindE wp_tryE wp_ret wp_gets
    by (rule cl) (auto simp: wp_simps resetFcm_def setFcm_def meaning_failed intro!: push_request_meaning [unfolded wp_simps])
qed

subsection \<open>The project of a reset client\<close>

text \<open>The project id comes from the service account; provider, token and request answer whatever they do.\<close>

definition inferred_fcm :: "string \<Rightarrow> string \<Rightarrow> (string \<Rightarrow> string \<Rightarrow> string \<Rightarrow> stage_msg \<Rightarrow> ('e fcm_world_scheme, fcm_response) io) \<Rightarrow> ('e fcm_world_scheme) fcm_deps" where
  "inferred_fcm project token request =
     \<lparr>fd_configProjectId = [], fd_loadServiceAccount = ret (Some project), fd_getAccessToken = ret (Some token),
      fd_fetch = request, fd_message = (\<lambda>_. [])\<rparr>"

text \<open>
  without a configured project id, the first send after a reset (at start, or after a 401, 403 or a
  failed token) is always lost: \<open>sendPush\<close> reads the project id before \<open>getClient\<close> infers it from the
  service account, so it reports the transport as not configured and rejected, and no later token
  probe makes it ready again, although the account has been loaded and names the project.
\<close>

theorem first_send_after_reset_lost:
  "(case sendPush (inferred_fcm project token request) tok msg canSend (snd (resetFcm (inferred_fcm project token request) w)) of
      (r, w') \<Rightarrow> r = Inr (push_failed ''fcm_not_configured'') \<and> fw_client w' \<and> fw_projectId w' = project
        \<and> fs_rejected (fw_state w') \<and> \<not> rd_fcm (rw_ready w')
        \<and> \<not> fs_ready (fw_state (snd (probeFcm (inferred_fcm project token request) w'))))"
  by (simp add: sendPush_def probeFcm_def getClient_def resetFcm_def setFcm_def inferred_fcm_def bindE_def tryE_def ret_apply
      throw_apply rd_setFcm_def Let_def)

end
