(* ===== verification/Spec2Isabelle.thy ===== *)
theory Spec2Isabelle
  imports App_Deposit_Props App_Claim_Runs Web_Runs Home_Runs Crank_Math Program_Layout Claim_Size Escalation_Props End_To_End Keeper_Runs Srv_Exec_Runs Srv_Poll_Runs Srv_Ready_Props
begin

text \<open>
  Verification library of Dead Man's Vault. A vault on chain pays its beneficiaries when the owner's
  heartbeat stays out past an interval and a grace period. This development models the mobile app
  (\<open>src/dead-mans-vault/app/src\<close>, below \<open>A\<close>), the notification server (\<open>src/notify-server/src\<close>, below
  \<open>N\<close>), the keeper bot (\<open>src/keeper-bot/src\<close>) and the web console (\<open>src/web/src\<close>, below \<open>W\<close>); the
  on-chain program is modelled only where these decode its accounts, size its transactions or must pass
  its argument checks.

  \<^bold>\<open>How code is modelled.\<close> \<open>Prelude\<close> has the type \<open>('w, 'a) io\<close>, a function from a world to a result
  and a world: \<open>Inl\<close> is an exception with the state reached, \<open>Inr\<close> a value. \<open>bindE\<close> is \<open>await\<close> and
  sequence, \<open>tryE\<close> is \<open>try/catch\<close>, \<open>finallyE\<close> is \<open>finally\<close>, \<open>forE\<close> is \<open>for\<close>. Numbers are \<open>int\<close> with
  the rounding of doubles written out where a value can leave the safe range (\<open>rnd53\<close>, \<open>js_add\<close>), masks
  and account fields are words of their width. \<open>wp m Q E w\<close> says that \<open>m\<close> at \<open>w\<close> ends in \<open>Q\<close> or throws in
  \<open>E\<close>; \<open>yields\<close> and \<open>returns\<close> are its forms for values and for never throwing. Every loop of the model is
  structural or \<open>partial_function (option)\<close>, no fuel is used.

  \<^bold>\<open>The app's transactions.\<close> \<open>Crank_Math\<close> is \<open>A/utils/crankMath.ts\<close>; \<open>Accounts\<close>, \<open>Account_Raw\<close> and
  \<open>Program_Layout\<close> are the two sets of account parsers (\<open>A/utils/rawAccountParsers.ts\<close>,
  \<open>A/services/VaultTransactionService.ts\<close>) and the program's byte layout; \<open>Net\<close> and \<open>Rpc_View\<close> are the
  RPC retries and reads; \<open>Tx_Model\<close>, \<open>Vault_Tx\<close>, \<open>Plan_Tx\<close>, \<open>Revoke_Tx\<close> and \<open>Crank_Tx\<close> are the methods of
  the service that build transactions, with the wire size of a legacy transaction (\<open>Claim_Size\<close>).
  \<open>Rpc_Keeps\<close> shows once, for every builder, that it only reads the RPC. Shown: the claim pays exactly
  the shares still owed, once, in the program's order and in sendable transactions; the parsers agree
  with each other and invert the program's encoding; packing and plan guards are exact.

  \<^bold>\<open>The app's executions.\<close> \<open>App_Exec\<close>, \<open>App_Exec_Props\<close> and \<open>App_Runs\<close> are the execution service
  (\<open>A/services/ExecutionService.ts\<close>: the pass over a vault, its per-address lock, the wait loop of
  \<open>WAIT_ROUNDS\<close> = 24 status polls written as recursion over the list of rounds). \<open>App_Claim\<close> and
  \<open>App_Claim_Runs\<close> are \<open>A/services/ClaimService.ts\<close> with its at most \<open>MAX_PASSES\<close> = 10 passes. Shown: what each asks the wallet or agent to sign
  is a transaction the builders made, nothing is counted that was not confirmed, and the lock and the
  distribution accounts are released on every path that the code releases them on.

  \<^bold>\<open>The device.\<close> \<open>Home_State\<close> is \<open>A/store/useVaultStore.ts\<close>, \<open>A/tee/KeyManager.ts\<close>,
  \<open>A/services/MigrationService.ts\<close> and the dashboard's refresh; \<open>Revoke_Run\<close> is
  \<open>A/services/revokeVault.ts\<close> with \<open>revokeReturnedSol.ts\<close>, \<open>Setup_Run\<close> the activation in
  \<open>A/screens/EstateReviewScreen.tsx\<close>; \<open>Revoke_Props\<close> and \<open>Home_Runs\<close> hold their properties: what a
  revocation clears and when, the round trip of the agent's key, and the outages that lose it.
  Amounts of SOL are exact rationals there; the wiping of a destroyed key's bytes is not modelled.

  \<^bold>\<open>The app's notifications.\<close> \<open>Local_Db\<close> is the SQLite layer (\<open>A/db\<close>), with failing statements;
  \<open>Notify_Auth\<close> the signed texts (\<open>A/utils/notifyAuth.ts\<close>); \<open>Notify_Reg\<close>, \<open>Notify_Reg_Props\<close> and
  \<open>Notify_Dereg\<close> the registration service; \<open>Notify_Life\<close> and \<open>Notify_Life_Props\<close> the observer and the
  operation lock. Shown: the attempts refine abstract protocols over a log of events, revisions
  increase over sessions, the texts bind all fields, and three defects.

  \<^bold>\<open>Heartbeat and escalation.\<close> \<open>Escalation\<close> and \<open>Escalation_Props\<close> are \<open>A/services/HeartbeatService.ts\<close>,
  \<open>A/services/EscalationService.ts\<close>, the store and the hook that wires them, as an interleaving step
  relation. An evaluation with the storage calls it awaits is one step of that relation. Shown: the
  execution fires at most once between resets, and for a silent owner it fires with the first tick after
  the grace period and with none before.

  \<^bold>\<open>The server.\<close> \<open>Srv_Store\<close> is the database (\<open>N/registrationStore.js\<close>, \<open>N/db.js\<close>), \<open>Srv_Auth\<close> the
  owner-signed authorization, \<open>Srv_Gate\<close> limits, legacy window, secrets and boot configuration,
  \<open>Srv_Routes\<close> the endpoints; the \<open>_Props\<close> theories and \<open>Srv_Replay\<close> hold their properties: atomic
  operations refining functional effects, signed rows that only their owner changes, no replay but of
  a request in flight while its nonce is pruned, registrations and removals authorized only with the
  owner's signature over the command's own text. \<open>End_To_End\<close> runs the
  app's registration against the server over a lossy network. \<open>Srv_Ready\<close> and \<open>Srv_Ready_Props\<close> are the
  network check and the readiness of \<open>N/readiness.js\<close>; \<open>Srv_Chain\<close> the account reads of \<open>N/solana.js\<close>;
  \<open>Srv_Push\<close> stages and messages (\<open>N/escalation.js\<close>, \<open>N/fcm.js\<close>); \<open>Srv_Poll\<close>, \<open>Srv_Poll_Props\<close> and
  \<open>Srv_Poll_Runs\<close> the poller (\<open>N/poller.js\<close>); \<open>Srv_Exec\<close>, \<open>Srv_Exec_Props\<close> and \<open>Srv_Exec_Runs\<close> the
  executor (\<open>N/executor.js\<close>, \<open>N/computeBudget.js\<close>). \<open>Keeper_Crank\<close>, \<open>Keeper_Loop\<close>,
  \<open>Keeper_Props\<close> and \<open>Keeper_Runs\<close> are the keeper bot, whose crank is translated from its own
  \<open>crank.js\<close>. Shown: nothing is sent unless the guard holds at that moment and the accounts as read
  justify it, one mint that stays stuck blocks the finalize, the keeper's crank does what the server's
  does, and the owner is told of a stage once per escalation, with repetitions hours apart.

  \<^bold>\<open>The web console.\<close> \<open>Js_Double\<close> has the IEEE doubles of JavaScript as rationals with the rounding
  written out, \<open>parseFloat\<close>, \<open>Number\<close> and \<open>Math.round\<close>. \<open>Web_Core\<close> is the network check
  (\<open>A/utils/rpcConfig.ts\<close>, \<open>A/store/useNetworkStore.ts\<close>, \<open>W/BootGate.tsx\<close>) and the hooks
  (\<open>W/lib/ownerTx.ts\<close>, \<open>W/hooks/useOwnerActions.ts\<close>, \<open>useVault.ts\<close>, \<open>useClaim.ts\<close>, \<open>useInheritances.ts\<close>);
  \<open>Web_Editors\<close> the beneficiary and bequest editors (\<open>W/components\<close>) and the deposit panel, with the
  program's checks they must satisfy. \<open>Web_Core_Props\<close>, \<open>Web_Share_Props\<close>, \<open>Web_Bequest_Props\<close> and
  \<open>Web_Runs\<close> hold the properties. Shown: what an editor lets through passes the program's checks of the
  list and of its mints, saving an untouched plan of assignments the editor can represent restores it
  exactly below 2^51 and cannot above 2^53, nothing is signed on an unverified network, and a failed read
  is never shown as a missing vault (but drops a plan).

  \<^bold>\<open>Deposits.\<close> \<open>App_Deposit\<close> is \<open>A/components/DepositModal.tsx\<close> with the handlers of
  \<open>A/screens/DashboardScreen.tsx\<close> behind it, \<open>App_Deposit_Props\<close> that no typed amount moves more than
  the balance, although it is compared and scaled as a double.

  \<^bold>\<open>Interfaces.\<close> The locales \<open>paid_mask\<close> (a bit mask of payments), \<open>codec\<close> (a field of an account),
  \<open>kv_store\<close>, \<open>signing_env\<close>, \<open>registration_env\<close> and \<open>deregistration_env\<close> state what a client relies on;
  each is interpreted on the model's own definitions in the theory of its provider.

  \<^bold>\<open>Parameters.\<close> Base58, SHA-256, Ed25519, key generation, PDA derivation, JSON text, number printing,
  the wallet, the secure store, the clock, the RPC node and the push service are arguments of the
  definitions that use them.

  \<^bold>\<open>Not modelled.\<close> React screens, components and navigation of the app and the markup of the console
  except the handlers named above, names and logos of tokens, generated
  IDL types (\<open>A/utils/dead_mans_vault.ts\<close>, \<open>dead_mans_vault_types.ts\<close>), static tables, the portfolio
  scanner with its DeFi detectors, Metaplex and price readers, the redaction of log lines by regular
  expressions (\<open>fatalGuards.js\<close>), metrics, logs and the health report, schema creation, the chat bot, the
  Rust program beyond its account layouts, release scripts and the test files.
\<close>

end
